(* ===== verification/VhalPrelude.thy ===== *)
theory VhalPrelude
  imports Main "HOL-Library.Word" "HOL-Library.AList" "HOL-Library.Multiset"
begin

text \<open>
  Shared material of the development: names for the machine integers of the C++ code, the
  association lists that stand for its hash maps, a generic invariant principle for step
  relations, and the lemma collections the component theories extend.

  \<^item> \<open>int32\<close>, \<open>int64\<close>, \<open>size_t\<close>, \<open>byte\<close>: fixed-width words; signed readings use \<open>sint\<close>.
  \<^item> An \<^verbatim>\<open>std::unordered_map\<close> is an association list with distinct keys: \<open>map_of\<close> is
    \<^verbatim>\<open>find\<close>, \<open>AList.update\<close> is \<^verbatim>\<open>operator[]\<close> assignment, \<open>AList.delete\<close> is \<^verbatim>\<open>erase\<close>. The order of the
    list is the iteration order, which C++ leaves open; theorems hold for every order.
  \<^item> An \<^verbatim>\<open>std::unordered_set\<close> that is iterated is a duplicate-free list.
\<close>

unbundle bit_operations_syntax

section \<open>Machine integers\<close>

type_synonym int32 = "32 word"
type_synonym int64 = "64 word"
type_synonym size_t = "64 word"
type_synonym byte = "8 word"

section \<open>Lemma collections\<close>

named_theorems wf_intros \<open>preservation of well-formedness by single operations\<close>
named_theorems shape_simps \<open>sizes and shapes of property values\<close>

section \<open>Association lists\<close>

definition keys_of :: "('k \<times> 'v) list \<Rightarrow> 'k set" where
  "keys_of xs = fst ` set xs"

abbreviation wf_alist :: "('k \<times> 'v) list \<Rightarrow> bool" where
  "wf_alist xs \<equiv> distinct (map fst xs)"

lemma keys_of_dom: "keys_of xs = dom (map_of xs)"
  by (simp add: keys_of_def dom_map_of_conv_image_fst)

lemma map_of_update [simp]: "map_of (AList.update k v xs) = (map_of xs)(k \<mapsto> v)"
  by (simp add: update_conv')

lemma map_of_delete [simp]: "map_of (AList.delete k xs) = (map_of xs)(k := None)"
  by (simp add: delete_conv')

lemma wf_alist_update [simp, intro]: "wf_alist xs \<Longrightarrow> wf_alist (AList.update k v xs)"
  by (simp add: distinct_update)

lemma wf_alist_delete [simp, intro]: "wf_alist xs \<Longrightarrow> wf_alist (AList.delete k xs)"
  by (simp add: distinct_delete)

lemma update_same: "map_of xs k = Some v \<Longrightarrow> AList.update k v xs = xs"
  by (induction xs) auto

lemma update_new: "k \<notin> fst ` set xs \<Longrightarrow> AList.update k v xs = xs @ [(k, v)]"
  by (induction xs) auto

lemma map_of_Some_iff: "wf_alist xs \<Longrightarrow> map_of xs k = Some v \<longleftrightarrow> (k, v) \<in> set xs"
  by (auto dest: map_of_SomeD)

lemma set_update_distinct:
  "wf_alist xs \<Longrightarrow> set (AList.update k v xs) = insert (k, v) (set xs - {k} \<times> UNIV)"
proof -
  assume wf: "wf_alist xs"
  then have wf': "wf_alist (AList.update k v xs)" by simp
  have "(k', v') \<in> set (AList.update k v xs) \<longleftrightarrow>
      (k', v') \<in> insert (k, v) (set xs - {k} \<times> UNIV)" for k' v'
    using map_of_Some_iff [OF wf', of k' v'] map_of_Some_iff [OF wf, of k' v']
    by (auto split: if_splits)
  then show ?thesis by auto
qed

lemma keys_update: "fst ` set (AList.update k v xs) = insert k (fst ` set xs)"
  by (induction xs) auto

text \<open>Updating the value of a key that is present keeps its position.\<close>

lemma keys_update_present:
  "k \<in> set (map fst xs) \<Longrightarrow> map fst (AList.update k v xs) = map fst xs"
  by (induction xs) auto

section \<open>Invariants of step relations\<close>

text \<open>
  The contract shared by the components that are state machines: an invariant of the start
  states that every step keeps. Each component interprets it with its own step relation.
\<close>

locale step_invariant =
  fixes start :: "'s \<Rightarrow> bool"
    and step :: "'s \<Rightarrow> 's \<Rightarrow> bool"
    and inv :: "'s \<Rightarrow> bool"
  assumes start_inv: "start s \<Longrightarrow> inv s"
    and step_inv: "inv s \<Longrightarrow> step s t \<Longrightarrow> inv t"
begin

lemma steps_inv: "step\<^sup>*\<^sup>* s t \<Longrightarrow> inv s \<Longrightarrow> inv t"
  by (induction rule: rtranclp_induct) (auto intro: step_inv)

lemma reachable_inv: "start s \<Longrightarrow> step\<^sup>*\<^sup>* s t \<Longrightarrow> inv t"
  using steps_inv start_inv by blast

end

section \<open>Words\<close>

lemma sint_neq: "x \<noteq> y \<Longrightarrow> sint x < sint y \<or> sint y < sint (x :: 'a :: len word)"
  by (metis linorder_less_linear signed_word_eqI)

section \<open>Lists\<close>

lemma takeWhile_sorted_filter:
  "sorted_wrt (\<lambda>x y. f x \<le> (f y :: int)) xs \<Longrightarrow>
    takeWhile (\<lambda>x. f x < c) xs = filter (\<lambda>x. f x < c) xs"
proof (induction xs)
  case Nil
  then show ?case by simp
next
  case (Cons x xs)
  then have "f x \<le> f y" if "y \<in> set xs" for y using that by simp
  then have "filter (\<lambda>x. f x < c) xs = []" if "\<not> f x < c"
    using that by (fastforce simp: filter_empty_conv)
  with Cons show ?case by auto
qed

lemma dropWhile_sorted_filter:
  "sorted_wrt (\<lambda>x y. f x \<le> (f y :: int)) xs \<Longrightarrow>
    dropWhile (\<lambda>x. f x < c) xs = filter (\<lambda>x. c \<le> f x) xs"
proof (induction xs)
  case Nil
  then show ?case by simp
next
  case (Cons x xs)
  then have "f x \<le> f y" if "y \<in> set xs" for y using that by simp
  then have "filter (\<lambda>x. c \<le> f x) xs = xs" if "\<not> f x < c"
    using that by (fastforce simp: filter_id_conv)
  with Cons show ?case by auto
qed

lemma sorted_wrt_filter': "sorted_wrt P xs \<Longrightarrow> sorted_wrt P (filter Q xs)"
  by (induction xs) auto

end
