(* ===== verification/Float32.thy ===== *)
theory Float32
  imports VhalPrelude
begin

text \<open>
  IEEE 754 single precision, the C++ type \<^verbatim>\<open>float\<close> of the repository's property values and
  sample rates. A \<^verbatim>\<open>float\<close> is its 32-bit pattern; comparison, the correctly rounded (nearest,
  ties to even) quotient and product, \<^verbatim>\<open>std::round\<close> and the conversions from and to integers
  are computed on the pattern with integer arithmetic only, so they evaluate in the kernel.
\<close>

type_synonym f32 = "32 word"

section \<open>Fields of the pattern\<close>

definition f32_neg :: "f32 \<Rightarrow> bool" where
  "f32_neg x = bit x 31"

definition f32_mag :: "f32 \<Rightarrow> int" where
  "f32_mag x = uint (x AND 0x7FFFFFFF)"

definition f32_is_nan :: "f32 \<Rightarrow> bool" where
  "f32_is_nan x \<longleftrightarrow> 0x7F800000 < f32_mag x"

definition f32_is_inf :: "f32 \<Rightarrow> bool" where
  "f32_is_inf x \<longleftrightarrow> f32_mag x = 0x7F800000"

definition f32_exp :: "f32 \<Rightarrow> int" where
  "f32_exp x = f32_mag x div 2 ^ 23"

definition f32_sig :: "f32 \<Rightarrow> int" where
  "f32_sig x = (if f32_exp x = 0 then f32_mag x mod 2 ^ 23 else f32_mag x mod 2 ^ 23 + 2 ^ 23)"

text \<open>A finite value is \<open>f32_num / f32_den\<close> up to its sign.\<close>

definition f32_num :: "f32 \<Rightarrow> int" where
  "f32_num x = f32_sig x * 2 ^ nat (f32_exp x - 150)"

definition f32_den :: "f32 \<Rightarrow> int" where
  "f32_den x = 2 ^ nat (150 - max 1 (f32_exp x))"

section \<open>Comparison\<close>

text \<open>The signed magnitude orders all values but NaN; both zeros have key 0.\<close>

definition f32_key :: "f32 \<Rightarrow> int" where
  "f32_key x = (if f32_neg x then - f32_mag x else f32_mag x)"

definition f32_lt :: "f32 \<Rightarrow> f32 \<Rightarrow> bool" where
  "f32_lt x y \<longleftrightarrow> \<not> f32_is_nan x \<and> \<not> f32_is_nan y \<and> f32_key x < f32_key y"

definition f32_le :: "f32 \<Rightarrow> f32 \<Rightarrow> bool" where
  "f32_le x y \<longleftrightarrow> \<not> f32_is_nan x \<and> \<not> f32_is_nan y \<and> f32_key x \<le> f32_key y"

definition f32_eq :: "f32 \<Rightarrow> f32 \<Rightarrow> bool" where
  "f32_eq x y \<longleftrightarrow> \<not> f32_is_nan x \<and> \<not> f32_is_nan y \<and> f32_key x = f32_key y"

lemmas f32_cmp_defs = f32_lt_def f32_le_def f32_eq_def

lemma f32_lt_irrefl [simp]: "\<not> f32_lt x x"
  by (simp add: f32_cmp_defs)

lemma f32_lt_trans: "f32_lt x y \<Longrightarrow> f32_lt y z \<Longrightarrow> f32_lt x z"
  by (simp add: f32_cmp_defs)

lemma f32_lt_asym: "f32_lt x y \<Longrightarrow> \<not> f32_lt y x"
  by (simp add: f32_cmp_defs)

lemma f32_eq_sym: "f32_eq x y \<longleftrightarrow> f32_eq y x"
  by (auto simp: f32_cmp_defs)

lemma f32_eq_trans: "f32_eq x y \<Longrightarrow> f32_eq y z \<Longrightarrow> f32_eq x z"
  by (simp add: f32_cmp_defs)

lemma f32_eq_refl_iff [simp]: "f32_eq x x \<longleftrightarrow> \<not> f32_is_nan x"
  by (simp add: f32_cmp_defs)

lemma f32_le_iff: "f32_le x y \<longleftrightarrow> f32_lt x y \<or> f32_eq x y"
  by (auto simp: f32_cmp_defs)

lemma f32_trichotomy:
  "\<not> f32_is_nan x \<Longrightarrow> \<not> f32_is_nan y \<Longrightarrow> f32_lt x y \<or> f32_eq x y \<or> f32_lt y x"
  by (auto simp: f32_cmp_defs)

section \<open>Correctly rounded arithmetic\<close>

text \<open>Nearest integer to \<open>a / b\<close>, ties to even.\<close>

definition rne_div :: "int \<Rightarrow> int \<Rightarrow> int" where
  "rne_div a b =
     (let q = a div b; r = a mod b
      in if 2 * r < b \<or> (2 * r = b \<and> even q) then q else q + 1)"

function bit_len :: "int \<Rightarrow> int" where
  "bit_len n = (if n \<le> 0 then 0 else 1 + bit_len (n div 2))"
  by pat_completeness auto
termination
  by (relation "measure nat") auto

declare bit_len.simps [simp del]

text \<open>
  The exponent of the last place of \<open>n / d\<close> in single precision: 24 significant bits, and
  never below \<open>-149\<close> (the subnormal range).
\<close>

definition f32_ulp :: "int \<Rightarrow> int \<Rightarrow> int" where
  "f32_ulp n d =
     (let k = bit_len n - bit_len d;
          above = (if 0 \<le> k then d * 2 ^ nat k \<le> n else d \<le> n * 2 ^ nat (- k))
      in max (- 149) ((if above then k else k - 1) - 23))"

definition f32_round_mag :: "int \<Rightarrow> int \<Rightarrow> int" where
  "f32_round_mag n d =
     (if n = 0 then 0
      else let e = f32_ulp n d;
               m = (if 0 \<le> e then rne_div n (d * 2 ^ nat e) else rne_div (n * 2 ^ nat (- e)) d)
           in min 0x7F800000 ((e + 149) * 2 ^ 23 + m))"

definition f32_pack :: "bool \<Rightarrow> int \<Rightarrow> f32" where
  "f32_pack neg m = (if neg then 0x80000000 OR of_int m else of_int m)"

definition f32_of_frac :: "bool \<Rightarrow> int \<Rightarrow> int \<Rightarrow> f32" where
  "f32_of_frac neg n d = f32_pack neg (f32_round_mag n d)"

definition f32_nan :: f32 where
  "f32_nan = 0x7FC00000"

definition f32_of_int :: "int \<Rightarrow> f32" where
  "f32_of_int i = f32_of_frac (i < 0) \<bar>i\<bar> 1"

definition f32_div :: "f32 \<Rightarrow> f32 \<Rightarrow> f32" where
  "f32_div x y =
     (let s = (f32_neg x \<noteq> f32_neg y)
      in if f32_is_nan x \<or> f32_is_nan y then f32_nan
         else if f32_is_inf x then (if f32_is_inf y then f32_nan else f32_pack s 0x7F800000)
         else if f32_is_inf y then f32_pack s 0
         else if f32_mag y = 0 then (if f32_mag x = 0 then f32_nan else f32_pack s 0x7F800000)
         else f32_of_frac s (f32_num x * f32_den y) (f32_den x * f32_num y))"

definition f32_mult :: "f32 \<Rightarrow> f32 \<Rightarrow> f32" where
  "f32_mult x y =
     (let s = (f32_neg x \<noteq> f32_neg y)
      in if f32_is_nan x \<or> f32_is_nan y then f32_nan
         else if f32_is_inf x \<or> f32_is_inf y
         then (if f32_mag x = 0 \<or> f32_mag y = 0 then f32_nan else f32_pack s 0x7F800000)
         else f32_of_frac s (f32_num x * f32_num y) (f32_den x * f32_den y))"

text \<open>Difference: exact on fractions, rounded once; a zero result is negative only for \<open>-0 - +0\<close>.\<close>

definition f32_abs :: "f32 \<Rightarrow> f32" where
  "f32_abs x = x AND 0x7FFFFFFF"

definition f32_sub :: "f32 \<Rightarrow> f32 \<Rightarrow> f32" where
  "f32_sub x y =
     (if f32_is_nan x \<or> f32_is_nan y then f32_nan
      else if f32_is_inf x then (if f32_is_inf y \<and> f32_neg x = f32_neg y then f32_nan else x)
      else if f32_is_inf y then f32_pack (\<not> f32_neg y) 0x7F800000
      else let n = (if f32_neg x then - f32_num x else f32_num x) * f32_den y
                     - (if f32_neg y then - f32_num y else f32_num y) * f32_den x
           in f32_of_frac (if n = 0 then f32_neg x \<and> \<not> f32_neg y else n < 0) \<bar>n\<bar> (f32_den x * f32_den y))"

text \<open>\<^verbatim>\<open>std::round\<close>: nearest integer, halves away from zero, sign kept.\<close>

definition f32_roundf :: "f32 \<Rightarrow> f32" where
  "f32_roundf x =
     (if f32_is_nan x \<or> f32_is_inf x then x
      else f32_of_frac (f32_neg x) ((2 * f32_num x + f32_den x) div (2 * f32_den x)) 1)"

text \<open>Conversion to an integer truncates; NaN and infinities have no integer value.\<close>

definition f32_trunc :: "f32 \<Rightarrow> int option" where
  "f32_trunc x =
     (if f32_is_nan x \<or> f32_is_inf x then None
      else let m = f32_num x div f32_den x in Some (if f32_neg x then - m else m))"

end
