(* ===== verification/VehicleTypes.thy ===== *)
theory VehicleTypes
  imports Float32
begin

text \<open>
  The data of the vehicle HAL: the AIDL enums and parcelables of
  \<^verbatim>\<open>packages/vhal-types/aidl*/android/hardware/automotive/vehicle\<close> as datatypes and records, with
  the equality the generated C++ headers give them. A C++ enum may hold a number that is none of
  its enumerators (a cast from \<^verbatim>\<open>int32_t\<close>); the property type keeps it in an extra constructor,
  because the code has a \<^verbatim>\<open>default\<close> branch for it.
\<close>

section \<open>Enums\<close>

datatype StatusCode =
    OK | TRY_AGAIN | INVALID_ARG | NOT_AVAILABLE | ACCESS_DENIED | INTERNAL_ERROR
  | NOT_AVAILABLE_DISABLED | NOT_AVAILABLE_SPEED_LOW | NOT_AVAILABLE_SPEED_HIGH
  | NOT_AVAILABLE_POOR_VISIBILITY | NOT_AVAILABLE_SAFETY | NOT_AVAILABLE_SUBSYSTEM_NOT_CONNECTED

fun StatusCode_toInt :: "StatusCode \<Rightarrow> int32" where
  "StatusCode_toInt OK = 0"
| "StatusCode_toInt TRY_AGAIN = 1"
| "StatusCode_toInt INVALID_ARG = 2"
| "StatusCode_toInt NOT_AVAILABLE = 3"
| "StatusCode_toInt ACCESS_DENIED = 4"
| "StatusCode_toInt INTERNAL_ERROR = 5"
| "StatusCode_toInt NOT_AVAILABLE_DISABLED = 6"
| "StatusCode_toInt NOT_AVAILABLE_SPEED_LOW = 7"
| "StatusCode_toInt NOT_AVAILABLE_SPEED_HIGH = 8"
| "StatusCode_toInt NOT_AVAILABLE_POOR_VISIBILITY = 9"
| "StatusCode_toInt NOT_AVAILABLE_SAFETY = 10"
| "StatusCode_toInt NOT_AVAILABLE_SUBSYSTEM_NOT_CONNECTED = 11"

text \<open>
  The generated headers order an enum by its number (\<^verbatim>\<open>operator<\<close>); the instance gives the status
  codes that order, so that the library's order facts apply to them.
\<close>

lemma StatusCode_toInt_inj: "sint (StatusCode_toInt a) = sint (StatusCode_toInt b) \<Longrightarrow> a = b"
  by (cases a; cases b) simp_all

instantiation StatusCode :: linorder
begin

definition less_eq_StatusCode :: "StatusCode \<Rightarrow> StatusCode \<Rightarrow> bool" where
  "a \<le> b \<longleftrightarrow> sint (StatusCode_toInt a) \<le> sint (StatusCode_toInt b)"

definition less_StatusCode :: "StatusCode \<Rightarrow> StatusCode \<Rightarrow> bool" where
  "a < b \<longleftrightarrow> sint (StatusCode_toInt a) < sint (StatusCode_toInt b)"

instance
  by intro_classes
    (auto simp: less_eq_StatusCode_def less_StatusCode_def dest: StatusCode_toInt_inj)

end

datatype VehiclePropertyStatus =
    AVAILABLE | UNAVAILABLE | ERROR
  | PS_NOT_AVAILABLE_DISABLED | PS_NOT_AVAILABLE_SPEED_LOW | PS_NOT_AVAILABLE_SPEED_HIGH
  | PS_NOT_AVAILABLE_POOR_VISIBILITY | PS_NOT_AVAILABLE_SAFETY
  | PS_NOT_AVAILABLE_SUBSYSTEM_NOT_CONNECTED

fun VehiclePropertyStatus_toInt :: "VehiclePropertyStatus \<Rightarrow> int32" where
  "VehiclePropertyStatus_toInt AVAILABLE = 0"
| "VehiclePropertyStatus_toInt UNAVAILABLE = 1"
| "VehiclePropertyStatus_toInt ERROR = 2"
| "VehiclePropertyStatus_toInt PS_NOT_AVAILABLE_DISABLED = 0x1001"
| "VehiclePropertyStatus_toInt PS_NOT_AVAILABLE_SPEED_LOW = 0x1002"
| "VehiclePropertyStatus_toInt PS_NOT_AVAILABLE_SPEED_HIGH = 0x1003"
| "VehiclePropertyStatus_toInt PS_NOT_AVAILABLE_POOR_VISIBILITY = 0x1004"
| "VehiclePropertyStatus_toInt PS_NOT_AVAILABLE_SAFETY = 0x1005"
| "VehiclePropertyStatus_toInt PS_NOT_AVAILABLE_SUBSYSTEM_NOT_CONNECTED = 0x1006"

datatype VehiclePropertyAccess = ACCESS_NONE | READ | WRITE | READ_WRITE

fun VehiclePropertyAccess_toInt :: "VehiclePropertyAccess \<Rightarrow> int32" where
  "VehiclePropertyAccess_toInt ACCESS_NONE = 0"
| "VehiclePropertyAccess_toInt READ = 1"
| "VehiclePropertyAccess_toInt WRITE = 2"
| "VehiclePropertyAccess_toInt READ_WRITE = 3"

datatype VehiclePropertyChangeMode = STATIC | ON_CHANGE | CONTINUOUS

fun VehiclePropertyChangeMode_toInt :: "VehiclePropertyChangeMode \<Rightarrow> int32" where
  "VehiclePropertyChangeMode_toInt STATIC = 0"
| "VehiclePropertyChangeMode_toInt ON_CHANGE = 1"
| "VehiclePropertyChangeMode_toInt CONTINUOUS = 2"

datatype VehiclePropertyType =
    STRING | BOOLEAN | INT32 | INT32_VEC | INT64 | INT64_VEC | FLOAT | FLOAT_VEC | BYTES | MIXED
  | OTHER_TYPE int32

fun VehiclePropertyType_toInt :: "VehiclePropertyType \<Rightarrow> int32" where
  "VehiclePropertyType_toInt STRING = 0x00100000"
| "VehiclePropertyType_toInt BOOLEAN = 0x00200000"
| "VehiclePropertyType_toInt INT32 = 0x00400000"
| "VehiclePropertyType_toInt INT32_VEC = 0x00410000"
| "VehiclePropertyType_toInt INT64 = 0x00500000"
| "VehiclePropertyType_toInt INT64_VEC = 0x00510000"
| "VehiclePropertyType_toInt FLOAT = 0x00600000"
| "VehiclePropertyType_toInt FLOAT_VEC = 0x00610000"
| "VehiclePropertyType_toInt BYTES = 0x00700000"
| "VehiclePropertyType_toInt MIXED = 0x00e00000"
| "VehiclePropertyType_toInt (OTHER_TYPE w) = w"

definition VehiclePropertyType_MASK :: int32 where
  "VehiclePropertyType_MASK = 0x00ff0000"

definition VehiclePropertyType_cast :: "int32 \<Rightarrow> VehiclePropertyType" where
  "VehiclePropertyType_cast w =
     (if w = 0x00100000 then STRING else if w = 0x00200000 then BOOLEAN
      else if w = 0x00400000 then INT32 else if w = 0x00410000 then INT32_VEC
      else if w = 0x00500000 then INT64 else if w = 0x00510000 then INT64_VEC
      else if w = 0x00600000 then FLOAT else if w = 0x00610000 then FLOAT_VEC
      else if w = 0x00700000 then BYTES else if w = 0x00e00000 then MIXED
      else OTHER_TYPE w)"

lemma VehiclePropertyType_cast_toInt:
  "VehiclePropertyType_toInt (VehiclePropertyType_cast w) = w"
  by (simp add: VehiclePropertyType_cast_def)

text \<open>Groups and areas are compared with single enumerators only, so they stay numbers.\<close>

definition GROUP_SYSTEM :: int32 where "GROUP_SYSTEM = 0x10000000"
definition GROUP_VENDOR :: int32 where "GROUP_VENDOR = 0x20000000"
definition VehiclePropertyGroup_MASK :: int32 where "VehiclePropertyGroup_MASK = 0xf0000000"
definition AREA_GLOBAL :: int32 where "AREA_GLOBAL = 0x01000000"
definition VehicleArea_MASK :: int32 where "VehicleArea_MASK = 0x0f000000"

section \<open>Property values\<close>

record RawPropValues =
  int32Values :: "int32 list"
  floatValues :: "f32 list"
  int64Values :: "int64 list"
  byteValues :: "byte list"
  stringValue :: string

definition empty_raw :: RawPropValues where
  "empty_raw = \<lparr>int32Values = [], floatValues = [], int64Values = [], byteValues = [],
                stringValue = []\<rparr>"

record VehiclePropValue =
  pv_timestamp :: int64
  pv_areaId :: int32
  pv_prop :: int32
  pv_status :: VehiclePropertyStatus
  pv_value :: RawPropValues

definition empty_prop_value :: VehiclePropValue where
  "empty_prop_value = \<lparr>pv_timestamp = 0, pv_areaId = 0, pv_prop = 0, pv_status = AVAILABLE,
                       pv_value = empty_raw\<rparr>"

text \<open>
  The generated \<^verbatim>\<open>operator==\<close> of the parcelables compares field by field; on float vectors it is the
  IEEE comparison, so a vector with a NaN differs from itself and the two zeros are equal.
\<close>

definition raw_eq :: "RawPropValues \<Rightarrow> RawPropValues \<Rightarrow> bool" where
  "raw_eq a b \<longleftrightarrow>
     int32Values a = int32Values b \<and> list_all2 f32_eq (floatValues a) (floatValues b) \<and>
     int64Values a = int64Values b \<and> byteValues a = byteValues b \<and> stringValue a = stringValue b"

definition no_nan :: "RawPropValues \<Rightarrow> bool" where
  "no_nan v \<longleftrightarrow> list_all (\<lambda>x. \<not> f32_is_nan x) (floatValues v)"

lemma raw_eq_refl_iff: "raw_eq a a \<longleftrightarrow> no_nan a"
  by (auto simp: raw_eq_def no_nan_def list_all2_same list_all_iff)

lemma raw_eq_sym: "raw_eq a b \<longleftrightarrow> raw_eq b a"
  by (auto simp: raw_eq_def list_all2_conv_all_nth f32_eq_sym)

lemma raw_eq_trans: "raw_eq a b \<Longrightarrow> raw_eq b c \<Longrightarrow> raw_eq a c"
  by (auto simp: raw_eq_def intro: list_all2_trans [of f32_eq f32_eq f32_eq, OF f32_eq_trans])

section \<open>Configurations\<close>

record HasSupportedValueInfo =
  hasMinSupportedValue :: bool
  hasMaxSupportedValue :: bool
  hasSupportedValuesList :: bool

record VehicleAreaConfig =
  ac_areaId :: int32
  minInt32Value :: int32
  maxInt32Value :: int32
  minInt64Value :: int64
  maxInt64Value :: int64
  minFloatValue :: f32
  maxFloatValue :: f32
  supportedEnumValues :: "int64 list option"
  ac_access :: VehiclePropertyAccess
  supportVariableUpdateRate :: bool
  ac_hasSupportedValueInfo :: "HasSupportedValueInfo option"

record VehiclePropConfig =
  pc_prop :: int32
  pc_access :: VehiclePropertyAccess
  changeMode :: VehiclePropertyChangeMode
  areaConfigs :: "VehicleAreaConfig list"
  configArray :: "int32 list"
  configString :: string
  minSampleRate :: f32
  maxSampleRate :: f32

section \<open>Requests, results, subscriptions\<close>

record PropIdAreaId =
  pa_propId :: int32
  pa_areaId :: int32

record SubscribeOptions =
  so_propId :: int32
  so_areaIds :: "int32 list"
  so_sampleRate :: f32
  so_resolution :: f32
  so_enableVur :: bool

record GetValueRequest =
  gr_requestId :: int64
  gr_prop :: VehiclePropValue

record SetValueRequest =
  sr_requestId :: int64
  sr_value :: VehiclePropValue

record GetValueResult =
  gv_requestId :: int64
  gv_status :: StatusCode
  gv_prop :: "VehiclePropValue option"

record SetValueResult =
  sv_requestId :: int64
  sv_status :: StatusCode

text \<open>\<^verbatim>\<open>VhalResult<T>\<close>: a status code on the error side.\<close>

type_synonym 'a VhalResult = "StatusCode + 'a"

end
