(* ===== verification/RequestPool.thy ===== *)
theory RequestPool
  imports VehicleTypes
begin

text \<open>
  \<^verbatim>\<open>PendingRequestPool.h\<close> and \<^verbatim>\<open>PendingRequestPool.cpp\<close>: the requests each client still waits for, with
  the deadline after which a request is answered by its timeout callback. Every method holds \<^verbatim>\<open>mLock\<close>,
  so a method is one atomic step; the callbacks of \<^verbatim>\<open>checkTimeout\<close> run after the lock is released and
  are returned. An \<^verbatim>\<open>unordered_set\<close> of request ids is a duplicate-free list; a callback is a value of
  the type parameter; the clock reading is an argument.
\<close>

section \<open>State\<close>

type_synonym client_id = nat

record 'cb PendingRequest =
  requestIds :: "int64 list"
  timeoutTimestamp :: int64
  pr_callback :: 'cb

record 'cb PendingRequestPool =
  mTimeoutInNano :: int64
  mPendingRequestsByClient :: "(client_id \<times> 'cb PendingRequest list) list"
  mThreadStop :: bool

definition MAX_PENDING_REQUEST_PER_CLIENT :: size_t where
  "MAX_PENDING_REQUEST_PER_CLIENT = 10000"

definition CHECK_TIME_IN_NANO :: int64 where "CHECK_TIME_IN_NANO = 1000000000"

definition newRequestPool :: "int64 \<Rightarrow> 'cb PendingRequestPool" where
  "newRequestPool timeoutInNano =
     \<lparr>mTimeoutInNano = timeoutInNano, mPendingRequestsByClient = [], mThreadStop = False\<rparr>"

section \<open>Operations\<close>

text \<open>The scan of \<^verbatim>\<open>addRequests\<close>: the first clash ends it, otherwise it counts the pending ids.\<close>

fun scan_pending :: "int64 list \<Rightarrow> 'cb PendingRequest list \<Rightarrow> size_t \<Rightarrow> size_t VhalResult" where
  "scan_pending ids [] n = Inr n"
| "scan_pending ids (r # rs) n =
     (case find (\<lambda>i. i \<in> set (requestIds r)) ids of
        Some _ \<Rightarrow> Inl INVALID_ARG
      | None \<Rightarrow> scan_pending ids rs (n + of_nat (length (requestIds r))))"

definition pool_addRequests ::
  "client_id \<Rightarrow> int64 list \<Rightarrow> 'cb \<Rightarrow> int64 \<Rightarrow> 'cb PendingRequestPool \<Rightarrow>
     unit VhalResult \<times> 'cb PendingRequestPool" where
  "pool_addRequests clientId ids cb currentTime p =
     (let existing = map_of (mPendingRequestsByClient p) clientId;
          pendingRequests = (case existing of None \<Rightarrow> [] | Some rs \<Rightarrow> rs);
          p' = (if existing = None
                then p\<lparr>mPendingRequestsByClient := AList.update clientId [] (mPendingRequestsByClient p)\<rparr>
                else p)
      in case scan_pending ids pendingRequests 0 of
           Inl err \<Rightarrow> (Inl err, p')
         | Inr pendingRequestCount \<Rightarrow>
             if of_nat (length ids) > MAX_PENDING_REQUEST_PER_CLIENT - pendingRequestCount
             then (Inl TRY_AGAIN, p')
             else (Inr (), p'\<lparr>mPendingRequestsByClient := AList.update clientId
                     (pendingRequests @ [\<lparr>requestIds = ids, timeoutTimestamp = currentTime + mTimeoutInNano p,
                                          pr_callback = cb\<rparr>])
                     (mPendingRequestsByClient p')\<rparr>))"

definition isRequestPendingLocked :: "client_id \<Rightarrow> int64 \<Rightarrow> 'cb PendingRequestPool \<Rightarrow> bool" where
  "isRequestPendingLocked clientId requestId p =
     (case map_of (mPendingRequestsByClient p) clientId of
        None \<Rightarrow> False
      | Some rs \<Rightarrow> list_ex (\<lambda>r. requestId \<in> set (requestIds r)) rs)"

definition isRequestPending :: "client_id \<Rightarrow> int64 \<Rightarrow> 'cb PendingRequestPool \<Rightarrow> bool" where
  "isRequestPending clientId requestId p = isRequestPendingLocked clientId requestId p"

definition countPendingRequests :: "'cb PendingRequestPool \<Rightarrow> size_t" where
  "countPendingRequests p =
     foldl (\<lambda>n (_, rs). foldl (\<lambda>n r. n + of_nat (length (requestIds r))) n rs) 0
       (mPendingRequestsByClient p)"

definition countPendingRequests_client :: "client_id \<Rightarrow> 'cb PendingRequestPool \<Rightarrow> size_t" where
  "countPendingRequests_client clientId p =
     (case map_of (mPendingRequestsByClient p) clientId of
        None \<Rightarrow> 0
      | Some rs \<Rightarrow> foldl (\<lambda>n r. n + of_nat (length (requestIds r))) 0 rs)"

text \<open>The inner loop of \<^verbatim>\<open>checkTimeout\<close>: it stops at the first request whose deadline has not passed.\<close>

fun expire :: "int64 \<Rightarrow> 'cb PendingRequest list \<Rightarrow> 'cb PendingRequest list \<times> 'cb PendingRequest list" where
  "expire now [] = ([], [])"
| "expire now (r # rs) =
     (if sint (timeoutTimestamp r) \<ge> sint now then ([], r # rs)
      else let (expired, rest) = expire now rs in (r # expired, rest))"

definition checkTimeout ::
  "int64 \<Rightarrow> 'cb PendingRequestPool \<Rightarrow> ('cb \<times> int64 list) list \<times> 'cb PendingRequestPool" where
  "checkTimeout now p =
     (let timeoutRequests = concat (map (\<lambda>(_, rs). fst (expire now rs)) (mPendingRequestsByClient p));
          scanned = map (\<lambda>(c, rs). (c, snd (expire now rs))) (mPendingRequestsByClient p);
          clientsWithEmptyRequests = map fst (filter (\<lambda>(_, rs). rs = []) scanned)
      in (map (\<lambda>r. (pr_callback r, requestIds r)) timeoutRequests,
          p\<lparr>mPendingRequestsByClient := fold AList.delete clientsWithEmptyRequests scanned\<rparr>))"

text \<open>The inner loop of \<^verbatim>\<open>tryFinishRequests\<close> over the ids to finish, then the loop over the requests.\<close>

fun finish_ids :: "int64 list \<Rightarrow> int64 list \<Rightarrow> int64 list \<Rightarrow> int64 list \<times> int64 list" where
  "finish_ids [] pendingRequestIds foundIds = (pendingRequestIds, foundIds)"
| "finish_ids (i # ids) pendingRequestIds foundIds =
     (if i \<in> set pendingRequestIds
      then finish_ids ids (removeAll i pendingRequestIds) (List.insert i foundIds)
      else finish_ids ids pendingRequestIds foundIds)"

fun finish_requests ::
  "int64 list \<Rightarrow> 'cb PendingRequest list \<Rightarrow> int64 list \<Rightarrow> 'cb PendingRequest list \<times> int64 list" where
  "finish_requests ids [] foundIds = ([], foundIds)"
| "finish_requests ids (r # rs) foundIds =
     (let (left, found) = finish_ids ids (requestIds r) foundIds;
          (rest, found') = finish_requests ids rs found
      in (if left = [] then rest else r\<lparr>requestIds := left\<rparr> # rest, found'))"

definition pool_tryFinishRequests ::
  "client_id \<Rightarrow> int64 list \<Rightarrow> 'cb PendingRequestPool \<Rightarrow> int64 list \<times> 'cb PendingRequestPool" where
  "pool_tryFinishRequests clientId ids p =
     (case map_of (mPendingRequestsByClient p) clientId of
        None \<Rightarrow> ([], p)
      | Some rs \<Rightarrow>
          let (rest, found) = finish_requests ids rs []
          in (found, p\<lparr>mPendingRequestsByClient :=
                        AList.update clientId rest (mPendingRequestsByClient p)\<rparr>))"

text \<open>
  The timeout thread: it sleeps \<open>thread_sleep\<close> and, unless it is asked to stop, checks. The destructor
  stops it and then answers everything still pending as timed out.
\<close>

definition thread_sleep :: "'cb PendingRequestPool \<Rightarrow> int64" where
  "thread_sleep p =
     (if sint CHECK_TIME_IN_NANO < sint (mTimeoutInNano p) then CHECK_TIME_IN_NANO else mTimeoutInNano p)"

definition thread_wakeup ::
  "int64 \<Rightarrow> 'cb PendingRequestPool \<Rightarrow> (('cb \<times> int64 list) list \<times> 'cb PendingRequestPool) option" where
  "thread_wakeup now p = (if mThreadStop p then None else Some (checkTimeout now p))"

definition destructRequestPool ::
  "'cb PendingRequestPool \<Rightarrow> ('cb \<times> int64 list) list \<times> 'cb PendingRequestPool" where
  "destructRequestPool p =
     (concat (map (\<lambda>(_, rs). map (\<lambda>r. (pr_callback r, requestIds r)) rs) (mPendingRequestsByClient p)),
      p\<lparr>mThreadStop := True, mPendingRequestsByClient := []\<rparr>)"

section \<open>What is pending\<close>

definition ids_of :: "'cb PendingRequest list \<Rightarrow> int64 list" where
  "ids_of rs = concat (map requestIds rs)"

lemma ids_of_simps [simp]:
  "ids_of [] = []"
  "ids_of (r # rs) = requestIds r @ ids_of rs"
  "ids_of (rs @ rs') = ids_of rs @ ids_of rs'"
  by (simp_all add: ids_of_def)

definition client_reqs :: "'cb PendingRequestPool \<Rightarrow> client_id \<Rightarrow> 'cb PendingRequest list" where
  "client_reqs p c = (case map_of (mPendingRequestsByClient p) c of None \<Rightarrow> [] | Some rs \<Rightarrow> rs)"

definition pending_ids :: "'cb PendingRequestPool \<Rightarrow> client_id \<Rightarrow> int64 set" where
  "pending_ids p c = set (ids_of (client_reqs p c))"

definition reqs_ok :: "'cb PendingRequest list \<Rightarrow> bool" where
  "reqs_ok rs \<longleftrightarrow> distinct (ids_of rs) \<and> length (ids_of rs) \<le> 10000"

definition rp_inv :: "'cb PendingRequestPool \<Rightarrow> bool" where
  "rp_inv p \<longleftrightarrow> wf_alist (mPendingRequestsByClient p) \<and> (\<forall>c. reqs_ok (client_reqs p c))"

lemma isRequestPending_iff: "isRequestPending c i p \<longleftrightarrow> i \<in> pending_ids p c"
  by (auto simp: isRequestPending_def isRequestPendingLocked_def pending_ids_def client_reqs_def
      ids_of_def list_ex_iff split: option.split)

lemma foldl_count: "foldl (\<lambda>n r. n + of_nat (length (requestIds r))) n rs = n + (of_nat (length (ids_of rs)) :: size_t)"
  by (induction rs arbitrary: n) (auto simp: ac_simps)

lemma countPendingRequests_client_eq:
  "countPendingRequests_client c p = of_nat (length (ids_of (client_reqs p c)))"
  by (simp add: countPendingRequests_client_def client_reqs_def foldl_count split: option.split)

section \<open>Adding\<close>

lemma scan_pending_eq:
  "scan_pending ids rs n =
     (if set ids \<inter> set (ids_of rs) \<noteq> {} then Inl INVALID_ARG else Inr (n + of_nat (length (ids_of rs))))"
proof (induction rs arbitrary: n)
  case Nil
  then show ?case by simp
next
  case (Cons r rs)
  show ?case
  proof (cases "find (\<lambda>i. i \<in> set (requestIds r)) ids")
    case None
    then have "set ids \<inter> set (requestIds r) = {}" by (auto simp: find_None_iff)
    with None Cons show ?thesis by (simp add: add.assoc Int_Un_distrib)
  next
    case (Some x)
    then have "x \<in> set ids \<inter> set (requestIds r)" by (auto simp: find_Some_iff)
    with Some show ?thesis by auto
  qed
qed

text \<open>The guard against too many requests is computed on 64 bits and cannot underflow.\<close>

lemma too_many_iff:
  assumes "k \<le> 10000" and "n < 2 ^ 64"
  shows "of_nat n > MAX_PENDING_REQUEST_PER_CLIENT - (of_nat k :: size_t) \<longleftrightarrow> 10000 < n + k"
proof -
  have k: "unat (of_nat k :: size_t) = k" and n: "unat (of_nat n :: size_t) = n"
    using assms by (simp_all add: unat_of_nat take_bit_nat_eq_self)
  have "unat (MAX_PENDING_REQUEST_PER_CLIENT - (of_nat k :: size_t)) = 10000 - k"
    using assms(1) k by (subst unat_sub) (simp_all add: MAX_PENDING_REQUEST_PER_CLIENT_def word_le_nat_alt)
  then show ?thesis using assms n by (auto simp: word_less_nat_alt)
qed

definition add_result :: "'cb PendingRequestPool \<Rightarrow> client_id \<Rightarrow> int64 list \<Rightarrow> unit VhalResult" where
  "add_result p c ids =
     (if set ids \<inter> pending_ids p c \<noteq> {} then Inl INVALID_ARG
      else if 10000 < length ids + card (pending_ids p c) then Inl TRY_AGAIN
      else Inr ())"

lemma reqs_ok_card: "rp_inv p \<Longrightarrow> card (pending_ids p c) = length (ids_of (client_reqs p c))"
  by (simp add: rp_inv_def reqs_ok_def pending_ids_def distinct_card)

lemma add_reqs:
  assumes "rp_inv p" and "length ids < 2 ^ 64"
    and add: "pool_addRequests c ids cb now p = (res, p')"
  shows "res = add_result p c ids"
    and "client_reqs p' = (if res = Inr () then (client_reqs p)(c := client_reqs p c @
      [\<lparr>requestIds = ids, timeoutTimestamp = now + mTimeoutInNano p, pr_callback = cb\<rparr>]) else client_reqs p)"
    and "wf_alist (mPendingRequestsByClient p')" and "mTimeoutInNano p' = mTimeoutInNano p"
proof -
  have ok: "length (ids_of (client_reqs p c)) \<le> 10000" and wf: "wf_alist (mPendingRequestsByClient p)"
    using assms(1) by (auto simp: rp_inv_def reqs_ok_def)
  note many = too_many_iff [OF ok assms(2)]
  note eqs = pool_addRequests_def add_result_def Let_def scan_pending_eq
    reqs_ok_card [OF assms(1), unfolded pending_ids_def] pending_ids_def
  have rs: "(case map_of (mPendingRequestsByClient p) c of None \<Rightarrow> [] | Some rs \<Rightarrow> rs) = client_reqs p c"
    by (simp add: client_reqs_def)
  show "res = add_result p c ids"
    using add many unfolding eqs rs by (auto split: if_splits)
  show "client_reqs p' = (if res = Inr () then (client_reqs p)(c := client_reqs p c @
      [\<lparr>requestIds = ids, timeoutTimestamp = now + mTimeoutInNano p, pr_callback = cb\<rparr>]) else client_reqs p)"
    using add unfolding eqs rs by (auto simp: client_reqs_def fun_eq_iff split: if_splits)
  show "wf_alist (mPendingRequestsByClient p')" "mTimeoutInNano p' = mTimeoutInNano p"
    using add wf unfolding eqs rs by (auto split: if_splits)
qed

lemma add_inv:
  assumes "rp_inv p" and "length ids < 2 ^ 64" and "distinct ids"
    and add: "pool_addRequests c ids cb now p = (res, p')"
  shows "rp_inv p'"
  using assms(1,3) add_reqs [OF assms(1,2) add] reqs_ok_card [OF assms(1), of c]
  by (auto simp: rp_inv_def reqs_ok_def add_result_def pending_ids_def split: if_splits)

lemma add_pending:
  assumes "rp_inv p" and "length ids < 2 ^ 64"
    and add: "pool_addRequests c ids cb now p = (res, p')"
  shows "pending_ids p' = (if res = Inr () then (pending_ids p)(c := pending_ids p c \<union> set ids)
    else pending_ids p)"
  using add_reqs(2) [OF assms] by (auto simp: pending_ids_def fun_eq_iff)

section \<open>Finishing\<close>

lemma finish_ids_eq:
  "fst (finish_ids ids ps found) = filter (\<lambda>i. i \<notin> set ids) ps"
  "set (snd (finish_ids ids ps found)) = set found \<union> (set ids \<inter> set ps)"
  "distinct found \<Longrightarrow> distinct (snd (finish_ids ids ps found))"
  by (induction ids ps found rule: finish_ids.induct)
    (auto simp: removeAll_filter_not_eq filter_id_conv intro!: filter_cong)

lemma finish_requests_all:
  "ids_of (fst (finish_requests ids rs found)) = filter (\<lambda>i. i \<notin> set ids) (ids_of rs) \<and>
   set (snd (finish_requests ids rs found)) = set found \<union> (set ids \<inter> set (ids_of rs)) \<and>
   (distinct found \<longrightarrow> distinct (snd (finish_requests ids rs found)))"
proof (induction rs arbitrary: found)
  case Nil
  then show ?case by simp
next
  case (Cons r rs)
  obtain left found1 where f: "finish_ids ids (requestIds r) found = (left, found1)" by fastforce
  obtain rest found2 where g: "finish_requests ids rs found1 = (rest, found2)" by fastforce
  show ?case
    using finish_ids_eq [where ids = ids and ps = "requestIds r" and found = found, unfolded f]
      Cons.IH [of found1, unfolded g]
    by (auto simp: f g)
qed

lemmas finish_requests_eq = finish_requests_all [THEN conjunct1]
  finish_requests_all [THEN conjunct2, THEN conjunct1]
  finish_requests_all [THEN conjunct2, THEN conjunct2, rule_format]

lemma finish_reqs:
  assumes "pool_tryFinishRequests c ids p = (found, p')"
  shows "set found = set ids \<inter> pending_ids p c" and "distinct found"
    and "client_reqs p' = (client_reqs p)(c := fst (finish_requests ids (client_reqs p c) []))"
    and "mTimeoutInNano p' = mTimeoutInNano p"
    and "wf_alist (mPendingRequestsByClient p) \<Longrightarrow> wf_alist (mPendingRequestsByClient p')"
proof -
  note eqs = pool_tryFinishRequests_def client_reqs_def pending_ids_def
  note fr = finish_requests_eq [where ids = ids and rs = "client_reqs p c" and found = "[]"]
  show "set found = set ids \<inter> pending_ids p c" "distinct found"
    using assms fr by (auto simp: eqs split: option.splits prod.splits)
  show "client_reqs p' = (client_reqs p)(c := fst (finish_requests ids (client_reqs p c) []))"
    using assms by (auto simp: eqs fun_eq_iff split: option.splits prod.splits)
  show "mTimeoutInNano p' = mTimeoutInNano p"
    using assms by (auto simp: eqs split: option.splits prod.splits)
  show "wf_alist (mPendingRequestsByClient p')" if "wf_alist (mPendingRequestsByClient p)"
    using assms that by (auto simp: eqs split: option.splits prod.splits)
qed

lemma finish_pending:
  assumes "pool_tryFinishRequests c ids p = (found, p')"
  shows "pending_ids p' = (pending_ids p)(c := pending_ids p c - set ids)"
  using finish_reqs(3) [OF assms] finish_requests_eq(1) [of ids "client_reqs p c" "[]"]
  by (auto simp: pending_ids_def fun_eq_iff)

lemma finish_inv:
  assumes "rp_inv p" and "pool_tryFinishRequests c ids p = (found, p')"
  shows "rp_inv p'"
  using assms(1) finish_reqs [OF assms(2)] finish_requests_eq(1) [of ids "client_reqs p c" "[]"]
  by (auto simp: rp_inv_def reqs_ok_def intro: order_trans [OF length_filter_le])

section \<open>Timing out\<close>

lemma expire_eq:
  "expire now rs = (takeWhile (\<lambda>r. sint (timeoutTimestamp r) < sint now) rs,
                    dropWhile (\<lambda>r. sint (timeoutTimestamp r) < sint now) rs)"
  by (induction rs) auto

lemma map_of_fold_delete:
  "map_of (fold AList.delete ks xs) c = (if c \<in> set ks then None else map_of xs c)"
  by (induction ks arbitrary: xs) auto

lemma wf_fold_delete: "wf_alist xs \<Longrightarrow> wf_alist (fold AList.delete ks xs)"
  by (induction ks arbitrary: xs) auto

lemma map_of_map_values: "map_of (map (\<lambda>(c, rs). (c, f rs)) xs) = map_option f \<circ> map_of xs"
  by (induction xs) auto

lemma map_of_empty_clients:
  "wf_alist xs \<Longrightarrow> c \<in> set (map fst (filter (\<lambda>(_, rs). rs = []) xs)) \<longleftrightarrow> map_of xs c = Some []"
  by (force simp: map_of_Some_iff)

lemma check_reqs:
  assumes "wf_alist (mPendingRequestsByClient p)" and "checkTimeout now p = (calls, p')"
  shows "client_reqs p' c = snd (expire now (client_reqs p c))"
    and "wf_alist (mPendingRequestsByClient p')" and "mTimeoutInNano p' = mTimeoutInNano p"
proof -
  let ?scan = "map (\<lambda>(c, rs). (c, snd (expire now rs))) (mPendingRequestsByClient p)"
  have keys: "map fst ?scan = map fst (mPendingRequestsByClient p)" by auto
  then have wf: "wf_alist ?scan" using assms(1) by (simp only: keys)
  have p': "p' = p\<lparr>mPendingRequestsByClient :=
      fold AList.delete (map fst (filter (\<lambda>(_, rs). rs = []) ?scan)) ?scan\<rparr>"
    using assms(2) by (auto simp: checkTimeout_def Let_def)
  show "client_reqs p' c = snd (expire now (client_reqs p c))"
    using map_of_empty_clients [OF wf, of c]
    unfolding p' client_reqs_def
    by (auto simp: map_of_fold_delete map_of_map_values [of "\<lambda>rs. snd (expire now rs)"] split: option.splits)
  show "wf_alist (mPendingRequestsByClient p')" unfolding p' using wf by (simp add: wf_fold_delete)
  show "mTimeoutInNano p' = mTimeoutInNano p" unfolding p' by simp
qed

lemma expire_ids: "ids_of (fst (expire now rs)) @ ids_of (snd (expire now rs)) = ids_of rs"
  by (simp add: expire_eq flip: ids_of_simps(3))

lemma check_inv:
  assumes "rp_inv p" and "checkTimeout now p = (calls, p')"
  shows "rp_inv p'"
proof -
  have wf: "wf_alist (mPendingRequestsByClient p)" using assms(1) by (simp add: rp_inv_def)
  have "reqs_ok (snd (expire now rs))" if "reqs_ok rs" for rs :: "'a PendingRequest list"
  proof -
    have "distinct (ids_of (fst (expire now rs)) @ ids_of (snd (expire now rs)))"
      "length (ids_of (fst (expire now rs)) @ ids_of (snd (expire now rs))) \<le> 10000"
      using that unfolding expire_ids by (auto simp: reqs_ok_def)
    then show ?thesis by (auto simp: reqs_ok_def)
  qed
  with assms(1) check_reqs [OF wf assms(2)] show ?thesis by (auto simp: rp_inv_def)
qed

text \<open>
  The ids the callbacks of one client report. In the runs below a callback is named by the client it
  belongs to, as the callback a client hands to the pool sends to that client only.
\<close>

definition reported :: "client_id \<Rightarrow> (client_id \<times> int64 list) list \<Rightarrow> int64 list" where
  "reported c calls = concat (map snd (filter (\<lambda>call. fst call = c) calls))"

definition owned :: "(client_id \<times> client_id PendingRequest list) list \<Rightarrow> bool" where
  "owned xs \<longleftrightarrow> list_all (\<lambda>(c, rs). list_all (\<lambda>r. pr_callback r = c) rs) xs"

lemma reported_append [simp]: "reported c (xs @ ys) = reported c xs @ reported c ys"
  by (simp add: reported_def)

lemma reported_owner:
  "list_all (\<lambda>r. pr_callback r = d) rs \<Longrightarrow>
     reported c (map (\<lambda>r. (pr_callback r, requestIds r)) rs) = (if d = c then ids_of rs else [])"
  by (induction rs) (auto simp: reported_def)

lemma reported_concat:
  assumes "wf_alist xs" and "owned xs" and "\<And>d rs. (d, rs) \<in> set xs \<Longrightarrow> set (f rs) \<subseteq> set rs"
  shows "reported c (concat (map (\<lambda>(_, rs). map (\<lambda>r. (pr_callback r, requestIds r)) (f rs)) xs))
    = (case map_of xs c of None \<Rightarrow> [] | Some rs \<Rightarrow> ids_of (f rs))"
  using assms
proof (induction xs)
  case Nil
  then show ?case by (simp add: reported_def)
next
  case (Cons x xs)
  obtain d rs where x: "x = (d, rs)" by fastforce
  have "set (f rs) \<subseteq> set rs" using Cons.prems(3) [of d rs] x by simp
  then have "list_all (\<lambda>r. pr_callback r = d) (f rs)"
    using Cons.prems(2) x by (auto simp: owned_def list_all_iff)
  then have hd: "reported c (map (\<lambda>r. (pr_callback r, requestIds r)) (f rs)) = (if d = c then ids_of (f rs) else [])"
    by (rule reported_owner)
  have tl: "reported c (concat (map (\<lambda>(_, rs). map (\<lambda>r. (pr_callback r, requestIds r)) (f rs)) xs))
      = (case map_of xs c of None \<Rightarrow> [] | Some rs \<Rightarrow> ids_of (f rs))"
    using Cons.prems by (intro Cons.IH) (auto simp: owned_def)
  moreover have "map_of xs c = None" if "d = c"
    using that Cons.prems(1) x by (simp add: map_of_eq_None_iff)
  ultimately show ?case using hd tl x by auto
qed

lemma check_reported:
  assumes "wf_alist (mPendingRequestsByClient p)" and "owned (mPendingRequestsByClient p)"
    and "checkTimeout now p = (calls, p')"
  shows "reported c calls = ids_of (fst (expire now (client_reqs p c)))"
proof -
  have "calls = concat (map (\<lambda>(_, rs). map (\<lambda>r. (pr_callback r, requestIds r)) (fst (expire now rs)))
      (mPendingRequestsByClient p))"
    using assms(3) by (auto simp: checkTimeout_def Let_def map_concat comp_def split_def)
  moreover have "set (fst (expire now rs)) \<subseteq> set rs" for rs :: "client_id PendingRequest list"
    by (auto simp: expire_eq dest: set_takeWhileD)
  ultimately show ?thesis
    using reported_concat [OF assms(1,2), of "\<lambda>rs. fst (expire now rs)" c]
    by (auto simp: client_reqs_def split: option.splits)
qed

lemma destruct_reported:
  assumes "wf_alist (mPendingRequestsByClient p)" and "owned (mPendingRequestsByClient p)"
    and "destructRequestPool p = (calls, p')"
  shows "reported c calls = ids_of (client_reqs p c)" and "client_reqs p' = (\<lambda>_. [])"
  using reported_concat [OF assms(1,2), of "\<lambda>rs. rs" c] assms(3)
  by (auto simp: destructRequestPool_def client_reqs_def split: option.splits)

section \<open>Runs of the pool\<close>

text \<open>
  A run: clients add requests and finish them, the timeout thread checks, the clock never goes back
  and stays clear of the largest 64-bit value. The ledger records, per client, the ids accepted, the
  ids handed back as finished and the ids reported by the timeout callback.
\<close>

record rp_run =
  rp_pool :: "client_id PendingRequestPool"
  rp_clock :: int64
  accepted :: "client_id \<Rightarrow> int64 multiset"
  finished :: "client_id \<Rightarrow> int64 multiset"
  timed_out :: "client_id \<Rightarrow> int64 multiset"

inductive rp_step :: "rp_run \<Rightarrow> rp_run \<Rightarrow> bool" where
  rp_add: "\<lbrakk>sint (rp_clock s) \<le> sint now; sint now + sint (mTimeoutInNano (rp_pool s)) < 2 ^ 63;
     distinct ids; length ids < 2 ^ 64; pool_addRequests c ids c now (rp_pool s) = (res, p')\<rbrakk> \<Longrightarrow>
   rp_step s (s\<lparr>rp_pool := p', rp_clock := now, accepted := (if res = Inr ()
     then (accepted s)(c := accepted s c + mset ids) else accepted s)\<rparr>)"
| rp_finish: "pool_tryFinishRequests c ids (rp_pool s) = (found, p') \<Longrightarrow>
   rp_step s (s\<lparr>rp_pool := p', finished := (finished s)(c := finished s c + mset found)\<rparr>)"
| rp_check: "\<lbrakk>sint (rp_clock s) \<le> sint now; checkTimeout now (rp_pool s) = (calls, p')\<rbrakk> \<Longrightarrow>
   rp_step s (s\<lparr>rp_pool := p', rp_clock := now,
     timed_out := (\<lambda>c. timed_out s c + mset (reported c calls))\<rparr>)"
| rp_destruct: "destructRequestPool (rp_pool s) = (calls, p') \<Longrightarrow>
   rp_step s (s\<lparr>rp_pool := p', timed_out := (\<lambda>c. timed_out s c + mset (reported c calls))\<rparr>)"

definition rp_start :: "rp_run \<Rightarrow> bool" where
  "rp_start s \<longleftrightarrow> (\<exists>timeout now. 0 \<le> sint timeout \<and>
     s = \<lparr>rp_pool = newRequestPool timeout, rp_clock = now,
          accepted = (\<lambda>_. {#}), finished = (\<lambda>_. {#}), timed_out = (\<lambda>_. {#})\<rparr>)"

text \<open>Deadlines of one client are in the order of the list and no later than the clock allows.\<close>

definition deadlines_ok :: "int64 \<Rightarrow> int64 \<Rightarrow> 'cb PendingRequest list \<Rightarrow> bool" where
  "deadlines_ok clock timeout rs \<longleftrightarrow>
     sorted_wrt (\<lambda>r r'. sint (timeoutTimestamp r) \<le> sint (timeoutTimestamp r')) rs \<and>
     list_all (\<lambda>r. sint (timeoutTimestamp r) \<le> sint clock + sint timeout) rs"

definition run_inv :: "rp_run \<Rightarrow> bool" where
  "run_inv s \<longleftrightarrow> rp_inv (rp_pool s) \<and> owned (mPendingRequestsByClient (rp_pool s)) \<and>
     0 \<le> sint (mTimeoutInNano (rp_pool s)) \<and>
     (\<forall>c. deadlines_ok (rp_clock s) (mTimeoutInNano (rp_pool s)) (client_reqs (rp_pool s) c)) \<and>
     (\<forall>c. accepted s c = finished s c + timed_out s c + mset (ids_of (client_reqs (rp_pool s) c)))"

lemma owned_iff:
  "wf_alist (mPendingRequestsByClient p) \<Longrightarrow>
     owned (mPendingRequestsByClient p) \<longleftrightarrow> (\<forall>c. list_all (\<lambda>r. pr_callback r = c) (client_reqs p c))"
  by (force simp: owned_def list_all_iff client_reqs_def map_of_Some_iff map_of_eq_None_iff
      split: option.splits)

lemma finish_requests_subset:
  "r \<in> set (fst (finish_requests ids rs found)) \<Longrightarrow>
     \<exists>r' \<in> set rs. pr_callback r = pr_callback r' \<and> timeoutTimestamp r = timeoutTimestamp r'"
proof (induction rs arbitrary: found)
  case Nil
  then show ?case by simp
next
  case (Cons a rs)
  obtain left found1 where f: "finish_ids ids (requestIds a) found = (left, found1)" by fastforce
  obtain rest found2 where g: "finish_requests ids rs found1 = (rest, found2)" by fastforce
  from Cons.prems have "r = a\<lparr>requestIds := left\<rparr> \<or> r \<in> set rest"
    by (auto simp: f g split: if_splits)
  with Cons.IH [of found1] g show ?case by auto
qed

lemma finish_requests_sorted:
  "sorted_wrt (\<lambda>r r'. sint (timeoutTimestamp r) \<le> sint (timeoutTimestamp r')) rs \<Longrightarrow>
   sorted_wrt (\<lambda>r r'. sint (timeoutTimestamp r) \<le> sint (timeoutTimestamp r')) (fst (finish_requests ids rs found))"
proof (induction rs arbitrary: found)
  case Nil
  then show ?case by simp
next
  case (Cons r rs)
  obtain left found1 where f: "finish_ids ids (requestIds r) found = (left, found1)" by fastforce
  obtain rest found2 where g: "finish_requests ids rs found1 = (rest, found2)" by fastforce
  have "sint (timeoutTimestamp r) \<le> sint (timeoutTimestamp r')" if "r' \<in> set rest" for r'
    using finish_requests_subset [of r' ids rs found1] g that Cons.prems by fastforce
  with Cons.IH [of found1] Cons.prems g show ?case by (simp add: f)
qed

lemma deadlines_finish:
  "deadlines_ok clock timeout rs \<Longrightarrow> deadlines_ok clock timeout (fst (finish_requests ids rs found))"
  using finish_requests_subset [of _ ids rs found]
  by (fastforce simp: deadlines_ok_def list_all_iff intro: finish_requests_sorted)

lemma deadlines_expire: "deadlines_ok clock timeout rs \<Longrightarrow> deadlines_ok clock timeout (snd (expire now rs))"
  by (auto simp: deadlines_ok_def expire_eq list_all_iff dropWhile_sorted_filter
      intro: sorted_wrt_filter')

lemma deadlines_clock:
  "deadlines_ok clock timeout rs \<Longrightarrow> sint clock \<le> sint clock' \<Longrightarrow> deadlines_ok clock' timeout rs"
  by (auto simp: deadlines_ok_def list_all_iff)

lemma sint_add_small:
  assumes "0 \<le> sint t" and "sint x + sint t < 2 ^ 63"
  shows "sint (x + t :: int64) = sint x + sint t"
proof -
  have "- (2 ^ 63) \<le> sint x + sint t"
    using assms(1) sint_ge [of x] by simp
  with assms(2) show ?thesis
    by (simp add: sint_word_ariths signed_take_bit_int_eq_self)
qed

lemma deadlines_add:
  assumes "deadlines_ok clock timeout rs" and "sint clock \<le> sint now" and "0 \<le> sint timeout"
    and "sint now + sint timeout < 2 ^ 63" and "timeoutTimestamp r = now + timeout"
  shows "deadlines_ok now timeout (rs @ [r])"
  using assms by (auto simp: deadlines_ok_def list_all_iff sorted_wrt_append sint_add_small)

lemma run_invD:
  assumes "run_inv s"
  shows "rp_inv (rp_pool s)" "wf_alist (mPendingRequestsByClient (rp_pool s))"
    "list_all (\<lambda>r. pr_callback r = c) (client_reqs (rp_pool s) c)"
    "deadlines_ok (rp_clock s) (mTimeoutInNano (rp_pool s)) (client_reqs (rp_pool s) c)"
    "accepted s c = finished s c + timed_out s c + mset (ids_of (client_reqs (rp_pool s) c))"
    "0 \<le> sint (mTimeoutInNano (rp_pool s))" "owned (mPendingRequestsByClient (rp_pool s))"
  using assms owned_iff by (auto simp: run_inv_def rp_inv_def)

lemma run_invI:
  assumes "rp_inv (rp_pool s)" and "0 \<le> sint (mTimeoutInNano (rp_pool s))"
    and "\<And>c. list_all (\<lambda>r. pr_callback r = c) (client_reqs (rp_pool s) c)"
    and "\<And>c. deadlines_ok (rp_clock s) (mTimeoutInNano (rp_pool s)) (client_reqs (rp_pool s) c)"
    and "\<And>c. accepted s c = finished s c + timed_out s c + mset (ids_of (client_reqs (rp_pool s) c))"
  shows "run_inv s"
  using assms owned_iff [of "rp_pool s"] by (auto simp: run_inv_def rp_inv_def)

lemma filter_in_mset:
  assumes "distinct xs" and "distinct found" and "set found = set ids \<inter> set xs"
  shows "mset xs = mset found + mset (filter (\<lambda>i. i \<notin> set ids) xs)"
proof -
  have "mset (filter (\<lambda>i. i \<in> set ids) xs) = mset found"
    using assms by (subst set_eq_iff_mset_eq_distinct [symmetric]) auto
  then show ?thesis
    by (metis mset_filter multiset_partition)
qed

lemma step_add_inv:
  assumes "run_inv s" and "sint (rp_clock s) \<le> sint now"
    and "sint now + sint (mTimeoutInNano (rp_pool s)) < 2 ^ 63"
    and "distinct ids" and "length ids < 2 ^ 64" and "pool_addRequests c ids c now (rp_pool s) = (res, p')"
  shows "run_inv (s\<lparr>rp_pool := p', rp_clock := now, accepted := (if res = Inr ()
     then (accepted s)(c := accepted s c + mset ids) else accepted s)\<rparr>)"
proof -
  note d = run_invD [OF assms(1)]
  note a = add_reqs [OF d(1) assms(5,6)]
  have "deadlines_ok now (mTimeoutInNano (rp_pool s)) (client_reqs (rp_pool s) c')" for c'
    using d(4) assms(2) deadlines_clock by blast
  moreover have "deadlines_ok now (mTimeoutInNano (rp_pool s)) (client_reqs (rp_pool s) c @
      [\<lparr>requestIds = ids, timeoutTimestamp = now + mTimeoutInNano (rp_pool s), pr_callback = c\<rparr>])"
    by (rule deadlines_add [OF d(4) assms(2) d(6) assms(3)]) simp
  ultimately show ?thesis
    using d add_inv [OF d(1) assms(5,4,6)] by (intro run_invI) (auto simp: a)
qed

lemma step_finish_inv:
  assumes "run_inv s" and fin: "pool_tryFinishRequests c ids (rp_pool s) = (found, p')"
  shows "run_inv (s\<lparr>rp_pool := p', finished := (finished s)(c := finished s c + mset found)\<rparr>)"
proof -
  note d = run_invD [OF assms(1)]
  note f = finish_reqs [OF fin]
  let ?rs = "client_reqs (rp_pool s) c"
  have "distinct (ids_of ?rs)" using d(1) by (auto simp: rp_inv_def reqs_ok_def)
  then have "mset (ids_of ?rs) = mset found + mset (ids_of (fst (finish_requests ids ?rs [])))"
    unfolding finish_requests_eq(1) by (rule filter_in_mset [OF _ f(2)]) (simp add: f(1) pending_ids_def)
  moreover have "list_all (\<lambda>r. pr_callback r = c) (fst (finish_requests ids ?rs []))"
    using d(3) [of c] finish_requests_subset [of _ ids ?rs "[]"] by (fastforce simp: list_all_iff)
  ultimately show ?thesis
    using d finish_inv [OF d(1) fin] by (intro run_invI) (auto simp: f intro: deadlines_finish)
qed

lemma step_check_inv:
  assumes "run_inv s" and "sint (rp_clock s) \<le> sint now" and ch: "checkTimeout now (rp_pool s) = (calls, p')"
  shows "run_inv (s\<lparr>rp_pool := p', rp_clock := now,
     timed_out := (\<lambda>c. timed_out s c + mset (reported c calls))\<rparr>)"
proof -
  note d = run_invD [OF assms(1)]
  note c = check_reqs [OF d(2) ch]
  show ?thesis
  proof (rule run_invI, goal_cases)
    case 1
    then show ?case using check_inv [OF d(1) ch] by simp
  next
    case 2
    then show ?case using d(6) by (simp add: c)
  next
    case (3 k)
    then show ?case using d(3) [of k] by (auto simp: c expire_eq list_all_iff dest: set_dropWhileD)
  next
    case (4 k)
    then show ?case using deadlines_expire [OF deadlines_clock [OF d(4) assms(2)]] by (simp add: c)
  next
    case (5 k)
    have "mset (ids_of (client_reqs (rp_pool s) k)) =
        mset (reported k calls) + mset (ids_of (client_reqs p' k))"
      by (metis expire_ids mset_append c(1) check_reported [OF d(2,7) ch])
    then show ?case using d(5) [of k] by simp
  qed
qed

lemma step_destruct_inv:
  assumes "run_inv s" and de: "destructRequestPool (rp_pool s) = (calls, p')"
  shows "run_inv (s\<lparr>rp_pool := p', timed_out := (\<lambda>c. timed_out s c + mset (reported c calls))\<rparr>)"
proof -
  note d = run_invD [OF assms(1)]
  note r = destruct_reported [OF d(2,7) de]
  have "mTimeoutInNano p' = mTimeoutInNano (rp_pool s)" "rp_inv p'"
    using de by (auto simp: destructRequestPool_def rp_inv_def client_reqs_def reqs_ok_def)
  with d r show ?thesis by (intro run_invI) (auto simp: deadlines_ok_def)
qed

interpretation request_runs: step_invariant rp_start rp_step run_inv
proof unfold_locales
  show "run_inv s" if "rp_start s" for s
    using that by (auto simp: rp_start_def run_inv_def newRequestPool_def rp_inv_def owned_def
        client_reqs_def reqs_ok_def deadlines_ok_def)
  show "run_inv t" if "run_inv s" "rp_step s t" for s t
    using that(2,1)
  proof induction
    case rp_add
    then show ?case by (intro step_add_inv)
  next
    case rp_finish
    then show ?case by (intro step_finish_inv)
  next
    case rp_check
    then show ?case by (intro step_check_inv)
  next
    case rp_destruct
    then show ?case by (intro step_destruct_inv)
  qed
qed

section \<open>The interface of the request pool\<close>

text \<open>
  What the clients of the pool rely on: which ids are pending, and that finishing hands back exactly
  the pending ids among those named and forgets them.
\<close>

locale request_tracker =
  fixes add :: "client_id \<Rightarrow> int64 list \<Rightarrow> 'cb \<Rightarrow> int64 \<Rightarrow> 'p \<Rightarrow> unit VhalResult \<times> 'p"
    and finish :: "client_id \<Rightarrow> int64 list \<Rightarrow> 'p \<Rightarrow> int64 list \<times> 'p"
    and pend :: "'p \<Rightarrow> client_id \<Rightarrow> int64 set"
    and ok :: "'p \<Rightarrow> bool"
  assumes add_ok: "\<lbrakk>ok p; distinct ids; length ids < 2 ^ 64; add c ids cb now p = (res, p')\<rbrakk> \<Longrightarrow> ok p'"
    and add_pend: "\<lbrakk>ok p; length ids < 2 ^ 64; add c ids cb now p = (res, p')\<rbrakk> \<Longrightarrow>
      pend p' = (if res = Inr () then (pend p)(c := pend p c \<union> set ids) else pend p)"
    and finish_ok: "\<lbrakk>ok p; finish c ids p = (found, p')\<rbrakk> \<Longrightarrow> ok p'"
    and finish_found: "finish c ids p = (found, p') \<Longrightarrow> set found = set ids \<inter> pend p c"
    and finish_pend: "finish c ids p = (found, p') \<Longrightarrow> pend p' = (pend p)(c := pend p c - set ids)"
begin

text \<open>The filter of results by what the pool handed back keeps exactly the pending ones.\<close>

lemma deliver_pending:
  assumes "finish c ids p = (found, p')" and "set (map key xs) \<subseteq> set ids"
  shows "filter (\<lambda>x. key x \<in> set found) xs = filter (\<lambda>x. key x \<in> pend p c) xs"
  using finish_found [OF assms(1)] assms(2) by (intro filter_cong) auto

text \<open>An id is handed back once: after finishing, finishing again finds nothing.\<close>

lemma finish_twice:
  assumes "finish c ids p = (found, p')" and "finish c ids' p' = (found', p'')" and "set ids' \<subseteq> set ids"
  shows "found' = []"
  using finish_found [OF assms(2)] finish_pend [OF assms(1)] assms(3) by (auto simp: set_empty [symmetric])

lemma finish_other:
  "finish c ids p = (found, p') \<Longrightarrow> c' \<noteq> c \<Longrightarrow> pend p' c' = pend p c'"
  by (simp add: finish_pend)

text \<open>What was added and then finished comes back in full, and nothing of it stays pending.\<close>

lemma add_then_finish:
  assumes "ok p" and "length ids < 2 ^ 64" and "add c ids cb now p = (Inr (), p')"
    and "finish c ids p' = (found, p'')"
  shows "set found = set ids" and "pend p'' c \<inter> set ids = {}"
  using add_pend [OF assms(1-3)] finish_found [OF assms(4)] finish_pend [OF assms(4)] by auto

end

interpretation req_pool: request_tracker pool_addRequests pool_tryFinishRequests pending_ids rp_inv
  by unfold_locales
    (erule (3) add_inv, erule (2) add_pending, erule (1) finish_inv, erule finish_reqs(1), erule finish_pending)

section \<open>A sample run\<close>

definition sample_run :: rp_run where
  "sample_run = \<lparr>rp_pool = newRequestPool 5, rp_clock = 0, accepted = (\<lambda>_. {#}),
     finished = (\<lambda>_. {#}), timed_out = (\<lambda>_. {#})\<rparr>"

definition sample_added :: rp_run where
  "sample_added = sample_run\<lparr>rp_pool := \<lparr>mTimeoutInNano = 5, mPendingRequestsByClient =
       [(7, [\<lparr>requestIds = [1, 2], timeoutTimestamp = 5, pr_callback = 7\<rparr>])], mThreadStop = False\<rparr>,
     accepted := (\<lambda>_. {#})(7 := {#1, 2#})\<rparr>"

lemma sample_start: "rp_start sample_run"
  unfolding rp_start_def sample_run_def by (intro exI [of _ 5] exI [of _ 0]) simp

lemma sample_added_reachable: "rp_step\<^sup>*\<^sup>* sample_run sample_added"
proof -
  have "pool_addRequests 7 [1, 2] 7 0 (rp_pool sample_run) = (Inr (), rp_pool sample_added)"
    by (simp add: pool_addRequests_def sample_run_def sample_added_def newRequestPool_def
        MAX_PENDING_REQUEST_PER_CLIENT_def)
  from rp_add [OF _ _ _ _ this] have "rp_step sample_run sample_added"
    by (simp add: sample_added_def sample_run_def newRequestPool_def fun_upd_def)
  then show ?thesis by blast
qed

section \<open>Properties\<close>

text \<open>Adding requests fails with \<open>INVALID_ARG\<close> exactly when one of the ids is already pending for the
  client, otherwise with \<open>TRY_AGAIN\<close> exactly when more than 10000 ids would be pending; the guard, a
  subtraction on unsigned 64-bit numbers, never wraps. Only success changes what is pending, and only
  for this client.\<close>

theorem addRequests_spec:
  assumes "rp_inv p" and "distinct ids" and "length ids < 2 ^ 64"
    and "pool_addRequests c ids cb now p = (res, p')"
  shows "res = (if set ids \<inter> pending_ids p c \<noteq> {} then Inl INVALID_ARG
      else if 10000 < length ids + card (pending_ids p c) then Inl TRY_AGAIN else Inr ()) \<and>
    pending_ids p' = (if res = Inr () then (pending_ids p)(c := pending_ids p c \<union> set ids)
      else pending_ids p) \<and> rp_inv p'"
  using add_reqs(1) [OF assms(1,3,4)] req_pool.add_pend [OF assms(1,3,4)] req_pool.add_ok [OF assms]
  unfolding add_result_def by blast

theorem addRequests_spec_witness:
  "fst (pool_addRequests 7 [1, 2] () 0 (newRequestPool 5)) = Inr () \<and>
   pending_ids (snd (pool_addRequests 7 [1, 2] () 0 (newRequestPool 5))) 7 = {1, 2}"
proof -
  obtain res p' where e: "pool_addRequests 7 [1, 2] () 0 (newRequestPool 5) = (res, p')" by fastforce
  have "rp_inv (newRequestPool 5 :: unit PendingRequestPool)"
    by (simp add: rp_inv_def newRequestPool_def client_reqs_def reqs_ok_def)
  moreover have "pending_ids (newRequestPool 5 :: unit PendingRequestPool) 7 = {}"
    by (simp add: pending_ids_def client_reqs_def newRequestPool_def)
  ultimately show ?thesis
    using addRequests_spec [OF _ _ _ e] by (auto simp: e)
qed

text \<open>C2. Every accepted request is answered exactly once or is still pending: in every run, the ids
  accepted from a client are, with multiplicity, the ids handed back as finished, the ids reported to
  its timeout callback and the ids pending, of which there are at most 10000.\<close>

theorem requests_conserved:
  assumes "rp_start s0" and "rp_step\<^sup>*\<^sup>* s0 s"
  shows "accepted s c = finished s c + timed_out s c + mset_set (pending_ids (rp_pool s) c) \<and>
    card (pending_ids (rp_pool s) c) \<le> 10000"
proof -
  note d = run_invD [OF request_runs.reachable_inv [OF assms]]
  have "reqs_ok (client_reqs (rp_pool s) c)" using d(1) by (simp add: rp_inv_def)
  then show ?thesis
    using d(5) [of c] by (simp add: pending_ids_def reqs_ok_def mset_set_set distinct_card)
qed

theorem requests_conserved_witness:
  "accepted sample_added 7 = {#1, 2#} \<and>
   {#1, 2#} = finished sample_added 7 + timed_out sample_added 7 + mset_set (pending_ids (rp_pool sample_added) 7)"
  using requests_conserved [OF sample_start sample_added_reachable, of 7]
  by (simp add: sample_added_def)

text \<open>A timeout check reports to a client exactly the ids whose deadline has passed, although
  it stops at the first request that has not expired, and leaves pending exactly the others.\<close>

theorem checkTimeout_exact:
  assumes "rp_start s0" and "rp_step\<^sup>*\<^sup>* s0 s" and "checkTimeout now (rp_pool s) = (calls, p')"
  shows "set (reported c calls) = {i. \<exists>r. r \<in> set (client_reqs (rp_pool s) c) \<and> i \<in> set (requestIds r) \<and>
        sint (timeoutTimestamp r) < sint now} \<and>
    pending_ids p' c = {i. \<exists>r. r \<in> set (client_reqs (rp_pool s) c) \<and> i \<in> set (requestIds r) \<and>
        sint now \<le> sint (timeoutTimestamp r)}"
proof -
  note d = run_invD [OF request_runs.reachable_inv [OF assms(1,2)]]
  have "sorted_wrt (\<lambda>r r'. sint (timeoutTimestamp r) \<le> sint (timeoutTimestamp r')) (client_reqs (rp_pool s) c)"
    using d(4) by (simp add: deadlines_ok_def)
  then show ?thesis
    using check_reported [OF d(2,7) assms(3), of c] check_reqs(1) [OF d(2) assms(3), of c]
    by (auto simp: expire_eq pending_ids_def takeWhile_sorted_filter dropWhile_sorted_filter ids_of_def)
qed

theorem checkTimeout_exact_witness:
  "set (reported 7 (fst (checkTimeout 9 (rp_pool sample_added)))) = {1, 2}"
proof -
  obtain calls p' where e: "checkTimeout 9 (rp_pool sample_added) = (calls, p')" by fastforce
  from checkTimeout_exact [OF sample_start sample_added_reachable e, of 7] e show ?thesis
    by (auto simp: sample_added_def client_reqs_def)
qed

end
