(* ===== verification/ConnectedClient.thy ===== *)
theory ConnectedClient
  imports RequestPool
begin

text \<open>
  \<^verbatim>\<open>ConnectedClient.h\<close> and \<^verbatim>\<open>ConnectedClient.cpp\<close>: a binder client with its callback. The two instances of
  the templates, for get and set results, share the definitions: the constructor of the message
  (\<open>OnGetValues\<close>, \<open>OnSetValues\<close>), the request id of a result and the result for a timeout are arguments.
  A send returns the messages it puts on the callback; a failing callback is only logged by the code.
  On this port \<^verbatim>\<open>vectorToStableLargeParcelable\<close> (\<^verbatim>\<open>ParcelableUtils.h\<close>) always succeeds.
\<close>

record VehiclePropError =
  pe_errorCode :: StatusCode
  pe_propId :: int32
  pe_areaId :: int32

datatype client_msg =
    OnGetValues "GetValueResult list"
  | OnSetValues "SetValueResult list"
  | OnPropertyEvent "VehiclePropValue list" int32
  | OnPropertySetError "VehiclePropError list"
  | OnSupportedValueChange "PropIdAreaId list"

definition vectorToStableLargeParcelable :: "'a list \<Rightarrow> bool \<times> 'a list" where
  "vectorToStableLargeParcelable values = (True, values)"

definition fromStableLargeParcelable :: "'a list \<Rightarrow> StatusCode + 'a list" where
  "fromStableLargeParcelable largeParcelable = Inr largeParcelable"

section \<open>Sending results\<close>

definition sendGetOrSetValueResult :: "('r list \<Rightarrow> client_msg) \<Rightarrow> 'r \<Rightarrow> client_msg list" where
  "sendGetOrSetValueResult callCallback result = [callCallback [result]]"

definition sendGetOrSetValueResultsSeparately ::
  "('r list \<Rightarrow> client_msg) \<Rightarrow> 'r list \<Rightarrow> client_msg list" where
  "sendGetOrSetValueResultsSeparately callCallback results =
     concat (map (sendGetOrSetValueResult callCallback) results)"

definition sendGetOrSetValueResults :: "('r list \<Rightarrow> client_msg) \<Rightarrow> 'r list \<Rightarrow> client_msg list" where
  "sendGetOrSetValueResults callCallback results =
     (let (isOk, payloads) = vectorToStableLargeParcelable results
      in if isOk then [callCallback payloads]
         else sendGetOrSetValueResultsSeparately callCallback payloads)"

definition onTimeout ::
  "('r list \<Rightarrow> client_msg) \<Rightarrow> (int64 \<Rightarrow> StatusCode \<Rightarrow> 'r) \<Rightarrow> int64 list \<Rightarrow> client_msg list" where
  "onTimeout callCallback mkResult timeoutIds =
     sendGetOrSetValueResults callCallback (map (\<lambda>requestId. mkResult requestId TRY_AGAIN) timeoutIds)"

definition getOrSetValuesCallback ::
  "('r list \<Rightarrow> client_msg) \<Rightarrow> ('r \<Rightarrow> int64) \<Rightarrow> client_id \<Rightarrow> 'r list \<Rightarrow> 'cb PendingRequestPool \<Rightarrow>
     client_msg list \<times> 'cb PendingRequestPool" where
  "getOrSetValuesCallback callCallback requestId clientId results requestPool =
     (let (finishedRequests, requestPool') =
            pool_tryFinishRequests clientId (remdups (map requestId results)) requestPool;
          results' = filter (\<lambda>r. requestId r \<in> set finishedRequests) results
      in (if results' \<noteq> [] then sendGetOrSetValueResults callCallback results' else [], requestPool'))"

text \<open>The results a timeout produces: \<^verbatim>\<open>ResultType{.requestId, .status}\<close>.\<close>

definition get_result :: "int64 \<Rightarrow> StatusCode \<Rightarrow> GetValueResult" where
  "get_result i st = \<lparr>gv_requestId = i, gv_status = st, gv_prop = None\<rparr>"

definition set_result :: "int64 \<Rightarrow> StatusCode \<Rightarrow> SetValueResult" where
  "set_result i st = \<lparr>sv_requestId = i, sv_status = st\<rparr>"

section \<open>The clients\<close>

text \<open>
  A client is its id, the address of the object in the code. The timeout callback it hands to the
  pool is named by the id, so a timeout reported for callback \<open>c\<close> goes to client \<open>c\<close>.
\<close>

definition client_addRequests ::
  "client_id \<Rightarrow> int64 list \<Rightarrow> int64 \<Rightarrow> client_id PendingRequestPool \<Rightarrow>
     unit VhalResult \<times> client_id PendingRequestPool" where
  "client_addRequests c ids now pool = pool_addRequests c ids c now pool"

definition client_tryFinishRequests ::
  "client_id \<Rightarrow> int64 list \<Rightarrow> client_id PendingRequestPool \<Rightarrow> int64 list \<times> client_id PendingRequestPool" where
  "client_tryFinishRequests c ids pool = pool_tryFinishRequests c ids pool"

definition getTimeoutCallback_get :: "int64 list \<Rightarrow> client_msg list" where
  "getTimeoutCallback_get = onTimeout OnGetValues get_result"

definition getTimeoutCallback_set :: "int64 list \<Rightarrow> client_msg list" where
  "getTimeoutCallback_set = onTimeout OnSetValues set_result"

definition getResultCallback_get ::
  "client_id \<Rightarrow> GetValueResult list \<Rightarrow> client_id PendingRequestPool \<Rightarrow>
     client_msg list \<times> client_id PendingRequestPool" where
  "getResultCallback_get c = getOrSetValuesCallback OnGetValues gv_requestId c"

definition getResultCallback_set ::
  "client_id \<Rightarrow> SetValueResult list \<Rightarrow> client_id PendingRequestPool \<Rightarrow>
     client_msg list \<times> client_id PendingRequestPool" where
  "getResultCallback_set c = getOrSetValuesCallback OnSetValues sv_requestId c"

definition sendResults_get :: "GetValueResult list \<Rightarrow> client_msg list" where
  "sendResults_get = sendGetOrSetValueResults OnGetValues"

definition sendResults_set :: "SetValueResult list \<Rightarrow> client_msg list" where
  "sendResults_set = sendGetOrSetValueResults OnSetValues"

definition sendResultsSeparately_set :: "SetValueResult list \<Rightarrow> client_msg list" where
  "sendResultsSeparately_set = sendGetOrSetValueResultsSeparately OnSetValues"

section \<open>Subscription clients\<close>

definition sendUpdatedValues :: "VehiclePropValue list \<Rightarrow> client_msg list" where
  "sendUpdatedValues updatedValues =
     (if updatedValues = [] then []
      else let (isOk, payloads) = vectorToStableLargeParcelable updatedValues
           in if isOk then [OnPropertyEvent payloads 0] else [])"

definition sendPropertySetErrors :: "VehiclePropError list \<Rightarrow> client_msg list" where
  "sendPropertySetErrors vehiclePropErrors =
     (if vehiclePropErrors = [] then []
      else let (isOk, payloads) = vectorToStableLargeParcelable vehiclePropErrors
           in if isOk then [OnPropertySetError payloads] else [])"

definition sendSupportedValueChangeEvents :: "PropIdAreaId list \<Rightarrow> client_msg list" where
  "sendSupportedValueChangeEvents propIdAreaIds =
     (if propIdAreaIds = [] then []
      else [OnSupportedValueChange
              (map (\<lambda>p. \<lparr>pa_propId = pa_propId p, pa_areaId = pa_areaId p\<rparr>) propIdAreaIds)])"

section \<open>Facts\<close>

lemma send_all [simp]: "sendGetOrSetValueResults cb results = [cb results]"
  by (simp add: sendGetOrSetValueResults_def vectorToStableLargeParcelable_def)

lemma send_separately [simp]: "sendGetOrSetValueResultsSeparately cb results = map (\<lambda>r. cb [r]) results"
  by (induction results)
    (auto simp: sendGetOrSetValueResultsSeparately_def sendGetOrSetValueResult_def)

lemma callback_delivers:
  assumes "getOrSetValuesCallback cb key c results p = (msgs, p')"
  shows "msgs = (let live = filter (\<lambda>r. key r \<in> pending_ids p c) results
      in if live = [] then [] else [cb live])"
    and "pending_ids p' = (pending_ids p)(c := pending_ids p c - key ` set results)"
proof -
  obtain found p1 where f: "pool_tryFinishRequests c (remdups (map key results)) p = (found, p1)"
    by fastforce
  have "filter (\<lambda>r. key r \<in> set found) results = filter (\<lambda>r. key r \<in> pending_ids p c) results"
    by (rule req_pool.deliver_pending [OF f]) auto
  then show "msgs = (let live = filter (\<lambda>r. key r \<in> pending_ids p c) results
      in if live = [] then [] else [cb live])"
    using assms f by (auto simp: getOrSetValuesCallback_def Let_def)
  show "pending_ids p' = (pending_ids p)(c := pending_ids p c - key ` set results)"
    using assms f req_pool.finish_pend [OF f] by (auto simp: getOrSetValuesCallback_def Let_def)
qed

section \<open>Properties\<close>

text \<open>C23. The result callback sends a client exactly the results whose request is still pending, in
  order and in one message, and no message when there are none; afterwards none of those requests is
  pending and no other request changed. Results that come again, or come after the timeout, are
  dropped: handing the same results in twice sends nothing the second time.\<close>

theorem results_delivered_once:
  assumes "getOrSetValuesCallback cb key c results p = (msgs, p')"
    and "getOrSetValuesCallback cb key c results p' = (msgs', p'')"
  shows "msgs = (let live = filter (\<lambda>r. key r \<in> pending_ids p c) results
      in if live = [] then [] else [cb live]) \<and>
    pending_ids p' = (pending_ids p)(c := pending_ids p c - key ` set results) \<and> msgs' = []"
  using callback_delivers [OF assms(1)] callback_delivers(1) [OF assms(2)]
  by (auto simp: Let_def)

theorem results_delivered_once_witness:
  "fst (getResultCallback_get 7 [get_result 1 OK, get_result 3 OK] (rp_pool sample_added))
     = [OnGetValues [get_result 1 OK]]"
proof -
  obtain msgs p' where e: "getOrSetValuesCallback OnGetValues gv_requestId 7
      [get_result 1 OK, get_result 3 OK] (rp_pool sample_added) = (msgs, p')"
    by fastforce
  obtain msgs' p'' where e': "getOrSetValuesCallback OnGetValues gv_requestId 7
      [get_result 1 OK, get_result 3 OK] p' = (msgs', p'')"
    by fastforce
  from results_delivered_once [OF e e'] e show ?thesis
    by (simp add: getResultCallback_get_def pending_ids_def client_reqs_def sample_added_def get_result_def)
qed

end
