(* ===== verification/VehicleUtils.thy ===== *)
theory VehicleUtils
  imports VehicleTypes
begin

text \<open>
  \<^verbatim>\<open>packages/vhal-types/aidl/impl/4/utils/common\<close>: \<^verbatim>\<open>VehicleUtils.h\<close> and \<^verbatim>\<open>VehicleUtils.cpp\<close>. The fields of a
  property id, area configurations, creation and sizes of property values, the validity checks a
  value passes before it reaches the hardware, and rounding to a requested resolution.
  Undefined behaviour of the C++ (reading past \<^verbatim>\<open>configArray\<close>, converting an out-of-range float) is
  the value \<open>None\<close>.
\<close>

section \<open>Property ids and area configurations\<close>

definition getPropType :: "int32 \<Rightarrow> VehiclePropertyType" where
  "getPropType p = VehiclePropertyType_cast (p AND VehiclePropertyType_MASK)"

definition getPropGroup :: "int32 \<Rightarrow> int32" where
  "getPropGroup p = p AND VehiclePropertyGroup_MASK"

definition getPropArea :: "int32 \<Rightarrow> int32" where
  "getPropArea p = p AND VehicleArea_MASK"

definition isGlobalProp :: "int32 \<Rightarrow> bool" where
  "isGlobalProp p \<longleftrightarrow> getPropArea p = AREA_GLOBAL"

definition isSystemProp :: "int32 \<Rightarrow> bool" where
  "isSystemProp p \<longleftrightarrow> GROUP_SYSTEM = getPropGroup p"

definition getAreaConfig ::
  "int32 \<Rightarrow> int32 \<Rightarrow> VehiclePropConfig \<Rightarrow> VehicleAreaConfig option" where
  "getAreaConfig propId areaId config =
     (case areaConfigs config of
        [] \<Rightarrow> None
      | c # cs \<Rightarrow>
          if isGlobalProp propId then Some c
          else find (\<lambda>c. ac_areaId c = areaId) (areaConfigs config))"

definition getAreaConfig_value ::
  "VehiclePropValue \<Rightarrow> VehiclePropConfig \<Rightarrow> VehicleAreaConfig option" where
  "getAreaConfig_value propValue config = getAreaConfig (pv_prop propValue) (pv_areaId propValue) config"

section \<open>Creating and measuring values\<close>

definition createVehiclePropValueVec :: "VehiclePropertyType \<Rightarrow> nat \<Rightarrow> VehiclePropValue" where
  "createVehiclePropValueVec type vecSize =
     (let val = empty_prop_value; raw = empty_raw
      in case type of
           INT32 \<Rightarrow> val\<lparr>pv_value := raw\<lparr>int32Values := replicate 1 0\<rparr>\<rparr>
         | BOOLEAN \<Rightarrow> val\<lparr>pv_value := raw\<lparr>int32Values := replicate 1 0\<rparr>\<rparr>
         | INT32_VEC \<Rightarrow> val\<lparr>pv_value := raw\<lparr>int32Values := replicate vecSize 0\<rparr>\<rparr>
         | FLOAT \<Rightarrow> val\<lparr>pv_value := raw\<lparr>floatValues := replicate 1 0\<rparr>\<rparr>
         | FLOAT_VEC \<Rightarrow> val\<lparr>pv_value := raw\<lparr>floatValues := replicate vecSize 0\<rparr>\<rparr>
         | INT64 \<Rightarrow> val\<lparr>pv_value := raw\<lparr>int64Values := replicate 1 0\<rparr>\<rparr>
         | INT64_VEC \<Rightarrow> val\<lparr>pv_value := raw\<lparr>int64Values := replicate vecSize 0\<rparr>\<rparr>
         | BYTES \<Rightarrow> val\<lparr>pv_value := raw\<lparr>byteValues := replicate vecSize 0\<rparr>\<rparr>
         | _ \<Rightarrow> val)"

definition createVehiclePropValue :: "VehiclePropertyType \<Rightarrow> VehiclePropValue" where
  "createVehiclePropValue type = createVehiclePropValueVec type 1"

fun getVehicleRawValueVectorSize :: "RawPropValues \<Rightarrow> VehiclePropertyType \<Rightarrow> nat" where
  "getVehicleRawValueVectorSize v INT32 = min (length (int32Values v)) 1"
| "getVehicleRawValueVectorSize v BOOLEAN = min (length (int32Values v)) 1"
| "getVehicleRawValueVectorSize v FLOAT = min (length (floatValues v)) 1"
| "getVehicleRawValueVectorSize v INT64 = min (length (int64Values v)) 1"
| "getVehicleRawValueVectorSize v INT32_VEC = length (int32Values v)"
| "getVehicleRawValueVectorSize v FLOAT_VEC = length (floatValues v)"
| "getVehicleRawValueVectorSize v INT64_VEC = length (int64Values v)"
| "getVehicleRawValueVectorSize v BYTES = length (byteValues v)"
| "getVehicleRawValueVectorSize v _ = 0"

definition copyVehicleRawValue :: "RawPropValues \<Rightarrow> RawPropValues \<Rightarrow> RawPropValues" where
  "copyVehicleRawValue dest src =
     dest\<lparr>int32Values := int32Values src, floatValues := floatValues src,
          int64Values := int64Values src, byteValues := byteValues src,
          stringValue := stringValue src\<rparr>"

text \<open>The \<^verbatim>\<open>sizeof\<close> of timestamp, area id, property id and status (a 32-bit enum) is 20.\<close>

definition getVehiclePropValueSize :: "VehiclePropValue \<Rightarrow> nat" where
  "getVehiclePropValueSize p =
     8 + 4 + 4 + 4 + length (int32Values (pv_value p)) * 4 + length (int64Values (pv_value p)) * 8
     + length (floatValues (pv_value p)) * 4 + length (byteValues (pv_value p)) * 1
     + length (stringValue (pv_value p))"

section \<open>Validity checks\<close>

datatype CheckError =
    ExpectOneInt32 | ExpectSomeInt32 | ExpectOneInt64 | ExpectSomeInt64
  | ExpectOneFloat | ExpectSomeFloat | UnknownPropType int32
  | MixedInt32Count size_t size_t | MixedInt64Count size_t size_t
  | MixedFloatCount size_t size_t | MixedByteCount size_t size_t
  | Int32OutOfRange int32 | Int64OutOfRange int64 | FloatOutOfRange f32

type_synonym CheckResult = "CheckError + unit"

text \<open>\<^verbatim>\<open>std::vector::operator[]\<close>; reading past the end is undefined.\<close>

definition vec_at :: "'a list \<Rightarrow> nat \<Rightarrow> 'a option" where
  "vec_at xs i = (if i < length xs then Some (xs ! i) else None)"

text \<open>An optional single element and an array size, added as \<^verbatim>\<open>size_t\<close>.\<close>

definition flag_count :: "int32 \<Rightarrow> size_t" where
  "flag_count w = (if w = 1 then 1 else 0)"

definition checkVendorMixedPropValue ::
  "VehiclePropValue \<Rightarrow> VehiclePropConfig \<Rightarrow> CheckResult option" where
  "checkVendorMixedPropValue p config =
     (let cfg = configArray config; raw = pv_value p
      in Option.bind (vec_at cfg 1) (\<lambda>c1.
         Option.bind (vec_at cfg 2) (\<lambda>c2.
         Option.bind (vec_at cfg 3) (\<lambda>c3.
         let int32Count = flag_count c1 + flag_count c2 + scast c3;
             int32Size = of_nat (length (int32Values raw))
         in if int32Size \<noteq> int32Count then Some (Inl (MixedInt32Count int32Size int32Count))
         else Option.bind (vec_at cfg 4) (\<lambda>c4.
         Option.bind (vec_at cfg 5) (\<lambda>c5.
         let int64Count = flag_count c4 + scast c5;
             int64Size = of_nat (length (int64Values raw))
         in if int64Size \<noteq> int64Count then Some (Inl (MixedInt64Count int64Size int64Count))
         else Option.bind (vec_at cfg 6) (\<lambda>c6.
         Option.bind (vec_at cfg 7) (\<lambda>c7.
         let floatCount = flag_count c6 + scast c7;
             floatSize = of_nat (length (floatValues raw))
         in if floatSize \<noteq> floatCount then Some (Inl (MixedFloatCount floatSize floatCount))
         else Option.bind (vec_at cfg 8) (\<lambda>c8.
         let byteSize = of_nat (length (byteValues raw)); byteCount = scast c8
         in if byteCount \<noteq> 0 \<and> byteSize \<noteq> byteCount
            then Some (Inl (MixedByteCount byteSize byteCount))
            else Some (Inr ()))))))))))"

definition checkPropValue ::
  "VehiclePropValue \<Rightarrow> VehiclePropConfig \<Rightarrow> CheckResult option" where
  "checkPropValue p config =
     (let raw = pv_value p
      in case getPropType (pv_prop p) of
           BOOLEAN \<Rightarrow> Some (if length (int32Values raw) \<noteq> 1 then Inl ExpectOneInt32 else Inr ())
         | INT32 \<Rightarrow> Some (if length (int32Values raw) \<noteq> 1 then Inl ExpectOneInt32 else Inr ())
         | INT32_VEC \<Rightarrow> Some (if length (int32Values raw) < 1 then Inl ExpectSomeInt32 else Inr ())
         | INT64 \<Rightarrow> Some (if length (int64Values raw) \<noteq> 1 then Inl ExpectOneInt64 else Inr ())
         | INT64_VEC \<Rightarrow> Some (if length (int64Values raw) < 1 then Inl ExpectSomeInt64 else Inr ())
         | FLOAT \<Rightarrow> Some (if length (floatValues raw) \<noteq> 1 then Inl ExpectOneFloat else Inr ())
         | FLOAT_VEC \<Rightarrow> Some (if length (floatValues raw) < 1 then Inl ExpectSomeFloat else Inr ())
         | BYTES \<Rightarrow> Some (Inr ())
         | STRING \<Rightarrow> Some (Inr ())
         | MIXED \<Rightarrow>
             (if getPropGroup (pv_prop p) = GROUP_VENDOR then checkVendorMixedPropValue p config
              else Some (Inr ()))
         | OTHER_TYPE w \<Rightarrow> Some (Inl (UnknownPropType w)))"

text \<open>The loops of \<^verbatim>\<open>checkValueRange\<close> stop at the first value outside the bounds.\<close>

definition first_bad :: "('a \<Rightarrow> bool) \<Rightarrow> ('a \<Rightarrow> CheckError) \<Rightarrow> 'a list \<Rightarrow> CheckResult" where
  "first_bad bad err xs = (case find bad xs of None \<Rightarrow> Inr () | Some x \<Rightarrow> Inl (err x))"

definition checkInt32Range :: "RawPropValues \<Rightarrow> VehicleAreaConfig \<Rightarrow> CheckResult" where
  "checkInt32Range raw ac =
     (if minInt32Value ac = 0 \<and> maxInt32Value ac = 0 then Inr ()
      else first_bad (\<lambda>x. sint x < sint (minInt32Value ac) \<or> sint (maxInt32Value ac) < sint x)
             Int32OutOfRange (int32Values raw))"

definition checkInt64Range :: "RawPropValues \<Rightarrow> VehicleAreaConfig \<Rightarrow> CheckResult" where
  "checkInt64Range raw ac =
     (if minInt64Value ac = 0 \<and> maxInt64Value ac = 0 then Inr ()
      else first_bad (\<lambda>x. sint x < sint (minInt64Value ac) \<or> sint (maxInt64Value ac) < sint x)
             Int64OutOfRange (int64Values raw))"

definition checkFloatRange :: "RawPropValues \<Rightarrow> VehicleAreaConfig \<Rightarrow> CheckResult" where
  "checkFloatRange raw ac =
     (if f32_eq (minFloatValue ac) 0 \<and> f32_eq (maxFloatValue ac) 0 then Inr ()
      else first_bad (\<lambda>x. f32_lt x (minFloatValue ac) \<or> f32_lt (maxFloatValue ac) x)
             FloatOutOfRange (floatValues raw))"

definition checkValueRange ::
  "VehiclePropValue \<Rightarrow> VehicleAreaConfig option \<Rightarrow> CheckResult" where
  "checkValueRange p areaConfig =
     (case areaConfig of
        None \<Rightarrow> Inr ()
      | Some ac \<Rightarrow>
          (case getPropType (pv_prop p) of
             INT32 \<Rightarrow> checkInt32Range (pv_value p) ac
           | INT32_VEC \<Rightarrow> checkInt32Range (pv_value p) ac
           | INT64 \<Rightarrow> checkInt64Range (pv_value p) ac
           | INT64_VEC \<Rightarrow> checkInt64Range (pv_value p) ac
           | FLOAT \<Rightarrow> checkFloatRange (pv_value p) ac
           | FLOAT_VEC \<Rightarrow> checkFloatRange (pv_value p) ac
           | _ \<Rightarrow> Inr ()))"

section \<open>Rounding to a resolution\<close>

text \<open>
  One element of \<^verbatim>\<open>roundToNearestResolution\<close>: the quotient, \<^verbatim>\<open>std::round\<close> and the product are single
  precision, then the result is converted back to the element type. An integer conversion out of
  range is undefined (\<open>None\<close>).
\<close>

definition round_scaled :: "f32 \<Rightarrow> f32 \<Rightarrow> f32" where
  "round_scaled x resolution = f32_mult (f32_roundf (f32_div x resolution)) resolution"

definition f32_to_signed :: "f32 \<Rightarrow> ('a::len) word option" where
  "f32_to_signed x =
     (case f32_trunc x of
        None \<Rightarrow> None
      | Some i \<Rightarrow>
          if - (2 ^ (LENGTH('a) - 1)) \<le> i \<and> i < 2 ^ (LENGTH('a) - 1)
          then Some (word_of_int i) else None)"

definition round_signed :: "f32 \<Rightarrow> ('a::len) word \<Rightarrow> 'a word option" where
  "round_signed resolution w = f32_to_signed (round_scaled (f32_of_int (sint w)) resolution)"

fun map_option_list :: "('a \<Rightarrow> 'b option) \<Rightarrow> 'a list \<Rightarrow> 'b list option" where
  "map_option_list f [] = Some []"
| "map_option_list f (x # xs) =
     Option.bind (f x) (\<lambda>y. Option.bind (map_option_list f xs) (\<lambda>ys. Some (y # ys)))"

definition roundToNearestResolution ::
  "(f32 \<Rightarrow> 'a \<Rightarrow> 'a option) \<Rightarrow> 'a list \<Rightarrow> f32 \<Rightarrow> 'a list option" where
  "roundToNearestResolution rnd xs resolution =
     (if f32_eq resolution 0 then Some xs else map_option_list (rnd resolution) xs)"

definition sanitizeByResolution :: "RawPropValues \<Rightarrow> f32 \<Rightarrow> RawPropValues option" where
  "sanitizeByResolution v resolution =
     Option.bind (roundToNearestResolution round_signed (int32Values v) resolution) (\<lambda>is.
     Option.bind (roundToNearestResolution (\<lambda>r x. Some (round_scaled x r)) (floatValues v)
        resolution) (\<lambda>fs.
     Option.bind (roundToNearestResolution round_signed (int64Values v) resolution) (\<lambda>ls.
     Some (v\<lparr>int32Values := is, floatValues := fs, int64Values := ls\<rparr>))))"

section \<open>Facts about property ids\<close>

lemma masks_disjoint_cover:
  "(VehiclePropertyGroup_MASK OR VehicleArea_MASK OR VehiclePropertyType_MASK OR 0xffff) = (-1 :: int32)"
  by (simp add: VehiclePropertyGroup_MASK_def VehicleArea_MASK_def VehiclePropertyType_MASK_def)

lemma getPropType_toInt: "VehiclePropertyType_toInt (getPropType p) = p AND VehiclePropertyType_MASK"
  by (simp add: getPropType_def VehiclePropertyType_cast_toInt)

lemma getAreaConfig_None_iff:
  "getAreaConfig p a c = None \<longleftrightarrow>
     areaConfigs c = [] \<or> (\<not> isGlobalProp p \<and> a \<notin> ac_areaId ` set (areaConfigs c))"
  by (auto simp: getAreaConfig_def find_None_iff split: list.splits)

lemma getAreaConfig_Some:
  assumes "getAreaConfig p a c = Some ac"
  shows "ac \<in> set (areaConfigs c) \<and> (isGlobalProp p \<or> ac_areaId ac = a)"
  using assms
  by (auto simp: getAreaConfig_def find_Some_iff split: list.splits if_splits)

section \<open>Facts about values and checks\<close>

lemma copyVehicleRawValue_eq [simp]: "copyVehicleRawValue dest src = src"
  by (simp add: copyVehicleRawValue_def)

lemma first_bad_ok: "first_bad bad err xs = Inr () \<longleftrightarrow> (\<forall>x \<in> set xs. \<not> bad x)"
  by (auto simp: first_bad_def find_None_iff find_Some_iff split: option.splits)

lemma round_zero [simp]: "f32_eq r 0 \<Longrightarrow> roundToNearestResolution rnd xs r = Some xs"
  by (simp add: roundToNearestResolution_def)

lemma map_option_list_length: "map_option_list f xs = Some ys \<Longrightarrow> length ys = length xs"
  by (induction xs arbitrary: ys) (auto split: bind_splits)

lemma roundToNearestResolution_length:
  "roundToNearestResolution rnd xs r = Some ys \<Longrightarrow> length ys = length xs"
  by (auto simp: roundToNearestResolution_def map_option_list_length split: if_splits)

lemma sanitize_zero: "f32_eq r 0 \<Longrightarrow> sanitizeByResolution v r = Some v"
  by (simp add: sanitizeByResolution_def)

lemma size_t_eq_iff:
  assumes "0 \<le> j" and "j < 2 ^ 64" and "n < 2 ^ 64"
  shows "(of_nat n :: size_t) = word_of_int j \<longleftrightarrow> int n = j"
proof -
  have "uint (of_nat n :: size_t) = int n" using assms(3) by (simp add: uint_nat unat_of_nat)
  moreover have "uint (word_of_int j :: size_t) = j" using assms by (simp add: uint_word_of_int)
  ultimately show ?thesis by (metis word_uint_eq_iff)
qed

text \<open>A declared element count: the flag entries and a non-negative array size.\<close>

definition flag :: "int32 \<Rightarrow> int" where
  "flag w = (if w = 1 then 1 else 0)"

lemma flag_count_word: "flag_count w = word_of_int (flag w)"
  by (simp add: flag_count_def flag_def)

lemma scast_word: "(scast (w :: int32) :: size_t) = word_of_int (sint w)"
  by simp

lemma count_eq_iff:
  assumes "0 \<le> sint (w :: int32)" and "n < 2 ^ 64" and "0 \<le> f" and "f \<le> 2"
  shows "(of_nat n :: size_t) = word_of_int f + scast w \<longleftrightarrow> int n = f + sint w"
proof -
  have "sint w < 2 ^ 31" using sint_lt [of w] by simp
  then have "f + sint w < 2 ^ 64" using assms(4) by simp
  moreover have "word_of_int f + (scast w :: size_t) = word_of_int (f + sint w)"
    by (simp only: scast_word wi_hom_add)
  ultimately show ?thesis using size_t_eq_iff [of "f + sint w" n] assms by simp
qed

lemma checkInt32Range_ok:
  "checkInt32Range raw ac = Inr () \<longleftrightarrow> minInt32Value ac = 0 \<and> maxInt32Value ac = 0 \<or>
     (\<forall>x \<in> set (int32Values raw).
        sint (minInt32Value ac) \<le> sint x \<and> sint x \<le> sint (maxInt32Value ac))"
  by (auto simp: checkInt32Range_def first_bad_ok not_less)

lemma checkInt64Range_ok:
  "checkInt64Range raw ac = Inr () \<longleftrightarrow> minInt64Value ac = 0 \<and> maxInt64Value ac = 0 \<or>
     (\<forall>x \<in> set (int64Values raw).
        sint (minInt64Value ac) \<le> sint x \<and> sint x \<le> sint (maxInt64Value ac))"
  by (auto simp: checkInt64Range_def first_bad_ok not_less)

lemma checkFloatRange_ok:
  "checkFloatRange raw ac = Inr () \<longleftrightarrow>
     f32_eq (minFloatValue ac) 0 \<and> f32_eq (maxFloatValue ac) 0 \<or>
     (\<forall>x \<in> set (floatValues raw).
        \<not> f32_lt x (minFloatValue ac) \<and> \<not> f32_lt (maxFloatValue ac) x)"
  by (auto simp: checkFloatRange_def first_bad_ok)

lemmas range_ok = checkInt32Range_ok checkInt64Range_ok checkFloatRange_ok

text \<open>A property id is the union of its group, area, type and index fields, and two ids with
  the same fields are the same id.\<close>

theorem propId_fields:
  "getPropGroup p OR getPropArea p OR VehiclePropertyType_toInt (getPropType p) OR (p AND 0xffff) = p
   \<and> (p = q \<longleftrightarrow> getPropGroup p = getPropGroup q \<and> getPropArea p = getPropArea q \<and>
        getPropType p = getPropType q \<and> p AND 0xffff = q AND 0xffff)"
proof -
  have whole: "getPropGroup x OR getPropArea x OR VehiclePropertyType_toInt (getPropType x)
      OR (x AND 0xffff) = x" for x
    unfolding getPropGroup_def getPropArea_def getPropType_toInt
    by (simp add: masks_disjoint_cover flip: bit.conj_disj_distrib)
  then show ?thesis by metis
qed

text \<open>A value made for a property's own type passes the shape check of that property, and its
  vector size is the one asked for (one for the scalar types).\<close>

theorem created_value_valid:
  assumes "getPropType p \<noteq> MIXED" and "\<forall>w. getPropType p \<noteq> OTHER_TYPE w" and "0 < n"
  shows "checkPropValue ((createVehiclePropValueVec (getPropType p) n)\<lparr>pv_prop := p\<rparr>) config
           = Some (Inr ())
         \<and> getVehicleRawValueVectorSize (pv_value (createVehiclePropValueVec (getPropType p) n))
           (getPropType p)
         = (if getPropType p = STRING then 0
            else if getPropType p \<in> {INT32_VEC, INT64_VEC, FLOAT_VEC, BYTES} then n else 1)"
  using assms
  by (cases "getPropType p")
    (simp_all add: checkPropValue_def createVehiclePropValueVec_def empty_prop_value_def
        empty_raw_def Let_def)

theorem created_value_valid_witness:
  "checkPropValue ((createVehiclePropValueVec (getPropType 0x21410001) 3)\<lparr>pv_prop := 0x21410001\<rparr>)
     \<lparr>pc_prop = 0x21410001, pc_access = READ, changeMode = STATIC, areaConfigs = [],
      configArray = [], configString = [], minSampleRate = 0, maxSampleRate = 0\<rparr> = Some (Inr ())"
proof -
  have t: "getPropType 0x21410001 = INT32_VEC"
    by (simp add: getPropType_def VehiclePropertyType_cast_def VehiclePropertyType_MASK_def)
  then show ?thesis
    using created_value_valid [of "0x21410001" 3] by simp
qed

text \<open>The range check accepts a value exactly when no bound applies or every element of the
  vector of the property's type is within the bounds of the area.\<close>

theorem checkValueRange_iff:
  "checkValueRange p areaConfig = Inr () \<longleftrightarrow>
     (case areaConfig of
        None \<Rightarrow> True
      | Some ac \<Rightarrow>
          (getPropType (pv_prop p) \<in> {INT32, INT32_VEC} \<longrightarrow>
             (minInt32Value ac = 0 \<and> maxInt32Value ac = 0) \<or>
             (\<forall>x \<in> set (int32Values (pv_value p)).
                sint (minInt32Value ac) \<le> sint x \<and> sint x \<le> sint (maxInt32Value ac))) \<and>
          (getPropType (pv_prop p) \<in> {INT64, INT64_VEC} \<longrightarrow>
             (minInt64Value ac = 0 \<and> maxInt64Value ac = 0) \<or>
             (\<forall>x \<in> set (int64Values (pv_value p)).
                sint (minInt64Value ac) \<le> sint x \<and> sint x \<le> sint (maxInt64Value ac))) \<and>
          (getPropType (pv_prop p) \<in> {FLOAT, FLOAT_VEC} \<longrightarrow>
             (f32_eq (minFloatValue ac) 0 \<and> f32_eq (maxFloatValue ac) 0) \<or>
             (\<forall>x \<in> set (floatValues (pv_value p)).
                \<not> f32_lt x (minFloatValue ac) \<and> \<not> f32_lt (maxFloatValue ac) x)))"
  by (cases areaConfig; cases "getPropType (pv_prop p)")
    (simp_all add: checkValueRange_def range_ok)

theorem checkValueRange_iff_witness:
  "checkValueRange
     ((createVehiclePropValue INT32)\<lparr>pv_prop := 0x21400001, pv_value := empty_raw\<lparr>int32Values := [3]\<rparr>\<rparr>)
     (Some \<lparr>ac_areaId = 0, minInt32Value = 1, maxInt32Value = 5, minInt64Value = 0,
            maxInt64Value = 0, minFloatValue = 0, maxFloatValue = 0, supportedEnumValues = None,
            ac_access = READ, supportVariableUpdateRate = False, ac_hasSupportedValueInfo = None\<rparr>)
     = Inr ()"
  unfolding checkValueRange_iff
  by (simp add: createVehiclePropValue_def createVehiclePropValueVec_def empty_prop_value_def
      empty_raw_def getPropType_def VehiclePropertyType_cast_def VehiclePropertyType_MASK_def)

text \<open>For a vendor mixed property whose \<^verbatim>\<open>configArray\<close> has its nine entries, no negative size, the
  check accepts exactly the values whose vectors have the declared element counts; a declared byte
  count of zero accepts any number of bytes.\<close>

theorem checkVendorMixed_iff:
  assumes len: "9 \<le> length (configArray config)"
    and nonneg: "\<forall>i \<in> {3, 5, 7, 8}. 0 \<le> sint (configArray config ! i)"
    and sizes: "length (int32Values (pv_value p)) < 2 ^ 64" "length (int64Values (pv_value p)) < 2 ^ 64"
      "length (floatValues (pv_value p)) < 2 ^ 64" "length (byteValues (pv_value p)) < 2 ^ 64"
  shows "checkVendorMixedPropValue p config = Some (Inr ()) \<longleftrightarrow>
     int (length (int32Values (pv_value p))) =
       flag (configArray config ! 1) + flag (configArray config ! 2) + sint (configArray config ! 3) \<and>
     int (length (int64Values (pv_value p))) =
       flag (configArray config ! 4) + sint (configArray config ! 5) \<and>
     int (length (floatValues (pv_value p))) =
       flag (configArray config ! 6) + sint (configArray config ! 7) \<and>
     (configArray config ! 8 = 0 \<or>
       int (length (byteValues (pv_value p))) = sint (configArray config ! 8))"
proof -
  let ?c = "configArray config"
  have i32: "(of_nat (length (int32Values (pv_value p))) :: size_t)
        = flag_count (?c ! 1) + flag_count (?c ! 2) + scast (?c ! 3) \<longleftrightarrow>
      int (length (int32Values (pv_value p))) = flag (?c ! 1) + flag (?c ! 2) + sint (?c ! 3)"
    using count_eq_iff [of "?c ! 3" _ "flag (?c ! 1) + flag (?c ! 2)"] nonneg sizes
    by (simp add: flag_count_word flag_def)
  have i64: "(of_nat (length (int64Values (pv_value p))) :: size_t)
        = flag_count (?c ! 4) + scast (?c ! 5) \<longleftrightarrow>
      int (length (int64Values (pv_value p))) = flag (?c ! 4) + sint (?c ! 5)"
    using count_eq_iff [of "?c ! 5" _ "flag (?c ! 4)"] nonneg sizes
    by (simp add: flag_count_word flag_def)
  have fl: "(of_nat (length (floatValues (pv_value p))) :: size_t)
        = flag_count (?c ! 6) + scast (?c ! 7) \<longleftrightarrow>
      int (length (floatValues (pv_value p))) = flag (?c ! 6) + sint (?c ! 7)"
    using count_eq_iff [of "?c ! 7" _ "flag (?c ! 6)"] nonneg sizes
    by (simp add: flag_count_word flag_def)
  have bt: "(of_nat (length (byteValues (pv_value p))) :: size_t) = scast (?c ! 8) \<longleftrightarrow>
      int (length (byteValues (pv_value p))) = sint (?c ! 8)"
    using count_eq_iff [of "?c ! 8" _ 0] nonneg sizes by simp
  have z: "(scast (?c ! 8) :: size_t) = 0 \<longleftrightarrow> ?c ! 8 = 0"
    using count_eq_iff [of "?c ! 8" 0 0] nonneg by (auto dest: signed_word_eqI [of _ 0, simplified])
  show ?thesis
    unfolding checkVendorMixedPropValue_def Let_def vec_at_def
    using len i32 i64 fl bt z by auto
qed


theorem checkVendorMixed_iff_witness:
  "checkVendorMixedPropValue
     (empty_prop_value\<lparr>pv_value := empty_raw\<lparr>int32Values := [1, 7, 8], byteValues := [1]\<rparr>\<rparr>)
     \<lparr>pc_prop = 0x21e00001, pc_access = READ, changeMode = STATIC, areaConfigs = [],
      configArray = [0, 1, 0, 2, 0, 0, 0, 0, 0], configString = [], minSampleRate = 0,
      maxSampleRate = 0\<rparr> = Some (Inr ())"
  by (subst checkVendorMixed_iff) (simp_all add: empty_prop_value_def empty_raw_def flag_def)

end
