(* ===== verification/SubscriptionManager.thy ===== *)
theory SubscriptionManager
  imports ConnectedClient VehicleUtils
begin

text \<open>
  \<^verbatim>\<open>SubscriptionManager.h\<close> and \<^verbatim>\<open>SubscriptionManager.cpp\<close>: who is subscribed to which property and area, the
  combined subscription the vehicle hardware is asked for, and the fan-out of events to clients. Every
  method holds \<^verbatim>\<open>mLock\<close> throughout, the calls into the hardware included, so a method is one atomic step on
  the manager and the hardware.

  The hardware is the interface \<^verbatim>\<open>IVehicleHardware\<close>: an argument \<open>hw\<close> that answers a call with a status and
  a new hardware state. \<^verbatim>\<open>std::log10\<close> on floats is the argument \<open>log10f\<close>. A method that would run into
  undefined behaviour while rounding a value returns \<open>None\<close>.
\<close>

section \<open>State\<close>

record SubConfig =
  sampleRateHz :: f32
  resolution :: f32
  enableVur :: bool

record ContSubConfigs =
  mMaxSampleRateHz :: f32
  mMinRequiredResolution :: f32
  mEnableVur :: bool
  mConfigByClient :: "(client_id \<times> SubConfig) list"

record IVehicleCallback =
  cbk_ptr :: nat
  cbk_binder :: client_id

record SetValueErrorEvent =
  ev_errorCode :: StatusCode
  ev_propId :: int32
  ev_areaId :: int32

record SubscriptionManager =
  mClientsByPropIdAreaId :: "(PropIdAreaId \<times> (client_id \<times> IVehicleCallback) list) list"
  mSubscribedPropsByClient :: "(client_id \<times> PropIdAreaId list) list"
  mContSubConfigsByPropIdArea :: "(PropIdAreaId \<times> ContSubConfigs) list"
  mContSubValuesByCallback :: "(IVehicleCallback \<times> VehiclePropValue list) list"
  mSupportedValueChangeClientsByPropIdAreaId :: "(PropIdAreaId \<times> (client_id \<times> IVehicleCallback) list) list"
  mSupportedValueChangePropIdAreaIdsByClient :: "(client_id \<times> PropIdAreaId list) list"

definition newSubscriptionManager :: SubscriptionManager where
  "newSubscriptionManager =
     \<lparr>mClientsByPropIdAreaId = [], mSubscribedPropsByClient = [], mContSubConfigsByPropIdArea = [],
      mContSubValuesByCallback = [], mSupportedValueChangeClientsByPropIdAreaId = [],
      mSupportedValueChangePropIdAreaIdsByClient = []\<rparr>"

text \<open>The calls into \<^verbatim>\<open>IVehicleHardware\<close>; the base class answers each with \<open>OK\<close>.\<close>

datatype hw_call =
    HwSubscribe SubscribeOptions
  | HwUnsubscribe int32 int32
  | HwUpdateSampleRate int32 int32 f32
  | HwSubscribeSupportedValueChange "PropIdAreaId list"
  | HwUnsubscribeSupportedValueChange "PropIdAreaId list"

type_synonym 'h hardware = "hw_call \<Rightarrow> 'h \<Rightarrow> StatusCode \<times> 'h"

definition IVehicleHardware_default :: "'h hardware" where
  "IVehicleHardware_default call h = (OK, h)"

text \<open>A set is a duplicate-free list; \<^verbatim>\<open>operator[]\<close> inserts a default when the key is missing.\<close>

definition lookup_or :: "'v \<Rightarrow> 'k \<Rightarrow> ('k \<times> 'v) list \<Rightarrow> 'v" where
  "lookup_or d k xs = (case map_of xs k of None \<Rightarrow> d | Some v \<Rightarrow> v)"

definition touch :: "'v \<Rightarrow> 'k \<Rightarrow> ('k \<times> 'v) list \<Rightarrow> ('k \<times> 'v) list" where
  "touch d k xs = (case map_of xs k of None \<Rightarrow> AList.update k d xs | Some _ \<Rightarrow> xs)"

section \<open>Sample rates and resolutions\<close>

definition EPSILON :: f32 where "EPSILON = 0x33D6BF95"
definition ONE_SECOND_IN_NANOS :: f32 where "ONE_SECOND_IN_NANOS = 0x4E6E6B28"
definition FLT_MAX :: f32 where "FLT_MAX = 0x7F7FFFFF"

definition newSubscribeOptions :: "int32 \<Rightarrow> int32 \<Rightarrow> f32 \<Rightarrow> f32 \<Rightarrow> bool \<Rightarrow> SubscribeOptions" where
  "newSubscribeOptions propId areaId rateHz res vur =
     \<lparr>so_propId = propId, so_areaIds = [areaId], so_sampleRate = rateHz, so_resolution = res,
      so_enableVur = vur\<rparr>"

text \<open>
  \<open>Inl\<close> is the error of the code. A NaN passes both tests and has no integer value; the interval of
  the undefined conversion is \<open>None\<close>.
\<close>

definition getIntervalNanos :: "f32 \<Rightarrow> unit + int option" where
  "getIntervalNanos rateHz =
     (if f32_le rateHz 0 then Inl ()
      else if f32_le rateHz (f32_div ONE_SECOND_IN_NANOS (f32_of_int (2 ^ 63 - 1))) then Inl ()
      else Inr (f32_trunc (f32_div ONE_SECOND_IN_NANOS rateHz)))"

definition checkSampleRateHz :: "f32 \<Rightarrow> bool" where
  "checkSampleRateHz rateHz = (case getIntervalNanos rateHz of Inl _ \<Rightarrow> False | Inr _ \<Rightarrow> True)"

definition checkResolution :: "(f32 \<Rightarrow> f32) \<Rightarrow> f32 \<Rightarrow> bool" where
  "checkResolution log10f res =
     (if f32_eq res 0 then True
      else let lg = log10f res in f32_lt (f32_abs (f32_sub lg (f32_roundf lg))) EPSILON)"

section \<open>Combined configurations\<close>

definition newContSubConfigs :: ContSubConfigs where
  "newContSubConfigs =
     \<lparr>mMaxSampleRateHz = 0, mMinRequiredResolution = FLT_MAX, mEnableVur = False, mConfigByClient = []\<rparr>"

definition refreshCombinedConfig :: "ContSubConfigs \<Rightarrow> ContSubConfigs" where
  "refreshCombinedConfig cfg =
     (let (maxRate, minRes, vur) =
        foldl (\<lambda>(maxRate, minRes, vur) (_, sc).
                 (if f32_lt maxRate (sampleRateHz sc) then sampleRateHz sc else maxRate,
                  if f32_lt (resolution sc) minRes then resolution sc else minRes,
                  if \<not> enableVur sc then False else vur))
              (0, FLT_MAX, True) (mConfigByClient cfg)
      in cfg\<lparr>mMaxSampleRateHz := maxRate, mMinRequiredResolution := minRes, mEnableVur := vur\<rparr>)"

definition cont_addClient :: "client_id \<Rightarrow> SubConfig \<Rightarrow> ContSubConfigs \<Rightarrow> ContSubConfigs" where
  "cont_addClient clientId sc cfg =
     refreshCombinedConfig (cfg\<lparr>mConfigByClient := AList.update clientId sc (mConfigByClient cfg)\<rparr>)"

definition cont_removeClient :: "client_id \<Rightarrow> ContSubConfigs \<Rightarrow> ContSubConfigs" where
  "cont_removeClient clientId cfg =
     refreshCombinedConfig (cfg\<lparr>mConfigByClient := AList.delete clientId (mConfigByClient cfg)\<rparr>)"

definition isVurEnabledForClient :: "client_id \<Rightarrow> ContSubConfigs \<Rightarrow> bool" where
  "isVurEnabledForClient clientId cfg =
     (case map_of (mConfigByClient cfg) clientId of None \<Rightarrow> False | Some sc \<Rightarrow> enableVur sc)"

definition getResolutionForClient :: "client_id \<Rightarrow> ContSubConfigs \<Rightarrow> f32" where
  "getResolutionForClient clientId cfg =
     (case map_of (mConfigByClient cfg) clientId of None \<Rightarrow> 0 | Some sc \<Rightarrow> resolution sc)"

section \<open>Adding and removing subscribers\<close>

definition addOnChangeSubscriberLocked ::
  "'h hardware \<Rightarrow> PropIdAreaId \<Rightarrow> SubscriptionManager \<times> 'h \<Rightarrow>
     unit VhalResult \<times> SubscriptionManager \<times> 'h" where
  "addOnChangeSubscriberLocked hw k st =
     (case st of (m, h) \<Rightarrow>
        if map_of (mClientsByPropIdAreaId m) k \<noteq> None then (Inr (), m, h)
        else let (status, h') = hw (HwSubscribe (newSubscribeOptions (pa_propId k) (pa_areaId k) 0 0 False)) h
             in if status \<noteq> OK then (Inl status, m, h') else (Inr (), m, h'))"

definition updateContSubConfigsLocked ::
  "'h hardware \<Rightarrow> PropIdAreaId \<Rightarrow> ContSubConfigs \<Rightarrow> SubscriptionManager \<times> 'h \<Rightarrow>
     unit VhalResult \<times> SubscriptionManager \<times> 'h" where
  "updateContSubConfigsLocked hw k newConfig st =
     (case st of (m0, h) \<Rightarrow>
        let m = m0\<lparr>mContSubConfigsByPropIdArea := touch newContSubConfigs k (mContSubConfigsByPropIdArea m0)\<rparr>;
            oldConfig = lookup_or newContSubConfigs k (mContSubConfigsByPropIdArea m);
            newRateHz = mMaxSampleRateHz newConfig; oldRateHz = mMaxSampleRateHz oldConfig;
            newRes = mMinRequiredResolution newConfig; oldRes = mMinRequiredResolution oldConfig;
            stored = m\<lparr>mContSubConfigsByPropIdArea := AList.update k newConfig (mContSubConfigsByPropIdArea m)\<rparr>
        in if f32_eq newRateHz oldRateHz \<and> f32_eq newRes oldRes \<and> mEnableVur newConfig = mEnableVur oldConfig
           then (Inr (), stored, h)
           else
             let (st1, h1) = (if \<not> f32_eq newRateHz oldRateHz
                              then hw (HwUpdateSampleRate (pa_propId k) (pa_areaId k) newRateHz) h
                              else (OK, h))
             in if st1 \<noteq> OK then (Inl st1, m, h1)
                else
                  let (st2, h2) =
                        (if \<not> f32_eq newRateHz 0
                         then hw (HwSubscribe (newSubscribeOptions (pa_propId k) (pa_areaId k) newRateHz newRes
                                (mEnableVur newConfig))) h1
                         else hw (HwUnsubscribe (pa_propId k) (pa_areaId k)) h1)
                  in if st2 \<noteq> OK then (Inl st2, m, h2) else (Inr (), stored, h2))"

definition addContinuousSubscriberLocked ::
  "'h hardware \<Rightarrow> client_id \<Rightarrow> PropIdAreaId \<Rightarrow> f32 \<Rightarrow> f32 \<Rightarrow> bool \<Rightarrow> SubscriptionManager \<times> 'h \<Rightarrow>
     unit VhalResult \<times> SubscriptionManager \<times> 'h" where
  "addContinuousSubscriberLocked hw clientId k rateHz res vur st =
     (case st of (m0, h) \<Rightarrow>
        let m = m0\<lparr>mContSubConfigsByPropIdArea := touch newContSubConfigs k (mContSubConfigsByPropIdArea m0)\<rparr>;
            newConfig = cont_addClient clientId \<lparr>sampleRateHz = rateHz, resolution = res, enableVur = vur\<rparr>
                          (lookup_or newContSubConfigs k (mContSubConfigsByPropIdArea m))
        in updateContSubConfigsLocked hw k newConfig (m, h))"

definition removeContinuousSubscriberLocked ::
  "'h hardware \<Rightarrow> client_id \<Rightarrow> PropIdAreaId \<Rightarrow> SubscriptionManager \<times> 'h \<Rightarrow>
     unit VhalResult \<times> SubscriptionManager \<times> 'h" where
  "removeContinuousSubscriberLocked hw clientId k st =
     (case st of (m0, h) \<Rightarrow>
        let m = m0\<lparr>mContSubConfigsByPropIdArea := touch newContSubConfigs k (mContSubConfigsByPropIdArea m0)\<rparr>;
            newConfig = cont_removeClient clientId (lookup_or newContSubConfigs k (mContSubConfigsByPropIdArea m))
        in updateContSubConfigsLocked hw k newConfig (m, h))"

definition removeOnChangeSubscriberLocked ::
  "'h hardware \<Rightarrow> PropIdAreaId \<Rightarrow> SubscriptionManager \<times> 'h \<Rightarrow>
     unit VhalResult \<times> SubscriptionManager \<times> 'h" where
  "removeOnChangeSubscriberLocked hw k st =
     (case st of (m0, h) \<Rightarrow>
        let m = m0\<lparr>mClientsByPropIdAreaId := touch [] k (mClientsByPropIdAreaId m0)\<rparr>
        in if 1 < length (lookup_or [] k (mClientsByPropIdAreaId m)) then (Inr (), m, h)
           else let (status, h') = hw (HwUnsubscribe (pa_propId k) (pa_areaId k)) h
                in if status \<noteq> OK then (Inl status, m, h') else (Inr (), m, h'))"

section \<open>Subscribe and unsubscribe\<close>

definition option_valid :: "(f32 \<Rightarrow> f32) \<Rightarrow> bool \<Rightarrow> SubscribeOptions \<Rightarrow> bool" where
  "option_valid log10f isContinuous opt \<longleftrightarrow>
     (isContinuous \<longrightarrow> checkSampleRateHz (so_sampleRate opt) \<and> checkResolution log10f (so_resolution opt)) \<and>
     so_areaIds opt \<noteq> []"

text \<open>One turn of the inner loop of \<^verbatim>\<open>subscribe\<close>, and the two loops with their early return.\<close>

definition subscribe_one ::
  "'h hardware \<Rightarrow> IVehicleCallback \<Rightarrow> bool \<Rightarrow> SubscribeOptions \<Rightarrow> int32 \<Rightarrow> SubscriptionManager \<times> 'h \<Rightarrow>
     unit VhalResult \<times> SubscriptionManager \<times> 'h" where
  "subscribe_one hw cb isContinuous opt areaId st =
     (let clientId = cbk_binder cb;
          k = \<lparr>pa_propId = so_propId opt, pa_areaId = areaId\<rparr>;
          (result, m, h) = (if isContinuous
             then addContinuousSubscriberLocked hw clientId k (so_sampleRate opt) (so_resolution opt)
                    (so_enableVur opt) st
             else addOnChangeSubscriberLocked hw k st)
      in case result of
           Inl err \<Rightarrow> (Inl err, m, h)
         | Inr _ \<Rightarrow>
             (Inr (),
              m\<lparr>mSubscribedPropsByClient := AList.update clientId
                   (List.insert k (lookup_or [] clientId (mSubscribedPropsByClient m))) (mSubscribedPropsByClient m),
                 mClientsByPropIdAreaId := AList.update k
                   (AList.update clientId cb (lookup_or [] k (mClientsByPropIdAreaId m))) (mClientsByPropIdAreaId m)\<rparr>,
              h))"

fun subscribe_loop ::
  "'h hardware \<Rightarrow> IVehicleCallback \<Rightarrow> bool \<Rightarrow> (SubscribeOptions \<times> int32) list \<Rightarrow> SubscriptionManager \<times> 'h \<Rightarrow>
     unit VhalResult \<times> SubscriptionManager \<times> 'h" where
  "subscribe_loop hw cb isContinuous [] st = (Inr (), st)"
| "subscribe_loop hw cb isContinuous ((opt, areaId) # rest) st =
     (case subscribe_one hw cb isContinuous opt areaId st of
        (Inl err, st') \<Rightarrow> (Inl err, st')
      | (Inr _, st') \<Rightarrow> subscribe_loop hw cb isContinuous rest st')"

definition mgr_subscribe ::
  "(f32 \<Rightarrow> f32) \<Rightarrow> 'h hardware \<Rightarrow> IVehicleCallback \<Rightarrow> SubscribeOptions list \<Rightarrow> bool \<Rightarrow> SubscriptionManager \<times> 'h \<Rightarrow>
     unit VhalResult \<times> SubscriptionManager \<times> 'h" where
  "mgr_subscribe log10f hw cb options isContinuous st =
     (if \<not> list_all (option_valid log10f isContinuous) options then (Inl INVALID_ARG, st)
      else subscribe_loop hw cb isContinuous
             (concat (map (\<lambda>opt. map (Pair opt) (so_areaIds opt)) options)) st)"

definition unsubscribePropIdAreaIdLocked ::
  "'h hardware \<Rightarrow> client_id \<Rightarrow> PropIdAreaId \<Rightarrow> SubscriptionManager \<times> 'h \<Rightarrow>
     unit VhalResult \<times> SubscriptionManager \<times> 'h" where
  "unsubscribePropIdAreaIdLocked hw clientId k st =
     (case st of (m, h) \<Rightarrow>
        let finish = (\<lambda>(m, h).
              let clients = AList.delete clientId (lookup_or [] k (mClientsByPropIdAreaId m))
              in (Inr (),
                  (if clients = []
                   then m\<lparr>mClientsByPropIdAreaId := AList.delete k (mClientsByPropIdAreaId m),
                          mContSubConfigsByPropIdArea := AList.delete k (mContSubConfigsByPropIdArea m)\<rparr>
                   else m\<lparr>mClientsByPropIdAreaId := AList.update k clients (mClientsByPropIdAreaId m)\<rparr>), h))
        in if map_of (mContSubConfigsByPropIdArea m) k \<noteq> None
           then (case removeContinuousSubscriberLocked hw clientId k st of
                   (Inl err, st') \<Rightarrow> (Inl err, st') | (Inr _, st') \<Rightarrow> finish st')
           else if map_of (mClientsByPropIdAreaId m) k = None then (Inr (), m, h)
           else (case removeOnChangeSubscriberLocked hw k st of
                   (Inl err, st') \<Rightarrow> (Inl err, st') | (Inr _, st') \<Rightarrow> finish st'))"

text \<open>The loop of \<^verbatim>\<open>unsubscribe(client, propIds)\<close> forgets each key as it goes; that of
  \<^verbatim>\<open>unsubscribe(client)\<close> forgets the client after the last one.\<close>

fun unsubscribe_loop ::
  "'h hardware \<Rightarrow> client_id \<Rightarrow> bool \<Rightarrow> PropIdAreaId list \<Rightarrow> SubscriptionManager \<times> 'h \<Rightarrow>
     unit VhalResult \<times> SubscriptionManager \<times> 'h" where
  "unsubscribe_loop hw clientId erasing [] st = (Inr (), st)"
| "unsubscribe_loop hw clientId erasing (k # ks) st =
     (case unsubscribePropIdAreaIdLocked hw clientId k st of
        (Inl err, st') \<Rightarrow> (Inl err, st')
      | (Inr _, m, h) \<Rightarrow>
          unsubscribe_loop hw clientId erasing ks
            (if erasing
             then m\<lparr>mSubscribedPropsByClient := AList.update clientId
                      (removeAll k (lookup_or [] clientId (mSubscribedPropsByClient m)))
                      (mSubscribedPropsByClient m)\<rparr>
             else m, h))"

definition mgr_unsubscribe_props ::
  "'h hardware \<Rightarrow> client_id \<Rightarrow> int32 list \<Rightarrow> SubscriptionManager \<times> 'h \<Rightarrow>
     unit VhalResult \<times> SubscriptionManager \<times> 'h" where
  "mgr_unsubscribe_props hw clientId propIds st =
     (case map_of (mSubscribedPropsByClient (fst st)) clientId of
        None \<Rightarrow> (Inr (), st)
      | Some keys \<Rightarrow>
          (case unsubscribe_loop hw clientId True (filter (\<lambda>k. pa_propId k \<in> set propIds) keys) st of
             (Inl err, st') \<Rightarrow> (Inl err, st')
           | (Inr _, m, h) \<Rightarrow>
               (Inr (),
                (if lookup_or [] clientId (mSubscribedPropsByClient m) = []
                 then m\<lparr>mSubscribedPropsByClient := AList.delete clientId (mSubscribedPropsByClient m)\<rparr>
                 else m), h)))"

section \<open>Supported value changes\<close>

definition svc_add :: "IVehicleCallback \<Rightarrow> PropIdAreaId \<Rightarrow> SubscriptionManager \<Rightarrow> SubscriptionManager" where
  "svc_add cb k m =
     (let c = cbk_binder cb; byKey = mSupportedValueChangeClientsByPropIdAreaId m;
          byClient = mSupportedValueChangePropIdAreaIdsByClient m
      in m\<lparr>mSupportedValueChangeClientsByPropIdAreaId := AList.update k (AList.update c cb (lookup_or [] k byKey)) byKey,
           mSupportedValueChangePropIdAreaIdsByClient :=
             AList.update c (List.insert k (lookup_or [] c byClient)) byClient\<rparr>)"

definition subscribeSupportedValueChange ::
  "'h hardware \<Rightarrow> IVehicleCallback \<Rightarrow> PropIdAreaId list \<Rightarrow> SubscriptionManager \<times> 'h \<Rightarrow>
     unit VhalResult \<times> SubscriptionManager \<times> 'h" where
  "subscribeSupportedValueChange hw cb keys st =
     (case st of (m, h) \<Rightarrow>
        let (status, h') = hw (HwSubscribeSupportedValueChange keys) h
        in if status \<noteq> OK then (Inl status, m, h') else (Inr (), fold (svc_add cb) keys m, h'))"

definition svc_remove :: "client_id \<Rightarrow> PropIdAreaId \<Rightarrow> SubscriptionManager \<Rightarrow> SubscriptionManager" where
  "svc_remove c k m =
     (let byKey = mSupportedValueChangeClientsByPropIdAreaId m;
          byClient = mSupportedValueChangePropIdAreaIdsByClient m;
          byKey' = (if map_of byKey k \<noteq> None
                    then AList.update k (AList.delete c (lookup_or [] k byKey)) byKey else byKey);
          byKey'' = touch [] k byKey';
          byClient' = AList.update c (removeAll k (lookup_or [] c byClient)) byClient
      in m\<lparr>mSupportedValueChangeClientsByPropIdAreaId :=
             (if lookup_or [] k byKey'' = [] then AList.delete k byKey'' else byKey''),
           mSupportedValueChangePropIdAreaIdsByClient :=
             (if lookup_or [] c byClient' = [] then AList.delete c byClient' else byClient')\<rparr>)"

definition unsubscribeSupportedValueChangeLocked ::
  "'h hardware \<Rightarrow> client_id \<Rightarrow> PropIdAreaId list \<Rightarrow> SubscriptionManager \<times> 'h \<Rightarrow>
     unit VhalResult \<times> SubscriptionManager \<times> 'h" where
  "unsubscribeSupportedValueChangeLocked hw clientId keys st =
     (case st of (m, h) \<Rightarrow>
        let toUnsubscribe = filter (\<lambda>k.
              case map_of (mSupportedValueChangeClientsByPropIdAreaId m) k of
                None \<Rightarrow> False
              | Some clients \<Rightarrow> length clients = 1 \<and> map_of clients clientId \<noteq> None) keys;
            (status, h') = (if toUnsubscribe \<noteq> []
                            then hw (HwUnsubscribeSupportedValueChange toUnsubscribe) h else (OK, h))
        in if status \<noteq> OK then (Inl status, m, h') else (Inr (), fold (svc_remove clientId) keys m, h'))"

definition unsubscribeSupportedValueChange ::
  "'h hardware \<Rightarrow> client_id \<Rightarrow> PropIdAreaId list \<Rightarrow> SubscriptionManager \<times> 'h \<Rightarrow>
     unit VhalResult \<times> SubscriptionManager \<times> 'h" where
  "unsubscribeSupportedValueChange hw clientId keys st = unsubscribeSupportedValueChangeLocked hw clientId keys st"

definition mgr_unsubscribe ::
  "'h hardware \<Rightarrow> client_id \<Rightarrow> SubscriptionManager \<times> 'h \<Rightarrow> unit VhalResult \<times> SubscriptionManager \<times> 'h" where
  "mgr_unsubscribe hw clientId st =
     (let supported = (\<lambda>(m, h).
            case map_of (mSupportedValueChangePropIdAreaIdsByClient m) clientId of
              None \<Rightarrow> (Inr (), m, h)
            | Some keys \<Rightarrow> unsubscribeSupportedValueChangeLocked hw clientId keys (m, h))
      in case map_of (mSubscribedPropsByClient (fst st)) clientId of
           None \<Rightarrow> supported st
         | Some keys \<Rightarrow>
             (case unsubscribe_loop hw clientId False keys st of
                (Inl err, st') \<Rightarrow> (Inl err, st')
              | (Inr _, m, h) \<Rightarrow>
                  supported (m\<lparr>mSubscribedPropsByClient := AList.delete clientId (mSubscribedPropsByClient m)\<rparr>, h)))"

section \<open>Events\<close>

text \<open>\<^verbatim>\<open>unordered_set::insert\<close> keeps the element that is there when one with the same key exists.\<close>

definition same_key :: "VehiclePropValue \<Rightarrow> VehiclePropValue \<Rightarrow> bool" where
  "same_key v w \<longleftrightarrow> pv_prop v = pv_prop w \<and> pv_areaId v = pv_areaId w"

definition value_set_insert :: "VehiclePropValue \<Rightarrow> VehiclePropValue list \<Rightarrow> VehiclePropValue list" where
  "value_set_insert v vs = (if list_ex (same_key v) vs then vs else vs @ [v])"

definition isValueUpdatedLocked ::
  "IVehicleCallback \<Rightarrow> VehiclePropValue \<Rightarrow> SubscriptionManager \<Rightarrow> bool \<times> SubscriptionManager" where
  "isValueUpdatedLocked cb v m =
     (let stored = lookup_or [] cb (mContSubValuesByCallback m);
          inserted = m\<lparr>mContSubValuesByCallback :=
             AList.update cb (value_set_insert v stored) (mContSubValuesByCallback m)\<rparr>;
          touched = m\<lparr>mContSubValuesByCallback := touch [] cb (mContSubValuesByCallback m)\<rparr>
      in case find (same_key v) stored of
           None \<Rightarrow> (True, inserted)
         | Some old \<Rightarrow>
             if sint (pv_timestamp old) > sint (pv_timestamp v) then (False, touched)
             else if raw_eq (pv_value old) (pv_value v) \<and> pv_status old = pv_status v then (False, inserted)
             else (True, inserted))"

type_synonym 'e by_callback = "(IVehicleCallback \<times> 'e list) list"

definition push_to :: "IVehicleCallback \<Rightarrow> 'e \<Rightarrow> 'e by_callback \<Rightarrow> 'e by_callback" where
  "push_to cb e clients = AList.update cb (lookup_or [] cb clients @ [e]) clients"

definition notify_client ::
  "VehiclePropValue \<Rightarrow> client_id \<times> IVehicleCallback \<Rightarrow>
     (SubscriptionManager \<times> VehiclePropValue by_callback) option \<Rightarrow>
     (SubscriptionManager \<times> VehiclePropValue by_callback) option" where
  "notify_client v entry st =
     Option.bind st (\<lambda>(m0, out).
       let k = \<lparr>pa_propId = pv_prop v, pa_areaId = pv_areaId v\<rparr>;
           m = m0\<lparr>mContSubConfigsByPropIdArea := touch newContSubConfigs k (mContSubConfigsByPropIdArea m0)\<rparr>;
           cfg = lookup_or newContSubConfigs k (mContSubConfigsByPropIdArea m)
       in Option.bind (sanitizeByResolution (pv_value v) (getResolutionForClient (fst entry) cfg)) (\<lambda>raw.
            let newValue = v\<lparr>pv_value := raw\<rparr>
            in if isVurEnabledForClient (fst entry) cfg \<and> \<not> mEnableVur cfg
               then (let (updated, m') = isValueUpdatedLocked (snd entry) newValue m
                     in Some (m', if updated then push_to (snd entry) newValue out else out))
               else Some (m, push_to (snd entry) newValue out)))"

definition getSubscribedClients ::
  "VehiclePropValue list \<Rightarrow> SubscriptionManager \<Rightarrow>
     (SubscriptionManager \<times> VehiclePropValue by_callback) option" where
  "getSubscribedClients updatedValues m =
     fold (\<lambda>v st. Option.bind st (\<lambda>(m, out).
             fold (notify_client v)
               (lookup_or [] \<lparr>pa_propId = pv_prop v, pa_areaId = pv_areaId v\<rparr> (mClientsByPropIdAreaId m))
               (Some (m, out))))
       updatedValues (Some (m, []))"

definition getSubscribedClientsForErrorEvents ::
  "SetValueErrorEvent list \<Rightarrow> SubscriptionManager \<Rightarrow> VehiclePropError by_callback" where
  "getSubscribedClientsForErrorEvents errorEvents m =
     fold (\<lambda>ev out.
             fold (\<lambda>(_, client). push_to client
                     \<lparr>pe_errorCode = ev_errorCode ev, pe_propId = ev_propId ev, pe_areaId = ev_areaId ev\<rparr>)
               (lookup_or [] \<lparr>pa_propId = ev_propId ev, pa_areaId = ev_areaId ev\<rparr> (mClientsByPropIdAreaId m)) out)
       errorEvents []"

definition getSubscribedClientsForSupportedValueChange ::
  "PropIdAreaId list \<Rightarrow> SubscriptionManager \<Rightarrow> PropIdAreaId by_callback" where
  "getSubscribedClientsForSupportedValueChange keys m =
     fold (\<lambda>k out. fold (\<lambda>(_, client). push_to client k)
                     (lookup_or [] k (mSupportedValueChangeClientsByPropIdAreaId m)) out)
       keys []"

definition mgr_isEmpty :: "SubscriptionManager \<Rightarrow> bool" where
  "mgr_isEmpty m \<longleftrightarrow> mSubscribedPropsByClient m = [] \<and> mClientsByPropIdAreaId m = [] \<and>
     mSupportedValueChangeClientsByPropIdAreaId m = [] \<and> mSupportedValueChangePropIdAreaIdsByClient m = []"

definition countPropertyChangeClients :: "SubscriptionManager \<Rightarrow> nat" where
  "countPropertyChangeClients m = length (mSubscribedPropsByClient m)"

definition countSupportedValueChangeClients :: "SubscriptionManager \<Rightarrow> nat" where
  "countSupportedValueChangeClients m = length (mSupportedValueChangePropIdAreaIdsByClient m)"

section \<open>The combined configuration\<close>

text \<open>
  What the hardware must be asked for: the highest rate, the finest resolution, and variable update rate
  only if every client enables it.
\<close>

definition combined :: "SubConfig set \<Rightarrow> f32 \<Rightarrow> f32 \<Rightarrow> bool \<Rightarrow> bool" where
  "combined scs maxRate minRes vur \<longleftrightarrow>
     (\<forall>sc \<in> scs. \<not> f32_lt maxRate (sampleRateHz sc)) \<and>
     (maxRate = 0 \<or> f32_lt 0 maxRate \<and> maxRate \<in> sampleRateHz ` scs) \<and>
     (\<forall>sc \<in> scs. \<not> f32_lt (resolution sc) minRes) \<and>
     (minRes = FLT_MAX \<or> minRes \<in> resolution ` scs) \<and>
     vur = (\<forall>sc \<in> scs. enableVur sc)"

lemma combined_insert:
  assumes "combined scs mx mn v"
  shows "combined (insert sc scs) (if f32_lt mx (sampleRateHz sc) then sampleRateHz sc else mx)
    (if f32_lt (resolution sc) mn then resolution sc else mn) (if \<not> enableVur sc then False else v)"
proof -
  let ?mx = "if f32_lt mx (sampleRateHz sc) then sampleRateHz sc else mx"
  let ?mn = "if f32_lt (resolution sc) mn then resolution sc else mn"
  have "\<not> f32_lt ?mx (sampleRateHz s)" if "s \<in> insert sc scs" for s
    using assms that f32_lt_trans [of mx "sampleRateHz sc" "sampleRateHz s"]
    by (auto simp: combined_def split: if_splits)
  moreover have "?mx = 0 \<or> f32_lt 0 ?mx \<and> ?mx \<in> sampleRateHz ` insert sc scs"
    using assms f32_lt_trans [of 0 mx "sampleRateHz sc"] by (auto simp: combined_def)
  moreover have "\<not> f32_lt (resolution s) ?mn" if "s \<in> insert sc scs" for s
    using assms that f32_lt_trans [of "resolution s" "resolution sc" mn]
    by (auto simp: combined_def split: if_splits)
  moreover have "?mn = FLT_MAX \<or> ?mn \<in> resolution ` insert sc scs"
    using assms by (auto simp: combined_def)
  ultimately show ?thesis using assms unfolding combined_def by simp
qed

lemma combined_fold:
  "case foldl (\<lambda>(maxRate, minRes, vur) (_, sc).
         (if f32_lt maxRate (sampleRateHz sc) then sampleRateHz sc else maxRate,
          if f32_lt (resolution sc) minRes then resolution sc else minRes,
          if \<not> enableVur sc then False else vur)) (0, FLT_MAX, True) xs
   of (mx, mn, v) \<Rightarrow> combined (snd ` set xs) mx mn v"
proof (induction xs rule: rev_induct)
  case Nil
  then show ?case by (simp add: combined_def)
next
  case (snoc x xs)
  obtain c sc where x: "x = (c, sc)" by fastforce
  obtain mx mn v where f: "foldl (\<lambda>(maxRate, minRes, vur) (_, sc).
         (if f32_lt maxRate (sampleRateHz sc) then sampleRateHz sc else maxRate,
          if f32_lt (resolution sc) minRes then resolution sc else minRes,
          if \<not> enableVur sc then False else vur)) (0, FLT_MAX, True) xs = (mx, mn, v)"
    by (rule prod_cases3)
  then have "combined (snd ` set xs) mx mn v" using snoc.IH by simp
  from combined_insert [OF this, of sc] show ?case by (simp add: x f)
qed

definition configs_of :: "ContSubConfigs \<Rightarrow> SubConfig set" where
  "configs_of cfg = snd ` set (mConfigByClient cfg)"

lemma refresh_combined:
  "combined (configs_of cfg) (mMaxSampleRateHz (refreshCombinedConfig cfg))
     (mMinRequiredResolution (refreshCombinedConfig cfg)) (mEnableVur (refreshCombinedConfig cfg))"
  using combined_fold [of "mConfigByClient cfg"]
  by (auto simp: refreshCombinedConfig_def configs_of_def split: prod.splits)

lemma refresh_clients [simp]: "mConfigByClient (refreshCombinedConfig cfg) = mConfigByClient cfg"
  by (auto simp: refreshCombinedConfig_def split: prod.splits)

definition cfg_ok :: "ContSubConfigs \<Rightarrow> bool" where
  "cfg_ok cfg \<longleftrightarrow> wf_alist (mConfigByClient cfg) \<and>
     (cfg = newContSubConfigs \<or>
      combined (configs_of cfg) (mMaxSampleRateHz cfg) (mMinRequiredResolution cfg) (mEnableVur cfg))"

lemma cfg_ok_new [simp]: "cfg_ok newContSubConfigs"
  by (simp add: cfg_ok_def newContSubConfigs_def)

lemma cfg_ok_refresh: "wf_alist (mConfigByClient cfg) \<Longrightarrow> cfg_ok (refreshCombinedConfig cfg)"
  using refresh_combined [of cfg] by (simp add: cfg_ok_def configs_of_def)

lemma cfg_ok_add [wf_intros]: "cfg_ok cfg \<Longrightarrow> cfg_ok (cont_addClient c sc cfg)"
  unfolding cont_addClient_def by (rule cfg_ok_refresh) (simp add: cfg_ok_def)

lemma cfg_ok_remove [wf_intros]: "cfg_ok cfg \<Longrightarrow> cfg_ok (cont_removeClient c cfg)"
  unfolding cont_removeClient_def by (rule cfg_ok_refresh) (simp add: cfg_ok_def)

section \<open>Views of the state\<close>

lemma lookup_or_update [simp]:
  "lookup_or d k (AList.update k' v xs) = (if k = k' then v else lookup_or d k xs)"
  by (simp add: lookup_or_def)

lemma lookup_or_delete [simp]:
  "lookup_or d k (AList.delete k' xs) = (if k = k' then d else lookup_or d k xs)"
  by (simp add: lookup_or_def)

lemma lookup_or_touch [simp]: "lookup_or d k (touch d k' xs) = lookup_or d k xs"
  by (auto simp: lookup_or_def touch_def split: option.split)

lemma touch_present: "map_of xs k \<noteq> None \<Longrightarrow> touch d k xs = xs"
  by (auto simp: touch_def)

lemma touch_touch [simp]: "touch d k (touch d k xs) = touch d k xs"
  by (auto simp: touch_def split: option.split)

lemma wf_touch [simp]: "wf_alist xs \<Longrightarrow> wf_alist (touch d k xs)"
  by (auto simp: touch_def split: option.split)

lemma map_of_touch: "map_of (touch d k xs) = (if map_of xs k = None then (map_of xs)(k \<mapsto> d) else map_of xs)"
  by (auto simp: touch_def split: option.split)

abbreviation subscribers :: "SubscriptionManager \<Rightarrow> PropIdAreaId \<Rightarrow> (client_id \<times> IVehicleCallback) list" where
  "subscribers m k \<equiv> lookup_or [] k (mClientsByPropIdAreaId m)"

abbreviation props_of :: "SubscriptionManager \<Rightarrow> client_id \<Rightarrow> PropIdAreaId list" where
  "props_of m c \<equiv> lookup_or [] c (mSubscribedPropsByClient m)"

abbreviation cont_cfg :: "SubscriptionManager \<Rightarrow> PropIdAreaId \<Rightarrow> ContSubConfigs" where
  "cont_cfg m k \<equiv> lookup_or newContSubConfigs k (mContSubConfigsByPropIdArea m)"

section \<open>Effects of the private operations\<close>

lemma updateCont_effect:
  assumes "updateContSubConfigsLocked hw k cfg (m, h) = (r, m', h')"
  shows "m' = m\<lparr>mContSubConfigsByPropIdArea :=
    (if r = Inr () then AList.update k cfg (touch newContSubConfigs k (mContSubConfigsByPropIdArea m))
     else touch newContSubConfigs k (mContSubConfigsByPropIdArea m))\<rparr>"
  using assms
  by (auto simp: updateContSubConfigsLocked_def Let_def split: prod.splits if_splits)

lemma addCont_effect:
  assumes "addContinuousSubscriberLocked hw c k rate res vur (m, h) = (r, m', h')"
  shows "m' = m\<lparr>mContSubConfigsByPropIdArea :=
    (if r = Inr () then AList.update k (cont_addClient c \<lparr>sampleRateHz = rate, resolution = res, enableVur = vur\<rparr>
         (cont_cfg m k)) (touch newContSubConfigs k (mContSubConfigsByPropIdArea m))
     else touch newContSubConfigs k (mContSubConfigsByPropIdArea m))\<rparr>"
  using assms unfolding addContinuousSubscriberLocked_def Let_def
  by (auto dest!: updateCont_effect)

lemma removeCont_effect:
  assumes "removeContinuousSubscriberLocked hw c k (m, h) = (r, m', h')"
  shows "m' = m\<lparr>mContSubConfigsByPropIdArea :=
    (if r = Inr () then AList.update k (cont_removeClient c (cont_cfg m k))
         (touch newContSubConfigs k (mContSubConfigsByPropIdArea m))
     else touch newContSubConfigs k (mContSubConfigsByPropIdArea m))\<rparr>"
  using assms unfolding removeContinuousSubscriberLocked_def Let_def
  by (auto dest!: updateCont_effect)

lemma addOnChange_effect:
  "addOnChangeSubscriberLocked hw k (m, h) = (r, m', h') \<Longrightarrow> m' = m"
  by (auto simp: addOnChangeSubscriberLocked_def Let_def split: prod.splits if_splits)

lemma removeOnChange_effect:
  "removeOnChangeSubscriberLocked hw k (m, h) = (r, m', h') \<Longrightarrow>
     m' = m\<lparr>mClientsByPropIdAreaId := touch [] k (mClientsByPropIdAreaId m)\<rparr>"
  by (auto simp: removeOnChangeSubscriberLocked_def Let_def split: prod.splits if_splits)

text \<open>The maps that neither subscribing nor unsubscribing a property touches.\<close>

definition same_supported :: "SubscriptionManager \<Rightarrow> SubscriptionManager \<Rightarrow> bool" where
  "same_supported m m' \<longleftrightarrow>
     mSupportedValueChangeClientsByPropIdAreaId m' = mSupportedValueChangeClientsByPropIdAreaId m \<and>
     mSupportedValueChangePropIdAreaIdsByClient m' = mSupportedValueChangePropIdAreaIdsByClient m"

lemma subscribe_one_effect:
  assumes "subscribe_one hw cb b opt a (m, h) = (Inr u, m', h')"
    and k: "k = \<lparr>pa_propId = so_propId opt, pa_areaId = a\<rparr>"
  shows "mSubscribedPropsByClient m' = AList.update (cbk_binder cb)
      (List.insert k (props_of m (cbk_binder cb))) (mSubscribedPropsByClient m)"
    and "mClientsByPropIdAreaId m' = AList.update k
      (AList.update (cbk_binder cb) cb (subscribers m k)) (mClientsByPropIdAreaId m)"
    and "same_supported m m'"
    and "mContSubConfigsByPropIdArea m' = (if b then AList.update k (cont_addClient (cbk_binder cb)
        \<lparr>sampleRateHz = so_sampleRate opt, resolution = so_resolution opt, enableVur = so_enableVur opt\<rparr>
        (cont_cfg m k)) (touch newContSubConfigs k (mContSubConfigsByPropIdArea m))
      else mContSubConfigsByPropIdArea m)"
  using assms
  by (auto simp: subscribe_one_def same_supported_def Let_def split: sum.splits if_splits prod.splits
      dest: addCont_effect addOnChange_effect)

lemma subscribe_one_error:
  assumes "subscribe_one hw cb b opt a (m, h) = (Inl e, m', h')"
  shows "m' = m \<or> m' = m\<lparr>mContSubConfigsByPropIdArea :=
    touch newContSubConfigs \<lparr>pa_propId = so_propId opt, pa_areaId = a\<rparr> (mContSubConfigsByPropIdArea m)\<rparr>"
  using assms
  by (auto simp: subscribe_one_def Let_def split: sum.splits if_splits prod.splits
      dest: addCont_effect addOnChange_effect)

lemma unsubscribe_one_error:
  assumes "unsubscribePropIdAreaIdLocked hw c k (m, h) = (Inl e, m', h')"
  shows "m' = m"
  using assms
  by (auto simp: unsubscribePropIdAreaIdLocked_def Let_def split: sum.splits if_splits prod.splits
      dest!: removeCont_effect removeOnChange_effect) (auto simp: touch_present)

definition drop_client :: "client_id \<Rightarrow> PropIdAreaId \<Rightarrow> SubscriptionManager \<Rightarrow> SubscriptionManager" where
  "drop_client c k m =
     (let clients = AList.delete c (subscribers m k)
      in if clients = []
         then m\<lparr>mClientsByPropIdAreaId := AList.delete k (mClientsByPropIdAreaId m),
                mContSubConfigsByPropIdArea := AList.delete k (mContSubConfigsByPropIdArea m)\<rparr>
         else m\<lparr>mClientsByPropIdAreaId := AList.update k clients (mClientsByPropIdAreaId m)\<rparr>)"

lemma unsubscribe_one_effect:
  assumes "unsubscribePropIdAreaIdLocked hw c k (m, h) = (Inr u, m', h')"
  shows "m' = (if map_of (mContSubConfigsByPropIdArea m) k \<noteq> None
     then drop_client c k (m\<lparr>mContSubConfigsByPropIdArea :=
       AList.update k (cont_removeClient c (cont_cfg m k)) (mContSubConfigsByPropIdArea m)\<rparr>)
     else if map_of (mClientsByPropIdAreaId m) k = None then m
     else drop_client c k m)"
  using assms
  by (auto simp: unsubscribePropIdAreaIdLocked_def drop_client_def Let_def
      split: sum.splits if_splits prod.splits dest!: removeCont_effect removeOnChange_effect)
    (auto simp: touch_present)

section \<open>The invariant of the subscription maps\<close>

text \<open>
  No entry without clients; a client that receives events of a key is known to be subscribed to it,
  under the id of its own callback; the combined configurations are what they should be.
\<close>

definition distinct_keys :: "('k \<times> 'v) list \<Rightarrow> bool" where
  "distinct_keys xs \<longleftrightarrow> wf_alist xs"

lemma distinct_keys_simps [simp]:
  "distinct_keys []"
  "distinct_keys xs \<Longrightarrow> distinct_keys (AList.update k v xs)"
  "distinct_keys xs \<Longrightarrow> distinct_keys (AList.delete k xs)"
  by (simp_all add: distinct_keys_def)

definition subs_inv :: "SubscriptionManager \<Rightarrow> bool" where
  "subs_inv m \<longleftrightarrow>
     (\<forall>k. map_of (mClientsByPropIdAreaId m) k \<noteq> Some []) \<and> (\<forall>k. distinct_keys (subscribers m k)) \<and>
     (\<forall>k c cb. map_of (subscribers m k) c = Some cb \<longrightarrow> cbk_binder cb = c \<and> k \<in> set (props_of m c)) \<and>
     (\<forall>k. cfg_ok (cont_cfg m k))"

lemma subs_gone: "subs_inv m \<Longrightarrow> k \<notin> set (props_of m c) \<Longrightarrow> map_of (subscribers m k) c = None"
  unfolding subs_inv_def by (metis not_None_eq)

lemma update_nonempty: "AList.update k v xs \<noteq> []"
  by (cases xs) auto

lemma subs_inv_touch: "subs_inv m \<Longrightarrow> subs_inv (m\<lparr>mContSubConfigsByPropIdArea :=
    touch newContSubConfigs k (mContSubConfigsByPropIdArea m)\<rparr>)"
  by (simp add: subs_inv_def)

lemma subscribe_one_inv:
  assumes "subs_inv m" and "subscribe_one hw cb b opt a (m, h) = (r, m', h')"
  shows "subs_inv m'"
proof (cases r)
  case (Inl e)
  with assms subscribe_one_error show ?thesis by (metis subs_inv_touch)
next
  case (Inr u)
  note eff = subscribe_one_effect [OF assms(2) [unfolded Inr] refl]
  show ?thesis
    using assms(1) unfolding subs_inv_def eff
    by (auto simp: update_nonempty intro: cfg_ok_add split: if_splits)
qed

lemma subscribe_loop_inv:
  "subs_inv m \<Longrightarrow> subscribe_loop hw cb b xs (m, h) = (r, m', h') \<Longrightarrow> subs_inv m'"
proof (induction xs arbitrary: m h)
  case Nil
  then show ?case by simp
next
  case (Cons x xs)
  obtain opt a where x: "x = (opt, a)" by fastforce
  obtain r1 m1 h1 where one: "subscribe_one hw cb b opt a (m, h) = (r1, m1, h1)" by (metis prod_cases3)
  with Cons.prems x subscribe_one_inv [OF Cons.prems(1) one] Cons.IH show ?case
    by (cases r1) auto
qed

lemma drop_client_inv:
  assumes "subs_inv m"
  shows "subs_inv (drop_client c k m)"
  using assms by (auto simp: subs_inv_def drop_client_def Let_def split: if_splits)

lemma unsubscribe_one_inv:
  assumes "subs_inv m" and "unsubscribePropIdAreaIdLocked hw c k (m, h) = (r, m', h')"
  shows "subs_inv m'"
proof (cases r)
  case (Inl e)
  with assms unsubscribe_one_error show ?thesis by metis
next
  case (Inr u)
  have "subs_inv (m\<lparr>mContSubConfigsByPropIdArea :=
       AList.update k (cont_removeClient c (cont_cfg m k)) (mContSubConfigsByPropIdArea m)\<rparr>)"
    using assms(1) by (auto simp: subs_inv_def intro: cfg_ok_remove)
  with assms unsubscribe_one_effect [OF assms(2) [unfolded Inr]] show ?thesis
    by (auto intro: drop_client_inv)
qed

text \<open>After unsubscribing a client from a key, it is no longer among its subscribers; other clients and
  keys keep theirs.\<close>

lemma drop_client_subscribers:
  "subscribers (drop_client c k m) k' = (if k' = k then AList.delete c (subscribers m k) else subscribers m k')"
  "mSubscribedPropsByClient (drop_client c k m) = mSubscribedPropsByClient m"
  "same_supported m (drop_client c k m)"
  by (auto simp: drop_client_def Let_def fun_eq_iff same_supported_def)

lemma unsubscribe_one_subscribers:
  assumes "unsubscribePropIdAreaIdLocked hw c k (m, h) = (Inr u, m', h')"
  shows "map_of (subscribers m' k') c' = (if k' = k \<and> c' = c then None else map_of (subscribers m k') c')"
    and "mSubscribedPropsByClient m' = mSubscribedPropsByClient m" and "same_supported m m'"
proof -
  let ?m = "m\<lparr>mContSubConfigsByPropIdArea :=
       AList.update k (cont_removeClient c (cont_cfg m k)) (mContSubConfigsByPropIdArea m)\<rparr>"
  have eff: "m' = drop_client c k ?m \<or> m' = drop_client c k m \<or> (m' = m \<and> subscribers m k = [])"
    using unsubscribe_one_effect [OF assms] by (auto simp: lookup_or_def split: if_splits)
  have same: "same_supported m ?m" by (simp add: same_supported_def)
  show "map_of (subscribers m' k') c' = (if k' = k \<and> c' = c then None else map_of (subscribers m k') c')"
    using eff by (auto simp: drop_client_subscribers)
  show "mSubscribedPropsByClient m' = mSubscribedPropsByClient m"
    using eff by (auto simp: drop_client_subscribers)
  show "same_supported m m'"
    using eff drop_client_subscribers(3) [of m] drop_client_subscribers(3) [of ?m] same
    by (auto simp: same_supported_def)
qed

lemma unsubscribe_loop_inv:
  "subs_inv m \<Longrightarrow> unsubscribe_loop hw c b ks (m, h) = (r, m', h') \<Longrightarrow> subs_inv m'"
proof (induction ks arbitrary: m h)
  case Nil
  then show ?case by simp
next
  case (Cons k ks)
  obtain r1 m1 h1 where one: "unsubscribePropIdAreaIdLocked hw c k (m, h) = (r1, m1, h1)" by (metis prod_cases3)
  note inv1 = unsubscribe_one_inv [OF Cons.prems(1) one]
  show ?case
  proof (cases r1)
    case (Inl e)
    with Cons.prems one inv1 show ?thesis by simp
  next
    case (Inr u)
    have "subs_inv (m1\<lparr>mSubscribedPropsByClient := AList.update c (removeAll k (props_of m1 c))
        (mSubscribedPropsByClient m1)\<rparr>)"
      using inv1 unsubscribe_one_subscribers(1) [OF one [unfolded Inr], of k c]
      by (auto simp: subs_inv_def)
    with Inr Cons.prems Cons.IH one inv1 show ?thesis by (auto split: if_splits)
  qed
qed

lemma unsubscribe_loop_subscribers:
  "unsubscribe_loop hw c b ks (m, h) = (Inr u, m', h') \<Longrightarrow>
     (map_of (subscribers m' k) c' = (if k \<in> set ks \<and> c' = c then None else map_of (subscribers m k) c')) \<and>
     same_supported m m' \<and>
     set (props_of m' c') = (if b \<and> c' = c then set (props_of m c') - set ks else set (props_of m c'))"
proof (induction ks arbitrary: m h)
  case Nil
  then show ?case by (auto simp: same_supported_def)
next
  case (Cons k1 ks)
  obtain r1 m1 h1 where one: "unsubscribePropIdAreaIdLocked hw c k1 (m, h) = (r1, m1, h1)" by (metis prod_cases3)
  with Cons.prems obtain u1 where r1: "r1 = Inr u1" by (cases r1) auto
  note eff = unsubscribe_one_subscribers [OF one [unfolded r1]]
  let ?m1 = "if b then m1\<lparr>mSubscribedPropsByClient := AList.update c (removeAll k1 (props_of m1 c))
     (mSubscribedPropsByClient m1)\<rparr> else m1"
  from Cons.prems one r1 have "unsubscribe_loop hw c b ks (?m1, h1) = (Inr u, m', h')" by simp
  note IH = Cons.IH [OF this]
  show ?case using IH eff by (auto simp: same_supported_def split: if_splits)
qed

lemma unsubscribe_props_inv:
  assumes "subs_inv m" and "mgr_unsubscribe_props hw c ps (m, h) = (r, m', h')"
  shows "subs_inv m'"
proof (cases "map_of (mSubscribedPropsByClient m) c")
  case None
  with assms show ?thesis by (simp add: mgr_unsubscribe_props_def)
next
  case (Some ks)
  obtain r1 m1 h1 where l: "unsubscribe_loop hw c True (filter (\<lambda>k. pa_propId k \<in> set ps) ks) (m, h)
      = (r1, m1, h1)" by (metis prod_cases3)
  note inv1 = unsubscribe_loop_inv [OF assms(1) l]
  have "subs_inv (m1\<lparr>mSubscribedPropsByClient := AList.delete c (mSubscribedPropsByClient m1)\<rparr>)"
    if "props_of m1 c = []"
  proof -
    have "map_of (subscribers m1 k) c = None" for k
      using subs_gone [OF inv1] that by simp
    with inv1 show ?thesis by (auto simp: subs_inv_def)
  qed
  with assms(2) Some l inv1 show ?thesis
    by (auto simp: mgr_unsubscribe_props_def split: sum.splits if_splits)
qed

section \<open>The invariant of the supported-value maps\<close>

abbreviation sv_clients :: "SubscriptionManager \<Rightarrow> PropIdAreaId \<Rightarrow> (client_id \<times> IVehicleCallback) list" where
  "sv_clients m k \<equiv> lookup_or [] k (mSupportedValueChangeClientsByPropIdAreaId m)"

abbreviation sv_props :: "SubscriptionManager \<Rightarrow> client_id \<Rightarrow> PropIdAreaId list" where
  "sv_props m c \<equiv> lookup_or [] c (mSupportedValueChangePropIdAreaIdsByClient m)"

text \<open>The two maps are inverses of each other and have no empty entries.\<close>

definition sv_inv :: "SubscriptionManager \<Rightarrow> bool" where
  "sv_inv m \<longleftrightarrow>
     (\<forall>k. map_of (mSupportedValueChangeClientsByPropIdAreaId m) k \<noteq> Some [] \<and> wf_alist (sv_clients m k)) \<and>
     (\<forall>c. map_of (mSupportedValueChangePropIdAreaIdsByClient m) c \<noteq> Some []) \<and>
     (\<forall>k c. c \<in> fst ` set (sv_clients m k) \<longleftrightarrow> k \<in> set (sv_props m c))"

lemma sv_inv_same: "same_supported m m' \<Longrightarrow> sv_inv m' = sv_inv m"
  by (simp add: same_supported_def sv_inv_def)

lemma keys_delete: "fst ` set (AList.delete k xs) = fst ` set xs - {k}"
  by (metis dom_map_of_conv_image_fst dom_fun_upd map_of_delete)

lemma svc_add_views:
  "sv_clients (svc_add cb k m) k' = (if k' = k then AList.update (cbk_binder cb) cb (sv_clients m k) else sv_clients m k')"
  "sv_props (svc_add cb k m) c = (if c = cbk_binder cb then List.insert k (sv_props m c) else sv_props m c)"
  by (auto simp: svc_add_def Let_def)

lemma svc_add_inv: "sv_inv m \<Longrightarrow> sv_inv (svc_add cb k m)"
  unfolding sv_inv_def svc_add_views
  by (auto simp: svc_add_def Let_def update_nonempty keys_update List.insert_def split: if_splits)

lemma svc_remove_views:
  "sv_clients (svc_remove c k m) k' = (if k' = k then AList.delete c (sv_clients m k) else sv_clients m k')"
  "sv_props (svc_remove c k m) c' = (if c' = c then removeAll k (sv_props m c) else sv_props m c')"
  by (auto simp: svc_remove_def Let_def lookup_or_def touch_def split: option.splits)

lemma svc_remove_inv: "sv_inv m \<Longrightarrow> sv_inv (svc_remove c k m)"
proof -
  assume inv: "sv_inv m"
  have "map_of (mSupportedValueChangeClientsByPropIdAreaId (svc_remove c k m)) k' \<noteq> Some []" for k'
    using inv by (auto simp: sv_inv_def svc_remove_def Let_def touch_def lookup_or_def split: option.splits if_splits)
  moreover have "map_of (mSupportedValueChangePropIdAreaIdsByClient (svc_remove c k m)) c' \<noteq> Some []" for c'
    using inv by (auto simp: sv_inv_def svc_remove_def Let_def lookup_or_def split: option.splits if_splits)
  ultimately show ?thesis
    using inv unfolding sv_inv_def svc_remove_views by (auto simp: keys_delete)
qed

lemma svc_fold_inv:
  "sv_inv m \<Longrightarrow> sv_inv (fold (svc_add cb) ks m)" "sv_inv m \<Longrightarrow> sv_inv (fold (svc_remove c) ks m)"
  by (induction ks arbitrary: m) (auto intro: svc_add_inv svc_remove_inv)

lemma svc_same_subs:
  "subs_inv (svc_add cb k m) = subs_inv m" "subs_inv (svc_remove c k m) = subs_inv m"
  by (simp_all add: subs_inv_def svc_add_def svc_remove_def Let_def)

lemma svc_fold_same_subs:
  "subs_inv (fold (svc_add cb) ks m) = subs_inv m" "subs_inv (fold (svc_remove c) ks m) = subs_inv m"
  by (induction ks arbitrary: m) (auto simp: svc_same_subs)

lemma subscribeSVC_inv:
  assumes "sv_inv m" and "subs_inv m" and "subscribeSupportedValueChange hw cb ks (m, h) = (r, m', h')"
  shows "sv_inv m' \<and> subs_inv m'"
  using assms by (auto simp: subscribeSupportedValueChange_def svc_fold_inv svc_fold_same_subs Let_def
      split: prod.splits if_splits)

lemma unsubscribeSVC_inv:
  assumes "sv_inv m" and "subs_inv m" and "unsubscribeSupportedValueChangeLocked hw c ks (m, h) = (r, m', h')"
  shows "sv_inv m' \<and> subs_inv m'"
  using assms by (auto simp: unsubscribeSupportedValueChangeLocked_def svc_fold_inv svc_fold_same_subs Let_def
      split: prod.splits if_splits)

lemma unsubscribe_loop_sv:
  "sv_inv m \<Longrightarrow> unsubscribe_loop hw c b ks (m, h) = (r, m', h') \<Longrightarrow> sv_inv m'"
proof (induction ks arbitrary: m h)
  case Nil
  then show ?case by simp
next
  case (Cons k ks)
  obtain r1 m1 h1 where one: "unsubscribePropIdAreaIdLocked hw c k (m, h) = (r1, m1, h1)" by (metis prod_cases3)
  show ?case
  proof (cases r1)
    case (Inl e)
    with Cons.prems one unsubscribe_one_error [OF one [unfolded Inl]] show ?thesis by simp
  next
    case (Inr u)
    have "sv_inv m1" using Cons.prems(1) unsubscribe_one_subscribers(3) [OF one [unfolded Inr]] sv_inv_same by blast
    then have "sv_inv (if b then m1\<lparr>mSubscribedPropsByClient := x\<rparr> else m1)" for x
      by (simp add: sv_inv_def)
    with Cons.prems(2) Inr one Cons.IH show ?thesis by fastforce
  qed
qed

lemma unsubscribe_all_inv:
  assumes "subs_inv m" and "sv_inv m" and "mgr_unsubscribe hw c (m, h) = (r, m', h')"
  shows "subs_inv m' \<and> sv_inv m'"
proof -
  have rest: "subs_inv m' \<and> sv_inv m'"
    if "subs_inv n" "sv_inv n" "(case map_of (mSupportedValueChangePropIdAreaIdsByClient n) c of
              None \<Rightarrow> (Inr (), n, g)
            | Some keys \<Rightarrow> unsubscribeSupportedValueChangeLocked hw c keys (n, g)) = (r, m', h')" for n g
    using that by (auto split: option.splits dest: unsubscribeSVC_inv [OF that(2,1)])
  show ?thesis
  proof (cases "map_of (mSubscribedPropsByClient m) c")
    case None
    with assms show ?thesis by (intro rest [of m h]) (auto simp: mgr_unsubscribe_def)
  next
    case (Some ks)
    obtain r1 m1 h1 where l: "unsubscribe_loop hw c False ks (m, h) = (r1, m1, h1)" by (metis prod_cases3)
    note inv1 = unsubscribe_loop_inv [OF assms(1) l] and sv1 = unsubscribe_loop_sv [OF assms(2) l]
    show ?thesis
    proof (cases r1)
      case (Inl e)
      with assms(3) Some l inv1 sv1 show ?thesis by (auto simp: mgr_unsubscribe_def)
    next
      case (Inr u)
      let ?n = "m1\<lparr>mSubscribedPropsByClient := AList.delete c (mSubscribedPropsByClient m1)\<rparr>"
      have "map_of (subscribers m1 k) c = None" for k
      proof (cases "k \<in> set ks")
        case True
        with unsubscribe_loop_subscribers [OF l [unfolded Inr], of k c] show ?thesis by simp
      next
        case False
        then have "map_of (subscribers m k) c = None"
          using subs_gone [OF assms(1)] Some by (simp add: lookup_or_def)
        with unsubscribe_loop_subscribers [OF l [unfolded Inr], of k c] show ?thesis by simp
      qed
      then have "subs_inv ?n" using inv1 by (auto simp: subs_inv_def)
      moreover have "sv_inv ?n" using sv1 by (simp add: sv_inv_def)
      ultimately show ?thesis
        using assms(3) Some l Inr by (intro rest) (auto simp: mgr_unsubscribe_def)
    qed
  qed
qed

section \<open>Events change no subscription\<close>

definition same_subs :: "SubscriptionManager \<Rightarrow> SubscriptionManager \<Rightarrow> bool" where
  "same_subs m m' \<longleftrightarrow>
     mClientsByPropIdAreaId m' = mClientsByPropIdAreaId m \<and>
     mSubscribedPropsByClient m' = mSubscribedPropsByClient m \<and>
     (\<forall>k. cont_cfg m' k = cont_cfg m k) \<and> same_supported m m'"

lemma same_subs_trans: "same_subs m m' \<Longrightarrow> same_subs m' m'' \<Longrightarrow> same_subs m m''"
  by (simp add: same_subs_def same_supported_def)

lemma same_subs_inv: "same_subs m m' \<Longrightarrow> subs_inv m \<Longrightarrow> subs_inv m'" "same_subs m m' \<Longrightarrow> sv_inv m \<Longrightarrow> sv_inv m'"
  by (simp_all add: same_subs_def subs_inv_def same_supported_def sv_inv_def)

lemma notify_client_same:
  "notify_client v e (Some (m, out)) = Some (m', out') \<Longrightarrow> same_subs m m'"
  by (auto simp: notify_client_def isValueUpdatedLocked_def same_subs_def same_supported_def Let_def
      bind_eq_Some_conv split: if_splits option.splits prod.splits)

lemma notify_None [simp]: "notify_client v e None = None"
  by (simp add: notify_client_def)

lemma fold_notify_None [simp]: "fold (notify_client v) es None = None"
  by (induction es) auto

lemma fold_notify_same:
  "fold (notify_client v) es (Some (m, out)) = Some (m', out') \<Longrightarrow> same_subs m m'"
proof (induction es arbitrary: m out)
  case Nil
  then show ?case by (simp add: same_subs_def same_supported_def)
next
  case (Cons e es)
  then obtain m1 out1 where "notify_client v e (Some (m, out)) = Some (m1, out1)"
    by (cases "notify_client v e (Some (m, out))") auto
  with Cons show ?case by (auto intro: same_subs_trans notify_client_same)
qed

lemma getSubscribedClients_same:
  assumes "getSubscribedClients vs m = Some (m', out)"
  shows "same_subs m m'"
proof -
  let ?f = "\<lambda>v st. Option.bind st (\<lambda>(m, out). fold (notify_client v)
               (subscribers m \<lparr>pa_propId = pv_prop v, pa_areaId = pv_areaId v\<rparr>) (Some (m, out)))"
  have none: "fold ?f vs None = None" for vs by (induction vs) auto
  have "fold ?f vs (Some (n, out0)) = Some (m', out) \<Longrightarrow> same_subs n m'" for n out0
  proof (induction vs arbitrary: n out0)
    case Nil
    then show ?case by (simp add: same_subs_def same_supported_def)
  next
    case (Cons v vs)
    then obtain m1 out1 where "?f v (Some (n, out0)) = Some (m1, out1)"
      by (cases "?f v (Some (n, out0))") (auto simp: none)
    with Cons show ?case by (auto intro: same_subs_trans fold_notify_same)
  qed
  with assms show ?thesis by (simp add: getSubscribedClients_def)
qed

end
