(* ===== verification/SubscriptionRuns.thy ===== *)
theory SubscriptionRuns
  imports SubscriptionManager
begin

text \<open>
  Runs of the subscription manager of \<^verbatim>\<open>SubscriptionManager.cpp\<close> against a vehicle hardware: the invariants on
  every hardware, the agreement of the hardware with the clients on one that accepts its calls, the
  fan-out of events, and three behaviours that break what the comments of the code promise.
\<close>

section \<open>Runs of the manager\<close>

text \<open>
  The manager with a hardware. Which properties are continuous is fixed by their configurations
  (\<open>isCont\<close>); sample rates are numbers, as the conversion of a NaN to an interval is undefined.
\<close>

inductive mgr_step ::
  "(int32 \<Rightarrow> bool) \<Rightarrow> (f32 \<Rightarrow> f32) \<Rightarrow> 'h hardware \<Rightarrow>
     SubscriptionManager \<times> 'h \<Rightarrow> SubscriptionManager \<times> 'h \<Rightarrow> bool"
  for isCont :: "int32 \<Rightarrow> bool" and log10f :: "f32 \<Rightarrow> f32" and hw :: "'h hardware" where
  ms_subscribe: "\<lbrakk>list_all (\<lambda>opt. isCont (so_propId opt) = b \<and> \<not> f32_is_nan (so_sampleRate opt)) opts;
     mgr_subscribe log10f hw cb opts b st = (r, st')\<rbrakk> \<Longrightarrow> mgr_step isCont log10f hw st st'"
| ms_unsubscribe_props: "mgr_unsubscribe_props hw c ps st = (r, st') \<Longrightarrow> mgr_step isCont log10f hw st st'"
| ms_unsubscribe: "mgr_unsubscribe hw c st = (r, st') \<Longrightarrow> mgr_step isCont log10f hw st st'"
| ms_svc: "subscribeSupportedValueChange hw cb ks st = (r, st') \<Longrightarrow> mgr_step isCont log10f hw st st'"
| ms_unsvc: "unsubscribeSupportedValueChange hw c ks st = (r, st') \<Longrightarrow> mgr_step isCont log10f hw st st'"
| ms_events: "getSubscribedClients vs m = Some (m', out) \<Longrightarrow> mgr_step isCont log10f hw (m, h) (m', h)"

definition mgr_start :: "SubscriptionManager \<times> 'h \<Rightarrow> bool" where
  "mgr_start st \<longleftrightarrow> fst st = newSubscriptionManager"

definition mgr_inv :: "SubscriptionManager \<times> 'h \<Rightarrow> bool" where
  "mgr_inv st \<longleftrightarrow> subs_inv (fst st) \<and> sv_inv (fst st)"

lemma subscribe_loop_sv:
  "subscribe_loop hw cb b xs (m, h) = (r, m', h') \<Longrightarrow> same_supported m m'"
proof (induction xs arbitrary: m h)
  case Nil
  then show ?case by (simp add: same_supported_def)
next
  case (Cons x xs)
  obtain opt a where x: "x = (opt, a)" by fastforce
  obtain r1 m1 h1 where one: "subscribe_one hw cb b opt a (m, h) = (r1, m1, h1)" by (metis prod_cases3)
  have "same_supported m m1"
  proof (cases r1)
    case (Inl e)
    with subscribe_one_error [OF one [unfolded Inl]] show ?thesis by (auto simp: same_supported_def)
  next
    case (Inr u)
    with subscribe_one_effect(3) [OF one [unfolded Inr] refl] show ?thesis by blast
  qed
  with Cons.prems Cons.IH [of m1 h1] x one show ?case
    by (cases r1) (auto simp: same_supported_def)
qed

lemma mgr_subscribe_inv:
  assumes "subs_inv m" and "sv_inv m" and "mgr_subscribe log10f hw cb opts b (m, h) = (r, m', h')"
  shows "subs_inv m' \<and> sv_inv m'"
  using assms
  by (auto simp: mgr_subscribe_def split: if_splits dest: subscribe_loop_inv [OF assms(1)] subscribe_loop_sv sv_inv_same)

lemma unsubscribe_props_sv:
  assumes "sv_inv m" and "mgr_unsubscribe_props hw c ps (m, h) = (r, m', h')"
  shows "sv_inv m'"
  using assms
  by (auto simp: mgr_unsubscribe_props_def split: option.splits sum.splits prod.splits if_splits
      dest!: unsubscribe_loop_sv [OF assms(1)]) (auto simp: sv_inv_def)

lemma mgr_step_inv: "mgr_step isCont log10f hw st st' \<Longrightarrow> mgr_inv st \<Longrightarrow> mgr_inv st'"
proof (induction rule: mgr_step.induct)
  case (ms_subscribe b opts cb st r st')
  then show ?case using mgr_subscribe_inv [of "fst st" log10f hw cb opts b "snd st" r "fst st'" "snd st'"]
    by (simp add: mgr_inv_def)
next
  case (ms_unsubscribe_props c ps st r st')
  then show ?case
    using unsubscribe_props_inv [of "fst st" hw c ps "snd st" r "fst st'" "snd st'"]
      unsubscribe_props_sv [of "fst st" hw c ps "snd st" r "fst st'" "snd st'"] by (simp add: mgr_inv_def)
next
  case (ms_unsubscribe c st r st')
  then show ?case using unsubscribe_all_inv [of "fst st" hw c "snd st" r "fst st'" "snd st'"]
    by (simp add: mgr_inv_def)
next
  case (ms_svc cb ks st r st')
  then show ?case using subscribeSVC_inv [of "fst st" hw cb ks "snd st" r "fst st'" "snd st'"]
    by (simp add: mgr_inv_def)
next
  case (ms_unsvc c ks st r st')
  then show ?case using unsubscribeSVC_inv [of "fst st" hw c ks "snd st" r "fst st'" "snd st'"]
    by (simp add: mgr_inv_def unsubscribeSupportedValueChange_def)
next
  case (ms_events vs m m' out h)
  then show ?case using same_subs_inv [OF getSubscribedClients_same] by (auto simp: mgr_inv_def)
qed

lemma lookup_or_Nil [simp]: "lookup_or d k [] = d"
  by (simp add: lookup_or_def)

interpretation mgr_runs: step_invariant mgr_start "mgr_step isCont log10f hw" mgr_inv
  for isCont :: "int32 \<Rightarrow> bool" and log10f :: "f32 \<Rightarrow> f32" and hw :: "'h hardware"
proof unfold_locales
  show "mgr_inv st" if "mgr_start st" for st :: "SubscriptionManager \<times> 'h"
    using that by (simp add: mgr_start_def mgr_inv_def newSubscriptionManager_def subs_inv_def sv_inv_def)
  show "mgr_inv t" if "mgr_inv s" "mgr_step isCont log10f hw s t" for s t
    using that mgr_step_inv by blast
qed

section \<open>An ideal hardware\<close>

text \<open>A hardware that accepts every call and remembers what it was last asked for.\<close>

record ideal_hw_state =
  ih_subs :: "PropIdAreaId \<Rightarrow> SubscribeOptions option"
  ih_supported :: "PropIdAreaId set"

fun ideal_hw :: "ideal_hw_state hardware" where
  "ideal_hw (HwSubscribe opt) h =
     (OK, h\<lparr>ih_subs := (\<lambda>k. if pa_propId k = so_propId opt \<and> pa_areaId k \<in> set (so_areaIds opt)
                           then Some opt else ih_subs h k)\<rparr>)"
| "ideal_hw (HwUnsubscribe p a) h = (OK, h\<lparr>ih_subs := (ih_subs h)(\<lparr>pa_propId = p, pa_areaId = a\<rparr> := None)\<rparr>)"
| "ideal_hw (HwUpdateSampleRate p a r) h = (OK, h)"
| "ideal_hw (HwSubscribeSupportedValueChange ks) h = (OK, h\<lparr>ih_supported := ih_supported h \<union> set ks\<rparr>)"
| "ideal_hw (HwUnsubscribeSupportedValueChange ks) h = (OK, h\<lparr>ih_supported := ih_supported h - set ks\<rparr>)"

definition same_float :: "f32 \<Rightarrow> f32 \<Rightarrow> bool" where
  "same_float x y \<longleftrightarrow> x = y \<or> f32_eq x y"

lemma same_float_trans: "same_float x y \<Longrightarrow> f32_eq z y \<Longrightarrow> same_float x z"
  unfolding same_float_def using f32_eq_trans f32_eq_sym by blast

text \<open>What the hardware has for a key is the combined configuration, up to the sign of a zero.\<close>

definition agrees :: "PropIdAreaId \<Rightarrow> SubscribeOptions \<Rightarrow> ContSubConfigs \<Rightarrow> bool" where
  "agrees k opt cfg \<longleftrightarrow>
     so_propId opt = pa_propId k \<and> so_areaIds opt = [pa_areaId k] \<and>
     same_float (so_sampleRate opt) (mMaxSampleRateHz cfg) \<and>
     same_float (so_resolution opt) (mMinRequiredResolution cfg) \<and> so_enableVur opt = mEnableVur cfg"

definition key_agrees :: "PropIdAreaId \<Rightarrow> SubscriptionManager \<Rightarrow> ideal_hw_state \<Rightarrow> bool" where
  "key_agrees k m h \<longleftrightarrow>
     fst ` set (mConfigByClient (cont_cfg m k)) = fst ` set (subscribers m k) \<and>
     (\<forall>sc \<in> configs_of (cont_cfg m k). f32_lt 0 (sampleRateHz sc)) \<and>
     (if subscribers m k = [] then ih_subs h k = None \<and> cont_cfg m k = newContSubConfigs
      else \<exists>opt. ih_subs h k = Some opt \<and> agrees k opt (cont_cfg m k))"

lemma pa_eq_iff: "pa_propId k' = pa_propId k \<and> pa_areaId k' = pa_areaId k \<longleftrightarrow> k' = (k :: PropIdAreaId)"
  by (cases k, cases k') auto

lemma pa_eta [simp]: "\<lparr>pa_propId = pa_propId k, pa_areaId = pa_areaId k\<rparr> = (k :: PropIdAreaId)"
  by (cases k) simp

lemma ideal_subscribe:
  "ideal_hw (HwSubscribe (newSubscribeOptions (pa_propId k) (pa_areaId k) rate res vur)) h =
     (OK, h\<lparr>ih_subs := (ih_subs h)(k \<mapsto> newSubscribeOptions (pa_propId k) (pa_areaId k) rate res vur)\<rparr>)"
  by (auto simp: newSubscribeOptions_def fun_eq_iff pa_eq_iff)

lemma agrees_new:
  "agrees k (newSubscribeOptions (pa_propId k) (pa_areaId k) (mMaxSampleRateHz cfg) (mMinRequiredResolution cfg)
     (mEnableVur cfg)) cfg"
  by (simp add: agrees_def newSubscribeOptions_def same_float_def)

lemma update_ideal:
  assumes "updateContSubConfigsLocked ideal_hw k cfg (m, h) = (r, m', h')"
  shows "r = Inr ()" and "ih_supported h' = ih_supported h"
    and "k' \<noteq> k \<Longrightarrow> ih_subs h' k' = ih_subs h k'"
    and "ih_subs h' k =
      (if f32_eq (mMaxSampleRateHz cfg) (mMaxSampleRateHz (cont_cfg m k)) \<and>
          f32_eq (mMinRequiredResolution cfg) (mMinRequiredResolution (cont_cfg m k)) \<and>
          mEnableVur cfg = mEnableVur (cont_cfg m k)
       then ih_subs h k
       else if \<not> f32_eq (mMaxSampleRateHz cfg) 0
       then Some (newSubscribeOptions (pa_propId k) (pa_areaId k) (mMaxSampleRateHz cfg)
         (mMinRequiredResolution cfg) (mEnableVur cfg))
       else None)"
  using assms
  by (auto simp: updateContSubConfigsLocked_def Let_def ideal_subscribe simp del: ideal_hw.simps(1)
      split: if_splits)

lemma positive_rate:
  assumes "combined scs mx mn v" and "sc \<in> scs" and "\<And>sc. sc \<in> scs \<Longrightarrow> f32_lt 0 (sampleRateHz sc)"
  shows "f32_lt 0 mx"
  using assms by (auto simp: combined_def)

lemma not_eq_zero: "f32_lt 0 x \<Longrightarrow> \<not> f32_eq x 0"
  by (auto simp: f32_cmp_defs)

text \<open>The hardware after the combined configuration of a key was replaced by one with clients.\<close>

lemma update_agrees:
  assumes up: "updateContSubConfigsLocked ideal_hw k cfg (m, h) = (r, m', h')"
    and pos: "f32_lt 0 (mMaxSampleRateHz cfg)" and old: "key_agrees k m h"
  shows "\<exists>opt. ih_subs h' k = Some opt \<and> agrees k opt cfg"
proof (cases "f32_eq (mMaxSampleRateHz cfg) (mMaxSampleRateHz (cont_cfg m k)) \<and>
          f32_eq (mMinRequiredResolution cfg) (mMinRequiredResolution (cont_cfg m k)) \<and>
          mEnableVur cfg = mEnableVur (cont_cfg m k)")
  case True
  have "cont_cfg m k \<noteq> newContSubConfigs"
    using True not_eq_zero [OF pos] by (auto simp: newContSubConfigs_def)
  then obtain opt where "ih_subs h k = Some opt" "agrees k opt (cont_cfg m k)"
    using old by (auto simp: key_agrees_def split: if_splits)
  moreover have "agrees k opt cfg"
    using calculation(2) True by (auto simp: agrees_def intro: same_float_trans)
  ultimately show ?thesis using True update_ideal(4) [OF up] by simp
next
  case False
  then show ?thesis using update_ideal(4) [OF up] not_eq_zero [OF pos] agrees_new by auto
qed

lemma configs_add:
  "configs_of (cont_addClient c sc cfg) \<subseteq> insert sc (configs_of cfg)"
  "sc \<in> configs_of (cont_addClient c sc cfg)"
  "fst ` set (mConfigByClient (cont_addClient c sc cfg)) = insert c (fst ` set (mConfigByClient cfg))"
proof -
  have "set (AList.update c sc xs) \<subseteq> insert (c, sc) (set xs)" for xs
    by (induction xs) auto
  then show "configs_of (cont_addClient c sc cfg) \<subseteq> insert sc (configs_of cfg)"
    by (fastforce simp: configs_of_def cont_addClient_def)
  have "map_of (AList.update c sc (mConfigByClient cfg)) c = Some sc" by simp
  from map_of_SomeD [OF this] show "sc \<in> configs_of (cont_addClient c sc cfg)"
    by (force simp: configs_of_def cont_addClient_def)
  show "fst ` set (mConfigByClient (cont_addClient c sc cfg)) = insert c (fst ` set (mConfigByClient cfg))"
    by (simp add: cont_addClient_def keys_update)
qed

lemma configs_remove:
  "configs_of (cont_removeClient c cfg) \<subseteq> configs_of cfg"
  "fst ` set (mConfigByClient (cont_removeClient c cfg)) = fst ` set (mConfigByClient cfg) - {c}"
proof -
  have "set (AList.delete c xs) \<subseteq> set xs" for xs :: "(client_id \<times> SubConfig) list"
    by (auto simp: AList.delete_eq)
  then show "configs_of (cont_removeClient c cfg) \<subseteq> configs_of cfg"
    by (fastforce simp: configs_of_def cont_removeClient_def)
  show "fst ` set (mConfigByClient (cont_removeClient c cfg)) = fst ` set (mConfigByClient cfg) - {c}"
    by (simp add: cont_removeClient_def keys_delete)
qed

lemma combined_refresh_add:
  "combined (configs_of (cont_addClient c sc cfg)) (mMaxSampleRateHz (cont_addClient c sc cfg))
     (mMinRequiredResolution (cont_addClient c sc cfg)) (mEnableVur (cont_addClient c sc cfg))"
  "combined (configs_of (cont_removeClient c cfg)) (mMaxSampleRateHz (cont_removeClient c cfg))
     (mMinRequiredResolution (cont_removeClient c cfg)) (mEnableVur (cont_removeClient c cfg))"
  unfolding cont_addClient_def cont_removeClient_def
  by (metis refresh_combined configs_of_def refresh_clients)+

lemma valid_rate_positive: "checkSampleRateHz r \<Longrightarrow> \<not> f32_is_nan r \<Longrightarrow> f32_lt 0 r"
proof -
  assume "checkSampleRateHz r" "\<not> f32_is_nan r"
  then have "\<not> f32_le r 0" by (auto simp: checkSampleRateHz_def getIntervalNanos_def split: if_splits)
  moreover have "\<not> f32_is_nan 0" by (simp add: f32_is_nan_def f32_mag_def)
  ultimately show ?thesis using \<open>\<not> f32_is_nan r\<close> by (auto simp: f32_cmp_defs)
qed

lemma subscribe_one_key:
  assumes "key_agrees k m h" and one: "subscribe_one ideal_hw cb True opt a (m, h) = (r, m', h')"
    and k: "k = \<lparr>pa_propId = so_propId opt, pa_areaId = a\<rparr>" and pos: "f32_lt 0 (so_sampleRate opt)"
  shows "key_agrees k m' h'"
proof -
  let ?sc = "\<lparr>sampleRateHz = so_sampleRate opt, resolution = so_resolution opt, enableVur = so_enableVur opt\<rparr>"
  let ?cfg = "cont_addClient (cbk_binder cb) ?sc (cont_cfg m k)"
  let ?m = "m\<lparr>mContSubConfigsByPropIdArea := touch newContSubConfigs k (mContSubConfigsByPropIdArea m)\<rparr>"
  obtain r1 m1 where up: "updateContSubConfigsLocked ideal_hw k ?cfg (?m, h) = (r1, m1, h')"
    using one by (auto simp: subscribe_one_def addContinuousSubscriberLocked_def Let_def k
        split: sum.splits prod.splits)
  then have r: "r = Inr ()"
    using one update_ideal(1) [OF up] by (auto simp: subscribe_one_def addContinuousSubscriberLocked_def Let_def k
        split: sum.splits prod.splits)
  note eff = subscribe_one_effect [OF one [unfolded r] k]
  have old: "key_agrees k ?m h" using assms(1) by (simp add: key_agrees_def)
  have all: "f32_lt 0 (sampleRateHz sc)" if "sc \<in> configs_of ?cfg" for sc
    using that configs_add(1) [of "cbk_binder cb" ?sc "cont_cfg m k"] assms(1) pos
    by (auto simp: key_agrees_def)
  from positive_rate [OF combined_refresh_add(1) configs_add(2) all]
  have "\<exists>opt. ih_subs h' k = Some opt \<and> agrees k opt ?cfg" by (intro update_agrees [OF up _ old]) blast
  then show ?thesis
    using all assms(1) by (auto simp: key_agrees_def eff configs_add(3) keys_update update_nonempty)
qed

lemma addCont_ideal:
  assumes "addContinuousSubscriberLocked ideal_hw c k rate res vur (m, h) = (r, m', h')"
  shows "r = Inr ()" and "ih_supported h' = ih_supported h" and "k' \<noteq> k \<Longrightarrow> ih_subs h' k' = ih_subs h k'"
  using assms unfolding addContinuousSubscriberLocked_def Let_def
  by (auto dest: update_ideal)

lemma addOnChange_ideal:
  assumes "addOnChangeSubscriberLocked ideal_hw k (m, h) = (r, m', h')"
  shows "r = Inr ()" and "ih_supported h' = ih_supported h" and "k' \<noteq> k \<Longrightarrow> ih_subs h' k' = ih_subs h k'"
  using assms unfolding addOnChangeSubscriberLocked_def Let_def
  by (auto simp: ideal_subscribe simp del: ideal_hw.simps(1) split: if_splits)

lemma subscribe_one_ideal:
  assumes one: "subscribe_one ideal_hw cb b opt a (m, h) = (r, m', h')"
  shows "r = Inr ()" and "ih_supported h' = ih_supported h"
    and "k \<noteq> \<lparr>pa_propId = so_propId opt, pa_areaId = a\<rparr> \<Longrightarrow> ih_subs h' k = ih_subs h k"
proof -
  let ?k = "\<lparr>pa_propId = so_propId opt, pa_areaId = a\<rparr>"
  obtain r1 m1 h1 where "(if b then addContinuousSubscriberLocked ideal_hw (cbk_binder cb) ?k (so_sampleRate opt)
      (so_resolution opt) (so_enableVur opt) (m, h) else addOnChangeSubscriberLocked ideal_hw ?k (m, h)) = (r1, m1, h1)"
    by (metis prod_cases3)
  note add = this
  have "r1 = Inr ()" "ih_supported h1 = ih_supported h" "k \<noteq> ?k \<Longrightarrow> ih_subs h1 k = ih_subs h k"
    using add addCont_ideal addOnChange_ideal by (auto split: if_splits)
  moreover from one add \<open>r1 = Inr ()\<close> have "r = Inr ()" "h' = h1"
    by (auto simp: subscribe_one_def Let_def)
  ultimately show "r = Inr ()" "ih_supported h' = ih_supported h" "k \<noteq> ?k \<Longrightarrow> ih_subs h' k = ih_subs h k"
    by auto
qed

lemma subscribe_one_frame:
  assumes one: "subscribe_one ideal_hw cb b opt a (m, h) = (r, m', h')"
    and k: "k \<noteq> \<lparr>pa_propId = so_propId opt, pa_areaId = a\<rparr>"
  shows "key_agrees k m' h' = key_agrees k m h"
proof -
  note eff = subscribe_one_effect [OF one [unfolded subscribe_one_ideal(1) [OF one]] refl]
  from subscribe_one_ideal(3) [OF one k] k show ?thesis
    by (auto simp: key_agrees_def eff split: if_splits)
qed

lemma removeOnChange_ideal:
  assumes "removeOnChangeSubscriberLocked ideal_hw k (m, h) = (r, m', h')"
  shows "r = Inr ()" and "ih_supported h' = ih_supported h" and "k' \<noteq> k \<Longrightarrow> ih_subs h' k' = ih_subs h k'"
  using assms unfolding removeOnChangeSubscriberLocked_def Let_def
  by (auto split: if_splits)

lemma removeCont_ideal:
  assumes "removeContinuousSubscriberLocked ideal_hw c k (m, h) = (r, m', h')"
  shows "r = Inr ()" and "ih_supported h' = ih_supported h" and "k' \<noteq> k \<Longrightarrow> ih_subs h' k' = ih_subs h k'"
  using assms unfolding removeContinuousSubscriberLocked_def Let_def
  by (auto dest: update_ideal)

lemma unsubscribe_one_ideal:
  assumes one: "unsubscribePropIdAreaIdLocked ideal_hw c k (m, h) = (r, m', h')"
  shows "r = Inr ()" and "ih_supported h' = ih_supported h" and "k' \<noteq> k \<Longrightarrow> ih_subs h' k' = ih_subs h k'"
  using one unfolding unsubscribePropIdAreaIdLocked_def Let_def
  by (auto split: if_splits prod.splits sum.splits dest: removeOnChange_ideal removeCont_ideal)

lemma drop_client_frame:
  "k' \<noteq> k \<Longrightarrow> subscribers (drop_client c k m) k' = subscribers m k'"
  "k' \<noteq> k \<Longrightarrow> cont_cfg (drop_client c k m) k' = cont_cfg m k'"
  by (auto simp: drop_client_def Let_def)

lemma unsubscribe_one_frame:
  assumes one: "unsubscribePropIdAreaIdLocked ideal_hw c k (m, h) = (r, m', h')" and k: "k' \<noteq> k"
  shows "key_agrees k' m' h' = key_agrees k' m h"
proof -
  note eff = unsubscribe_one_effect [OF one [unfolded unsubscribe_one_ideal(1) [OF one]]]
  have "subscribers m' k' = subscribers m k'" "cont_cfg m' k' = cont_cfg m k'"
    using k by (auto simp: eff drop_client_frame)
  with unsubscribe_one_ideal(3) [OF one k] show ?thesis by (simp add: key_agrees_def)
qed

lemma configs_of_new [simp]: "configs_of newContSubConfigs = {}"
  by (simp add: configs_of_def newContSubConfigs_def)

lemma empty_keys: "fst ` set xs = fst ` set ys \<Longrightarrow> (xs = []) = (ys = [])"
  by auto

lemma unsubscribe_one_key:
  assumes old: "key_agrees k m h" and inv: "subs_inv m"
    and one: "unsubscribePropIdAreaIdLocked ideal_hw c k (m, h) = (r, m', h')"
  shows "key_agrees k m' h'"
proof (cases "map_of (mContSubConfigsByPropIdArea m) k = None")
  case True
  then have "cont_cfg m k = newContSubConfigs" by (simp add: lookup_or_def)
  then have "subscribers m k = []" using old by (auto simp: key_agrees_def newContSubConfigs_def)
  then have "map_of (mClientsByPropIdAreaId m) k = None"
    using inv by (cases "map_of (mClientsByPropIdAreaId m) k") (auto simp: subs_inv_def lookup_or_def)
  with True one old show ?thesis by (auto simp: unsubscribePropIdAreaIdLocked_def Let_def)
next
  case False
  let ?cfg = "cont_removeClient c (cont_cfg m k)"
  obtain r1 m1 where up: "updateContSubConfigsLocked ideal_hw k ?cfg (m, h) = (r1, m1, h')"
    using one False
    by (auto simp: unsubscribePropIdAreaIdLocked_def removeContinuousSubscriberLocked_def Let_def touch_present
        split: sum.splits prod.splits)
  note eff = unsubscribe_one_effect [OF one [unfolded unsubscribe_one_ideal(1) [OF one]]]
  have m': "m' = drop_client c k (m\<lparr>mContSubConfigsByPropIdArea := AList.update k ?cfg (mContSubConfigsByPropIdArea m)\<rparr>)"
    using eff False by simp
  have subs: "subscribers m' k = AList.delete c (subscribers m k)"
    by (simp add: m' drop_client_subscribers)
  have keys: "fst ` set (mConfigByClient ?cfg) = fst ` set (AList.delete c (subscribers m k))"
    using old by (simp add: configs_remove keys_delete key_agrees_def)
  have all: "f32_lt 0 (sampleRateHz sc)" if "sc \<in> configs_of ?cfg" for sc
    using that configs_remove(1) [of c "cont_cfg m k"] old by (auto simp: key_agrees_def)
  show ?thesis
  proof (cases "AList.delete c (subscribers m k) = []")
    case True
    then have "mConfigByClient ?cfg = []" using keys by simp
    then have zero: "mMaxSampleRateHz ?cfg = 0" "mMinRequiredResolution ?cfg = FLT_MAX" "mEnableVur ?cfg"
      using combined_refresh_add(2) [of c "cont_cfg m k"] by (auto simp: combined_def configs_of_def)
    have "f32_eq 0 0" by (simp add: f32_is_nan_def f32_mag_def)
    moreover have "ih_subs h k = None"
      if "f32_eq 0 (mMaxSampleRateHz (cont_cfg m k))"
    proof (cases "subscribers m k = []")
      case True
      then show ?thesis using old by (simp add: key_agrees_def)
    next
      case False
      then obtain sc where sc: "sc \<in> configs_of (cont_cfg m k)"
        using old empty_keys unfolding key_agrees_def configs_of_def by (metis image_eqI list.set_intros(1) neq_Nil_conv)
      then have "cont_cfg m k \<noteq> newContSubConfigs" by auto
      moreover have "cfg_ok (cont_cfg m k)" using inv by (simp add: subs_inv_def)
      ultimately have "combined (configs_of (cont_cfg m k)) (mMaxSampleRateHz (cont_cfg m k))
          (mMinRequiredResolution (cont_cfg m k)) (mEnableVur (cont_cfg m k))"
        unfolding cfg_ok_def by blast
      from positive_rate [OF this sc] old have "f32_lt 0 (mMaxSampleRateHz (cont_cfg m k))"
        by (simp add: key_agrees_def)
      with that show ?thesis using not_eq_zero f32_eq_sym by blast
    qed
    ultimately have "ih_subs h' k = None" using update_ideal(4) [OF up] by (auto simp: zero)
    moreover have "cont_cfg m' k = newContSubConfigs" using True by (simp add: m' drop_client_def)
    ultimately show ?thesis using True subs by (simp add: key_agrees_def newContSubConfigs_def configs_of_def)
  next
    case False
    then have "mConfigByClient ?cfg \<noteq> []" using keys empty_keys by blast
    then obtain sc where "sc \<in> configs_of ?cfg"
      unfolding configs_of_def by (metis image_eqI list.set_intros(1) neq_Nil_conv)
    from positive_rate [OF combined_refresh_add(2) this all]
    have "\<exists>opt. ih_subs h' k = Some opt \<and> agrees k opt ?cfg" by (intro update_agrees [OF up _ old]) blast
    moreover have "cont_cfg m' k = ?cfg" using False by (simp add: m' drop_client_def)
    ultimately show ?thesis using False subs keys all by (simp add: key_agrees_def)
  qed
qed

section \<open>Runs on the ideal hardware\<close>

definition cont_agree :: "(int32 \<Rightarrow> bool) \<Rightarrow> SubscriptionManager \<Rightarrow> ideal_hw_state \<Rightarrow> bool" where
  "cont_agree isCont m h \<longleftrightarrow> (\<forall>k. isCont (pa_propId k) \<longrightarrow> key_agrees k m h)"

lemma subscribe_loop_agree:
  "\<lbrakk>cont_agree isCont m h; list_all (\<lambda>x. isCont (so_propId (fst x)) = b \<and> (b \<longrightarrow> f32_lt 0 (so_sampleRate (fst x)))) xs;
    subscribe_loop ideal_hw cb b xs (m, h) = (r, m', h')\<rbrakk> \<Longrightarrow>
   cont_agree isCont m' h' \<and> ih_supported h' = ih_supported h"
proof (induction xs arbitrary: m h)
  case Nil
  then show ?case by simp
next
  case (Cons x xs)
  obtain opt a where x: "x = (opt, a)" by fastforce
  let ?k = "\<lparr>pa_propId = so_propId opt, pa_areaId = a\<rparr>"
  obtain r1 m1 h1 where one: "subscribe_one ideal_hw cb b opt a (m, h) = (r1, m1, h1)" by (metis prod_cases3)
  note id = subscribe_one_ideal [OF one]
  have "key_agrees k m1 h1" if "isCont (pa_propId k)" for k
  proof (cases "k = ?k")
    case True
    with that Cons.prems(1,2) x have "b" "f32_lt 0 (so_sampleRate opt)" "key_agrees ?k m h"
      by (auto simp: cont_agree_def)
    with True one subscribe_one_key [of ?k m h cb opt a] show ?thesis by simp
  next
    case False
    with subscribe_one_frame [OF one False] that Cons.prems(1) show ?thesis by (simp add: cont_agree_def)
  qed
  then have "cont_agree isCont m1 h1" by (simp add: cont_agree_def)
  with Cons.prems Cons.IH [of m1 h1] id(1,2) x one show ?case by simp
qed

lemma unsubscribe_loop_agree:
  "\<lbrakk>cont_agree isCont m h; subs_inv m; unsubscribe_loop ideal_hw c b ks (m, h) = (r, m', h')\<rbrakk> \<Longrightarrow>
   cont_agree isCont m' h' \<and> ih_supported h' = ih_supported h"
proof (induction ks arbitrary: m h)
  case Nil
  then show ?case by simp
next
  case (Cons k ks)
  obtain r1 m1 h1 where one: "unsubscribePropIdAreaIdLocked ideal_hw c k (m, h) = (r1, m1, h1)" by (metis prod_cases3)
  note id = unsubscribe_one_ideal [OF one]
  have "key_agrees k' m1 h1" if "isCont (pa_propId k')" for k'
    using unsubscribe_one_key [OF _ Cons.prems(2) one] unsubscribe_one_frame [OF one, of k'] that Cons.prems(1)
    by (cases "k' = k") (auto simp: cont_agree_def)
  then have agree: "cont_agree isCont m1 h1" by (simp add: cont_agree_def)
  let ?m1 = "if b then m1\<lparr>mSubscribedPropsByClient := AList.update c (removeAll k (props_of m1 c))
     (mSubscribedPropsByClient m1)\<rparr> else m1"
  have "unsubscribe_loop ideal_hw c b [k] (m, h) = (Inr (), ?m1, h1)" using one id(1) by simp
  from unsubscribe_loop_inv [OF Cons.prems(2) this] have "subs_inv ?m1" .
  moreover have "cont_agree isCont ?m1 h1" using agree by (simp add: cont_agree_def key_agrees_def)
  moreover have "unsubscribe_loop ideal_hw c b ks (?m1, h1) = (r, m', h')"
    using Cons.prems(3) one id(1) by simp
  ultimately show ?case using Cons.IH id(2) by metis
qed

lemma agree_fields:
  "cont_agree isCont (m\<lparr>mSubscribedPropsByClient := x\<rparr>) h = cont_agree isCont m h"
  "cont_agree isCont m (h\<lparr>ih_supported := y\<rparr>) = cont_agree isCont m h"
  by (simp_all add: cont_agree_def key_agrees_def)

lemma agree_svc:
  "cont_agree isCont (fold (svc_add cb) ks m) h = cont_agree isCont m h"
  "cont_agree isCont (fold (svc_remove c) ks m) h = cont_agree isCont m h"
  by (induction ks arbitrary: m)
    (auto simp: cont_agree_def key_agrees_def svc_add_def svc_remove_def Let_def)

lemma agree_same: "same_subs m m' \<Longrightarrow> cont_agree isCont m' h = cont_agree isCont m h"
  by (simp add: same_subs_def cont_agree_def key_agrees_def)

lemma unsvc_agree:
  "cont_agree isCont m h \<Longrightarrow> unsubscribeSupportedValueChangeLocked ideal_hw c ks (m, h) = (r, st') \<Longrightarrow>
     cont_agree isCont (fst st') (snd st')"
  by (auto simp: unsubscribeSupportedValueChangeLocked_def Let_def agree_svc agree_fields split: if_splits)

lemma mgr_step_agree:
  assumes "mgr_step isCont log10f ideal_hw st st'" and "cont_agree isCont (fst st) (snd st)" and "subs_inv (fst st)"
  shows "cont_agree isCont (fst st') (snd st')"
  using assms
proof (induction rule: mgr_step.induct)
  case (ms_subscribe b opts cb st r st')
  show ?case
  proof (cases "list_all (option_valid log10f b) opts")
    case True
    let ?xs = "concat (map (\<lambda>opt. map (Pair opt) (so_areaIds opt)) opts)"
    have "list_all (\<lambda>x. isCont (so_propId (fst x)) = b \<and> (b \<longrightarrow> f32_lt 0 (so_sampleRate (fst x)))) ?xs"
      using ms_subscribe.hyps(1) True valid_rate_positive by (auto simp: list_all_iff option_valid_def)
    with ms_subscribe True subscribe_loop_agree [of isCont "fst st" "snd st" b ?xs cb r "fst st'" "snd st'"]
    show ?thesis by (simp add: mgr_subscribe_def)
  next
    case False
    with ms_subscribe show ?thesis by (auto simp: mgr_subscribe_def)
  qed
next
  case (ms_unsubscribe_props c ps st r st')
  obtain m h where st: "st = (m, h)" by fastforce
  show ?case
  proof (cases "map_of (mSubscribedPropsByClient m) c")
    case None
    with ms_unsubscribe_props st show ?thesis by (auto simp: mgr_unsubscribe_props_def)
  next
    case (Some ks)
    obtain r1 m1 h1 where l: "unsubscribe_loop ideal_hw c True (filter (\<lambda>k. pa_propId k \<in> set ps) ks) (m, h)
        = (r1, m1, h1)" by (metis prod_cases3)
    have "cont_agree isCont m1 h1" using unsubscribe_loop_agree [OF _ _ l] ms_unsubscribe_props.prems st by simp
    with ms_unsubscribe_props.hyps st Some l show ?thesis
      by (cases r1) (auto simp: mgr_unsubscribe_props_def agree_fields split: if_splits)
  qed
next
  case (ms_unsubscribe c st r st')
  obtain m h where st: "st = (m, h)" by fastforce
  show ?case
  proof (cases "map_of (mSubscribedPropsByClient m) c")
    case None
    with ms_unsubscribe st show ?thesis
      by (auto simp: mgr_unsubscribe_def split: option.splits intro: unsvc_agree)
  next
    case (Some ks)
    obtain r1 m1 h1 where l: "unsubscribe_loop ideal_hw c False ks (m, h) = (r1, m1, h1)" by (metis prod_cases3)
    have "cont_agree isCont m1 h1" using unsubscribe_loop_agree [OF _ _ l] ms_unsubscribe.prems st by simp
    then have "cont_agree isCont (m1\<lparr>mSubscribedPropsByClient := AList.delete c (mSubscribedPropsByClient m1)\<rparr>) h1"
      by (simp add: agree_fields)
    note rest = unsvc_agree [OF this]
    with ms_unsubscribe.hyps st Some l \<open>cont_agree isCont m1 h1\<close> show ?thesis
      by (cases r1) (auto simp: mgr_unsubscribe_def agree_fields split: option.splits dest: rest)
  qed
next
  case (ms_svc cb ks st r st')
  then show ?case
    by (cases st) (auto simp: subscribeSupportedValueChange_def Let_def agree_svc agree_fields split: if_splits)
next
  case (ms_unsvc c ks st r st')
  then show ?case
    by (cases st) (auto simp: unsubscribeSupportedValueChange_def intro: unsvc_agree)
next
  case (ms_events vs m m' out h)
  then show ?case using agree_same [OF getSubscribedClients_same] by auto
qed

interpretation hw_runs: step_invariant
  "\<lambda>st. mgr_start st \<and> (\<forall>k. ih_subs (snd st) k = None)"
  "mgr_step isCont log10f ideal_hw" "\<lambda>st. mgr_inv st \<and> cont_agree isCont (fst st) (snd st)"
  for isCont :: "int32 \<Rightarrow> bool" and log10f :: "f32 \<Rightarrow> f32"
proof unfold_locales
  show "mgr_inv st \<and> cont_agree isCont (fst st) (snd st)"
    if "mgr_start st \<and> (\<forall>k. ih_subs (snd st) k = None)" for st :: "SubscriptionManager \<times> ideal_hw_state"
  proof
    show "mgr_inv st" using that mgr_runs.start_inv by blast
    show "cont_agree isCont (fst st) (snd st)"
      using that by (simp add: mgr_start_def cont_agree_def key_agrees_def newSubscriptionManager_def
          newContSubConfigs_def configs_of_def)
  qed
  show "mgr_inv t \<and> cont_agree isCont (fst t) (snd t)"
    if "mgr_inv s \<and> cont_agree isCont (fst s) (snd s)" "mgr_step isCont log10f ideal_hw s t" for s t
    using that mgr_step_inv [OF that(2)] mgr_step_agree [OF that(2)] unfolding mgr_inv_def by blast
qed

section \<open>Fan-out\<close>

lemma lookup_push [simp]:
  "lookup_or [] cb (push_to cb' e out) = lookup_or [] cb out @ (if cb = cb' then [e] else [])"
  by (auto simp: push_to_def)

lemma fold_push:
  "lookup_or [] cb (fold (\<lambda>(_, client). push_to client e) es out)
     = lookup_or [] cb out @ replicate (length (filter (\<lambda>x. snd x = cb) es)) e"
  by (induction es arbitrary: out) (auto simp: replicate_append_same)

text \<open>A callback occurs at most once among the subscribers of a key.\<close>

definition listens :: "IVehicleCallback \<Rightarrow> (client_id \<times> IVehicleCallback) list \<Rightarrow> bool" where
  "listens cb es \<longleftrightarrow> map_of es (cbk_binder cb) = Some cb"

lemma count_listens:
  assumes "wf_alist es" and "\<And>c cb. map_of es c = Some cb \<Longrightarrow> cbk_binder cb = c"
  shows "length (filter (\<lambda>x. snd x = cb) es) = (if listens cb es then 1 else 0)"
  using assms
proof (induction es)
  case Nil
  then show ?case by (simp add: listens_def)
next
  case (Cons e es)
  obtain c cb' where e: "e = (c, cb')" by fastforce
  have none: "map_of es c = None" using Cons.prems(1) by (simp add: e map_of_eq_None_iff)
  have bind: "cbk_binder x = d" if "map_of es d = Some x" for d x
  proof -
    have "d \<noteq> c" using none that by auto
    then show ?thesis using Cons.prems(2) [of d x] that by (simp add: e)
  qed
  have IH: "length (filter (\<lambda>x. snd x = cb) es) = (if listens cb es then 1 else 0)"
    using Cons.IH [OF _ bind] Cons.prems(1) by simp
  have c: "cbk_binder cb' = c" using Cons.prems(2) [of c cb'] by (simp add: e)
  then show ?case using IH none by (auto simp: e listens_def)
qed


lemma subs_listens:
  assumes "subs_inv m"
  shows "length (filter (\<lambda>x. snd x = cb) (subscribers m k)) = (if listens cb (subscribers m k) then 1 else 0)"
  using assms by (intro count_listens) (auto simp: subs_inv_def distinct_keys_def)

text \<open>The key an event is for.\<close>

definition value_key :: "VehiclePropValue \<Rightarrow> PropIdAreaId" where
  "value_key v = \<lparr>pa_propId = pv_prop v, pa_areaId = pv_areaId v\<rparr>"

definition error_key :: "SetValueErrorEvent \<Rightarrow> PropIdAreaId" where
  "error_key ev = \<lparr>pa_propId = ev_propId ev, pa_areaId = ev_areaId ev\<rparr>"

lemma error_events_fold:
  assumes "subs_inv m"
  shows "lookup_or [] cb (fold (\<lambda>ev out.
             fold (\<lambda>(_, client). push_to client
                     \<lparr>pe_errorCode = ev_errorCode ev, pe_propId = ev_propId ev, pe_areaId = ev_areaId ev\<rparr>)
               (subscribers m \<lparr>pa_propId = ev_propId ev, pa_areaId = ev_areaId ev\<rparr>) out) evs out)
    = lookup_or [] cb out @
      map (\<lambda>ev. \<lparr>pe_errorCode = ev_errorCode ev, pe_propId = ev_propId ev, pe_areaId = ev_areaId ev\<rparr>)
        (filter (\<lambda>ev. listens cb (subscribers m (error_key ev))) evs)"
  by (induction evs arbitrary: out) (auto simp: fold_push subs_listens [OF assms] error_key_def)

text \<open>Without a configuration of its own a client gets the value as it is.\<close>

lemma notify_plain:
  assumes "mConfigByClient (cont_cfg m (value_key v)) = []"
  shows "notify_client v e (Some (m, out)) =
    Some (m\<lparr>mContSubConfigsByPropIdArea := touch newContSubConfigs (value_key v) (mContSubConfigsByPropIdArea m)\<rparr>,
          push_to (snd e) v out)"
proof -
  have "f32_eq 0 0" by (simp add: f32_is_nan_def f32_mag_def)
  then show ?thesis
    using assms by (simp add: notify_client_def Let_def value_key_def isVurEnabledForClient_def
        getResolutionForClient_def sanitize_zero)
qed

lemma fold_notify_plain:
  assumes "mConfigByClient (cont_cfg m (value_key v)) = []"
  shows "\<exists>m'. fold (notify_client v) es (Some (m, out)) = Some (m', fold (\<lambda>(_, client). push_to client v) es out)
     \<and> same_subs m m'"
  using assms
proof (induction es arbitrary: m out)
  case Nil
  then show ?case by (simp add: same_subs_def same_supported_def)
next
  case (Cons e es)
  let ?m = "m\<lparr>mContSubConfigsByPropIdArea := touch newContSubConfigs (value_key v) (mContSubConfigsByPropIdArea m)\<rparr>"
  have same: "same_subs m ?m" by (simp add: same_subs_def same_supported_def)
  have "mConfigByClient (cont_cfg ?m (value_key v)) = []" using Cons.prems by simp
  from Cons.IH [OF this, of "push_to (snd e) v out"] same show ?case
    by (auto simp: notify_plain [OF Cons.prems] split_def intro: same_subs_trans)
qed

lemma plain_events_fold:
  assumes "subs_inv m" and "\<And>v. v \<in> set vs \<Longrightarrow> mConfigByClient (cont_cfg m (value_key v)) = []"
  shows "\<exists>m' out'. fold (\<lambda>v st. Option.bind st (\<lambda>(m, out). fold (notify_client v)
               (subscribers m \<lparr>pa_propId = pv_prop v, pa_areaId = pv_areaId v\<rparr>) (Some (m, out)))) vs (Some (m, out))
     = Some (m', out') \<and> (\<forall>cb. lookup_or [] cb out' =
         lookup_or [] cb out @ filter (\<lambda>v. listens cb (subscribers m (value_key v))) vs)"
  using assms
proof (induction vs arbitrary: m out)
  case Nil
  then show ?case by simp
next
  case (Cons v vs)
  let ?es = "subscribers m (value_key v)"
  from fold_notify_plain [OF Cons.prems(2) [of v], of ?es out] obtain m1
    where one: "fold (notify_client v) ?es (Some (m, out)) = Some (m1, fold (\<lambda>(_, client). push_to client v) ?es out)"
      and same: "same_subs m m1" by auto
  have subs: "subscribers m1 k = subscribers m k" "cont_cfg m1 k = cont_cfg m k" for k
    using same by (simp_all add: same_subs_def)
  have "subs_inv m1" using same_subs_inv(1) [OF same] Cons.prems(1) by blast
  moreover have "mConfigByClient (cont_cfg m1 (value_key w)) = []" if "w \<in> set vs" for w
    using Cons.prems(2) [of w] that subs by simp
  ultimately obtain m' out' where
    rest: "fold (\<lambda>v st. Option.bind st (\<lambda>(m, out). fold (notify_client v)
               (subscribers m \<lparr>pa_propId = pv_prop v, pa_areaId = pv_areaId v\<rparr>) (Some (m, out)))) vs
             (Some (m1, fold (\<lambda>(_, client). push_to client v) ?es out)) = Some (m', out')"
    and out': "\<And>cb. lookup_or [] cb out' = lookup_or [] cb (fold (\<lambda>(_, client). push_to client v) ?es out)
        @ filter (\<lambda>v. listens cb (subscribers m1 (value_key v))) vs"
    using Cons.IH [of m1 "fold (\<lambda>(_, client). push_to client v) ?es out"] by blast
  have "lookup_or [] cb out' = lookup_or [] cb out @ filter (\<lambda>v. listens cb (subscribers m (value_key v))) (v # vs)" for cb
    by (simp add: out' fold_push subs_listens [OF Cons.prems(1)] subs)
  moreover have "\<lparr>pa_propId = pv_prop v, pa_areaId = pv_areaId v\<rparr> = value_key v" by (simp add: value_key_def)
  ultimately show ?case using one rest by simp
qed

section \<open>Complete unsubscription\<close>

lemma svc_fold_remove_views:
  "c \<notin> fst ` set (sv_clients m k) \<or> k \<in> set ks \<Longrightarrow> c \<notin> fst ` set (sv_clients (fold (svc_remove c) ks m) k)"
proof (induction ks arbitrary: m)
  case Nil
  then show ?case by simp
next
  case (Cons x ks)
  have "c \<notin> fst ` set (sv_clients (svc_remove c x m) k) \<or> k \<in> set ks"
    using Cons.prems by (auto simp: svc_remove_views keys_delete)
  with Cons.IH show ?case by simp
qed

lemma unsvc_subscribers:
  assumes "unsubscribeSupportedValueChangeLocked hw c ks (m, h) = (r, m', h')"
  shows "mClientsByPropIdAreaId m' = mClientsByPropIdAreaId m"
    "mSubscribedPropsByClient m' = mSubscribedPropsByClient m"
proof -
  have "mClientsByPropIdAreaId (fold (svc_remove c) ks m) = mClientsByPropIdAreaId m \<and>
    mSubscribedPropsByClient (fold (svc_remove c) ks m) = mSubscribedPropsByClient m" for ks m
    by (induction ks arbitrary: m) (auto simp: svc_remove_def Let_def)
  with assms show "mClientsByPropIdAreaId m' = mClientsByPropIdAreaId m"
    "mSubscribedPropsByClient m' = mSubscribedPropsByClient m"
    by (auto simp: unsubscribeSupportedValueChangeLocked_def Let_def split: prod.splits if_splits)
qed

lemma unsubscribe_all_effect:
  assumes "mgr_inv (m, h)" and "mgr_unsubscribe hw c (m, h) = (Inr u, m', h')"
  shows "map_of (subscribers m' k) c' = (if c' = c then None else map_of (subscribers m k) c') \<and>
    c \<notin> fst ` set (sv_clients m' k) \<and> props_of m' c = []"
proof -
  have inv: "subs_inv m" "sv_inv m" using assms(1) by (auto simp: mgr_inv_def)
  have rest: "subscribers m' k = subscribers n k \<and> props_of m' c = props_of n c \<and> c \<notin> fst ` set (sv_clients m' k)"
    if svi: "sv_inv n" and "(case map_of (mSupportedValueChangePropIdAreaIdsByClient n) c of
              None \<Rightarrow> (Inr (), n, g)
            | Some keys \<Rightarrow> unsubscribeSupportedValueChangeLocked hw c keys (n, g)) = (Inr u, m', h')" for n g
  proof (cases "map_of (mSupportedValueChangePropIdAreaIdsByClient n) c")
    case None
    with that show ?thesis by (auto simp: sv_inv_def lookup_or_def)
  next
    case (Some ks)
    with that have un: "unsubscribeSupportedValueChangeLocked hw c ks (n, g) = (Inr u, m', h')" by simp
    then have "m' = fold (svc_remove c) ks n"
      by (auto simp: unsubscribeSupportedValueChangeLocked_def Let_def split: prod.splits if_splits)
    moreover have "c \<notin> fst ` set (sv_clients n k) \<or> k \<in> set ks"
      using svi Some by (auto simp: sv_inv_def lookup_or_def)
    ultimately show ?thesis using svc_fold_remove_views unsvc_subscribers [OF un] by metis
  qed
  show ?thesis
  proof (cases "map_of (mSubscribedPropsByClient m) c")
    case None
    then have "map_of (subscribers m k) c = None"
      using subs_gone [OF inv(1), of k c] by (simp add: lookup_or_def)
    with None assms(2) rest [OF inv(2)] show ?thesis by (auto simp: mgr_unsubscribe_def lookup_or_def)
  next
    case (Some ks)
    obtain r1 m1 h1 where l: "unsubscribe_loop hw c False ks (m, h) = (r1, m1, h1)" by (metis prod_cases3)
    with assms(2) Some have r1: "r1 = Inr ()" by (cases r1) (auto simp: mgr_unsubscribe_def)
    note loop = unsubscribe_loop_subscribers [OF l [unfolded r1]]
    have gone: "map_of (subscribers m k) c = None" if "k \<notin> set ks"
      using subs_gone [OF inv(1), of k c] Some that by (simp add: lookup_or_def)
    have "sv_inv (m1\<lparr>mSubscribedPropsByClient := AList.delete c (mSubscribedPropsByClient m1)\<rparr>)"
      using unsubscribe_loop_sv [OF inv(2) l] by (simp add: sv_inv_def)
    from rest [OF this, of h1] assms(2) Some l r1 have
      "subscribers m' k = subscribers m1 k \<and> props_of m' c = [] \<and> c \<notin> fst ` set (sv_clients m' k)"
      by (simp add: mgr_unsubscribe_def)
    with loop [of k c'] gone show ?thesis by auto
  qed
qed

section \<open>Samples\<close>

definition speed :: int32 where "speed = 0x11600207"
definition gear :: int32 where "gear = 0x11400400"
definition brake :: int32 where "brake = 0x11200402"
definition client1 :: IVehicleCallback where "client1 = \<lparr>cbk_ptr = 1, cbk_binder = 1\<rparr>"
definition client2 :: IVehicleCallback where "client2 = \<lparr>cbk_ptr = 2, cbk_binder = 2\<rparr>"

definition sample_option :: "int32 \<Rightarrow> f32 \<Rightarrow> SubscribeOptions" where
  "sample_option p rate = \<lparr>so_propId = p, so_areaIds = [0], so_sampleRate = rate, so_resolution = 0, so_enableVur = False\<rparr>"

definition sample_hw :: ideal_hw_state where
  "sample_hw = \<lparr>ih_subs = (\<lambda>_. None), ih_supported = {}\<rparr>"

definition global_key :: "int32 \<Rightarrow> PropIdAreaId" where
  "global_key p = \<lparr>pa_propId = p, pa_areaId = 0\<rparr>"

lemmas sample_defs = speed_def gear_def brake_def client1_def client2_def sample_option_def sample_hw_def global_key_def

lemma rate_10Hz: "checkSampleRateHz 0x41200000" by code_simp

lemma nan_0 [simp]: "\<not> f32_is_nan 0" by (simp add: f32_is_nan_def f32_mag_def)

definition sample_mgr :: SubscriptionManager where
  "sample_mgr = newSubscriptionManager\<lparr>mClientsByPropIdAreaId := [(global_key gear, [(1, client1)])],
     mSubscribedPropsByClient := [(1, [global_key gear])]\<rparr>"

lemma sample_mgr_inv: "subs_inv sample_mgr" "sv_inv sample_mgr"
  by (auto simp: sample_mgr_def subs_inv_def sv_inv_def newSubscriptionManager_def lookup_or_def client1_def
      distinct_keys_def split: if_splits)

lemma sample_subscribed:
  "\<exists>m h. mgr_subscribe f ideal_hw client1 [sample_option speed 0x41200000] True (newSubscriptionManager, sample_hw)
     = (Inr (), m, h) \<and> subscribers m (global_key speed) = [(1, client1)]"
proof -
  obtain r m h where e: "mgr_subscribe f ideal_hw client1 [sample_option speed 0x41200000] True (newSubscriptionManager, sample_hw) = (r, m, h)"
    by (metis prod_cases3)
  then have one: "(case subscribe_one ideal_hw client1 True (sample_option speed 0x41200000) 0 (newSubscriptionManager, sample_hw)
      of (Inl err, st') \<Rightarrow> (Inl err, st') | (Inr _, st') \<Rightarrow> subscribe_loop ideal_hw client1 True [] st') = (r, m, h)"
    by (simp add: mgr_subscribe_def option_valid_def rate_10Hz checkResolution_def sample_option_def)
  obtain r1 m1 h1 where s: "subscribe_one ideal_hw client1 True (sample_option speed 0x41200000) 0
      (newSubscriptionManager, sample_hw) = (r1, m1, h1)" by (metis prod_cases3)
  with one subscribe_one_ideal(1) [OF s] have m: "m = m1" "r = Inr ()" by auto
  note eff = subscribe_one_effect [OF s [unfolded subscribe_one_ideal(1) [OF s]] refl]
  have "subscribers m (global_key speed) = [(1, client1)]"
    using eff(2) by (simp add: m sample_defs newSubscriptionManager_def lookup_or_def)
  with e m show ?thesis by blast
qed

text \<open>A hardware that logs its calls and refuses the first unsubscription of \<open>brake\<close>.\<close>

definition refusing_hw :: "(nat \<times> hw_call list) hardware" where
  "refusing_hw call h =
     (case h of (n, log) \<Rightarrow>
        if call = HwUnsubscribe brake 0 \<and> n = 0 then (TRY_AGAIN, 1, log @ [call]) else (OK, n, log @ [call]))"

lemmas event_defs = sample_defs mgr_subscribe_def option_valid_def subscribe_one_def addOnChangeSubscriberLocked_def
  newSubscriptionManager_def newSubscribeOptions_def lookup_or_def touch_def getSubscribedClients_def
  notify_client_def sanitize_zero getResolutionForClient_def isVurEnabledForClient_def newContSubConfigs_def
  push_to_def mgr_unsubscribe_def unsubscribePropIdAreaIdLocked_def removeContinuousSubscriberLocked_def
  removeOnChangeSubscriberLocked_def updateContSubConfigsLocked_def cont_removeClient_def refreshCombinedConfig_def
  empty_prop_value_def List.insert_def Let_def

section \<open>Properties\<close>

text \<open>C1. The hardware follows the clients: in every run on a hardware that accepts the calls made to it, a
  continuous property and area is subscribed there exactly while some client is subscribed to it, at the
  highest rate any of them asked for, the finest resolution, and with variable update rate only if all
  of them enable it (up to the sign of a zero).\<close>

theorem hardware_follows_clients:
  assumes "mgr_start st0" and "\<forall>k. ih_subs (snd st0) k = None"
    and "(mgr_step isCont log10f ideal_hw)\<^sup>*\<^sup>* st0 st" and "isCont (pa_propId k)"
  shows "if subscribers (fst st) k = [] then ih_subs (snd st) k = None
    else \<exists>opt. ih_subs (snd st) k = Some opt \<and> agrees k opt (cont_cfg (fst st) k) \<and>
      combined (configs_of (cont_cfg (fst st) k)) (mMaxSampleRateHz (cont_cfg (fst st) k))
        (mMinRequiredResolution (cont_cfg (fst st) k)) (mEnableVur (cont_cfg (fst st) k)) \<and>
      fst ` set (mConfigByClient (cont_cfg (fst st) k)) = fst ` set (subscribers (fst st) k)"
proof -
  let ?m = "fst st"
  have inv: "mgr_inv st" "cont_agree isCont ?m (snd st)"
    using hw_runs.reachable_inv [OF _ assms(3)] assms(1,2) by auto
  then have key: "key_agrees k ?m (snd st)" and ok: "cfg_ok (cont_cfg ?m k)"
    using assms(4) by (auto simp: cont_agree_def mgr_inv_def subs_inv_def)
  show ?thesis
  proof (cases "subscribers ?m k = []")
    case True
    with key show ?thesis by (simp add: key_agrees_def)
  next
    case False
    then have "mConfigByClient (cont_cfg ?m k) \<noteq> []" using key empty_keys by (auto simp: key_agrees_def)
    then have "cont_cfg ?m k \<noteq> newContSubConfigs" by (auto simp: newContSubConfigs_def)
    with ok False key show ?thesis unfolding cfg_ok_def key_agrees_def by auto
  qed
qed

theorem hardware_follows_clients_witness:
  "\<exists>m h opt. mgr_subscribe (\<lambda>x. x) ideal_hw client1 [sample_option speed 0x41200000] True
      (newSubscriptionManager, sample_hw) = (Inr (), m, h) \<and> ih_subs h (global_key speed) = Some opt"
proof -
  obtain m h where e: "mgr_subscribe (\<lambda>x. x) ideal_hw client1 [sample_option speed 0x41200000] True
      (newSubscriptionManager, sample_hw) = (Inr (), m, h)" and s: "subscribers m (global_key speed) = [(1, client1)]"
    using sample_subscribed by blast
  have "mgr_step (\<lambda>p. p = speed) (\<lambda>x. x) ideal_hw (newSubscriptionManager, sample_hw) (m, h)"
    by (rule ms_subscribe [OF _ e]) (simp add: sample_option_def f32_is_nan_def f32_mag_def)
  then have "(mgr_step (\<lambda>p. p = speed) (\<lambda>x. x) ideal_hw)\<^sup>*\<^sup>* (newSubscriptionManager, sample_hw) (m, h)"
    by blast
  from hardware_follows_clients [OF _ _ this, of "global_key speed"] s e show ?thesis
    by (auto simp: mgr_start_def sample_hw_def global_key_def)
qed

text \<open>C20. On any hardware, also one that refuses calls midway, every reachable manager is consistent: no
  key is kept without clients, every client that would receive events of a key is recorded as
  subscribed to it under its own id, and the two maps of supported-value subscriptions are inverses of
  each other.\<close>

theorem subscriptions_consistent:
  assumes "mgr_start st0" and "(mgr_step isCont log10f hw)\<^sup>*\<^sup>* st0 (m, h)"
  shows "map_of (mClientsByPropIdAreaId m) k \<noteq> Some [] \<and>
    (map_of (subscribers m k) c = Some cb \<longrightarrow> cbk_binder cb = c \<and> k \<in> set (props_of m c)) \<and>
    (c \<in> fst ` set (sv_clients m k) \<longleftrightarrow> k \<in> set (sv_props m c))"
  using mgr_runs.reachable_inv [OF assms] by (simp add: mgr_inv_def subs_inv_def sv_inv_def)

theorem subscriptions_consistent_witness:
  "\<exists>m h. mgr_subscribe (\<lambda>x. x) ideal_hw client1 [sample_option speed 0x41200000] True
      (newSubscriptionManager, sample_hw) = (Inr (), m, h) \<and> global_key speed \<in> set (props_of m 1)"
proof -
  obtain m h where e: "mgr_subscribe (\<lambda>x. x) ideal_hw client1 [sample_option speed 0x41200000] True
      (newSubscriptionManager, sample_hw) = (Inr (), m, h)" and s: "subscribers m (global_key speed) = [(1, client1)]"
    using sample_subscribed by blast
  have "mgr_step (\<lambda>p. p = speed) (\<lambda>x. x) ideal_hw (newSubscriptionManager, sample_hw) (m, h)"
    by (rule ms_subscribe [OF _ e]) (simp add: sample_option_def f32_is_nan_def f32_mag_def)
  then have "(mgr_step (\<lambda>p. p = speed) (\<lambda>x. x) ideal_hw)\<^sup>*\<^sup>* (newSubscriptionManager, sample_hw) (m, h)"
    by blast
  from subscriptions_consistent [OF _ this, of "global_key speed" 1 client1] s e show ?thesis
    by (auto simp: mgr_start_def)
qed

text \<open>When unsubscribing a client succeeds it receives nothing any more, property events or
  supported-value changes, and no other client loses a subscription.\<close>

theorem unsubscribe_complete:
  assumes "mgr_inv (m, h)" and "mgr_unsubscribe hw c (m, h) = (Inr u, m', h')"
  shows "map_of (subscribers m' k) c' = (if c' = c then None else map_of (subscribers m k) c') \<and>
    c \<notin> fst ` set (sv_clients m' k) \<and> props_of m' c = []"
  by (rule unsubscribe_all_effect [OF assms])

theorem unsubscribe_complete_witness:
  "\<exists>m h. mgr_unsubscribe ideal_hw 1 (sample_mgr, sample_hw) = (Inr (), m, h) \<and>
     map_of (subscribers m (global_key gear)) 1 = None"
proof -
  have "fst (mgr_unsubscribe ideal_hw 1 (sample_mgr, sample_hw)) = Inr ()"
    by (simp add: mgr_unsubscribe_def sample_mgr_def newSubscriptionManager_def unsubscribePropIdAreaIdLocked_def
        removeOnChangeSubscriberLocked_def touch_def lookup_or_def)
  then obtain m h where "mgr_unsubscribe ideal_hw 1 (sample_mgr, sample_hw) = (Inr (), m, h)"
    by (metis prod.collapse)
  moreover have "mgr_inv (sample_mgr, sample_hw)" by (simp add: mgr_inv_def sample_mgr_inv)
  ultimately show ?thesis
    using unsubscribe_complete [of sample_mgr sample_hw ideal_hw 1 "()" m h "global_key gear" 1] by auto
qed

text \<open>C32. Property events of properties without sample-rate configurations (on-change properties) reach each
  callback in order, unchanged and once: a callback gets exactly the updated values of the keys its
  client is subscribed to.\<close>

theorem on_change_events_delivered:
  assumes "subs_inv m" and "\<And>v. v \<in> set vs \<Longrightarrow> mConfigByClient (cont_cfg m (value_key v)) = []"
  shows "\<exists>m' out. getSubscribedClients vs m = Some (m', out) \<and>
    (\<forall>cb. lookup_or [] cb out = filter (\<lambda>v. listens cb (subscribers m (value_key v))) vs)"
  using plain_events_fold [OF assms, where out = "[]"] by (simp add: getSubscribedClients_def)

theorem on_change_events_delivered_witness:
  "\<exists>m' out. getSubscribedClients [empty_prop_value\<lparr>pv_prop := gear\<rparr>] sample_mgr = Some (m', out) \<and>
    lookup_or [] client1 out = [empty_prop_value\<lparr>pv_prop := gear\<rparr>]"
  using on_change_events_delivered [OF sample_mgr_inv(1), of "[empty_prop_value\<lparr>pv_prop := gear\<rparr>]"]
  by (auto simp: sample_mgr_def newSubscriptionManager_def newContSubConfigs_def listens_def value_key_def lookup_or_def
      client1_def global_key_def empty_prop_value_def)

text \<open>Set-error events reach each callback in order and once: exactly those of the keys its client is
  subscribed to.\<close>

theorem error_events_delivered:
  assumes "subs_inv m"
  shows "lookup_or [] cb (getSubscribedClientsForErrorEvents evs m) =
    map (\<lambda>ev. \<lparr>pe_errorCode = ev_errorCode ev, pe_propId = ev_propId ev, pe_areaId = ev_areaId ev\<rparr>)
      (filter (\<lambda>ev. listens cb (subscribers m (error_key ev))) evs)"
  using error_events_fold [OF assms, of cb evs "[]"] by (simp add: getSubscribedClientsForErrorEvents_def)

theorem error_events_delivered_witness:
  "lookup_or [] client1 (getSubscribedClientsForErrorEvents
      [\<lparr>ev_errorCode = TRY_AGAIN, ev_propId = gear, ev_areaId = 0\<rparr>] sample_mgr)
    = [\<lparr>pe_errorCode = TRY_AGAIN, pe_propId = gear, pe_areaId = 0\<rparr>]"
  using error_events_delivered [OF sample_mgr_inv(1)]
  by (simp add: sample_mgr_def newSubscriptionManager_def listens_def error_key_def lookup_or_def client1_def global_key_def)

text \<open>The filter for clients that enable variable update rate compares with the first value it ever saw,
  because inserting into the set never replaces an element: after a change from one value to another,
  the change back is dropped although the value did change.\<close>

theorem vur_filter_drops_change_back:
  assumes "lookup_or [] cb (mContSubValuesByCallback m) = []" and "same_key a b" and "same_key a a'"
    and "sint (pv_timestamp a) \<le> sint (pv_timestamp b)" and "sint (pv_timestamp a) \<le> sint (pv_timestamp a')"
    and "\<not> raw_eq (pv_value a) (pv_value b)" and "raw_eq (pv_value a) (pv_value a')" and "pv_status a = pv_status a'"
    and "isValueUpdatedLocked cb a m = (u1, m1)" and "isValueUpdatedLocked cb b m1 = (u2, m2)"
    and "isValueUpdatedLocked cb a' m2 = (u3, m3)"
  shows "u1 \<and> u2 \<and> \<not> u3"
proof -
  have k: "same_key b a" "same_key a' a" using assms(2,3) by (auto simp: same_key_def)
  have m1: "u1" "lookup_or [] cb (mContSubValuesByCallback m1) = [a]"
    using assms(1,9) by (auto simp: isValueUpdatedLocked_def Let_def value_set_insert_def)
  have m2: "u2" "lookup_or [] cb (mContSubValuesByCallback m2) = [a]"
    using assms(4,6,10) m1(2) k(1)
    by (auto simp: isValueUpdatedLocked_def Let_def value_set_insert_def split: if_splits)
  show ?thesis
    using assms(5,7,8,11) m1 m2 k(2) by (auto simp: isValueUpdatedLocked_def Let_def split: if_splits)
qed

definition sample_speed :: "int64 \<Rightarrow> f32 \<Rightarrow> VehiclePropValue" where
  "sample_speed t x = empty_prop_value\<lparr>pv_prop := speed, pv_timestamp := t, pv_value := empty_raw\<lparr>floatValues := [x]\<rparr>\<rparr>"

theorem vur_filter_drops_change_back_witness:
  "\<not> fst (isValueUpdatedLocked client1 (sample_speed 3 0)
      (snd (isValueUpdatedLocked client1 (sample_speed 2 0x3F800000)
        (snd (isValueUpdatedLocked client1 (sample_speed 1 0) newSubscriptionManager)))))"
proof -
  have "\<not> f32_eq 0 0x3F800000" by (simp add: f32_cmp_defs f32_key_def f32_neg_def f32_mag_def)
  then show ?thesis
    using vur_filter_drops_change_back [of client1 newSubscriptionManager "sample_speed 1 0" "sample_speed 2 0x3F800000"
      "sample_speed 3 0", OF _ _ _ _ _ _ _ _ prod.collapse [symmetric] prod.collapse [symmetric] prod.collapse [symmetric]]
    by (simp add: newSubscriptionManager_def sample_speed_def same_key_def raw_eq_def empty_raw_def empty_prop_value_def)
qed

text \<open>Fan-out to the clients of an on-change property leaves an empty continuous configuration behind, so
  that a later unsubscription of one of two clients takes the continuous path and unsubscribes the
  property at the hardware while the other client is still subscribed.\<close>

theorem event_breaks_on_change_unsubscribe:
  "let event = empty_prop_value\<lparr>pv_prop := gear\<rparr>;
       (r1, st1) = mgr_subscribe log10f ideal_hw client1 [sample_option gear 0] False (newSubscriptionManager, sample_hw);
       (r2, m2, h2) = mgr_subscribe log10f ideal_hw client2 [sample_option gear 0] False st1;
       (m3, out) = the (getSubscribedClients [event] m2);
       (r4, m4, h4) = mgr_unsubscribe ideal_hw 1 (m3, h2)
   in r1 = Inr () \<and> r2 = Inr () \<and> getSubscribedClients [event] m2 \<noteq> None \<and> r4 = Inr () \<and>
      map_of (subscribers m4 (global_key gear)) 2 = Some client2 \<and> ih_subs h4 (global_key gear) = None"
  by (simp add: event_defs)

text \<open>Retrying an unsubscription that failed is not safe: with two clients on one property and the first
  client also on another, a hardware that refuses the second property once makes the retry unsubscribe the first
  property at the hardware, although the other client is still subscribed to it.\<close>

theorem unsubscribe_retry_unsafe:
  "let start = (newSubscriptionManager, (0 :: nat, []));
       (r1, st1) = mgr_subscribe log10f refusing_hw client1 [sample_option brake 0, sample_option gear 0] False start;
       (r2, st2) = mgr_subscribe log10f refusing_hw client2 [sample_option gear 0] False st1;
       (r3, st3) = mgr_unsubscribe refusing_hw 1 st2;
       (r4, m4, n4, log4) = mgr_unsubscribe refusing_hw 1 st3
   in r1 = Inr () \<and> r2 = Inr () \<and> r3 = Inl TRY_AGAIN \<and> r4 = Inr () \<and>
      map_of (subscribers m4 (global_key gear)) 2 = Some client2 \<and> HwUnsubscribe gear 0 \<in> set log4"
  by (simp add: event_defs refusing_hw_def)

end
