(* ===== verification/EventQueue.thy ===== *)
theory EventQueue
  imports VhalPrelude
begin

text \<open>
  \<^verbatim>\<open>ConcurrentQueue.h\<close>: the blocking queue between producers and worker threads, and the consumer that
  hands its items over in batches. A queue method is one atomic step under \<^verbatim>\<open>mLock\<close>. The consumer's
  worker is a state machine with one transition per access to shared state, interleaved with the
  producers and with the thread that stops it.
\<close>

section \<open>ConcurrentQueue\<close>

record 'a ConcurrentQueue =
  mIsActive :: bool
  mQueue :: "'a list"

definition newConcurrentQueue :: "'a ConcurrentQueue" where
  "newConcurrentQueue = \<lparr>mIsActive = True, mQueue = []\<rparr>"

text \<open>\<open>None\<close>: the caller stays blocked on the condition variable.\<close>

definition waitForItems :: "'a ConcurrentQueue \<Rightarrow> bool option" where
  "waitForItems q = (if mQueue q = [] \<and> mIsActive q then None else Some (mIsActive q))"

fun flush_loop :: "'a list \<Rightarrow> 'a list \<Rightarrow> 'a list" where
  "flush_loop items [] = items"
| "flush_loop items (x # queue) = flush_loop (items @ [x]) queue"

definition flush :: "'a ConcurrentQueue \<Rightarrow> 'a list \<times> 'a ConcurrentQueue" where
  "flush q = (if mQueue q = [] then ([], q) else (flush_loop [] (mQueue q), q\<lparr>mQueue := []\<rparr>))"

definition queue_push :: "'a \<Rightarrow> 'a ConcurrentQueue \<Rightarrow> 'a ConcurrentQueue" where
  "queue_push item q = (if \<not> mIsActive q then q else q\<lparr>mQueue := mQueue q @ [item]\<rparr>)"

definition queue_push_all :: "'a list \<Rightarrow> 'a ConcurrentQueue \<Rightarrow> 'a ConcurrentQueue" where
  "queue_push_all items q =
     (if \<not> mIsActive q then q else foldl (\<lambda>q item. q\<lparr>mQueue := mQueue q @ [item]\<rparr>) q items)"

definition deactivate :: "'a ConcurrentQueue \<Rightarrow> 'a ConcurrentQueue" where
  "deactivate q = q\<lparr>mIsActive := False\<rparr>"

section \<open>BatchingConsumer\<close>

datatype ConsumerState = INIT | RUNNING | STOP_REQUESTED | STOPPED

text \<open>
  The points of \<^verbatim>\<open>runInternal\<close> between two accesses to shared state: before the exchange, at the loop
  test, in \<^verbatim>\<open>waitForItems\<close>, at the first test for a stop, asleep, at the second test, before the flush,
  with a batch in hand, before the last assignment, finished.
\<close>

datatype 'a worker_pc =
    W_EXCHANGE | W_TEST | W_WAIT | W_TEST1 | W_SLEEP | W_TEST2 | W_FLUSH | W_DELIVER "'a list"
  | W_STOPPING | W_DONE

record 'a BatchingConsumer =
  mState :: ConsumerState
  bc_queue :: "'a ConcurrentQueue"
  bc_pc :: "'a worker_pc"

definition newBatchingConsumer :: "'a BatchingConsumer" where
  "newBatchingConsumer = \<lparr>mState = INIT, bc_queue = newConcurrentQueue, bc_pc = W_EXCHANGE\<rparr>"

definition requestStop :: "'a BatchingConsumer \<Rightarrow> 'a BatchingConsumer" where
  "requestStop b = b\<lparr>mState := STOP_REQUESTED\<rparr>"

text \<open>
  One step of \<^verbatim>\<open>runInternal\<close>, with the batch it hands to \<^verbatim>\<open>onBatchReceived\<close> if it is at the call;
  \<open>None\<close> when the worker is blocked or has finished.
\<close>

definition runInternal_step :: "'a BatchingConsumer \<Rightarrow> ('a list list \<times> 'a BatchingConsumer) option" where
  "runInternal_step b =
     (case bc_pc b of
        W_EXCHANGE \<Rightarrow> Some ([], b\<lparr>mState := RUNNING, bc_pc := (if mState b = INIT then W_TEST else W_STOPPING)\<rparr>)
      | W_TEST \<Rightarrow> Some ([], b\<lparr>bc_pc := (if RUNNING = mState b then W_WAIT else W_STOPPING)\<rparr>)
      | W_WAIT \<Rightarrow> (case waitForItems (bc_queue b) of
                     None \<Rightarrow> None
                   | Some _ \<Rightarrow> Some ([], b\<lparr>bc_pc := W_TEST1\<rparr>))
      | W_TEST1 \<Rightarrow> Some ([], b\<lparr>bc_pc := (if STOP_REQUESTED = mState b then W_STOPPING else W_SLEEP)\<rparr>)
      | W_SLEEP \<Rightarrow> Some ([], b\<lparr>bc_pc := W_TEST2\<rparr>)
      | W_TEST2 \<Rightarrow> Some ([], b\<lparr>bc_pc := (if STOP_REQUESTED = mState b then W_STOPPING else W_FLUSH)\<rparr>)
      | W_FLUSH \<Rightarrow> (let (items, q) = flush (bc_queue b)
                    in Some ([], b\<lparr>bc_queue := q, bc_pc := (if items \<noteq> [] then W_DELIVER items else W_TEST)\<rparr>))
      | W_DELIVER items \<Rightarrow> Some ([items], b\<lparr>bc_pc := W_TEST\<rparr>)
      | W_STOPPING \<Rightarrow> Some ([], b\<lparr>mState := STOPPED, bc_pc := W_DONE\<rparr>)
      | W_DONE \<Rightarrow> None)"

section \<open>The interface of the queue\<close>

text \<open>
  A queue with a first-in first-out content that refuses items once it is closed; what its users
  need to know of it.
\<close>

locale closable_fifo =
  fixes put :: "'a list \<Rightarrow> 'q \<Rightarrow> 'q"
    and drain :: "'q \<Rightarrow> 'a list \<times> 'q"
    and close :: "'q \<Rightarrow> 'q"
    and open_q :: "'q \<Rightarrow> bool"
    and content :: "'q \<Rightarrow> 'a list"
  assumes put_content: "content (put xs q) = (if open_q q then content q @ xs else content q)"
    and put_open: "open_q (put xs q) = open_q q"
    and drain_items: "fst (drain q) = content q"
    and drain_content: "content (snd (drain q)) = []"
    and drain_open: "open_q (snd (drain q)) = open_q q"
    and close_content: "content (close q) = content q"
    and close_open: "\<not> open_q (close q)"
begin

text \<open>Items put one list after the other come out in that order, each once.\<close>

lemma drain_after_puts:
  "open_q q \<Longrightarrow> fst (drain (foldl (\<lambda>q xs. put xs q) q xss)) = content q @ concat xss"
  by (induction xss arbitrary: q) (auto simp: drain_items put_content put_open)

text \<open>Closing keeps what is queued and loses what comes later.\<close>

lemma drain_after_close: "fst (drain (put xs (close q))) = content q"
  by (simp add: drain_items put_content close_open close_content)

lemma drain_twice: "fst (drain (snd (drain q))) = []"
  by (simp add: drain_items drain_content)

end

lemma flush_loop_eq: "flush_loop items queue = items @ queue"
  by (induction items queue rule: flush_loop.induct) auto

lemma flush_eq [simp]: "flush q = (mQueue q, q\<lparr>mQueue := []\<rparr>)"
  by (auto simp: flush_def flush_loop_eq)

lemma push_all_eq: "queue_push_all items q = (if mIsActive q then q\<lparr>mQueue := mQueue q @ items\<rparr> else q)"
proof -
  have "foldl (\<lambda>q item. q\<lparr>mQueue := mQueue q @ [item]\<rparr>) q items = q\<lparr>mQueue := mQueue q @ items\<rparr>"
    by (induction items arbitrary: q) auto
  then show ?thesis by (simp add: queue_push_all_def)
qed

lemma push_eq: "queue_push item q = queue_push_all [item] q"
  by (simp add: queue_push_def queue_push_all_def)

interpretation cqueue: closable_fifo queue_push_all flush deactivate mIsActive mQueue
  by unfold_locales (auto simp: push_all_eq deactivate_def)

section \<open>Runs of the consumer\<close>

text \<open>
  Producers push, another thread deactivates the queue or requests the stop, the worker steps. The
  ledger records the items the queue accepted and the batches delivered, and whether a stop was
  requested.
\<close>

record 'a bc_run =
  bc :: "'a BatchingConsumer"
  pushed :: "'a list"
  batches :: "'a list list"
  stop_requested :: bool

inductive bc_step :: "'a bc_run \<Rightarrow> 'a bc_run \<Rightarrow> bool" where
  bc_push: "bc_step s (s\<lparr>bc := (bc s)\<lparr>bc_queue := queue_push_all xs (bc_queue (bc s))\<rparr>,
     pushed := (if mIsActive (bc_queue (bc s)) then pushed s @ xs else pushed s)\<rparr>)"
| bc_deactivate: "bc_step s (s\<lparr>bc := (bc s)\<lparr>bc_queue := deactivate (bc_queue (bc s))\<rparr>\<rparr>)"
| bc_stop: "bc_step s (s\<lparr>bc := requestStop (bc s), stop_requested := True\<rparr>)"
| bc_work: "runInternal_step (bc s) = Some (out, b) \<Longrightarrow>
     bc_step s (s\<lparr>bc := b, batches := batches s @ out\<rparr>)"

definition bc_start :: "'a bc_run \<Rightarrow> bool" where
  "bc_start s \<longleftrightarrow> s = \<lparr>bc = newBatchingConsumer, pushed = [], batches = [], stop_requested = False\<rparr>"

definition in_hand :: "'a BatchingConsumer \<Rightarrow> 'a list" where
  "in_hand b = (case bc_pc b of W_DELIVER items \<Rightarrow> items | _ \<Rightarrow> [])"

definition bc_inv :: "'a bc_run \<Rightarrow> bool" where
  "bc_inv s \<longleftrightarrow>
     concat (batches s) @ in_hand (bc s) @ mQueue (bc_queue (bc s)) = pushed s \<and>
     [] \<notin> set (batches s) \<and> bc_pc (bc s) \<noteq> W_DELIVER [] \<and>
     (if stop_requested s then mState (bc s) = STOP_REQUESTED \<or> bc_pc (bc s) \<in> {W_STOPPING, W_DONE}
      else bc_pc (bc s) \<notin> {W_STOPPING, W_DONE} \<and>
        mState (bc s) = (if bc_pc (bc s) = W_EXCHANGE then INIT else RUNNING))"

lemma bc_work_inv:
  assumes "bc_inv s" and "runInternal_step (bc s) = Some (out, b)"
  shows "bc_inv (s\<lparr>bc := b, batches := batches s @ out\<rparr>)"
  using assms
  by (cases "bc_pc (bc s)")
    (auto simp: runInternal_step_def bc_inv_def in_hand_def split: if_splits option.splits)

interpretation bc_runs: step_invariant bc_start bc_step bc_inv
proof unfold_locales
  show "bc_inv s" if "bc_start s" for s :: "'a bc_run"
    using that by (simp add: bc_start_def bc_inv_def newBatchingConsumer_def newConcurrentQueue_def in_hand_def)
  show "bc_inv t" if "bc_inv s" "bc_step s t" for s t :: "'a bc_run"
    using that(2,1)
  proof induction
    case (bc_work s out b)
    then show ?case by (intro bc_work_inv)
  qed (auto simp: bc_inv_def in_hand_def push_all_eq deactivate_def requestStop_def)
qed

section \<open>Stopping\<close>

text \<open>The worker alone, for a number of its own steps.\<close>

fun work :: "nat \<Rightarrow> 'a BatchingConsumer \<Rightarrow> 'a BatchingConsumer" where
  "work 0 b = b"
| "work (Suc n) b = (case runInternal_step b of None \<Rightarrow> b | Some (_, b') \<Rightarrow> work n b')"

fun steps_left :: "'a worker_pc \<Rightarrow> nat" where
  "steps_left W_DONE = 0"
| "steps_left W_STOPPING = 1"
| "steps_left W_TEST2 = 2"
| "steps_left W_TEST1 = 2"
| "steps_left W_TEST = 2"
| "steps_left W_EXCHANGE = 2"
| "steps_left W_WAIT = 3"
| "steps_left W_SLEEP = 3"
| "steps_left (W_DELIVER items) = 3"
| "steps_left W_FLUSH = 4"

lemma stopping_step:
  assumes "\<not> mIsActive (bc_queue b)" and "mState b = STOP_REQUESTED \<or> bc_pc b \<in> {W_STOPPING, W_DONE}"
    and "bc_pc b \<noteq> W_DONE"
  shows "\<exists>out b'. runInternal_step b = Some (out, b') \<and> \<not> mIsActive (bc_queue b') \<and>
    (mState b' = STOP_REQUESTED \<or> bc_pc b' \<in> {W_STOPPING, W_DONE}) \<and>
    steps_left (bc_pc b') < steps_left (bc_pc b)"
  using assms by (cases "bc_pc b") (auto simp: runInternal_step_def waitForItems_def)

lemma stops_within:
  assumes "\<not> mIsActive (bc_queue b)" and "mState b = STOP_REQUESTED \<or> bc_pc b \<in> {W_STOPPING, W_DONE}"
    and "steps_left (bc_pc b) \<le> n"
  shows "bc_pc (work n b) = W_DONE"
  using assms
proof (induction n arbitrary: b)
  case 0
  then show ?case by (cases "bc_pc b") auto
next
  case (Suc n)
  show ?case
  proof (cases "bc_pc b = W_DONE")
    case True
    then show ?thesis by (simp add: runInternal_step_def)
  next
    case False
    from stopping_step [OF Suc.prems(1,2) False] obtain out b'
      where "runInternal_step b = Some (out, b')" "\<not> mIsActive (bc_queue b')"
        "mState b' = STOP_REQUESTED \<or> bc_pc b' \<in> {W_STOPPING, W_DONE}"
        "steps_left (bc_pc b') < steps_left (bc_pc b)" by blast
    with Suc show ?thesis by simp
  qed
qed

section \<open>Properties\<close>

text \<open>C25. The batching consumer loses, repeats and reorders nothing: in every interleaving of producers,
  worker and the thread that stops it, the batches delivered, then the batch the worker holds, then
  the queue are exactly the items the queue accepted in their order, and no batch is empty.\<close>

theorem batches_fifo:
  assumes "bc_start s0" and "bc_step\<^sup>*\<^sup>* s0 s"
  shows "concat (batches s) @ in_hand (bc s) @ mQueue (bc_queue (bc s)) = pushed s \<and> [] \<notin> set (batches s)"
  using bc_runs.reachable_inv [OF assms] by (simp add: bc_inv_def)

definition sample_bc :: "nat bc_run" where
  "sample_bc = \<lparr>bc = newBatchingConsumer, pushed = [], batches = [], stop_requested = False\<rparr>"

theorem batches_fifo_witness:
  "\<exists>s. bc_step\<^sup>*\<^sup>* sample_bc s \<and> pushed s = [1, 2] \<and> concat (batches s) @ in_hand (bc s) @ mQueue (bc_queue (bc s)) = [1, 2]"
proof -
  let ?s = "sample_bc\<lparr>bc := (bc sample_bc)\<lparr>bc_queue := queue_push_all [1, 2] (bc_queue (bc sample_bc))\<rparr>,
     pushed := (if mIsActive (bc_queue (bc sample_bc)) then pushed sample_bc @ [1, 2] else pushed sample_bc)\<rparr>"
  have r: "bc_step\<^sup>*\<^sup>* sample_bc ?s" by (rule r_into_rtranclp, rule bc_push)
  moreover have "pushed ?s = [1, 2]"
    by (simp add: sample_bc_def newBatchingConsumer_def newConcurrentQueue_def)
  moreover have "bc_start sample_bc" by (simp add: bc_start_def sample_bc_def)
  ultimately show ?thesis using batches_fifo [OF _ r] by (intro exI [of _ ?s]) simp
qed

text \<open>Stopping works: once the queue is deactivated and a stop was requested, whatever happened
  before and even if the request came before the worker thread first ran, the worker never blocks
  again and finishes after at most four steps of its own.\<close>

theorem consumer_stops:
  assumes "bc_start s0" and "bc_step\<^sup>*\<^sup>* s0 s" and "stop_requested s" and "\<not> mIsActive (bc_queue (bc s))"
  shows "bc_pc (work 4 (bc s)) = W_DONE"
proof (rule stops_within)
  show "mState (bc s) = STOP_REQUESTED \<or> bc_pc (bc s) \<in> {W_STOPPING, W_DONE}"
    using bc_runs.reachable_inv [OF assms(1,2)] assms(3) by (simp add: bc_inv_def)
  show "steps_left (bc_pc (bc s)) \<le> 4" by (cases "bc_pc (bc s)") auto
qed (fact assms(4))

theorem consumer_stops_witness:
  "bc_pc (work 4 (requestStop (newBatchingConsumer\<lparr>bc_queue := deactivate newConcurrentQueue\<rparr>) :: nat BatchingConsumer)) = W_DONE"
proof -
  let ?s1 = "sample_bc\<lparr>bc := (bc sample_bc)\<lparr>bc_queue := deactivate (bc_queue (bc sample_bc))\<rparr>\<rparr>"
  let ?s2 = "?s1\<lparr>bc := requestStop (bc ?s1), stop_requested := True\<rparr>"
  have "bc_step sample_bc ?s1" and "bc_step ?s1 ?s2" by (rule bc_deactivate, rule bc_stop)
  then have "bc_step\<^sup>*\<^sup>* sample_bc ?s2" by (rule converse_rtranclp_into_rtranclp [OF _ r_into_rtranclp])
  from consumer_stops [OF _ this] show ?thesis
    by (simp add: bc_start_def sample_bc_def newBatchingConsumer_def newConcurrentQueue_def
        deactivate_def requestStop_def)
qed

end
