(* ===== verification/DefaultVehicleHal.thy ===== *)
theory DefaultVehicleHal
  imports SubscriptionRuns EventQueue
begin

text \<open>
  \<^verbatim>\<open>DefaultVehicleHal.h\<close> and \<^verbatim>\<open>DefaultVehicleHal.cpp\<close>: the service behind the binder interface \<^verbatim>\<open>IVehicle\<close>. It
  checks requests against the property configurations, hands the valid ones to the vehicle hardware, keeps
  them pending until the hardware answers or they time out, and manages subscriptions and the death of
  clients. The hardware is an argument (a record of the functions of \<^verbatim>\<open>IVehicleHardware\<close>); its answers to
  get and set requests come back later through the client's result callback. The binder environment and
  the table \<^verbatim>\<open>VersionForVehicleProperty\<close> are arguments too. A call is modelled as the sequence of its own
  steps; messages it sends are returned.
\<close>

section \<open>Interfaces\<close>

record MinMaxSupportedValueResult =
  mm_status :: StatusCode
  minSupportedValue :: "RawPropValues option"
  maxSupportedValue :: "RawPropValues option"

record SupportedValuesListResult =
  sl_status :: StatusCode
  supportedValuesList :: "RawPropValues option list option"

record DumpResult =
  callerShouldDumpState :: bool
  dump_buffer :: string
  refreshPropertyConfigs :: bool

record 'h IVehicleHardware =
  hw_subscription :: "'h hardware"
  hw_getAllPropertyConfigs :: "'h \<Rightarrow> VehiclePropConfig list"
  hw_getPropertyConfig :: "int32 \<Rightarrow> 'h \<Rightarrow> VehiclePropConfig option"
  hw_getValues :: "GetValueRequest list \<Rightarrow> 'h \<Rightarrow> StatusCode \<times> 'h"
  hw_setValues :: "SetValueRequest list \<Rightarrow> 'h \<Rightarrow> StatusCode \<times> 'h"
  hw_checkHealth :: "'h \<Rightarrow> StatusCode"
  hw_dump :: "string list \<Rightarrow> 'h \<Rightarrow> DumpResult \<times> 'h"
  hw_getMinMaxSupportedValues :: "PropIdAreaId list \<Rightarrow> 'h \<Rightarrow> MinMaxSupportedValueResult list"
  hw_getSupportedValuesLists :: "PropIdAreaId list \<Rightarrow> 'h \<Rightarrow> SupportedValuesListResult list"

text \<open>The base class finds a configuration by scanning all of them.\<close>

definition getPropertyConfig_default :: "VehiclePropConfig list \<Rightarrow> int32 \<Rightarrow> VehiclePropConfig option" where
  "getPropertyConfig_default configs propId = find (\<lambda>config. pc_prop config = propId) configs"

record vhal_env =
  env_isAlive :: "client_id \<Rightarrow> bool"
  env_linkToDeath :: "client_id \<Rightarrow> bool"
  env_versionFor :: "int32 \<Rightarrow> int option"
  env_log10f :: "f32 \<Rightarrow> f32"

datatype ScopedAStatus = ST_OK | EX_NULL_POINTER | EX_TRANSACTION_FAILED | ServiceSpecific StatusCode

definition toScopedAStatus :: "'a VhalResult \<Rightarrow> ScopedAStatus" where
  "toScopedAStatus r = (case r of Inl err \<Rightarrow> ServiceSpecific err | Inr _ \<Rightarrow> ST_OK)"

section \<open>State\<close>

text \<open>
  A get or set client is the address of its object, a number not used before; the pool knows the
  client under it. \<open>mNextClient\<close> stands for the allocator.
\<close>

record BinderDiedUnlinkedEvent =
  forOnBinderDied :: bool
  ev_clientId :: client_id

record DefaultVehicleHal =
  mPendingRequestPool :: "client_id PendingRequestPool"
  mSubscriptionManager :: SubscriptionManager
  mConfigInit :: bool
  mConfigsByPropId :: "(int32 \<times> VehiclePropConfig) list"
  mOnBinderDiedContexts :: "client_id list"
  mGetValuesClients :: "(client_id \<times> client_id) list"
  mSetValuesClients :: "(client_id \<times> client_id) list"
  mBinderEvents :: "BinderDiedUnlinkedEvent ConcurrentQueue"
  mTestInterfaceVersion :: int
  mNextClient :: client_id

definition TIMEOUT_IN_NANO :: int64 where "TIMEOUT_IN_NANO = 30000000000"
definition HEART_BEAT_INTERVAL_IN_NANO :: int64 where "HEART_BEAT_INTERVAL_IN_NANO = 3000000000"

definition newDefaultVehicleHal :: "int \<Rightarrow> DefaultVehicleHal" where
  "newDefaultVehicleHal testInterfaceVersion =
     \<lparr>mPendingRequestPool = newRequestPool TIMEOUT_IN_NANO, mSubscriptionManager = newSubscriptionManager,
      mConfigInit = False, mConfigsByPropId = [], mOnBinderDiedContexts = [], mGetValuesClients = [],
      mSetValuesClients = [], mBinderEvents = newConcurrentQueue,
      mTestInterfaceVersion = testInterfaceVersion, mNextClient = 0\<rparr>"

type_synonym sent = "(IVehicleCallback \<times> client_msg) list"

section \<open>Configurations\<close>

definition getDefaultSampleRateHz :: "f32 \<Rightarrow> f32 \<Rightarrow> f32 \<Rightarrow> f32" where
  "getDefaultSampleRateHz rateHz minRateHz maxRateHz =
     (if f32_lt rateHz minRateHz then minRateHz
      else if f32_lt maxRateHz rateHz then maxRateHz else rateHz)"

text \<open>The interface version of the stub \<^verbatim>\<open>BnVehicle\<close> is 4.\<close>

definition getVhalInterfaceVersion :: "DefaultVehicleHal \<Rightarrow> int" where
  "getVhalInterfaceVersion v = (if mTestInterfaceVersion v \<noteq> 0 then mTestInterfaceVersion v else 4)"

definition isConfigSupportedForCurrentVhalVersion ::
  "vhal_env \<Rightarrow> VehiclePropConfig \<Rightarrow> DefaultVehicleHal \<Rightarrow> bool" where
  "isConfigSupportedForCurrentVhalVersion env config v =
     (if \<not> isSystemProp (pc_prop config) then True
      else case env_versionFor env (pc_prop config) of
             None \<Rightarrow> False
           | Some requiredVersion \<Rightarrow> \<not> getVhalInterfaceVersion v < requiredVersion)"

text \<open>On this port the conversion of the configurations to a shared file always succeeds and makes none.\<close>

definition getAllPropConfigsFromHardwareLocked ::
  "vhal_env \<Rightarrow> 'h IVehicleHardware \<Rightarrow> 'h \<Rightarrow> DefaultVehicleHal \<Rightarrow> DefaultVehicleHal" where
  "getAllPropConfigsFromHardwareLocked env hw h v =
     (let filteredConfigs = filter (\<lambda>c. isConfigSupportedForCurrentVhalVersion env c v) (hw_getAllPropertyConfigs hw h)
      in v\<lparr>mConfigsByPropId := fold (\<lambda>c. AList.update (pc_prop c) c) filteredConfigs (mConfigsByPropId v),
           mConfigInit := True\<rparr>)"

definition getConfigsByPropId ::
  "vhal_env \<Rightarrow> 'h IVehicleHardware \<Rightarrow> 'h \<Rightarrow> DefaultVehicleHal \<Rightarrow>
     (int32 \<times> VehiclePropConfig) list \<times> DefaultVehicleHal" where
  "getConfigsByPropId env hw h v =
     (let v' = (if \<not> mConfigInit v then getAllPropConfigsFromHardwareLocked env hw h v else v)
      in (mConfigsByPropId v', v'))"

definition getAllPropConfigs ::
  "vhal_env \<Rightarrow> 'h IVehicleHardware \<Rightarrow> 'h \<Rightarrow> DefaultVehicleHal \<Rightarrow>
     VehiclePropConfig list \<times> DefaultVehicleHal" where
  "getAllPropConfigs env hw h v =
     (let (configs, v') = getConfigsByPropId env hw h v in (map snd configs, v'))"

definition hal_getConfig ::
  "vhal_env \<Rightarrow> 'h IVehicleHardware \<Rightarrow> 'h \<Rightarrow> int32 \<Rightarrow> DefaultVehicleHal \<Rightarrow> VehiclePropConfig option" where
  "hal_getConfig env hw h propId v =
     (if \<not> mConfigInit v
      then (case hw_getPropertyConfig hw propId h of
              None \<Rightarrow> None
            | Some config \<Rightarrow> if \<not> isConfigSupportedForCurrentVhalVersion env config v then None else Some config)
      else map_of (mConfigsByPropId v) propId)"

fun collect_configs :: "(int32 \<Rightarrow> VehiclePropConfig option) \<Rightarrow> int32 list \<Rightarrow> VehiclePropConfig list option" where
  "collect_configs lookup [] = Some []"
| "collect_configs lookup (p # ps) =
     (case lookup p of
        None \<Rightarrow> None
      | Some config \<Rightarrow> map_option (Cons config) (collect_configs lookup ps))"

definition getPropConfigs ::
  "vhal_env \<Rightarrow> 'h IVehicleHardware \<Rightarrow> 'h \<Rightarrow> int32 list \<Rightarrow> DefaultVehicleHal \<Rightarrow>
     ScopedAStatus \<times> VehiclePropConfig list" where
  "getPropConfigs env hw h props v =
     (case collect_configs (\<lambda>p. hal_getConfig env hw h p v) props of
        None \<Rightarrow> (ServiceSpecific INVALID_ARG, [])
      | Some configs \<Rightarrow> (ST_OK, snd (vectorToStableLargeParcelable configs)))"

section \<open>Checks\<close>

definition hasRequiredAccess :: "VehiclePropertyAccess \<Rightarrow> VehiclePropertyAccess \<Rightarrow> bool" where
  "hasRequiredAccess access requiredAccess \<longleftrightarrow> access = requiredAccess \<or> access = READ_WRITE"

definition areaConfigsHaveRequiredAccess :: "VehicleAreaConfig list \<Rightarrow> VehiclePropertyAccess \<Rightarrow> bool" where
  "areaConfigsHaveRequiredAccess configs requiredAccess =
     (if configs = [] then False
      else list_all (\<lambda>areaConfig. hasRequiredAccess (ac_access areaConfig) requiredAccess) configs)"

text \<open>\<open>None\<close>: the check of a mixed value reads beyond the configuration array, undefined in the code.\<close>

definition checkProperty ::
  "vhal_env \<Rightarrow> 'h IVehicleHardware \<Rightarrow> 'h \<Rightarrow> VehiclePropValue \<Rightarrow> DefaultVehicleHal \<Rightarrow> bool option" where
  "checkProperty env hw h propValue v =
     (case hal_getConfig env hw h (pv_prop propValue) v of
        None \<Rightarrow> Some False
      | Some config \<Rightarrow>
          let areaConfig = getAreaConfig_value propValue config
          in if \<not> isGlobalProp (pv_prop propValue) \<and> areaConfig = None then Some False
             else case checkPropValue propValue config of
                    None \<Rightarrow> None
                  | Some (Inl _) \<Rightarrow> Some False
                  | Some (Inr _) \<Rightarrow> Some (checkValueRange propValue areaConfig = Inr ()))"

definition checkPermissionHelper ::
  "vhal_env \<Rightarrow> 'h IVehicleHardware \<Rightarrow> 'h \<Rightarrow> VehiclePropValue \<Rightarrow> VehiclePropertyAccess \<Rightarrow> DefaultVehicleHal \<Rightarrow>
     unit VhalResult" where
  "checkPermissionHelper env hw h v accessToTest hal =
     (if accessToTest \<notin> {WRITE, READ, READ_WRITE} then Inl INVALID_ARG
      else case hal_getConfig env hw h (pv_prop v) hal of
             None \<Rightarrow> Inl INVALID_ARG
           | Some config \<Rightarrow>
               let areaConfig = getAreaConfig_value v config
               in if areaConfig = None \<and> \<not> isGlobalProp (pv_prop v) then Inl INVALID_ARG
                  else if \<not> hasRequiredAccess (pc_access config) accessToTest \<and>
                          (case areaConfig of None \<Rightarrow> True
                           | Some ac \<Rightarrow> \<not> hasRequiredAccess (ac_access ac) accessToTest)
                  then Inl ACCESS_DENIED
                  else Inr ())"

definition checkWritePermission ::
  "vhal_env \<Rightarrow> 'h IVehicleHardware \<Rightarrow> 'h \<Rightarrow> VehiclePropValue \<Rightarrow> DefaultVehicleHal \<Rightarrow> unit VhalResult" where
  "checkWritePermission env hw h v hal = checkPermissionHelper env hw h v WRITE hal"

definition checkReadPermission ::
  "vhal_env \<Rightarrow> 'h IVehicleHardware \<Rightarrow> 'h \<Rightarrow> VehiclePropValue \<Rightarrow> DefaultVehicleHal \<Rightarrow> unit VhalResult" where
  "checkReadPermission env hw h v hal = checkPermissionHelper env hw h v READ hal"

text \<open>
  The generated \<^verbatim>\<open>operator<\<close>: field by field, vectors lexicographically; the ordered set of
  \<^verbatim>\<open>checkDuplicateRequests\<close> finds an element when neither is less than the other.
\<close>

fun lex_lt :: "('a \<Rightarrow> 'a \<Rightarrow> bool) \<Rightarrow> 'a list \<Rightarrow> 'a list \<Rightarrow> bool" where
  "lex_lt lt [] ys = (ys \<noteq> [])"
| "lex_lt lt (x # xs) [] = False"
| "lex_lt lt (x # xs) (y # ys) = (if lt x y then True else if lt y x then False else lex_lt lt xs ys)"

definition raw_lt :: "RawPropValues \<Rightarrow> RawPropValues \<Rightarrow> bool" where
  "raw_lt a b =
     (if int32Values a \<noteq> int32Values b then lex_lt (\<lambda>x y. sint x < sint y) (int32Values a) (int32Values b)
      else if \<not> list_all2 f32_eq (floatValues a) (floatValues b) then lex_lt f32_lt (floatValues a) (floatValues b)
      else if int64Values a \<noteq> int64Values b then lex_lt (\<lambda>x y. sint x < sint y) (int64Values a) (int64Values b)
      else if byteValues a \<noteq> byteValues b then lex_lt (\<lambda>x y. uint x < uint y) (byteValues a) (byteValues b)
      else if stringValue a \<noteq> stringValue b
      then lex_lt (\<lambda>x y. (of_char x :: nat) < of_char y) (stringValue a) (stringValue b)
      else False)"

definition prop_value_lt :: "VehiclePropValue \<Rightarrow> VehiclePropValue \<Rightarrow> bool" where
  "prop_value_lt a b =
     (if pv_timestamp a \<noteq> pv_timestamp b then sint (pv_timestamp a) < sint (pv_timestamp b)
      else if pv_areaId a \<noteq> pv_areaId b then sint (pv_areaId a) < sint (pv_areaId b)
      else if pv_prop a \<noteq> pv_prop b then sint (pv_prop a) < sint (pv_prop b)
      else if pv_status a \<noteq> pv_status b
      then sint (VehiclePropertyStatus_toInt (pv_status a)) < sint (VehiclePropertyStatus_toInt (pv_status b))
      else if \<not> raw_eq (pv_value a) (pv_value b) then raw_lt (pv_value a) (pv_value b)
      else False)"

fun check_duplicates :: "(int64 \<times> VehiclePropValue) list \<Rightarrow> VehiclePropValue list \<Rightarrow> int64 list option" where
  "check_duplicates [] requestProps = Some []"
| "check_duplicates ((requestId, prop) # rest) requestProps =
     (if list_ex (\<lambda>p. \<not> prop_value_lt p prop \<and> \<not> prop_value_lt prop p) requestProps then None
      else map_option (Cons requestId) (check_duplicates rest (requestProps @ [prop])))"

definition checkDuplicateRequests_get :: "GetValueRequest list \<Rightarrow> int64 list option" where
  "checkDuplicateRequests_get requests = check_duplicates (map (\<lambda>r. (gr_requestId r, gr_prop r)) requests) []"

definition checkDuplicateRequests_set :: "SetValueRequest list \<Rightarrow> int64 list option" where
  "checkDuplicateRequests_set requests = check_duplicates (map (\<lambda>r. (sr_requestId r, sr_value r)) requests) []"

section \<open>Clients\<close>

definition monitorBinderLifeCycleLocked :: "vhal_env \<Rightarrow> client_id \<Rightarrow> DefaultVehicleHal \<Rightarrow> bool \<times> DefaultVehicleHal" where
  "monitorBinderLifeCycleLocked env clientId v =
     (if clientId \<in> set (mOnBinderDiedContexts v) then (env_isAlive env clientId, v)
      else (env_linkToDeath env clientId, v\<lparr>mOnBinderDiedContexts := clientId # mOnBinderDiedContexts v\<rparr>))"

definition getOrCreateGetClient :: "IVehicleCallback \<Rightarrow> DefaultVehicleHal \<Rightarrow> client_id \<times> DefaultVehicleHal" where
  "getOrCreateGetClient cb v =
     (case map_of (mGetValuesClients v) (cbk_binder cb) of
        Some c \<Rightarrow> (c, v)
      | None \<Rightarrow> (mNextClient v, v\<lparr>mGetValuesClients := AList.update (cbk_binder cb) (mNextClient v) (mGetValuesClients v),
                                  mNextClient := mNextClient v + 1\<rparr>))"

definition getOrCreateSetClient :: "IVehicleCallback \<Rightarrow> DefaultVehicleHal \<Rightarrow> client_id \<times> DefaultVehicleHal" where
  "getOrCreateSetClient cb v =
     (case map_of (mSetValuesClients v) (cbk_binder cb) of
        Some c \<Rightarrow> (c, v)
      | None \<Rightarrow> (mNextClient v, v\<lparr>mSetValuesClients := AList.update (cbk_binder cb) (mNextClient v) (mSetValuesClients v),
                                  mNextClient := mNextClient v + 1\<rparr>))"

section \<open>Getting and setting values\<close>

text \<open>The loops that sort out the requests known to fail.\<close>

fun sort_get :: "(VehiclePropValue \<Rightarrow> unit VhalResult) \<Rightarrow> GetValueRequest list \<Rightarrow>
     GetValueResult list \<times> GetValueRequest list" where
  "sort_get permitted [] = ([], [])"
| "sort_get permitted (r # rs) =
     (let (failedResults, hardwareRequests) = sort_get permitted rs
      in case permitted (gr_prop r) of
           Inl err \<Rightarrow> (get_result (gr_requestId r) err # failedResults, hardwareRequests)
         | Inr _ \<Rightarrow> (failedResults, r # hardwareRequests))"

fun sort_set :: "(VehiclePropValue \<Rightarrow> unit VhalResult) \<Rightarrow> (VehiclePropValue \<Rightarrow> bool option) \<Rightarrow>
     SetValueRequest list \<Rightarrow> (SetValueResult list \<times> SetValueRequest list) option" where
  "sort_set permitted valid [] = Some ([], [])"
| "sort_set permitted valid (r # rs) =
     (case permitted (sr_value r) of
        Inl err \<Rightarrow> map_option (\<lambda>(f, q). (set_result (sr_requestId r) err # f, q)) (sort_set permitted valid rs)
      | Inr _ \<Rightarrow>
          case valid (sr_value r) of
            None \<Rightarrow> None
          | Some False \<Rightarrow>
              map_option (\<lambda>(f, q). (set_result (sr_requestId r) INVALID_ARG # f, q)) (sort_set permitted valid rs)
          | Some True \<Rightarrow> map_option (\<lambda>(f, q). (f, r # q)) (sort_set permitted valid rs))"

text \<open>What \<^verbatim>\<open>getValues\<close> and \<^verbatim>\<open>setValues\<close> do with the requests that are left.\<close>

definition forward_requests ::
  "vhal_env \<Rightarrow> int64 \<Rightarrow> IVehicleCallback \<Rightarrow> (IVehicleCallback \<Rightarrow> DefaultVehicleHal \<Rightarrow> client_id \<times> DefaultVehicleHal) \<Rightarrow>
     client_msg list \<Rightarrow> int64 list \<Rightarrow> ('h \<Rightarrow> StatusCode \<times> 'h) \<Rightarrow> DefaultVehicleHal \<times> 'h \<Rightarrow>
     ScopedAStatus \<times> sent \<times> DefaultVehicleHal \<times> 'h" where
  "forward_requests env now cb getClient failedMsgs hardwareRequestIds send st =
     (case st of (v0, h) \<Rightarrow>
        let (alive, v1) = monitorBinderLifeCycleLocked env (cbk_binder cb) v0
        in if \<not> alive then (EX_TRANSACTION_FAILED, [], v1, h)
           else
             let (client, v2) = getClient cb v1;
                 (added, pool) = client_addRequests client hardwareRequestIds now (mPendingRequestPool v2);
                 v3 = v2\<lparr>mPendingRequestPool := pool\<rparr>
             in case added of
                  Inl err \<Rightarrow> (ServiceSpecific err, [], v3, h)
                | Inr _ \<Rightarrow>
                    let out = map (Pair cb) failedMsgs
                    in if hardwareRequestIds = [] then (ST_OK, out, v3, h)
                       else let (status, h') = send h
                            in if status \<noteq> OK
                               then (ServiceSpecific status, out,
                                     v3\<lparr>mPendingRequestPool :=
                                          snd (client_tryFinishRequests client hardwareRequestIds (mPendingRequestPool v3))\<rparr>, h')
                               else (ST_OK, out, v3, h'))"

definition hal_getValues ::
  "vhal_env \<Rightarrow> 'h IVehicleHardware \<Rightarrow> int64 \<Rightarrow> IVehicleCallback option \<Rightarrow> GetValueRequest list \<Rightarrow>
     DefaultVehicleHal \<times> 'h \<Rightarrow> ScopedAStatus \<times> sent \<times> DefaultVehicleHal \<times> 'h" where
  "hal_getValues env hw now callback requests st =
     (case callback of
        None \<Rightarrow> (EX_NULL_POINTER, [], st)
      | Some cb \<Rightarrow>
          case checkDuplicateRequests_get requests of
            None \<Rightarrow> (ServiceSpecific INVALID_ARG, [], st)
          | Some _ \<Rightarrow>
              let (failedResults, hardwareRequests) =
                    sort_get (\<lambda>p. checkReadPermission env hw (snd st) p (fst st)) requests
              in forward_requests env now cb getOrCreateGetClient
                   (if failedResults \<noteq> [] then sendResults_get failedResults else [])
                   (remdups (map gr_requestId hardwareRequests)) (hw_getValues hw hardwareRequests) st)"

text \<open>\<open>None\<close>: one of the checked values makes the code read out of bounds.\<close>

definition hal_setValues ::
  "vhal_env \<Rightarrow> 'h IVehicleHardware \<Rightarrow> int64 \<Rightarrow> IVehicleCallback option \<Rightarrow> SetValueRequest list \<Rightarrow>
     DefaultVehicleHal \<times> 'h \<Rightarrow> (ScopedAStatus \<times> sent \<times> DefaultVehicleHal \<times> 'h) option" where
  "hal_setValues env hw now callback requests st =
     (case callback of
        None \<Rightarrow> Some (EX_NULL_POINTER, [], st)
      | Some cb \<Rightarrow>
          case checkDuplicateRequests_set requests of
            None \<Rightarrow> Some (ServiceSpecific INVALID_ARG, [], st)
          | Some _ \<Rightarrow>
              map_option (\<lambda>(failedResults, hardwareRequests).
                forward_requests env now cb getOrCreateSetClient
                  (if failedResults \<noteq> [] then sendResults_set failedResults else [])
                  (remdups (map sr_requestId hardwareRequests)) (hw_setValues hw hardwareRequests) st)
              (sort_set (\<lambda>p. checkWritePermission env hw (snd st) p (fst st))
                        (\<lambda>p. checkProperty env hw (snd st) p (fst st)) requests))"

text \<open>The answers of the hardware, through the result callback of the client object.\<close>

definition onGetValuesResult ::
  "IVehicleCallback \<Rightarrow> client_id \<Rightarrow> GetValueResult list \<Rightarrow> DefaultVehicleHal \<Rightarrow> sent \<times> DefaultVehicleHal" where
  "onGetValuesResult cb client results v =
     (let (msgs, pool) = getResultCallback_get client results (mPendingRequestPool v)
      in (map (Pair cb) msgs, v\<lparr>mPendingRequestPool := pool\<rparr>))"

definition onSetValuesResult ::
  "IVehicleCallback \<Rightarrow> client_id \<Rightarrow> SetValueResult list \<Rightarrow> DefaultVehicleHal \<Rightarrow> sent \<times> DefaultVehicleHal" where
  "onSetValuesResult cb client results v =
     (let (msgs, pool) = getResultCallback_set client results (mPendingRequestPool v)
      in (map (Pair cb) msgs, v\<lparr>mPendingRequestPool := pool\<rparr>))"

section \<open>Subscriptions\<close>

text \<open>The areas an option names, with the configurations found; \<open>None\<close> for an area the property lacks.\<close>

fun option_areas :: "VehiclePropConfig \<Rightarrow> int32 list \<Rightarrow> VehicleAreaConfig list option" where
  "option_areas config [] = Some []"
| "option_areas config (areaId # areaIds) =
     (case find (\<lambda>ac. ac_areaId ac = areaId) (areaConfigs config) of
        Some ac \<Rightarrow> map_option (Cons ac) (option_areas config areaIds)
      | None \<Rightarrow> if areaId \<noteq> 0 \<or> areaConfigs config \<noteq> [] then None else option_areas config areaIds)"

definition check_option ::
  "(f32 \<Rightarrow> f32) \<Rightarrow> (int32 \<times> VehiclePropConfig) list \<Rightarrow> SubscribeOptions \<Rightarrow> unit VhalResult" where
  "check_option log10f configsByPropId option =
     (case map_of configsByPropId (so_propId option) of
        None \<Rightarrow> Inl INVALID_ARG
      | Some config \<Rightarrow>
          case (if so_areaIds option = [] then Some (areaConfigs config)
                else option_areas config (so_areaIds option)) of
            None \<Rightarrow> Inl INVALID_ARG
          | Some areas \<Rightarrow>
              if changeMode config \<noteq> ON_CHANGE \<and> changeMode config \<noteq> CONTINUOUS then Inl INVALID_ARG
              else if \<not> hasRequiredAccess (pc_access config) READ \<and> \<not> areaConfigsHaveRequiredAccess areas READ
              then Inl ACCESS_DENIED
              else if changeMode config = CONTINUOUS \<and>
                      (\<not> checkSampleRateHz (let d = getDefaultSampleRateHz (so_sampleRate option) (minSampleRate config)
                                                   (maxSampleRate config)
                                           in if \<not> f32_eq (so_sampleRate option) d then d else so_sampleRate option) \<or>
                       \<not> checkResolution log10f (so_resolution option))
              then Inl INVALID_ARG
              else Inr ())"

fun checkSubscribeOptions ::
  "(f32 \<Rightarrow> f32) \<Rightarrow> SubscribeOptions list \<Rightarrow> (int32 \<times> VehiclePropConfig) list \<Rightarrow> unit VhalResult" where
  "checkSubscribeOptions log10f [] configsByPropId = Inr ()"
| "checkSubscribeOptions log10f (option # rest) configsByPropId =
     (case check_option log10f configsByPropId option of
        Inl err \<Rightarrow> Inl err | Inr _ \<Rightarrow> checkSubscribeOptions log10f rest configsByPropId)"

definition vur_supported :: "VehiclePropConfig \<Rightarrow> int32 \<Rightarrow> int32 \<Rightarrow> bool" where
  "vur_supported config propId areaId =
     (case getAreaConfig propId areaId config of None \<Rightarrow> False | Some ac \<Rightarrow> supportVariableUpdateRate ac)"

text \<open>The on-change and the continuous subscriptions one option turns into; \<^verbatim>\<open>at\<close> throws without a
  configuration, which the check before excludes.\<close>

definition parse_option ::
  "(int32 \<times> VehiclePropConfig) list \<Rightarrow> SubscribeOptions \<Rightarrow> (SubscribeOptions list \<times> SubscribeOptions list) option" where
  "parse_option configsByPropId option =
     (case map_of configsByPropId (so_propId option) of
        None \<Rightarrow> None
      | Some config \<Rightarrow>
          let propId = so_propId option;
              allAreas = (if so_areaIds option = [] \<and> \<not> isGlobalProp propId
                          then map ac_areaId (areaConfigs config) else so_areaIds option);
              copy = option\<lparr>so_areaIds := (if isGlobalProp propId then [0] else allAreas)\<rparr>
          in if changeMode config = CONTINUOUS
             then let rated = copy\<lparr>so_sampleRate := getDefaultSampleRateHz (so_sampleRate copy)
                                     (minSampleRate config) (maxSampleRate config)\<rparr>
                  in if \<not> so_enableVur rated then Some ([], [rated])
                     else let enabled = filter (vur_supported config propId) (so_areaIds rated);
                              disabled = filter (\<lambda>a. \<not> vur_supported config propId a) (so_areaIds rated)
                          in Some ([], (if enabled \<noteq> [] then [rated\<lparr>so_areaIds := enabled, so_enableVur := True\<rparr>] else [])
                                     @ (if disabled \<noteq> [] then [rated\<lparr>so_areaIds := disabled, so_enableVur := False\<rparr>] else []))
             else Some ([copy], []))"

fun parseSubscribeOptions ::
  "SubscribeOptions list \<Rightarrow> (int32 \<times> VehiclePropConfig) list \<Rightarrow> (SubscribeOptions list \<times> SubscribeOptions list) option" where
  "parseSubscribeOptions [] configsByPropId = Some ([], [])"
| "parseSubscribeOptions (option # rest) configsByPropId =
     Option.bind (parse_option configsByPropId option) (\<lambda>(oc1, ct1).
     Option.bind (parseSubscribeOptions rest configsByPropId) (\<lambda>(oc2, ct2). Some (oc1 @ oc2, ct1 @ ct2)))"

definition hal_subscribe ::
  "vhal_env \<Rightarrow> 'h IVehicleHardware \<Rightarrow> IVehicleCallback option \<Rightarrow> SubscribeOptions list \<Rightarrow>
     DefaultVehicleHal \<times> 'h \<Rightarrow> (ScopedAStatus \<times> DefaultVehicleHal \<times> 'h) option" where
  "hal_subscribe env hw callback options st =
     (case callback of
        None \<Rightarrow> Some (EX_NULL_POINTER, st)
      | Some cb \<Rightarrow>
          let (configs, v0) = getConfigsByPropId env hw (snd st) (fst st)
          in case checkSubscribeOptions (env_log10f env) options configs of
               Inl err \<Rightarrow> Some (ServiceSpecific err, v0, snd st)
             | Inr _ \<Rightarrow>
                 map_option (\<lambda>(onChange, continuous).
                   let (alive, v1) = monitorBinderLifeCycleLocked env (cbk_binder cb) v0
                   in if \<not> alive then (EX_TRANSACTION_FAILED, v1, snd st)
                      else
                        let (r1, m1, h1) = (if onChange \<noteq> []
                               then mgr_subscribe (env_log10f env) (hw_subscription hw) cb onChange False
                                      (mSubscriptionManager v1, snd st)
                               else (Inr (), mSubscriptionManager v1, snd st))
                        in case r1 of
                             Inl err \<Rightarrow> (ServiceSpecific err, v1\<lparr>mSubscriptionManager := m1\<rparr>, h1)
                           | Inr _ \<Rightarrow>
                               let (r2, m2, h2) = (if continuous \<noteq> []
                                      then mgr_subscribe (env_log10f env) (hw_subscription hw) cb continuous True (m1, h1)
                                      else (Inr (), m1, h1))
                               in (toScopedAStatus r2, v1\<lparr>mSubscriptionManager := m2\<rparr>, h2))
                 (parseSubscribeOptions options configs))"

definition hal_unsubscribe ::
  "'h IVehicleHardware \<Rightarrow> IVehicleCallback option \<Rightarrow> int32 list \<Rightarrow> DefaultVehicleHal \<times> 'h \<Rightarrow>
     ScopedAStatus \<times> DefaultVehicleHal \<times> 'h" where
  "hal_unsubscribe hw callback propIds st =
     (case callback of
        None \<Rightarrow> (EX_NULL_POINTER, st)
      | Some cb \<Rightarrow>
          let (r, m, h) = mgr_unsubscribe_props (hw_subscription hw) (cbk_binder cb) propIds
                            (mSubscriptionManager (fst st), snd st)
          in (toScopedAStatus r, (fst st)\<lparr>mSubscriptionManager := m\<rparr>, h))"

definition returnSharedMemory :: "IVehicleCallback option \<Rightarrow> int64 \<Rightarrow> ScopedAStatus" where
  "returnSharedMemory callback sharedMemoryId = ST_OK"

section \<open>Supported values\<close>

definition getAreaConfigForPropIdAreaId ::
  "vhal_env \<Rightarrow> 'h IVehicleHardware \<Rightarrow> 'h \<Rightarrow> int32 \<Rightarrow> int32 \<Rightarrow> DefaultVehicleHal \<Rightarrow> VehicleAreaConfig option" where
  "getAreaConfigForPropIdAreaId env hw h propId areaId v =
     (case hal_getConfig env hw h propId v of
        None \<Rightarrow> None | Some config \<Rightarrow> getAreaConfig propId areaId config)"

definition getHasSupportedValueInfo ::
  "vhal_env \<Rightarrow> 'h IVehicleHardware \<Rightarrow> 'h \<Rightarrow> int32 \<Rightarrow> int32 \<Rightarrow> DefaultVehicleHal \<Rightarrow> HasSupportedValueInfo option" where
  "getHasSupportedValueInfo env hw h propId areaId v =
     (case getAreaConfigForPropIdAreaId env hw h propId areaId v of
        None \<Rightarrow> None | Some areaConfig \<Rightarrow> ac_hasSupportedValueInfo areaConfig)"

text \<open>
  The loop both queries share: a result per request, kept for the hardware (its index is noted) when the
  area has the value asked for; then the answers are put where their requests were.
\<close>

fun classify ::
  "(PropIdAreaId \<Rightarrow> HasSupportedValueInfo option) \<Rightarrow> (HasSupportedValueInfo \<Rightarrow> bool) \<Rightarrow> (StatusCode \<Rightarrow> 'r) \<Rightarrow>
     nat \<Rightarrow> PropIdAreaId list \<Rightarrow> 'r list \<times> nat list \<times> PropIdAreaId list" where
  "classify info has mk counter [] = ([], [], [])"
| "classify info has mk counter (k # ks) =
     (let (results, counters, toHardware) = classify info has mk (Suc counter) ks
      in case info k of
           None \<Rightarrow> (mk INVALID_ARG # results, counters, toHardware)
         | Some i \<Rightarrow> if has i then (mk OK # results, counter # counters, k # toHardware)
                    else (mk OK # results, counters, toHardware))"

definition query_supported ::
  "(PropIdAreaId \<Rightarrow> HasSupportedValueInfo option) \<Rightarrow> (HasSupportedValueInfo \<Rightarrow> bool) \<Rightarrow> (StatusCode \<Rightarrow> 'r) \<Rightarrow>
     (PropIdAreaId list \<Rightarrow> 'r list) \<Rightarrow> PropIdAreaId list \<Rightarrow> 'r list VhalResult" where
  "query_supported info has mk ask keys =
     (let (results, counters, toHardware) = classify info has mk 0 keys
      in if toHardware = [] then Inr results
         else let fromHardware = ask toHardware
              in if length fromHardware \<noteq> length counters then Inl INTERNAL_ERROR
                 else Inr (fold (\<lambda>(i, r) rs. rs[i := r]) (zip counters fromHardware) results))"

definition getSupportedValuesLists ::
  "vhal_env \<Rightarrow> 'h IVehicleHardware \<Rightarrow> 'h \<Rightarrow> PropIdAreaId list \<Rightarrow> DefaultVehicleHal \<Rightarrow> SupportedValuesListResult list VhalResult" where
  "getSupportedValuesLists env hw h keys v =
     query_supported (\<lambda>k. getHasSupportedValueInfo env hw h (pa_propId k) (pa_areaId k) v) hasSupportedValuesList
       (\<lambda>st. \<lparr>sl_status = st, supportedValuesList = None\<rparr>) (\<lambda>ks. hw_getSupportedValuesLists hw ks h) keys"

definition getMinMaxSupportedValue ::
  "vhal_env \<Rightarrow> 'h IVehicleHardware \<Rightarrow> 'h \<Rightarrow> PropIdAreaId list \<Rightarrow> DefaultVehicleHal \<Rightarrow> MinMaxSupportedValueResult list VhalResult" where
  "getMinMaxSupportedValue env hw h keys v =
     query_supported (\<lambda>k. getHasSupportedValueInfo env hw h (pa_propId k) (pa_areaId k) v)
       (\<lambda>i. hasMinSupportedValue i \<or> hasMaxSupportedValue i)
       (\<lambda>st. \<lparr>mm_status = st, minSupportedValue = None, maxSupportedValue = None\<rparr>)
       (\<lambda>ks. hw_getMinMaxSupportedValues hw ks h) keys"

fun keys_to_register ::
  "(PropIdAreaId \<Rightarrow> HasSupportedValueInfo option) \<Rightarrow> PropIdAreaId list \<Rightarrow> PropIdAreaId list option" where
  "keys_to_register info [] = Some []"
| "keys_to_register info (k # ks) =
     (case info k of
        None \<Rightarrow> None
      | Some i \<Rightarrow>
          if \<not> hasMinSupportedValue i \<and> \<not> hasMaxSupportedValue i \<and> \<not> hasSupportedValuesList i
          then keys_to_register info ks
          else map_option (Cons k) (keys_to_register info ks))"

definition registerSupportedValueChangeCallback ::
  "vhal_env \<Rightarrow> 'h IVehicleHardware \<Rightarrow> IVehicleCallback \<Rightarrow> PropIdAreaId list \<Rightarrow> DefaultVehicleHal \<times> 'h \<Rightarrow>
     ScopedAStatus \<times> DefaultVehicleHal \<times> 'h" where
  "registerSupportedValueChangeCallback env hw cb keys st =
     (case st of (v, h) \<Rightarrow>
        case keys_to_register (\<lambda>k. getHasSupportedValueInfo env hw h (pa_propId k) (pa_areaId k) v) keys of
          None \<Rightarrow> (ServiceSpecific INVALID_ARG, v, h)
        | Some ks \<Rightarrow>
            if ks = [] then (ST_OK, v, h)
            else let (alive, v1) = monitorBinderLifeCycleLocked env (cbk_binder cb) v
                 in if \<not> alive then (EX_TRANSACTION_FAILED, v1, h)
                    else let (r, m, h') = subscribeSupportedValueChange (hw_subscription hw) cb ks (mSubscriptionManager v1, h)
                         in (toScopedAStatus r, v1\<lparr>mSubscriptionManager := m\<rparr>, h'))"

definition unregisterSupportedValueChangeCallback ::
  "'h IVehicleHardware \<Rightarrow> IVehicleCallback \<Rightarrow> PropIdAreaId list \<Rightarrow> DefaultVehicleHal \<times> 'h \<Rightarrow>
     ScopedAStatus \<times> DefaultVehicleHal \<times> 'h" where
  "unregisterSupportedValueChangeCallback hw cb keys st =
     (case st of (v, h) \<Rightarrow>
        let (r, m, h') = unsubscribeSupportedValueChange (hw_subscription hw) (cbk_binder cb) keys (mSubscriptionManager v, h)
        in (toScopedAStatus r, v\<lparr>mSubscriptionManager := m\<rparr>, h'))"

section \<open>Events\<close>

definition send_by_callback :: "('e list \<Rightarrow> client_msg list) \<Rightarrow> 'e by_callback \<Rightarrow> sent" where
  "send_by_callback send clients = concat (map (\<lambda>(cb, es). map (Pair cb) (send es)) clients)"

definition onPropertyChangeEvent ::
  "VehiclePropValue list \<Rightarrow> DefaultVehicleHal \<Rightarrow> (sent \<times> DefaultVehicleHal) option" where
  "onPropertyChangeEvent updatedValues v =
     map_option (\<lambda>(m, clients). (send_by_callback sendUpdatedValues clients, v\<lparr>mSubscriptionManager := m\<rparr>))
       (getSubscribedClients updatedValues (mSubscriptionManager v))"

definition batchPropertyChangeEvent ::
  "VehiclePropValue list \<Rightarrow> VehiclePropValue ConcurrentQueue option \<Rightarrow> VehiclePropValue ConcurrentQueue option" where
  "batchPropertyChangeEvent updatedValues batchedEventQueue = map_option (queue_push_all updatedValues) batchedEventQueue"

definition handleBatchedPropertyEvents ::
  "VehiclePropValue list \<Rightarrow> DefaultVehicleHal \<Rightarrow> (sent \<times> DefaultVehicleHal) option" where
  "handleBatchedPropertyEvents batchedEvents v = onPropertyChangeEvent batchedEvents v"

definition onPropertySetErrorEvent :: "SetValueErrorEvent list \<Rightarrow> DefaultVehicleHal \<Rightarrow> sent" where
  "onPropertySetErrorEvent errorEvents v =
     send_by_callback sendPropertySetErrors (getSubscribedClientsForErrorEvents errorEvents (mSubscriptionManager v))"

definition onSupportedValueChange :: "PropIdAreaId list \<Rightarrow> DefaultVehicleHal \<Rightarrow> sent" where
  "onSupportedValueChange keys v =
     send_by_callback sendSupportedValueChangeEvents
       (getSubscribedClientsForSupportedValueChange keys (mSubscriptionManager v))"

definition VHAL_HEARTBEAT :: int32 where "VHAL_HEARTBEAT = 0x11500F33"

definition hal_checkHealth ::
  "'h IVehicleHardware \<Rightarrow> int64 \<Rightarrow> DefaultVehicleHal \<times> 'h \<Rightarrow> (sent \<times> DefaultVehicleHal) option" where
  "hal_checkHealth hw uptimeMillis st =
     (if hw_checkHealth hw (snd st) \<noteq> OK then Some ([], fst st)
      else onPropertyChangeEvent
             [empty_prop_value\<lparr>pv_areaId := 0, pv_prop := VHAL_HEARTBEAT, pv_status := AVAILABLE,
                pv_value := empty_raw\<lparr>int64Values := [uptimeMillis]\<rparr>\<rparr>] (fst st))"

section \<open>Death of clients\<close>

definition onBinderDied :: "client_id \<Rightarrow> DefaultVehicleHal \<Rightarrow> DefaultVehicleHal" where
  "onBinderDied clientId v =
     v\<lparr>mBinderEvents := queue_push \<lparr>forOnBinderDied = True, ev_clientId = clientId\<rparr> (mBinderEvents v)\<rparr>"

definition onBinderUnlinked :: "client_id \<Rightarrow> DefaultVehicleHal \<Rightarrow> DefaultVehicleHal" where
  "onBinderUnlinked clientId v =
     v\<lparr>mBinderEvents := queue_push \<lparr>forOnBinderDied = False, ev_clientId = clientId\<rparr> (mBinderEvents v)\<rparr>"

definition onBinderDiedWithContext :: "'h IVehicleHardware \<Rightarrow> client_id \<Rightarrow> DefaultVehicleHal \<times> 'h \<Rightarrow> DefaultVehicleHal \<times> 'h" where
  "onBinderDiedWithContext hw clientId st =
     (case st of (v, h) \<Rightarrow>
        let (_, m, h') = mgr_unsubscribe (hw_subscription hw) clientId (mSubscriptionManager v, h)
        in (v\<lparr>mSetValuesClients := AList.delete clientId (mSetValuesClients v),
              mGetValuesClients := AList.delete clientId (mGetValuesClients v), mSubscriptionManager := m\<rparr>, h'))"

definition onBinderUnlinkedWithContext :: "client_id \<Rightarrow> DefaultVehicleHal \<Rightarrow> DefaultVehicleHal" where
  "onBinderUnlinkedWithContext clientId v =
     v\<lparr>mOnBinderDiedContexts := removeAll clientId (mOnBinderDiedContexts v)\<rparr>"

definition handle_binder_event ::
  "'h IVehicleHardware \<Rightarrow> BinderDiedUnlinkedEvent \<Rightarrow> DefaultVehicleHal \<times> 'h \<Rightarrow> DefaultVehicleHal \<times> 'h" where
  "handle_binder_event hw event st =
     (if forOnBinderDied event then onBinderDiedWithContext hw (ev_clientId event) st
      else (onBinderUnlinkedWithContext (ev_clientId event) (fst st), snd st))"

text \<open>One turn of the handler thread; \<open>None\<close> when it waits or, the queue being deactivated, has ended.\<close>

definition onBinderDiedUnlinkedHandler ::
  "'h IVehicleHardware \<Rightarrow> DefaultVehicleHal \<times> 'h \<Rightarrow> (DefaultVehicleHal \<times> 'h) option" where
  "onBinderDiedUnlinkedHandler hw st =
     (case waitForItems (mBinderEvents (fst st)) of
        Some True \<Rightarrow>
          let (events, queue) = flush (mBinderEvents (fst st))
          in Some (fold (handle_binder_event hw) events ((fst st)\<lparr>mBinderEvents := queue\<rparr>, snd st))
      | _ \<Rightarrow> None)"

section \<open>Diagnostics\<close>

datatype dump_output = DumpDenied | DumpBuffer string | DumpState int nat nat nat nat nat

definition checkDumpPermission :: "int \<Rightarrow> bool" where
  "checkDumpPermission uid \<longleftrightarrow> uid = 0 \<or> uid = 2000 \<or> uid = 1000"

definition hal_dump ::
  "vhal_env \<Rightarrow> 'h IVehicleHardware \<Rightarrow> int \<Rightarrow> string list \<Rightarrow> DefaultVehicleHal \<times> 'h \<Rightarrow>
     dump_output list \<times> DefaultVehicleHal \<times> 'h" where
  "hal_dump env hw uid args st =
     (if \<not> checkDumpPermission uid then ([DumpDenied], st)
      else
        let options = (if length args = 1 \<and> hd args = ''-a'' then [] else args);
            (result, h) = hw_dump hw options (snd st);
            v = (if refreshPropertyConfigs result then getAllPropConfigsFromHardwareLocked env hw h (fst st) else fst st)
        in if \<not> callerShouldDumpState result then ([DumpBuffer (dump_buffer result)], v, h)
           else let (configs, v') = getConfigsByPropId env hw h v
                in ([DumpBuffer (dump_buffer result),
                     DumpState (getVhalInterfaceVersion v') (length configs) (length (mGetValuesClients v'))
                       (length (mSetValuesClients v')) (countPropertyChangeClients (mSubscriptionManager v'))
                       (countSupportedValueChangeClients (mSubscriptionManager v'))], v', h))"

definition countClients :: "DefaultVehicleHal \<Rightarrow> nat" where
  "countClients v =
     length (mGetValuesClients v) + length (mSetValuesClients v) +
     countPropertyChangeClients (mSubscriptionManager v) + countSupportedValueChangeClients (mSubscriptionManager v)"

end
