(* ===== verification/VehicleHalProofs.thy ===== *)
theory VehicleHalProofs
  imports DefaultVehicleHal
begin

text \<open>
  What the service of \<^verbatim>\<open>DefaultVehicleHal.cpp\<close> guarantees: which requests of a batch are answered at once, which
  reach the hardware and become pending; when a batch counts as holding duplicates; that validated
  subscriptions are valid for the subscription manager; that answers of the hardware about supported values
  land at the requests they belong to; and that a client whose death was handled hears nothing more.
\<close>

section \<open>Sorting requests\<close>

lemma sort_get_eq:
  "sort_get permitted rs =
     (map (\<lambda>r. get_result (gr_requestId r) (projl (permitted (gr_prop r)))) (filter (\<lambda>r. \<not> isl_ok (permitted (gr_prop r))) rs),
      filter (\<lambda>r. isl_ok (permitted (gr_prop r))) rs)"
  if "isl_ok = (\<lambda>x :: unit VhalResult. x = Inr ())"
  unfolding that by (induction rs) (auto split: sum.splits)

text \<open>A set request passes when it may be written and its value is valid.\<close>

definition set_passes ::
  "(VehiclePropValue \<Rightarrow> unit VhalResult) \<Rightarrow> (VehiclePropValue \<Rightarrow> bool option) \<Rightarrow> SetValueRequest \<Rightarrow> bool" where
  "set_passes permitted valid r \<longleftrightarrow> permitted (sr_value r) = Inr () \<and> valid (sr_value r) = Some True"

definition set_error ::
  "(VehiclePropValue \<Rightarrow> unit VhalResult) \<Rightarrow> SetValueRequest \<Rightarrow> StatusCode" where
  "set_error permitted r = (case permitted (sr_value r) of Inl err \<Rightarrow> err | Inr _ \<Rightarrow> INVALID_ARG)"

lemma sort_set_eq:
  "sort_set permitted valid rs = Some (f, q) \<Longrightarrow>
     q = filter (set_passes permitted valid) rs \<and>
     f = map (\<lambda>r. set_result (sr_requestId r) (set_error permitted r)) (filter (\<lambda>r. \<not> set_passes permitted valid r) rs)"
  by (induction rs arbitrary: f q)
    (auto simp: set_passes_def set_error_def split: sum.splits option.splits bool.splits)

section \<open>Forwarding\<close>

abbreviation hal_pending :: "DefaultVehicleHal \<Rightarrow> client_id \<Rightarrow> int64 set" where
  "hal_pending v \<equiv> pending_ids (mPendingRequestPool v)"

text \<open>What finding or making a client object changes.\<close>

definition client_finder :: "(IVehicleCallback \<Rightarrow> DefaultVehicleHal \<Rightarrow> client_id \<times> DefaultVehicleHal) \<Rightarrow> bool" where
  "client_finder f \<longleftrightarrow> (\<forall>cb v. mPendingRequestPool (snd (f cb v)) = mPendingRequestPool v \<and>
     mSubscriptionManager (snd (f cb v)) = mSubscriptionManager v)"

lemma finders: "client_finder getOrCreateGetClient" "client_finder getOrCreateSetClient"
  by (auto simp: client_finder_def getOrCreateGetClient_def getOrCreateSetClient_def split: option.split)

lemma monitor_frame [simp]:
  "mPendingRequestPool (snd (monitorBinderLifeCycleLocked env c v)) = mPendingRequestPool v"
  "mSubscriptionManager (snd (monitorBinderLifeCycleLocked env c v)) = mSubscriptionManager v"
  by (auto simp: monitorBinderLifeCycleLocked_def)

lemma forward_spec:
  assumes inv: "rp_inv (mPendingRequestPool v)" and ids: "distinct ids" "length ids < 2 ^ 64"
    and f: "client_finder getClient"
    and fwd: "forward_requests env now cb getClient msgs ids send (v, h) = (status, out, v', h')"
  shows "rp_inv (mPendingRequestPool v') \<and>
    (if status = ST_OK
     then out = map (Pair cb) msgs \<and>
       (\<exists>c. hal_pending v' = (hal_pending v)(c := hal_pending v c \<union> set ids) \<and> hal_pending v c \<inter> set ids = {}) \<and>
       (if ids = [] then h' = h else send h = (OK, h'))
     else hal_pending v' = hal_pending v)"
proof -
  obtain alive v1 where mon: "monitorBinderLifeCycleLocked env (cbk_binder cb) v = (alive, v1)" by fastforce
  obtain c v2 where cl: "getClient cb v1 = (c, v2)" by fastforce
  have p1: "mPendingRequestPool v1 = mPendingRequestPool v" using monitor_frame(1) [of env "cbk_binder cb" v] mon by simp
  have p2: "mPendingRequestPool v2 = mPendingRequestPool v"
    using f cl p1 unfolding client_finder_def by (metis snd_conv)
  obtain res pool where add: "pool_addRequests c ids c now (mPendingRequestPool v) = (res, pool)" by fastforce
  obtain found pool' where fin: "pool_tryFinishRequests c ids pool = (found, pool')" by fastforce
  obtain st h1 where sd: "send h = (st, h1)" by fastforce
  note a = add_reqs(1) [OF inv ids(2) add] req_pool.add_pend [OF inv ids(2) add] req_pool.add_ok [OF inv ids add]
  have disj: "hal_pending v c \<inter> set ids = {}" if "res = Inr ()"
    using a(1) that by (auto simp: add_result_def split: if_splits)
  note b = req_pool.finish_pend [OF fin] req_pool.finish_ok [OF a(3) fin]
  have restored: "pending_ids pool' = hal_pending v" if "res = Inr ()"
    using b(1) a(2) disj [OF that] that by (auto simp: fun_eq_iff)
  show ?thesis
    using fwd a(2,3) b(2) disj restored inv p1
    by (cases "alive"; cases res)
      (auto simp: forward_requests_def mon cl p2 add fin sd client_addRequests_def client_tryFinishRequests_def Let_def
        split: if_splits)
qed

section \<open>Duplicate requests\<close>

lemma lex_lt_total:
  assumes "\<And>x y. x \<in> set xs \<Longrightarrow> y \<in> set ys \<Longrightarrow> lt x y \<or> lt y x \<or> eqv x y"
    and "\<And>x y. eqv x y \<Longrightarrow> \<not> lt x y \<and> \<not> lt y x"
    and "\<And>x y. lt x y \<Longrightarrow> \<not> lt y x"
  shows "\<not> lex_lt lt xs ys \<and> \<not> lex_lt lt ys xs \<longleftrightarrow> list_all2 eqv xs ys"
  using assms(1)
proof (induction xs arbitrary: ys)
  case Nil
  then show ?case by (cases ys) auto
next
  case (Cons x xs)
  show ?case
  proof (cases ys)
    case Nil
    then show ?thesis by simp
  next
    case ys: (Cons y ys')
    have IH: "\<not> lex_lt lt xs ys' \<and> \<not> lex_lt lt ys' xs \<longleftrightarrow> list_all2 eqv xs ys'"
      using Cons.prems ys by (intro Cons.IH) auto
    show ?thesis
    proof (cases "eqv x y")
      case True
      with assms(2) [OF True] IH ys show ?thesis by auto
    next
      case False
      with Cons.prems [of x y] ys assms(3) [of x y] assms(3) [of y x] show ?thesis by auto
    qed
  qed
qed

lemma lex_lt_key:
  fixes key :: "'a \<Rightarrow> 'b :: linorder"
  assumes "\<And>x y. key x = key y \<Longrightarrow> x = y"
  shows "\<not> lex_lt (\<lambda>x y. key x < key y) xs ys \<and> \<not> lex_lt (\<lambda>x y. key x < key y) ys xs \<longleftrightarrow> xs = ys"
proof -
  have "\<not> lex_lt (\<lambda>x y. key x < key y) xs ys \<and> \<not> lex_lt (\<lambda>x y. key x < key y) ys xs \<longleftrightarrow> list_all2 (=) xs ys"
  proof (rule lex_lt_total)
    show "key x < key y \<or> key y < key x \<or> x = y" for x y
      using assms [of x y] by (metis linorder_less_linear)
  qed auto
  then show ?thesis by (simp add: list.rel_eq)
qed

lemma lex_lt_float:
  assumes "list_all (\<lambda>x. \<not> f32_is_nan x) xs" and "list_all (\<lambda>x. \<not> f32_is_nan x) ys"
  shows "\<not> lex_lt f32_lt xs ys \<and> \<not> lex_lt f32_lt ys xs \<longleftrightarrow> list_all2 f32_eq xs ys"
proof (rule lex_lt_total)
  show "f32_lt x y \<or> f32_lt y x \<or> f32_eq x y" if "x \<in> set xs" "y \<in> set ys" for x y
    using assms that f32_trichotomy [of x y] by (auto simp: list_all_iff)
qed (auto simp: f32_cmp_defs)

text \<open>One field of a field-by-field comparison, and the last one.\<close>

lemma compare_field:
  assumes "E' = E" and "(\<not> L1 \<and> \<not> L2) = E" and "(\<not> R1 \<and> \<not> R2) = Q"
  shows "(\<not> (if \<not> E then L1 else R1) \<and> \<not> (if \<not> E' then L2 else R2)) = (E \<and> Q)"
  using assms by auto

lemma compare_last:
  assumes "E' = E" and "(\<not> L1 \<and> \<not> L2) = E"
  shows "(\<not> (if \<not> E then L1 else False) \<and> \<not> (if \<not> E' then L2 else False)) = E"
  using assms by auto

lemma raw_equiv:
  assumes "no_nan a" and "no_nan b"
  shows "\<not> raw_lt a b \<and> \<not> raw_lt b a \<longleftrightarrow> raw_eq a b"
proof -
  have i32: "\<not> lex_lt (\<lambda>x y. sint x < sint y) xs ys \<and> \<not> lex_lt (\<lambda>x y. sint x < sint y) ys xs \<longleftrightarrow> xs = ys" for xs ys :: "int32 list"
    by (rule lex_lt_key) (simp add: signed_word_eqI)
  have i64: "\<not> lex_lt (\<lambda>x y. sint x < sint y) xs ys \<and> \<not> lex_lt (\<lambda>x y. sint x < sint y) ys xs \<longleftrightarrow> xs = ys" for xs ys :: "int64 list"
    by (rule lex_lt_key) (simp add: signed_word_eqI)
  have by8: "\<not> lex_lt (\<lambda>x y. uint x < uint y) xs ys \<and> \<not> lex_lt (\<lambda>x y. uint x < uint y) ys xs \<longleftrightarrow> xs = ys" for xs ys :: "byte list"
    by (rule lex_lt_key) (simp add: word_uint_eq_iff)
  have str: "\<not> lex_lt (\<lambda>x y. (of_char x :: nat) < of_char y) xs ys \<and> \<not> lex_lt (\<lambda>x y. (of_char x :: nat) < of_char y) ys xs \<longleftrightarrow> xs = ys" for xs ys
    by (rule lex_lt_key) simp
  note fl = lex_lt_float [of "floatValues a" "floatValues b"]
  have sym: "list_all2 f32_eq (floatValues b) (floatValues a) = list_all2 f32_eq (floatValues a) (floatValues b)"
    by (auto simp: list_all2_conv_all_nth f32_eq_sym)
  show ?thesis
    unfolding raw_lt_def raw_eq_def
    by (rule compare_field [OF _ i32 compare_field [OF _ fl compare_field [OF _ i64
        compare_field [OF _ by8 compare_last [OF _ str]]]]])
      (use sym assms in \<open>auto simp: no_nan_def\<close>)
qed

lemma prop_value_equiv:
  assumes "no_nan (pv_value a)" and "no_nan (pv_value b)"
  shows "\<not> prop_value_lt a b \<and> \<not> prop_value_lt b a \<longleftrightarrow>
    pv_timestamp a = pv_timestamp b \<and> pv_areaId a = pv_areaId b \<and> pv_prop a = pv_prop b \<and>
    pv_status a = pv_status b \<and> raw_eq (pv_value a) (pv_value b)"
proof -
  have st: "VehiclePropertyStatus_toInt x \<noteq> VehiclePropertyStatus_toInt y" if "x \<noteq> y" for x y
    using that by (cases x; cases y) auto
  show ?thesis
    unfolding prop_value_lt_def
    by (rule compare_field compare_last)+
      (use sint_neq st raw_equiv [OF assms] raw_eq_sym in \<open>auto dest: sint_neq\<close>)
qed

text \<open>Two requests are for the same property value: the generated \<^verbatim>\<open>operator==\<close>.\<close>

definition same_request :: "VehiclePropValue \<Rightarrow> VehiclePropValue \<Rightarrow> bool" where
  "same_request a b \<longleftrightarrow> pv_timestamp a = pv_timestamp b \<and> pv_areaId a = pv_areaId b \<and>
     pv_prop a = pv_prop b \<and> pv_status a = pv_status b \<and> raw_eq (pv_value a) (pv_value b)"

lemma check_duplicates_iff:
  assumes "\<And>i p. (i, p) \<in> set xs \<Longrightarrow> no_nan (pv_value p)" and "\<And>p. p \<in> set seen \<Longrightarrow> no_nan (pv_value p)"
  shows "check_duplicates xs seen = (if (\<forall>p \<in> set seen. \<forall>x \<in> set xs. \<not> same_request p (snd x)) \<and>
      sorted_wrt (\<lambda>x y. \<not> same_request (snd x) (snd y)) xs then Some (map fst xs) else None)"
  using assms
proof (induction xs arbitrary: seen)
  case Nil
  then show ?case by simp
next
  case (Cons x xs)
  obtain i p where x: "x = (i, p)" by fastforce
  have np: "no_nan (pv_value p)" using Cons.prems(1) [of i p] x by simp
  have eqv: "(\<not> prop_value_lt q p \<and> \<not> prop_value_lt p q) = same_request q p" if "q \<in> set seen" for q
    using prop_value_equiv [OF Cons.prems(2) [OF that] np] by (simp add: same_request_def)
  have IH: "check_duplicates xs (seen @ [p]) = (if (\<forall>q \<in> set (seen @ [p]). \<forall>x \<in> set xs. \<not> same_request q (snd x)) \<and>
      sorted_wrt (\<lambda>x y. \<not> same_request (snd x) (snd y)) xs then Some (map fst xs) else None)"
    using Cons.prems np by (intro Cons.IH) auto
  have ex: "list_ex (\<lambda>q. \<not> prop_value_lt q p \<and> \<not> prop_value_lt p q) seen = (\<exists>q \<in> set seen. same_request q p)"
    using eqv by (auto simp: list_ex_iff)
  show ?case unfolding x check_duplicates.simps ex IH by (auto simp: x)
qed

section \<open>Subscribe options\<close>

lemma checkSubscribeOptions_ok:
  "checkSubscribeOptions f opts configs = Inr () \<longleftrightarrow> list_all (\<lambda>opt. check_option f configs opt = Inr ()) opts"
  by (induction opts) (auto split: sum.splits)

lemma default_rate: "(if \<not> f32_eq r (getDefaultSampleRateHz r mn mx) then getDefaultSampleRateHz r mn mx else r)
    = getDefaultSampleRateHz r mn mx"
  by (auto simp: getDefaultSampleRateHz_def f32_cmp_defs split: if_splits)

lemma check_option_cases:
  assumes "check_option f configs opt = Inr ()"
  obtains config where "map_of configs (so_propId opt) = Some config"
    and "changeMode config \<in> {ON_CHANGE, CONTINUOUS}"
    and "changeMode config = CONTINUOUS \<longrightarrow> checkResolution f (so_resolution opt) \<and>
      checkSampleRateHz (getDefaultSampleRateHz (so_sampleRate opt) (minSampleRate config) (maxSampleRate config))"
  using assms unfolding check_option_def Let_def default_rate
  by (auto split: option.splits if_splits)

text \<open>The areas an option stands for once it is parsed.\<close>

definition parsed_areas :: "VehiclePropConfig \<Rightarrow> SubscribeOptions \<Rightarrow> int32 list" where
  "parsed_areas config opt =
     (if isGlobalProp (so_propId opt) then [0]
      else if so_areaIds opt = [] then map ac_areaId (areaConfigs config) else so_areaIds opt)"

lemma parse_option_valid:
  assumes ok: "check_option f configs opt = Inr ()"
    and areas: "\<And>config. map_of configs (so_propId opt) = Some config \<Longrightarrow> parsed_areas config opt \<noteq> []"
  shows "\<exists>oc ct. parse_option configs opt = Some (oc, ct) \<and>
    list_all (option_valid f False) oc \<and> list_all (option_valid f True) ct"
proof -
  obtain config where c: "map_of configs (so_propId opt) = Some config"
    and "changeMode config \<in> {ON_CHANGE, CONTINUOUS}"
    and rate: "changeMode config = CONTINUOUS \<longrightarrow> checkResolution f (so_resolution opt) \<and>
      checkSampleRateHz (getDefaultSampleRateHz (so_sampleRate opt) (minSampleRate config) (maxSampleRate config))"
    by (rule check_option_cases [OF ok])
  have eq: "(if isGlobalProp (so_propId opt) then [0]
      else if so_areaIds opt = [] \<and> \<not> isGlobalProp (so_propId opt) then map ac_areaId (areaConfigs config)
      else so_areaIds opt) = parsed_areas config opt"
    by (simp add: parsed_areas_def)
  show ?thesis
    using areas [OF c] rate unfolding parse_option_def c option.case Let_def eq
    by (auto simp: option_valid_def)
qed

lemma parse_options_valid:
  assumes "checkSubscribeOptions f opts configs = Inr ()"
    and "\<And>opt config. opt \<in> set opts \<Longrightarrow> map_of configs (so_propId opt) = Some config \<Longrightarrow> parsed_areas config opt \<noteq> []"
  shows "\<exists>oc ct. parseSubscribeOptions opts configs = Some (oc, ct) \<and>
    list_all (option_valid f False) oc \<and> list_all (option_valid f True) ct"
  using assms unfolding checkSubscribeOptions_ok
proof (induction opts)
  case Nil
  then show ?case by simp
next
  case (Cons opt opts)
  then have "\<exists>oc ct. parse_option configs opt = Some (oc, ct) \<and>
    list_all (option_valid f False) oc \<and> list_all (option_valid f True) ct"
    by (intro parse_option_valid) auto
  with Cons show ?case by fastforce
qed

text \<open>Variable update rate survives parsing only where the area supports it.\<close>

lemma parse_option_vur:
  assumes "parse_option configs opt = Some (oc, ct)" and "o' \<in> set ct" and "so_enableVur o'"
    and "map_of configs (so_propId opt) = Some config" and "a \<in> set (so_areaIds o')"
  shows "so_enableVur opt \<and> vur_supported config (so_propId opt) a"
  using assms by (auto simp: parse_option_def Let_def split: if_splits)

section \<open>Supported values\<close>

text \<open>What each request gets, in the order of the requests.\<close>

lemma classify_spec:
  "classify info has mk n ks = (results, counters, toHw) \<Longrightarrow>
     results = map (\<lambda>k. mk (if info k = None then INVALID_ARG else OK)) ks \<and>
     toHw = filter (\<lambda>k. \<exists>i. info k = Some i \<and> has i) ks \<and>
     counters = map (\<lambda>j. j + n) (filter (\<lambda>j. \<exists>i. info (ks ! j) = Some i \<and> has i) [0..<length ks])"
proof (induction ks arbitrary: n results counters toHw)
  case Nil
  then show ?case by simp
next
  case (Cons k ks)
  obtain rs cs hs where c: "classify info has mk (Suc n) ks = (rs, cs, hs)" by (metis prod_cases3)
  note IH = Cons.IH [OF c]
  have upt: "[0..<length (k # ks)] = 0 # map Suc [0..<length ks]"
    by (simp add: map_Suc_upt upt_conv_Cons del: upt_Suc)
  show ?case
    using Cons.prems IH unfolding upt
    by (auto simp: c filter_map comp_def split: option.splits if_splits)
qed

lemma fold_update_at:
  assumes "distinct cs" and "length vs = length cs" and "\<forall>c \<in> set cs. c < length rs"
  shows "length (fold (\<lambda>(i, r) rs. rs[i := r]) (zip cs vs) rs) = length rs \<and>
    map (\<lambda>j. fold (\<lambda>(i, r) rs. rs[i := r]) (zip cs vs) rs ! j) cs = vs \<and>
    (\<forall>j. j \<notin> set cs \<longrightarrow> fold (\<lambda>(i, r) rs. rs[i := r]) (zip cs vs) rs ! j = rs ! j)"
  using assms
proof (induction cs arbitrary: vs rs)
  case Nil
  then show ?case by simp
next
  case (Cons c cs)
  then obtain w vs' where vs: "vs = w # vs'" by (cases vs) auto
  have "length (fold (\<lambda>(i, r) rs. rs[i := r]) (zip cs vs') (rs[c := w])) = length (rs[c := w]) \<and>
    map (\<lambda>j. fold (\<lambda>(i, r) rs. rs[i := r]) (zip cs vs') (rs[c := w]) ! j) cs = vs' \<and>
    (\<forall>j. j \<notin> set cs \<longrightarrow> fold (\<lambda>(i, r) rs. rs[i := r]) (zip cs vs') (rs[c := w]) ! j = rs[c := w] ! j)"
    using Cons.prems vs by (intro Cons.IH) auto
  with Cons.prems show ?case by (auto simp: vs)
qed

lemma query_supported_spec:
  assumes "query_supported info has mk ask ks = Inr results"
  defines "asked \<equiv> filter (\<lambda>j. \<exists>i. info (ks ! j) = Some i \<and> has i) [0..<length ks]"
  shows "length results = length ks \<and>
    (\<forall>j < length ks. j \<notin> set asked \<longrightarrow> results ! j = mk (if info (ks ! j) = None then INVALID_ARG else OK)) \<and>
    (asked \<noteq> [] \<longrightarrow> map (\<lambda>j. results ! j) asked = ask (filter (\<lambda>k. \<exists>i. info k = Some i \<and> has i) ks))"
proof -
  obtain rs cs hs where c: "classify info has mk 0 ks = (rs, cs, hs)" by (metis prod_cases3)
  note spec = classify_spec [OF c]
  have cs: "cs = asked" using spec by (simp add: asked_def)
  have len: "length rs = length ks" and rs: "\<And>j. j < length ks \<Longrightarrow> rs ! j = mk (if info (ks ! j) = None then INVALID_ARG else OK)"
    using spec by auto
  have hs: "hs = map (\<lambda>j. ks ! j) asked"
  proof -
    have "filter P ks = map (\<lambda>j. ks ! j) (filter (\<lambda>j. P (ks ! j)) [0..<length ks])" for P
      using filter_map [of P "\<lambda>j. ks ! j" "[0..<length ks]"] by (simp add: map_nth comp_def)
    then show ?thesis using spec by (simp add: asked_def)
  qed
  show ?thesis
  proof (cases "asked = []")
    case True
    with assms(1) c hs rs len show ?thesis by (auto simp: query_supported_def)
  next
    case False
    then have lr: "length (ask hs) = length asked"
      and r: "results = fold (\<lambda>(i, r) rs. rs[i := r]) (zip asked (ask hs)) rs"
      using assms(1) c hs cs by (auto simp: query_supported_def Let_def split: if_splits)
    have "distinct asked" "\<forall>j \<in> set asked. j < length rs" using len by (auto simp: asked_def)
    from fold_update_at [OF this(1) lr this(2)] r rs len spec show ?thesis by auto
  qed
qed

section \<open>Events reach subscribers only\<close>

lemma push_keys: "fst ` set (push_to cb e out) = insert cb (fst ` set out)"
  by (simp add: push_to_def keys_update)

lemma notify_keys:
  assumes "notify_client v e (Some (m, out)) = Some (m', out')"
  shows "fst ` set out' \<subseteq> insert (snd e) (fst ` set out)"
proof -
  have "out' = out \<or> (\<exists>w. out' = push_to (snd e) w out)"
    using assms by (auto simp: notify_client_def Let_def bind_eq_Some_conv split: if_splits prod.splits)
  then show ?thesis using push_keys by (metis order_refl subset_insertI)
qed

lemma fold_notify_keys:
  "fold (notify_client v) es (Some (m, out)) = Some (m', out') \<Longrightarrow> fst ` set out' \<subseteq> snd ` set es \<union> fst ` set out"
proof (induction es arbitrary: m out)
  case Nil
  then show ?case by simp
next
  case (Cons e es)
  then obtain m1 out1 where one: "notify_client v e (Some (m, out)) = Some (m1, out1)"
    by (cases "notify_client v e (Some (m, out))") auto
  with Cons.prems have "fst ` set out' \<subseteq> snd ` set es \<union> fst ` set out1" by (intro Cons.IH) simp
  also have "\<dots> \<subseteq> snd ` set es \<union> insert (snd e) (fst ` set out)" using notify_keys [OF one] by blast
  finally show ?case by simp
qed

lemma getSubscribedClients_keys:
  assumes "getSubscribedClients vs m = Some (m', out)" and "cb \<in> fst ` set out"
  shows "\<exists>v \<in> set vs. cb \<in> snd ` set (subscribers m (value_key v))"
proof -
  let ?f = "\<lambda>v st. Option.bind st (\<lambda>(m, out). fold (notify_client v)
               (subscribers m \<lparr>pa_propId = pv_prop v, pa_areaId = pv_areaId v\<rparr>) (Some (m, out)))"
  have none: "fold ?f vs None = None" for vs by (induction vs) auto
  have run: "\<lbrakk>fold ?f vs (Some (n, out0)) = Some (m', out); \<And>k. subscribers n k = subscribers m k\<rbrakk> \<Longrightarrow>
      cb \<in> fst ` set out0 \<or> (\<exists>v \<in> set vs. cb \<in> snd ` set (subscribers m (value_key v)))" for n out0
  proof (induction vs arbitrary: n out0)
    case Nil
    with assms(2) show ?case by simp
  next
    case (Cons v vs)
    then obtain m1 out1 where one: "?f v (Some (n, out0)) = Some (m1, out1)"
      by (cases "?f v (Some (n, out0))") (auto simp: none)
    then have same: "same_subs n m1" by (intro fold_notify_same) simp
    have "subscribers m1 k = subscribers m k" for k
      using same Cons.prems(2) by (simp add: same_subs_def)
    moreover have "fold ?f vs (Some (m1, out1)) = Some (m', out)" using Cons.prems(1) one by simp
    ultimately have "cb \<in> fst ` set out1 \<or> (\<exists>v \<in> set vs. cb \<in> snd ` set (subscribers m (value_key v)))"
      by (rule Cons.IH [rotated])
    moreover have "fold (notify_client v) (subscribers m (value_key v)) (Some (n, out0)) = Some (m1, out1)"
      using one Cons.prems(2) by (simp add: value_key_def)
    from fold_notify_keys [OF this] have "fst ` set out1 \<subseteq> snd ` set (subscribers m (value_key v)) \<union> fst ` set out0" .
    ultimately show ?case unfolding list.set(2) bex_simps(5) by blast
  qed
  from assms(1) have "fold ?f vs (Some (m, [])) = Some (m', out)" by (simp add: getSubscribedClients_def)
  from run [OF this refl] show ?thesis by simp
qed

lemma sent_callbacks: "(cb, msg) \<in> set (send_by_callback send clients) \<Longrightarrow> cb \<in> fst ` set clients"
  by (force simp: send_by_callback_def)

section \<open>A sample service\<close>

definition gear_config :: VehiclePropConfig where
  "gear_config = \<lparr>pc_prop = gear, pc_access = READ, changeMode = ON_CHANGE, areaConfigs = [], configArray = [],
     configString = [], minSampleRate = 0, maxSampleRate = 0\<rparr>"

definition sample_hardware :: "ideal_hw_state IVehicleHardware" where
  "sample_hardware =
     \<lparr>hw_subscription = ideal_hw, hw_getAllPropertyConfigs = (\<lambda>_. [gear_config]),
      hw_getPropertyConfig = (\<lambda>p _. getPropertyConfig_default [gear_config] p),
      hw_getValues = (\<lambda>_ h. (OK, h)), hw_setValues = (\<lambda>_ h. (OK, h)), hw_checkHealth = (\<lambda>_. OK),
      hw_dump = (\<lambda>_ h. (\<lparr>callerShouldDumpState = True, dump_buffer = [], refreshPropertyConfigs = False\<rparr>, h)),
      hw_getMinMaxSupportedValues = (\<lambda>_ _. []), hw_getSupportedValuesLists = (\<lambda>_ _. [])\<rparr>"

definition sample_env :: vhal_env where
  "sample_env = \<lparr>env_isAlive = (\<lambda>_. True), env_linkToDeath = (\<lambda>_. True), env_versionFor = (\<lambda>_. Some 1),
     env_log10f = (\<lambda>x. x)\<rparr>"

definition gear_request :: "int64 \<Rightarrow> GetValueRequest" where
  "gear_request i = \<lparr>gr_requestId = i, gr_prop = empty_prop_value\<lparr>pv_prop := gear\<rparr>\<rparr>"

lemma gear_readable:
  "checkReadPermission sample_env sample_hardware h (empty_prop_value\<lparr>pv_prop := gear\<rparr>) (newDefaultVehicleHal 0) = Inr ()"
  by (simp add: checkReadPermission_def checkPermissionHelper_def hal_getConfig_def newDefaultVehicleHal_def
      sample_hardware_def getPropertyConfig_default_def gear_config_def empty_prop_value_def gear_def
      isConfigSupportedForCurrentVhalVersion_def sample_env_def getVhalInterfaceVersion_def getAreaConfig_value_def
      getAreaConfig_def isGlobalProp_def getPropArea_def AREA_GLOBAL_def VehicleArea_MASK_def hasRequiredAccess_def)

lemma new_hal_inv: "rp_inv (mPendingRequestPool (newDefaultVehicleHal n))"
  by (simp add: newDefaultVehicleHal_def newRequestPool_def rp_inv_def client_reqs_def reqs_ok_def)

lemmas sample_forward_defs = forward_requests_def monitorBinderLifeCycleLocked_def getOrCreateGetClient_def
  getOrCreateSetClient_def newDefaultVehicleHal_def sample_env_def client_addRequests_def pool_addRequests_def
  newRequestPool_def MAX_PENDING_REQUEST_PER_CLIENT_def sample_hardware_def Let_def

section \<open>Properties\<close>



text \<open>C4. Only checked values reach the hardware: when \<^verbatim>\<open>setValues\<close> returns OK, the hardware was handed exactly the
  requests that may be written and whose value fits the configuration, every other request was answered at once
  with its error, and exactly the ids handed over became pending; when it returns an error, nothing became pending.\<close>

theorem setValues_only_valid:
  assumes "rp_inv (mPendingRequestPool v)" and "length reqs < 2 ^ 64"
    and "hal_setValues env hw now (Some cb) reqs (v, h) = Some (status, out, v', h')"
  shows "let permitted = (\<lambda>p. checkWritePermission env hw h p v); valid = (\<lambda>p. checkProperty env hw h p v);
      forwarded = filter (set_passes permitted valid) reqs; refused = filter (\<lambda>r. \<not> set_passes permitted valid r) reqs
    in if status = ST_OK
       then out = (if refused = [] then [] else [(cb, OnSetValues
           (map (\<lambda>r. set_result (sr_requestId r) (set_error permitted r)) refused))]) \<and>
         (if forwarded = [] then h' = h else hw_setValues hw forwarded h = (OK, h')) \<and>
         (\<exists>c. hal_pending v' = (hal_pending v)(c := hal_pending v c \<union> sr_requestId ` set forwarded) \<and>
              hal_pending v c \<inter> sr_requestId ` set forwarded = {})
       else hal_pending v' = hal_pending v"
proof -
  let ?perm = "\<lambda>p. checkWritePermission env hw h p v" and ?valid = "\<lambda>p. checkProperty env hw h p v"
  show ?thesis
  proof (cases "checkDuplicateRequests_set reqs")
    case None
    with assms(3) show ?thesis by (auto simp: hal_setValues_def Let_def)
  next
    case (Some ids)
    with assms(3) obtain f q where s: "sort_set ?perm ?valid reqs = Some (f, q)"
      and fwd: "forward_requests env now cb getOrCreateSetClient (if f \<noteq> [] then sendResults_set f else [])
        (remdups (map sr_requestId q)) (hw_setValues hw q) (v, h) = (status, out, v', h')"
      by (auto simp: hal_setValues_def)
    note fq = sort_set_eq [OF s]
    have "length (remdups (map sr_requestId q)) \<le> length reqs"
      using fq by (metis length_filter_le length_map length_remdups_leq order_trans)
    then have len: "length (remdups (map sr_requestId q)) < 2 ^ 64" using assms(2) by simp
    have "if status = ST_OK
       then out = map (Pair cb) (if f \<noteq> [] then sendResults_set f else []) \<and> (if q = [] then h' = h else hw_setValues hw q h = (OK, h')) \<and>
         (\<exists>c. hal_pending v' = (hal_pending v)(c := hal_pending v c \<union> sr_requestId ` set q) \<and>
              hal_pending v c \<inter> sr_requestId ` set q = {})
       else hal_pending v' = hal_pending v"
      using forward_spec [OF assms(1) distinct_remdups len finders(2) fwd]
      by (simp only: set_remdups set_map remdups_eq_nil_iff map_is_Nil_conv split: if_splits) simp_all
    moreover have "map (Pair cb) (if f \<noteq> [] then sendResults_set f else []) =
      (if filter (\<lambda>r. \<not> set_passes ?perm ?valid r) reqs = [] then [] else [(cb, OnSetValues f)])"
      using fq by (simp add: sendResults_set_def)
    ultimately show ?thesis using fq unfolding Let_def by (simp only:)
  qed
qed

definition gear_set :: "int64 \<Rightarrow> SetValueRequest" where
  "gear_set i = \<lparr>sr_requestId = i, sr_value = empty_prop_value\<lparr>pv_prop := gear\<rparr>\<rparr>"

theorem setValues_only_valid_witness:
  "\<exists>v' h'. hal_setValues sample_env sample_hardware 0 (Some client1) [gear_set 5] (newDefaultVehicleHal 0, sample_hw)
      = Some (ST_OK, [(client1, OnSetValues [set_result 5 ACCESS_DENIED])], v', h') \<and> h' = sample_hw"
proof -
  have no: "checkWritePermission sample_env sample_hardware h (empty_prop_value\<lparr>pv_prop := gear\<rparr>) (newDefaultVehicleHal 0)
      = Inl ACCESS_DENIED" for h
    by (simp add: checkWritePermission_def checkPermissionHelper_def hal_getConfig_def newDefaultVehicleHal_def
      sample_hardware_def getPropertyConfig_default_def gear_config_def empty_prop_value_def gear_def
      isConfigSupportedForCurrentVhalVersion_def sample_env_def getVhalInterfaceVersion_def getAreaConfig_value_def
      getAreaConfig_def isGlobalProp_def getPropArea_def AREA_GLOBAL_def VehicleArea_MASK_def hasRequiredAccess_def)
  obtain status out v' h' where fwd: "forward_requests sample_env 0 client1 getOrCreateSetClient
      [OnSetValues [set_result 5 ACCESS_DENIED]] [] (hw_setValues sample_hardware [])
      (newDefaultVehicleHal 0, sample_hw) = (status, out, v', h')" by (metis prod_cases4)
  then have e: "hal_setValues sample_env sample_hardware 0 (Some client1) [gear_set 5]
      (newDefaultVehicleHal 0, sample_hw) = Some (status, out, v', h')"
    by (simp add: hal_setValues_def gear_set_def no checkDuplicateRequests_set_def sendResults_set_def)
  from fwd have st: "status = ST_OK" by (auto simp: sample_forward_defs)
  from setValues_only_valid [OF new_hal_inv _ e] st e no show ?thesis
    by (auto simp: gear_set_def Let_def set_passes_def set_error_def)
qed

text \<open>The duplicate check of a batch of set requests refuses it exactly when two requests carry equal
  property values, provided no value holds a NaN; otherwise it returns the request ids in order.\<close>

theorem duplicate_check_exact:
  assumes "\<And>r. r \<in> set reqs \<Longrightarrow> no_nan (pv_value (sr_value r))"
  shows "checkDuplicateRequests_set reqs =
    (if sorted_wrt (\<lambda>x y. \<not> same_request (sr_value x) (sr_value y)) reqs then Some (map sr_requestId reqs) else None)"
proof -
  have "check_duplicates (map (\<lambda>r. (sr_requestId r, sr_value r)) reqs) [] =
    (if sorted_wrt (\<lambda>x y. \<not> same_request (snd x) (snd y)) (map (\<lambda>r. (sr_requestId r, sr_value r)) reqs)
     then Some (map fst (map (\<lambda>r. (sr_requestId r, sr_value r)) reqs)) else None)"
    using assms by (subst check_duplicates_iff) auto
  then show ?thesis by (simp add: checkDuplicateRequests_set_def sorted_wrt_map comp_def)
qed

theorem duplicate_check_exact_witness:
  "checkDuplicateRequests_set [gear_set 1, gear_set 2] = None"
proof -
  have "no_nan (pv_value (sr_value r))" if "r \<in> set [gear_set 1, gear_set 2]" for r
    using that by (auto simp: gear_set_def no_nan_def empty_prop_value_def empty_raw_def)
  then have "checkDuplicateRequests_set [gear_set 1, gear_set 2] =
    (if sorted_wrt (\<lambda>x y. \<not> same_request (sr_value x) (sr_value y)) [gear_set 1, gear_set 2]
     then Some (map sr_requestId [gear_set 1, gear_set 2]) else None)"
    by (rule duplicate_check_exact)
  then show ?thesis by (simp add: gear_set_def same_request_def raw_eq_def empty_prop_value_def empty_raw_def)
qed

text \<open>C34. Validated subscriptions are accepted: if the checks of \<^verbatim>\<open>subscribe\<close> pass, parsing the options neither
  throws nor yields an option that the subscription manager refuses as invalid, provided every option
  names or has areas.\<close>

theorem parsed_subscriptions_valid:
  assumes "checkSubscribeOptions log10f opts configs = Inr ()"
    and "\<And>opt config. opt \<in> set opts \<Longrightarrow> map_of configs (so_propId opt) = Some config \<Longrightarrow> parsed_areas config opt \<noteq> []"
  shows "\<exists>oc ct. parseSubscribeOptions opts configs = Some (oc, ct) \<and>
    list_all (option_valid log10f False) oc \<and> list_all (option_valid log10f True) ct"
  using assms by (rule parse_options_valid)

theorem parsed_subscriptions_valid_witness:
  "\<exists>oc ct. parseSubscribeOptions [(sample_option gear 0)\<lparr>so_areaIds := []\<rparr>] [(gear, gear_config)] = Some (oc, ct) \<and>
     list_all (option_valid (\<lambda>x. x) False) oc"
proof -
  let ?opts = "[(sample_option gear 0)\<lparr>so_areaIds := []\<rparr>]" and ?configs = "[(gear, gear_config)]"
  have "checkSubscribeOptions (\<lambda>x. x) ?opts ?configs = Inr ()"
    by (simp add: check_option_def gear_config_def sample_option_def hasRequiredAccess_def)
  moreover have "isGlobalProp gear" by code_simp
  then have "parsed_areas config opt \<noteq> []" if "opt \<in> set ?opts" "map_of ?configs (so_propId opt) = Some config" for opt config
    using that by (simp add: parsed_areas_def sample_option_def)
  ultimately have "\<exists>oc ct. parseSubscribeOptions ?opts ?configs = Some (oc, ct) \<and>
      list_all (option_valid (\<lambda>x. x) False) oc \<and> list_all (option_valid (\<lambda>x. x) True) ct"
    by (rule parsed_subscriptions_valid)
  then show ?thesis by blast
qed

text \<open>C29. A dead client gets nothing more: once its death was handled and the hardware accepted the
  unsubscriptions, no property event is sent to it any more and its get and set clients are gone.\<close>

theorem dead_client_silent:
  assumes "mgr_inv (mSubscriptionManager v, h)"
    and "fst (mgr_unsubscribe (hw_subscription hw) c (mSubscriptionManager v, h)) = Inr ()"
    and "onBinderDiedWithContext hw c (v, h) = (v', h')"
    and "onPropertyChangeEvent events v' = Some (sent, v'')"
  shows "c \<notin> cbk_binder ` fst ` set sent \<and> map_of (mGetValuesClients v') c = None \<and> map_of (mSetValuesClients v') c = None"
proof -
  let ?un = "mgr_unsubscribe (hw_subscription hw) c (mSubscriptionManager v, h)"
  obtain m h1 where un: "?un = (Inr (), m, h1)" using assms(2) by (metis prod.collapse)
  have v': "mSubscriptionManager v' = m" "map_of (mGetValuesClients v') c = None" "map_of (mSetValuesClients v') c = None"
    using assms(3) un by (auto simp: onBinderDiedWithContext_def)
  have inv: "subs_inv m" using unsubscribe_all_inv [OF _ _ un] assms(1) by (auto simp: mgr_inv_def)
  from assms(4) obtain m'' clients where g: "getSubscribedClients events m = Some (m'', clients)"
    and s: "sent = send_by_callback sendUpdatedValues clients"
    by (auto simp: onPropertyChangeEvent_def v')
  have "cbk_binder cb \<noteq> c" if "(cb, msg) \<in> set sent" for cb msg
  proof -
    from sent_callbacks [OF that [unfolded s]] have "cb \<in> fst ` set clients" .
    from getSubscribedClients_keys [OF g this] obtain ev d where d: "(d, cb) \<in> set (subscribers m (value_key ev))" by auto
    moreover have "wf_alist (subscribers m (value_key ev))" using inv by (simp add: subs_inv_def distinct_keys_def)
    ultimately have mp: "map_of (subscribers m (value_key ev)) d = Some cb" by (simp add: map_of_Some_iff)
    then have "cbk_binder cb = d" using inv by (simp add: subs_inv_def)
    moreover have "map_of (subscribers m (value_key ev)) c = None"
      using unsubscribe_all_effect [OF assms(1) un, of "value_key ev" c] by simp
    ultimately show ?thesis using mp by auto
  qed
  then have "c \<notin> cbk_binder ` fst ` set sent" by fastforce
  then show ?thesis using v' by simp
qed

definition shared_mgr :: SubscriptionManager where
  "shared_mgr = newSubscriptionManager
     \<lparr>mClientsByPropIdAreaId := [(global_key gear, [(1, client1), (2, client2)])],
      mSubscribedPropsByClient := [(1, [global_key gear]), (2, [global_key gear])]\<rparr>"

theorem dead_client_silent_witness:
  "\<exists>v' h' sent v''. onBinderDiedWithContext sample_hardware 1 ((newDefaultVehicleHal 0)\<lparr>mSubscriptionManager := shared_mgr\<rparr>, sample_hw)
       = (v', h') \<and> onPropertyChangeEvent [empty_prop_value\<lparr>pv_prop := gear\<rparr>] v' = Some (sent, v'') \<and>
     fst ` set sent = {client2} \<and> 1 \<notin> cbk_binder ` fst ` set sent"
proof -
  let ?v = "(newDefaultVehicleHal 0)\<lparr>mSubscriptionManager := shared_mgr\<rparr>"
  obtain v' h' where died: "onBinderDiedWithContext sample_hardware 1 (?v, sample_hw) = (v', h')" by fastforce
  have un: "mgr_unsubscribe ideal_hw 1 (shared_mgr, sample_hw) =
     (Inr (), mSubscriptionManager v', h')" and
    m: "mSubscriptionManager v' = newSubscriptionManager\<lparr>mClientsByPropIdAreaId := [(global_key gear, [(2, client2)])],
      mSubscribedPropsByClient := [(2, [global_key gear])]\<rparr>"
    using died
    by (auto simp: onBinderDiedWithContext_def sample_hardware_def mgr_unsubscribe_def shared_mgr_def newSubscriptionManager_def
        unsubscribePropIdAreaIdLocked_def removeOnChangeSubscriberLocked_def touch_def lookup_or_def)
  obtain sent v'' where ev: "onPropertyChangeEvent [empty_prop_value\<lparr>pv_prop := gear\<rparr>] v' = Some (sent, v'')"
    and "fst ` set sent = {client2}"
    by (auto simp: onPropertyChangeEvent_def m getSubscribedClients_def notify_client_def newSubscriptionManager_def
        lookup_or_def touch_def global_key_def empty_prop_value_def newContSubConfigs_def getResolutionForClient_def
        isVurEnabledForClient_def push_to_def send_by_callback_def sendUpdatedValues_def Let_def sanitizeByResolution_def
        vectorToStableLargeParcelable_def)
  moreover have "mgr_inv (shared_mgr, sample_hw)"
    by (auto simp: mgr_inv_def shared_mgr_def subs_inv_def sv_inv_def newSubscriptionManager_def lookup_or_def client1_def
      client2_def distinct_keys_def split: if_splits)
  ultimately show ?thesis using dead_client_silent [of ?v sample_hw sample_hardware 1, OF _ _ died ev] un died
    by (auto simp: sample_hardware_def)
qed

text \<open>Answers about supported values stay with their requests: there is one result per request, the requests the
  configuration cannot answer get \<open>INVALID_ARG\<close> or an empty \<open>OK\<close>, and the answers of the hardware are the results of
  exactly the requests it was asked, in order.\<close>

theorem min_max_results_in_place:
  assumes "getMinMaxSupportedValue env hw h keys v = Inr results"
  shows "let info = (\<lambda>k. getHasSupportedValueInfo env hw h (pa_propId k) (pa_areaId k) v);
      wanted = (\<lambda>k. \<exists>i. info k = Some i \<and> (hasMinSupportedValue i \<or> hasMaxSupportedValue i));
      asked = filter (\<lambda>j. wanted (keys ! j)) [0..<length keys]
    in length results = length keys \<and>
      (\<forall>j < length keys. j \<notin> set asked \<longrightarrow> results ! j =
         \<lparr>mm_status = (if info (keys ! j) = None then INVALID_ARG else OK), minSupportedValue = None, maxSupportedValue = None\<rparr>) \<and>
      (asked \<noteq> [] \<longrightarrow> map (\<lambda>j. results ! j) asked = hw_getMinMaxSupportedValues hw (filter wanted keys) h)"
  using query_supported_spec [OF assms [unfolded getMinMaxSupportedValue_def]] by (simp add: Let_def)

theorem min_max_results_in_place_witness:
  "\<exists>results. getMinMaxSupportedValue sample_env sample_hardware sample_hw [global_key gear] (newDefaultVehicleHal 0) = Inr results
     \<and> length results = 1"
proof -
  have "getHasSupportedValueInfo sample_env sample_hardware sample_hw gear 0 (newDefaultVehicleHal 0) = None"
    by (simp add: getHasSupportedValueInfo_def getAreaConfigForPropIdAreaId_def getAreaConfig_def gear_config_def
        hal_getConfig_def newDefaultVehicleHal_def sample_hardware_def getPropertyConfig_default_def
        isConfigSupportedForCurrentVhalVersion_def sample_env_def getVhalInterfaceVersion_def)
  then obtain results where "getMinMaxSupportedValue sample_env sample_hardware sample_hw [global_key gear] (newDefaultVehicleHal 0) = Inr results"
    by (simp add: getMinMaxSupportedValue_def query_supported_def global_key_def)
  with min_max_results_in_place [OF this] show ?thesis by (auto simp: Let_def)
qed

end
