(* ===== verification/ObjectPool.thy ===== *)
theory ObjectPool
  imports VehicleUtils
begin

text \<open>
  \<^verbatim>\<open>VehicleObjectPool.h\<close> and \<^verbatim>\<open>VehicleObjectPool.cpp\<close>: the generic \<^verbatim>\<open>ObjectPool\<close>, the \<^verbatim>\<open>InternalPool\<close> for
  one property type and vector size, and \<^verbatim>\<open>VehiclePropValuePool\<close>, which hands out recyclable property
  values. A smart pointer is a \<open>recyclable\<close>: the value it holds and where its deleter returns it;
  its destruction is \<open>release\<close>. The constructor of \<^verbatim>\<open>ObjectPool\<close> leaves \<^verbatim>\<open>mPoolObjectsSize\<close>
  uninitialised, so a new pool starts from the field \<open>vp_uninit\<close>, whatever the memory held.
\<close>

section \<open>The generic pool\<close>

record PoolStats =
  Obtained :: int32
  Created :: int32
  Recycled :: int32
  Deleted :: int32

record 'a ObjectPool =
  mMaxPoolObjectsSize :: size_t
  mObjects :: "'a list"
  mPoolObjectsSize :: size_t

definition pool_obtain ::
  "('a \<Rightarrow> size_t) \<Rightarrow> 'a \<Rightarrow> 'a ObjectPool \<Rightarrow> PoolStats \<Rightarrow> 'a \<times> 'a ObjectPool \<times> PoolStats" where
  "pool_obtain getSize created pool st =
     (let st1 = st\<lparr>Obtained := Obtained st + 1\<rparr>
      in case mObjects pool of
           [] \<Rightarrow> (created, pool, st1\<lparr>Created := Created st1 + 1\<rparr>)
         | o1 # os \<Rightarrow>
             (o1, pool\<lparr>mObjects := os, mPoolObjectsSize := mPoolObjectsSize pool - getSize o1\<rparr>, st1))"

definition pool_recycle ::
  "('a \<Rightarrow> size_t) \<Rightarrow> 'a \<Rightarrow> 'a ObjectPool \<Rightarrow> PoolStats \<Rightarrow> 'a ObjectPool \<times> PoolStats" where
  "pool_recycle getSize o1 pool st =
     (let objectSize = getSize o1
      in if objectSize > mMaxPoolObjectsSize pool \<or>
            mPoolObjectsSize pool > mMaxPoolObjectsSize pool - objectSize
         then (pool, st\<lparr>Deleted := Deleted st + 1\<rparr>)
         else (pool\<lparr>mObjects := mObjects pool @ [o1],
                    mPoolObjectsSize := mPoolObjectsSize pool + objectSize\<rparr>,
               st\<lparr>Recycled := Recycled st + 1\<rparr>))"

section \<open>The pool of one type and size\<close>

record InternalPool =
  ip_pool :: "VehiclePropValue ObjectPool"
  mPropType :: VehiclePropertyType
  mVectorSize :: nat

definition value_size :: "VehiclePropValue \<Rightarrow> size_t" where
  "value_size v = of_nat (getVehiclePropValueSize v)"

definition check_vec :: "InternalPool \<Rightarrow> 'a list \<Rightarrow> bool \<Rightarrow> bool" where
  "check_vec ip vec isVectorType \<longleftrightarrow> length vec = (if isVectorType then mVectorSize ip else 0)"

definition InternalPool_check :: "InternalPool \<Rightarrow> RawPropValues \<Rightarrow> bool" where
  "InternalPool_check ip v \<longleftrightarrow>
     check_vec ip (int32Values v) (mPropType ip = INT32 \<or> mPropType ip = INT32_VEC \<or> mPropType ip = BOOLEAN) \<and>
     check_vec ip (floatValues v) (mPropType ip = FLOAT \<or> mPropType ip = FLOAT_VEC) \<and>
     check_vec ip (int64Values v) (mPropType ip = INT64 \<or> mPropType ip = INT64_VEC) \<and>
     check_vec ip (byteValues v) (mPropType ip = BYTES) \<and>
     length (stringValue v) = 0"

definition InternalPool_createObject :: "InternalPool \<Rightarrow> VehiclePropValue" where
  "InternalPool_createObject ip = createVehiclePropValueVec (mPropType ip) (mVectorSize ip)"

definition InternalPool_obtain ::
  "InternalPool \<Rightarrow> PoolStats \<Rightarrow> VehiclePropValue \<times> InternalPool \<times> PoolStats" where
  "InternalPool_obtain ip st =
     (let (v, pool, st') = pool_obtain value_size (InternalPool_createObject ip) (ip_pool ip) st
      in (v, ip\<lparr>ip_pool := pool\<rparr>, st'))"

definition InternalPool_recycle ::
  "VehiclePropValue option \<Rightarrow> InternalPool \<Rightarrow> PoolStats \<Rightarrow> InternalPool \<times> PoolStats" where
  "InternalPool_recycle ptr ip st =
     (case ptr of
        None \<Rightarrow> (ip, st)
      | Some v \<Rightarrow>
          if \<not> InternalPool_check ip (pv_value v) then (ip, st)
          else let (pool, st') = pool_recycle value_size v (ip_pool ip) st
               in (ip\<lparr>ip_pool := pool\<rparr>, st'))"

section \<open>The value pool\<close>

datatype deleter = Disposable | RecycleTo int32

record recyclable =
  r_value :: VehiclePropValue
  r_deleter :: deleter

record VehiclePropValuePool =
  mMaxRecyclableVectorSize :: nat
  vp_maxPoolObjectsSize :: size_t
  mValueTypePools :: "(int32 \<times> InternalPool) list"
  vp_stats :: PoolStats
  vp_uninit :: size_t

text \<open>The constructor, with the memory contents that later pools find in \<^verbatim>\<open>mPoolObjectsSize\<close>.\<close>

definition mkValuePool :: "nat \<Rightarrow> size_t \<Rightarrow> size_t \<Rightarrow> VehiclePropValuePool" where
  "mkValuePool maxRecyclableVectorSize maxPoolObjectsSize uninit =
     \<lparr>mMaxRecyclableVectorSize = maxRecyclableVectorSize, vp_maxPoolObjectsSize = maxPoolObjectsSize,
      mValueTypePools = [], vp_stats = \<lparr>Obtained = 0, Created = 0, Recycled = 0, Deleted = 0\<rparr>,
      vp_uninit = uninit\<rparr>"

definition isSingleValueType :: "VehiclePropertyType \<Rightarrow> bool" where
  "isSingleValueType t \<longleftrightarrow> t = BOOLEAN \<or> t = INT32 \<or> t = INT64 \<or> t = FLOAT"

definition isComplexType :: "VehiclePropertyType \<Rightarrow> bool" where
  "isComplexType t \<longleftrightarrow> t = MIXED \<or> t = STRING"

definition isDisposable :: "VehiclePropValuePool \<Rightarrow> VehiclePropertyType \<Rightarrow> nat \<Rightarrow> bool" where
  "isDisposable p t vectorSize \<longleftrightarrow>
     vectorSize = 0 \<or> vectorSize > mMaxRecyclableVectorSize p \<or> isComplexType t"

definition obtainDisposable :: "VehiclePropertyType \<Rightarrow> nat \<Rightarrow> recyclable" where
  "obtainDisposable t vectorSize =
     \<lparr>r_value = createVehiclePropValueVec t vectorSize, r_deleter = Disposable\<rparr>"

definition pool_key :: "VehiclePropertyType \<Rightarrow> nat \<Rightarrow> int32" where
  "pool_key t vectorSize = VehiclePropertyType_toInt t OR of_nat vectorSize"

definition newInternalPool :: "VehiclePropValuePool \<Rightarrow> VehiclePropertyType \<Rightarrow> nat \<Rightarrow> InternalPool" where
  "newInternalPool p t vectorSize =
     \<lparr>ip_pool = \<lparr>mMaxPoolObjectsSize = vp_maxPoolObjectsSize p, mObjects = [],
                 mPoolObjectsSize = vp_uninit p\<rparr>,
      mPropType = t, mVectorSize = vectorSize\<rparr>"

definition findPool :: "VehiclePropValuePool \<Rightarrow> VehiclePropertyType \<Rightarrow> nat \<Rightarrow> InternalPool" where
  "findPool p t vectorSize =
     (case map_of (mValueTypePools p) (pool_key t vectorSize) of
        Some ip \<Rightarrow> ip | None \<Rightarrow> newInternalPool p t vectorSize)"

definition obtainRecyclable ::
  "VehiclePropertyType \<Rightarrow> nat \<Rightarrow> VehiclePropValuePool \<Rightarrow> recyclable \<times> VehiclePropValuePool" where
  "obtainRecyclable t vectorSize p =
     (let key = pool_key t vectorSize;
          (v, ip, st) = InternalPool_obtain (findPool p t vectorSize) (vp_stats p)
      in (\<lparr>r_value = v, r_deleter = RecycleTo key\<rparr>,
          p\<lparr>mValueTypePools := AList.update key ip (mValueTypePools p), vp_stats := st\<rparr>))"

definition obtain_sized ::
  "VehiclePropertyType \<Rightarrow> nat \<Rightarrow> VehiclePropValuePool \<Rightarrow> recyclable \<times> VehiclePropValuePool" where
  "obtain_sized t vectorSize p =
     (let n = (if isSingleValueType t then 1 else if isComplexType t then 0 else vectorSize)
      in if isDisposable p t n then (obtainDisposable t n, p) else obtainRecyclable t n p)"

definition obtain_type ::
  "VehiclePropertyType \<Rightarrow> VehiclePropValuePool \<Rightarrow> recyclable \<times> VehiclePropValuePool" where
  "obtain_type t p = (if isComplexType t then obtain_sized t 0 p else obtain_sized t 1 p)"

definition obtain_copy ::
  "VehiclePropValue \<Rightarrow> VehiclePropValuePool \<Rightarrow> recyclable \<times> VehiclePropValuePool" where
  "obtain_copy src p =
     (let type = getPropType (pv_prop src);
          vectorSize = getVehicleRawValueVectorSize (pv_value src) type;
          (dest, p') = obtain_sized type vectorSize p;
          v = r_value dest
      in (dest\<lparr>r_value := v\<lparr>pv_prop := pv_prop src, pv_areaId := pv_areaId src,
                             pv_status := pv_status src, pv_timestamp := pv_timestamp src,
                             pv_value := copyVehicleRawValue (pv_value v) (pv_value src)\<rparr>\<rparr>, p'))"

text \<open>The typed \<^verbatim>\<open>obtain\<close>s write element 0, which is undefined on an empty vector.\<close>

definition set_first :: "'a \<Rightarrow> 'a list \<Rightarrow> 'a list option" where
  "set_first x xs = (case xs of [] \<Rightarrow> None | _ # ys \<Rightarrow> Some (x # ys))"

definition obtainInt32 ::
  "int32 \<Rightarrow> VehiclePropValuePool \<Rightarrow> (recyclable \<times> VehiclePropValuePool) option" where
  "obtainInt32 x p =
     (let (r, p') = obtain_type INT32 p; v = r_value r
      in map_option (\<lambda>xs. (r\<lparr>r_value := v\<lparr>pv_value := (pv_value v)\<lparr>int32Values := xs\<rparr>\<rparr>\<rparr>, p'))
           (set_first x (int32Values (pv_value v))))"

definition obtainInt64 ::
  "int64 \<Rightarrow> VehiclePropValuePool \<Rightarrow> (recyclable \<times> VehiclePropValuePool) option" where
  "obtainInt64 x p =
     (let (r, p') = obtain_type INT64 p; v = r_value r
      in map_option (\<lambda>xs. (r\<lparr>r_value := v\<lparr>pv_value := (pv_value v)\<lparr>int64Values := xs\<rparr>\<rparr>\<rparr>, p'))
           (set_first x (int64Values (pv_value v))))"

definition obtainFloat ::
  "f32 \<Rightarrow> VehiclePropValuePool \<Rightarrow> (recyclable \<times> VehiclePropValuePool) option" where
  "obtainFloat x p =
     (let (r, p') = obtain_type FLOAT p; v = r_value r
      in map_option (\<lambda>xs. (r\<lparr>r_value := v\<lparr>pv_value := (pv_value v)\<lparr>floatValues := xs\<rparr>\<rparr>\<rparr>, p'))
           (set_first x (floatValues (pv_value v))))"

definition obtainBoolean ::
  "bool \<Rightarrow> VehiclePropValuePool \<Rightarrow> (recyclable \<times> VehiclePropValuePool) option" where
  "obtainBoolean b p = obtainInt32 (if b then 1 else 0) p"

definition obtainString ::
  "string \<Rightarrow> VehiclePropValuePool \<Rightarrow> recyclable \<times> VehiclePropValuePool" where
  "obtainString cstr p =
     (let (r, p') = obtain_type STRING p; v = r_value r
      in (r\<lparr>r_value := v\<lparr>pv_value := (pv_value v)\<lparr>stringValue := cstr\<rparr>\<rparr>\<rparr>, p'))"

definition obtainComplex :: "VehiclePropValuePool \<Rightarrow> recyclable \<times> VehiclePropValuePool" where
  "obtainComplex p = obtain_type MIXED p"

text \<open>
  The destruction of a smart pointer: \<^verbatim>\<open>delete\<close> for a disposable value, \<^verbatim>\<open>InternalPool::recycle\<close> of
  the pool it came from otherwise. Pools are never removed, so that pool is still there.
\<close>

definition release :: "recyclable \<Rightarrow> VehiclePropValuePool \<Rightarrow> VehiclePropValuePool" where
  "release r p =
     (case r_deleter r of
        Disposable \<Rightarrow> p
      | RecycleTo key \<Rightarrow>
          (case map_of (mValueTypePools p) key of
             None \<Rightarrow> p
           | Some ip \<Rightarrow>
               let (ip', st) = InternalPool_recycle (Some (r_value r)) ip (vp_stats p)
               in p\<lparr>mValueTypePools := AList.update key ip' (mValueTypePools p), vp_stats := st\<rparr>))"

section \<open>Keys of the type pools\<close>

text \<open>A type as \<^verbatim>\<open>getPropType\<close> makes it: the number lies in the type mask.\<close>

definition proper_type :: "VehiclePropertyType \<Rightarrow> bool" where
  "proper_type t \<longleftrightarrow> getPropType (VehiclePropertyType_toInt t) = t"

lemma proper_getPropType [simp]: "proper_type (getPropType p)"
  unfolding proper_type_def getPropType_toInt by (simp add: getPropType_def and.assoc)

lemma proper_named [simp]:
  "proper_type STRING" "proper_type BOOLEAN" "proper_type INT32" "proper_type INT32_VEC"
  "proper_type INT64" "proper_type INT64_VEC" "proper_type FLOAT" "proper_type FLOAT_VEC"
  "proper_type BYTES" "proper_type MIXED"
  by (simp_all add: proper_type_def getPropType_def VehiclePropertyType_MASK_def
      VehiclePropertyType_cast_def)

lemma proper_mask: "proper_type t \<Longrightarrow> VehiclePropertyType_toInt t AND VehiclePropertyType_MASK
    = VehiclePropertyType_toInt t"
  by (metis getPropType_toInt proper_type_def)

lemma small_and_low: "n < 2 ^ 16 \<Longrightarrow> (of_nat n :: int32) AND 0xffff = of_nat n"
proof -
  assume n: "n < 2 ^ 16"
  have "(of_nat n :: int32) AND mask 16 = take_bit 16 (of_nat n)"
    by (simp add: take_bit_eq_mask)
  also have "\<dots> = of_nat n"
    using n by (simp add: take_bit_of_nat take_bit_nat_eq_self)
  finally show ?thesis by (simp add: mask_numeral)
qed

lemma small_and_mask: "n < 2 ^ 16 \<Longrightarrow> (of_nat n :: int32) AND VehiclePropertyType_MASK = 0"
proof -
  assume n: "n < 2 ^ 16"
  have "(of_nat n :: int32) AND VehiclePropertyType_MASK
      = of_nat n AND (0xffff AND VehiclePropertyType_MASK)"
    using small_and_low [OF n] by (metis and.assoc)
  then show ?thesis by (simp add: VehiclePropertyType_MASK_def)
qed

lemma pool_key_type:
  "proper_type t \<Longrightarrow> n < 2 ^ 16 \<Longrightarrow> getPropType (pool_key t n) = t"
  by (simp add: pool_key_def getPropType_def bit.conj_disj_distrib2 small_and_mask proper_mask)
    (metis getPropType_def proper_mask proper_type_def)

lemma pool_key_size:
  "proper_type t \<Longrightarrow> n < 2 ^ 16 \<Longrightarrow> pool_key t n AND 0xffff = of_nat n"
proof -
  assume t: "proper_type t" and n: "n < 2 ^ 16"
  have "VehiclePropertyType_toInt t AND 0xffff
      = VehiclePropertyType_toInt t AND (VehiclePropertyType_MASK AND 0xffff)"
    using proper_mask [OF t] by (metis and.assoc)
  then have "VehiclePropertyType_toInt t AND 0xffff = 0"
    by (simp add: VehiclePropertyType_MASK_def)
  then show ?thesis
    using small_and_low [OF n] by (simp add: pool_key_def bit.conj_disj_distrib2)
qed

lemma pool_key_inj:
  assumes "pool_key t n = pool_key t' n'" "proper_type t" "proper_type t'" "n < 2 ^ 16" "n' < 2 ^ 16"
  shows "t = t' \<and> n = n'"
proof
  show "t = t'" using assms pool_key_type by metis
  have "(of_nat n :: int32) = of_nat n'" using assms pool_key_size by metis
  then show "n = n'" using assms(4,5) by (simp add: of_nat_eq_iff word_of_nat_eq_iff take_bit_nat_eq_self)
qed

section \<open>The pool invariant\<close>

definition pooled_size :: "InternalPool \<Rightarrow> nat" where
  "pooled_size ip = sum_list (map getVehiclePropValueSize (mObjects (ip_pool ip)))"

text \<open>
  One pool: its bookkeeping is the true size of its objects and within the limit, every object
  has the shape of the pool, and scalar types have vector size one.
\<close>

definition ip_inv :: "InternalPool \<Rightarrow> bool" where
  "ip_inv ip \<longleftrightarrow>
     mVectorSize ip < 2 ^ 16 \<and> proper_type (mPropType ip) \<and>
     (isSingleValueType (mPropType ip) \<longrightarrow> mVectorSize ip = 1) \<and>
     mPoolObjectsSize (ip_pool ip) = of_nat (pooled_size ip) \<and>
     pooled_size ip \<le> unat (mMaxPoolObjectsSize (ip_pool ip)) \<and>
     (\<forall>v \<in> set (mObjects (ip_pool ip)). InternalPool_check ip (pv_value v))"

definition vp_inv :: "VehiclePropValuePool \<Rightarrow> bool" where
  "vp_inv p \<longleftrightarrow>
     mMaxRecyclableVectorSize p < 2 ^ 16 \<and> vp_uninit p = 0 \<and> wf_alist (mValueTypePools p) \<and>
     (\<forall>key ip. map_of (mValueTypePools p) key = Some ip \<longrightarrow>
        ip_inv ip \<and> key = pool_key (mPropType ip) (mVectorSize ip) \<and>
        mMaxPoolObjectsSize (ip_pool ip) = vp_maxPoolObjectsSize p)"

lemma check_size_bound:
  "InternalPool_check ip (pv_value v) \<Longrightarrow> getVehiclePropValueSize v \<le> 20 + 8 * mVectorSize ip"
  by (auto simp: InternalPool_check_def check_vec_def getVehiclePropValueSize_def split: if_splits)

lemma value_size_unat:
  "ip_inv ip \<Longrightarrow> InternalPool_check ip (pv_value v) \<Longrightarrow>
     unat (value_size v) = getVehiclePropValueSize v"
  using check_size_bound [of ip v]
  by (simp add: value_size_def ip_inv_def unat_of_nat)

lemma create_check:
  "isSingleValueType (mPropType ip) \<longrightarrow> mVectorSize ip = 1 \<Longrightarrow>
     InternalPool_check ip (pv_value (InternalPool_createObject ip))"
  by (cases "mPropType ip")
    (simp_all add: InternalPool_check_def check_vec_def InternalPool_createObject_def
      createVehiclePropValueVec_def empty_prop_value_def empty_raw_def isSingleValueType_def)

lemma check_frame [simp]:
  "InternalPool_check (ip\<lparr>ip_pool := pool\<rparr>) = InternalPool_check ip"
  by (simp add: InternalPool_check_def check_vec_def fun_eq_iff)

lemma InternalPool_obtain_inv:
  assumes inv: "ip_inv ip" and ob: "InternalPool_obtain ip st = (v, ip', st')"
  shows "ip_inv ip' \<and> InternalPool_check ip (pv_value v) \<and> mPropType ip' = mPropType ip \<and>
     mVectorSize ip' = mVectorSize ip \<and>
     mMaxPoolObjectsSize (ip_pool ip') = mMaxPoolObjectsSize (ip_pool ip)"
proof (cases "mObjects (ip_pool ip)")
  case Nil
  with assms show ?thesis
    by (auto simp: InternalPool_obtain_def pool_obtain_def Let_def ip_inv_def create_check)
next
  case (Cons a os)
  with assms show ?thesis
    by (auto simp: InternalPool_obtain_def pool_obtain_def Let_def ip_inv_def pooled_size_def
        value_size_def)
qed

lemma InternalPool_recycle_inv:
  assumes inv: "ip_inv ip" and re: "InternalPool_recycle ptr ip st = (ip', st')"
  shows "ip_inv ip' \<and> mPropType ip' = mPropType ip \<and> mVectorSize ip' = mVectorSize ip \<and>
     mMaxPoolObjectsSize (ip_pool ip') = mMaxPoolObjectsSize (ip_pool ip)"
proof (cases "\<exists>v. ptr = Some v \<and> InternalPool_check ip (pv_value v)
    \<and> value_size v \<le> mMaxPoolObjectsSize (ip_pool ip)
    \<and> mPoolObjectsSize (ip_pool ip) \<le> mMaxPoolObjectsSize (ip_pool ip) - value_size v")
  case False
  with assms show ?thesis
    by (auto simp: InternalPool_recycle_def pool_recycle_def Let_def not_less split: option.splits if_splits)
next
  case True
  then obtain v where v: "ptr = Some v" "InternalPool_check ip (pv_value v)"
    and fits: "value_size v \<le> mMaxPoolObjectsSize (ip_pool ip)"
    and room: "mPoolObjectsSize (ip_pool ip) \<le> mMaxPoolObjectsSize (ip_pool ip) - value_size v"
    by blast
  have sz: "unat (value_size v) = getVehiclePropValueSize v"
    using value_size_unat [OF inv v(2)] .
  have "unat (mMaxPoolObjectsSize (ip_pool ip)) < 2 ^ LENGTH(64)" by (rule unsigned_less)
  then have cur: "unat (mPoolObjectsSize (ip_pool ip)) = pooled_size ip"
    using inv by (simp add: ip_inv_def unat_of_nat)
  have "pooled_size ip \<le> unat (mMaxPoolObjectsSize (ip_pool ip)) - getVehiclePropValueSize v"
    using room fits sz cur by (simp add: word_le_nat_alt unat_sub)
  moreover have "getVehiclePropValueSize v \<le> unat (mMaxPoolObjectsSize (ip_pool ip))"
    using fits sz by (simp add: word_le_nat_alt)
  ultimately have bound: "pooled_size ip + getVehiclePropValueSize v
      \<le> unat (mMaxPoolObjectsSize (ip_pool ip))" by simp
  have "ip' = ip\<lparr>ip_pool := (ip_pool ip)\<lparr>mObjects := mObjects (ip_pool ip) @ [v],
      mPoolObjectsSize := mPoolObjectsSize (ip_pool ip) + value_size v\<rparr>\<rparr>"
    using re v fits room
    by (auto simp: InternalPool_recycle_def pool_recycle_def Let_def dest: leD split: if_splits)
  with inv v bound show ?thesis
    by (auto simp: ip_inv_def pooled_size_def value_size_def)
qed


lemma findPool_inv:
  assumes inv: "vp_inv p" and t: "proper_type t" and n: "\<not> isDisposable p t n"
    and single: "isSingleValueType t \<longrightarrow> n = 1"
  shows "ip_inv (findPool p t n) \<and> mPropType (findPool p t n) = t \<and> mVectorSize (findPool p t n) = n \<and>
     mMaxPoolObjectsSize (ip_pool (findPool p t n)) = vp_maxPoolObjectsSize p"
proof (cases "map_of (mValueTypePools p) (pool_key t n)")
  case None
  with assms show ?thesis
    by (simp add: findPool_def newInternalPool_def ip_inv_def pooled_size_def vp_inv_def isDisposable_def)
next
  case (Some ip)
  with inv have "ip_inv ip" "pool_key t n = pool_key (mPropType ip) (mVectorSize ip)"
    and "mMaxPoolObjectsSize (ip_pool ip) = vp_maxPoolObjectsSize p"
    by (auto simp: vp_inv_def)
  moreover have "t = mPropType ip \<and> n = mVectorSize ip"
    using calculation t n inv
    by (intro pool_key_inj) (auto simp: ip_inv_def vp_inv_def isDisposable_def)
  ultimately show ?thesis using Some by (simp add: findPool_def)
qed

lemma obtainRecyclable_inv:
  assumes inv: "vp_inv p" and t: "proper_type t" and n: "\<not> isDisposable p t n"
    and single: "isSingleValueType t \<longrightarrow> n = 1" and ob: "obtainRecyclable t n p = (r, p')"
  shows "vp_inv p' \<and> InternalPool_check (findPool p t n) (pv_value (r_value r))"
proof -
  obtain v ip st where o1: "InternalPool_obtain (findPool p t n) (vp_stats p) = (v, ip, st)"
    by (metis prod_cases3)
  note f = findPool_inv [OF inv t n single]
  note io = InternalPool_obtain_inv [OF conjunct1 [OF f] o1]
  from ob o1 have r: "r_value r = v"
    and p': "p' = p\<lparr>mValueTypePools := AList.update (pool_key t n) ip (mValueTypePools p), vp_stats := st\<rparr>"
    by (auto simp: obtainRecyclable_def Let_def)
  show ?thesis
    using inv f io unfolding p' r by (auto simp: vp_inv_def)
qed

lemma obtain_sized_inv [wf_intros]:
  assumes "vp_inv p" and "proper_type t"
  shows "vp_inv (snd (obtain_sized t n p))"
  using assms obtainRecyclable_inv [of p t]
  by (cases "obtainRecyclable t (if isSingleValueType t then 1 else n) p")
    (auto simp: obtain_sized_def Let_def isDisposable_def)

lemma release_inv [wf_intros]:
  assumes "vp_inv p"
  shows "vp_inv (release r p)"
proof (cases "r_deleter r")
  case Disposable
  with assms show ?thesis by (simp add: release_def)
next
  case (RecycleTo key)
  show ?thesis
  proof (cases "map_of (mValueTypePools p) key")
    case None
    with assms RecycleTo show ?thesis by (simp add: release_def)
  next
    case (Some ip)
    obtain ip' st where re: "InternalPool_recycle (Some (r_value r)) ip (vp_stats p) = (ip', st)"
      by fastforce
    from assms Some have "ip_inv ip" by (auto simp: vp_inv_def)
    from InternalPool_recycle_inv [OF this re] assms Some RecycleTo re show ?thesis
      by (auto simp: release_def vp_inv_def)
  qed
qed

lemma obtain_copy_inv [wf_intros]: "vp_inv p \<Longrightarrow> vp_inv (snd (obtain_copy src p))"
  using obtain_sized_inv [of p "getPropType (pv_prop src)"]
  by (auto simp: obtain_copy_def Let_def split: prod.splits)
    (metis snd_conv proper_getPropType)

section \<open>Runs of the pool\<close>

text \<open>
  What clients of the pool do: ask for a value, and drop one, which by then holds whatever they
  wrote into it. The limit and the largest recyclable size are constants of the constructor.
\<close>

inductive pool_step :: "VehiclePropValuePool \<Rightarrow> VehiclePropValuePool \<Rightarrow> bool" where
  step_obtain: "proper_type t \<Longrightarrow> pool_step p (snd (obtain_sized t n p))"
| step_copy: "pool_step p (snd (obtain_copy src p))"
| step_release: "pool_step p (release r p)"

definition fresh_pool :: "VehiclePropValuePool \<Rightarrow> bool" where
  "fresh_pool p \<longleftrightarrow> mValueTypePools p = [] \<and> vp_uninit p = 0 \<and> mMaxRecyclableVectorSize p < 2 ^ 16"

interpretation pool_runs: step_invariant fresh_pool pool_step vp_inv
proof unfold_locales
  show "vp_inv p" if "fresh_pool p" for p
    using that by (simp add: fresh_pool_def vp_inv_def)
  show "vp_inv p'" if "vp_inv p" "pool_step p p'" for p p'
    using that(2,1) by induction (auto intro: wf_intros)
qed

section \<open>The interface of the pool\<close>

text \<open>
  What the property store relies on: a copy obtained from the pool is the value itself, whatever
  the pool holds, and neither obtaining nor releasing breaks the pool.
\<close>

locale value_pool =
  fixes get_copy :: "VehiclePropValue \<Rightarrow> 'p \<Rightarrow> recyclable \<times> 'p"
    and put_back :: "recyclable \<Rightarrow> 'p \<Rightarrow> 'p"
    and pool_ok :: "'p \<Rightarrow> bool"
  assumes copy_same: "r_value (fst (get_copy v p)) = v"
    and copy_ok: "pool_ok p \<Longrightarrow> pool_ok (snd (get_copy v p))"
    and put_ok: "pool_ok p \<Longrightarrow> pool_ok (put_back r p)"
begin

text \<open>Copying a list of values one after the other, as the bulk reads do.\<close>

lemma copy_list_values:
  "map r_value (fst (foldl (\<lambda>(rs, p) v. let (r, p') = get_copy v p in (rs @ [r], p')) (rs0, p0) vs))
     = map r_value rs0 @ vs"
proof (induction vs arbitrary: rs0 p0)
  case Nil
  then show ?case by simp
next
  case (Cons v vs)
  obtain r p' where g: "get_copy v p0 = (r, p')" by fastforce
  then have "r_value r = v" using copy_same [of v p0] by simp
  then show ?case using Cons g by simp
qed

lemma copy_list_ok:
  "pool_ok p0 \<Longrightarrow>
     pool_ok (snd (foldl (\<lambda>(rs, p) v. let (r, p') = get_copy v p in (rs @ [r], p')) (rs0, p0) vs))"
proof (induction vs arbitrary: rs0 p0)
  case Nil
  then show ?case by simp
next
  case (Cons v vs)
  obtain r p' where g: "get_copy v p0 = (r, p')" by fastforce
  then show ?case using Cons copy_ok [of p0 v] by simp
qed

lemma release_list_ok: "pool_ok p \<Longrightarrow> pool_ok (foldl (\<lambda>p r. put_back r p) p rs)"
  by (induction rs arbitrary: p) (auto intro: put_ok)

end

lemma obtain_copy_same: "r_value (fst (obtain_copy src p)) = src"
  by (simp add: obtain_copy_def Let_def split: prod.splits)

interpretation vpool: value_pool obtain_copy release vp_inv
  by unfold_locales (auto intro: wf_intros simp: obtain_copy_same)

section \<open>Properties\<close>


text \<open>C40. In every run of a pool that started empty with a zero size counter, the memory of each
  internal pool stays within the limit, the counter is the true size of the pooled objects, and
  every pooled object has the shape of its pool, whatever clients wrote into the values they
  dropped.\<close>

theorem pool_memory_bounded:
  assumes "fresh_pool p0" and "pool_step\<^sup>*\<^sup>* p0 p" and "map_of (mValueTypePools p) key = Some ip"
  shows "pooled_size ip \<le> unat (vp_maxPoolObjectsSize p) \<and>
    mPoolObjectsSize (ip_pool ip) = of_nat (pooled_size ip) \<and>
    (\<forall>v \<in> set (mObjects (ip_pool ip)). InternalPool_check ip (pv_value v))"
proof -
  from pool_runs.reachable_inv [OF assms(1,2)] have "vp_inv p" .
  with assms(3) have "ip_inv ip \<and> mMaxPoolObjectsSize (ip_pool ip) = vp_maxPoolObjectsSize p"
    by (auto simp: vp_inv_def)
  then show ?thesis by (auto simp: ip_inv_def)
qed


theorem pool_memory_bounded_witness:
  "\<exists>ip. map_of (mValueTypePools (release \<lparr>r_value = createVehiclePropValue INT32,
        r_deleter = RecycleTo (pool_key INT32 1)\<rparr> (snd (obtain_sized INT32 1 (mkValuePool 4 10240 0)))))
        (pool_key INT32 1) = Some ip
     \<and> length (mObjects (ip_pool ip)) = 1 \<and> pooled_size ip \<le> 10240"
proof -
  let ?p0 = "mkValuePool 4 10240 0"
  let ?p1 = "snd (obtain_sized INT32 1 ?p0)"
  let ?r = "\<lparr>r_value = createVehiclePropValue INT32, r_deleter = RecycleTo (pool_key INT32 1)\<rparr>"
  have fresh: "fresh_pool ?p0" by (simp add: fresh_pool_def mkValuePool_def)
  have steps: "pool_step\<^sup>*\<^sup>* ?p0 (release ?r ?p1)"
    by (meson converse_rtranclp_into_rtranclp proper_named(3) rtranclp.rtrancl_refl
        step_obtain step_release)
  obtain ip where ip: "map_of (mValueTypePools (release ?r ?p1)) (pool_key INT32 1) = Some ip"
    and len: "length (mObjects (ip_pool ip)) = 1"
    by (simp add: release_def obtain_sized_def isSingleValueType_def isComplexType_def
        isDisposable_def mkValuePool_def obtainRecyclable_def findPool_def newInternalPool_def
        InternalPool_obtain_def pool_obtain_def InternalPool_recycle_def pool_recycle_def
        InternalPool_check_def check_vec_def InternalPool_createObject_def Let_def
        createVehiclePropValue_def createVehiclePropValueVec_def empty_prop_value_def
        empty_raw_def value_size_def getVehiclePropValueSize_def)
  have "vp_maxPoolObjectsSize (release ?r ?p1) = 10240"
    by (simp add: release_def obtain_sized_def isSingleValueType_def isComplexType_def
        isDisposable_def mkValuePool_def obtainRecyclable_def Let_def
        split: option.splits prod.splits)
  then show ?thesis using pool_memory_bounded [OF fresh steps ip] ip len by auto
qed

text \<open>The typed \<^verbatim>\<open>obtain\<close> calls never write past the end of a recycled vector: on every pool that
  satisfies the invariant they return a value of exactly one element, the one given.\<close>

theorem obtain_scalar_defined:
  assumes "vp_inv p" and "1 \<le> mMaxRecyclableVectorSize p"
  shows "(\<exists>r p'. obtainInt32 i p = Some (r, p') \<and> int32Values (pv_value (r_value r)) = [i]) \<and>
    (\<exists>r p'. obtainInt64 l p = Some (r, p') \<and> int64Values (pv_value (r_value r)) = [l]) \<and>
    (\<exists>r p'. obtainFloat f p = Some (r, p') \<and> floatValues (pv_value (r_value r)) = [f])"
proof -
  have shape: "InternalPool_check (findPool p t 1) (pv_value (r_value (fst (obtain_type t p))))
      \<and> mPropType (findPool p t 1) = t \<and> mVectorSize (findPool p t 1) = 1"
    if t: "t \<in> {INT32, INT64, FLOAT}" for t
  proof -
    have pt: "proper_type t" and sg: "isSingleValueType t" and nd: "\<not> isDisposable p t 1"
      and nc: "\<not> isComplexType t"
      using t assms(2) by (auto simp: isSingleValueType_def isDisposable_def isComplexType_def)
    obtain r p' where ob: "obtainRecyclable t 1 p = (r, p')" by fastforce
    then have "obtain_type t p = (r, p')"
      using sg nd nc by (simp add: obtain_type_def obtain_sized_def)
    then show ?thesis
      using obtainRecyclable_inv [OF assms(1) pt nd _ ob] findPool_inv [OF assms(1) pt nd] by simp
  qed
  have one: "length xs = 1 \<Longrightarrow> set_first x xs = Some [x]" for x :: 'x and xs
    by (cases xs) (auto simp: set_first_def)
  show ?thesis
    using shape [of INT32] shape [of INT64] shape [of FLOAT] one
    by (auto simp: obtainInt32_def obtainInt64_def obtainFloat_def Let_def InternalPool_check_def
        check_vec_def set_first_def length_Suc_conv split: prod.splits)
qed

theorem obtain_scalar_defined_witness:
  "\<exists>r p'. obtainInt32 42 (mkValuePool 4 10240 0) = Some (r, p') \<and>
     int32Values (pv_value (r_value r)) = [42]"
proof -
  have "vp_inv (mkValuePool 4 10240 0)" by (simp add: vp_inv_def mkValuePool_def)
  moreover have "1 \<le> mMaxRecyclableVectorSize (mkValuePool 4 10240 0)" by (simp add: mkValuePool_def)
  ultimately show ?thesis using obtain_scalar_defined by blast
qed

text \<open>If the memory of a new pool held a number above its limit, the pool never keeps an object:
  every value dropped into it is deleted, so recycling is lost although nothing was pooled.\<close>

theorem uninitialised_size_disables_recycling:
  assumes "vp_maxPoolObjectsSize p < vp_uninit p"
  shows "fst (InternalPool_recycle (Some v) (newInternalPool p t n) st) = newInternalPool p t n"
proof -
  have "mx - s < g" if "mx < g" "\<not> mx < s" for mx s g :: size_t
    using that by (metis le_less_trans linorder_not_less word_sub_le)
  then show ?thesis
    using assms by (auto simp: InternalPool_recycle_def pool_recycle_def newInternalPool_def Let_def
        split: prod.splits if_splits)
qed

theorem uninitialised_size_disables_recycling_witness:
  "fst (InternalPool_recycle (Some (createVehiclePropValue INT32))
      (newInternalPool (mkValuePool 4 10240 0xFFFFFFFFFF) INT32 1)
      \<lparr>Obtained = 0, Created = 0, Recycled = 0, Deleted = 0\<rparr>)
    = newInternalPool (mkValuePool 4 10240 0xFFFFFFFFFF) INT32 1"
  by (rule uninitialised_size_disables_recycling) (simp add: mkValuePool_def)

end
