(* ===== verification/PropertyStore.thy ===== *)
theory PropertyStore
  imports ObjectPool
begin

text \<open>
  \<^verbatim>\<open>VehiclePropertyStore.h\<close> and \<^verbatim>\<open>VehiclePropertyStore.cpp\<close>: the store of property configurations and
  values. Every method holds \<^verbatim>\<open>mLock\<close> from its first to its last access to the state, so a method is
  one atomic step on the record \<open>VehiclePropertyStore\<close>. The store owns pooled values: overwriting,
  removing or rejecting a value releases it to the value pool, and a read obtains a copy there.
  Callbacks run after the lock is released; a method returns the calls it makes.
  \<^verbatim>\<open>elapsedRealtimeNano()\<close> is an argument.
\<close>

section \<open>State\<close>

datatype EventMode = ON_VALUE_CHANGE | ALWAYS | NEVER

record RecordId =
  rid_area :: int32
  rid_token :: int64

record Record =
  propConfig :: VehiclePropConfig
  tokenFunction :: "(VehiclePropValue \<Rightarrow> int64) option"
  rec_values :: "(RecordId \<times> recyclable) list"

record VehiclePropertyStore =
  mValuePool :: VehiclePropValuePool
  mRecordsByPropId :: "(int32 \<times> Record) list"
  mOnValueChangeCallback :: bool
  mOnValuesChangeCallback :: bool

datatype callback_call = OnValueChange VehiclePropValue | OnValuesChange "VehiclePropValue list"

section \<open>Private helpers\<close>

definition getRecordLocked :: "VehiclePropertyStore \<Rightarrow> int32 \<Rightarrow> Record option" where
  "getRecordLocked s propId = map_of (mRecordsByPropId s) propId"

definition getRecordIdLocked :: "VehiclePropValue \<Rightarrow> Record \<Rightarrow> RecordId" where
  "getRecordIdLocked v record =
     \<lparr>rid_area = (if isGlobalProp (pv_prop v) then 0 else pv_areaId v),
      rid_token = (case tokenFunction record of None \<Rightarrow> 0 | Some f \<Rightarrow> f v)\<rparr>"

definition readValueLocked ::
  "RecordId \<Rightarrow> Record \<Rightarrow> VehiclePropertyStore \<Rightarrow> recyclable VhalResult \<times> VehiclePropertyStore" where
  "readValueLocked recId record s =
     (case map_of (rec_values record) recId of
        Some r \<Rightarrow> (let (copy, pool) = obtain_copy (r_value r) (mValuePool s)
                   in (Inr copy, s\<lparr>mValuePool := pool\<rparr>))
      | None \<Rightarrow> (Inl NOT_AVAILABLE, s))"

text \<open>Dropping smart pointers and replacing one record.\<close>

definition drop_value :: "recyclable \<Rightarrow> VehiclePropertyStore \<Rightarrow> VehiclePropertyStore" where
  "drop_value r s = s\<lparr>mValuePool := release r (mValuePool s)\<rparr>"

definition drop_values :: "recyclable list \<Rightarrow> VehiclePropertyStore \<Rightarrow> VehiclePropertyStore" where
  "drop_values rs s = s\<lparr>mValuePool := foldl (\<lambda>p r. release r p) (mValuePool s) rs\<rparr>"

definition put_record :: "int32 \<Rightarrow> Record \<Rightarrow> VehiclePropertyStore \<Rightarrow> VehiclePropertyStore" where
  "put_record propId record s =
     s\<lparr>mRecordsByPropId := AList.update propId record (mRecordsByPropId s)\<rparr>"

section \<open>Operations\<close>

definition registerProperty ::
  "VehiclePropConfig \<Rightarrow> (VehiclePropValue \<Rightarrow> int64) option \<Rightarrow> VehiclePropertyStore \<Rightarrow>
     VehiclePropertyStore" where
  "registerProperty config tokenFunc s =
     (let old = (case getRecordLocked s (pc_prop config) of
                   None \<Rightarrow> [] | Some record \<Rightarrow> map snd (rec_values record))
      in drop_values old
           (put_record (pc_prop config)
              \<lparr>propConfig = config, tokenFunction = tokenFunc, rec_values = []\<rparr> s))"

definition change_events ::
  "VehiclePropertyStore \<Rightarrow> EventMode \<Rightarrow> bool \<Rightarrow> VehiclePropValue \<Rightarrow> callback_call list" where
  "change_events s eventMode valueUpdated updatedValue =
     (if eventMode = NEVER then []
      else if \<not> mOnValuesChangeCallback s \<and> \<not> mOnValueChangeCallback s then []
      else if eventMode = ALWAYS \<or> valueUpdated
      then (if mOnValuesChangeCallback s then [OnValuesChange [updatedValue]]
            else [OnValueChange updatedValue])
      else [])"

definition writeValue ::
  "recyclable \<Rightarrow> bool \<Rightarrow> EventMode \<Rightarrow> bool \<Rightarrow> int64 \<Rightarrow> VehiclePropertyStore \<Rightarrow>
     unit VhalResult \<times> callback_call list \<times> VehiclePropertyStore" where
  "writeValue propValue updateStatus eventMode useCurrentTimestamp now s =
     (let v = (if useCurrentTimestamp then (r_value propValue)\<lparr>pv_timestamp := now\<rparr>
               else r_value propValue);
          ptr = propValue\<lparr>r_value := v\<rparr>;
          propId = pv_prop v
      in case getRecordLocked s propId of
           None \<Rightarrow> (Inl INVALID_ARG, [], drop_value ptr s)
         | Some record \<Rightarrow>
             if \<not> isGlobalProp propId \<and> getAreaConfig_value v (propConfig record) = None
             then (Inl INVALID_ARG, [], drop_value ptr s)
             else
               let recId = getRecordIdLocked v record;
                   store = (\<lambda>v'. put_record propId
                              (record\<lparr>rec_values :=
                                 AList.update recId (ptr\<lparr>r_value := v'\<rparr>) (rec_values record)\<rparr>) s)
               in case map_of (rec_values record) recId of
                    Some old \<Rightarrow>
                      if sint (pv_timestamp (r_value old)) > sint (pv_timestamp v)
                      then (Inl INVALID_ARG, [], drop_value ptr s)
                      else let v' = (if updateStatus then v else v\<lparr>pv_status := pv_status (r_value old)\<rparr>);
                               valueUpdated = (\<not> raw_eq (pv_value (r_value old)) (pv_value v') \<or>
                                               pv_status (r_value old) \<noteq> pv_status v')
                           in (Inr (), change_events s eventMode valueUpdated v',
                               drop_value old (store v'))
                  | None \<Rightarrow>
                      let v' = (if updateStatus then v else v\<lparr>pv_status := AVAILABLE\<rparr>)
                      in (Inr (), change_events s eventMode True v', store v'))"

text \<open>
  One turn of the loop of \<^verbatim>\<open>refreshTimestamps\<close>; the clock is read again for every stored value, so
  the \<open>i\<close>-th reading is an argument.
\<close>

definition refreshOne ::
  "(nat \<Rightarrow> int64) \<Rightarrow> PropIdAreaId \<times> EventMode \<Rightarrow>
     VehiclePropertyStore \<times> VehiclePropValue list \<times> nat \<Rightarrow>
     VehiclePropertyStore \<times> VehiclePropValue list \<times> nat" where
  "refreshOne clock entry st =
     (case (entry, st) of ((pa, eventMode), (s, updated, i)) \<Rightarrow>
        (case getRecordLocked s (pa_propId pa) of
           None \<Rightarrow> (s, updated, i)
         | Some record \<Rightarrow>
             let v = empty_prop_value\<lparr>pv_areaId := pa_areaId pa, pv_prop := pa_propId pa\<rparr>;
                 recId = getRecordIdLocked v record
             in case map_of (rec_values record) recId of
                  None \<Rightarrow> (s, updated, i)
                | Some r \<Rightarrow>
                    let v' = (r_value r)\<lparr>pv_timestamp := clock i\<rparr>
                    in (put_record (pa_propId pa)
                          (record\<lparr>rec_values := AList.update recId (r\<lparr>r_value := v'\<rparr>) (rec_values record)\<rparr>) s,
                        (if eventMode = ALWAYS then updated @ [v'] else updated), Suc i)))"

definition refreshTimestamps ::
  "(nat \<Rightarrow> int64) \<Rightarrow> (PropIdAreaId \<times> EventMode) list \<Rightarrow> VehiclePropertyStore \<Rightarrow>
     callback_call list \<times> VehiclePropertyStore" where
  "refreshTimestamps clock entries s =
     (let (s', updated, _) = fold (refreshOne clock) entries (s, [], 0)
      in (if updated = [] then []
          else if \<not> mOnValuesChangeCallback s \<and> \<not> mOnValueChangeCallback s then []
          else if mOnValuesChangeCallback s then [OnValuesChange updated]
          else map OnValueChange updated, s'))"

definition refreshTimestamp ::
  "(nat \<Rightarrow> int64) \<Rightarrow> int32 \<Rightarrow> int32 \<Rightarrow> EventMode \<Rightarrow> VehiclePropertyStore \<Rightarrow>
     callback_call list \<times> VehiclePropertyStore" where
  "refreshTimestamp clock propId areaId eventMode s =
     refreshTimestamps clock [(\<lparr>pa_propId = propId, pa_areaId = areaId\<rparr>, eventMode)] s"

definition removeValue :: "VehiclePropValue \<Rightarrow> VehiclePropertyStore \<Rightarrow> VehiclePropertyStore" where
  "removeValue v s =
     (case getRecordLocked s (pv_prop v) of
        None \<Rightarrow> s
      | Some record \<Rightarrow>
          let recId = getRecordIdLocked v record
          in case map_of (rec_values record) recId of
               None \<Rightarrow> s
             | Some r \<Rightarrow>
                 drop_value r (put_record (pv_prop v)
                   (record\<lparr>rec_values := AList.delete recId (rec_values record)\<rparr>) s))"

definition removeValuesForProperty :: "int32 \<Rightarrow> VehiclePropertyStore \<Rightarrow> VehiclePropertyStore" where
  "removeValuesForProperty propId s =
     (case getRecordLocked s propId of
        None \<Rightarrow> s
      | Some record \<Rightarrow>
          drop_values (map snd (rec_values record))
            (put_record propId (record\<lparr>rec_values := []\<rparr>) s))"

text \<open>The bulk reads copy value after value out of the pool.\<close>

definition obtain_copies ::
  "VehiclePropValue list \<Rightarrow> VehiclePropValuePool \<Rightarrow> recyclable list \<times> VehiclePropValuePool" where
  "obtain_copies vs p =
     foldl (\<lambda>(rs, p) v. let (r, p') = obtain_copy v p in (rs @ [r], p')) ([], p) vs"

definition readAllValues ::
  "VehiclePropertyStore \<Rightarrow> recyclable list \<times> VehiclePropertyStore" where
  "readAllValues s =
     (let (rs, p) = obtain_copies
            (concat (map (\<lambda>(_, record). map (r_value \<circ> snd) (rec_values record)) (mRecordsByPropId s)))
            (mValuePool s)
      in (rs, s\<lparr>mValuePool := p\<rparr>))"

definition readValuesForProperty ::
  "int32 \<Rightarrow> VehiclePropertyStore \<Rightarrow> recyclable list VhalResult \<times> VehiclePropertyStore" where
  "readValuesForProperty propId s =
     (case getRecordLocked s propId of
        None \<Rightarrow> (Inl INVALID_ARG, s)
      | Some record \<Rightarrow>
          let (rs, p) = obtain_copies (map (r_value \<circ> snd) (rec_values record)) (mValuePool s)
          in (Inr rs, s\<lparr>mValuePool := p\<rparr>))"

definition readValue ::
  "VehiclePropValue \<Rightarrow> VehiclePropertyStore \<Rightarrow> recyclable VhalResult \<times> VehiclePropertyStore" where
  "readValue v s =
     (case getRecordLocked s (pv_prop v) of
        None \<Rightarrow> (Inl INVALID_ARG, s)
      | Some record \<Rightarrow> readValueLocked (getRecordIdLocked v record) record s)"

definition readValue_token ::
  "int32 \<Rightarrow> int32 \<Rightarrow> int64 \<Rightarrow> VehiclePropertyStore \<Rightarrow> recyclable VhalResult \<times> VehiclePropertyStore"
where
  "readValue_token propId areaId token s =
     (case getRecordLocked s propId of
        None \<Rightarrow> (Inl INVALID_ARG, s)
      | Some record \<Rightarrow>
          readValueLocked \<lparr>rid_area = (if isGlobalProp propId then 0 else areaId), rid_token = token\<rparr>
            record s)"

definition getAllConfigs :: "VehiclePropertyStore \<Rightarrow> VehiclePropConfig list" where
  "getAllConfigs s = map (propConfig \<circ> snd) (mRecordsByPropId s)"

definition getConfig :: "int32 \<Rightarrow> VehiclePropertyStore \<Rightarrow> VehiclePropConfig VhalResult" where
  "getConfig propId s =
     (case getRecordLocked s propId of
        None \<Rightarrow> Inl INVALID_ARG | Some record \<Rightarrow> Inr (propConfig record))"

definition getPropConfig :: "int32 \<Rightarrow> VehiclePropertyStore \<Rightarrow> VehiclePropConfig VhalResult" where
  "getPropConfig propId s =
     (case getRecordLocked s propId of
        None \<Rightarrow> Inl INVALID_ARG | Some record \<Rightarrow> Inr (propConfig record))"

definition setOnValueChangeCallback :: "bool \<Rightarrow> VehiclePropertyStore \<Rightarrow> VehiclePropertyStore" where
  "setOnValueChangeCallback callback s = s\<lparr>mOnValueChangeCallback := callback\<rparr>"

definition setOnValuesChangeCallback :: "bool \<Rightarrow> VehiclePropertyStore \<Rightarrow> VehiclePropertyStore" where
  "setOnValuesChangeCallback callback s = s\<lparr>mOnValuesChangeCallback := callback\<rparr>"

section \<open>The store as a map\<close>

text \<open>
  The abstract store: property id and record id to value. It forgets which pooled object holds a
  value, the callbacks and the configurations.
\<close>

definition abs_store :: "VehiclePropertyStore \<Rightarrow> int32 \<times> RecordId \<Rightarrow> VehiclePropValue option" where
  "abs_store s k =
     Option.bind (getRecordLocked s (fst k)) (\<lambda>record. map_option r_value (map_of (rec_values record) (snd k)))"

definition store_key :: "VehiclePropertyStore \<Rightarrow> VehiclePropValue \<Rightarrow> (int32 \<times> RecordId) option" where
  "store_key s v =
     map_option (\<lambda>record. (pv_prop v, getRecordIdLocked v record)) (getRecordLocked s (pv_prop v))"

lemma getRecord_put [simp]:
  "getRecordLocked (put_record p record s) q = (if q = p then Some record else getRecordLocked s q)"
  by (simp add: getRecordLocked_def put_record_def)

lemma getRecord_drop [simp]:
  "getRecordLocked (drop_value r s) = getRecordLocked s"
  "getRecordLocked (drop_values rs s) = getRecordLocked s"
  "getRecordLocked (s\<lparr>mValuePool := pool\<rparr>) = getRecordLocked s"
  by (simp_all add: getRecordLocked_def drop_value_def drop_values_def fun_eq_iff)

lemma abs_drop [simp]:
  "abs_store (drop_value r s) = abs_store s"
  "abs_store (drop_values rs s) = abs_store s"
  "abs_store (s\<lparr>mValuePool := pool\<rparr>) = abs_store s"
  by (simp_all add: abs_store_def fun_eq_iff)

lemma abs_put:
  assumes "getRecordLocked s p = Some record"
  shows "abs_store (put_record p (record\<lparr>rec_values := AList.update rid r (rec_values record)\<rparr>) s)
    = (abs_store s)((p, rid) \<mapsto> r_value r)"
  using assms by (auto simp: abs_store_def fun_eq_iff)

lemma abs_delete:
  assumes "getRecordLocked s p = Some record"
  shows "abs_store (put_record p (record\<lparr>rec_values := AList.delete rid (rec_values record)\<rparr>) s)
    = (abs_store s)((p, rid) := None)"
  using assms by (auto simp: abs_store_def fun_eq_iff)

lemma abs_lookup:
  "getRecordLocked s p = Some record \<Longrightarrow>
     abs_store s (p, rid) = map_option r_value (map_of (rec_values record) rid)"
  by (simp add: abs_store_def)

text \<open>What a write is meant to do, on the map.\<close>

definition stamped :: "recyclable \<Rightarrow> bool \<Rightarrow> int64 \<Rightarrow> VehiclePropValue" where
  "stamped r useCurrentTimestamp now =
     (if useCurrentTimestamp then (r_value r)\<lparr>pv_timestamp := now\<rparr> else r_value r)"

definition write_allowed :: "VehiclePropertyStore \<Rightarrow> VehiclePropValue \<Rightarrow> bool" where
  "write_allowed s v \<longleftrightarrow>
     (case getRecordLocked s (pv_prop v) of
        None \<Rightarrow> False
      | Some record \<Rightarrow>
          (isGlobalProp (pv_prop v) \<or> getAreaConfig_value v (propConfig record) \<noteq> None) \<and>
          (case abs_store s (pv_prop v, getRecordIdLocked v record) of
             None \<Rightarrow> True
           | Some old \<Rightarrow> sint (pv_timestamp old) \<le> sint (pv_timestamp v)))"

definition written_value ::
  "VehiclePropertyStore \<Rightarrow> int32 \<times> RecordId \<Rightarrow> bool \<Rightarrow> VehiclePropValue \<Rightarrow> VehiclePropValue" where
  "written_value s k updateStatus v =
     (if updateStatus then v
      else v\<lparr>pv_status := (case abs_store s k of None \<Rightarrow> AVAILABLE | Some old \<Rightarrow> pv_status old)\<rparr>)"

definition value_changed :: "VehiclePropValue option \<Rightarrow> VehiclePropValue \<Rightarrow> bool" where
  "value_changed old v =
     (case old of
        None \<Rightarrow> True
      | Some old \<Rightarrow> \<not> raw_eq (pv_value old) (pv_value v) \<or> pv_status old \<noteq> pv_status v)"

lemma writeValue_denied:
  assumes "\<not> write_allowed s (stamped r uct now)"
  shows "\<exists>r'. writeValue r us em uct now s = (Inl INVALID_ARG, [], drop_value r' s)"
proof -
  let ?v = "stamped r uct now"
  have v: "(if uct then (r_value r)\<lparr>pv_timestamp := now\<rparr> else r_value r) = ?v"
    by (simp add: stamped_def)
  show ?thesis
  proof (cases "getRecordLocked s (pv_prop ?v)")
    case None
    then show ?thesis unfolding writeValue_def v Let_def by auto
  next
    case (Some rc)
    show ?thesis
    proof (cases "\<not> isGlobalProp (pv_prop ?v) \<and> getAreaConfig_value ?v (propConfig rc) = None")
      case True
      with Some show ?thesis unfolding writeValue_def v Let_def by auto
    next
      case False
      with assms Some obtain old
        where "map_of (rec_values rc) (getRecordIdLocked ?v rc) = Some old"
          and "sint (pv_timestamp ?v) < sint (pv_timestamp (r_value old))"
        by (auto simp: write_allowed_def abs_lookup split: option.splits)
      with Some False show ?thesis unfolding writeValue_def v Let_def by auto
    qed
  qed
qed

text \<open>Releasing the value a write replaced, if there was one.\<close>

definition upto_drop :: "VehiclePropertyStore \<Rightarrow> VehiclePropertyStore \<Rightarrow> bool" where
  "upto_drop s t \<longleftrightarrow> t = s \<or> (\<exists>old. t = drop_value old s)"

lemma upto_drop_abs: "upto_drop s t \<Longrightarrow> abs_store t = abs_store s"
  by (auto simp: upto_drop_def)

lemma writeValue_allowed:
  assumes "write_allowed s (stamped r uct now)"
  obtains rc x s' where "getRecordLocked s (pv_prop (stamped r uct now)) = Some rc"
    and "r_value x = written_value s (pv_prop (stamped r uct now),
           getRecordIdLocked (stamped r uct now) rc) us (stamped r uct now)"
    and "writeValue r us em uct now s =
      (Inr (), change_events s em (value_changed (abs_store s (pv_prop (stamped r uct now),
         getRecordIdLocked (stamped r uct now) rc)) (r_value x)) (r_value x), s')"
    and "upto_drop (put_record (pv_prop (stamped r uct now)) (rc\<lparr>rec_values :=
      AList.update (getRecordIdLocked (stamped r uct now) rc) x (rec_values rc)\<rparr>) s) s'"
proof -
  let ?v = "stamped r uct now"
  have v: "(if uct then (r_value r)\<lparr>pv_timestamp := now\<rparr> else r_value r) = ?v"
    by (simp add: stamped_def)
  obtain rc where rec: "getRecordLocked s (pv_prop ?v) = Some rc"
    and area: "isGlobalProp (pv_prop ?v) \<or> getAreaConfig_value ?v (propConfig rc) \<noteq> None"
    and fresh: "\<And>old. map_of (rec_values rc) (getRecordIdLocked ?v rc) = Some old \<Longrightarrow>
      sint (pv_timestamp (r_value old)) \<le> sint (pv_timestamp ?v)"
    using assms by (auto simp: write_allowed_def abs_lookup split: option.splits)
  let ?rid = "getRecordIdLocked ?v rc"
  let ?k = "(pv_prop ?v, ?rid)"
  let ?w = "written_value s ?k us ?v"
  let ?x = "r\<lparr>r_value := ?w\<rparr>"
  let ?put = "put_record (pv_prop ?v) (rc\<lparr>rec_values := AList.update ?rid ?x (rec_values rc)\<rparr>) s"
  show ?thesis
  proof (cases "map_of (rec_values rc) ?rid")
    case None
    with rec area have "writeValue r us em uct now s =
        (Inr (), change_events s em (value_changed (abs_store s ?k) ?w) ?w, ?put)"
      unfolding writeValue_def v Let_def
      by (auto simp: written_value_def value_changed_def abs_lookup)
    then show ?thesis by (intro that [OF rec, of ?x]) (auto simp: upto_drop_def)
  next
    case (Some old)
    with rec area fresh [OF Some] have "writeValue r us em uct now s =
        (Inr (), change_events s em (value_changed (abs_store s ?k) ?w) ?w, drop_value old ?put)"
      unfolding writeValue_def v Let_def
      by (auto simp: written_value_def value_changed_def abs_lookup)
    then show ?thesis by (intro that [OF rec, of ?x]) (auto simp: upto_drop_def)
  qed
qed

lemma writeValue_abs:
  assumes "write_allowed s (stamped r uct now)" and "store_key s (stamped r uct now) = Some k"
  shows "\<exists>s'. writeValue r us em uct now s = (Inr (), change_events s em (value_changed (abs_store s k)
      (written_value s k us (stamped r uct now))) (written_value s k us (stamped r uct now)), s') \<and>
    abs_store s' = (abs_store s)(k \<mapsto> written_value s k us (stamped r uct now))"
proof -
  obtain rc x s' where w: "getRecordLocked s (pv_prop (stamped r uct now)) = Some rc"
    "r_value x = written_value s (pv_prop (stamped r uct now),
       getRecordIdLocked (stamped r uct now) rc) us (stamped r uct now)"
    "writeValue r us em uct now s =
      (Inr (), change_events s em (value_changed (abs_store s (pv_prop (stamped r uct now),
         getRecordIdLocked (stamped r uct now) rc)) (r_value x)) (r_value x), s')"
    "upto_drop (put_record (pv_prop (stamped r uct now)) (rc\<lparr>rec_values :=
      AList.update (getRecordIdLocked (stamped r uct now) rc) x (rec_values rc)\<rparr>) s) s'"
    by (rule writeValue_allowed [OF assms(1)])
  moreover from w(1) assms(2) have "k = (pv_prop (stamped r uct now), getRecordIdLocked (stamped r uct now) rc)"
    by (simp add: store_key_def)
  ultimately show ?thesis by (simp add: upto_drop_abs abs_put)
qed

section \<open>Invariant\<close>

definition entry_ok :: "int32 \<Rightarrow> VehiclePropConfig \<Rightarrow> RecordId \<Rightarrow> VehiclePropValue \<Rightarrow> bool" where
  "entry_ok p config rid v \<longleftrightarrow>
     pv_prop v = p \<and> rid_area rid = (if isGlobalProp p then 0 else pv_areaId v) \<and>
     (isGlobalProp p \<or> getAreaConfig_value v config \<noteq> None)"

definition record_ok :: "int32 \<Rightarrow> Record \<Rightarrow> bool" where
  "record_ok p record \<longleftrightarrow>
     pc_prop (propConfig record) = p \<and> wf_alist (rec_values record) \<and>
     (\<forall>rid r. map_of (rec_values record) rid = Some r \<longrightarrow>
        entry_ok p (propConfig record) rid (r_value r))"

definition store_inv :: "VehiclePropertyStore \<Rightarrow> bool" where
  "store_inv s \<longleftrightarrow>
     wf_alist (mRecordsByPropId s) \<and> vp_inv (mValuePool s) \<and>
     (\<forall>p record. getRecordLocked s p = Some record \<longrightarrow> record_ok p record)"

lemma store_invD: "store_inv s \<Longrightarrow> getRecordLocked s p = Some record \<Longrightarrow> record_ok p record"
  by (simp add: store_inv_def)

lemma store_inv_drop [wf_intros]:
  "store_inv s \<Longrightarrow> store_inv (drop_value r s)"
  "store_inv s \<Longrightarrow> store_inv (drop_values rs s)"
  by (auto simp: store_inv_def drop_value_def drop_values_def getRecordLocked_def
      intro: wf_intros vpool.release_list_ok)

lemma store_inv_put [wf_intros]:
  "store_inv s \<Longrightarrow> record_ok p record \<Longrightarrow> store_inv (put_record p record s)"
  by (auto simp: store_inv_def) (auto simp: put_record_def)

lemma store_inv_pool [wf_intros]:
  "store_inv s \<Longrightarrow> vp_inv pool \<Longrightarrow> store_inv (s\<lparr>mValuePool := pool\<rparr>)"
  by (auto simp: store_inv_def getRecordLocked_def)

lemma record_ok_update:
  "record_ok p record \<Longrightarrow> entry_ok p (propConfig record) rid (r_value r) \<Longrightarrow>
     record_ok p (record\<lparr>rec_values := AList.update rid r (rec_values record)\<rparr>)"
  by (auto simp: record_ok_def)

lemma record_ok_delete:
  "record_ok p record \<Longrightarrow> record_ok p (record\<lparr>rec_values := AList.delete rid (rec_values record)\<rparr>)"
  by (auto simp: record_ok_def)

lemma record_ok_empty:
  "record_ok p record \<Longrightarrow> record_ok p (record\<lparr>rec_values := []\<rparr>)"
  "record_ok (pc_prop config) \<lparr>propConfig = config, tokenFunction = f, rec_values = []\<rparr>"
  by (auto simp: record_ok_def)

lemma registerProperty_inv [wf_intros]: "store_inv s \<Longrightarrow> store_inv (registerProperty config f s)"
  by (auto simp: registerProperty_def Let_def intro!: wf_intros record_ok_empty)

lemma written_value_fields [simp]:
  "pv_prop (written_value s k us v) = pv_prop v"
  "pv_areaId (written_value s k us v) = pv_areaId v"
  "pv_timestamp (written_value s k us v) = pv_timestamp v"
  "getAreaConfig_value (written_value s k us v) = getAreaConfig_value v"
  by (simp_all add: written_value_def getAreaConfig_value_def fun_eq_iff)

lemma writeValue_inv [wf_intros]:
  assumes "store_inv s"
  shows "store_inv (snd (snd (writeValue r us em uct now s)))"
proof (cases "write_allowed s (stamped r uct now)")
  case False
  from writeValue_denied [OF this] obtain r'
    where "writeValue r us em uct now s = (Inl INVALID_ARG, [], drop_value r' s)" by blast
  with assms show ?thesis by (auto intro: wf_intros)
next
  case True
  let ?v = "stamped r uct now"
  obtain rc x s' where rec: "getRecordLocked s (pv_prop ?v) = Some rc"
      and x: "r_value x = written_value s (pv_prop ?v, getRecordIdLocked ?v rc) us ?v"
      and w: "writeValue r us em uct now s =
        (Inr (), change_events s em (value_changed (abs_store s (pv_prop ?v,
           getRecordIdLocked ?v rc)) (r_value x)) (r_value x), s')"
      and s': "upto_drop (put_record (pv_prop ?v) (rc\<lparr>rec_values :=
            AList.update (getRecordIdLocked ?v rc) x (rec_values rc)\<rparr>) s) s'"
    by (rule writeValue_allowed [OF True])
  have "isGlobalProp (pv_prop ?v) \<or> getAreaConfig_value ?v (propConfig rc) \<noteq> None"
    using True rec by (simp add: write_allowed_def)
  then have "entry_ok (pv_prop ?v) (propConfig rc) (getRecordIdLocked ?v rc) (r_value x)"
    unfolding x by (simp add: entry_ok_def getRecordIdLocked_def)
  with assms rec have "record_ok (pv_prop ?v) (rc\<lparr>rec_values :=
      AList.update (getRecordIdLocked ?v rc) x (rec_values rc)\<rparr>)"
    by (intro record_ok_update) (auto dest: store_invD)
  with assms s' show ?thesis unfolding w by (auto simp: upto_drop_def intro: wf_intros)
qed

lemma refreshOne_inv:
  assumes "store_inv s"
  shows "store_inv (fst (refreshOne clock e (s, u, i)))"
proof -
  have "entry_ok p c rid (v\<lparr>pv_timestamp := t\<rparr>) = entry_ok p c rid v" for p c rid v t
    by (simp add: entry_ok_def getAreaConfig_value_def)
  with assms show ?thesis
    by (auto simp: refreshOne_def Let_def split: option.splits prod.splits
        intro!: wf_intros record_ok_update dest: store_invD)
      (auto simp: record_ok_def dest!: store_invD)
qed

lemma refresh_fold_inv: "store_inv s \<Longrightarrow> store_inv (fst (fold (refreshOne clock) es (s, u, i)))"
proof (induction es arbitrary: s u i)
  case Nil
  then show ?case by simp
next
  case (Cons e es)
  obtain s' u' i' where "refreshOne clock e (s, u, i) = (s', u', i')" by (metis prod_cases3)
  with Cons refreshOne_inv [OF Cons.prems, of clock e u i] show ?case by simp
qed

lemma refreshTimestamps_inv [wf_intros]:
  "store_inv s \<Longrightarrow> store_inv (snd (refreshTimestamps clock es s))"
  using refresh_fold_inv [of s clock es "[]" 0]
  by (auto simp: refreshTimestamps_def split: prod.splits)

lemma removeValue_inv [wf_intros]: "store_inv s \<Longrightarrow> store_inv (removeValue v s)"
  by (auto simp: removeValue_def Let_def split: option.split
      intro!: wf_intros record_ok_delete dest: store_invD)

lemma removeValuesForProperty_inv [wf_intros]:
  "store_inv s \<Longrightarrow> store_inv (removeValuesForProperty p s)"
  by (auto simp: removeValuesForProperty_def split: option.split
      intro!: wf_intros record_ok_empty dest: store_invD)

lemma readValueLocked_inv: "store_inv s \<Longrightarrow> store_inv (snd (readValueLocked rid record s))"
  using obtain_copy_inv [of "mValuePool s"]
  by (auto simp: readValueLocked_def store_inv_def getRecordLocked_def split: option.split prod.split)
    (metis snd_conv)+

lemma readValue_inv [wf_intros]: "store_inv s \<Longrightarrow> store_inv (snd (readValue v s))"
  by (auto simp: readValue_def readValueLocked_inv split: option.split)

lemma readValue_token_inv [wf_intros]: "store_inv s \<Longrightarrow> store_inv (snd (readValue_token p a t s))"
  by (auto simp: readValue_token_def readValueLocked_inv split: option.split)

lemma obtain_copies_inv: "vp_inv p \<Longrightarrow> vp_inv (snd (obtain_copies vs p))"
  unfolding obtain_copies_def by (rule vpool.copy_list_ok)

lemma readAllValues_inv [wf_intros]: "store_inv s \<Longrightarrow> store_inv (snd (readAllValues s))"
  by (auto simp: readAllValues_def split: prod.split intro!: wf_intros)
    (metis obtain_copies_inv snd_conv store_inv_def)

lemma readValuesForProperty_inv [wf_intros]:
  "store_inv s \<Longrightarrow> store_inv (snd (readValuesForProperty p s))"
  by (auto simp: readValuesForProperty_def split: option.split prod.split intro!: wf_intros)
    (metis obtain_copies_inv snd_conv store_inv_def)

lemma setCallbacks_inv [wf_intros]:
  "store_inv s \<Longrightarrow> store_inv (setOnValueChangeCallback b s)"
  "store_inv s \<Longrightarrow> store_inv (setOnValuesChangeCallback b s)"
  by (simp_all add: setOnValueChangeCallback_def setOnValuesChangeCallback_def store_inv_def
      getRecordLocked_def)

section \<open>Runs of the store\<close>

inductive store_step :: "VehiclePropertyStore \<Rightarrow> VehiclePropertyStore \<Rightarrow> bool" where
  s_register: "store_step s (registerProperty config f s)"
| s_write: "store_step s (snd (snd (writeValue r us em uct now s)))"
| s_refresh: "store_step s (snd (refreshTimestamps clock es s))"
| s_remove: "store_step s (removeValue v s)"
| s_remove_all: "store_step s (removeValuesForProperty p s)"
| s_read: "store_step s (snd (readValue v s))"
| s_read_token: "store_step s (snd (readValue_token p a t s))"
| s_read_all: "store_step s (snd (readAllValues s))"
| s_read_prop: "store_step s (snd (readValuesForProperty p s))"
| s_callback: "store_step s (setOnValueChangeCallback b s)"
| s_callbacks: "store_step s (setOnValuesChangeCallback b s)"

definition fresh_store :: "VehiclePropertyStore \<Rightarrow> bool" where
  "fresh_store s \<longleftrightarrow> mRecordsByPropId s = [] \<and> fresh_pool (mValuePool s)"

interpretation store_runs: step_invariant fresh_store store_step store_inv
proof unfold_locales
  show "store_inv s" if "fresh_store s" for s
    using that pool_runs.start_inv by (simp add: fresh_store_def store_inv_def getRecordLocked_def)
  show "store_inv t" if "store_inv s" "store_step s t" for s t
    using that(2,1)
    by induction (auto intro: wf_intros)
qed

section \<open>Refreshing timestamps\<close>

definition refresh_key :: "VehiclePropertyStore \<Rightarrow> PropIdAreaId \<times> EventMode \<Rightarrow> (int32 \<times> RecordId) option" where
  "refresh_key s e =
     store_key s (empty_prop_value\<lparr>pv_areaId := pa_areaId (fst e), pv_prop := pa_propId (fst e)\<rparr>)"

lemma refreshOne_cases:
  assumes "refreshOne clock e (s, u, i) = (s', u', i')"
  shows "(\<exists>k v. refresh_key s e = Some k \<and> abs_store s k = Some v \<and>
      abs_store s' = (abs_store s)(k \<mapsto> v\<lparr>pv_timestamp := clock i\<rparr>) \<and>
      u' = (if snd e = ALWAYS then u @ [v\<lparr>pv_timestamp := clock i\<rparr>] else u))
    \<or> ((\<forall>k. refresh_key s e = Some k \<longrightarrow> abs_store s k = None) \<and> abs_store s' = abs_store s \<and> u' = u)"
  using assms
  by (auto simp: refreshOne_def refresh_key_def store_key_def Let_def abs_put abs_lookup
      split: option.splits prod.splits)

lemma refreshOne_key:
  assumes "refreshOne clock e (s, u, i) = (s', u', i')"
  shows "store_key s' v = store_key s v" and "refresh_key s' = refresh_key s"
proof -
  show key: "store_key s' v = store_key s v" for v
    using assms
    by (auto simp: refreshOne_def store_key_def Let_def getRecordIdLocked_def
        split: option.splits prod.splits if_splits)
  show "refresh_key s' = refresh_key s"
    by (simp add: refresh_key_def key fun_eq_iff)
qed

text \<open>A refreshed key keeps everything but the timestamp, which is one of the clock readings.\<close>

definition refreshed :: "(nat \<Rightarrow> int64) \<Rightarrow> VehiclePropValue option \<Rightarrow> VehiclePropValue option \<Rightarrow> bool" where
  "refreshed clock old new =
     (case old of
        None \<Rightarrow> new = None
      | Some v \<Rightarrow> \<exists>j. new = Some (v\<lparr>pv_timestamp := clock j\<rparr>))"

lemma refresh_fold_abs:
  "fold (refreshOne clock) es (s, u, i) = (s', u', i') \<Longrightarrow>
   (if k \<in> Option.these (refresh_key s ` set es) then refreshed clock (abs_store s k) (abs_store s' k)
    else abs_store s' k = abs_store s k)"
proof (induction es arbitrary: s u i)
  case Nil
  then show ?case by simp
next
  case (Cons e es)
  obtain s1 u1 i1 where one: "refreshOne clock e (s, u, i) = (s1, u1, i1)" by (metis prod_cases3)
  with Cons.prems have "fold (refreshOne clock) es (s1, u1, i1) = (s', u', i')" by simp
  from Cons.IH [OF this] have IH: "if k \<in> Option.these (refresh_key s ` set es)
      then refreshed clock (abs_store s1 k) (abs_store s' k) else abs_store s' k = abs_store s1 k"
    unfolding refreshOne_key(2) [OF one] .
  show ?case
    using refreshOne_cases [OF one] IH
    by (cases k) (auto simp: refreshed_def in_these_eq split: if_splits option.splits, blast+)
qed

text \<open>The abstract store: a partial map and the outcome of a write on it.\<close>

definition spec_write ::
  "VehiclePropertyStore \<Rightarrow> VehiclePropValue \<Rightarrow> bool \<Rightarrow> EventMode \<Rightarrow>
     unit VhalResult \<times> callback_call list \<times> (int32 \<times> RecordId \<Rightarrow> VehiclePropValue option)" where
  "spec_write s v updateStatus em =
     (case (write_allowed s v, store_key s v) of
        (True, Some k) \<Rightarrow>
          let w = written_value s k updateStatus v
          in (Inr (), change_events s em (value_changed (abs_store s k) w) w, (abs_store s)(k \<mapsto> w))
      | _ \<Rightarrow> (Inl INVALID_ARG, [], abs_store s))"

section \<open>A concrete store\<close>

text \<open>\<^verbatim>\<open>PERF_ODOMETER\<close>, a global property of type float, in a store of its own.\<close>

definition odometer :: int32 where "odometer = 0x11600204"

definition odometer_config :: VehiclePropConfig where
  "odometer_config = \<lparr>pc_prop = odometer, pc_access = READ, changeMode = CONTINUOUS,
     areaConfigs = [], configArray = [], configString = [], minSampleRate = 0, maxSampleRate = 0\<rparr>"

definition odometer_value :: "int64 \<Rightarrow> f32 \<Rightarrow> recyclable" where
  "odometer_value t x =
     \<lparr>r_value = empty_prop_value\<lparr>pv_prop := odometer, pv_timestamp := t,
        pv_value := empty_raw\<lparr>floatValues := [x]\<rparr>\<rparr>, r_deleter = Disposable\<rparr>"

definition empty_store :: VehiclePropertyStore where
  "empty_store = \<lparr>mValuePool = mkValuePool 4 10240 0, mRecordsByPropId = [],
     mOnValueChangeCallback = False, mOnValuesChangeCallback = True\<rparr>"

definition odometer_store :: VehiclePropertyStore where
  "odometer_store = registerProperty odometer_config None empty_store"

lemmas odometer_defs = odometer_def odometer_config_def odometer_value_def empty_store_def
  odometer_store_def registerProperty_def getRecordLocked_def put_record_def drop_values_def
  drop_value_def isGlobalProp_def getPropArea_def AREA_GLOBAL_def VehicleArea_MASK_def empty_prop_value_def
  getRecordIdLocked_def Let_def

lemma odometer_written:
  "writeValue (odometer_value 5 0x42C80000) True ON_VALUE_CHANGE False 0 odometer_store
     = (Inr (), [OnValuesChange [r_value (odometer_value 5 0x42C80000)]],
        put_record odometer (\<lparr>propConfig = odometer_config, tokenFunction = None,
          rec_values = [(\<lparr>rid_area = 0, rid_token = 0\<rparr>, odometer_value 5 0x42C80000)]\<rparr>) odometer_store)"
  by (simp add: odometer_defs writeValue_def change_events_def)

lemma odometer_key:
  "store_key odometer_store (r_value (odometer_value t x)) = Some (odometer, \<lparr>rid_area = 0, rid_token = 0\<rparr>)"
  by (simp add: odometer_defs store_key_def)

lemma odometer_stamped [simp]: "stamped (odometer_value t x) False now = r_value (odometer_value t x)"
  by (simp add: stamped_def)

lemma odometer_reachable: "store_step\<^sup>*\<^sup>* empty_store odometer_store"
  unfolding odometer_store_def by (blast intro: s_register)

lemma readValue_abs:
  "fst (map_prod (map_sum id r_value) abs_store (readValue v s)) =
     (case store_key s v of None \<Rightarrow> Inl INVALID_ARG
      | Some k \<Rightarrow> (case abs_store s k of None \<Rightarrow> Inl NOT_AVAILABLE | Some w \<Rightarrow> Inr w))"
  "abs_store (snd (readValue v s)) = abs_store s"
  by (auto simp: readValue_def readValueLocked_def store_key_def abs_lookup obtain_copy_same
      split: option.splits prod.splits)
    (metis fst_conv obtain_copy_same)+

lemma store_key_writeValue:
  assumes "writeValue r us em uct now s = (res, calls, s')"
  shows "store_key s' v = store_key s v"
proof (cases "write_allowed s (stamped r uct now)")
  case False
  from writeValue_denied [OF this, of us em] assms show ?thesis by (auto simp: store_key_def)
next
  case True
  show ?thesis
    by (rule writeValue_allowed [OF True, of us em])
      (use assms in \<open>auto simp: store_key_def upto_drop_def getRecordIdLocked_def\<close>)
qed

section \<open>Properties\<close>

lemma writeValue_spec:
  "(case writeValue r us em uct now s of (res, calls, s') \<Rightarrow> (res, calls, abs_store s')) = spec_write s (stamped r uct now) us em"
proof (cases "write_allowed s (stamped r uct now)")
  case False
  from writeValue_denied [OF this, of us em] False show ?thesis
    by (auto simp: spec_write_def)
next
  case True
  then obtain k where k: "store_key s (stamped r uct now) = Some k"
    by (auto simp: write_allowed_def store_key_def split: option.splits)
  from writeValue_abs [OF True k, of us em] True k show ?thesis
    by (auto simp: spec_write_def Let_def)
qed

text \<open>C3. Writing a value refines an update of the abstract map from property and record id to
  value. A write that is allowed (the property is registered, the area is configured, the stored
  timestamp is not newer) succeeds, maps exactly its key to the value written, with the stored
  status unless the caller asks to update it, and calls back by the event mode when the raw value or the
  status changed; any other write returns \<open>INVALID_ARG\<close>, changes no entry and calls nobody.\<close>

theorem writeValue_refines:
  "(case writeValue r us em uct now s of (res, calls, s') \<Rightarrow> (res, calls, abs_store s'))
     = spec_write s (stamped r uct now) us em"
  by (rule writeValue_spec)

text \<open>After a successful write, a read with the same key returns the value written, and a
  read with any other key returns what it would have returned before.\<close>

theorem read_after_write:
  assumes "writeValue r us em uct now s = (Inr (), calls, s')"
    and "store_key s (stamped r uct now) = Some k"
  shows "(store_key s q = Some k \<longrightarrow>
      (\<exists>c. fst (readValue q s') = Inr c \<and> r_value c = written_value s k us (stamped r uct now))) \<and>
    (store_key s q \<noteq> Some k \<longrightarrow>
      map_sum id r_value (fst (readValue q s')) = map_sum id r_value (fst (readValue q s)))"
proof -
  have allowed: "write_allowed s (stamped r uct now)"
    using writeValue_denied [of s r uct now us em] assms(1) by force
  then have abs: "abs_store s' = (abs_store s)(k \<mapsto> written_value s k us (stamped r uct now))"
    using writeValue_abs [OF allowed assms(2), of us em] assms(1) by simp
  note key = store_key_writeValue [OF assms(1)]
  show ?thesis
    using readValue_abs(1) [of q s'] readValue_abs(1) [of q s] unfolding key abs
    by (cases "fst (readValue q s')") (auto split: option.splits)
qed

theorem read_after_write_witness:
  "\<exists>c. fst (readValue (r_value (odometer_value 0 0))
      (snd (snd (writeValue (odometer_value 5 0x42C80000) True ON_VALUE_CHANGE False 0 odometer_store)))) = Inr c
    \<and> floatValues (pv_value (r_value c)) = [0x42C80000]"
  using read_after_write [OF odometer_written, of _ "r_value (odometer_value 0 0)"] odometer_key
  by (auto simp: odometer_written written_value_def) (auto simp: odometer_value_def)

text \<open>No write moves the timestamp of any stored value backwards, and none makes a stored
  value disappear, whichever key it is for and whether or not it succeeds.\<close>

theorem writeValue_timestamp_monotone:
  assumes "writeValue r us em uct now s = (res, calls, s')" and "abs_store s k = Some old"
  shows "\<exists>new. abs_store s' k = Some new \<and> sint (pv_timestamp old) \<le> sint (pv_timestamp new)"
proof (cases "write_allowed s (stamped r uct now)")
  case False
  from writeValue_denied [OF this, of us em] assms show ?thesis by auto
next
  case True
  then obtain k' where k: "store_key s (stamped r uct now) = Some k'"
    by (auto simp: write_allowed_def store_key_def split: option.splits)
  from writeValue_abs [OF True k, of us em] assms(1)
  have abs: "abs_store s' = (abs_store s)(k' \<mapsto> written_value s k' us (stamped r uct now))" by auto
  show ?thesis
  proof (cases "k = k'")
    case True
    with \<open>write_allowed s _\<close> k assms(2) abs show ?thesis
      by (auto simp: write_allowed_def store_key_def split: option.splits)
  next
    case False
    with abs assms(2) show ?thesis by simp
  qed
qed

theorem writeValue_timestamp_monotone_witness:
  "\<exists>new. abs_store (snd (snd (writeValue (odometer_value 9 0) True ON_VALUE_CHANGE False 0
      (snd (snd (writeValue (odometer_value 5 0x42C80000) True ON_VALUE_CHANGE False 0 odometer_store))))))
      (odometer, \<lparr>rid_area = 0, rid_token = 0\<rparr>) = Some new \<and> 5 \<le> sint (pv_timestamp new)"
proof -
  let ?s = "snd (snd (writeValue (odometer_value 5 0x42C80000) True ON_VALUE_CHANGE False 0 odometer_store))"
  have "abs_store ?s (odometer, \<lparr>rid_area = 0, rid_token = 0\<rparr>) = Some (r_value (odometer_value 5 0x42C80000))"
    by (simp add: odometer_written abs_lookup)
  moreover obtain res calls s' where "writeValue (odometer_value 9 0) True ON_VALUE_CHANGE False 0 ?s = (res, calls, s')"
    by (metis prod_cases3)
  ultimately show ?thesis
    using writeValue_timestamp_monotone by (fastforce simp: odometer_value_def)
qed

text \<open>C28. In every run of a store that started empty, a stored value sits under its own property
  id, its record id carries the area of the value (0 for a global property), the property is
  registered under its own id, and the area of a non-global value is one the configuration has.\<close>

theorem store_reachable_inv:
  assumes "fresh_store s0" and "store_step\<^sup>*\<^sup>* s0 s" and "abs_store s (p, rid) = Some v"
  shows "\<exists>record. getRecordLocked s p = Some record \<and> pc_prop (propConfig record) = p \<and>
    pv_prop v = p \<and> rid_area rid = (if isGlobalProp p then 0 else pv_areaId v) \<and>
    (isGlobalProp p \<or> getAreaConfig_value v (propConfig record) \<noteq> None)"
proof -
  from store_runs.reachable_inv [OF assms(1,2)] have inv: "store_inv s" .
  from assms(3) obtain rc r where "getRecordLocked s p = Some rc"
    and "map_of (rec_values rc) rid = Some r" and "r_value r = v"
    by (auto simp: abs_store_def bind_eq_Some_conv)
  moreover from this store_invD [OF inv] have "record_ok p rc" by blast
  ultimately have "pc_prop (propConfig rc) = p \<and> entry_ok p (propConfig rc) rid v"
    by (auto simp: record_ok_def)
  with \<open>getRecordLocked s p = Some rc\<close> show ?thesis by (auto simp: entry_ok_def)
qed

theorem store_reachable_inv_witness:
  "\<exists>record. getRecordLocked (snd (snd (writeValue (odometer_value 5 0x42C80000) True ON_VALUE_CHANGE False 0
      odometer_store))) odometer = Some record \<and> pc_prop (propConfig record) = odometer"
proof -
  let ?s = "snd (snd (writeValue (odometer_value 5 0x42C80000) True ON_VALUE_CHANGE False 0 odometer_store))"
  have fresh: "fresh_store empty_store"
    by (simp add: fresh_store_def empty_store_def fresh_pool_def mkValuePool_def)
  have "store_step\<^sup>*\<^sup>* empty_store ?s"
    using odometer_reachable by (meson rtranclp.rtrancl_into_rtrancl s_write)
  moreover have "abs_store ?s (odometer, \<lparr>rid_area = 0, rid_token = 0\<rparr>) = Some (r_value (odometer_value 5 0x42C80000))"
    by (simp add: odometer_written abs_lookup)
  ultimately show ?thesis using store_reachable_inv [OF fresh] by blast
qed

text \<open>Refreshing timestamps changes exactly the stored values of the listed keys, and of
  those only the timestamp, which becomes one of the clock readings taken; it adds and removes
  nothing.\<close>

theorem refreshTimestamps_exact:
  "if k \<in> Option.these (refresh_key s ` set es)
   then refreshed clock (abs_store s k) (abs_store (snd (refreshTimestamps clock es s)) k)
   else abs_store (snd (refreshTimestamps clock es s)) k = abs_store s k"
  using refresh_fold_abs [of clock es s "[]" 0 _ _ _ k]
  by (auto simp: refreshTimestamps_def split: prod.split if_splits)

end
