(* ===== verification/ProtoConverter.thy ===== *)
theory ProtoConverter
  imports DefaultVehicleHal
begin

text \<open>
  \<^verbatim>\<open>ProtoMessageConverter.cpp\<close>: the conversions between the AIDL types and the protobuf messages that cross
  the GRPC connection. A message is a record with the fields of its \<^verbatim>\<open>.proto\<close> file; an enum field is open in
  proto3, so it is a number. Both directions fill an object the caller passes, which the functions take as
  their last argument: repeated fields are appended to what it holds, singular ones are overwritten. Reading a message
  back gives \<open>None\<close> when an enum field holds a number that the AIDL enum has no name for; the C++ enum would hold
  that number.
\<close>

section \<open>Enums\<close>

definition cast_to :: "('e \<Rightarrow> int32) \<Rightarrow> 'e list \<Rightarrow> int32 \<Rightarrow> 'e option" where
  "cast_to toInt names w = find (\<lambda>e. toInt e = w) names"

definition StatusCode_cast :: "int32 \<Rightarrow> StatusCode option" where
  "StatusCode_cast = cast_to StatusCode_toInt
     [OK, TRY_AGAIN, INVALID_ARG, NOT_AVAILABLE, ACCESS_DENIED, INTERNAL_ERROR, NOT_AVAILABLE_DISABLED,
      NOT_AVAILABLE_SPEED_LOW, NOT_AVAILABLE_SPEED_HIGH, NOT_AVAILABLE_POOR_VISIBILITY, NOT_AVAILABLE_SAFETY,
      NOT_AVAILABLE_SUBSYSTEM_NOT_CONNECTED]"

definition VehiclePropertyStatus_cast :: "int32 \<Rightarrow> VehiclePropertyStatus option" where
  "VehiclePropertyStatus_cast = cast_to VehiclePropertyStatus_toInt
     [AVAILABLE, UNAVAILABLE, ERROR, PS_NOT_AVAILABLE_DISABLED, PS_NOT_AVAILABLE_SPEED_LOW, PS_NOT_AVAILABLE_SPEED_HIGH,
      PS_NOT_AVAILABLE_POOR_VISIBILITY, PS_NOT_AVAILABLE_SAFETY, PS_NOT_AVAILABLE_SUBSYSTEM_NOT_CONNECTED]"

definition VehiclePropertyAccess_cast :: "int32 \<Rightarrow> VehiclePropertyAccess option" where
  "VehiclePropertyAccess_cast = cast_to VehiclePropertyAccess_toInt [ACCESS_NONE, READ, WRITE, READ_WRITE]"

definition VehiclePropertyChangeMode_cast :: "int32 \<Rightarrow> VehiclePropertyChangeMode option" where
  "VehiclePropertyChangeMode_cast = cast_to VehiclePropertyChangeMode_toInt [STATIC, ON_CHANGE, CONTINUOUS]"

section \<open>Messages\<close>

record proto_RawPropValues =
  pr_int32_values :: "int32 list"
  pr_float_values :: "f32 list"
  pr_int64_values :: "int64 list"
  pr_byte_values :: "byte list"
  pr_string_value :: string

record proto_VehiclePropValue =
  pp_timestamp :: int64
  pp_area_id :: int32
  pp_prop :: int32
  pp_status :: int32
  pp_int32_values :: "int32 list"
  pp_float_values :: "f32 list"
  pp_int64_values :: "int64 list"
  pp_byte_values :: "byte list"
  pp_string_value :: string

record proto_HasSupportedValueInfo =
  ph_has_min_supported_value :: bool
  ph_has_max_supported_value :: bool
  ph_has_supported_values_list :: bool

record proto_VehicleAreaConfig =
  pa_area_id :: int32
  pa_min_int32_value :: int32
  pa_max_int32_value :: int32
  pa_min_int64_value :: int64
  pa_max_int64_value :: int64
  pa_min_float_value :: f32
  pa_max_float_value :: f32
  pa_supported_enum_values :: "int64 list"
  pa_access :: int32
  pa_support_variable_update_rate :: bool
  pa_has_supported_value_info :: "proto_HasSupportedValueInfo option"

record proto_VehiclePropConfig =
  pc'_prop :: int32
  pc'_access :: int32
  pc'_change_mode :: int32
  pc'_area_configs :: "proto_VehicleAreaConfig list"
  pc'_config_array :: "int32 list"
  pc'_config_string :: string
  pc'_min_sample_rate :: f32
  pc'_max_sample_rate :: f32

record proto_SubscribeOptions =
  ps_prop_id :: int32
  ps_area_ids :: "int32 list"
  ps_sample_rate :: f32
  ps_resolution :: f32
  ps_enable_variable_update_rate :: bool

record proto_PropIdAreaId =
  pi_prop_id :: int32
  pi_area_id :: int32

record proto_MinMaxSupportedValueResult =
  pm_status :: int32
  pm_min_supported_value :: "proto_RawPropValues option"
  pm_max_supported_value :: "proto_RawPropValues option"

record proto_SupportedValuesListResult =
  pl_status :: int32
  pl_supported_values_list :: "proto_RawPropValues list"

record proto_VehiclePropValueRequest =
  pq_request_id :: int64
  pq_value :: proto_VehiclePropValue

record proto_SetValueResult =
  pt_request_id :: int64
  pt_status :: int32

record proto_GetValueResult =
  pg_request_id :: int64
  pg_status :: int32
  pg_value :: "proto_VehiclePropValue option"

text \<open>Messages and parcelables as they are made: all fields at their defaults.\<close>

definition new_proto_raw :: proto_RawPropValues where
  "new_proto_raw = \<lparr>pr_int32_values = [], pr_float_values = [], pr_int64_values = [], pr_byte_values = [], pr_string_value = []\<rparr>"

definition new_proto_value :: proto_VehiclePropValue where
  "new_proto_value = \<lparr>pp_timestamp = 0, pp_area_id = 0, pp_prop = 0, pp_status = 0, pp_int32_values = [],
     pp_float_values = [], pp_int64_values = [], pp_byte_values = [], pp_string_value = []\<rparr>"

definition new_proto_info :: proto_HasSupportedValueInfo where
  "new_proto_info = \<lparr>ph_has_min_supported_value = False, ph_has_max_supported_value = False,
     ph_has_supported_values_list = False\<rparr>"

definition new_proto_area :: proto_VehicleAreaConfig where
  "new_proto_area = \<lparr>pa_area_id = 0, pa_min_int32_value = 0, pa_max_int32_value = 0, pa_min_int64_value = 0,
     pa_max_int64_value = 0, pa_min_float_value = 0, pa_max_float_value = 0, pa_supported_enum_values = [], pa_access = 0,
     pa_support_variable_update_rate = False, pa_has_supported_value_info = None\<rparr>"

definition new_proto_config :: proto_VehiclePropConfig where
  "new_proto_config = \<lparr>pc'_prop = 0, pc'_access = 0, pc'_change_mode = 0, pc'_area_configs = [], pc'_config_array = [],
     pc'_config_string = [], pc'_min_sample_rate = 0, pc'_max_sample_rate = 0\<rparr>"

definition new_proto_options :: proto_SubscribeOptions where
  "new_proto_options = \<lparr>ps_prop_id = 0, ps_area_ids = [], ps_sample_rate = 0, ps_resolution = 0,
     ps_enable_variable_update_rate = False\<rparr>"

definition new_proto_key :: proto_PropIdAreaId where
  "new_proto_key = \<lparr>pi_prop_id = 0, pi_area_id = 0\<rparr>"

definition new_proto_minmax :: proto_MinMaxSupportedValueResult where
  "new_proto_minmax = \<lparr>pm_status = 0, pm_min_supported_value = None, pm_max_supported_value = None\<rparr>"

definition new_proto_list :: proto_SupportedValuesListResult where
  "new_proto_list = \<lparr>pl_status = 0, pl_supported_values_list = []\<rparr>"

definition new_config :: VehiclePropConfig where
  "new_config = \<lparr>pc_prop = 0, pc_access = ACCESS_NONE, changeMode = STATIC, areaConfigs = [], configArray = [], configString = [],
     minSampleRate = 0, maxSampleRate = 0\<rparr>"

definition new_options :: SubscribeOptions where
  "new_options = \<lparr>so_propId = 0, so_areaIds = [], so_sampleRate = 0, so_resolution = 0, so_enableVur = False\<rparr>"

section \<open>From AIDL to protobuf\<close>

definition aidlToProto_raw :: "RawPropValues \<Rightarrow> proto_RawPropValues \<Rightarrow> proto_RawPropValues" where
  "aidlToProto_raw v out = out
     \<lparr>pr_string_value := stringValue v, pr_byte_values := byteValues v,
      pr_int32_values := pr_int32_values out @ int32Values v, pr_int64_values := pr_int64_values out @ int64Values v,
      pr_float_values := pr_float_values out @ floatValues v\<rparr>"

definition aidlToProto_value :: "VehiclePropValue \<Rightarrow> proto_VehiclePropValue \<Rightarrow> proto_VehiclePropValue" where
  "aidlToProto_value v out = out
     \<lparr>pp_prop := pv_prop v, pp_timestamp := pv_timestamp v, pp_status := VehiclePropertyStatus_toInt (pv_status v),
      pp_area_id := pv_areaId v, pp_string_value := stringValue (pv_value v), pp_byte_values := byteValues (pv_value v),
      pp_int32_values := pp_int32_values out @ int32Values (pv_value v),
      pp_int64_values := pp_int64_values out @ int64Values (pv_value v),
      pp_float_values := pp_float_values out @ floatValues (pv_value v)\<rparr>"

definition aidlToProto_info :: "HasSupportedValueInfo \<Rightarrow> proto_HasSupportedValueInfo \<Rightarrow> proto_HasSupportedValueInfo" where
  "aidlToProto_info i out = out
     \<lparr>ph_has_min_supported_value := hasMinSupportedValue i, ph_has_max_supported_value := hasMaxSupportedValue i,
      ph_has_supported_values_list := hasSupportedValuesList i\<rparr>"

definition aidlToProto_area :: "VehicleAreaConfig \<Rightarrow> proto_VehicleAreaConfig \<Rightarrow> proto_VehicleAreaConfig" where
  "aidlToProto_area a out = out
     \<lparr>pa_area_id := ac_areaId a, pa_access := VehiclePropertyAccess_toInt (ac_access a),
      pa_min_int64_value := minInt64Value a, pa_max_int64_value := maxInt64Value a,
      pa_min_float_value := minFloatValue a, pa_max_float_value := maxFloatValue a,
      pa_min_int32_value := minInt32Value a, pa_max_int32_value := maxInt32Value a,
      pa_supported_enum_values := pa_supported_enum_values out @
        (case supportedEnumValues a of None \<Rightarrow> [] | Some vs \<Rightarrow> vs),
      pa_support_variable_update_rate := supportVariableUpdateRate a,
      pa_has_supported_value_info :=
        (case ac_hasSupportedValueInfo a of
           None \<Rightarrow> pa_has_supported_value_info out
         | Some i \<Rightarrow> Some (aidlToProto_info i
             (case pa_has_supported_value_info out of None \<Rightarrow> new_proto_info | Some p \<Rightarrow> p)))\<rparr>"

definition aidlToProto_config :: "VehiclePropConfig \<Rightarrow> proto_VehiclePropConfig \<Rightarrow> proto_VehiclePropConfig" where
  "aidlToProto_config c out = out
     \<lparr>pc'_prop := pc_prop c, pc'_access := VehiclePropertyAccess_toInt (pc_access c),
      pc'_change_mode := VehiclePropertyChangeMode_toInt (changeMode c), pc'_config_string := configString c,
      pc'_min_sample_rate := minSampleRate c, pc'_max_sample_rate := maxSampleRate c,
      pc'_config_array := pc'_config_array out @ configArray c,
      pc'_area_configs := map (\<lambda>a. aidlToProto_area a new_proto_area) (areaConfigs c)\<rparr>"

definition aidlToProto_options :: "SubscribeOptions \<Rightarrow> proto_SubscribeOptions \<Rightarrow> proto_SubscribeOptions" where
  "aidlToProto_options o' out = out
     \<lparr>ps_prop_id := so_propId o', ps_area_ids := ps_area_ids out @ so_areaIds o', ps_sample_rate := so_sampleRate o',
      ps_resolution := so_resolution o', ps_enable_variable_update_rate := so_enableVur o'\<rparr>"

definition aidlToProto_key :: "PropIdAreaId \<Rightarrow> proto_PropIdAreaId \<Rightarrow> proto_PropIdAreaId" where
  "aidlToProto_key k out = out\<lparr>pi_prop_id := pa_propId k, pi_area_id := pa_areaId k\<rparr>"

text \<open>\<^verbatim>\<open>mutable_\<close> makes the field present.\<close>

definition mutable :: "'m \<Rightarrow> 'm option \<Rightarrow> 'm" where
  "mutable d field = (case field of None \<Rightarrow> d | Some m \<Rightarrow> m)"

definition aidlToProto_minmax ::
  "MinMaxSupportedValueResult \<Rightarrow> proto_MinMaxSupportedValueResult \<Rightarrow> proto_MinMaxSupportedValueResult" where
  "aidlToProto_minmax r out = out
     \<lparr>pm_status := StatusCode_toInt (mm_status r),
      pm_min_supported_value :=
        (case minSupportedValue r of
           None \<Rightarrow> pm_min_supported_value out
         | Some v \<Rightarrow> Some (aidlToProto_raw v (mutable new_proto_raw (pm_min_supported_value out)))),
      pm_max_supported_value :=
        (case maxSupportedValue r of
           None \<Rightarrow> pm_max_supported_value out
         | Some v \<Rightarrow> Some (aidlToProto_raw v (mutable new_proto_raw (pm_max_supported_value out))))\<rparr>"

definition aidlToProto_list ::
  "SupportedValuesListResult \<Rightarrow> proto_SupportedValuesListResult \<Rightarrow> proto_SupportedValuesListResult" where
  "aidlToProto_list r out =
     (case supportedValuesList r of
        None \<Rightarrow> out\<lparr>pl_status := StatusCode_toInt (sl_status r)\<rparr>
      | Some vs \<Rightarrow> out\<lparr>pl_status := StatusCode_toInt (sl_status r),
          pl_supported_values_list := pl_supported_values_list out @
            map (\<lambda>v. aidlToProto_raw v new_proto_raw) (List.map_filter id vs)\<rparr>)"

section \<open>From protobuf to AIDL\<close>

definition protoToAidl_raw :: "proto_RawPropValues \<Rightarrow> RawPropValues \<Rightarrow> RawPropValues" where
  "protoToAidl_raw p out = out
     \<lparr>int32Values := pr_int32_values p, int64Values := pr_int64_values p, floatValues := pr_float_values p,
      stringValue := pr_string_value p, byteValues := byteValues out @ pr_byte_values p\<rparr>"

definition protoToAidl_value :: "proto_VehiclePropValue \<Rightarrow> VehiclePropValue \<Rightarrow> VehiclePropValue option" where
  "protoToAidl_value p out =
     map_option (\<lambda>st. out
       \<lparr>pv_prop := pp_prop p, pv_timestamp := pp_timestamp p, pv_status := st, pv_areaId := pp_area_id p,
        pv_value := (pv_value out)
          \<lparr>stringValue := pp_string_value p, byteValues := byteValues (pv_value out) @ pp_byte_values p,
           int32Values := pp_int32_values p, int64Values := pp_int64_values p, floatValues := pp_float_values p\<rparr>\<rparr>)
       (VehiclePropertyStatus_cast (pp_status p))"

definition protoToAidl_area :: "proto_VehicleAreaConfig \<Rightarrow> VehicleAreaConfig option" where
  "protoToAidl_area p =
     map_option (\<lambda>access.
       \<lparr>ac_areaId = pa_area_id p, minInt32Value = pa_min_int32_value p, maxInt32Value = pa_max_int32_value p,
        minInt64Value = pa_min_int64_value p, maxInt64Value = pa_max_int64_value p,
        minFloatValue = pa_min_float_value p, maxFloatValue = pa_max_float_value p,
        supportedEnumValues = (if pa_supported_enum_values p \<noteq> [] then Some (pa_supported_enum_values p) else None),
        ac_access = access, supportVariableUpdateRate = pa_support_variable_update_rate p,
        ac_hasSupportedValueInfo = map_option (\<lambda>i.
          \<lparr>hasMinSupportedValue = ph_has_min_supported_value i, hasMaxSupportedValue = ph_has_max_supported_value i,
           hasSupportedValuesList = ph_has_supported_values_list i\<rparr>) (pa_has_supported_value_info p)\<rparr>)
       (VehiclePropertyAccess_cast (pa_access p))"

definition protoToAidl_config :: "proto_VehiclePropConfig \<Rightarrow> VehiclePropConfig \<Rightarrow> VehiclePropConfig option" where
  "protoToAidl_config p out =
     Option.bind (VehiclePropertyAccess_cast (pc'_access p)) (\<lambda>access.
     Option.bind (VehiclePropertyChangeMode_cast (pc'_change_mode p)) (\<lambda>mode.
     map_option (\<lambda>areas. out
       \<lparr>pc_prop := pc'_prop p, pc_access := access, changeMode := mode, configString := pc'_config_string p,
        minSampleRate := pc'_min_sample_rate p, maxSampleRate := pc'_max_sample_rate p,
        configArray := pc'_config_array p, areaConfigs := areas\<rparr>)
       (map_option_list protoToAidl_area (pc'_area_configs p))))"

definition protoToAidl_options :: "proto_SubscribeOptions \<Rightarrow> SubscribeOptions \<Rightarrow> SubscribeOptions" where
  "protoToAidl_options p out = out
     \<lparr>so_propId := ps_prop_id p, so_areaIds := ps_area_ids p, so_sampleRate := ps_sample_rate p,
      so_resolution := ps_resolution p, so_enableVur := ps_enable_variable_update_rate p\<rparr>"

definition protoToAidl_key :: "proto_PropIdAreaId \<Rightarrow> PropIdAreaId \<Rightarrow> PropIdAreaId" where
  "protoToAidl_key p out = out\<lparr>pa_propId := pi_prop_id p, pa_areaId := pi_area_id p\<rparr>"

definition protoToAidl_minmax ::
  "proto_MinMaxSupportedValueResult \<Rightarrow> MinMaxSupportedValueResult \<Rightarrow> MinMaxSupportedValueResult option" where
  "protoToAidl_minmax p out =
     map_option (\<lambda>st. out
       \<lparr>mm_status := st,
        minSupportedValue := (case pm_min_supported_value p of
            None \<Rightarrow> minSupportedValue out | Some v \<Rightarrow> Some (protoToAidl_raw v empty_raw)),
        maxSupportedValue := (case pm_max_supported_value p of
            None \<Rightarrow> maxSupportedValue out | Some v \<Rightarrow> Some (protoToAidl_raw v empty_raw))\<rparr>)
       (StatusCode_cast (pm_status p))"

definition protoToAidl_list ::
  "proto_SupportedValuesListResult \<Rightarrow> SupportedValuesListResult \<Rightarrow> SupportedValuesListResult option" where
  "protoToAidl_list p out =
     map_option (\<lambda>st.
       if st \<noteq> OK then out\<lparr>sl_status := st\<rparr>
       else out\<lparr>sl_status := st,
              supportedValuesList := Some (map (\<lambda>v. Some (protoToAidl_raw v empty_raw)) (pl_supported_values_list p))\<rparr>)
       (StatusCode_cast (pl_status p))"

section \<open>Round trips\<close>

lemma StatusCode_cast_toInt [simp]: "StatusCode_cast (StatusCode_toInt s) = Some s"
  by (cases s) (simp_all add: StatusCode_cast_def cast_to_def)

lemma StatusCode_cast_0 [simp]: "StatusCode_cast 0 = Some OK"
  using StatusCode_cast_toInt [of OK] by simp

lemma VehiclePropertyStatus_cast_toInt [simp]: "VehiclePropertyStatus_cast (VehiclePropertyStatus_toInt s) = Some s"
  by (cases s) (simp_all add: VehiclePropertyStatus_cast_def cast_to_def)

lemma VehiclePropertyAccess_cast_toInt [simp]: "VehiclePropertyAccess_cast (VehiclePropertyAccess_toInt s) = Some s"
  by (cases s) (simp_all add: VehiclePropertyAccess_cast_def cast_to_def)

lemma VehiclePropertyChangeMode_cast_toInt [simp]:
  "VehiclePropertyChangeMode_cast (VehiclePropertyChangeMode_toInt s) = Some s"
  by (cases s) (simp_all add: VehiclePropertyChangeMode_cast_def cast_to_def)

lemma raw_roundtrip [simp]: "protoToAidl_raw (aidlToProto_raw v new_proto_raw) empty_raw = v"
  by (simp add: protoToAidl_raw_def aidlToProto_raw_def new_proto_raw_def empty_raw_def)

lemma value_roundtrip [simp]: "protoToAidl_value (aidlToProto_value v new_proto_value) empty_prop_value = Some v"
  by (simp add: protoToAidl_value_def aidlToProto_value_def new_proto_value_def empty_prop_value_def empty_raw_def)

lemma options_roundtrip [simp]: "protoToAidl_options (aidlToProto_options v new_proto_options) out = v"
  by (simp add: protoToAidl_options_def aidlToProto_options_def new_proto_options_def)

lemma key_roundtrip [simp]: "protoToAidl_key (aidlToProto_key k new_proto_key) out = k"
  by (simp add: protoToAidl_key_def aidlToProto_key_def)

text \<open>What a configuration looks like on the other side: an empty list of enum values is no list.\<close>

definition area_seen :: "VehicleAreaConfig \<Rightarrow> VehicleAreaConfig" where
  "area_seen a = (if supportedEnumValues a = Some [] then a\<lparr>supportedEnumValues := None\<rparr> else a)"

definition config_seen :: "VehiclePropConfig \<Rightarrow> VehiclePropConfig" where
  "config_seen c = c\<lparr>areaConfigs := map area_seen (areaConfigs c)\<rparr>"

lemma area_roundtrip: "protoToAidl_area (aidlToProto_area a new_proto_area) = Some (area_seen a)"
  by (auto simp: protoToAidl_area_def aidlToProto_area_def new_proto_area_def area_seen_def aidlToProto_info_def
      new_proto_info_def split: option.split)

lemma map_option_list_Some: "(\<And>x. x \<in> set xs \<Longrightarrow> f (g x) = Some (h x)) \<Longrightarrow> map_option_list f (map g xs) = Some (map h xs)"
  by (induction xs) auto

lemma areas_roundtrip: "map_option_list protoToAidl_area (map (\<lambda>a. aidlToProto_area a new_proto_area) as) = Some (map area_seen as)"
  by (rule map_option_list_Some) (rule area_roundtrip)

lemma config_roundtrip [simp]: "protoToAidl_config (aidlToProto_config c new_proto_config) new_config = Some (config_seen c)"
  by (simp add: protoToAidl_config_def aidlToProto_config_def new_proto_config_def config_seen_def
      areas_roundtrip new_config_def)

lemma minmax_roundtrip [simp]:
  "protoToAidl_minmax (aidlToProto_minmax r new_proto_minmax) \<lparr>mm_status = OK, minSupportedValue = None, maxSupportedValue = None\<rparr> = Some r"
  by (cases r) (auto simp: protoToAidl_minmax_def aidlToProto_minmax_def new_proto_minmax_def mutable_def split: option.split)

text \<open>A list of supported values arrives only with the status \<open>OK\<close>, without its empty entries, and a missing
  list arrives as an empty one.\<close>

definition list_seen :: "SupportedValuesListResult \<Rightarrow> SupportedValuesListResult" where
  "list_seen r = r\<lparr>supportedValuesList :=
     (if sl_status r \<noteq> OK then None
      else Some (map Some (case supportedValuesList r of None \<Rightarrow> [] | Some vs \<Rightarrow> List.map_filter id vs)))\<rparr>"

lemma list_roundtrip [simp]:
  "protoToAidl_list (aidlToProto_list r new_proto_list) \<lparr>sl_status = OK, supportedValuesList = None\<rparr> = Some (list_seen r)"
  by (cases r) (auto simp: protoToAidl_list_def aidlToProto_list_def new_proto_list_def list_seen_def comp_def split: option.split)

section \<open>Properties\<close>

text \<open>C36. Messages survive the wire format: reading back what was written gives the same value, subscription, key and
  supported value; a configuration comes back unchanged unless it holds an empty list of enum values,
  and a list of supported values unless its status is not \<open>OK\<close>, it is missing or it has empty entries.\<close>

theorem messages_roundtrip:
  "protoToAidl_value (aidlToProto_value v new_proto_value) empty_prop_value = Some v \<and>
   protoToAidl_options (aidlToProto_options opt new_proto_options) new_options = opt \<and>
   protoToAidl_key (aidlToProto_key k new_proto_key) k' = k \<and>
   protoToAidl_minmax (aidlToProto_minmax r new_proto_minmax)
     \<lparr>mm_status = OK, minSupportedValue = None, maxSupportedValue = None\<rparr> = Some r \<and>
   protoToAidl_config (aidlToProto_config c new_proto_config) new_config = Some (config_seen c) \<and>
   protoToAidl_list (aidlToProto_list l new_proto_list) \<lparr>sl_status = OK, supportedValuesList = None\<rparr> = Some (list_seen l)"
  by simp

end
