(* ===== verification/Gateway.thy ===== *)
theory Gateway
  imports ProtoConverter
begin

text \<open>
  The gateway (\<^verbatim>\<open>packages/vhal-gateway\<close>): it polls properties of the local service and forwards the values that
  changed to remote nodes, grouped into the messages of its configuration. \<^verbatim>\<open>GatewayConfig.cpp\<close> reads the configuration,
  \<^verbatim>\<open>NodeForwarder.cpp\<close> queues batches for one node and sends them from a thread of its own, \<^verbatim>\<open>VhalGateway.cpp\<close>
  detects changes. The JSON library is an argument: the functions of \<^verbatim>\<open>Json::Value\<close> the code calls, with
  \<open>None\<close> where the library throws. What the local service answers to a poll is an argument of the poll; a sent request is
  part of the result.
\<close>

section \<open>GatewayConfig\<close>

record GatewayProperty =
  gp_id :: int32
  gp_desc :: string

record GatewayMessage =
  gm_msgId :: string
  gm_properties :: "GatewayProperty list"

record GatewayNodeConfig =
  gn_ipaddr :: string
  gn_messages :: "GatewayMessage list"

record GatewayConfig =
  gc_version :: string
  gc_nodes :: "GatewayNodeConfig list"

record 'j json_api =
  j_isMember :: "'j \<Rightarrow> string \<Rightarrow> bool option"
  j_get :: "'j \<Rightarrow> string \<Rightarrow> 'j option"
  j_isString :: "'j \<Rightarrow> bool"
  j_isArray :: "'j \<Rightarrow> bool"
  j_asString :: "'j \<Rightarrow> string option"
  j_elements :: "'j \<Rightarrow> 'j list"

text \<open>\<^verbatim>\<open>std::stoul(s, nullptr, 0)\<close>; \<open>None\<close> where it throws.\<close>

definition is_space :: "char \<Rightarrow> bool" where
  "is_space c \<longleftrightarrow> c = CHR '' '' \<or> (9 \<le> (of_char c :: nat) \<and> (of_char c :: nat) \<le> 13)"

definition digit_value :: "char \<Rightarrow> nat option" where
  "digit_value c =
     (let n = (of_char c :: nat)
      in if 48 \<le> n \<and> n \<le> 57 then Some (n - 48)
         else if 97 \<le> n \<and> n \<le> 122 then Some (n - 87)
         else if 65 \<le> n \<and> n \<le> 90 then Some (n - 55)
         else None)"

definition is_digit :: "nat \<Rightarrow> char \<Rightarrow> bool" where
  "is_digit base c \<longleftrightarrow> (case digit_value c of None \<Rightarrow> False | Some d \<Rightarrow> d < base)"

definition digits_value :: "nat \<Rightarrow> string \<Rightarrow> nat" where
  "digits_value base s = foldl (\<lambda>n c. n * base + (case digit_value c of None \<Rightarrow> 0 | Some d \<Rightarrow> d)) 0 s"

definition stoul_base0 :: "string \<Rightarrow> nat option" where
  "stoul_base0 s =
     (let s1 = dropWhile is_space s;
          neg = (s1 \<noteq> [] \<and> hd s1 = CHR ''-'');
          s2 = (if s1 \<noteq> [] \<and> hd s1 \<in> {CHR ''-'', CHR ''+''} then tl s1 else s1);
          hex = (2 < length s2 \<and> s2 ! 0 = CHR ''0'' \<and> s2 ! 1 \<in> {CHR ''x'', CHR ''X''} \<and> is_digit 16 (s2 ! 2));
          base = (if hex then 16 else if s2 \<noteq> [] \<and> hd s2 = CHR ''0'' then 8 else 10);
          ds = takeWhile (is_digit base) (if hex then drop 2 s2 else s2);
          n = digits_value base ds
      in if ds = [] then None
         else if 2 ^ 64 \<le> n then None
         else Some (if neg then (2 ^ 64 - n) mod 2 ^ 64 else n))"

text \<open>\<^verbatim>\<open>x.isMember(key) && x[key].is...()\<close>, then the member.\<close>

definition member_where :: "'j json_api \<Rightarrow> ('j \<Rightarrow> bool) \<Rightarrow> string \<Rightarrow> 'j \<Rightarrow> 'j option option" where
  "member_where J p key x =
     (case j_isMember J x key of
        None \<Rightarrow> None
      | Some False \<Rightarrow> Some None
      | Some True \<Rightarrow> map_option (\<lambda>m. if p m then Some m else None) (j_get J x key))"

definition quoted :: "string \<Rightarrow> string" where
  "quoted s = CHR 0x27 # s @ [CHR 0x27]"

text \<open>A loader stops at the first error message (\<open>Inl\<close>); \<open>None\<close> when the library throws.\<close>

type_synonym 'a load = "(string + 'a) option"

fun load_list :: "('j \<Rightarrow> 'a load) \<Rightarrow> 'j list \<Rightarrow> (string option \<times> 'a list) option" where
  "load_list f [] = Some (None, [])"
| "load_list f (x # xs) =
     (case f x of
        None \<Rightarrow> None
      | Some (Inl err) \<Rightarrow> Some (Some err, [])
      | Some (Inr y) \<Rightarrow> map_option (\<lambda>(err, ys). (err, y # ys)) (load_list f xs))"

definition require :: "'b option option \<Rightarrow> string \<Rightarrow> ('b \<Rightarrow> 'a load) \<Rightarrow> 'a load" where
  "require m err k = (case m of None \<Rightarrow> None | Some None \<Rightarrow> Some (Inl err) | Some (Some x) \<Rightarrow> k x)"

definition load_property :: "'j json_api \<Rightarrow> string \<Rightarrow> 'j \<Rightarrow> GatewayProperty load" where
  "load_property J msgId x =
     require (member_where J (j_isString J) ''id'' x) (''A property entry in message '' @ quoted msgId @ '' is missing '' @ quoted ''id'') (\<lambda>idJson.
     require (member_where J (j_isString J) ''desc'' x) (''A property entry in message '' @ quoted msgId @ '' is missing '' @ quoted ''desc'') (\<lambda>descJson.
     Option.bind (j_asString J descJson) (\<lambda>desc. Option.bind (j_asString J idJson) (\<lambda>idStr.
       Some (case stoul_base0 idStr of
               None \<Rightarrow> Inl (''Invalid property id '' @ quoted idStr @ '' in message '' @ quoted msgId)
             | Some n \<Rightarrow> Inr \<lparr>gp_id = word_of_nat n, gp_desc = desc\<rparr>)))))"

definition load_message :: "'j json_api \<Rightarrow> 'j \<Rightarrow> GatewayMessage load" where
  "load_message J x =
     require (member_where J (j_isString J) ''msgId'' x) (''A message entry is missing '' @ quoted ''msgId'') (\<lambda>idJson.
     require (member_where J (j_isArray J) ''properties'' x) (''A message entry is missing '' @ quoted ''properties'') (\<lambda>props.
     Option.bind (j_asString J idJson) (\<lambda>msgId.
       map_option (\<lambda>(err, ps). case err of None \<Rightarrow> Inr \<lparr>gm_msgId = msgId, gm_properties = ps\<rparr> | Some e \<Rightarrow> Inl e)
         (load_list (load_property J msgId) (j_elements J props)))))"

definition load_node :: "'j json_api \<Rightarrow> 'j \<Rightarrow> GatewayNodeConfig load" where
  "load_node J x =
     require (member_where J (j_isString J) ''ipaddr'' x) (''A gatewayNode is missing '' @ quoted ''ipaddr'') (\<lambda>ipJson.
     require (member_where J (j_isArray J) ''messages'' x) (''A gatewayNode is missing '' @ quoted ''messages'') (\<lambda>msgs.
     Option.bind (j_asString J ipJson) (\<lambda>ip.
       map_option (\<lambda>(err, ms). case err of None \<Rightarrow> Inr \<lparr>gn_ipaddr = ip, gn_messages = ms\<rparr> | Some e \<Rightarrow> Inl e)
         (load_list (load_message J) (j_elements J msgs)))))"

text \<open>
  The file is an argument: \<open>Inl\<close> the message when it cannot be opened or parsed. The result is the error message, empty
  on success, and the configuration, which keeps the nodes read before an error.
\<close>

definition loadFromFile ::
  "'j json_api \<Rightarrow> string + 'j \<Rightarrow> GatewayConfig \<Rightarrow> (string \<times> GatewayConfig) option" where
  "loadFromFile J file out =
     (case file of
        Inl err \<Rightarrow> Some (err, out)
      | Inr root \<Rightarrow>
          Option.bind (member_where J (j_isString J) ''version'' root) (\<lambda>versionJson.
          case versionJson of
            None \<Rightarrow> Some (''Missing or invalid '' @ quoted ''version'' @ '' field'', out)
          | Some vj \<Rightarrow>
              Option.bind (j_asString J vj) (\<lambda>version.
              let out1 = out\<lparr>gc_version := version\<rparr>
              in Option.bind (member_where J (j_isArray J) ''gatewayNodes'' root) (\<lambda>nodesJson.
                 case nodesJson of
                   None \<Rightarrow> Some (''Missing or invalid '' @ quoted ''gatewayNodes'' @ '' array'', out1)
                 | Some nj \<Rightarrow>
                     map_option (\<lambda>(err, nodes).
                       (case err of None \<Rightarrow> [] | Some e \<Rightarrow> e, out1\<lparr>gc_nodes := gc_nodes out1 @ nodes\<rparr>))
                       (load_list (load_node J) (j_elements J nj))))))"

section \<open>NodeForwarder\<close>

record ForwardBatch =
  fb_msgId :: string
  fb_values :: "VehiclePropValue list"

record MessageFilter =
  mf_msgId :: string
  mf_propIds :: "int32 list"

text \<open>The worker waits, or holds a batch it has taken from the queue, or has ended.\<close>

datatype nf_pc = NF_WAIT | NF_SEND ForwardBatch | NF_DONE

record NodeForwarder =
  mRemoteAddr :: string
  mMessages :: "MessageFilter list"
  nf_mAllPropIds :: "int32 list"
  nf_mQueue :: "ForwardBatch list"
  mRunning :: bool
  nf_worker :: nf_pc

definition message_filter :: "GatewayMessage \<Rightarrow> MessageFilter" where
  "message_filter m =
     \<lparr>mf_msgId = gm_msgId m, mf_propIds = foldl (\<lambda>ids p. List.insert (gp_id p) ids) [] (gm_properties m)\<rparr>"

definition newNodeForwarder :: "GatewayNodeConfig \<Rightarrow> NodeForwarder" where
  "newNodeForwarder config =
     \<lparr>mRemoteAddr = gn_ipaddr config, mMessages = map message_filter (gn_messages config),
      nf_mAllPropIds = foldl (\<lambda>ids m. foldl (\<lambda>ids p. List.insert (gp_id p) ids) ids (gm_properties m)) [] (gn_messages config),
      nf_mQueue = [], mRunning = True, nf_worker = NF_WAIT\<rparr>"

definition destructNodeForwarder :: "NodeForwarder \<Rightarrow> NodeForwarder" where
  "destructNodeForwarder nf = nf\<lparr>mRunning := False\<rparr>"

fun queue_groups :: "VehiclePropValue list \<Rightarrow> MessageFilter list \<Rightarrow> ForwardBatch list \<Rightarrow> ForwardBatch list" where
  "queue_groups values [] queue = queue"
| "queue_groups values (msg # msgs) queue =
     (let batch = \<lparr>fb_msgId = mf_msgId msg, fb_values = filter (\<lambda>v. pv_prop v \<in> set (mf_propIds msg)) values\<rparr>
      in queue_groups values msgs (if fb_values batch \<noteq> [] then queue @ [batch] else queue))"

definition nf_forward :: "VehiclePropValue list \<Rightarrow> NodeForwarder \<Rightarrow> NodeForwarder" where
  "nf_forward values nf =
     (if \<not> list_ex (\<lambda>v. pv_prop v \<in> set (nf_mAllPropIds nf)) values then nf
      else nf\<lparr>nf_mQueue := queue_groups values (mMessages nf) (nf_mQueue nf)\<rparr>)"

definition set_request :: "ForwardBatch \<Rightarrow> proto_VehiclePropValueRequest list" where
  "set_request batch =
     map (\<lambda>(i, v). \<lparr>pq_request_id = word_of_nat i, pq_value = aidlToProto_value v new_proto_value\<rparr>)
       (zip [0..<length (fb_values batch)] (fb_values batch))"

text \<open>One step of the worker and the request it sends; \<open>None\<close> when it is blocked or has ended. The answer to a
  request is only logged.\<close>

definition workerLoop_step ::
  "NodeForwarder \<Rightarrow> (proto_VehiclePropValueRequest list list \<times> NodeForwarder) option" where
  "workerLoop_step nf =
     (case nf_worker nf of
        NF_WAIT \<Rightarrow>
          (case nf_mQueue nf of
             [] \<Rightarrow> if mRunning nf then None else Some ([], nf\<lparr>nf_worker := NF_DONE\<rparr>)
           | batch # rest \<Rightarrow> Some ([], nf\<lparr>nf_mQueue := rest, nf_worker := NF_SEND batch\<rparr>))
      | NF_SEND batch \<Rightarrow> Some ([set_request batch], nf\<lparr>nf_worker := NF_WAIT\<rparr>)
      | NF_DONE \<Rightarrow> None)"

section \<open>VhalGateway\<close>

record VhalGateway =
  gw_mAllPropIds :: "int32 list"
  mForwarders :: "NodeForwarder list"
  mPreviousValues :: "(int32 \<times> VehiclePropValue) list"
  mGetRequests :: "GetValueRequest list"

definition all_prop_ids :: "GatewayConfig \<Rightarrow> int32 list" where
  "all_prop_ids config =
     foldl (\<lambda>ids n. foldl (\<lambda>ids m. foldl (\<lambda>ids p. List.insert (gp_id p) ids) ids (gm_properties m)) ids (gn_messages n))
       [] (gc_nodes config)"

definition newVhalGateway :: "GatewayConfig \<Rightarrow> VhalGateway" where
  "newVhalGateway config =
     (let ids = all_prop_ids config
      in \<lparr>gw_mAllPropIds = ids, mForwarders = map newNodeForwarder (gc_nodes config), mPreviousValues = [],
          mGetRequests = map (\<lambda>(i, p). \<lparr>gr_requestId = word_of_nat i,
              gr_prop = empty_prop_value\<lparr>pv_prop := p, pv_areaId := 0\<rparr>\<rparr>) (zip [0..<length ids] ids)\<rparr>)"

fun detect_changes ::
  "GetValueResult list \<Rightarrow> (int32 \<times> VehiclePropValue) list \<Rightarrow> VehiclePropValue list \<times> (int32 \<times> VehiclePropValue) list" where
  "detect_changes [] previous = ([], previous)"
| "detect_changes (result # results) previous =
     (case (gv_status result, gv_prop result) of
        (OK, Some val) \<Rightarrow>
          if (case map_of previous (pv_prop val) of None \<Rightarrow> True | Some old \<Rightarrow> \<not> raw_eq (pv_value old) (pv_value val))
          then let (changed, previous') = detect_changes results (AList.update (pv_prop val) val previous)
               in (val # changed, previous')
          else detect_changes results previous
      | _ \<Rightarrow> detect_changes results previous)"

definition pollOnce :: "StatusCode \<Rightarrow> GetValueResult list \<Rightarrow> VhalGateway \<Rightarrow> VehiclePropValue list \<times> VhalGateway" where
  "pollOnce status results gw =
     (if status \<noteq> OK then ([], gw)
      else let (changedValues, previous) = detect_changes results (mPreviousValues gw)
           in if changedValues = [] then ([], gw\<lparr>mPreviousValues := previous\<rparr>)
              else (changedValues, gw\<lparr>mPreviousValues := previous, mForwarders := map (nf_forward changedValues) (mForwarders gw)\<rparr>))"

section \<open>Forwarding\<close>

lemma foldl_insert_set: "set (foldl (\<lambda>ids p. List.insert (f p) ids) ids ps) = set ids \<union> f ` set ps"
  by (induction ps arbitrary: ids) auto

lemma foldl_union_set:
  assumes "\<And>ids x. set (g ids x) = set ids \<union> h x"
  shows "set (foldl g ids xs) = set ids \<union> (\<Union>x \<in> set xs. h x)"
  by (induction xs arbitrary: ids) (auto simp: assms)

lemma all_ids_set:
  "set (nf_mAllPropIds (newNodeForwarder n)) = (\<Union>m \<in> set (gn_messages n). gp_id ` set (gm_properties m))"
  by (simp add: newNodeForwarder_def foldl_union_set [where h = "\<lambda>m. gp_id ` set (gm_properties m)"] foldl_insert_set)

text \<open>The batches a list of changed values turns into for one node, group by group of its configuration.\<close>

definition group_batches :: "GatewayNodeConfig \<Rightarrow> VehiclePropValue list \<Rightarrow> ForwardBatch list" where
  "group_batches n values = filter (\<lambda>b. fb_values b \<noteq> [])
     (map (\<lambda>m. \<lparr>fb_msgId = gm_msgId m, fb_values = filter (\<lambda>v. pv_prop v \<in> gp_id ` set (gm_properties m)) values\<rparr>) (gn_messages n))"

lemma queue_groups_eq:
  "queue_groups vs (map message_filter ms) queue = queue @ filter (\<lambda>b. fb_values b \<noteq> [])
     (map (\<lambda>m. \<lparr>fb_msgId = gm_msgId m, fb_values = filter (\<lambda>v. pv_prop v \<in> gp_id ` set (gm_properties m)) vs\<rparr>) ms)"
  by (induction ms arbitrary: queue) (auto simp: message_filter_def foldl_insert_set Let_def)

text \<open>A forwarder of a node, at any time: the two parts the constructor sets never change.\<close>

definition forwarder_of :: "GatewayNodeConfig \<Rightarrow> NodeForwarder \<Rightarrow> bool" where
  "forwarder_of n nf \<longleftrightarrow> mMessages nf = mMessages (newNodeForwarder n) \<and> nf_mAllPropIds nf = nf_mAllPropIds (newNodeForwarder n)"

lemma forwarder_new: "forwarder_of n (newNodeForwarder n)"
  by (simp add: forwarder_of_def)

text \<open>The early exit changes nothing: without it the same batches would be queued.\<close>

lemma forward_queue:
  assumes "forwarder_of n nf"
  shows "nf_forward vs nf = nf\<lparr>nf_mQueue := nf_mQueue nf @ group_batches n vs\<rparr>"
proof (cases "list_ex (\<lambda>v. pv_prop v \<in> set (nf_mAllPropIds nf)) vs")
  case True
  then show ?thesis
    using assms by (simp add: nf_forward_def forwarder_of_def newNodeForwarder_def queue_groups_eq group_batches_def)
next
  case False
  then have "\<forall>v \<in> set vs. \<forall>m \<in> set (gn_messages n). pv_prop v \<notin> gp_id ` set (gm_properties m)"
    using assms all_ids_set [of n] by (auto simp: forwarder_of_def list_ex_iff)
  then have "group_batches n vs = []"
    by (auto simp: group_batches_def filter_empty_conv)
  with False show ?thesis by (simp add: nf_forward_def)
qed

definition nf_in_hand :: "NodeForwarder \<Rightarrow> ForwardBatch list" where
  "nf_in_hand nf = (case nf_worker nf of NF_SEND b \<Rightarrow> [b] | _ \<Rightarrow> [])"

lemma worker_step_ledger:
  assumes "workerLoop_step nf = Some (out, nf')"
  shows "out @ map set_request (nf_in_hand nf' @ nf_mQueue nf') = map set_request (nf_in_hand nf @ nf_mQueue nf) \<and>
    mMessages nf' = mMessages nf \<and> nf_mAllPropIds nf' = nf_mAllPropIds nf \<and> mRunning nf' = mRunning nf"
  using assms by (auto simp: workerLoop_step_def nf_in_hand_def split: nf_pc.splits list.splits if_splits)

section \<open>Change detection\<close>

definition last_value :: "int32 \<Rightarrow> VehiclePropValue list \<Rightarrow> VehiclePropValue option" where
  "last_value p vs = (let own = filter (\<lambda>v. pv_prop v = p) vs in if own = [] then None else Some (last own))"

lemma last_value_append:
  "last_value p (xs @ ys) = (case last_value p ys of None \<Rightarrow> last_value p xs | Some v \<Rightarrow> Some v)"
  by (simp add: last_value_def Let_def)

lemma last_value_Cons: "last_value p (v # vs) = (case last_value p vs of None \<Rightarrow> (if pv_prop v = p then Some v else None) | Some w \<Rightarrow> Some w)"
  by (simp add: last_value_def Let_def)

text \<open>One turn of the loop: a result is skipped or its value is recorded as changed.\<close>

definition is_change :: "(int32 \<times> VehiclePropValue) list \<Rightarrow> VehiclePropValue \<Rightarrow> bool" where
  "is_change prev val \<longleftrightarrow> (case map_of prev (pv_prop val) of None \<Rightarrow> True | Some old \<Rightarrow> \<not> raw_eq (pv_value old) (pv_value val))"

definition ok_value :: "GetValueResult \<Rightarrow> VehiclePropValue option" where
  "ok_value r = (if gv_status r = OK then gv_prop r else None)"

lemma detect_step:
  "detect_changes (r # rs) prev =
     (case ok_value r of
        Some val \<Rightarrow> if is_change prev val
          then let (ch, prev') = detect_changes rs (AList.update (pv_prop val) val prev) in (val # ch, prev')
          else detect_changes rs prev
      | None \<Rightarrow> detect_changes rs prev)"
  by (cases "gv_status r"; cases "gv_prop r") (simp_all add: ok_value_def is_change_def)

declare detect_changes.simps(2) [simp del]

lemma detect_previous:
  "detect_changes rs prev = (changed, prev') \<Longrightarrow>
     map_of prev' p = (case last_value p changed of None \<Rightarrow> map_of prev p | Some v \<Rightarrow> Some v)"
proof (induction rs arbitrary: prev changed prev')
  case Nil
  then show ?case by (simp add: last_value_def)
next
  case (Cons r rs)
  then consider "detect_changes rs prev = (changed, prev')"
    | val ch where "detect_changes rs (AList.update (pv_prop val) val prev) = (ch, prev')" "changed = val # ch"
    by (auto simp: detect_step split: option.splits if_splits prod.splits)
  then show ?case
  proof cases
    case 1
    then show ?thesis by (rule Cons.IH)
  next
    case 2
    from Cons.IH [OF 2(1)] 2(2) show ?thesis by (auto simp: last_value_Cons split: option.splits)
  qed
qed

text \<open>After a poll, the value recorded for a property is one that compares equal to the value read, or the value read itself.\<close>

definition up_to_date :: "VehiclePropValue option \<Rightarrow> VehiclePropValue \<Rightarrow> bool" where
  "up_to_date known val \<longleftrightarrow> (\<exists>old. known = Some old \<and> (old = val \<or> raw_eq (pv_value old) (pv_value val)))"

lemma detect_current:
  assumes "detect_changes rs prev = (changed, prev')" and "distinct (map pv_prop (List.map_filter ok_value rs))"
    and "r \<in> set rs" and "ok_value r = Some val"
  shows "up_to_date (map_of prev' (pv_prop val)) val"
  using assms
proof (induction rs arbitrary: prev changed)
  case Nil
  then show ?case by simp
next
  case (Cons r' rs)
  have other: "map_of prev'' (pv_prop w) = map_of prv (pv_prop w)"
    if "detect_changes rs prv = (ch, prev'')" "pv_prop w \<notin> pv_prop ` set (List.map_filter ok_value rs)" for prv ch prev'' w
    using that
  proof (induction rs arbitrary: prv ch)
    case Nil
    then show ?case by simp
  next
    case (Cons q qs)
    then show ?case by (fastforce simp: detect_step map_filter_simps split: option.splits if_splits prod.splits)
  qed
  show ?case
  proof (cases "r = r'")
    case True
    with Cons.prems have fresh: "pv_prop val \<notin> pv_prop ` set (List.map_filter ok_value rs)" by (simp add: map_filter_simps)
    show ?thesis
    proof (cases "is_change prev val")
      case change: True
      with True Cons.prems obtain ch where "detect_changes rs (AList.update (pv_prop val) val prev) = (ch, prev')"
        by (auto simp: detect_step split: prod.splits)
      from other [OF this fresh] show ?thesis by (simp add: up_to_date_def)
    next
      case False
      with True Cons.prems have "detect_changes rs prev = (changed, prev')" by (simp add: detect_step)
      from other [OF this fresh] False show ?thesis by (auto simp: up_to_date_def is_change_def split: option.splits)
    qed
  next
    case False
    with Cons.prems have "r \<in> set rs" "distinct (map pv_prop (List.map_filter ok_value rs))"
      by (auto simp: map_filter_simps split: option.splits)
    moreover obtain prv ch where "detect_changes rs prv = (ch, prev')"
      using Cons.prems(1) by (auto simp: detect_step split: option.splits if_splits prod.splits)
    ultimately show ?thesis using Cons.IH Cons.prems(4) by blast
  qed
qed

section \<open>Runs of the gateway\<close>

text \<open>
  Polls of the gateway interleave with the workers of its forwarders, and a forwarder may be destroyed. The ledger
  holds the changes each poll found and the requests sent to each node.
\<close>

record gw_run =
  gw :: VhalGateway
  changes :: "VehiclePropValue list list"
  sent_to :: "proto_VehiclePropValueRequest list list list"

inductive gw_step :: "gw_run \<Rightarrow> gw_run \<Rightarrow> bool" where
  gw_poll: "pollOnce status results (gw s) = (changed, gw') \<Longrightarrow>
     gw_step s (s\<lparr>gw := gw', changes := changes s @ [changed]\<rparr>)"
| gw_work: "i < length (mForwarders (gw s)) \<Longrightarrow> workerLoop_step (mForwarders (gw s) ! i) = Some (out, nf) \<Longrightarrow>
     gw_step s (s\<lparr>gw := (gw s)\<lparr>mForwarders := (mForwarders (gw s))[i := nf]\<rparr>,
                  sent_to := (sent_to s)[i := sent_to s ! i @ out]\<rparr>)"
| gw_stop: "i < length (mForwarders (gw s)) \<Longrightarrow>
     gw_step s (s\<lparr>gw := (gw s)\<lparr>mForwarders := (mForwarders (gw s))[i := destructNodeForwarder (mForwarders (gw s) ! i)]\<rparr>\<rparr>)"

definition gw_start :: "GatewayConfig \<Rightarrow> gw_run \<Rightarrow> bool" where
  "gw_start config s \<longleftrightarrow> s = \<lparr>gw = newVhalGateway config, changes = [], sent_to = map (\<lambda>_. []) (gc_nodes config)\<rparr>"

definition node_ledger :: "GatewayNodeConfig \<Rightarrow> VehiclePropValue list list \<Rightarrow> NodeForwarder \<Rightarrow> proto_VehiclePropValueRequest list list \<Rightarrow> bool" where
  "node_ledger n chs nf sent \<longleftrightarrow> forwarder_of n nf \<and>
     sent @ map set_request (nf_in_hand nf @ nf_mQueue nf) = map set_request (concat (map (group_batches n) chs))"

definition gw_inv :: "GatewayConfig \<Rightarrow> gw_run \<Rightarrow> bool" where
  "gw_inv config s \<longleftrightarrow>
     length (mForwarders (gw s)) = length (gc_nodes config) \<and> length (sent_to s) = length (gc_nodes config) \<and>
     (\<forall>i < length (gc_nodes config).
        node_ledger (gc_nodes config ! i) (changes s) (mForwarders (gw s) ! i) (sent_to s ! i)) \<and>
     (\<forall>p. map_of (mPreviousValues (gw s)) p = last_value p (concat (changes s)))"

lemma group_batches_Nil: "group_batches n [] = []"
  by (simp add: group_batches_def)

lemma ledger_forward:
  assumes "node_ledger n chs nf sent"
  shows "node_ledger n (chs @ [ch]) (nf_forward ch nf) sent"
  using assms by (simp add: node_ledger_def forward_queue forwarder_of_def nf_in_hand_def)

lemma ledger_quiet: "node_ledger n chs nf sent \<Longrightarrow> node_ledger n (chs @ [[]]) nf sent"
  by (simp add: node_ledger_def group_batches_Nil)

lemma ledger_work:
  assumes "node_ledger n chs nf sent" and "workerLoop_step nf = Some (out, nf')"
  shows "node_ledger n chs nf' (sent @ out)"
  using assms worker_step_ledger [OF assms(2)] by (simp add: node_ledger_def forwarder_of_def)

lemma poll_cases:
  assumes "pollOnce status results g = (changed, g')"
  obtains (quiet) "changed = []" "mForwarders g' = mForwarders g" "mPreviousValues g' = mPreviousValues g"
  | (forwarded) "status = OK" "detect_changes results (mPreviousValues g) = (changed, mPreviousValues g')"
      "mForwarders g' = map (nf_forward changed) (mForwarders g)"
  | (same) "status = OK" "changed = []" "detect_changes results (mPreviousValues g) = (changed, mPreviousValues g')"
      "mForwarders g' = mForwarders g"
  using assms by (auto simp: pollOnce_def split: if_splits prod.splits)

lemma poll_inv:
  assumes "gw_inv config s" and "pollOnce status results (gw s) = (changed, g')"
  shows "gw_inv config (s\<lparr>gw := g', changes := changes s @ [changed]\<rparr>)"
  using assms(2)
proof (cases rule: poll_cases)
  case quiet
  with assms(1) show ?thesis by (auto simp: gw_inv_def intro: ledger_quiet)
next
  case forwarded
  have "map_of (mPreviousValues g') p = last_value p (concat (changes s) @ changed)" for p
    using assms(1) detect_previous [OF forwarded(2), of p] by (simp add: gw_inv_def last_value_append split: option.split)
  with assms(1) forwarded(3) show ?thesis by (auto simp: gw_inv_def intro: ledger_forward)
next
  case same
  have "map_of (mPreviousValues g') p = last_value p (concat (changes s))" for p
    using assms(1) detect_previous [OF same(3), of p] same(2) by (simp add: gw_inv_def last_value_def)
  with assms(1) same show ?thesis by (auto simp: gw_inv_def intro: ledger_quiet)
qed

interpretation gw_runs: step_invariant "gw_start config" gw_step "gw_inv config" for config
proof unfold_locales
  show "gw_inv config s" if "gw_start config s" for s
    using that by (auto simp: gw_start_def gw_inv_def newVhalGateway_def Let_def node_ledger_def forwarder_new last_value_def)
      (simp_all add: newNodeForwarder_def nf_in_hand_def)
  show "gw_inv config t" if "gw_inv config s" "gw_step s t" for s t
    using that(2,1)
  proof induction
    case (gw_poll status results s changed g')
    then show ?case by (intro poll_inv)
  next
    case (gw_work i s out nf)
    then show ?case by (auto simp: gw_inv_def nth_list_update intro: ledger_work)
  next
    case (gw_stop i s)
    then show ?case
      by (auto simp: gw_inv_def nth_list_update node_ledger_def forwarder_of_def destructNodeForwarder_def nf_in_hand_def)
  qed
qed

section \<open>Stopping a forwarder\<close>

text \<open>The worker alone.\<close>

fun nf_work :: "nat \<Rightarrow> NodeForwarder \<Rightarrow> proto_VehiclePropValueRequest list list \<times> NodeForwarder" where
  "nf_work 0 nf = ([], nf)"
| "nf_work (Suc k) nf =
     (case workerLoop_step nf of
        None \<Rightarrow> ([], nf)
      | Some (out, nf') \<Rightarrow> let (outs, nf'') = nf_work k nf' in (out @ outs, nf''))"

definition nf_left :: "NodeForwarder \<Rightarrow> nat" where
  "nf_left nf = (case nf_worker nf of NF_DONE \<Rightarrow> 0 | NF_WAIT \<Rightarrow> 2 * length (nf_mQueue nf) + 1 | NF_SEND b \<Rightarrow> 2 * length (nf_mQueue nf) + 2)"

lemma nf_drains:
  assumes "\<not> mRunning nf" and "nf_worker nf = NF_DONE \<Longrightarrow> nf_mQueue nf = []" and "nf_left nf \<le> k"
  shows "fst (nf_work k nf) = map set_request (nf_in_hand nf @ nf_mQueue nf) \<and> nf_worker (snd (nf_work k nf)) = NF_DONE"
  using assms
proof (induction k arbitrary: nf)
  case 0
  then show ?case by (auto simp: nf_left_def nf_in_hand_def split: nf_pc.splits)
next
  case (Suc k)
  show ?case
  proof (cases "nf_worker nf = NF_DONE")
    case True
    with Suc.prems show ?thesis by (simp add: workerLoop_step_def nf_in_hand_def)
  next
    case False
    with Suc.prems(1) obtain out nf' where st: "workerLoop_step nf = Some (out, nf')"
      by (cases "nf_worker nf"; cases "nf_mQueue nf") (auto simp: workerLoop_step_def)
    then have "nf_left nf' \<le> k" "nf_worker nf' = NF_DONE \<Longrightarrow> nf_mQueue nf' = []"
      using Suc.prems False
      by (auto simp: workerLoop_step_def nf_left_def split: nf_pc.splits list.splits if_splits)
    moreover note worker_step_ledger [OF st]
    ultimately have "fst (nf_work k nf') = map set_request (nf_in_hand nf' @ nf_mQueue nf') \<and> nf_worker (snd (nf_work k nf')) = NF_DONE"
      using Suc.prems(1) by (intro Suc.IH) auto
    with worker_step_ledger [OF st] show ?thesis by (auto simp: st split: prod.splits)
  qed
qed

section \<open>Properties\<close>

text \<open>C21. The gateway loses and reorders nothing: in every interleaving of polls and workers, the requests sent to a node, then
  the batch its worker holds, then its queue are exactly the batches of the changes of all polls, one per poll and
  message group with a changed value, in order, although a forwarder skips changes by a precomputed set of ids.\<close>

theorem gateway_delivers:
  assumes "gw_start config s0" and "gw_step\<^sup>*\<^sup>* s0 s" and "i < length (gc_nodes config)"
  shows "sent_to s ! i @ map set_request (nf_in_hand (mForwarders (gw s) ! i) @ nf_mQueue (mForwarders (gw s) ! i)) =
    map set_request (concat (map (group_batches (gc_nodes config ! i)) (changes s)))"
  using gw_runs.reachable_inv [OF assms(1,2)] assms(3) by (simp add: gw_inv_def node_ledger_def)

definition sample_gateway :: GatewayConfig where
  "sample_gateway = \<lparr>gc_version = ''1.0'', gc_nodes = [\<lparr>gn_ipaddr = ''192.168.10.20:50051'', gn_messages =
     [\<lparr>gm_msgId = ''ivi-basic'', gm_properties = [\<lparr>gp_id = 0x11400400, gp_desc = ''GEAR_SELECTION''\<rparr>]\<rparr>]\<rparr>]\<rparr>"

definition sample_gw_run :: gw_run where
  "sample_gw_run = \<lparr>gw = newVhalGateway sample_gateway, changes = [], sent_to = [[]]\<rparr>"

definition gear_value :: "int32 \<Rightarrow> VehiclePropValue" where
  "gear_value g = empty_prop_value\<lparr>pv_prop := 0x11400400, pv_value := empty_raw\<lparr>int32Values := [g]\<rparr>\<rparr>"

definition gear_results :: "int32 \<Rightarrow> GetValueResult list" where
  "gear_results g = [\<lparr>gv_requestId = 0, gv_status = OK, gv_prop = Some (gear_value g)\<rparr>]"

lemma sample_gw_start: "gw_start sample_gateway sample_gw_run"
  by (simp add: gw_start_def sample_gw_run_def sample_gateway_def)

lemma sample_poll: "fst (pollOnce OK (gear_results 4) (gw sample_gw_run)) = [gear_value 4]"
  by (simp add: pollOnce_def sample_gw_run_def newVhalGateway_def gear_results_def detect_step ok_value_def is_change_def Let_def)

theorem gateway_delivers_witness:
  "\<exists>s. gw_step\<^sup>*\<^sup>* sample_gw_run s \<and>
     sent_to s ! 0 @ map set_request (nf_in_hand (mForwarders (gw s) ! 0) @ nf_mQueue (mForwarders (gw s) ! 0)) =
       [set_request \<lparr>fb_msgId = ''ivi-basic'', fb_values = [gear_value 4]\<rparr>]"
proof -
  obtain g' where "pollOnce OK (gear_results 4) (gw sample_gw_run) = ([gear_value 4], g')"
    using sample_poll by (metis prod.collapse)
  from gw_poll [OF this] have run: "gw_step\<^sup>*\<^sup>* sample_gw_run
      (sample_gw_run\<lparr>gw := g', changes := changes sample_gw_run @ [[gear_value 4]]\<rparr>)" (is "gw_step\<^sup>*\<^sup>* _ ?s") by (rule r_into_rtranclp)
  have "map set_request (concat (map (group_batches (gc_nodes sample_gateway ! 0)) (changes ?s))) =
      [set_request \<lparr>fb_msgId = ''ivi-basic'', fb_values = [gear_value 4]\<rparr>]"
    by (simp add: sample_gw_run_def sample_gateway_def group_batches_def gear_value_def)
  with gateway_delivers [OF sample_gw_start run, of 0] run show ?thesis
    by (intro exI [of _ ?s]) (simp add: sample_gateway_def)
qed

text \<open>The nodes mirror the vehicle: after a successful poll in any run, the value of each property that was
  read is the one last forwarded for it, or equal to it as the generated comparison sees it.\<close>

theorem gateway_mirrors:
  assumes "gw_start config s0" and "gw_step\<^sup>*\<^sup>* s0 s" and "pollOnce OK results (gw s) = (changed, gw')"
    and "distinct (map pv_prop (List.map_filter ok_value results))" and "r \<in> set results" and "ok_value r = Some val"
  shows "up_to_date (last_value (pv_prop val) (concat (changes s) @ changed)) val"
proof -
  have inv: "gw_inv config s" by (rule gw_runs.reachable_inv [OF assms(1,2)])
  from assms(3) have d: "detect_changes results (mPreviousValues (gw s)) = (changed, mPreviousValues gw')"
    by (auto simp: pollOnce_def split: if_splits prod.splits)
  have "map_of (mPreviousValues gw') (pv_prop val) = last_value (pv_prop val) (concat (changes s) @ changed)"
    using inv detect_previous [OF d, of "pv_prop val"] by (simp add: gw_inv_def last_value_append split: option.split)
  with detect_current [OF d assms(4-6)] show ?thesis by simp
qed

theorem gateway_mirrors_witness:
  "up_to_date (last_value 0x11400400 [gear_value 4]) (gear_value 4)"
proof -
  obtain g' where p: "pollOnce OK (gear_results 4) (gw sample_gw_run) = ([gear_value 4], g')"
    using sample_poll by (metis prod.collapse)
  from gateway_mirrors [OF sample_gw_start rtranclp.rtrancl_refl p, of "hd (gear_results 4)" "gear_value 4"] show ?thesis
    by (simp add: gear_results_def ok_value_def map_filter_simps sample_gw_run_def gear_value_def)
qed

text \<open>C39. Destroying a forwarder ends its thread and loses nothing: once the destructor has asked it to stop, the worker alone
  ends after at most two steps per queued batch and two more, and has sent every batch that was waiting.\<close>

theorem forwarder_stops:
  assumes "nf_worker nf \<noteq> NF_DONE" and "2 * length (nf_mQueue nf) + 2 \<le> k"
  shows "fst (nf_work k (destructNodeForwarder nf)) = map set_request (nf_in_hand nf @ nf_mQueue nf) \<and>
    nf_worker (snd (nf_work k (destructNodeForwarder nf))) = NF_DONE"
  using nf_drains [of "destructNodeForwarder nf" k] assms
  by (auto simp: destructNodeForwarder_def nf_left_def nf_in_hand_def split: nf_pc.splits)

theorem forwarder_stops_witness:
  "fst (nf_work 4 (destructNodeForwarder ((newNodeForwarder (hd (gc_nodes sample_gateway)))\<lparr>nf_mQueue := [\<lparr>fb_msgId = ''ivi-basic'', fb_values = [gear_value 4]\<rparr>]\<rparr>))) =
     [set_request \<lparr>fb_msgId = ''ivi-basic'', fb_values = [gear_value 4]\<rparr>]"
  using forwarder_stops [of "(newNodeForwarder (hd (gc_nodes sample_gateway)))\<lparr>nf_mQueue := [\<lparr>fb_msgId = ''ivi-basic'', fb_values = [gear_value 4]\<rparr>]\<rparr>" 4]
  by (simp add: newNodeForwarder_def nf_in_hand_def)

end
