(* ===== verification/GrpcProxy.thy ===== *)
theory GrpcProxy
  imports ProtoConverter
begin

text \<open>
  The GRPC connection between a vehicle service and remote vehicle hardware: \<^verbatim>\<open>GRPCVehicleProxyServer.cpp\<close> offers a
  hardware to the network, \<^verbatim>\<open>GRPCVehicleHardware.cpp\<close> is a hardware that asks such a server. The GRPC library is not part of the
  model: a server function takes the request message and gives the status and response message; a client
  function takes the stub, a function from its request to what the call returns. \<open>None\<close> is left for
  messages with unnamed enum numbers, except where noted.
\<close>

datatype grpc_code = G_OK | G_ABORTED | G_INTERNAL | G_UNIMPLEMENTED | G_OTHER int

section \<open>Server: calls\<close>

text \<open>
  What the hardware passes to the callback of a call before the wait of one second ends: a list of batches,
  given as functions of the requests and the state.
\<close>

record 'h answers =
  an_getValues :: "GetValueRequest list \<Rightarrow> 'h \<Rightarrow> GetValueResult list list"
  an_setValues :: "SetValueRequest list \<Rightarrow> 'h \<Rightarrow> SetValueResult list list"

definition getPropIdAreaIdsFromProtoRequest :: "proto_PropIdAreaId list \<Rightarrow> PropIdAreaId list" where
  "getPropIdAreaIdsFromProtoRequest ks = map (\<lambda>k. protoToAidl_key k \<lparr>pa_propId = 0, pa_areaId = 0\<rparr>) ks"

definition GetAllPropertyConfig :: "'h IVehicleHardware \<Rightarrow> (nat \<Rightarrow> bool) \<Rightarrow> 'h \<Rightarrow> grpc_code \<times> proto_VehiclePropConfig list" where
  "GetAllPropertyConfig hw writeOK h =
     (let configs = map (\<lambda>c. aidlToProto_config c new_proto_config) (hw_getAllPropertyConfigs hw h);
          written = length (takeWhile writeOK [0..<length configs])
      in (if written < length configs then G_ABORTED else G_OK, take written configs))"

text \<open>The callback: results are collected until every request id has been answered.\<close>

fun collect_results ::
  "('r \<Rightarrow> int64) \<Rightarrow> ('r \<Rightarrow> 'p) \<Rightarrow> int64 list \<Rightarrow> 'p list \<Rightarrow> 'r list list \<Rightarrow> bool \<times> 'p list" where
  "collect_results idOf conv ids tmpResults [] = (False, tmpResults)"
| "collect_results idOf conv ids tmpResults (results # bs) =
     (let tmpResults' = tmpResults @ map conv results;
          ids' = filter (\<lambda>i. i \<notin> idOf ` set results) ids
      in if ids' = [] then (True, tmpResults')
         else collect_results idOf conv ids' tmpResults' bs)"

definition set_result_to_proto :: "SetValueResult \<Rightarrow> proto_SetValueResult" where
  "set_result_to_proto r = \<lparr>pt_request_id = sv_requestId r, pt_status = StatusCode_toInt (sv_status r)\<rparr>"

definition get_result_to_proto :: "GetValueResult \<Rightarrow> proto_GetValueResult" where
  "get_result_to_proto r =
     \<lparr>pg_request_id = gv_requestId r, pg_status = StatusCode_toInt (gv_status r),
      pg_value = map_option (\<lambda>v. aidlToProto_value v new_proto_value) (gv_prop r)\<rparr>"

definition SetValues ::
  "'h IVehicleHardware \<Rightarrow> 'h answers \<Rightarrow> proto_VehiclePropValueRequest list \<Rightarrow> 'h \<Rightarrow>
     ((grpc_code \<times> proto_SetValueResult list) \<times> 'h) option" where
  "SetValues hw an requests h =
     map_option (\<lambda>aidlRequests.
       let (aidlStatus, h') = hw_setValues hw aidlRequests h
       in if aidlStatus \<noteq> OK then ((G_INTERNAL, []), h')
          else let (success, results) = collect_results sv_requestId set_result_to_proto
                     (remdups (map pq_request_id requests)) [] (an_setValues an aidlRequests h)
               in if \<not> success then ((G_INTERNAL, []), h') else ((G_OK, results), h'))
       (map_option_list (\<lambda>p. map_option (\<lambda>v. \<lparr>sr_requestId = pq_request_id p, sr_value = v\<rparr>)
          (protoToAidl_value (pq_value p) empty_prop_value)) requests)"

definition GetValues ::
  "'h IVehicleHardware \<Rightarrow> 'h answers \<Rightarrow> proto_VehiclePropValueRequest list \<Rightarrow> 'h \<Rightarrow>
     ((grpc_code \<times> proto_GetValueResult list) \<times> 'h) option" where
  "GetValues hw an requests h =
     map_option (\<lambda>aidlRequests.
       let (aidlStatus, h') = hw_getValues hw aidlRequests h
       in if aidlStatus \<noteq> OK then ((G_INTERNAL, []), h')
          else let (success, results) = collect_results gv_requestId get_result_to_proto
                     (remdups (map pq_request_id requests)) [] (an_getValues an aidlRequests h)
               in if \<not> success then ((G_INTERNAL, []), h') else ((G_OK, results), h'))
       (map_option_list (\<lambda>p. map_option (\<lambda>v. \<lparr>gr_requestId = pq_request_id p, gr_prop = v\<rparr>)
          (protoToAidl_value (pq_value p) empty_prop_value)) requests)"

definition UpdateSampleRate :: "'h IVehicleHardware \<Rightarrow> int32 \<Rightarrow> int32 \<Rightarrow> f32 \<Rightarrow> 'h \<Rightarrow> (grpc_code \<times> int32) \<times> 'h" where
  "UpdateSampleRate hw prop area rate h =
     (let (st, h') = hw_subscription hw (HwUpdateSampleRate prop area rate) h in ((G_OK, StatusCode_toInt st), h'))"

definition Subscribe :: "'h IVehicleHardware \<Rightarrow> proto_SubscribeOptions \<Rightarrow> 'h \<Rightarrow> (grpc_code \<times> int32) \<times> 'h" where
  "Subscribe hw options h =
     (let (st, h') = hw_subscription hw (HwSubscribe (protoToAidl_options options new_options)) h
      in ((G_OK, StatusCode_toInt st), h'))"

definition Unsubscribe :: "'h IVehicleHardware \<Rightarrow> int32 \<Rightarrow> int32 \<Rightarrow> 'h \<Rightarrow> (grpc_code \<times> int32) \<times> 'h" where
  "Unsubscribe hw prop area h =
     (let (st, h') = hw_subscription hw (HwUnsubscribe prop area) h in ((G_OK, StatusCode_toInt st), h'))"

definition CheckHealth :: "'h IVehicleHardware \<Rightarrow> 'h \<Rightarrow> grpc_code \<times> int32" where
  "CheckHealth hw h = (G_OK, StatusCode_toInt (hw_checkHealth hw h))"

definition Dump :: "'h IVehicleHardware \<Rightarrow> string list \<Rightarrow> 'h \<Rightarrow> (grpc_code \<times> DumpResult) \<times> 'h" where
  "Dump hw options h = (let (r, h') = hw_dump hw options h in ((G_OK, r), h'))"

definition GetMinMaxSupportedValues ::
  "'h IVehicleHardware \<Rightarrow> proto_PropIdAreaId list \<Rightarrow> 'h \<Rightarrow> grpc_code \<times> proto_MinMaxSupportedValueResult list" where
  "GetMinMaxSupportedValues hw ks h =
     (G_OK, map (\<lambda>r. aidlToProto_minmax r new_proto_minmax)
        (hw_getMinMaxSupportedValues hw (getPropIdAreaIdsFromProtoRequest ks) h))"

definition GetSupportedValuesLists ::
  "'h IVehicleHardware \<Rightarrow> proto_PropIdAreaId list \<Rightarrow> 'h \<Rightarrow> grpc_code \<times> proto_SupportedValuesListResult list" where
  "GetSupportedValuesLists hw ks h =
     (G_OK, map (\<lambda>r. aidlToProto_list r new_proto_list)
        (hw_getSupportedValuesLists hw (getPropIdAreaIdsFromProtoRequest ks) h))"

section \<open>Server: streams\<close>

record ConnectionDescriptor =
  cd_ID :: nat
  mShutdownFlag :: bool

text \<open>
  The event writer waits, or writes the messages it swapped out of the queues, or is about to erase the connections
  a write found broken, or has ended. Every connection type has an id counter of its own.
\<close>

datatype ('v, 'c) writer_pc =
  EW_WAIT
| EW_WRITE "'v list" "'c list" bool
| EW_ERASE_VALUE "nat list" "'v list" "'c list" bool
| EW_ERASE_CHANGE "nat list" "'c list" bool
| EW_DONE

record ('v, 'c) proxy_streams =
  mPropValueQueue :: "'v list"
  mSupportedValuesChangeQueue :: "'c list"
  mStopEventWriter :: bool
  mValueStreamingConnections :: "ConnectionDescriptor list"
  mSupportedValuesChangeConnections :: "ConnectionDescriptor list"
  value_connection_id_counter :: nat
  change_connection_id_counter :: nat
  ew_pc :: "('v, 'c) writer_pc"

definition new_streams :: "('v, 'c) proxy_streams" where
  "new_streams =
     \<lparr>mPropValueQueue = [], mSupportedValuesChangeQueue = [], mStopEventWriter = False, mValueStreamingConnections = [],
      mSupportedValuesChangeConnections = [], value_connection_id_counter = 0, change_connection_id_counter = 0, ew_pc = EW_WAIT\<rparr>"

type_synonym proxy_server = "(proto_VehiclePropValue list, proto_PropIdAreaId list) proxy_streams"

definition toPropValues :: "VehiclePropValue list \<Rightarrow> proto_VehiclePropValue list" where
  "toPropValues vs = map (\<lambda>v. aidlToProto_value v new_proto_value) vs"

definition toSupportedValuesChange :: "PropIdAreaId list \<Rightarrow> proto_PropIdAreaId list" where
  "toSupportedValuesChange ks = map (\<lambda>k. aidlToProto_key k new_proto_key) ks"

definition OnVehiclePropChange :: "VehiclePropValue list \<Rightarrow> proxy_server \<Rightarrow> proxy_server" where
  "OnVehiclePropChange vs s = s\<lparr>mPropValueQueue := mPropValueQueue s @ [toPropValues vs]\<rparr>"

definition OnSupportedValuesChange :: "PropIdAreaId list \<Rightarrow> proxy_server \<Rightarrow> proxy_server" where
  "OnSupportedValuesChange ks s =
     s\<lparr>mSupportedValuesChangeQueue := mSupportedValuesChangeQueue s @ [toSupportedValuesChange ks]\<rparr>"

text \<open>A stream call adds its connection and waits until it is shut down.\<close>

definition newConnection :: "nat \<Rightarrow> ConnectionDescriptor" where
  "newConnection counter = \<lparr>cd_ID = Suc counter, mShutdownFlag = False\<rparr>"

definition StartPropertyValuesStream :: "('v, 'c) proxy_streams \<Rightarrow> ('v, 'c) proxy_streams" where
  "StartPropertyValuesStream s =
     s\<lparr>value_connection_id_counter := Suc (value_connection_id_counter s),
       mValueStreamingConnections := mValueStreamingConnections s @ [newConnection (value_connection_id_counter s)]\<rparr>"

definition StartSupportedValuesChangeStream :: "('v, 'c) proxy_streams \<Rightarrow> ('v, 'c) proxy_streams" where
  "StartSupportedValuesChangeStream s =
     s\<lparr>change_connection_id_counter := Suc (change_connection_id_counter s),
       mSupportedValuesChangeConnections :=
         mSupportedValuesChangeConnections s @ [newConnection (change_connection_id_counter s)]\<rparr>"

text \<open>\<^verbatim>\<open>Write\<close> of a connection: whether the stream takes the message is an argument.\<close>

definition cd_Write :: "(nat \<Rightarrow> bool) \<Rightarrow> ConnectionDescriptor \<Rightarrow> bool \<times> ConnectionDescriptor" where
  "cd_Write streamOK c =
     (if \<not> mShutdownFlag c \<and> streamOK (cd_ID c) then (True, c) else (False, c\<lparr>mShutdownFlag := True\<rparr>))"

text \<open>
  \<^verbatim>\<open>writeToStream\<close> under the shared lock: the ids that took the message, the broken ids, and the connections; then, if any is
  broken, the erasure under the unique lock.
\<close>

definition writeToStream ::
  "(nat \<Rightarrow> bool) \<Rightarrow> ConnectionDescriptor list \<Rightarrow> nat list \<times> nat list \<times> ConnectionDescriptor list" where
  "writeToStream streamOK connections =
     (let written = map (cd_Write streamOK) connections
      in (map (cd_ID \<circ> snd) (filter fst written), map (cd_ID \<circ> snd) (filter (Not \<circ> fst) written), map snd written))"

definition eraseBroken :: "nat list \<Rightarrow> ConnectionDescriptor list \<Rightarrow> ConnectionDescriptor list" where
  "eraseBroken brokenConn connections = filter (\<lambda>c. cd_ID c \<notin> set brokenConn) connections"

text \<open>One step of the writer: the messages written with the ids that took them, and the new state. It is \<open>None\<close> while it blocks.\<close>

datatype ('v, 'c) stream_write = WroteNothing | WroteValues 'v "nat list" | WroteChange 'c "nat list"

definition eventWriterLoop_step ::
  "(nat \<Rightarrow> bool) \<Rightarrow> ('v, 'c) proxy_streams \<Rightarrow> (('v, 'c) stream_write \<times> ('v, 'c) proxy_streams) option" where
  "eventWriterLoop_step streamOK s =
     (case ew_pc s of
        EW_WAIT \<Rightarrow>
          if \<not> mStopEventWriter s \<and> mPropValueQueue s = [] \<and> mSupportedValuesChangeQueue s = [] then None
          else Some (WroteNothing, s\<lparr>mPropValueQueue := [], mSupportedValuesChangeQueue := [],
                 ew_pc := EW_WRITE (mPropValueQueue s) (mSupportedValuesChangeQueue s) (mStopEventWriter s)\<rparr>)
      | EW_WRITE (v # vs) cs stop \<Rightarrow>
          (let (took, brokenConn, conns) = writeToStream streamOK (mValueStreamingConnections s)
           in Some (WroteValues v took, s\<lparr>mValueStreamingConnections := conns,
                ew_pc := (if brokenConn = [] then EW_WRITE vs cs stop else EW_ERASE_VALUE brokenConn vs cs stop)\<rparr>))
      | EW_WRITE [] (c # cs) stop \<Rightarrow>
          (let (took, brokenConn, conns) = writeToStream streamOK (mSupportedValuesChangeConnections s)
           in Some (WroteChange c took, s\<lparr>mSupportedValuesChangeConnections := conns,
                ew_pc := (if brokenConn = [] then EW_WRITE [] cs stop else EW_ERASE_CHANGE brokenConn cs stop)\<rparr>))
      | EW_WRITE [] [] stop \<Rightarrow> Some (WroteNothing, s\<lparr>ew_pc := (if stop then EW_DONE else EW_WAIT)\<rparr>)
      | EW_ERASE_VALUE brokenConn vs cs stop \<Rightarrow>
          Some (WroteNothing, s\<lparr>mValueStreamingConnections := eraseBroken brokenConn (mValueStreamingConnections s),
            ew_pc := EW_WRITE vs cs stop\<rparr>)
      | EW_ERASE_CHANGE brokenConn cs stop \<Rightarrow>
          Some (WroteNothing, s\<lparr>mSupportedValuesChangeConnections := eraseBroken brokenConn (mSupportedValuesChangeConnections s),
            ew_pc := EW_WRITE [] cs stop\<rparr>)
      | EW_DONE \<Rightarrow> None)"

text \<open>\<^verbatim>\<open>Shutdown\<close> stops the writer, waits for it to end, and then shuts the connections down.\<close>

definition Shutdown_begin :: "('v, 'c) proxy_streams \<Rightarrow> ('v, 'c) proxy_streams" where
  "Shutdown_begin s = s\<lparr>mStopEventWriter := True\<rparr>"

definition Shutdown_end :: "('v, 'c) proxy_streams \<Rightarrow> ('v, 'c) proxy_streams option" where
  "Shutdown_end s =
     (if ew_pc s \<noteq> EW_DONE then None
      else Some (s\<lparr>mValueStreamingConnections := map (mShutdownFlag_update (\<lambda>_. True)) (mValueStreamingConnections s),
        mSupportedValuesChangeConnections := map (mShutdownFlag_update (\<lambda>_. True)) (mSupportedValuesChangeConnections s)\<rparr>))"

section \<open>Client: calls\<close>

text \<open>The configurations read until the stream ends; the status is only logged.\<close>

definition grpc_getAllPropertyConfigs :: "proto_VehiclePropConfig list \<Rightarrow> VehiclePropConfig list option" where
  "grpc_getAllPropertyConfigs stream = map_option_list (\<lambda>p. protoToAidl_config p new_config) stream"

definition grpc_getPropertyConfig :: "int32 \<Rightarrow> proto_VehiclePropConfig list \<Rightarrow> VehiclePropConfig option option" where
  "grpc_getPropertyConfig propId stream =
     map_option (\<lambda>configs. find (\<lambda>c. pc_prop c = propId) configs) (grpc_getAllPropertyConfigs stream)"

definition to_proto_set :: "SetValueRequest \<Rightarrow> proto_VehiclePropValueRequest" where
  "to_proto_set r = \<lparr>pq_request_id = sr_requestId r, pq_value = aidlToProto_value (sr_value r) new_proto_value\<rparr>"

definition to_proto_get :: "GetValueRequest \<Rightarrow> proto_VehiclePropValueRequest" where
  "to_proto_get r = \<lparr>pq_request_id = gr_requestId r, pq_value = aidlToProto_value (gr_prop r) new_proto_value\<rparr>"

text \<open>Status, and the results passed to the callback, if it is called.\<close>

definition grpc_setValues ::
  "grpc_code \<times> proto_SetValueResult list \<Rightarrow> (StatusCode \<times> SetValueResult list option) option" where
  "grpc_setValues reply =
     (if fst reply \<noteq> G_OK then Some (INTERNAL_ERROR, None)
      else map_option (\<lambda>results. (OK, Some results))
             (map_option_list (\<lambda>p. map_option (\<lambda>st. \<lparr>sv_requestId = pt_request_id p, sv_status = st\<rparr>) (StatusCode_cast (pt_status p)))
                (snd reply)))"

definition grpc_status_call :: "bool \<Rightarrow> grpc_code \<times> int32 \<Rightarrow> StatusCode option" where
  "grpc_status_call legacyOk reply =
     (if fst reply \<noteq> G_OK
      then Some (if legacyOk \<and> fst reply = G_UNIMPLEMENTED then OK else INTERNAL_ERROR)
      else StatusCode_cast (snd reply))"

definition grpc_subscribe :: "grpc_code \<times> int32 \<Rightarrow> StatusCode option" where
  "grpc_subscribe reply = grpc_status_call True reply"

definition grpc_unsubscribe :: "grpc_code \<times> int32 \<Rightarrow> StatusCode option" where
  "grpc_unsubscribe reply = grpc_status_call True reply"

definition grpc_updateSampleRate :: "grpc_code \<times> int32 \<Rightarrow> StatusCode option" where
  "grpc_updateSampleRate reply = grpc_status_call False reply"

definition grpc_checkHealth :: "grpc_code \<times> int32 \<Rightarrow> StatusCode option" where
  "grpc_checkHealth reply = grpc_status_call False reply"

definition grpc_dump :: "grpc_code \<times> DumpResult \<Rightarrow> DumpResult" where
  "grpc_dump reply =
     (if fst reply \<noteq> G_OK then \<lparr>callerShouldDumpState = False, dump_buffer = [], refreshPropertyConfigs = False\<rparr> else snd reply)"

definition fillPropIdAreaIdsToProtoRequest :: "PropIdAreaId list \<Rightarrow> proto_PropIdAreaId list" where
  "fillPropIdAreaIdsToProtoRequest ks = map (\<lambda>k. aidlToProto_key k new_proto_key) ks"

definition grpc_getMinMaxSupportedValues ::
  "PropIdAreaId list \<Rightarrow> grpc_code \<times> proto_MinMaxSupportedValueResult list \<Rightarrow> MinMaxSupportedValueResult list option" where
  "grpc_getMinMaxSupportedValues ks reply =
     (if fst reply \<noteq> G_OK
      then Some (map (\<lambda>_. \<lparr>mm_status = INTERNAL_ERROR, minSupportedValue = None, maxSupportedValue = None\<rparr>) ks)
      else map_option_list (\<lambda>p. protoToAidl_minmax p \<lparr>mm_status = OK, minSupportedValue = None, maxSupportedValue = None\<rparr>)
             (snd reply))"

definition grpc_getSupportedValuesLists ::
  "PropIdAreaId list \<Rightarrow> grpc_code \<times> proto_SupportedValuesListResult list \<Rightarrow> SupportedValuesListResult list option" where
  "grpc_getSupportedValuesLists ks reply =
     (if fst reply \<noteq> G_OK then Some (map (\<lambda>_. \<lparr>sl_status = INTERNAL_ERROR, supportedValuesList = None\<rparr>) ks)
      else map_option_list (\<lambda>p. protoToAidl_list p \<lparr>sl_status = OK, supportedValuesList = None\<rparr>) (snd reply))"

section \<open>Client: timestamps and reading values\<close>

type_synonym timestamps = "(PropIdAreaId \<times> int64 \<times> int64) list"

definition setAndroidTimestamp ::
  "int64 \<Rightarrow> VehiclePropValue \<Rightarrow> timestamps \<Rightarrow> bool \<times> VehiclePropValue \<times> timestamps" where
  "setAndroidTimestamp now propValue latest =
     (let key = \<lparr>pa_propId = pv_prop propValue, pa_areaId = pv_areaId propValue\<rparr>;
          externalTimestamp = pv_timestamp propValue
      in case map_of latest key of
           None \<Rightarrow> (True, propValue\<lparr>pv_timestamp := now\<rparr>, AList.update key (externalTimestamp, now) latest)
         | Some (ext, android) \<Rightarrow>
             if sint ext < sint externalTimestamp
             then (True, propValue\<lparr>pv_timestamp := now\<rparr>, AList.update key (externalTimestamp, now) latest)
             else if externalTimestamp = ext then (True, propValue\<lparr>pv_timestamp := android\<rparr>, latest)
             else (False, propValue, latest))"

text \<open>
  The world \<open>'w\<close> is what the clock and the server depend on. A result message with an unnamed enum number gives
  \<open>Inl\<close> here, because \<open>None\<close> means below that the call does not return.
\<close>

record 'w grpc_world =
  gw_clock :: "'w \<Rightarrow> int64 \<times> 'w"
  gw_GetValues :: "proto_VehiclePropValueRequest list \<Rightarrow> 'w \<Rightarrow> (grpc_code \<times> proto_GetValueResult list) \<times> 'w"

type_synonym 'w read_state = "timestamps \<times> 'w"

definition MAX_RETRY_COUNT :: nat where "MAX_RETRY_COUNT = 5"

fun process_results ::
  "'w grpc_world \<Rightarrow> (int64 \<times> GetValueRequest) list \<Rightarrow> proto_GetValueResult list \<Rightarrow> GetValueResult list \<Rightarrow>
     GetValueRequest list \<Rightarrow> 'w read_state \<Rightarrow> unit + (GetValueResult list \<times> GetValueRequest list \<times> 'w read_state)" where
  "process_results W requestById [] results retryRequests st = Inr (results, retryRequests, st)"
| "process_results W requestById (p # ps) results retryRequests (latest, w) =
     (case map_of requestById (pg_request_id p) of
        None \<Rightarrow> process_results W requestById ps results retryRequests (latest, w)
      | Some request \<Rightarrow>
          case StatusCode_cast (pg_status p) of
            None \<Rightarrow> Inl ()
          | Some status \<Rightarrow>
              case pg_value p of
                None \<Rightarrow> process_results W requestById ps
                    (results @ [\<lparr>gv_requestId = pg_request_id p, gv_status = status, gv_prop = None\<rparr>]) retryRequests (latest, w)
              | Some pv \<Rightarrow>
                  case protoToAidl_value pv empty_prop_value of
                    None \<Rightarrow> Inl ()
                  | Some v \<Rightarrow>
                      let (now, w') = gw_clock W w; (fresh, v', latest') = setAndroidTimestamp now v latest
                      in if fresh
                         then process_results W requestById ps
                                (results @ [\<lparr>gv_requestId = pg_request_id p, gv_status = status, gv_prop = Some v'\<rparr>])
                                retryRequests (latest', w')
                         else process_results W requestById ps results (retryRequests @ [request]) (latest', w'))"

definition request_by_id :: "GetValueRequest list \<Rightarrow> (int64 \<times> GetValueRequest) list" where
  "request_by_id requests = fold (\<lambda>r. AList.update (gr_requestId r) r) requests []"

text \<open>One round: \<open>Inl\<close> an error of the call, or the requests to retry.\<close>

definition get_attempt ::
  "'w grpc_world \<Rightarrow> GetValueRequest list \<Rightarrow> GetValueResult list \<Rightarrow> 'w read_state \<Rightarrow>
     unit + ((StatusCode + GetValueRequest list) \<times> GetValueResult list \<times> 'w read_state)" where
  "get_attempt W requests results st =
     (let (reply, w') = gw_GetValues W (map to_proto_get requests) (snd st)
      in if fst reply \<noteq> G_OK then Inr (Inl INTERNAL_ERROR, results, fst st, w')
         else case process_results W (request_by_id requests) (snd reply) results [] (fst st, w') of
                Inl _ \<Rightarrow> Inl ()
              | Inr (results', retry, st') \<Rightarrow> Inr (Inr retry, results', st'))"

text \<open>
  The recursion passes \<^verbatim>\<open>retryCount++\<close>, the value before the increment. \<open>None\<close> means that the call never returns.
\<close>

partial_function (option) getValuesWithRetry ::
  "'w grpc_world \<Rightarrow> GetValueRequest list \<Rightarrow> GetValueResult list \<Rightarrow> nat \<Rightarrow> 'w read_state \<Rightarrow>
     (unit + (StatusCode \<times> GetValueResult list \<times> 'w read_state)) option" where
  "getValuesWithRetry W requests results retryCount st =
     (if retryCount = MAX_RETRY_COUNT then Some (Inr (TRY_AGAIN, results, st))
      else case get_attempt W requests results st of
             Inl _ \<Rightarrow> Some (Inl ())
           | Inr (outcome, results', st') \<Rightarrow>
               (case outcome of
                  Inl err \<Rightarrow> Some (Inr (err, results', st'))
                | Inr retry \<Rightarrow>
                    if retry \<noteq> [] then getValuesWithRetry W retry results' retryCount st'
                    else Some (Inr (OK, results', st'))))"

definition grpc_getValues ::
  "'w grpc_world \<Rightarrow> GetValueRequest list \<Rightarrow> 'w read_state \<Rightarrow>
     (unit + (StatusCode \<times> GetValueResult list option \<times> 'w read_state)) option" where
  "grpc_getValues W requests st =
     map_option (\<lambda>r. case r of
         Inl _ \<Rightarrow> Inl ()
       | Inr (status, results, st') \<Rightarrow>
           Inr (status, if status = OK \<and> results \<noteq> [] then Some results else None, st'))
       (getValuesWithRetry W requests [] 0 st)"

section \<open>Client: streams\<close>

text \<open>One message of the stream: the values handed to the callback, none of them outdated.\<close>

fun poll_values :: "('w \<Rightarrow> int64 \<times> 'w) \<Rightarrow> proto_VehiclePropValue list \<Rightarrow> 'w read_state \<Rightarrow> (VehiclePropValue list \<times> 'w read_state) option" where
  "poll_values clock [] st = Some ([], st)"
| "poll_values clock (p # ps) (latest, w) =
     (case protoToAidl_value p empty_prop_value of
        None \<Rightarrow> None
      | Some v \<Rightarrow>
          let (now, w') = clock w; (fresh, v', latest') = setAndroidTimestamp now v latest
          in map_option (\<lambda>(vs, st'). (if fresh then v' # vs else vs, st')) (poll_values clock ps (latest', w')))"

definition pollValue_message ::
  "('w \<Rightarrow> int64 \<times> 'w) \<Rightarrow> bool \<Rightarrow> proto_VehiclePropValue list \<Rightarrow> 'w read_state \<Rightarrow> (VehiclePropValue list option \<times> 'w read_state) option" where
  "pollValue_message clock registered protoValues st =
     map_option (\<lambda>(vs, st'). (if vs \<noteq> [] \<and> registered then Some vs else None, st')) (poll_values clock protoValues st)"

definition pollSupportedValuesChange_message :: "bool \<Rightarrow> proto_PropIdAreaId list \<Rightarrow> PropIdAreaId list option" where
  "pollSupportedValuesChange_message registered ks =
     (let keys = map (\<lambda>k. protoToAidl_key k \<lparr>pa_propId = 0, pa_areaId = 0\<rparr>) ks
      in if keys \<noteq> [] \<and> registered then Some keys else None)"

text \<open>Callbacks are registered once; a second registration is refused.\<close>

definition grpc_registerCallback :: "'cb \<Rightarrow> 'cb option \<Rightarrow> 'cb option" where
  "grpc_registerCallback callback current = (case current of None \<Rightarrow> Some callback | Some c \<Rightarrow> Some c)"

text \<open>
  The polling thread (\<^verbatim>\<open>ValuePollingLoop\<close> with \<^verbatim>\<open>pollValue\<close>) and the destructor that stops it. \<open>registered\<close> says whether the
  context of the current stream is in \<^verbatim>\<open>mStreamContexts\<close>. Of the GRPC library: a cancelled stream ends, \<^verbatim>\<open>Read\<close> blocks
  until there is a message or the stream ends, and \<^verbatim>\<open>Finish\<close> blocks until the stream ends.
\<close>

datatype poll_pc = PL_CHECK | PL_INSERT | PL_READ | PL_ERASE | PL_FINISH | PL_RECHECK | PL_SLEEP | PL_DONE

record poll_thread =
  mShuttingDownFlag :: bool
  ctx_registered :: bool
  stream_ended :: bool
  pl_pc :: poll_pc

definition new_poll_thread :: poll_thread where
  "new_poll_thread = \<lparr>mShuttingDownFlag = False, ctx_registered = False, stream_ended = False, pl_pc = PL_CHECK\<rparr>"

definition poll_thread_step :: "poll_thread \<Rightarrow> poll_thread option" where
  "poll_thread_step s =
     (case pl_pc s of
        PL_CHECK \<Rightarrow> Some (s\<lparr>pl_pc := (if mShuttingDownFlag s then PL_DONE else PL_INSERT)\<rparr>)
      | PL_INSERT \<Rightarrow> Some (s\<lparr>ctx_registered := True, stream_ended := False, pl_pc := PL_READ\<rparr>)
      | PL_READ \<Rightarrow> if mShuttingDownFlag s \<or> stream_ended s then Some (s\<lparr>pl_pc := PL_ERASE\<rparr>) else None
      | PL_ERASE \<Rightarrow> Some (s\<lparr>ctx_registered := False, pl_pc := PL_FINISH\<rparr>)
      | PL_FINISH \<Rightarrow> if stream_ended s then Some (s\<lparr>pl_pc := PL_RECHECK\<rparr>) else None
      | PL_RECHECK \<Rightarrow> Some (s\<lparr>pl_pc := (if mShuttingDownFlag s then PL_DONE else PL_SLEEP)\<rparr>)
      | PL_SLEEP \<Rightarrow> Some (s\<lparr>pl_pc := PL_CHECK\<rparr>)
      | PL_DONE \<Rightarrow> None)"

text \<open>The destructor before it joins the thread: it cancels the streams whose contexts are registered.\<close>

definition cancel_streams :: "poll_thread \<Rightarrow> poll_thread" where
  "cancel_streams s =
     s\<lparr>mShuttingDownFlag := True, stream_ended := stream_ended s \<or> ctx_registered s, ctx_registered := False\<rparr>"

section \<open>The proxy is transparent\<close>

text \<open>
  A call of the client answered by the server: what a service that uses \<^verbatim>\<open>GRPCVehicleHardware\<close> sees of the hardware
  behind \<^verbatim>\<open>GrpcVehicleProxyServer\<close>. The client does not override the calls about supported-value changes.
\<close>

fun remote_subscription :: "'h IVehicleHardware \<Rightarrow> hw_call \<Rightarrow> 'h \<Rightarrow> StatusCode option \<times> 'h" where
  "remote_subscription hw (HwSubscribe options) h =
     apfst grpc_subscribe (Subscribe hw (aidlToProto_options options new_proto_options) h)"
| "remote_subscription hw (HwUnsubscribe prop area) h = apfst grpc_unsubscribe (Unsubscribe hw prop area h)"
| "remote_subscription hw (HwUpdateSampleRate prop area rate) h =
     apfst grpc_updateSampleRate (UpdateSampleRate hw prop area rate h)"
| "remote_subscription hw call h = apfst Some (IVehicleHardware_default call h)"

definition remote_setValues ::
  "'h IVehicleHardware \<Rightarrow> 'h answers \<Rightarrow> SetValueRequest list \<Rightarrow> 'h \<Rightarrow> ((StatusCode \<times> SetValueResult list option) \<times> 'h) option" where
  "remote_setValues hw an requests h =
     Option.bind (SetValues hw an (map to_proto_set requests) h)
       (\<lambda>(reply, h'). map_option (\<lambda>r. (r, h')) (grpc_setValues reply))"

lemma remote_subscription_direct:
  "remote_subscription hw call h =
     (case call of
        HwSubscribeSupportedValueChange _ \<Rightarrow> (Some OK, h)
      | HwUnsubscribeSupportedValueChange _ \<Rightarrow> (Some OK, h)
      | _ \<Rightarrow> apfst Some (hw_subscription hw call h))"
  by (cases call)
    (simp_all add: Subscribe_def Unsubscribe_def UpdateSampleRate_def grpc_subscribe_def grpc_unsubscribe_def
      grpc_updateSampleRate_def grpc_status_call_def IVehicleHardware_default_def Let_def split: prod.split)

lemma takeWhile_all: "(\<And>n. n \<in> set xs \<Longrightarrow> P n) \<Longrightarrow> takeWhile P xs = xs"
  by (induction xs) auto

lemma remote_configs:
  "snd (GetAllPropertyConfig hw (\<lambda>_. True) h) = map (\<lambda>c. aidlToProto_config c new_proto_config) (hw_getAllPropertyConfigs hw h)"
  by (simp add: GetAllPropertyConfig_def Let_def takeWhile_all)

lemma configs_direct:
  "grpc_getAllPropertyConfigs (snd (GetAllPropertyConfig hw (\<lambda>_. True) h)) = Some (map config_seen (hw_getAllPropertyConfigs hw h))"
  by (simp add: grpc_getAllPropertyConfigs_def remote_configs map_option_list_Some)

lemma keys_direct: "getPropIdAreaIdsFromProtoRequest (fillPropIdAreaIdsToProtoRequest ks) = ks"
  by (simp add: getPropIdAreaIdsFromProtoRequest_def fillPropIdAreaIdsToProtoRequest_def comp_def)

lemma minmax_direct:
  "grpc_getMinMaxSupportedValues ks (GetMinMaxSupportedValues hw (fillPropIdAreaIdsToProtoRequest ks) h) =
     Some (hw_getMinMaxSupportedValues hw ks h)"
  by (simp add: grpc_getMinMaxSupportedValues_def GetMinMaxSupportedValues_def keys_direct map_option_list_Some [where h = id, simplified])

lemma lists_direct:
  "grpc_getSupportedValuesLists ks (GetSupportedValuesLists hw (fillPropIdAreaIdsToProtoRequest ks) h) =
     Some (map list_seen (hw_getSupportedValuesLists hw ks h))"
  by (simp add: grpc_getSupportedValuesLists_def GetSupportedValuesLists_def keys_direct map_option_list_Some)

text \<open>The number of batches after which every request has been answered.\<close>

definition answered_after :: "('r \<Rightarrow> int64) \<Rightarrow> int64 list \<Rightarrow> 'r list list \<Rightarrow> nat option" where
  "answered_after idOf ids bs = find (\<lambda>n. set ids \<subseteq> idOf ` set (concat (take n bs))) [1..<Suc (length bs)]"

lemma find_upt_Suc:
  "find P [Suc 0..<Suc (Suc k)] = (if P (Suc 0) then Some (Suc 0) else map_option Suc (find (P \<circ> Suc) [Suc 0..<Suc k]))"
proof -
  have "[Suc 0..<Suc (Suc k)] = Suc 0 # map Suc [Suc 0..<Suc k]"
    by (simp only: map_Suc_upt) (simp add: upt_conv_Cons del: upt_Suc)
  moreover have "find P (map Suc xs) = map_option Suc (find (P \<circ> Suc) xs)" for xs
    by (induction xs) auto
  ultimately show ?thesis by simp
qed

lemma answered_after_Cons:
  "answered_after idOf ids (b # bs) =
     (if set ids \<subseteq> idOf ` set b then Some 1
      else map_option Suc (answered_after idOf (filter (\<lambda>i. i \<notin> idOf ` set b) ids) bs))"
proof -
  have "(\<lambda>n. set ids \<subseteq> idOf ` set (concat (take n (b # bs)))) \<circ> Suc =
      (\<lambda>n. set (filter (\<lambda>i. i \<notin> idOf ` set b) ids) \<subseteq> idOf ` set (concat (take n bs)))"
    by (rule ext) (auto simp: image_Un)
  then show ?thesis by (simp add: answered_after_def find_upt_Suc del: upt_Suc)
qed

lemma collect_results_spec:
  "collect_results idOf conv ids acc bs =
     (case answered_after idOf ids bs of
        None \<Rightarrow> (False, acc @ map conv (concat bs))
      | Some n \<Rightarrow> (True, acc @ map conv (concat (take n bs))))"
proof (induction bs arbitrary: ids acc)
  case Nil
  then show ?case by (simp add: answered_after_def)
next
  case (Cons b bs)
  have "filter (\<lambda>i. i \<notin> idOf ` set b) ids = [] \<longleftrightarrow> set ids \<subseteq> idOf ` set b" by (auto simp: filter_empty_conv)
  then show ?case by (auto simp: Cons.IH answered_after_Cons Let_def split: option.split)
qed

lemma answered_after_set: "set ids = set ids' \<Longrightarrow> answered_after idOf ids bs = answered_after idOf ids' bs"
  by (simp add: answered_after_def)

lemma set_results_direct:
  "map_option_list (\<lambda>p. map_option (\<lambda>st. \<lparr>sv_requestId = pt_request_id p, sv_status = st\<rparr>) (StatusCode_cast (pt_status p)))
     (map set_result_to_proto rs) = Some rs"
  by (simp add: map_option_list_Some [where h = id, simplified] set_result_to_proto_def)

lemma set_requests_direct:
  "map_option_list (\<lambda>p. map_option (\<lambda>v. \<lparr>sr_requestId = pq_request_id p, sr_value = v\<rparr>)
     (protoToAidl_value (pq_value p) empty_prop_value)) (map to_proto_set rs) = Some rs"
  by (simp add: map_option_list_Some [where h = id, simplified] to_proto_set_def)

lemma remote_setValues_direct:
  "remote_setValues hw an requests h =
     Some (case hw_setValues hw requests h of (st, h') \<Rightarrow>
       (case answered_after sv_requestId (map sr_requestId requests) (an_setValues an requests h) of
          None \<Rightarrow> (INTERNAL_ERROR, None)
        | Some n \<Rightarrow> if st = OK then (OK, Some (concat (take n (an_setValues an requests h)))) else (INTERNAL_ERROR, None), h'))"
proof -
  have ids: "map pq_request_id (map to_proto_set requests) = map sr_requestId requests" by (simp add: to_proto_set_def)
  have "answered_after sv_requestId (remdups (map sr_requestId requests)) bs = answered_after sv_requestId (map sr_requestId requests) bs"
    for bs :: "SetValueResult list list"
    by (rule answered_after_set) simp
  then show ?thesis
    by (auto simp: remote_setValues_def SetValues_def set_requests_direct ids collect_results_spec grpc_setValues_def
        set_results_direct Let_def simp del: map_map split: prod.split option.split)
qed

section \<open>Outdated values\<close>

lemma outdated_round:
  assumes reply: "fst (gw_GetValues W [to_proto_get r] w) = (G_OK, [p])"
    and id: "pg_request_id p = gr_requestId r" and status: "StatusCode_cast (pg_status p) = Some st"
    and val: "pg_value p = Some pv" and conv: "protoToAidl_value pv empty_prop_value = Some v"
    and latest: "map_of latest \<lparr>pa_propId = pv_prop v, pa_areaId = pv_areaId v\<rparr> = Some (ext, android)"
    and old: "sint (pv_timestamp v) < sint ext"
  shows "\<exists>w'. get_attempt W [r] results (latest, w) = Inr (Inr [r], results, latest, w')"
proof -
  have ne: "pv_timestamp v \<noteq> ext" using old by auto
  have stamp: "setAndroidTimestamp now v latest = (False, v, latest)" for now
    using old ne by (simp add: setAndroidTimestamp_def latest Let_def)
  obtain w1 where w1: "gw_GetValues W [to_proto_get r] w = ((G_OK, [p]), w1)" using reply by (cases "gw_GetValues W [to_proto_get r] w") auto
  obtain now w2 where w2: "gw_clock W w1 = (now, w2)" by (cases "gw_clock W w1") auto
  show ?thesis
    by (simp add: get_attempt_def w1 w2 request_by_id_def id status val conv stamp)
qed

lemma retry_diverges:
  assumes round: "\<And>w results. \<exists>w'. get_attempt W [r] results (latest, w) = Inr (Inr [r], results, latest, w')"
    and "n \<noteq> MAX_RETRY_COUNT"
  shows "getValuesWithRetry W [r] results n (latest, w) = None"
proof (cases "getValuesWithRetry W [r] results n (latest, w)")
  case (Some y)
  let ?Q = "\<lambda>W' rs results n' st y. W' = W \<and> rs = [r] \<and> n' = n \<and> fst st = latest \<longrightarrow> False"
  have "?Q W [r] results n (latest, w) y"
  proof (rule getValuesWithRetry.raw_induct [OF _ Some, of ?Q], goal_cases)
    case (1 f W' rs res n' st y')
    show ?case
    proof
      assume *: "W' = W \<and> rs = [r] \<and> n' = n \<and> fst st = latest"
      obtain w' where "get_attempt W [r] res st = Inr (Inr [r], res, latest, w')" using round [of res "snd st"] * by (cases st) auto
      with 1(2) * have "f W [r] res n (latest, w') = Some y'" using \<open>n \<noteq> MAX_RETRY_COUNT\<close> by simp
      from 1(1) [OF this] show False by simp
    qed
  qed
  then show ?thesis by simp
qed simp

section \<open>Timestamps\<close>

text \<open>Values stamped one after the other, each with the time the clock showed: whether it was accepted, and the value before and after.\<close>

fun stamps :: "timestamps \<Rightarrow> (int64 \<times> VehiclePropValue) list \<Rightarrow> (bool \<times> VehiclePropValue \<times> VehiclePropValue) list" where
  "stamps latest [] = []"
| "stamps latest ((now, v) # xs) =
     (case setAndroidTimestamp now v latest of (fresh, v', latest') \<Rightarrow> (fresh, v, v') # stamps latest' xs)"

text \<open>What two accepted values of one property and area promise, the first one stamped earlier.\<close>

definition consistent :: "int64 \<times> int64 \<Rightarrow> int64 \<times> int64 \<Rightarrow> bool" where
  "consistent a b \<longleftrightarrow> sint (fst a) \<le> sint (fst b) \<and> sint (snd a) \<le> sint (snd b) \<and> (fst a = fst b \<longrightarrow> snd a = snd b)"

definition latest_ok :: "int64 \<Rightarrow> timestamps \<Rightarrow> bool" where
  "latest_ok now latest \<longleftrightarrow> (\<forall>k p. map_of latest k = Some p \<longrightarrow> sint (snd p) \<le> sint now)"

text \<open>The three branches of the stamp.\<close>

lemma setAndroidTimestamp_cases [consumes 1, case_names newer same outdated]:
  assumes "setAndroidTimestamp now v latest = (fresh, v', latest')"
  obtains
    "\<And>p. map_of latest (value_key v) = Some p \<Longrightarrow> sint (fst p) < sint (pv_timestamp v)" and "fresh"
      and "v' = v\<lparr>pv_timestamp := now\<rparr>" and "latest' = AList.update (value_key v) (pv_timestamp v, now) latest"
  | t where "map_of latest (value_key v) = Some (pv_timestamp v, t)" and "fresh"
      and "v' = v\<lparr>pv_timestamp := t\<rparr>" and "latest' = latest"
  | e t where "map_of latest (value_key v) = Some (e, t)" and "sint (pv_timestamp v) < sint e" and "\<not> fresh"
      and "v' = v" and "latest' = latest"
  using assms sint_neq
  by (fastforce simp: setAndroidTimestamp_def value_key_def Let_def split: option.splits if_splits)

lemma setAndroidTimestamp_ok:
  assumes "setAndroidTimestamp now v latest = (fresh, v', latest')" and "latest_ok now latest"
  shows "latest_ok now latest'"
    and "map_of latest k = Some p \<Longrightarrow> \<exists>q. map_of latest' k = Some q \<and> consistent p q"
    and "fresh \<Longrightarrow> v' = v\<lparr>pv_timestamp := pv_timestamp v'\<rparr> \<and> map_of latest' (value_key v) = Some (pv_timestamp v, pv_timestamp v')"
    and "\<not> fresh \<longleftrightarrow> (\<exists>p. map_of latest (value_key v) = Some p \<and> sint (pv_timestamp v) < sint (fst p))"
proof -
  show "latest_ok now latest'"
    using assms by (cases rule: setAndroidTimestamp_cases) (auto simp: latest_ok_def update_conv' split: if_splits)
  show "\<exists>q. map_of latest' k = Some q \<and> consistent p q" if "map_of latest k = Some p"
    using assms(1)
  proof (cases rule: setAndroidTimestamp_cases)
    case newer
    then show ?thesis using that assms(2) by (cases "k = value_key v"; cases p) (auto simp: latest_ok_def consistent_def update_conv')
  qed (use that in \<open>auto simp: consistent_def\<close>)
  show "v' = v\<lparr>pv_timestamp := pv_timestamp v'\<rparr> \<and> map_of latest' (value_key v) = Some (pv_timestamp v, pv_timestamp v')"
    if fresh
    using assms(1) that by (cases rule: setAndroidTimestamp_cases) (auto simp: update_conv')
  show "\<not> fresh \<longleftrightarrow> (\<exists>p. map_of latest (value_key v) = Some p \<and> sint (pv_timestamp v) < sint (fst p))"
    using assms(1) by (cases rule: setAndroidTimestamp_cases) force+
qed


lemma consistent_trans: "consistent p q \<Longrightarrow> consistent q r \<Longrightarrow> consistent p r"
proof -
  assume pq: "consistent p q" and qr: "consistent q r"
  have "snd p = snd r" if eq: "fst p = fst r"
  proof -
    have "sint (fst p) = sint (fst q)" using pq qr eq unfolding consistent_def by (intro antisym) auto
    then have "fst p = fst q" by (rule signed_word_eqI)
    then show ?thesis using pq qr eq unfolding consistent_def by auto
  qed
  with pq qr show ?thesis unfolding consistent_def by (auto intro: order_trans)
qed

definition accepted_stamps :: "(bool \<times> VehiclePropValue \<times> VehiclePropValue) list \<Rightarrow> (PropIdAreaId \<times> int64 \<times> int64) list" where
  "accepted_stamps xs = map (\<lambda>(_, v, v'). (value_key v, pv_timestamp v, pv_timestamp v')) (filter fst xs)"

lemma accepted_simps [simp]:
  "accepted_stamps [] = []"
  "accepted_stamps ((f, v, v') # xs) = (if f then (value_key v, pv_timestamp v, pv_timestamp v') # accepted_stamps xs else accepted_stamps xs)"
  by (simp_all add: accepted_stamps_def)

lemma latest_ok_mono: "latest_ok now latest \<Longrightarrow> sint now \<le> sint now' \<Longrightarrow> latest_ok now' latest"
  unfolding latest_ok_def by (meson order.trans)

text \<open>With a clock that does not go back, later accepted values are consistent with the map.\<close>

lemma accepted_after_latest:
  assumes "sorted_wrt (\<lambda>a b. sint (fst a) \<le> sint (fst b)) ((now, v) # xs)" and "latest_ok now latest"
    and "map_of latest k = Some p" and "(k, q) \<in> set (accepted_stamps (stamps latest ((now, v) # xs)))"
  shows "consistent p q"
  using assms
proof (induction xs arbitrary: now v latest p)
  case Nil
  obtain fresh v' latest' where st: "setAndroidTimestamp now v latest = (fresh, v', latest')" by (cases "setAndroidTimestamp now v latest")
  note ok = setAndroidTimestamp_ok [OF st Nil(2)]
  have "fresh" "k = value_key v" "q = (pv_timestamp v, pv_timestamp v')"
    using Nil(4) by (auto simp: st split: if_splits)
  then show ?case using ok(2) [OF Nil(3)] ok(3) by simp
next
  case (Cons x xs)
  obtain fresh v' latest' where st: "setAndroidTimestamp now v latest = (fresh, v', latest')" by (cases "setAndroidTimestamp now v latest")
  note ok = setAndroidTimestamp_ok [OF st Cons.prems(2)]
  from ok(2) [OF Cons.prems(3)] obtain p' where p': "map_of latest' k = Some p'" "consistent p p'" by blast
  obtain now2 v2 where x: "x = (now2, v2)" by (cases x)
  have ok': "latest_ok now2 latest'" using ok(1) Cons.prems(1) by (auto simp: x intro: latest_ok_mono)
  consider "fresh" "k = value_key v" "q = (pv_timestamp v, pv_timestamp v')" | "(k, q) \<in> set (accepted_stamps (stamps latest' (x # xs)))"
    using Cons.prems(4) by (auto simp: st split: if_splits)
  then show ?case
  proof cases
    case 1
    then show ?thesis using ok(3) p' by simp
  next
    case 2
    then have "consistent p' q" using Cons.IH [of now2 v2 latest' p'] Cons.prems(1) ok' p'(1) by (simp add: x)
    then show ?thesis using p'(2) consistent_trans by blast
  qed
qed

lemma accepted_sorted:
  assumes "sorted_wrt (\<lambda>a b. sint (fst a) \<le> sint (fst b)) xs" and "xs \<noteq> [] \<longrightarrow> latest_ok (fst (hd xs)) latest"
  shows "sorted_wrt (\<lambda>(k, p) (k', q). k = k' \<longrightarrow> consistent p q) (accepted_stamps (stamps latest xs))"
  using assms
proof (induction xs arbitrary: latest)
  case (Cons x xs)
  obtain now v where x: "x = (now, v)" by (cases x)
  obtain fresh v' latest' where st: "setAndroidTimestamp now v latest = (fresh, v', latest')" by (cases "setAndroidTimestamp now v latest")
  have ok: "latest_ok now latest" using Cons.prems(2) by (simp add: x)
  note ok' = setAndroidTimestamp_ok [OF st ok]
  have hd_ok: "xs \<noteq> [] \<longrightarrow> latest_ok (fst (hd xs)) latest'"
    using Cons.prems(1) ok'(1) by (cases xs) (auto simp: x intro: latest_ok_mono)
  have IH: "sorted_wrt (\<lambda>(k, p) (k', q). k = k' \<longrightarrow> consistent p q) (accepted_stamps (stamps latest' xs))"
    using Cons.IH [OF _ hd_ok] Cons.prems(1) by simp
  have "consistent (pv_timestamp v, pv_timestamp v') q"
    if "fresh" and "(value_key v, q) \<in> set (accepted_stamps (stamps latest' xs))" for q
  proof (cases xs)
    case (Cons y ys)
    obtain now2 v2 where y: "y = (now2, v2)" by (cases y)
    show ?thesis
      by (rule accepted_after_latest [of now2 v2 ys latest' "value_key v"])
        (use that \<open>sorted_wrt _ (x # xs)\<close> hd_ok ok'(3) in \<open>auto simp: Cons y\<close>)
  qed (use that in \<open>simp\<close>)
  with IH show ?case by (auto simp: x st split: if_splits)
qed simp

lemma outdated_is_older:
  assumes "stamps latest xs ! i = (False, v, v')" and "i < length xs"
  shows "(\<exists>p. map_of latest (value_key v) = Some p \<and> sint (pv_timestamp v) < sint (fst p)) \<or>
    (\<exists>j < i. \<exists>u u'. stamps latest xs ! j = (True, u, u') \<and> value_key u = value_key v \<and> sint (pv_timestamp v) < sint (pv_timestamp u))"
  using assms
proof (induction xs arbitrary: latest i)
  case (Cons x xs)
  obtain now w where x: "x = (now, w)" by (cases x)
  obtain fresh w' latest' where st: "setAndroidTimestamp now w latest = (fresh, w', latest')" by (cases "setAndroidTimestamp now w latest")
  show ?case
  proof (cases i)
    case 0
    with Cons.prems st have "setAndroidTimestamp now v latest = (False, v', latest')" by (simp add: x)
    then show ?thesis by (cases rule: setAndroidTimestamp_cases) auto
  next
    case (Suc n)
    have len: "n < length xs" and at: "stamps latest' xs ! n = (False, v, v')" using Cons.prems st by (simp_all add: x Suc)
    consider p where "map_of latest' (value_key v) = Some p" "sint (pv_timestamp v) < sint (fst p)"
      | j u u' where "j < n" "stamps latest' xs ! j = (True, u, u')" "value_key u = value_key v" "sint (pv_timestamp v) < sint (pv_timestamp u)"
      using Cons.IH [OF at len] by blast
    then show ?thesis
    proof cases
      case 1
      show ?thesis using st
      proof (cases rule: setAndroidTimestamp_cases)
        case newer
        then show ?thesis
          using 1 Suc st by (cases "value_key w = value_key v") (auto simp: x update_conv' intro!: exI [of _ 0])
      qed (use 1 in auto)
    next
      case 2
      then show ?thesis using Suc st by (auto simp: x intro!: exI [of _ "Suc j"])
    qed
  qed
qed simp

end
