(* ===== verification/GrpcStreams.thy ===== *)
theory GrpcStreams
  imports GrpcProxy "HOL-Library.Sublist"
begin

text \<open>
  Runs of the GRPC proxy: the event streams of the server as a step relation over the threads of
  \<^verbatim>\<open>GRPCVehicleProxyServer.cpp\<close>, the polling thread of \<^verbatim>\<open>GRPCVehicleHardware.cpp\<close> with the destructor that stops it, and
  the properties of client and server together.
\<close>

section \<open>Runs of the event streams\<close>

text \<open>
  A run interleaves events of the hardware, new connections, steps of the writer thread and the shutdown. The log of a
  channel holds the messages posted and those written, how many were written when a connection joined, what it got, and
  whether a write to it failed or the server closed it.
\<close>

record 'm channel_log =
  posted :: "'m list"
  written_msgs :: "'m list"
  joined_at :: "nat \<Rightarrow> nat"
  got :: "nat \<Rightarrow> 'm list"
  lost :: "nat \<Rightarrow> bool"

definition new_log :: "'m channel_log" where
  "new_log = \<lparr>posted = [], written_msgs = [], joined_at = (\<lambda>_. 0), got = (\<lambda>_. []), lost = (\<lambda>_. False)\<rparr>"

definition log_post :: "'m \<Rightarrow> 'm channel_log \<Rightarrow> 'm channel_log" where
  "log_post m l = l\<lparr>posted := posted l @ [m]\<rparr>"

definition log_join :: "nat \<Rightarrow> 'm channel_log \<Rightarrow> 'm channel_log" where
  "log_join i l = l\<lparr>joined_at := (joined_at l)(i := length (written_msgs l)), lost := (lost l)(i := False)\<rparr>"

definition log_write :: "(nat \<Rightarrow> bool) \<Rightarrow> 'm \<Rightarrow> nat list \<Rightarrow> 'm channel_log \<Rightarrow> 'm channel_log" where
  "log_write streamOK m took l =
     l\<lparr>written_msgs := written_msgs l @ [m],
       got := (\<lambda>i. if i \<in> set took then got l i @ [m] else got l i),
       lost := (\<lambda>i. lost l i \<or> \<not> streamOK i)\<rparr>"

definition log_close :: "'m channel_log \<Rightarrow> 'm channel_log" where
  "log_close l = l\<lparr>lost := (\<lambda>_. True)\<rparr>"

definition chan_ok :: "'m list \<Rightarrow> ConnectionDescriptor list \<Rightarrow> nat \<Rightarrow> nat list \<Rightarrow> 'm channel_log \<Rightarrow> bool" where
  "chan_ok pending conns n brokenConn l \<longleftrightarrow>
     posted l = written_msgs l @ pending \<and>
     cd_ID ` set conns \<subseteq> {1..n} \<and> distinct (map cd_ID conns) \<and>
     (\<forall>i \<in> {1..n}. joined_at l i \<le> length (written_msgs l) \<and> prefix (got l i) (drop (joined_at l i) (written_msgs l))) \<and>
     (\<forall>i \<in> {1..n}. \<not> lost l i \<longrightarrow> (\<exists>c \<in> set conns. cd_ID c = i \<and> \<not> mShutdownFlag c)) \<and>
     (\<forall>c \<in> set conns. mShutdownFlag c \<longrightarrow> lost l (cd_ID c)) \<and>
     (\<forall>c \<in> set conns. \<not> mShutdownFlag c \<longrightarrow> got l (cd_ID c) = drop (joined_at l (cd_ID c)) (written_msgs l)) \<and>
     (\<forall>i > n. got l i = [] ) \<and>
     (\<forall>i \<in> set brokenConn. lost l i \<and> i \<le> n)"

lemma chan_ok_new: "chan_ok [] [] 0 [] new_log"
  by (simp add: chan_ok_def new_log_def)

lemma chan_post: "chan_ok pending conns n b l \<Longrightarrow> chan_ok (pending @ [m]) conns n b (log_post m l)"
  by (simp add: chan_ok_def log_post_def)

lemma chan_close:
  "chan_ok pending conns n b l \<Longrightarrow> chan_ok pending (map (mShutdownFlag_update (\<lambda>_. True)) conns) n b (log_close l)"
  by (auto simp: chan_ok_def log_close_def comp_def)

lemma chan_okD:
  assumes "chan_ok pending conns n b l"
  shows "posted l = written_msgs l @ pending" and "cd_ID ` set conns \<subseteq> {1..n}" and "distinct (map cd_ID conns)"
    and "i \<in> {1..n} \<Longrightarrow> joined_at l i \<le> length (written_msgs l) \<and> prefix (got l i) (drop (joined_at l i) (written_msgs l))"
    and "i \<in> {1..n} \<Longrightarrow> \<not> lost l i \<Longrightarrow> \<exists>c \<in> set conns. cd_ID c = i \<and> \<not> mShutdownFlag c"
    and "c \<in> set conns \<Longrightarrow> mShutdownFlag c \<Longrightarrow> lost l (cd_ID c)"
    and "c \<in> set conns \<Longrightarrow> \<not> mShutdownFlag c \<Longrightarrow> got l (cd_ID c) = drop (joined_at l (cd_ID c)) (written_msgs l)"
    and "i > n \<Longrightarrow> got l i = []" and "i \<in> set b \<Longrightarrow> lost l i \<and> i \<le> n"
  using assms unfolding chan_ok_def by simp_all

lemma chan_join:
  assumes ok: "chan_ok pending conns n b l"
  shows "chan_ok pending (conns @ [newConnection n]) (Suc n) b (log_join (Suc n) l)"
proof -
  let ?l = "log_join (Suc n) l"
  have old: "i \<in> {1..n} \<Longrightarrow> joined_at ?l i = joined_at l i \<and> lost ?l i = lost l i" for i by (simp add: log_join_def)
  have new: "joined_at ?l (Suc n) = length (written_msgs l)" "\<not> lost ?l (Suc n)" "got ?l = got l" "got l (Suc n) = []"
    "written_msgs ?l = written_msgs l" "posted ?l = posted l"
    using chan_okD(8) [OF ok, of "Suc n"] by (simp_all add: log_join_def)
  have ids: "cd_ID c \<in> {1..n}" if "c \<in> set conns" for c using that chan_okD(2) [OF ok] by blast
  have upto: "i \<in> {1..Suc n} \<longleftrightarrow> i = Suc n \<or> i \<in> {1..n}" for i by auto
  have c: "cd_ID (newConnection n) = Suc n" "\<not> mShutdownFlag (newConnection n)" by (simp_all add: newConnection_def)
  have br: "i \<in> {1..n}" if "i \<in> set b" "0 < i" for i using chan_okD(9) [OF ok that(1)] that(2) by simp
  show ?thesis
    unfolding chan_ok_def
  proof (intro conjI ballI allI impI)
    show "distinct (map cd_ID (conns @ [newConnection n]))"
      using chan_okD(3) [OF ok] ids by (fastforce simp: c)
    show "\<exists>c \<in> set (conns @ [newConnection n]). cd_ID c = i \<and> \<not> mShutdownFlag c" if "i \<in> {1..Suc n}" "\<not> lost ?l i" for i
      using that chan_okD(5) [OF ok, of i] old [of i] c by (auto simp: upto simp del: atLeastAtMost_iff One_nat_def)
    show "lost ?l i" "i \<le> Suc n" if "i \<in> set b" for i using chan_okD(9) [OF ok that] by (simp_all add: log_join_def)
  qed (use chan_okD(1-4,6-8) [OF ok] ids old new c in \<open>auto simp: upto simp del: atLeastAtMost_iff One_nat_def\<close>)
qed

lemma cd_Write_simps [simp]:
  "cd_ID (snd (cd_Write ok c)) = cd_ID c"
  "fst (cd_Write ok c) \<longleftrightarrow> \<not> mShutdownFlag (snd (cd_Write ok c))"
  "mShutdownFlag (snd (cd_Write ok c)) \<longleftrightarrow> mShutdownFlag c \<or> \<not> ok (cd_ID c)"
  by (auto simp: cd_Write_def)

lemma writeToStream_eq:
  "writeToStream ok conns =
     (map cd_ID (filter (\<lambda>c. \<not> mShutdownFlag c \<and> ok (cd_ID c)) conns),
      map cd_ID (filter (\<lambda>c. mShutdownFlag c \<or> \<not> ok (cd_ID c)) conns), map (snd \<circ> cd_Write ok) conns)"
proof -
  have "map (cd_ID \<circ> snd) (filter P (map (cd_Write ok) conns)) = map cd_ID (filter (\<lambda>c. P (cd_Write ok c)) conns)" for P
    by (induction conns) auto
  then show ?thesis by (simp add: writeToStream_def Let_def comp_def)
qed

lemma prefix_snoc_mono: "prefix xs ys \<Longrightarrow> prefix xs (ys @ zs)"
  by (auto simp: prefix_def)

lemma chan_write:
  assumes ok: "chan_ok (m # pending) conns n [] l" and w: "writeToStream streamOK conns = (took, brokenConn, conns')"
  shows "chan_ok pending conns' n brokenConn (log_write streamOK m took l)"
proof -
  have conns': "conns' = map (snd \<circ> cd_Write streamOK) conns"
    and took: "took = map cd_ID (filter (\<lambda>c. \<not> mShutdownFlag c \<and> streamOK (cd_ID c)) conns)"
    and broken: "brokenConn = map cd_ID (filter (\<lambda>c. mShutdownFlag c \<or> \<not> streamOK (cd_ID c)) conns)"
    using w by (simp_all add: writeToStream_eq)
  let ?l = "log_write streamOK m took l"
  have ids: "map cd_ID conns' = map cd_ID conns" by (simp add: conns' comp_def)
  have full: "got l i = drop (joined_at l i) (written_msgs l)" "joined_at l i \<le> length (written_msgs l)" if "i \<in> set took" for i
    using that ok by (auto simp: took chan_ok_def)
  have pre: "joined_at ?l i \<le> length (written_msgs ?l) \<and> prefix (got ?l i) (drop (joined_at ?l i) (written_msgs ?l))"
    if i: "i \<in> {1..n}" for i
  proof -
    have "joined_at l i \<le> length (written_msgs l)" "prefix (got l i) (drop (joined_at l i) (written_msgs l))"
      using i ok by (auto simp: chan_ok_def)
    then show ?thesis using full by (auto simp: log_write_def intro: prefix_snoc_mono)
  qed
  have live: "\<exists>c \<in> set conns'. cd_ID c = i \<and> \<not> mShutdownFlag c" if i: "i \<in> {1..n}" and "\<not> lost ?l i" for i
  proof -
    from that have nl: "\<not> lost l i" and s: "streamOK i" by (auto simp: log_write_def)
    from nl i ok obtain c where "c \<in> set conns" "cd_ID c = i" "\<not> mShutdownFlag c" unfolding chan_ok_def by blast
    then show ?thesis using s by (auto simp: conns' intro!: bexI [of _ c])
  qed
  have complete: "got ?l (cd_ID c) = drop (joined_at ?l (cd_ID c)) (written_msgs ?l)"
    if "c \<in> set conns'" "\<not> mShutdownFlag c" for c
  proof -
    have "cd_ID c \<in> set took" using that by (auto simp: conns' took)
    then show ?thesis using full [of "cd_ID c"] by (simp add: log_write_def)
  qed
  have flag: "lost ?l (cd_ID c)" if "c \<in> set conns'" "mShutdownFlag c" for c
    using that ok by (auto simp: conns' log_write_def chan_ok_def)
  have brk: "lost ?l i \<and> i \<le> n" if "i \<in> set brokenConn" for i
    using that ok by (auto simp: broken log_write_def chan_ok_def)
  have none: "got ?l i = []" if "i > n" for i
  proof -
    have "i \<notin> set took" using that ok by (auto simp: took chan_ok_def)
    then show ?thesis using that ok by (simp add: log_write_def chan_ok_def)
  qed
  have idset: "cd_ID ` set conns' = cd_ID ` set conns" by (metis ids list.set_map)
  show ?thesis
    unfolding chan_ok_def
  proof (intro conjI ballI allI impI)
    show "posted ?l = written_msgs ?l @ pending" using ok by (simp add: chan_ok_def log_write_def)
    show "cd_ID ` set conns' \<subseteq> {1..n}" "distinct (map cd_ID conns')" using ok by (simp_all add: ids idset chan_ok_def)
  qed (use pre live complete flag brk none in blast)+
qed

lemma chan_erase:
  assumes ok: "chan_ok pending conns n b l"
  shows "chan_ok pending (eraseBroken b conns) n [] l"
proof -
  have sub: "c \<in> set conns" if "c \<in> set (eraseBroken b conns)" for c using that by (simp add: eraseBroken_def)
  have live: "\<exists>c \<in> set (eraseBroken b conns). cd_ID c = i \<and> \<not> mShutdownFlag c" if i: "i \<in> {1..n}" "\<not> lost l i" for i
  proof -
    obtain c where "c \<in> set conns" "cd_ID c = i" "\<not> mShutdownFlag c" using chan_okD(5) [OF ok i] by blast
    moreover have "i \<notin> set b" using i(2) chan_okD(9) [OF ok] by blast
    ultimately show ?thesis by (auto simp: eraseBroken_def)
  qed
  show ?thesis
    unfolding chan_ok_def
  proof (intro conjI ballI allI impI)
    show "cd_ID ` set (eraseBroken b conns) \<subseteq> {1..n}" using sub chan_okD(2) [OF ok] by blast
    show "distinct (map cd_ID (eraseBroken b conns))"
      using chan_okD(3) [OF ok] by (simp add: eraseBroken_def distinct_map_filter)
  qed (use chan_okD [OF ok] sub live in \<open>simp_all del: atLeastAtMost_iff\<close>)
qed

record stream_run =
  streams :: proxy_server
  v_log :: "proto_VehiclePropValue list channel_log"
  c_log :: "proto_PropIdAreaId list channel_log"

fun log_step ::
  "(nat \<Rightarrow> bool) \<Rightarrow> (proto_VehiclePropValue list, proto_PropIdAreaId list) stream_write \<Rightarrow> stream_run \<Rightarrow> stream_run" where
  "log_step streamOK WroteNothing r = r"
| "log_step streamOK (WroteValues m took) r = r\<lparr>v_log := log_write streamOK m took (v_log r)\<rparr>"
| "log_step streamOK (WroteChange m took) r = r\<lparr>c_log := log_write streamOK m took (c_log r)\<rparr>"

definition stream_start :: "stream_run \<Rightarrow> bool" where
  "stream_start r \<longleftrightarrow> r = \<lparr>streams = new_streams, v_log = new_log, c_log = new_log\<rparr>"

inductive stream_step :: "stream_run \<Rightarrow> stream_run \<Rightarrow> bool" where
  value_event:
    "stream_step r (r\<lparr>streams := OnVehiclePropChange vs (streams r), v_log := log_post (toPropValues vs) (v_log r)\<rparr>)"
| change_event:
    "stream_step r (r\<lparr>streams := OnSupportedValuesChange ks (streams r), c_log := log_post (toSupportedValuesChange ks) (c_log r)\<rparr>)"
| value_join:
    "stream_step r (r\<lparr>streams := StartPropertyValuesStream (streams r),
       v_log := log_join (Suc (value_connection_id_counter (streams r))) (v_log r)\<rparr>)"
| change_join:
    "stream_step r (r\<lparr>streams := StartSupportedValuesChangeStream (streams r),
       c_log := log_join (Suc (change_connection_id_counter (streams r))) (c_log r)\<rparr>)"
| writer:
    "eventWriterLoop_step streamOK (streams r) = Some (wrote, s') \<Longrightarrow> stream_step r (log_step streamOK wrote (r\<lparr>streams := s'\<rparr>))"
| stop: "stream_step r (r\<lparr>streams := Shutdown_begin (streams r)\<rparr>)"
| close:
    "Shutdown_end (streams r) = Some s' \<Longrightarrow>
     stream_step r (r\<lparr>streams := s', v_log := log_close (v_log r), c_log := log_close (c_log r)\<rparr>)"

text \<open>The messages the writer thread holds, and the connections it is about to erase.\<close>

fun held_values :: "('v, 'c) writer_pc \<Rightarrow> 'v list" where
  "held_values (EW_WRITE vs cs stop) = vs"
| "held_values (EW_ERASE_VALUE b vs cs stop) = vs"
| "held_values _ = []"

fun held_changes :: "('v, 'c) writer_pc \<Rightarrow> 'c list" where
  "held_changes (EW_WRITE vs cs stop) = cs"
| "held_changes (EW_ERASE_VALUE b vs cs stop) = cs"
| "held_changes (EW_ERASE_CHANGE b cs stop) = cs"
| "held_changes _ = []"

fun broken_values :: "('v, 'c) writer_pc \<Rightarrow> nat list" where
  "broken_values (EW_ERASE_VALUE b vs cs stop) = b"
| "broken_values _ = []"

fun broken_changes :: "('v, 'c) writer_pc \<Rightarrow> nat list" where
  "broken_changes (EW_ERASE_CHANGE b cs stop) = b"
| "broken_changes _ = []"

abbreviation pending_values :: "('v, 'c) proxy_streams \<Rightarrow> 'v list" where
  "pending_values s \<equiv> held_values (ew_pc s) @ mPropValueQueue s"

abbreviation pending_changes :: "('v, 'c) proxy_streams \<Rightarrow> 'c list" where
  "pending_changes s \<equiv> held_changes (ew_pc s) @ mSupportedValuesChangeQueue s"

definition values_ok :: "stream_run \<Rightarrow> bool" where
  "values_ok r = (let s = streams r in chan_ok (pending_values s) (mValueStreamingConnections s)
     (value_connection_id_counter s) (broken_values (ew_pc s)) (v_log r))"

definition changes_ok :: "stream_run \<Rightarrow> bool" where
  "changes_ok r = (let s = streams r in chan_ok (pending_changes s) (mSupportedValuesChangeConnections s)
     (change_connection_id_counter s) (broken_changes (ew_pc s)) (c_log r))"

lemmas stream_ok_defs = values_ok_def changes_ok_def Let_def

text \<open>The steps of the writer.\<close>

lemma writer_cases [consumes 1, case_names swap write_value write_change finish erase_value erase_change]:
  assumes "eventWriterLoop_step streamOK s = Some (wrote, s')"
  obtains
    "ew_pc s = EW_WAIT" and "wrote = WroteNothing" and "s' = s\<lparr>mPropValueQueue := [], mSupportedValuesChangeQueue := [],
       ew_pc := EW_WRITE (mPropValueQueue s) (mSupportedValuesChangeQueue s) (mStopEventWriter s)\<rparr>"
  | v vs cs stop took b conns where "ew_pc s = EW_WRITE (v # vs) cs stop" and "wrote = WroteValues v took"
      and "writeToStream streamOK (mValueStreamingConnections s) = (took, b, conns)"
      and "s' = s\<lparr>mValueStreamingConnections := conns, ew_pc := (if b = [] then EW_WRITE vs cs stop else EW_ERASE_VALUE b vs cs stop)\<rparr>"
  | c cs stop took b conns where "ew_pc s = EW_WRITE [] (c # cs) stop" and "wrote = WroteChange c took"
      and "writeToStream streamOK (mSupportedValuesChangeConnections s) = (took, b, conns)"
      and "s' = s\<lparr>mSupportedValuesChangeConnections := conns, ew_pc := (if b = [] then EW_WRITE [] cs stop else EW_ERASE_CHANGE b cs stop)\<rparr>"
  | stop where "ew_pc s = EW_WRITE [] [] stop" and "wrote = WroteNothing" and "s' = s\<lparr>ew_pc := (if stop then EW_DONE else EW_WAIT)\<rparr>"
  | b vs cs stop where "ew_pc s = EW_ERASE_VALUE b vs cs stop" and "wrote = WroteNothing"
      and "s' = s\<lparr>mValueStreamingConnections := eraseBroken b (mValueStreamingConnections s), ew_pc := EW_WRITE vs cs stop\<rparr>"
  | b cs stop where "ew_pc s = EW_ERASE_CHANGE b cs stop" and "wrote = WroteNothing"
      and "s' = s\<lparr>mSupportedValuesChangeConnections := eraseBroken b (mSupportedValuesChangeConnections s), ew_pc := EW_WRITE [] cs stop\<rparr>"
proof (cases "ew_pc s")
  case EW_WAIT
  with assms show thesis by (intro that(1)) (auto simp: eventWriterLoop_step_def split: if_splits)
next
  case (EW_WRITE vs cs stop)
  consider (1) v vs' where "vs = v # vs'" | (2) c cs' where "vs = []" "cs = c # cs'" | (3) "vs = []" "cs = []"
    by (cases vs; cases cs) auto
  then show thesis
  proof cases
    case 1
    obtain took b conns where w: "writeToStream streamOK (mValueStreamingConnections s) = (took, b, conns)" by (rule prod_cases3)
    from assms show thesis by (intro that(2) [OF _ _ w]) (auto simp: eventWriterLoop_step_def EW_WRITE 1 w)
  next
    case 2
    obtain took b conns where w: "writeToStream streamOK (mSupportedValuesChangeConnections s) = (took, b, conns)" by (rule prod_cases3)
    from assms show thesis by (intro that(3) [OF _ _ w]) (auto simp: eventWriterLoop_step_def EW_WRITE 2 w)
  next
    case 3
    with assms show thesis by (intro that(4)) (auto simp: eventWriterLoop_step_def EW_WRITE)
  qed
next
  case (EW_ERASE_VALUE b vs cs stop)
  with assms show thesis by (intro that(5)) (auto simp: eventWriterLoop_step_def)
next
  case (EW_ERASE_CHANGE b cs stop)
  with assms show thesis by (intro that(6)) (auto simp: eventWriterLoop_step_def)
next
  case EW_DONE
  with assms show thesis by (simp add: eventWriterLoop_step_def)
qed

lemma writer_ok:
  assumes "eventWriterLoop_step streamOK (streams r) = Some (wrote, s')" and "values_ok r" and "changes_ok r"
  shows "values_ok (log_step streamOK wrote (r\<lparr>streams := s'\<rparr>)) \<and> changes_ok (log_step streamOK wrote (r\<lparr>streams := s'\<rparr>))"
  using assms(1)
proof (cases rule: writer_cases)
  case (write_value v vs cs stop took b conns)
  then have "chan_ok (vs @ mPropValueQueue (streams r)) conns (value_connection_id_counter (streams r)) b (log_write streamOK v took (v_log r))"
    using assms(2) by (intro chan_write) (simp_all add: stream_ok_defs)
  then show ?thesis using write_value assms(3) by (auto simp: stream_ok_defs)
next
  case (write_change c cs stop took b conns)
  then have "chan_ok (cs @ mSupportedValuesChangeQueue (streams r)) conns (change_connection_id_counter (streams r)) b (log_write streamOK c took (c_log r))"
    using assms(3) by (intro chan_write) (simp_all add: stream_ok_defs)
  then show ?thesis using write_change assms(2) by (auto simp: stream_ok_defs)
qed (use assms(2-3) in \<open>auto simp: stream_ok_defs intro: chan_erase\<close>)

lemma append_snoc: "xs @ ys @ [z] = (xs @ ys) @ [z]"
  by simp

lemma stream_step_ok: "stream_step r r' \<Longrightarrow> values_ok r \<and> changes_ok r \<Longrightarrow> values_ok r' \<and> changes_ok r'"
proof (induction r r' rule: stream_step.induct)
  case (writer streamOK r wrote s')
  then show ?case using writer_ok by blast
next
  case (value_event r vs)
  then show ?case
    using chan_post [of "pending_values (streams r)" _ _ _ "v_log r" "toPropValues vs"] by (simp add: stream_ok_defs OnVehiclePropChange_def)
next
  case (change_event r ks)
  then show ?case
    using chan_post [of "pending_changes (streams r)" _ _ _ "c_log r" "toSupportedValuesChange ks"]
    by (simp add: stream_ok_defs OnSupportedValuesChange_def)
qed (auto simp: stream_ok_defs Shutdown_begin_def Shutdown_end_def StartPropertyValuesStream_def
      StartSupportedValuesChangeStream_def intro: chan_join chan_close split: if_splits)

interpretation streams_inv: step_invariant stream_start stream_step "\<lambda>r. values_ok r \<and> changes_ok r"
proof
  show "values_ok r \<and> changes_ok r" if "stream_start r" for r
    using that by (simp add: stream_start_def stream_ok_defs new_streams_def chan_ok_new)
qed (rule stream_step_ok)

section \<open>Runs of the polling thread\<close>

inductive poll_step :: "poll_thread \<Rightarrow> poll_thread \<Rightarrow> bool" where
  "poll_thread_step s = Some s' \<Longrightarrow> poll_step s s'"
| "poll_step s (s\<lparr>stream_ended := True\<rparr>)"

text \<open>While nobody shuts the client down, a stream that was left had ended.\<close>

definition poll_inv :: "poll_thread \<Rightarrow> bool" where
  "poll_inv s \<longleftrightarrow> \<not> mShuttingDownFlag s \<and> pl_pc s \<noteq> PL_DONE \<and> (ctx_registered s \<longleftrightarrow> pl_pc s = PL_READ \<or> pl_pc s = PL_ERASE) \<and>
     (pl_pc s = PL_ERASE \<or> pl_pc s = PL_FINISH \<longrightarrow> stream_ended s)"

interpretation polls: step_invariant "\<lambda>s. s = new_poll_thread" poll_step poll_inv
  by unfold_locales
    (auto simp: poll_inv_def new_poll_thread_def poll_thread_step_def elim!: poll_step.cases split: poll_pc.splits if_splits)

fun poll_run :: "nat \<Rightarrow> poll_thread \<Rightarrow> poll_thread" where
  "poll_run 0 s = s"
| "poll_run (Suc n) s = (case poll_thread_step s of None \<Rightarrow> s | Some s' \<Rightarrow> poll_run n s')"

lemma poll_run_stuck: "poll_thread_step s = None \<Longrightarrow> poll_run n s = s"
  by (cases n) simp_all

lemma cancelled_thread_ends:
  assumes "poll_inv s" and "pl_pc s \<noteq> PL_INSERT"
  shows "pl_pc (poll_run 4 (cancel_streams s)) = PL_DONE"
  using assms by (cases "pl_pc s") (simp_all add: poll_inv_def cancel_streams_def poll_thread_step_def eval_nat_numeral)

lemma cancelled_thread_hangs:
  assumes "poll_inv s" and "pl_pc s = PL_INSERT"
  shows "pl_pc (poll_run n (cancel_streams s)) \<noteq> PL_DONE"
proof -
  consider "n = 0" | "n = 1" | "n = 2" | m where "n = Suc (Suc (Suc m))" by (cases n rule: nat.exhaust; metis One_nat_def Suc_1 nat.exhaust)
  then show ?thesis
    using assms by cases (simp_all add: poll_inv_def cancel_streams_def poll_thread_step_def eval_nat_numeral poll_run_stuck)
qed

lemma chan_complete:
  assumes ok: "chan_ok p conns n b l" and "i \<in> {1..n}"
  shows "prefix (got l i) (drop (joined_at l i) (written_msgs l)) \<and> (lost l i \<or> got l i = drop (joined_at l i) (written_msgs l))"
  using chan_okD(4,5,7) [OF ok] assms(2) by blast

section \<open>Properties\<close>


text \<open>C22. No event is lost or reordered on its way to the network: in every interleaving of events, new connections, the writer thread and the
  shutdown, the posted messages are those written, then those the writer holds, then the queue; each connection got the messages written since
  it joined, in order and without gaps, and all of them unless a write to it failed or the server closed it.\<close>

theorem streams_in_order:
  assumes "stream_start r0" and "stream_step\<^sup>*\<^sup>* r0 r"
  shows "posted (v_log r) = written_msgs (v_log r) @ held_values (ew_pc (streams r)) @ mPropValueQueue (streams r) \<and>
    posted (c_log r) = written_msgs (c_log r) @ held_changes (ew_pc (streams r)) @ mSupportedValuesChangeQueue (streams r) \<and>
    (\<forall>i \<in> {1..value_connection_id_counter (streams r)}.
       prefix (got (v_log r) i) (drop (joined_at (v_log r) i) (written_msgs (v_log r))) \<and>
       (lost (v_log r) i \<or> got (v_log r) i = drop (joined_at (v_log r) i) (written_msgs (v_log r)))) \<and>
    (\<forall>i \<in> {1..change_connection_id_counter (streams r)}.
       prefix (got (c_log r) i) (drop (joined_at (c_log r) i) (written_msgs (c_log r))) \<and>
       (lost (c_log r) i \<or> got (c_log r) i = drop (joined_at (c_log r) i) (written_msgs (c_log r))))"
proof -
  from streams_inv.reachable_inv [OF assms]
  have v: "chan_ok (pending_values (streams r)) (mValueStreamingConnections (streams r)) (value_connection_id_counter (streams r))
      (broken_values (ew_pc (streams r))) (v_log r)"
    and c: "chan_ok (pending_changes (streams r)) (mSupportedValuesChangeConnections (streams r)) (change_connection_id_counter (streams r))
      (broken_changes (ew_pc (streams r))) (c_log r)"
    by (simp_all add: stream_ok_defs)
  show ?thesis using chan_okD(1) [OF v] chan_okD(1) [OF c] chan_complete [OF v] chan_complete [OF c] by blast
qed

definition speed_value :: VehiclePropValue where
  "speed_value = empty_prop_value\<lparr>pv_prop := 0x11600207, pv_value := empty_raw\<lparr>floatValues := [0]\<rparr>\<rparr>"

definition fresh_run :: stream_run where
  "fresh_run = \<lparr>streams = new_streams, v_log = new_log, c_log = new_log\<rparr>"

theorem streams_in_order_witness:
  "\<exists>r. stream_step\<^sup>*\<^sup>* fresh_run r \<and> got (v_log r) 1 = [toPropValues [speed_value]]"
proof -
  define m where "m = toPropValues [speed_value]"
  define r1 where "r1 = fresh_run\<lparr>streams := StartPropertyValuesStream new_streams, v_log := log_join 1 new_log\<rparr>"
  define r2 where "r2 = r1\<lparr>streams := OnVehiclePropChange [speed_value] (streams r1), v_log := log_post m (v_log r1)\<rparr>"
  define r3 where "r3 = r2\<lparr>streams := (streams r2)\<lparr>mPropValueQueue := [], ew_pc := EW_WRITE [m] [] False\<rparr>\<rparr>"
  define s4 where "s4 = (streams r3)\<lparr>ew_pc := EW_WRITE [] [] False\<rparr>"
  define r4 where "r4 = log_step (\<lambda>_. True) (WroteValues m [1]) (r3\<lparr>streams := s4\<rparr>)"
  note defs = fresh_run_def new_streams_def StartPropertyValuesStream_def OnVehiclePropChange_def newConnection_def new_log_def
    log_join_def log_post_def log_write_def r1_def r2_def r3_def s4_def r4_def
  have 1: "stream_step fresh_run r1" using value_join [of fresh_run] by (simp add: r1_def fresh_run_def new_streams_def)
  have 2: "stream_step r1 r2" unfolding r2_def m_def by (rule value_event)
  have "eventWriterLoop_step (\<lambda>_. True) (streams r2) = Some (WroteNothing, streams r3)"
    by (simp add: eventWriterLoop_step_def defs m_def)
  from writer [OF this] have 3: "stream_step r2 r3" by (simp add: r3_def)
  have "eventWriterLoop_step (\<lambda>_. True) (streams r3) = Some (WroteValues m [1], s4)"
    by (simp add: eventWriterLoop_step_def defs writeToStream_eq cd_Write_def)
  from writer [OF this] have 4: "stream_step r3 r4" by (simp add: r4_def)
  have run: "stream_step\<^sup>*\<^sup>* fresh_run r4" using 1 2 3 4 by (meson rtranclp.rtrancl_into_rtrancl rtranclp.rtrancl_refl)
  have start: "stream_start fresh_run" by (simp add: stream_start_def fresh_run_def)
  have "value_connection_id_counter (streams r4) = 1" "written_msgs (v_log r4) = [m]" "joined_at (v_log r4) 1 = 0" "\<not> lost (v_log r4) 1"
    by (simp_all add: defs)
  with streams_in_order [OF start run] have "got (v_log r4) 1 = [m]" by simp
  with run show ?thesis unfolding m_def by blast
qed

text \<open>Timestamps stay consistent across the proxy: if the clock does not go back between stamps, the accepted values of one property and area
  never go back in the server's time nor in the client's, equal server times get equal client times, and a value is dropped only
  when a newer one of its property and area was accepted before it.\<close>

theorem stamps_consistent:
  assumes "sorted_wrt (\<lambda>a b. sint (fst a) \<le> sint (fst b)) xs"
  shows "sorted_wrt (\<lambda>(k, p) (k', q). k = k' \<longrightarrow> consistent p q) (accepted_stamps (stamps [] xs)) \<and>
    (\<forall>i < length xs. \<forall>v v'. stamps [] xs ! i = (False, v, v') \<longrightarrow>
       (\<exists>j < i. \<exists>u u'. stamps [] xs ! j = (True, u, u') \<and> value_key u = value_key v \<and> sint (pv_timestamp v) < sint (pv_timestamp u)))"
  using accepted_sorted [OF assms, of "[]"] outdated_is_older [of "[]" xs] by (simp add: latest_ok_def)

theorem stamps_consistent_witness:
  "\<exists>j < 1. \<exists>u u'. stamps [] [(100, speed_value\<lparr>pv_timestamp := 7\<rparr>), (105, speed_value\<lparr>pv_timestamp := 3\<rparr>)] ! j = (True, u, u') \<and>
     sint (pv_timestamp (speed_value\<lparr>pv_timestamp := 3\<rparr>)) < sint (pv_timestamp u)"
proof -
  define xs :: "(int64 \<times> VehiclePropValue) list" where
    "xs = [(100, speed_value\<lparr>pv_timestamp := 7\<rparr>), (105, speed_value\<lparr>pv_timestamp := 3\<rparr>)]"
  have at: "stamps [] xs ! 1 = (False, speed_value\<lparr>pv_timestamp := 3\<rparr>, speed_value\<lparr>pv_timestamp := 3\<rparr>)"
    by (simp add: xs_def setAndroidTimestamp_def speed_value_def)
  have len: "1 < length xs" by (simp add: xs_def)
  have "sorted_wrt (\<lambda>a b. sint (fst a) \<le> sint (fst b)) xs" by (simp add: xs_def)
  from stamps_consistent [OF this] len at
  have "\<exists>j < 1. \<exists>u u'. stamps [] xs ! j = (True, u, u') \<and> value_key u = value_key (speed_value\<lparr>pv_timestamp := 3\<rparr>) \<and>
      sint (pv_timestamp (speed_value\<lparr>pv_timestamp := 3\<rparr>)) < sint (pv_timestamp u)"
    by blast
  then show ?thesis unfolding xs_def by blast
qed

text \<open>The limit on retries has no effect: while the server keeps answering with a value that is older than one already seen, reading it never
  returns, because the recursive call passes the old count.\<close>

theorem outdated_read_never_returns:
  assumes "\<And>w. fst (gw_GetValues W [to_proto_get r] w) = (G_OK, [p])"
    and "pg_request_id p = gr_requestId r" and "StatusCode_cast (pg_status p) = Some st"
    and "pg_value p = Some pv" and "protoToAidl_value pv empty_prop_value = Some v"
    and "map_of latest (value_key v) = Some (ext, android)" and "sint (pv_timestamp v) < sint ext"
  shows "grpc_getValues W [r] (latest, w) = None"
proof -
  have "\<exists>w'. get_attempt W [r] results (latest, w) = Inr (Inr [r], results, latest, w')" for w results
    by (rule outdated_round [OF assms(1-5)]) (use assms(6-7) in \<open>simp_all add: value_key_def\<close>)
  from retry_diverges [OF this] show ?thesis by (simp add: grpc_getValues_def MAX_RETRY_COUNT_def)
qed

definition stale_server :: "nat grpc_world" where
  "stale_server = \<lparr>gw_clock = (\<lambda>n. (of_nat n, Suc n)),
     gw_GetValues = (\<lambda>_ n. ((G_OK, [\<lparr>pg_request_id = 1, pg_status = 0, pg_value = Some (aidlToProto_value speed_value new_proto_value)\<rparr>]), n))\<rparr>"

theorem outdated_read_never_returns_witness:
  "grpc_getValues stale_server [\<lparr>gr_requestId = 1, gr_prop = speed_value\<rparr>] ([(value_key speed_value, 5, 9)], 0) = None"
  by (rule outdated_read_never_returns [where p = "\<lparr>pg_request_id = 1, pg_status = 0, pg_value = Some (aidlToProto_value speed_value new_proto_value)\<rparr>"
      and st = OK and pv = "aidlToProto_value speed_value new_proto_value" and v = speed_value and ext = 5 and android = 9])
    (simp_all add: stale_server_def value_key_def, simp_all add: speed_value_def empty_prop_value_def)

text \<open>The destructor of the client may wait forever: with a server that keeps its stream open, the polling thread ends
  after the destructor cancelled the streams exactly if it was not between its check of the shutdown flag and the registration of its context; four
  of its own steps are enough.\<close>

theorem client_destructor_ends_iff:
  assumes "poll_step\<^sup>*\<^sup>* new_poll_thread s"
  shows "((\<exists>n. pl_pc (poll_run n (cancel_streams s)) = PL_DONE) \<longleftrightarrow> pl_pc s \<noteq> PL_INSERT) \<and>
    (pl_pc (poll_run 4 (cancel_streams s)) = PL_DONE \<longleftrightarrow> pl_pc s \<noteq> PL_INSERT)"
  using polls.reachable_inv [OF refl assms] cancelled_thread_ends cancelled_thread_hangs by metis

theorem client_destructor_ends_iff_witness:
  "\<exists>s. poll_step\<^sup>*\<^sup>* new_poll_thread s \<and> (\<forall>n. pl_pc (poll_run n (cancel_streams s)) \<noteq> PL_DONE)"
proof -
  let ?s = "new_poll_thread\<lparr>pl_pc := PL_INSERT\<rparr>"
  have "poll_step new_poll_thread ?s" by (rule poll_step.intros) (simp add: poll_thread_step_def new_poll_thread_def)
  then have run: "poll_step\<^sup>*\<^sup>* new_poll_thread ?s" by (rule r_into_rtranclp)
  with client_destructor_ends_iff [OF run] show ?thesis by auto
qed

end
