(* ===== verification/RecurrentTimer.thy ===== *)
theory RecurrentTimer
  imports Float32 "HOL-Library.Signed_Division"
begin

text \<open>
  \<^verbatim>\<open>RecurrentTimer.cpp\<close>: callbacks that are called again and again with a fixed interval. The timer keeps an id for each
  callback and asks a looper to deliver a message with that id at the next time. An operation returns the calls
  it makes to the looper while it holds its lock. Two loopers are considered: one that queues messages and delivers
  them when they are due, which the Android library documents, and the stub \<^verbatim>\<open>stubs/utils/Looper.h\<close>. The clock is
  an argument; \<open>None\<close> is a division by zero or a signed overflow.
\<close>

section \<open>Timer\<close>

record 'cb CallbackInfo =
  ci_callback :: 'cb
  ci_intervalInNanos :: int64
  ci_nextTimeInNanos :: int64

record 'cb RecurrentTimer =
  mCallbackId :: int32
  mIdByCallback :: "('cb \<times> int32) list"
  mCallbackInfoById :: "(int32 \<times> 'cb CallbackInfo) list"

definition newRecurrentTimer :: "'cb RecurrentTimer" where
  "newRecurrentTimer = \<lparr>mCallbackId = 0, mIdByCallback = [], mCallbackInfoById = []\<rparr>"

datatype looper_call = SendMessageAtTime int64 int32 | RemoveMessages int32

definition INVALID_ID :: int32 where "INVALID_ID = - 1"

definition getCallbackIdLocked :: "'cb \<Rightarrow> 'cb RecurrentTimer \<Rightarrow> int32" where
  "getCallbackIdLocked cb t = (case map_of (mIdByCallback t) cb of Some i \<Rightarrow> i | None \<Rightarrow> INVALID_ID)"

text \<open>A \<^verbatim>\<open>double\<close> nearest to an integer, and the conversion back to \<^verbatim>\<open>int64_t\<close>.\<close>

definition double_of_int :: "int \<Rightarrow> int" where
  "double_of_int n = (let u = 2 ^ nat (bit_len \<bar>n\<bar> - 53) in sgn n * rne_div \<bar>n\<bar> u * u)"

definition in_int64 :: "int \<Rightarrow> bool" where
  "in_int64 n \<longleftrightarrow> - (2 ^ 63) \<le> n \<and> n < 2 ^ 63"

text \<open>The quotient is a whole number already when it reaches \<^verbatim>\<open>ceil\<close>; the product is one of doubles.\<close>

definition alignedNextTime :: "int64 \<Rightarrow> int64 \<Rightarrow> int64 option" where
  "alignedNextTime now interval =
     (if interval = 0 then None
      else let next = double_of_int (double_of_int (sint now sdiv sint interval) * double_of_int (sint interval))
           in if in_int64 (sint now sdiv sint interval) \<and> in_int64 next then Some (word_of_int next) else None)"

text \<open>\<^verbatim>\<open>insert\<close> keeps an element that is there already.\<close>

definition insert_if_absent :: "'k \<Rightarrow> 'v \<Rightarrow> ('k \<times> 'v) list \<Rightarrow> ('k \<times> 'v) list" where
  "insert_if_absent k v xs = (case map_of xs k of None \<Rightarrow> AList.update k v xs | Some _ \<Rightarrow> xs)"

definition registerTimerCallback ::
  "int64 \<Rightarrow> int64 \<Rightarrow> 'cb \<Rightarrow> 'cb RecurrentTimer \<Rightarrow> (looper_call list \<times> 'cb RecurrentTimer) option" where
  "registerTimerCallback now interval cb t =
     (let found = getCallbackIdLocked cb t;
          (callbackId, removed, t1) =
            (if found = INVALID_ID
             then (mCallbackId t, [], t\<lparr>mCallbackId := mCallbackId t + 1,
                     mIdByCallback := insert_if_absent cb (mCallbackId t) (mIdByCallback t)\<rparr>)
             else (found, [RemoveMessages found], t))
      in map_option (\<lambda>next.
           (removed @ [SendMessageAtTime next callbackId],
            t1\<lparr>mCallbackInfoById := insert_if_absent callbackId
                 \<lparr>ci_callback = cb, ci_intervalInNanos = interval, ci_nextTimeInNanos = next\<rparr> (mCallbackInfoById t1)\<rparr>))
           (alignedNextTime now interval))"

definition unregisterTimerCallback :: "'cb \<Rightarrow> 'cb RecurrentTimer \<Rightarrow> looper_call list \<times> 'cb RecurrentTimer" where
  "unregisterTimerCallback cb t =
     (let callbackId = getCallbackIdLocked cb t
      in if callbackId = INVALID_ID then ([], t)
         else ([RemoveMessages callbackId],
               t\<lparr>mCallbackInfoById := AList.delete callbackId (mCallbackInfoById t),
                 mIdByCallback := AList.delete cb (mIdByCallback t)\<rparr>))"

text \<open>The number of intervals is a \<^verbatim>\<open>size_t\<close>, so the sum wraps.\<close>

definition advanceTime :: "int64 \<Rightarrow> 'cb CallbackInfo \<Rightarrow> int64 option" where
  "advanceTime now info =
     (let behind = sint now - sint (ci_nextTimeInNanos info);
          count = behind sdiv sint (ci_intervalInNanos info) + 1
      in if ci_intervalInNanos info = 0 \<or> \<not> in_int64 behind \<or> \<not> in_int64 count then None
         else Some (ci_nextTimeInNanos info + word_of_int count * ci_intervalInNanos info))"

text \<open>The calls to the looper, then the callback that is called after the lock is released.\<close>

definition handleMessage ::
  "int64 \<Rightarrow> int32 \<Rightarrow> 'cb RecurrentTimer \<Rightarrow> ((looper_call list \<times> 'cb option) \<times> 'cb RecurrentTimer) option" where
  "handleMessage now callbackId t =
     (case map_of (mCallbackInfoById t) callbackId of
        None \<Rightarrow> Some (([], None), t)
      | Some info \<Rightarrow>
          map_option (\<lambda>next. (([SendMessageAtTime next callbackId], Some (ci_callback info)),
             t\<lparr>mCallbackInfoById := AList.update callbackId (info\<lparr>ci_nextTimeInNanos := next\<rparr>) (mCallbackInfoById t)\<rparr>))
            (advanceTime now info))"

section \<open>Loopers\<close>

text \<open>A looper that queues its messages.\<close>

type_synonym message_queue = "(int64 \<times> int32) list"

fun queue_call :: "looper_call \<Rightarrow> message_queue \<Rightarrow> message_queue" where
  "queue_call (SendMessageAtTime time what) q = q @ [(time, what)]"
| "queue_call (RemoveMessages what) q = filter (\<lambda>m. snd m \<noteq> what) q"

text \<open>
  The stub ignores removals and delivers a message at once, on the thread of the caller: the handler
  locks the timer, which the caller has locked.
\<close>

datatype 'a blocking = Returns 'a | Deadlock

fun stub_calls :: "looper_call list \<Rightarrow> 'a \<Rightarrow> 'a blocking" where
  "stub_calls [] r = Returns r"
| "stub_calls (RemoveMessages what # cs) r = stub_calls cs r"
| "stub_calls (SendMessageAtTime time what # cs) r = Deadlock"

section \<open>Time arithmetic\<close>

lemma bit_len_0: "bit_len 0 = 0"
  by (subst bit_len.simps) simp

lemma bit_len_le: "0 \<le> n \<Longrightarrow> n < 2 ^ k \<Longrightarrow> bit_len n \<le> int k"
proof (induction k arbitrary: n)
  case 0
  then have "n = 0" by simp
  then show ?case by (simp add: bit_len_0)
next
  case (Suc k)
  show ?case
  proof (cases "n = 0")
    case False
    with Suc.prems have "bit_len n = 1 + bit_len (n div 2)" by (subst bit_len.simps) simp
    with Suc.IH [of "n div 2"] Suc.prems show ?thesis by simp
  qed (simp add: bit_len_0)
qed

lemma double_of_int_exact: "\<bar>n\<bar> < 2 ^ 53 \<Longrightarrow> double_of_int n = n"
  using bit_len_le [of "\<bar>n\<bar>" 53] by (simp add: double_of_int_def rne_div_def sgn_mult_abs)

lemma sint_of_int64: "in_int64 n \<Longrightarrow> sint (word_of_int n :: int64) = n"
  by (simp add: in_int64_def sint_sbintrunc' signed_take_bit_int_eq_self)

lemma div_le_self: "0 \<le> a \<Longrightarrow> 0 < b \<Longrightarrow> a div b \<le> (a :: int)"
  using int_div_less_self [of a b] by (cases "a = 0 \<or> b = 1") force+

lemma sdiv_nonneg: "0 \<le> a \<Longrightarrow> 0 < b \<Longrightarrow> a sdiv b = a div (b :: int)"
  by (cases "a = 0") (simp_all add: signed_divide_int_def)

text \<open>Rounding the quotient up has no effect: the first time is the last multiple of the interval that has passed.\<close>

lemma alignedNextTime_past:
  assumes "0 \<le> sint now" and "sint now < 2 ^ 53" and "0 < sint interval" and "sint interval < 2 ^ 53"
  shows "alignedNextTime now interval = Some (word_of_int (sint now - sint now mod sint interval))"
proof -
  let ?q = "sint now div sint interval"
  have q: "0 \<le> ?q" "?q \<le> sint now" using assms by (simp_all add: pos_imp_zdiv_nonneg_iff div_le_self)
  have p: "?q * sint interval = sint now - sint now mod sint interval" by (simp add: minus_mod_eq_div_mult)
  have "0 \<le> sint now mod sint interval" using assms by simp
  moreover have "0 \<le> ?q * sint interval" using q(1) assms(3) by simp
  ultimately have r: "0 \<le> ?q * sint interval" "?q * sint interval \<le> sint now" using p by simp_all
  define P where "P = ?q * sint interval"
  have P: "0 \<le> P" "P < 2 ^ 53" using r assms(2) by (simp_all add: P_def)
  have "interval \<noteq> 0" using assms(3) by auto
  then show ?thesis
    using assms q P
    by (simp add: alignedNextTime_def sdiv_nonneg double_of_int_exact in_int64_def Let_def p [symmetric] P_def [symmetric])
qed

lemma advanceTime_spec:
  assumes "0 < sint (ci_intervalInNanos info)" and "0 \<le> sint (ci_nextTimeInNanos info)"
    and "sint (ci_nextTimeInNanos info) \<le> sint now" and "sint now + sint (ci_intervalInNanos info) < 2 ^ 63"
  obtains time where "advanceTime now info = Some time" and "sint now < sint time"
    and "sint time \<le> sint now + sint (ci_intervalInNanos info)"
    and "sint (ci_intervalInNanos info) dvd sint time - sint (ci_nextTimeInNanos info)"
proof -
  define i n0 b where "i = sint (ci_intervalInNanos info)" and "n0 = sint (ci_nextTimeInNanos info)" and "b = sint now - n0"
  define k where "k = b div i + 1"
  have b: "0 \<le> b" "b < 2 ^ 63" and i: "0 < i" using assms by (auto simp: b_def n0_def i_def)
  have ki: "k * i = b - b mod i + i" by (simp add: k_def distrib_right minus_mod_eq_div_mult)
  have m: "0 \<le> b mod i" "b mod i < i" using i by simp_all
  have div: "0 \<le> b div i" "b div i \<le> b" using b i by (simp_all add: pos_imp_zdiv_nonneg_iff div_le_self)
  have "b + 1 < 2 ^ 63" using assms i by (simp add: b_def n0_def i_def)
  then have rk: "in_int64 k" using div by (simp add: in_int64_def k_def)
  have next_in: "in_int64 (n0 + k * i)" proof -
    have "0 \<le> n0" "n0 + b + i < 2 ^ 63" using assms by (simp_all add: b_def n0_def i_def)
    then show ?thesis using ki m b unfolding in_int64_def by linarith
  qed
  let ?w = "ci_nextTimeInNanos info + word_of_int k * ci_intervalInNanos info"
  have "?w = word_of_int (n0 + k * i)" by (simp add: n0_def i_def)
  with sint_of_int64 [OF next_in] have w: "sint ?w = n0 + k * i" by simp
  have "ci_intervalInNanos info \<noteq> 0" using i by (auto simp: i_def)
  then have "advanceTime now info = Some ?w"
    using b rk i by (simp add: advanceTime_def sdiv_nonneg b_def [symmetric] n0_def [symmetric] i_def [symmetric] k_def in_int64_def)
  moreover have "i dvd sint ?w - n0" by (simp add: w)
  moreover have "sint now < sint ?w" "sint ?w \<le> sint now + i" using w ki m unfolding b_def by linarith+
  ultimately show ?thesis using that unfolding n0_def i_def by blast
qed

section \<open>Runs\<close>

text \<open>
  Calls of other threads, the passing of time and the looper thread interleave. The looper takes a message that is due off its queue
  before the timer locks itself to handle it. Registration is assumed to use a positive interval and to have
  ids left.
\<close>

record 'cb timer_run =
  tm :: "'cb RecurrentTimer"
  messages :: message_queue
  in_flight :: "int32 option"
  uptime :: int64

definition timer_start :: "'cb timer_run \<Rightarrow> bool" where
  "timer_start r \<longleftrightarrow> tm r = newRecurrentTimer \<and> messages r = [] \<and> in_flight r = None"

inductive timer_step :: "'cb timer_run \<Rightarrow> 'cb timer_run \<Rightarrow> bool" where
  tick: "sint (uptime r) \<le> sint now \<Longrightarrow> timer_step r (r\<lparr>uptime := now\<rparr>)"
| register:
    "registerTimerCallback (uptime r) interval cb (tm r) = Some (calls, t) \<Longrightarrow> 0 < sint interval \<Longrightarrow>
     sint (mCallbackId (tm r)) < 2 ^ 31 - 1 \<Longrightarrow>
     timer_step r (r\<lparr>tm := t, messages := fold queue_call calls (messages r)\<rparr>)"
| unregister:
    "unregisterTimerCallback cb (tm r) = (calls, t) \<Longrightarrow>
     timer_step r (r\<lparr>tm := t, messages := fold queue_call calls (messages r)\<rparr>)"
| take_message:
    "(time, what) \<in> set (messages r) \<Longrightarrow> sint time \<le> sint (uptime r) \<Longrightarrow> in_flight r = None \<Longrightarrow>
     timer_step r (r\<lparr>messages := remove1 (time, what) (messages r), in_flight := Some what\<rparr>)"
| handle:
    "in_flight r = Some what \<Longrightarrow> handleMessage (uptime r) what (tm r) = Some ((calls, called), t) \<Longrightarrow>
     timer_step r (r\<lparr>tm := t, messages := fold queue_call calls (messages r), in_flight := None\<rparr>)"

definition awaited :: "'cb timer_run \<Rightarrow> int32 \<Rightarrow> bool" where
  "awaited r what \<longleftrightarrow> what \<in> snd ` set (messages r) \<or> in_flight r = Some what"

definition timer_maps_ok :: "'cb RecurrentTimer \<Rightarrow> bool" where
  "timer_maps_ok t \<longleftrightarrow>
     wf_alist (mIdByCallback t) \<and> wf_alist (mCallbackInfoById t) \<and> 0 \<le> sint (mCallbackId t) \<and>
     (\<forall>cb what. map_of (mIdByCallback t) cb = Some what \<longrightarrow>
        0 \<le> sint what \<and> sint what < sint (mCallbackId t) \<and>
        (\<exists>info. map_of (mCallbackInfoById t) what = Some info \<and> ci_callback info = cb)) \<and>
     (\<forall>what info. map_of (mCallbackInfoById t) what = Some info \<longrightarrow>
        map_of (mIdByCallback t) (ci_callback info) = Some what \<and> 0 < sint (ci_intervalInNanos info))"

definition timer_inv :: "'cb timer_run \<Rightarrow> bool" where
  "timer_inv r \<longleftrightarrow> timer_maps_ok (tm r) \<and>
     (\<forall>cb what. map_of (mIdByCallback (tm r)) cb = Some what \<longrightarrow> awaited r what)"

lemma INVALID_ID_neg: "sint INVALID_ID < 0"
  by (simp add: INVALID_ID_def)

lemma sint_add_1: "sint (w :: int32) < 2 ^ 31 - 1 \<Longrightarrow> sint (w + 1) = sint w + 1"
  using sint_greater_eq [of w]
  by (simp add: sint_word_ariths(1) signed_take_bit_int_eq_self)

lemma timer_maps_okD:
  assumes "timer_maps_ok t"
  shows "map_of (mIdByCallback t) cb = Some what \<Longrightarrow> 0 \<le> sint what \<and> sint what < sint (mCallbackId t)"
    and "map_of (mIdByCallback t) cb = Some what \<Longrightarrow> \<exists>info. map_of (mCallbackInfoById t) what = Some info \<and> ci_callback info = cb"
    and "map_of (mCallbackInfoById t) what = Some info \<Longrightarrow>
      map_of (mIdByCallback t) (ci_callback info) = Some what \<and> 0 < sint (ci_intervalInNanos info)"
  using assms unfolding timer_maps_ok_def by blast+

lemma timer_maps_okI:
  assumes "wf_alist (mIdByCallback t)" and "wf_alist (mCallbackInfoById t)" and "0 \<le> sint (mCallbackId t)"
    and "\<And>cb what. map_of (mIdByCallback t) cb = Some what \<Longrightarrow> 0 \<le> sint what \<and> sint what < sint (mCallbackId t)"
    and "\<And>cb what. map_of (mIdByCallback t) cb = Some what \<Longrightarrow>
      \<exists>info. map_of (mCallbackInfoById t) what = Some info \<and> ci_callback info = cb"
    and "\<And>what info. map_of (mCallbackInfoById t) what = Some info \<Longrightarrow>
      map_of (mIdByCallback t) (ci_callback info) = Some what \<and> 0 < sint (ci_intervalInNanos info)"
  shows "timer_maps_ok t"
  using assms unfolding timer_maps_ok_def by blast

lemma getCallbackIdLocked_invalid:
  assumes "timer_maps_ok t"
  shows "getCallbackIdLocked cb t = INVALID_ID \<longleftrightarrow> map_of (mIdByCallback t) cb = None"
  using timer_maps_okD(1) [OF assms, of cb] INVALID_ID_neg by (auto simp: getCallbackIdLocked_def split: option.split)

lemma register_cases [consumes 2, case_names fresh again]:
  assumes "registerTimerCallback now interval cb t = Some (calls, t')" and ok: "timer_maps_ok t"
  obtains time where "map_of (mIdByCallback t) cb = None" and "map_of (mCallbackInfoById t) (mCallbackId t) = None"
      and "calls = [SendMessageAtTime time (mCallbackId t)]"
      and "t' = \<lparr>mCallbackId = mCallbackId t + 1, mIdByCallback = AList.update cb (mCallbackId t) (mIdByCallback t),
        mCallbackInfoById = AList.update (mCallbackId t)
          \<lparr>ci_callback = cb, ci_intervalInNanos = interval, ci_nextTimeInNanos = time\<rparr> (mCallbackInfoById t)\<rparr>"
  | what time where "map_of (mIdByCallback t) cb = Some what" and "calls = [RemoveMessages what, SendMessageAtTime time what]" and "t' = t"
proof -
  obtain time where time: "alignedNextTime now interval = Some time"
    using assms(1) by (cases "alignedNextTime now interval") (auto simp: registerTimerCallback_def Let_def split: if_splits)
  show thesis
  proof (cases "map_of (mIdByCallback t) cb")
    case None
    have free: "map_of (mCallbackInfoById t) (mCallbackId t) = None"
      using timer_maps_okD(1,3) [OF ok] by (metis not_None_eq less_irrefl)
    from assms(1) None free show thesis
      by (intro that(1) [of time])
        (auto simp: registerTimerCallback_def getCallbackIdLocked_invalid [OF ok] insert_if_absent_def time Let_def)
  next
    case (Some what)
    obtain info where "map_of (mCallbackInfoById t) what = Some info" using timer_maps_okD(2) [OF ok Some] by blast
    moreover have "getCallbackIdLocked cb t = what" using Some by (simp add: getCallbackIdLocked_def)
    moreover have "what \<noteq> INVALID_ID" using timer_maps_okD(1) [OF ok Some] INVALID_ID_neg by auto
    ultimately show thesis using assms(1) Some
      by (intro that(2) [of what time]) (auto simp: registerTimerCallback_def insert_if_absent_def time Let_def)
  qed
qed

lemma register_inv:
  assumes reg: "registerTimerCallback now interval cb t = Some (calls, t')" and "0 < sint interval"
    and "sint (mCallbackId t) < 2 ^ 31 - 1" and ok: "timer_maps_ok t"
  shows "timer_maps_ok t'"
  using reg ok
proof (cases rule: register_cases)
  case (fresh time)
  have ids: "map_of (mIdByCallback t') c = (if c = cb then Some (mCallbackId t) else map_of (mIdByCallback t) c)" for c
    using fresh by (simp add: update_conv')
  have infos: "map_of (mCallbackInfoById t') w = (if w = mCallbackId t
      then Some \<lparr>ci_callback = cb, ci_intervalInNanos = interval, ci_nextTimeInNanos = time\<rparr> else map_of (mCallbackInfoById t) w)" for w
    using fresh by (simp add: update_conv')
  have other: "ci_callback info \<noteq> cb" if "map_of (mCallbackInfoById t) w = Some info" for w info
    using timer_maps_okD(3) [OF ok that] fresh(1) by auto
  have wf: "wf_alist (mIdByCallback t')" "wf_alist (mCallbackInfoById t')" "sint (mCallbackId t') = sint (mCallbackId t) + 1"
    "0 \<le> sint (mCallbackId t)"
    using fresh ok by (simp_all add: timer_maps_ok_def sint_add_1 [OF assms(3)])
  show ?thesis
  proof (rule timer_maps_okI)
    show "\<exists>info. map_of (mCallbackInfoById t') w = Some info \<and> ci_callback info = c" if "map_of (mIdByCallback t') c = Some w" for c w
      using that timer_maps_okD(1,2) [OF ok, of c w] unfolding ids infos by (auto split: if_splits)
    show "0 \<le> sint w \<and> sint w < sint (mCallbackId t')" if "map_of (mIdByCallback t') c = Some w" for c w
      using that timer_maps_okD(1) [OF ok, of c w] wf(3,4) unfolding ids by (auto split: if_splits)
    show "map_of (mIdByCallback t') (ci_callback info) = Some w \<and> 0 < sint (ci_intervalInNanos info)"
      if "map_of (mCallbackInfoById t') w = Some info" for w info
      using that timer_maps_okD(3) [OF ok, of w info] other [of w info] assms(2) unfolding ids infos by (auto split: if_splits)
  qed (use wf in auto)
qed (use ok in simp)

lemma unregister_cases [consumes 2, case_names absent known]:
  assumes "unregisterTimerCallback cb t = (calls, t')" and ok: "timer_maps_ok t"
  obtains "map_of (mIdByCallback t) cb = None" and "calls = []" and "t' = t"
  | what where "map_of (mIdByCallback t) cb = Some what" and "calls = [RemoveMessages what]"
      and "t' = t\<lparr>mCallbackInfoById := AList.delete what (mCallbackInfoById t), mIdByCallback := AList.delete cb (mIdByCallback t)\<rparr>"
proof (cases "map_of (mIdByCallback t) cb")
  case None
  with assms show thesis by (intro that(1)) (auto simp: unregisterTimerCallback_def getCallbackIdLocked_invalid Let_def)
next
  case (Some what)
  moreover have "what \<noteq> INVALID_ID" using timer_maps_okD(1) [OF ok Some] INVALID_ID_neg by auto
  ultimately show thesis using assms(1)
    by (intro that(2)) (auto simp: unregisterTimerCallback_def getCallbackIdLocked_def Let_def)
qed

lemma ids_injective:
  assumes "timer_maps_ok t" and "map_of (mIdByCallback t) cb = Some what" and "map_of (mIdByCallback t) cb' = Some what"
  shows "cb' = cb"
  using timer_maps_okD(2) [OF assms(1,2)] timer_maps_okD(2) [OF assms(1,3)] by auto

lemma unregister_inv:
  assumes "unregisterTimerCallback cb t = (calls, t')" and ok: "timer_maps_ok t"
  shows "timer_maps_ok t'"
  using assms
proof (cases rule: unregister_cases)
  case (known what)
  have keep: "cb' \<noteq> cb \<longleftrightarrow> what' \<noteq> what" if "map_of (mIdByCallback t) cb' = Some what'" for cb' what'
    using that known(1) ids_injective [OF ok] by (metis option.inject)
  have ids: "map_of (mIdByCallback t') c = (if c = cb then None else map_of (mIdByCallback t) c)" for c
    using known(3) by (simp add: AList.delete_conv')
  have infos: "map_of (mCallbackInfoById t') w = (if w = what then None else map_of (mCallbackInfoById t) w)" for w
    using known(3) by (simp add: AList.delete_conv')
  have rest: "wf_alist (mIdByCallback t')" "wf_alist (mCallbackInfoById t')" "mCallbackId t' = mCallbackId t" "0 \<le> sint (mCallbackId t)"
    using known(3) ok by (simp_all add: timer_maps_ok_def)
  show ?thesis
  proof (rule timer_maps_okI)
    show "0 \<le> sint w \<and> sint w < sint (mCallbackId t')" if "map_of (mIdByCallback t') c = Some w" for c w
      using that timer_maps_okD(1) [OF ok, of c w] rest(3) unfolding ids by (auto split: if_splits)
    show "\<exists>info. map_of (mCallbackInfoById t') w = Some info \<and> ci_callback info = c" if "map_of (mIdByCallback t') c = Some w" for c w
      using that timer_maps_okD(2) [OF ok, of c w] keep [of c w] unfolding ids infos by (auto split: if_splits)
    show "map_of (mIdByCallback t') (ci_callback info) = Some w \<and> 0 < sint (ci_intervalInNanos info)"
      if "map_of (mCallbackInfoById t') w = Some info" for w info
      using that timer_maps_okD(3) [OF ok, of w info] keep [of "ci_callback info" w] unfolding ids infos by (auto split: if_splits)
  qed (use rest in auto)
qed (use ok in simp)

lemma handle_cases [consumes 1, case_names outdated known]:
  assumes "handleMessage now what t = Some ((calls, called), t')"
  obtains "map_of (mCallbackInfoById t) what = None" and "calls = []" and "called = None" and "t' = t"
  | info time where "map_of (mCallbackInfoById t) what = Some info" and "advanceTime now info = Some time"
      and "calls = [SendMessageAtTime time what]" and "called = Some (ci_callback info)"
      and "t' = t\<lparr>mCallbackInfoById := AList.update what (info\<lparr>ci_nextTimeInNanos := time\<rparr>) (mCallbackInfoById t)\<rparr>"
proof (cases "map_of (mCallbackInfoById t) what")
  case None
  with assms show thesis by (intro that(1)) (auto simp: handleMessage_def)
next
  case (Some info)
  with assms obtain time where "advanceTime now info = Some time" by (auto simp: handleMessage_def)
  with assms Some show thesis by (intro that(2) [of info time]) (auto simp: handleMessage_def)
qed

lemma handle_inv:
  assumes "handleMessage now what t = Some ((calls, called), t')" and ok: "timer_maps_ok t"
  shows "timer_maps_ok t'"
  using assms(1)
proof (cases rule: handle_cases)
  case (known info time)
  have upd: "map_of (mCallbackInfoById t') w =
      (if w = what then Some (info\<lparr>ci_nextTimeInNanos := time\<rparr>) else map_of (mCallbackInfoById t) w)" for w
    using known by (simp add: update_conv')
  have same: "mIdByCallback t' = mIdByCallback t" "mCallbackId t' = mCallbackId t" "wf_alist (mCallbackInfoById t')"
    using known ok by (simp_all add: timer_maps_ok_def)
  have rest: "wf_alist (mIdByCallback t')" "0 \<le> sint (mCallbackId t')" using ok same by (simp_all add: timer_maps_ok_def)
  show ?thesis
  proof (rule timer_maps_okI)
    show "0 \<le> sint w \<and> sint w < sint (mCallbackId t')" if "map_of (mIdByCallback t') c = Some w" for c w
      using that timer_maps_okD(1) [OF ok] unfolding same by blast
    show "\<exists>info. map_of (mCallbackInfoById t') w = Some info \<and> ci_callback info = c" if "map_of (mIdByCallback t') c = Some w" for c w
      using that timer_maps_okD(2) [OF ok, of c w] known(1) unfolding same upd by (cases "w = what") auto
    show "map_of (mIdByCallback t') (ci_callback i) = Some w \<and> 0 < sint (ci_intervalInNanos i)"
      if "map_of (mCallbackInfoById t') w = Some i" for w i
      using that timer_maps_okD(3) [OF ok, of w] known(1) unfolding same upd by (cases "w = what") auto
  qed (use rest same(3) in auto)
qed (use ok in simp)

lemma timer_step_inv: "timer_step r r' \<Longrightarrow> timer_inv r \<Longrightarrow> timer_inv r'"
proof (induction rule: timer_step.induct)
  case (register r interval cb calls t)
  then have ok: "timer_maps_ok (tm r)" and aw: "\<And>cb what. map_of (mIdByCallback (tm r)) cb = Some what \<Longrightarrow> awaited r what"
    by (auto simp: timer_inv_def)
  from register(1) ok have "awaited (r\<lparr>tm := t, messages := fold queue_call calls (messages r)\<rparr>) what"
    if "map_of (mIdByCallback t) c = Some what" for c what
  proof (cases rule: register_cases)
    case (fresh time)
    then show ?thesis using that aw [of c what] by (auto simp: awaited_def update_conv' split: if_splits)
  next
    case (again w time)
    then show ?thesis using that aw [of c what] by (cases "what = w") (auto simp: awaited_def)
  qed
  with register_inv [OF register(1-3) ok] show ?case by (auto simp: timer_inv_def)
next
  case (unregister cb r calls t)
  then have ok: "timer_maps_ok (tm r)" and aw: "\<And>cb what. map_of (mIdByCallback (tm r)) cb = Some what \<Longrightarrow> awaited r what"
    by (auto simp: timer_inv_def)
  from unregister(1) ok have "awaited (r\<lparr>tm := t, messages := fold queue_call calls (messages r)\<rparr>) what"
    if "map_of (mIdByCallback t) c = Some what" for c what
  proof (cases rule: unregister_cases)
    case (known w)
    then have "c \<noteq> cb" "map_of (mIdByCallback (tm r)) c = Some what"
      using that by (auto simp: AList.delete_conv' restrict_map_def split: if_splits)
    with known(1) have "what \<noteq> w" using ids_injective [OF ok] by blast
    with aw [of c what] \<open>map_of (mIdByCallback (tm r)) c = Some what\<close> known show ?thesis by (auto simp: awaited_def)
  qed (use that aw in \<open>auto simp: awaited_def\<close>)
  with unregister_inv [OF unregister(1) ok] show ?case by (auto simp: timer_inv_def)
next
  case (take_message time what r)
  have "awaited (r\<lparr>messages := remove1 (time, what) (messages r), in_flight := Some what\<rparr>) w" if "awaited r w" for w
    using that take_message(3) by (cases "w = what") (auto simp: awaited_def image_iff in_set_remove1)
  then show ?case using take_message by (auto simp: timer_inv_def)
next
  case (handle r what calls called t)
  then have ok: "timer_maps_ok (tm r)" and aw: "\<And>cb what. map_of (mIdByCallback (tm r)) cb = Some what \<Longrightarrow> awaited r what"
    by (auto simp: timer_inv_def)
  from handle(2) have "awaited (r\<lparr>tm := t, messages := fold queue_call calls (messages r), in_flight := None\<rparr>) w"
    if "map_of (mIdByCallback t) c = Some w" for c w
  proof (cases rule: handle_cases)
    case outdated
    then show ?thesis using that aw [of c w] handle(1) timer_maps_okD(2) [OF ok, of c w] by (auto simp: awaited_def)
  next
    case (known info time)
    then show ?thesis using that aw [of c w] handle(1) by (auto simp: awaited_def)
  qed
  with handle_inv [OF handle(2) ok] show ?case by (auto simp: timer_inv_def)
qed (auto simp: timer_inv_def awaited_def)

interpretation timer_runs: step_invariant timer_start timer_step timer_inv
proof
  show "timer_inv r" if "timer_start r" for r :: "'a timer_run"
    using that by (simp add: timer_start_def timer_inv_def timer_maps_ok_def newRecurrentTimer_def)
qed (rule timer_step_inv)

section \<open>Registering again\<close>

text \<open>Registering a callback again does not change its interval, although the message goes to a time computed from the new one.\<close>

lemma reregister_keeps_interval:
  assumes "timer_maps_ok t" and "map_of (mIdByCallback t) cb = Some what" and "alignedNextTime now interval = Some time"
  shows "registerTimerCallback now interval cb t = Some ([RemoveMessages what, SendMessageAtTime time what], t)"
proof -
  obtain info where "map_of (mCallbackInfoById t) what = Some info" using timer_maps_okD(2) [OF assms(1,2)] by blast
  moreover have "what \<noteq> INVALID_ID" using timer_maps_okD(1) [OF assms(1,2)] INVALID_ID_neg by auto
  ultimately show ?thesis
    using assms(2,3) by (simp add: registerTimerCallback_def getCallbackIdLocked_def insert_if_absent_def)
qed

text \<open>A callback registered again while its message is in flight ends up with two messages.\<close>

definition one_callback :: "nat RecurrentTimer" where
  "one_callback = \<lparr>mCallbackId = 1, mIdByCallback = [(7, 0)],
     mCallbackInfoById = [(0, \<lparr>ci_callback = 7, ci_intervalInNanos = 10, ci_nextTimeInNanos = 20\<rparr>)]\<rparr>"

lemma reregister_in_flight_doubles:
  "\<exists>r. timer_step\<^sup>*\<^sup>* \<lparr>tm = one_callback, messages = [], in_flight = Some 0, uptime = 25\<rparr> r \<and> in_flight r = None \<and>
     map snd (messages r) = [0, 0]"
proof -
  define r0 :: "nat timer_run" where "r0 = \<lparr>tm = one_callback, messages = [], in_flight = Some 0, uptime = 25\<rparr>"
  define r1 where "r1 = r0\<lparr>tm := one_callback, messages := [(20, 0)]\<rparr>"
  define t2 where "t2 = one_callback\<lparr>mCallbackInfoById := [(0, \<lparr>ci_callback = 7, ci_intervalInNanos = 10, ci_nextTimeInNanos = 30\<rparr>)]\<rparr>"
  define r2 where "r2 = r1\<lparr>tm := t2, messages := [(20, 0), (30, 0)], in_flight := None\<rparr>"
  have al: "alignedNextTime 25 10 = Some 20" using alignedNextTime_past [of 25 10] by simp
  have "registerTimerCallback 25 10 7 one_callback = Some ([RemoveMessages 0, SendMessageAtTime 20 0], one_callback)"
    by (rule reregister_keeps_interval) (simp_all add: al timer_maps_ok_def one_callback_def)
  then have 1: "timer_step r0 r1" using register [of r0 10 7] by (simp add: r0_def r1_def one_callback_def)
  have "handleMessage 25 0 one_callback = Some (([SendMessageAtTime 30 0], Some 7), t2)"
    by (simp add: handleMessage_def one_callback_def t2_def advanceTime_def in_int64_def sdiv_nonneg)
  then have 2: "timer_step r1 r2" using handle [of r1 0] by (simp add: r0_def r1_def r2_def)
  from 1 2 have "timer_step\<^sup>*\<^sup>* r0 r2" by (meson rtranclp.rtrancl_into_rtrancl rtranclp.rtrancl_refl)
  then show ?thesis unfolding r0_def [symmetric] by (intro exI [of _ r2]) (simp add: r2_def)
qed

text \<open>With the stub, registering a callback and handling the message of a registered one block forever.\<close>

lemma stub_deadlocks:
  "registerTimerCallback now interval cb t = Some (calls, t') \<Longrightarrow> stub_calls calls t' = Deadlock"
  "handleMessage now what t = Some ((calls, Some cb), t') \<Longrightarrow> stub_calls calls t' = Deadlock"
  by (auto simp: registerTimerCallback_def handleMessage_def Let_def split: prod.splits if_splits option.splits)

section \<open>Properties\<close>



text \<open>A late timer catches up without drifting: handling the message of a callback calls it and sends the next message to a time
  in the future, at most one interval ahead and a whole number of intervals after the last one, however late the message was.\<close>

theorem timer_advances:
  assumes "map_of (mCallbackInfoById t) what = Some info" and "0 < sint (ci_intervalInNanos info)"
    and "0 \<le> sint (ci_nextTimeInNanos info)" and "sint (ci_nextTimeInNanos info) \<le> sint now"
    and "sint now + sint (ci_intervalInNanos info) < 2 ^ 63"
  shows "\<exists>time. handleMessage now what t = Some (([SendMessageAtTime time what], Some (ci_callback info)),
      t\<lparr>mCallbackInfoById := AList.update what (info\<lparr>ci_nextTimeInNanos := time\<rparr>) (mCallbackInfoById t)\<rparr>) \<and>
    sint now < sint time \<and> sint time \<le> sint now + sint (ci_intervalInNanos info) \<and>
    sint (ci_intervalInNanos info) dvd sint time - sint (ci_nextTimeInNanos info)"
proof -
  obtain time where "advanceTime now info = Some time" "sint now < sint time" "sint time \<le> sint now + sint (ci_intervalInNanos info)"
    "sint (ci_intervalInNanos info) dvd sint time - sint (ci_nextTimeInNanos info)"
    by (rule advanceTime_spec [OF assms(2-5)])
  then show ?thesis using assms(1) by (auto simp: handleMessage_def)
qed

theorem timer_advances_witness:
  "\<exists>time t'. handleMessage 57 0 one_callback = Some (([SendMessageAtTime time 0], Some 7), t') \<and> sint time = 60"
proof -
  have "map_of (mCallbackInfoById one_callback) 0 = Some \<lparr>ci_callback = 7, ci_intervalInNanos = 10, ci_nextTimeInNanos = 20\<rparr>"
    by (simp add: one_callback_def)
  from timer_advances [OF this, of 57] obtain time t' where
    h: "handleMessage 57 0 one_callback = Some (([SendMessageAtTime time 0], Some 7), t')"
    and b: "57 < sint time" "sint time \<le> 67" "10 dvd sint time - 20" by auto
  from b(3) have "10 dvd sint time" by presburger
  with b have "sint time = 60" by presburger
  with h show ?thesis by blast
qed

end
