(* ===== verification/UserHal.thy ===== *)
theory UserHal
  imports VehicleUtils "HOL-Library.Sublist"
begin

text \<open>
  The fake user HAL: \<^verbatim>\<open>UserHalHelper.cpp\<close> parses the requests Android sends in user properties and builds the
  responses; \<^verbatim>\<open>FakeUserHal.cpp\<close> answers them, with responses that were injected by a command before. A parser returns
  an error on the left side of a sum, without its message; \<open>None\<close> stands for an exception of the standard library or undefined
  behaviour. Values from the object pool are copies of their source, so the pool does not appear here.
\<close>

section \<open>Data\<close>

definition INITIAL_USER_INFO :: int32 where "INITIAL_USER_INFO = 0x0F07 + 0x10000000 + 0x01000000 + 0x00e00000"
definition SWITCH_USER :: int32 where "SWITCH_USER = 0x0F08 + 0x10000000 + 0x01000000 + 0x00e00000"
definition CREATE_USER :: int32 where "CREATE_USER = 0x0F09 + 0x10000000 + 0x01000000 + 0x00e00000"
definition REMOVE_USER :: int32 where "REMOVE_USER = 0x0F0A + 0x10000000 + 0x01000000 + 0x00e00000"
definition USER_IDENTIFICATION_ASSOCIATION :: int32 where
  "USER_IDENTIFICATION_ASSOCIATION = 0x0F0B + 0x10000000 + 0x01000000 + 0x00e00000"

lemmas user_prop_defs = INITIAL_USER_INFO_def SWITCH_USER_def CREATE_USER_def REMOVE_USER_def USER_IDENTIFICATION_ASSOCIATION_def

datatype InitialUserInfoRequestType = IUR_UNKNOWN | FIRST_BOOT | FIRST_BOOT_AFTER_OTA | COLD_BOOT | RESUME

fun InitialUserInfoRequestType_toInt :: "InitialUserInfoRequestType \<Rightarrow> int32" where
  "InitialUserInfoRequestType_toInt IUR_UNKNOWN = 0"
| "InitialUserInfoRequestType_toInt FIRST_BOOT = 1"
| "InitialUserInfoRequestType_toInt FIRST_BOOT_AFTER_OTA = 2"
| "InitialUserInfoRequestType_toInt COLD_BOOT = 3"
| "InitialUserInfoRequestType_toInt RESUME = 4"

datatype InitialUserInfoResponseAction = IUA_DEFAULT | IUA_SWITCH | IUA_CREATE

fun InitialUserInfoResponseAction_toInt :: "InitialUserInfoResponseAction \<Rightarrow> int32" where
  "InitialUserInfoResponseAction_toInt IUA_DEFAULT = 0"
| "InitialUserInfoResponseAction_toInt IUA_SWITCH = 1"
| "InitialUserInfoResponseAction_toInt IUA_CREATE = 2"

datatype SwitchUserMessageType =
  SUM_UNKNOWN | LEGACY_ANDROID_SWITCH | ANDROID_SWITCH | VEHICLE_RESPONSE | VEHICLE_REQUEST | ANDROID_POST_SWITCH

fun SwitchUserMessageType_toInt :: "SwitchUserMessageType \<Rightarrow> int32" where
  "SwitchUserMessageType_toInt SUM_UNKNOWN = 0"
| "SwitchUserMessageType_toInt LEGACY_ANDROID_SWITCH = 1"
| "SwitchUserMessageType_toInt ANDROID_SWITCH = 2"
| "SwitchUserMessageType_toInt VEHICLE_RESPONSE = 3"
| "SwitchUserMessageType_toInt VEHICLE_REQUEST = 4"
| "SwitchUserMessageType_toInt ANDROID_POST_SWITCH = 5"

datatype UserStatus = US_SUCCESS | US_FAILURE

text \<open>\<^verbatim>\<open>SwitchUserStatus\<close> and \<^verbatim>\<open>CreateUserStatus\<close> have the same enumerators and numbers.\<close>

fun UserStatus_toInt :: "UserStatus \<Rightarrow> int32" where
  "UserStatus_toInt US_SUCCESS = 1"
| "UserStatus_toInt US_FAILURE = 2"

datatype UserIdentificationAssociationType = UAT_INVALID | KEY_FOB | CUSTOM_1 | CUSTOM_2 | CUSTOM_3 | CUSTOM_4

fun UserIdentificationAssociationType_toInt :: "UserIdentificationAssociationType \<Rightarrow> int32" where
  "UserIdentificationAssociationType_toInt UAT_INVALID = 0"
| "UserIdentificationAssociationType_toInt KEY_FOB = 1"
| "UserIdentificationAssociationType_toInt CUSTOM_1 = 101"
| "UserIdentificationAssociationType_toInt CUSTOM_2 = 102"
| "UserIdentificationAssociationType_toInt CUSTOM_3 = 103"
| "UserIdentificationAssociationType_toInt CUSTOM_4 = 104"

datatype UserIdentificationAssociationSetValue =
  USV_INVALID | ASSOCIATE_CURRENT_USER | DISASSOCIATE_CURRENT_USER | DISASSOCIATE_ALL_USERS

fun UserIdentificationAssociationSetValue_toInt :: "UserIdentificationAssociationSetValue \<Rightarrow> int32" where
  "UserIdentificationAssociationSetValue_toInt USV_INVALID = 0"
| "UserIdentificationAssociationSetValue_toInt ASSOCIATE_CURRENT_USER = 1"
| "UserIdentificationAssociationSetValue_toInt DISASSOCIATE_CURRENT_USER = 2"
| "UserIdentificationAssociationSetValue_toInt DISASSOCIATE_ALL_USERS = 3"

datatype UserIdentificationAssociationValue =
  UAV_UNKNOWN | ASSOCIATED_CURRENT_USER | ASSOCIATED_ANOTHER_USER | NOT_ASSOCIATED_ANY_USER

fun UserIdentificationAssociationValue_toInt :: "UserIdentificationAssociationValue \<Rightarrow> int32" where
  "UserIdentificationAssociationValue_toInt UAV_UNKNOWN = 1"
| "UserIdentificationAssociationValue_toInt ASSOCIATED_CURRENT_USER = 2"
| "UserIdentificationAssociationValue_toInt ASSOCIATED_ANOTHER_USER = 3"
| "UserIdentificationAssociationValue_toInt NOT_ASSOCIATED_ANY_USER = 4"

record UserInfo =
  ui_userId :: int32
  ui_flags :: int32

record UsersInfo =
  currentUser :: UserInfo
  numberUsers :: int32
  existingUsers :: "UserInfo list"

record InitialUserInfoRequest =
  ir_requestId :: int32
  ir_requestType :: InitialUserInfoRequestType
  ir_usersInfo :: UsersInfo

record SwitchUserRequest =
  sw_requestId :: int32
  sw_messageType :: SwitchUserMessageType
  sw_targetUser :: UserInfo
  sw_usersInfo :: UsersInfo

record CreateUserRequest =
  cr_requestId :: int32
  cr_newUserInfo :: UserInfo
  cr_newUserName :: string
  cr_usersInfo :: UsersInfo

record RemoveUserRequest =
  rr_requestId :: int32
  rr_removedUserInfo :: UserInfo
  rr_usersInfo :: UsersInfo

record UserIdentificationGetRequest =
  ug_requestId :: int32
  ug_userInfo :: UserInfo
  ug_numberAssociationTypes :: int32
  ug_associationTypes :: "UserIdentificationAssociationType list"

record UserIdentificationSetAssociation =
  ua_type :: UserIdentificationAssociationType
  ua_value :: UserIdentificationAssociationSetValue

record UserIdentificationSetRequest =
  us_requestId :: int32
  us_userInfo :: UserInfo
  us_numberAssociations :: int32
  us_associations :: "UserIdentificationSetAssociation list"

record InitialUserInfoResponse =
  ip_requestId :: int32
  ip_action :: InitialUserInfoResponseAction
  ip_userToSwitchOrCreate :: UserInfo
  ip_userLocales :: string
  ip_userNameToCreate :: string

record SwitchUserResponse =
  sp_requestId :: int32
  sp_messageType :: SwitchUserMessageType
  sp_status :: UserStatus
  sp_errorMessage :: string

record CreateUserResponse =
  cp_requestId :: int32
  cp_status :: UserStatus
  cp_errorMessage :: string

record UserIdentificationAssociation =
  uw_type :: UserIdentificationAssociationType
  uw_value :: UserIdentificationAssociationValue

record UserIdentificationResponse =
  up_requestId :: int32
  up_numberAssociation :: int32
  up_associations :: "UserIdentificationAssociation list"
  up_errorMessage :: string

section \<open>Parsing requests\<close>

datatype parse_error = WrongProperty | TooFewValues | InvalidFlags | InvalidEnum | InvalidMessageType

type_synonym 'a parsed = "(parse_error + 'a) option"

definition parse_bind :: "'a parsed \<Rightarrow> ('a \<Rightarrow> 'b parsed) \<Rightarrow> 'b parsed" where
  "parse_bind m f = (case m of None \<Rightarrow> None | Some (Inl e) \<Rightarrow> Some (Inl e) | Some (Inr x) \<Rightarrow> f x)"

fun parse_all :: "(nat \<Rightarrow> 'a parsed) \<Rightarrow> nat list \<Rightarrow> 'a list parsed" where
  "parse_all f [] = Some (Inr [])"
| "parse_all f (i # is) = parse_bind (f i) (\<lambda>x. parse_bind (parse_all f is) (\<lambda>xs. Some (Inr (x # xs))))"

definition verifyAndCast :: "('e \<Rightarrow> int32) \<Rightarrow> 'e list \<Rightarrow> int32 \<Rightarrow> 'e parsed" where
  "verifyAndCast toInt enum_range w =
     (case find (\<lambda>e. toInt e = w) enum_range of Some e \<Rightarrow> Some (Inr e) | None \<Rightarrow> Some (Inl InvalidEnum))"

definition castRequestType :: "int32 \<Rightarrow> InitialUserInfoRequestType parsed" where
  "castRequestType = verifyAndCast InitialUserInfoRequestType_toInt
     [IUR_UNKNOWN, FIRST_BOOT, FIRST_BOOT_AFTER_OTA, COLD_BOOT, RESUME]"

definition castMessageType :: "int32 \<Rightarrow> SwitchUserMessageType parsed" where
  "castMessageType = verifyAndCast SwitchUserMessageType_toInt
     [SUM_UNKNOWN, LEGACY_ANDROID_SWITCH, ANDROID_SWITCH, VEHICLE_RESPONSE, VEHICLE_REQUEST, ANDROID_POST_SWITCH]"

definition castAssociationType :: "int32 \<Rightarrow> UserIdentificationAssociationType parsed" where
  "castAssociationType = verifyAndCast UserIdentificationAssociationType_toInt
     [UAT_INVALID, KEY_FOB, CUSTOM_1, CUSTOM_2, CUSTOM_3, CUSTOM_4]"

definition castSetValue :: "int32 \<Rightarrow> UserIdentificationAssociationSetValue parsed" where
  "castSetValue = verifyAndCast UserIdentificationAssociationSetValue_toInt
     [USV_INVALID, ASSOCIATE_CURRENT_USER, DISASSOCIATE_CURRENT_USER, DISASSOCIATE_ALL_USERS]"

definition verifyPropValue :: "VehiclePropValue \<Rightarrow> int32 \<Rightarrow> nat \<Rightarrow> unit parsed" where
  "verifyPropValue v prop minInt32Values =
     (if pv_prop v \<noteq> prop then Some (Inl WrongProperty)
      else if length (int32Values (pv_value v)) < minInt32Values then Some (Inl TooFewValues)
      else Some (Inr ()))"

definition combinedFlags :: int32 where
  "combinedFlags = 0x01 OR 0x02 OR 0x04 OR 0x08 OR 0x10 OR 0x20"

definition parseUserInfo :: "int32 list \<Rightarrow> nat \<Rightarrow> UserInfo parsed" where
  "parseUserInfo xs startPos =
     (if length xs < startPos + 2 then Some (Inl TooFewValues)
      else if xs ! (startPos + 1) AND NOT combinedFlags \<noteq> 0 then Some (Inl InvalidFlags)
      else Some (Inr \<lparr>ui_userId = xs ! startPos, ui_flags = xs ! (startPos + 1)\<rparr>))"

text \<open>\<^verbatim>\<open>resize\<close> of a vector with elements of the given size throws when the new length exceeds its maximum.\<close>

definition resize_throws :: "nat \<Rightarrow> size_t \<Rightarrow> bool" where
  "resize_throws sizeof n \<longleftrightarrow> (2 ^ 63 - 1) div sizeof < unat n"

definition parseUsersInfo :: "int32 list \<Rightarrow> nat \<Rightarrow> UsersInfo parsed" where
  "parseUsersInfo xs startPos =
     (if length xs < startPos + 3 then Some (Inl TooFewValues)
      else parse_bind (parseUserInfo xs startPos) (\<lambda>current.
        let number = xs ! (startPos + 2); n = scast number :: size_t
        in if resize_throws 8 n then None
           else parse_bind (parse_all (\<lambda>i. parseUserInfo xs (startPos + 3 + 2 * i)) [0..<unat n]) (\<lambda>users.
             Some (Inr \<lparr>currentUser = current, numberUsers = number, existingUsers = users\<rparr>))))"

text \<open>The sums and products of sizes wrap.\<close>

definition parseUserAssociationTypes :: "int32 list \<Rightarrow> nat \<Rightarrow> size_t \<Rightarrow> UserIdentificationAssociationType list parsed" where
  "parseUserAssociationTypes xs startPos n =
     (if length xs < unat (of_nat startPos + n) then Some (Inl TooFewValues)
      else if resize_throws 4 n then None
      else parse_all (\<lambda>i. castAssociationType (xs ! (startPos + i))) [0..<unat n])"

definition parseUserAssociations :: "int32 list \<Rightarrow> nat \<Rightarrow> size_t \<Rightarrow> UserIdentificationSetAssociation list parsed" where
  "parseUserAssociations xs startPos n =
     (if length xs < unat (of_nat startPos + n * 2) then Some (Inl TooFewValues)
      else if resize_throws 8 n then None
      else parse_all (\<lambda>i. parse_bind (castAssociationType (xs ! (startPos + 2 * i))) (\<lambda>type.
             parse_bind (castSetValue (xs ! (startPos + 2 * i + 1))) (\<lambda>val.
               Some (Inr \<lparr>ua_type = type, ua_value = val\<rparr>)))) [0..<unat n])"

definition toInitialUserInfoRequest :: "VehiclePropValue \<Rightarrow> InitialUserInfoRequest parsed" where
  "toInitialUserInfoRequest v =
     (let xs = int32Values (pv_value v)
      in parse_bind (verifyPropValue v INITIAL_USER_INFO 2) (\<lambda>_.
         parse_bind (castRequestType (xs ! 1)) (\<lambda>type.
         parse_bind (parseUsersInfo xs 2) (\<lambda>users.
           Some (Inr \<lparr>ir_requestId = xs ! 0, ir_requestType = type, ir_usersInfo = users\<rparr>)))))"

definition toSwitchUserRequest :: "VehiclePropValue \<Rightarrow> SwitchUserRequest parsed" where
  "toSwitchUserRequest v =
     (let xs = int32Values (pv_value v)
      in parse_bind (verifyPropValue v SWITCH_USER 2) (\<lambda>_.
         parse_bind (castMessageType (xs ! 1)) (\<lambda>type.
           if type \<noteq> LEGACY_ANDROID_SWITCH \<and> type \<noteq> ANDROID_SWITCH \<and> type \<noteq> ANDROID_POST_SWITCH
           then Some (Inl InvalidMessageType)
           else parse_bind (parseUserInfo xs 2) (\<lambda>target.
                parse_bind (parseUsersInfo xs 4) (\<lambda>users.
                  Some (Inr \<lparr>sw_requestId = xs ! 0, sw_messageType = type, sw_targetUser = target, sw_usersInfo = users\<rparr>))))))"

definition toCreateUserRequest :: "VehiclePropValue \<Rightarrow> CreateUserRequest parsed" where
  "toCreateUserRequest v =
     (let xs = int32Values (pv_value v)
      in parse_bind (verifyPropValue v CREATE_USER 1) (\<lambda>_.
         parse_bind (parseUserInfo xs 1) (\<lambda>newUser.
         parse_bind (parseUsersInfo xs 3) (\<lambda>users.
           Some (Inr \<lparr>cr_requestId = xs ! 0, cr_newUserInfo = newUser, cr_newUserName = stringValue (pv_value v),
             cr_usersInfo = users\<rparr>)))))"

definition toRemoveUserRequest :: "VehiclePropValue \<Rightarrow> RemoveUserRequest parsed" where
  "toRemoveUserRequest v =
     (let xs = int32Values (pv_value v)
      in parse_bind (verifyPropValue v REMOVE_USER 1) (\<lambda>_.
         parse_bind (parseUserInfo xs 1) (\<lambda>removed.
         parse_bind (parseUsersInfo xs 3) (\<lambda>users.
           Some (Inr \<lparr>rr_requestId = xs ! 0, rr_removedUserInfo = removed, rr_usersInfo = users\<rparr>)))))"

definition toUserIdentificationGetRequest :: "VehiclePropValue \<Rightarrow> UserIdentificationGetRequest parsed" where
  "toUserIdentificationGetRequest v =
     (let xs = int32Values (pv_value v)
      in parse_bind (verifyPropValue v USER_IDENTIFICATION_ASSOCIATION 4) (\<lambda>_.
         parse_bind (parseUserInfo xs 1) (\<lambda>user.
         parse_bind (parseUserAssociationTypes xs 4 (scast (xs ! 3))) (\<lambda>types.
           Some (Inr \<lparr>ug_requestId = xs ! 0, ug_userInfo = user, ug_numberAssociationTypes = xs ! 3,
             ug_associationTypes = types\<rparr>)))))"

definition toUserIdentificationSetRequest :: "VehiclePropValue \<Rightarrow> UserIdentificationSetRequest parsed" where
  "toUserIdentificationSetRequest v =
     (let xs = int32Values (pv_value v)
      in parse_bind (verifyPropValue v USER_IDENTIFICATION_ASSOCIATION 4) (\<lambda>_.
         parse_bind (parseUserInfo xs 1) (\<lambda>user.
         parse_bind (parseUserAssociations xs 4 (scast (xs ! 3))) (\<lambda>as.
           Some (Inr \<lparr>us_requestId = xs ! 0, us_userInfo = user, us_numberAssociations = xs ! 3, us_associations = as\<rparr>)))))"

section \<open>Building responses\<close>

definition newUserValue :: "int64 \<Rightarrow> int32 \<Rightarrow> int32 list \<Rightarrow> VehiclePropValue" where
  "newUserValue now prop xs =
     (let v = createVehiclePropValueVec (getPropType prop) 0
      in v\<lparr>pv_prop := prop, pv_timestamp := now, pv_value := (pv_value v)\<lparr>int32Values := xs\<rparr>\<rparr>)"

definition with_string :: "string \<Rightarrow> VehiclePropValue \<Rightarrow> VehiclePropValue" where
  "with_string s v = v\<lparr>pv_value := (pv_value v)\<lparr>stringValue := s\<rparr>\<rparr>"

definition switchRequest_toVehiclePropValue :: "int64 \<Rightarrow> SwitchUserRequest \<Rightarrow> parse_error + VehiclePropValue" where
  "switchRequest_toVehiclePropValue now r =
     (if sw_messageType r \<noteq> VEHICLE_REQUEST then Inl InvalidMessageType
      else Inr (newUserValue now SWITCH_USER
        [sw_requestId r, SwitchUserMessageType_toInt (sw_messageType r), ui_userId (sw_targetUser r)]))"

definition initialResponse_toVehiclePropValue :: "int64 \<Rightarrow> InitialUserInfoResponse \<Rightarrow> VehiclePropValue" where
  "initialResponse_toVehiclePropValue now r =
     with_string (ip_userLocales r @ ''||'' @ ip_userNameToCreate r)
       (newUserValue now INITIAL_USER_INFO
         [ip_requestId r, InitialUserInfoResponseAction_toInt (ip_action r), ui_userId (ip_userToSwitchOrCreate r),
          ui_flags (ip_userToSwitchOrCreate r)])"

definition switchResponse_toVehiclePropValue :: "int64 \<Rightarrow> SwitchUserResponse \<Rightarrow> VehiclePropValue" where
  "switchResponse_toVehiclePropValue now r =
     (let v = newUserValue now SWITCH_USER
            [sp_requestId r, SwitchUserMessageType_toInt (sp_messageType r), UserStatus_toInt (sp_status r)]
      in if sp_status r = US_FAILURE then with_string (sp_errorMessage r) v else v)"

definition createResponse_toVehiclePropValue :: "int64 \<Rightarrow> CreateUserResponse \<Rightarrow> VehiclePropValue" where
  "createResponse_toVehiclePropValue now r =
     (let v = newUserValue now CREATE_USER [cp_requestId r, UserStatus_toInt (cp_status r)]
      in if cp_status r = US_FAILURE then with_string (cp_errorMessage r) v else v)"

text \<open>The loop reads as many associations as the response announces.\<close>

definition identResponse_toVehiclePropValue :: "int64 \<Rightarrow> UserIdentificationResponse \<Rightarrow> VehiclePropValue option" where
  "identResponse_toVehiclePropValue now r =
     (let n = sint (up_numberAssociation r)
      in if n < 0 \<or> 2 ^ 31 \<le> 2 + n * 2 \<or> int (length (up_associations r)) < n then None
         else Some (let v = newUserValue now USER_IDENTIFICATION_ASSOCIATION
                ([up_requestId r, up_numberAssociation r] @
                 concat (map (\<lambda>a. [UserIdentificationAssociationType_toInt (uw_type a), UserIdentificationAssociationValue_toInt (uw_value a)])
                   (take (nat n) (up_associations r))))
              in if up_errorMessage r \<noteq> [] then with_string (up_errorMessage r) v else v))"

section \<open>FakeUserHal\<close>

record FakeUserHal =
  mInitialUserResponseFromCmd :: "VehiclePropValue option"
  mSwitchUserResponseFromCmd :: "VehiclePropValue option"
  mCreateUserResponseFromCmd :: "VehiclePropValue option"
  mSetUserIdentificationAssociationResponseFromCmd :: "VehiclePropValue option"

definition newFakeUserHal :: FakeUserHal where
  "newFakeUserHal = \<lparr>mInitialUserResponseFromCmd = None, mSwitchUserResponseFromCmd = None,
     mCreateUserResponseFromCmd = None, mSetUserIdentificationAssociationResponseFromCmd = None\<rparr>"

text \<open>A result is a status, or a value to report, or nothing to report.\<close>

type_synonym ValueResult = "VehiclePropValue option VhalResult"

definition isSupported :: "int32 \<Rightarrow> bool" where
  "isSupported prop \<longleftrightarrow> prop \<in> {INITIAL_USER_INFO, SWITCH_USER, CREATE_USER, REMOVE_USER, USER_IDENTIFICATION_ASSOCIATION}"

definition getRequestId :: "VehiclePropValue \<Rightarrow> int32 VhalResult" where
  "getRequestId v = (case int32Values (pv_value v) of [] \<Rightarrow> Inl INVALID_ARG | x # _ \<Rightarrow> Inr x)"

definition getSwitchUserMessageType :: "VehiclePropValue \<Rightarrow> SwitchUserMessageType VhalResult" where
  "getSwitchUserMessageType v =
     (if length (int32Values (pv_value v)) < 2 then Inl INVALID_ARG
      else case castMessageType (int32Values (pv_value v) ! 1) of Some (Inr t) \<Rightarrow> Inr t | _ \<Rightarrow> Inl INVALID_ARG)"

text \<open>Writing \<^verbatim>\<open>int32Values[0]\<close> needs an element; negating the smallest number overflows.\<close>

definition set_request_id :: "int32 \<Rightarrow> VehiclePropValue \<Rightarrow> VehiclePropValue option" where
  "set_request_id requestId v =
     (case int32Values (pv_value v) of
        [] \<Rightarrow> None
      | _ # xs \<Rightarrow> Some (v\<lparr>pv_value := (pv_value v)\<lparr>int32Values := requestId # xs\<rparr>\<rparr>))"

definition sendUserHalResponse :: "VehiclePropValue \<Rightarrow> int32 \<Rightarrow> ValueResult option" where
  "sendUserHalResponse response requestId =
     (let global = (\<lambda>v. Inr (Some (v\<lparr>pv_areaId := 0\<rparr>)))
      in if pv_areaId response = 1 then map_option global (set_request_id requestId response)
         else if pv_areaId response = 2
         then (if sint requestId = - (2 ^ 31) then None else map_option global (set_request_id (- requestId) response))
         else if pv_areaId response = 3 then Some (Inl NOT_AVAILABLE)
         else Some (Inl INTERNAL_ERROR))"

definition defaultUserIdentificationAssociation :: ValueResult where
  "defaultUserIdentificationAssociation = Inl NOT_AVAILABLE"

definition onGetUserIdentificationAssociation :: "VehiclePropValue \<Rightarrow> FakeUserHal \<Rightarrow> ValueResult option" where
  "onGetUserIdentificationAssociation v s =
     (case mSetUserIdentificationAssociationResponseFromCmd s of
        None \<Rightarrow> Some defaultUserIdentificationAssociation
      | Some stored \<Rightarrow>
          case getRequestId v of
            Inl err \<Rightarrow> Some (Inl err)
          | Inr requestId \<Rightarrow> map_option (\<lambda>v'. Inr (Some v')) (set_request_id requestId stored))"

definition onSetInitialUserInfoResponse :: "int64 \<Rightarrow> VehiclePropValue \<Rightarrow> FakeUserHal \<Rightarrow> (ValueResult \<times> FakeUserHal) option" where
  "onSetInitialUserInfoResponse now v s =
     (case getRequestId v of
        Inl err \<Rightarrow> Some (Inl err, s)
      | Inr requestId \<Rightarrow>
          if pv_areaId v \<noteq> 0 then Some (Inr None, s\<lparr>mInitialUserResponseFromCmd := Some v\<rparr>)
          else case mInitialUserResponseFromCmd s of
                 Some response \<Rightarrow>
                   map_option (\<lambda>r. (r, s\<lparr>mInitialUserResponseFromCmd := None\<rparr>)) (sendUserHalResponse response requestId)
               | None \<Rightarrow> Some (Inr (Some (initialResponse_toVehiclePropValue now
                   \<lparr>ip_requestId = requestId, ip_action = IUA_DEFAULT, ip_userToSwitchOrCreate = \<lparr>ui_userId = 0, ui_flags = 0\<rparr>,
                    ip_userLocales = [], ip_userNameToCreate = []\<rparr>)), s))"

definition onSetSwitchUserResponse :: "int64 \<Rightarrow> VehiclePropValue \<Rightarrow> FakeUserHal \<Rightarrow> (ValueResult \<times> FakeUserHal) option" where
  "onSetSwitchUserResponse now v s =
     (case getRequestId v of
        Inl err \<Rightarrow> Some (Inl err, s)
      | Inr requestId \<Rightarrow>
          case getSwitchUserMessageType v of
            Inl err \<Rightarrow> Some (Inl err, s)
          | Inr messageType \<Rightarrow>
              if pv_areaId v \<noteq> 0
              then (if messageType = VEHICLE_REQUEST then Some (Inr (Some v), s)
                    else Some (Inr None, s\<lparr>mSwitchUserResponseFromCmd := Some v\<rparr>))
              else case mSwitchUserResponseFromCmd s of
                     Some response \<Rightarrow>
                       map_option (\<lambda>r. (r, s\<lparr>mSwitchUserResponseFromCmd := None\<rparr>)) (sendUserHalResponse response requestId)
                   | None \<Rightarrow>
                       if messageType = LEGACY_ANDROID_SWITCH \<or> messageType = ANDROID_POST_SWITCH then Some (Inr None, s)
                       else Some (Inr (Some (switchResponse_toVehiclePropValue now
                         \<lparr>sp_requestId = requestId, sp_messageType = VEHICLE_RESPONSE, sp_status = US_SUCCESS, sp_errorMessage = []\<rparr>)), s))"

definition onSetCreateUserResponse :: "int64 \<Rightarrow> VehiclePropValue \<Rightarrow> FakeUserHal \<Rightarrow> (ValueResult \<times> FakeUserHal) option" where
  "onSetCreateUserResponse now v s =
     (case getRequestId v of
        Inl err \<Rightarrow> Some (Inl err, s)
      | Inr requestId \<Rightarrow>
          if pv_areaId v \<noteq> 0 then Some (Inr None, s\<lparr>mCreateUserResponseFromCmd := Some v\<rparr>)
          else case mCreateUserResponseFromCmd s of
                 Some response \<Rightarrow>
                   map_option (\<lambda>r. (r, s\<lparr>mCreateUserResponseFromCmd := None\<rparr>)) (sendUserHalResponse response requestId)
               | None \<Rightarrow> Some (Inr (Some (createResponse_toVehiclePropValue now
                   \<lparr>cp_requestId = requestId, cp_status = US_SUCCESS, cp_errorMessage = []\<rparr>)), s))"

definition onSetUserIdentificationAssociation :: "VehiclePropValue \<Rightarrow> FakeUserHal \<Rightarrow> (ValueResult \<times> FakeUserHal) option" where
  "onSetUserIdentificationAssociation v s =
     (case getRequestId v of
        Inl err \<Rightarrow> Some (Inl err, s)
      | Inr requestId \<Rightarrow>
          if pv_areaId v \<noteq> 0 then Some (Inr None, s\<lparr>mSetUserIdentificationAssociationResponseFromCmd := Some v\<rparr>)
          else case mSetUserIdentificationAssociationResponseFromCmd s of
                 Some response \<Rightarrow> map_option (\<lambda>r. (r, s)) (sendUserHalResponse response requestId)
               | None \<Rightarrow> Some (defaultUserIdentificationAssociation, s))"

definition onSetProperty :: "int64 \<Rightarrow> VehiclePropValue \<Rightarrow> FakeUserHal \<Rightarrow> (ValueResult \<times> FakeUserHal) option" where
  "onSetProperty now v s =
     (if pv_prop v = INITIAL_USER_INFO then onSetInitialUserInfoResponse now v s
      else if pv_prop v = SWITCH_USER then onSetSwitchUserResponse now v s
      else if pv_prop v = CREATE_USER then onSetCreateUserResponse now v s
      else if pv_prop v = REMOVE_USER then Some (Inr None, s)
      else if pv_prop v = USER_IDENTIFICATION_ASSOCIATION then onSetUserIdentificationAssociation v s
      else Some (Inl INVALID_ARG, s))"

definition onGetProperty :: "VehiclePropValue \<Rightarrow> FakeUserHal \<Rightarrow> ValueResult option" where
  "onGetProperty v s =
     (if pv_prop v = USER_IDENTIFICATION_ASSOCIATION then onGetUserIdentificationAssociation v s
      else Some (Inl INVALID_ARG))"

section \<open>What the parsers accept\<close>

text \<open>A list stands at a position of another one.\<close>

definition at :: "'a list \<Rightarrow> nat \<Rightarrow> 'a list \<Rightarrow> bool" where
  "at xs s ys \<longleftrightarrow> take (length ys) (drop s xs) = ys"

lemma at_Nil [simp]: "at xs s []"
  by (simp add: at_def)

lemma at_Cons [simp]: "at xs s (y # ys) \<longleftrightarrow> s < length xs \<and> xs ! s = y \<and> at xs (Suc s) ys"
proof (cases "s < length xs")
  case True
  then show ?thesis by (auto simp: at_def Cons_nth_drop_Suc [symmetric])
qed (simp add: at_def)

lemma at_append [simp]: "at xs s (ys @ zs) \<longleftrightarrow> at xs s ys \<and> at xs (s + length ys) zs"
  by (induction ys arbitrary: s) auto

lemma at_length: "at xs s ys \<Longrightarrow> ys \<noteq> [] \<Longrightarrow> s + length ys \<le> length xs"
  unfolding at_def by (metis add.commute drop_all length_drop length_take linorder_le_less_linear min.absorb_iff2 take_Nil
      add_le_imp_le_diff le_diff_conv2 less_imp_le min.bounded_iff order_refl)

lemma parse_bind_simps [simp]:
  "parse_bind (Some (Inr x)) f = f x" "parse_bind (Some (Inl e)) f = Some (Inl e)" "parse_bind None f = None"
  by (simp_all add: parse_bind_def)

lemma parse_bind_ok: "parse_bind m f = Some (Inr y) \<longleftrightarrow> (\<exists>x. m = Some (Inr x) \<and> f x = Some (Inr y))"
  by (auto simp: parse_bind_def split: option.splits sum.splits)

lemma parse_bind_throws: "parse_bind m f = None \<longleftrightarrow> m = None \<or> (\<exists>x. m = Some (Inr x) \<and> f x = None)"
  by (auto simp: parse_bind_def split: option.splits sum.splits)

lemma verifyAndCast_ok:
  assumes "inj toInt"
  shows "verifyAndCast toInt names w = Some (Inr e) \<longleftrightarrow> e \<in> set names \<and> toInt e = w"
proof -
  have "find (\<lambda>e. toInt e = w) names = Some e \<longleftrightarrow> e \<in> set names \<and> toInt e = w"
    using assms by (induction names) (auto simp: inj_def)
  then show ?thesis by (auto simp: verifyAndCast_def split: option.split)
qed

lemma verifyAndCast_total: "verifyAndCast toInt names w \<noteq> None"
  by (simp add: verifyAndCast_def split: option.split)

lemma castRequestType_ok [simp]: "castRequestType w = Some (Inr e) \<longleftrightarrow> InitialUserInfoRequestType_toInt e = w"
proof -
  have "inj InitialUserInfoRequestType_toInt" by (rule injI, case_tac x; case_tac y; simp)
  then show ?thesis unfolding castRequestType_def by (simp add: verifyAndCast_ok) (cases e; simp)
qed

lemma castMessageType_ok [simp]: "castMessageType w = Some (Inr e) \<longleftrightarrow> SwitchUserMessageType_toInt e = w"
proof -
  have "inj SwitchUserMessageType_toInt" by (rule injI, case_tac x; case_tac y; simp)
  then show ?thesis unfolding castMessageType_def by (simp add: verifyAndCast_ok) (cases e; simp)
qed

lemma castAssociationType_ok [simp]: "castAssociationType w = Some (Inr e) \<longleftrightarrow> UserIdentificationAssociationType_toInt e = w"
proof -
  have "inj UserIdentificationAssociationType_toInt" by (rule injI, case_tac x; case_tac y; simp)
  then show ?thesis unfolding castAssociationType_def by (simp add: verifyAndCast_ok) (cases e; simp)
qed

lemma castSetValue_ok [simp]: "castSetValue w = Some (Inr e) \<longleftrightarrow> UserIdentificationAssociationSetValue_toInt e = w"
proof -
  have "inj UserIdentificationAssociationSetValue_toInt" by (rule injI, case_tac x; case_tac y; simp)
  then show ?thesis unfolding castSetValue_def by (simp add: verifyAndCast_ok) (cases e; simp)
qed

lemma cast_total [simp]: "castRequestType w \<noteq> None" "castMessageType w \<noteq> None" "castAssociationType w \<noteq> None" "castSetValue w \<noteq> None"
  unfolding castRequestType_def castMessageType_def castAssociationType_def castSetValue_def by (rule verifyAndCast_total)+

text \<open>The format of the requests.\<close>

definition valid_flags :: "int32 \<Rightarrow> bool" where
  "valid_flags w \<longleftrightarrow> w AND NOT combinedFlags = 0"

definition print_user :: "UserInfo \<Rightarrow> int32 list" where
  "print_user u = [ui_userId u, ui_flags u]"

definition print_users :: "UsersInfo \<Rightarrow> int32 list" where
  "print_users u = print_user (currentUser u) @ [numberUsers u] @ concat (map print_user (existingUsers u))"

definition wf_user :: "UserInfo \<Rightarrow> bool" where
  "wf_user u \<longleftrightarrow> valid_flags (ui_flags u)"

definition wf_users :: "UsersInfo \<Rightarrow> bool" where
  "wf_users u \<longleftrightarrow> wf_user (currentUser u) \<and> list_all wf_user (existingUsers u) \<and> sint (numberUsers u) = int (length (existingUsers u))"

lemma parseUserInfo_ok [simp]: "parseUserInfo xs s = Some (Inr u) \<longleftrightarrow> wf_user u \<and> at xs s (print_user u)"
  by (cases u) (auto simp: parseUserInfo_def wf_user_def valid_flags_def print_user_def)

lemma parse_all_map: "parse_all f (map g is) = parse_all (f \<circ> g) is"
  by (induction "is") simp_all

lemma parse_all_cong: "(\<And>i. i \<in> set is \<Longrightarrow> f i = g i) \<Longrightarrow> parse_all f is = parse_all g is"
  by (induction "is") simp_all

lemma parse_all_ok:
  assumes elem: "\<And>p x. f p = Some (Inr x) \<longleftrightarrow> good x \<and> at xs p (pr x)" and len: "\<And>x. length (pr x) = k"
  shows "parse_all (\<lambda>i. f (s + k * i)) [0..<n] = Some (Inr us) \<longleftrightarrow> length us = n \<and> list_all good us \<and> at xs s (concat (map pr us))"
proof (induction n arbitrary: s us)
  case 0
  then show ?case by auto
next
  case (Suc n)
  have upt: "[0..<Suc n] = 0 # map Suc [0..<n]" by (simp only: map_Suc_upt) (simp add: upt_conv_Cons del: upt_Suc)
  have shift: "(\<lambda>i. f (s + k * i)) \<circ> Suc = (\<lambda>i. f ((s + k) + k * i))" by (auto simp: algebra_simps)
  show ?case
    unfolding upt parse_all.simps parse_all_map shift
    by (cases us) (auto simp: parse_bind_ok Suc.IH elem len)
qed

lemma parse_all_total: "(\<And>i. i \<in> set is \<Longrightarrow> f i \<noteq> None) \<Longrightarrow> parse_all f is \<noteq> None"
  by (induction "is") (auto simp: parse_bind_throws)

lemma uint_scast_size: "uint (scast (w :: int32) :: size_t) = sint w mod 2 ^ 64"
  by (simp only: scast_word uint_word_of_int) (simp add: take_bit_eq_mod)

lemma scast_size_nonneg:
  assumes "0 \<le> sint (w :: int32)"
  shows "unat (scast w :: size_t) = nat (sint w)"
proof -
  have "sint w < 2 ^ 31" using sint_less [of w] by simp
  then have "uint (scast w :: size_t) = sint w" using assms by (simp add: uint_scast_size)
  then show ?thesis by (metis unat_eq_nat_uint)
qed

lemma scast_size_neg:
  assumes "sint (w :: int32) < 0"
  shows "int (unat (scast w :: size_t)) = 2 ^ 64 + sint w"
proof -
  have "- (2 ^ 31) \<le> sint w" using sint_ge [of w] by simp
  then have "sint w mod 2 ^ 64 = 2 ^ 64 + sint w"
    using assms by (intro mod_pos_pos_trivial [of "2 ^ 64 + sint w" "2 ^ 64", simplified mod_add_self1]) simp_all
  then show ?thesis using uint_scast_size [of w] by simp
qed

lemma resize_throws_iff: "k = 4 \<or> k = 8 \<Longrightarrow> resize_throws k (scast (w :: int32)) \<longleftrightarrow> sint w < 0"
proof (cases "sint w < 0")
  case True
  have "- (2 ^ 31) \<le> sint w" using sint_ge [of w] by simp
  with scast_size_neg [OF True] have "2 ^ 63 < int (unat (scast w :: size_t))" by simp
  then have "2 ^ 63 < unat (scast w :: size_t)" by (simp flip: of_nat_less_iff [where 'a = int])
  then show "k = 4 \<or> k = 8 \<Longrightarrow> ?thesis" using True by (auto simp: resize_throws_def)
next
  case False
  then have "unat (scast w :: size_t) = nat (sint w)" by (simp add: scast_size_nonneg)
  moreover have "sint w < 2 ^ 31" using sint_less [of w] by simp
  ultimately show "k = 4 \<or> k = 8 \<Longrightarrow> ?thesis" using False by (auto simp: resize_throws_def)
qed

lemma nat_int_eq: "0 \<le> i \<Longrightarrow> n = nat i \<longleftrightarrow> i = int n"
  by auto

lemma parseUsersInfo_ok [simp]: "parseUsersInfo xs s = Some (Inr u) \<longleftrightarrow> wf_users u \<and> at xs s (print_users u)"
proof (cases "s + 3 \<le> length xs")
  case False
  have "length (print_users u) \<ge> 3" by (simp add: print_users_def print_user_def)
  then have "\<not> at xs s (print_users u)" using at_length [of xs s "print_users u"] False by force
  then show ?thesis using False by (simp add: parseUsersInfo_def)
next
  case True
  let ?w = "xs ! (s + 2)"
  let ?p = "parse_all (\<lambda>i. parseUserInfo xs (s + 3 + 2 * i)) [0..<unat (scast ?w :: size_t)]"
  have all: "?p = Some (Inr us) \<longleftrightarrow>
      length us = unat (scast ?w :: size_t) \<and> list_all wf_user us \<and> at xs (s + 3) (concat (map print_user us))" for us
    by (rule parse_all_ok [OF parseUserInfo_ok]) (simp add: print_user_def)
  have print: "at xs s (print_users u) \<longleftrightarrow>
      at xs s (print_user (currentUser u)) \<and> ?w = numberUsers u \<and> at xs (s + 3) (concat (map print_user (existingUsers u)))"
    using True by (auto simp: print_users_def print_user_def numeral_3_eq_3 numeral_2_eq_2)
  have lhs: "parseUsersInfo xs s = Some (Inr u) \<longleftrightarrow> \<not> sint ?w < 0 \<and> wf_user (currentUser u) \<and> at xs s (print_user (currentUser u)) \<and>
      numberUsers u = ?w \<and> ?p = Some (Inr (existingUsers u))"
    using True by (cases u) (auto simp: parseUsersInfo_def parse_bind_ok Let_def resize_throws_iff)
  show ?thesis
  proof (cases "sint ?w < 0")
    case False
    then have "unat (scast ?w :: size_t) = nat (sint ?w)" by (simp add: scast_size_nonneg)
    with False show ?thesis unfolding lhs all print wf_users_def by auto
  next
    case neg: True
    then show ?thesis unfolding lhs print wf_users_def by auto
  qed
qed

lemma parseUsersInfo_throws:
  "parseUsersInfo xs s = None \<longleftrightarrow>
     s + 3 \<le> length xs \<and> valid_flags (xs ! (s + 1)) \<and> sint (xs ! (s + 2)) < 0"
proof -
  have "parseUserInfo xs p \<noteq> None" for p by (simp add: parseUserInfo_def)
  then have "parse_all (\<lambda>i. parseUserInfo xs (s + 3 + 2 * i)) is \<noteq> None" for "is" by (intro parse_all_total)
  then show ?thesis
    by (auto simp: parseUsersInfo_def parse_bind_throws Let_def resize_throws_iff parseUserInfo_def valid_flags_def)
qed

lemma size_sum_nonneg:
  assumes "0 \<le> sint (w :: int32)" and "k = 1 \<or> k = 2" and "s < 100"
  shows "unat (of_nat s + scast w * of_nat k :: size_t) = s + k * nat (sint w)"
proof -
  have b: "nat (sint w) < 2 ^ 31" using sint_less [of w] assms(1) by simp
  have "(of_nat s + scast w * of_nat k :: size_t) = of_nat (s + k * nat (sint w))"
    using arg_cong [OF scast_size_nonneg [OF assms(1)], of "of_nat :: nat \<Rightarrow> size_t"] by (simp add: mult.commute)
  moreover have "s + k * nat (sint w) < 2 ^ 64" using b assms(2,3) by auto
  ultimately show ?thesis by (simp only: unat_of_nat) simp
qed

definition print_association :: "UserIdentificationSetAssociation \<Rightarrow> int32 list" where
  "print_association a = [UserIdentificationAssociationType_toInt (ua_type a), UserIdentificationAssociationSetValue_toInt (ua_value a)]"

lemma parse_all_bounded:
  assumes bound: "s + k * n \<le> length xs" and k: "0 < k" and len: "\<And>x. length (pr x) = k"
    and elem: "\<And>p x. p + k \<le> length xs \<Longrightarrow> f p = Some (Inr x) \<longleftrightarrow> at xs p (pr x)"
  shows "parse_all (\<lambda>i. f (s + k * i)) [0..<n] = Some (Inr us) \<longleftrightarrow> length us = n \<and> at xs s (concat (map pr us))"
proof -
  define g where "g p = (if p + k \<le> length xs then f p else Some (Inl TooFewValues))" for p
  have "p + k \<le> length xs" if "at xs p (pr x)" for p x using at_length [OF that] len [of x] k by force
  then have g: "g p = Some (Inr x) \<longleftrightarrow> True \<and> at xs p (pr x)" for p x by (auto simp: g_def elem)
  have "parse_all (\<lambda>i. f (s + k * i)) [0..<n] = parse_all (\<lambda>i. g (s + k * i)) [0..<n]"
  proof (rule parse_all_cong)
    fix i assume "i \<in> set [0..<n]"
    then have "k * Suc i \<le> k * n" by (intro mult_le_mono) auto
    then show "f (s + k * i) = g (s + k * i)" using bound by (simp add: g_def)
  qed
  then show ?thesis using parse_all_ok [of g "\<lambda>_. True" xs pr k s n us, OF g len] by (simp add: list_all_iff)
qed

lemma parse_types_ok [simp]:
  assumes "4 \<le> length xs"
  shows "parseUserAssociationTypes xs 4 (scast (w :: int32)) = Some (Inr ts) \<longleftrightarrow>
     sint w = int (length ts) \<and> at xs 4 (map UserIdentificationAssociationType_toInt ts)"
proof (cases "sint w < 0")
  case True
  then show ?thesis by (auto simp: parseUserAssociationTypes_def resize_throws_iff)
next
  case False
  let ?pr = "\<lambda>t. [UserIdentificationAssociationType_toInt t]"
  let ?n = "nat (sint w)"
  have n: "unat (scast w :: size_t) = ?n" "unat (of_nat 4 + scast w :: size_t) = 4 + ?n"
    using False scast_size_nonneg size_sum_nonneg [of w 1 4] by simp_all
  have pr: "concat (map ?pr ts) = map UserIdentificationAssociationType_toInt ts" by (induction ts) simp_all
  show ?thesis
  proof (cases "4 + ?n \<le> length xs")
    case True
    have "parse_all (\<lambda>i. castAssociationType (xs ! (4 + 1 * i))) [0..<?n] = Some (Inr ts) \<longleftrightarrow> length ts = ?n \<and> at xs 4 (concat (map ?pr ts))"
      by (rule parse_all_bounded) (use True in auto)
    then have all: "parse_all (\<lambda>i. castAssociationType (xs ! (4 + i))) [0..<?n] = Some (Inr ts) \<longleftrightarrow>
        length ts = ?n \<and> at xs 4 (map UserIdentificationAssociationType_toInt ts)" unfolding pr by simp
    have "parseUserAssociationTypes xs 4 (scast w) = parse_all (\<lambda>i. castAssociationType (xs ! (4 + i))) [0..<?n]"
      using True False unfolding parseUserAssociationTypes_def n by (simp add: resize_throws_iff)
    then show ?thesis using False all by auto
  next
    case short: False
    have "\<not> (sint w = int (length ts) \<and> at xs 4 (map UserIdentificationAssociationType_toInt ts))"
      using short assms at_length [of xs 4 "map UserIdentificationAssociationType_toInt ts"] by (cases ts) auto
    with short show ?thesis unfolding parseUserAssociationTypes_def n by simp
  qed
qed

lemma parse_associations_ok [simp]:
  assumes "4 \<le> length xs"
  shows "parseUserAssociations xs 4 (scast (w :: int32)) = Some (Inr as) \<longleftrightarrow>
     sint w = int (length as) \<and> at xs 4 (concat (map print_association as))"
proof (cases "sint w < 0")
  case True
  then show ?thesis by (auto simp: parseUserAssociations_def resize_throws_iff)
next
  case False
  let ?n = "nat (sint w)"
  define f where "f p = parse_bind (castAssociationType (xs ! p)) (\<lambda>type. parse_bind (castSetValue (xs ! (p + 1))) (\<lambda>val.
      Some (Inr \<lparr>ua_type = type, ua_value = val\<rparr>)))" for p
  have n: "unat (scast w :: size_t) = ?n" "unat (of_nat 4 + scast w * 2 :: size_t) = 4 + 2 * ?n"
    using False scast_size_nonneg size_sum_nonneg [of w 2 4] by simp_all
  have len: "length (concat (map print_association as)) = 2 * length as" for as by (induction as) (simp_all add: print_association_def)
  show ?thesis
  proof (cases "4 + 2 * ?n \<le> length xs")
    case True
    have elem: "f p = Some (Inr a) \<longleftrightarrow> at xs p (print_association a)" if "p + 2 \<le> length xs" for p a
      using that by (cases a) (auto simp: f_def parse_bind_ok print_association_def)
    have all: "parse_all (\<lambda>i. f (4 + 2 * i)) [0..<?n] = Some (Inr as) \<longleftrightarrow> length as = ?n \<and> at xs 4 (concat (map print_association as))"
      by (rule parse_all_bounded) (use True elem in \<open>auto simp: print_association_def\<close>)
    have "parseUserAssociations xs 4 (scast w) = parse_all (\<lambda>i. f (4 + 2 * i)) [0..<?n]"
      using True False unfolding parseUserAssociations_def n f_def by (simp add: resize_throws_iff)
    then show ?thesis using False all by auto
  next
    case short: False
    have "\<not> (sint w = int (length as) \<and> at xs 4 (concat (map print_association as)))"
      using short assms at_length [of xs 4 "concat (map print_association as)"] len by (cases as) (auto simp: print_association_def)
    with short show ?thesis unfolding parseUserAssociations_def n by simp
  qed
qed

lemma verifyPropValue_ok [simp]:
  "verifyPropValue v prop n = Some (Inr ()) \<longleftrightarrow> pv_prop v = prop \<and> n \<le> length (int32Values (pv_value v))"
  by (auto simp: verifyPropValue_def)

lemma verifyPropValue_total [simp]: "verifyPropValue v prop n \<noteq> None"
  by (simp add: verifyPropValue_def)

definition print_initial :: "InitialUserInfoRequest \<Rightarrow> int32 list" where
  "print_initial r = [ir_requestId r, InitialUserInfoRequestType_toInt (ir_requestType r)] @ print_users (ir_usersInfo r)"

definition print_switch :: "SwitchUserRequest \<Rightarrow> int32 list" where
  "print_switch r = [sw_requestId r, SwitchUserMessageType_toInt (sw_messageType r)] @ print_user (sw_targetUser r) @ print_users (sw_usersInfo r)"

definition print_create :: "CreateUserRequest \<Rightarrow> int32 list" where
  "print_create r = [cr_requestId r] @ print_user (cr_newUserInfo r) @ print_users (cr_usersInfo r)"

definition print_remove :: "RemoveUserRequest \<Rightarrow> int32 list" where
  "print_remove r = [rr_requestId r] @ print_user (rr_removedUserInfo r) @ print_users (rr_usersInfo r)"

definition print_get :: "UserIdentificationGetRequest \<Rightarrow> int32 list" where
  "print_get r = [ug_requestId r] @ print_user (ug_userInfo r) @ [ug_numberAssociationTypes r] @
     map UserIdentificationAssociationType_toInt (ug_associationTypes r)"

definition print_set :: "UserIdentificationSetRequest \<Rightarrow> int32 list" where
  "print_set r = [us_requestId r] @ print_user (us_userInfo r) @ [us_numberAssociations r] @ concat (map print_association (us_associations r))"

lemma prefix_at: "prefix ys xs \<longleftrightarrow> at xs 0 ys"
  by (auto simp: at_def prefix_def) (metis append_take_drop_id)

lemma at_user: "at xs s (print_user u @ ys) \<longleftrightarrow> at xs s (print_user u) \<and> at xs (s + 2) ys"
  by (simp add: print_user_def)

lemmas plain_parsers = parseUserInfo_ok parseUsersInfo_ok castRequestType_ok castMessageType_ok castAssociationType_ok castSetValue_ok
  parse_types_ok parse_associations_ok

lemma initial_ok:
  "toInitialUserInfoRequest v = Some (Inr r) \<longleftrightarrow>
     pv_prop v = INITIAL_USER_INFO \<and> wf_users (ir_usersInfo r) \<and> prefix (print_initial r) (int32Values (pv_value v))"
proof -
  let ?xs = "int32Values (pv_value v)"
  have "toInitialUserInfoRequest v = Some (Inr r) \<longleftrightarrow> pv_prop v = INITIAL_USER_INFO \<and> 2 \<le> length ?xs \<and>
      castRequestType (?xs ! 1) = Some (Inr (ir_requestType r)) \<and> parseUsersInfo ?xs 2 = Some (Inr (ir_usersInfo r)) \<and> ?xs ! 0 = ir_requestId r"
    by (cases r) (auto simp: toInitialUserInfoRequest_def parse_bind_ok Let_def simp del: plain_parsers)
  then show ?thesis by (auto simp: print_initial_def prefix_at numeral_2_eq_2)
qed

lemma switch_ok:
  "toSwitchUserRequest v = Some (Inr r) \<longleftrightarrow>
     pv_prop v = SWITCH_USER \<and> sw_messageType r \<in> {LEGACY_ANDROID_SWITCH, ANDROID_SWITCH, ANDROID_POST_SWITCH} \<and>
     wf_user (sw_targetUser r) \<and> wf_users (sw_usersInfo r) \<and> prefix (print_switch r) (int32Values (pv_value v))"
proof -
  let ?xs = "int32Values (pv_value v)"
  have "toSwitchUserRequest v = Some (Inr r) \<longleftrightarrow> pv_prop v = SWITCH_USER \<and> 2 \<le> length ?xs \<and>
      castMessageType (?xs ! 1) = Some (Inr (sw_messageType r)) \<and>
      sw_messageType r \<in> {LEGACY_ANDROID_SWITCH, ANDROID_SWITCH, ANDROID_POST_SWITCH} \<and> parseUserInfo ?xs 2 = Some (Inr (sw_targetUser r)) \<and>
      parseUsersInfo ?xs 4 = Some (Inr (sw_usersInfo r)) \<and> ?xs ! 0 = sw_requestId r"
    by (cases r) (auto simp: toSwitchUserRequest_def parse_bind_ok Let_def simp del: plain_parsers split: if_splits)
  then show ?thesis by (auto simp: print_switch_def prefix_at at_user numeral_eq_Suc simp del: at_append)
qed

lemma create_ok:
  "toCreateUserRequest v = Some (Inr r) \<longleftrightarrow>
     pv_prop v = CREATE_USER \<and> cr_newUserName r = stringValue (pv_value v) \<and>
     wf_user (cr_newUserInfo r) \<and> wf_users (cr_usersInfo r) \<and> prefix (print_create r) (int32Values (pv_value v))"
proof -
  let ?xs = "int32Values (pv_value v)"
  have "toCreateUserRequest v = Some (Inr r) \<longleftrightarrow> pv_prop v = CREATE_USER \<and> 1 \<le> length ?xs \<and>
      cr_newUserName r = stringValue (pv_value v) \<and> parseUserInfo ?xs 1 = Some (Inr (cr_newUserInfo r)) \<and>
      parseUsersInfo ?xs 3 = Some (Inr (cr_usersInfo r)) \<and> ?xs ! 0 = cr_requestId r"
    by (cases r) (auto simp: toCreateUserRequest_def parse_bind_ok Let_def simp del: plain_parsers)
  then show ?thesis by (auto simp: print_create_def prefix_at at_user numeral_3_eq_3 Suc_le_eq simp del: at_append)
qed

lemma remove_ok:
  "toRemoveUserRequest v = Some (Inr r) \<longleftrightarrow>
     pv_prop v = REMOVE_USER \<and> wf_user (rr_removedUserInfo r) \<and> wf_users (rr_usersInfo r) \<and>
     prefix (print_remove r) (int32Values (pv_value v))"
proof -
  let ?xs = "int32Values (pv_value v)"
  have "toRemoveUserRequest v = Some (Inr r) \<longleftrightarrow> pv_prop v = REMOVE_USER \<and> 1 \<le> length ?xs \<and>
      parseUserInfo ?xs 1 = Some (Inr (rr_removedUserInfo r)) \<and>
      parseUsersInfo ?xs 3 = Some (Inr (rr_usersInfo r)) \<and> ?xs ! 0 = rr_requestId r"
    by (cases r) (auto simp: toRemoveUserRequest_def parse_bind_ok Let_def simp del: plain_parsers)
  then show ?thesis by (auto simp: print_remove_def prefix_at at_user numeral_3_eq_3 Suc_le_eq simp del: at_append)
qed

lemma at_user_head:
  "prefix ([i] @ print_user u @ [n] @ ys) xs \<longleftrightarrow> 4 \<le> length xs \<and> xs ! 0 = i \<and> at xs 1 (print_user u) \<and> xs ! 3 = n \<and> at xs 4 ys"
  by (auto simp: prefix_at print_user_def numeral_eq_Suc Suc_le_eq)

lemma get_ok:
  "toUserIdentificationGetRequest v = Some (Inr r) \<longleftrightarrow>
     pv_prop v = USER_IDENTIFICATION_ASSOCIATION \<and> wf_user (ug_userInfo r) \<and>
     sint (ug_numberAssociationTypes r) = int (length (ug_associationTypes r)) \<and> prefix (print_get r) (int32Values (pv_value v))"
proof -
  let ?xs = "int32Values (pv_value v)"
  have "toUserIdentificationGetRequest v = Some (Inr r) \<longleftrightarrow> pv_prop v = USER_IDENTIFICATION_ASSOCIATION \<and> 4 \<le> length ?xs \<and>
      parseUserInfo ?xs 1 = Some (Inr (ug_userInfo r)) \<and>
      parseUserAssociationTypes ?xs 4 (scast (?xs ! 3)) = Some (Inr (ug_associationTypes r)) \<and> ?xs ! 3 = ug_numberAssociationTypes r \<and> ?xs ! 0 = ug_requestId r"
    by (cases r) (auto simp: toUserIdentificationGetRequest_def parse_bind_ok Let_def simp del: plain_parsers)
  then show ?thesis unfolding print_get_def at_user_head by auto
qed

lemma set_ok:
  "toUserIdentificationSetRequest v = Some (Inr r) \<longleftrightarrow>
     pv_prop v = USER_IDENTIFICATION_ASSOCIATION \<and> wf_user (us_userInfo r) \<and>
     sint (us_numberAssociations r) = int (length (us_associations r)) \<and> prefix (print_set r) (int32Values (pv_value v))"
proof -
  let ?xs = "int32Values (pv_value v)"
  have "toUserIdentificationSetRequest v = Some (Inr r) \<longleftrightarrow> pv_prop v = USER_IDENTIFICATION_ASSOCIATION \<and> 4 \<le> length ?xs \<and>
      parseUserInfo ?xs 1 = Some (Inr (us_userInfo r)) \<and>
      parseUserAssociations ?xs 4 (scast (?xs ! 3)) = Some (Inr (us_associations r)) \<and> ?xs ! 3 = us_numberAssociations r \<and> ?xs ! 0 = us_requestId r"
    by (cases r) (auto simp: toUserIdentificationSetRequest_def parse_bind_ok Let_def simp del: plain_parsers)
  then show ?thesis unfolding print_set_def at_user_head by auto
qed

section \<open>Requests that throw\<close>

text \<open>A negative count passes the checks and makes \<^verbatim>\<open>resize\<close> throw, also where the sum with the start position wraps to a small number.\<close>

lemma size_sum_neg:
  assumes "sint (w :: int32) < 0" and "k = 1 \<or> k = 2" and "s < 100"
  shows "int (unat (of_nat s + scast w * of_nat k :: size_t)) =
    (if 0 \<le> int s + int k * sint w then int s + int k * sint w else 2 ^ 64 + int s + int k * sint w)"
proof -
  let ?i = "int s + int k * sint w"
  have b: "- (2 ^ 31) \<le> sint w" using sint_ge [of w] by simp
  have "(of_nat s + scast w * of_nat k :: size_t) = word_of_int ?i"
    by (simp add: mult.commute)
  then have "uint (of_nat s + scast w * of_nat k :: size_t) = ?i mod 2 ^ 64"
    by (simp only: uint_word_of_int) (simp add: take_bit_eq_mod)
  moreover have "?i mod 2 ^ 64 = (if 0 \<le> ?i then ?i else 2 ^ 64 + ?i)"
  proof (cases "0 \<le> ?i")
    case True
    then show ?thesis using assms by (auto intro: mod_pos_pos_trivial)
  next
    case False
    then have "?i mod 2 ^ 64 = (2 ^ 64 + ?i) mod 2 ^ 64" "0 \<le> 2 ^ 64 + ?i" "2 ^ 64 + ?i < 2 ^ 64" using b assms(2) by auto
    then show ?thesis using False mod_pos_pos_trivial by presburger
  qed
  ultimately show ?thesis by simp
qed

lemma parse_types_throws:
  assumes "4 \<le> length xs" and "length xs < 2 ^ 63"
  shows "parseUserAssociationTypes xs 4 (scast (w :: int32)) = None \<longleftrightarrow> - 4 \<le> sint w \<and> sint w < 0"
proof -
  have tot: "parse_all (\<lambda>i. castAssociationType (xs ! (4 + i))) is \<noteq> None" for "is" by (rule parse_all_total) simp
  show ?thesis
  proof (cases "sint w < 0")
    case True
    have "- (2 ^ 31) \<le> sint w" using sint_ge [of w] by simp
    then have "length xs < unat (of_nat 4 + scast w :: size_t) \<longleftrightarrow> sint w < - 4"
    proof -
      define N where "N = unat (of_nat 4 + scast w * of_nat 1 :: size_t)"
      have "int N = (if 0 \<le> int 4 + int 1 * sint w then int 4 + int 1 * sint w else 2 ^ 64 + int 4 + int 1 * sint w)"
        unfolding N_def using True by (rule size_sum_neg) simp_all
      moreover have "unat (of_nat 4 + scast w :: size_t) = N" by (simp add: N_def)
      ultimately show ?thesis using assms True \<open>- (2 ^ 31) \<le> sint w\<close> by (auto split: if_splits)
    qed
    then show ?thesis using True by (auto simp: parseUserAssociationTypes_def resize_throws_iff)
  next
    case False
    then show ?thesis using tot by (auto simp: parseUserAssociationTypes_def resize_throws_iff)
  qed
qed

lemma identification_get_throws:
  assumes "length (int32Values (pv_value v)) < 2 ^ 63"
  shows "toUserIdentificationGetRequest v = None \<longleftrightarrow>
     pv_prop v = USER_IDENTIFICATION_ASSOCIATION \<and> 4 \<le> length (int32Values (pv_value v)) \<and> valid_flags (int32Values (pv_value v) ! 2) \<and>
     - 4 \<le> sint (int32Values (pv_value v) ! 3) \<and> sint (int32Values (pv_value v) ! 3) < 0"
proof -
  let ?xs = "int32Values (pv_value v)"
  have "parseUserInfo ?xs 1 \<noteq> None" by (simp add: parseUserInfo_def)
  moreover have "(\<exists>u. parseUserInfo ?xs 1 = Some (Inr u)) \<longleftrightarrow> 3 \<le> length ?xs \<and> valid_flags (?xs ! 2)"
    by (auto simp: parseUserInfo_def valid_flags_def numeral_2_eq_2 simp del: parseUserInfo_ok)
  ultimately show ?thesis
    using assms by (auto simp: toUserIdentificationGetRequest_def Let_def parse_bind_throws parse_types_throws simp del: parseUserInfo_ok)
qed

lemma initial_throws:
  "toInitialUserInfoRequest v = None \<longleftrightarrow>
     pv_prop v = INITIAL_USER_INFO \<and> 5 \<le> length (int32Values (pv_value v)) \<and>
     (\<exists>t. InitialUserInfoRequestType_toInt t = int32Values (pv_value v) ! 1) \<and>
     valid_flags (int32Values (pv_value v) ! 3) \<and> sint (int32Values (pv_value v) ! 4) < 0"
  by (auto simp: toInitialUserInfoRequest_def Let_def parse_bind_throws parseUsersInfo_throws)

section \<open>Runs of the user HAL\<close>

inductive user_hal_step :: "FakeUserHal \<Rightarrow> FakeUserHal \<Rightarrow> bool" where
  "onSetProperty now v s = Some (r, s') \<Longrightarrow> user_hal_step s s'"

definition stored_ok :: "int32 \<Rightarrow> VehiclePropValue option \<Rightarrow> bool" where
  "stored_ok prop stored \<longleftrightarrow> (\<forall>v. stored = Some v \<longrightarrow> pv_prop v = prop \<and> int32Values (pv_value v) \<noteq> [])"

definition user_hal_inv :: "FakeUserHal \<Rightarrow> bool" where
  "user_hal_inv s \<longleftrightarrow> stored_ok INITIAL_USER_INFO (mInitialUserResponseFromCmd s) \<and> stored_ok SWITCH_USER (mSwitchUserResponseFromCmd s) \<and>
     stored_ok CREATE_USER (mCreateUserResponseFromCmd s) \<and>
     stored_ok USER_IDENTIFICATION_ASSOCIATION (mSetUserIdentificationAssociationResponseFromCmd s)"

lemmas user_hal_set_defs = onSetProperty_def onSetInitialUserInfoResponse_def onSetSwitchUserResponse_def onSetCreateUserResponse_def
  onSetUserIdentificationAssociation_def

lemma getRequestId_ok: "getRequestId v = Inr i \<longleftrightarrow> (\<exists>xs. int32Values (pv_value v) = i # xs)"
  by (auto simp: getRequestId_def split: list.split)

text \<open>A call leaves the state alone, or stores its value, or uses up a stored response.\<close>

lemma set_initial_state:
  assumes "onSetInitialUserInfoResponse now v s = Some (r, s')"
  shows "s' = s \<or> s' = s\<lparr>mInitialUserResponseFromCmd := None\<rparr> \<or>
    s' = s\<lparr>mInitialUserResponseFromCmd := Some v\<rparr> \<and> int32Values (pv_value v) \<noteq> []"
  using assms by (auto simp: onSetInitialUserInfoResponse_def getRequestId_ok split: sum.splits option.splits if_splits)

lemma set_switch_state:
  assumes "onSetSwitchUserResponse now v s = Some (r, s')"
  shows "s' = s \<or> s' = s\<lparr>mSwitchUserResponseFromCmd := None\<rparr> \<or>
    s' = s\<lparr>mSwitchUserResponseFromCmd := Some v\<rparr> \<and> int32Values (pv_value v) \<noteq> []"
  using assms by (auto simp: onSetSwitchUserResponse_def getRequestId_ok split: sum.splits option.splits if_splits)

lemma set_create_state:
  assumes "onSetCreateUserResponse now v s = Some (r, s')"
  shows "s' = s \<or> s' = s\<lparr>mCreateUserResponseFromCmd := None\<rparr> \<or>
    s' = s\<lparr>mCreateUserResponseFromCmd := Some v\<rparr> \<and> int32Values (pv_value v) \<noteq> []"
  using assms by (auto simp: onSetCreateUserResponse_def getRequestId_ok split: sum.splits option.splits if_splits)

lemma set_ident_state:
  assumes "onSetUserIdentificationAssociation v s = Some (r, s')"
  shows "s' = s \<or> s' = s\<lparr>mSetUserIdentificationAssociationResponseFromCmd := Some v\<rparr> \<and> int32Values (pv_value v) \<noteq> []"
  using assms by (auto simp: onSetUserIdentificationAssociation_def getRequestId_ok split: sum.splits option.splits if_splits)

lemma user_hal_step_inv: "user_hal_inv s \<Longrightarrow> onSetProperty now v s = Some (r, s') \<Longrightarrow> user_hal_inv s'"
  unfolding onSetProperty_def
  by (auto split: if_splits simp: user_hal_inv_def stored_ok_def
      dest!: set_initial_state set_switch_state set_create_state set_ident_state)

interpretation user_hal: step_invariant "\<lambda>s. s = newFakeUserHal" user_hal_step user_hal_inv
proof
  show "user_hal_inv s" if "s = newFakeUserHal" for s
    using that by (simp add: user_hal_inv_def stored_ok_def newFakeUserHal_def)
  show "user_hal_inv t" if "user_hal_inv s" and "user_hal_step s t" for s t
    using that(2,1) by (cases rule: user_hal_step.cases) (rule user_hal_step_inv)
qed

text \<open>What an injected response becomes when it answers a request.\<close>

definition answers_request :: "VehiclePropValue \<Rightarrow> VehiclePropValue \<Rightarrow> bool" where
  "answers_request v reply \<longleftrightarrow> pv_prop reply = pv_prop v \<and> pv_areaId reply = 0 \<and>
     (\<exists>i. hd (int32Values (pv_value v)) = i \<and> (hd (int32Values (pv_value reply)) = i \<or> hd (int32Values (pv_value reply)) = - i))"

lemma send_reply:
  assumes "stored_ok prop (Some response)" and "sendUserHalResponse response i = r"
  shows "case r of None \<Rightarrow> sint i = - (2 ^ 31)
    | Some (Inl e) \<Rightarrow> e = NOT_AVAILABLE \<or> e = INTERNAL_ERROR
    | Some (Inr None) \<Rightarrow> False
    | Some (Inr (Some reply)) \<Rightarrow> pv_prop reply = prop \<and> pv_areaId reply = 0 \<and>
        (hd (int32Values (pv_value reply)) = i \<or> hd (int32Values (pv_value reply)) = - i)"
  using assms by (auto simp: sendUserHalResponse_def stored_ok_def set_request_id_def Let_def split: list.splits)

lemma default_replies:
  "answers_request v (initialResponse_toVehiclePropValue now \<lparr>ip_requestId = i, ip_action = a, ip_userToSwitchOrCreate = u,
     ip_userLocales = l, ip_userNameToCreate = n\<rparr>) \<longleftrightarrow> pv_prop v = INITIAL_USER_INFO \<and> (hd (int32Values (pv_value v)) = i \<or> - hd (int32Values (pv_value v)) = i)"
  "answers_request v (switchResponse_toVehiclePropValue now \<lparr>sp_requestId = i, sp_messageType = m, sp_status = st, sp_errorMessage = e\<rparr>) \<longleftrightarrow>
     pv_prop v = SWITCH_USER \<and> (hd (int32Values (pv_value v)) = i \<or> - hd (int32Values (pv_value v)) = i)"
  "answers_request v (createResponse_toVehiclePropValue now \<lparr>cp_requestId = i, cp_status = st, cp_errorMessage = e\<rparr>) \<longleftrightarrow>
     pv_prop v = CREATE_USER \<and> (hd (int32Values (pv_value v)) = i \<or> - hd (int32Values (pv_value v)) = i)"
  by (auto simp: answers_request_def initialResponse_toVehiclePropValue_def switchResponse_toVehiclePropValue_def
      createResponse_toVehiclePropValue_def newUserValue_def with_string_def createVehiclePropValueVec_def empty_prop_value_def Let_def
      split: VehiclePropertyType.split)

text \<open>How a call of Android may end: the state is defined unless a request id cannot be negated.\<close>

definition android_result :: "VehiclePropValue \<Rightarrow> (ValueResult \<times> FakeUserHal) option \<Rightarrow> bool" where
  "android_result v res =
     (case res of
        None \<Rightarrow> sint (hd (int32Values (pv_value v))) = - (2 ^ 31)
      | Some (Inr (Some reply), _) \<Rightarrow> answers_request v reply
      | _ \<Rightarrow> True)"

lemma send_android:
  assumes "stored_ok (pv_prop v) (Some response)" and "getRequestId v = Inr i"
  shows "android_result v (map_option (\<lambda>r. (r, s)) (sendUserHalResponse response i))"
  using send_reply [OF assms(1) refl, of i] assms(2)
  by (auto simp: android_result_def answers_request_def getRequestId_ok split: option.splits sum.splits)

lemma android_initial:
  "user_hal_inv s \<Longrightarrow> pv_areaId v = 0 \<Longrightarrow> pv_prop v = INITIAL_USER_INFO \<Longrightarrow> android_result v (onSetInitialUserInfoResponse now v s)"
  by (auto simp: onSetInitialUserInfoResponse_def user_hal_inv_def intro: send_android split: sum.split option.split)
    (auto simp: android_result_def default_replies getRequestId_ok)

lemma android_switch:
  "user_hal_inv s \<Longrightarrow> pv_areaId v = 0 \<Longrightarrow> pv_prop v = SWITCH_USER \<Longrightarrow> android_result v (onSetSwitchUserResponse now v s)"
  by (auto simp: onSetSwitchUserResponse_def user_hal_inv_def intro: send_android split: sum.split option.split)
    (auto simp: android_result_def default_replies getRequestId_ok)

lemma android_create:
  "user_hal_inv s \<Longrightarrow> pv_areaId v = 0 \<Longrightarrow> pv_prop v = CREATE_USER \<Longrightarrow> android_result v (onSetCreateUserResponse now v s)"
  by (auto simp: onSetCreateUserResponse_def user_hal_inv_def intro: send_android split: sum.split option.split)
    (auto simp: android_result_def default_replies getRequestId_ok)

lemma android_ident:
  "user_hal_inv s \<Longrightarrow> pv_areaId v = 0 \<Longrightarrow> pv_prop v = USER_IDENTIFICATION_ASSOCIATION \<Longrightarrow>
     android_result v (onSetUserIdentificationAssociation v s)"
  by (auto simp: onSetUserIdentificationAssociation_def user_hal_inv_def intro: send_android split: sum.split option.split)
    (auto simp: android_result_def defaultUserIdentificationAssociation_def)

lemma get_defined: "user_hal_inv s \<Longrightarrow> onGetProperty v s \<noteq> None"
  by (auto simp: onGetProperty_def onGetUserIdentificationAssociation_def user_hal_inv_def stored_ok_def set_request_id_def
      split: option.splits sum.splits list.splits)

section \<open>Properties\<close>


text \<open>The user HAL answers Android soundly: after any sequence of set calls, a call of Android has defined behaviour (unless an injected response
  negates the smallest request id), and a value it reports is a global value of the requested property that carries the request id or,
  where an injected response asks for it, its negation; reading is always defined.\<close>

theorem user_hal_answers:
  assumes "user_hal_step\<^sup>*\<^sup>* newFakeUserHal s" and "pv_areaId v = 0"
  shows "onGetProperty v s \<noteq> None \<and>
    (case onSetProperty now v s of
       None \<Rightarrow> sint (hd (int32Values (pv_value v))) = - (2 ^ 31)
     | Some (Inr (Some reply), _) \<Rightarrow> answers_request v reply
     | _ \<Rightarrow> True)"
proof -
  have inv: "user_hal_inv s" by (rule user_hal.reachable_inv [OF refl assms(1)])
  have "android_result v (onSetProperty now v s)"
    using android_initial [OF inv assms(2)] android_switch [OF inv assms(2)] android_create [OF inv assms(2)] android_ident [OF inv assms(2)]
    by (auto simp: onSetProperty_def) (simp_all add: android_result_def)
  with get_defined [OF inv] show ?thesis unfolding android_result_def by blast
qed

definition injected_initial :: VehiclePropValue where
  "injected_initial = empty_prop_value\<lparr>pv_prop := INITIAL_USER_INFO, pv_areaId := 1, pv_value := empty_raw\<lparr>int32Values := [66, 1, 10]\<rparr>\<rparr>"

definition android_initial_request :: VehiclePropValue where
  "android_initial_request = empty_prop_value\<lparr>pv_prop := INITIAL_USER_INFO, pv_value := empty_raw\<lparr>int32Values := [42, 3]\<rparr>\<rparr>"

theorem user_hal_answers_witness:
  "\<exists>s reply s'. user_hal_step\<^sup>*\<^sup>* newFakeUserHal s \<and> onSetProperty 0 android_initial_request s = Some (Inr (Some reply), s') \<and>
     answers_request android_initial_request reply"
proof -
  let ?s = "newFakeUserHal\<lparr>mInitialUserResponseFromCmd := Some injected_initial\<rparr>"
  let ?reply = "injected_initial\<lparr>pv_areaId := 0, pv_value := empty_raw\<lparr>int32Values := [42, 1, 10]\<rparr>\<rparr>"
  have "onSetProperty 0 injected_initial newFakeUserHal = Some (Inr None, ?s)"
    by (simp add: onSetProperty_def onSetInitialUserInfoResponse_def injected_initial_def getRequestId_def)
  then have run: "user_hal_step\<^sup>*\<^sup>* newFakeUserHal ?s" by (intro r_into_rtranclp) (rule user_hal_step.intros)
  have set: "onSetProperty 0 android_initial_request ?s = Some (Inr (Some ?reply), newFakeUserHal)"
    by (simp add: onSetProperty_def onSetInitialUserInfoResponse_def android_initial_request_def getRequestId_def
        sendUserHalResponse_def set_request_id_def injected_initial_def newFakeUserHal_def empty_prop_value_def)
  have "pv_areaId android_initial_request = 0" by (simp add: android_initial_request_def empty_prop_value_def)
  from user_hal_answers [OF run this, of 0] set have "answers_request android_initial_request ?reply" by simp
  with run set show ?thesis by blast
qed

end
