(* ===== verification/Obd2.thy ===== *)
theory Obd2
  imports PropertyStore
begin

text \<open>
  OBD2 frames of the fake hardware: \<^verbatim>\<open>Obd2SensorStore.cpp\<close> collects sensor values with a bit mask of those that were set,
  \<^verbatim>\<open>FakeObd2Frame.cpp\<close> builds the live frame and the freeze frames and keeps them in the property store, where a freeze frame is found by its
  timestamp. Enumerators stand for their numbers; the float literals are the nearest \<^verbatim>\<open>float\<close>. The clock is an argument.
\<close>

section \<open>Obd2SensorStore\<close>

record BitmaskInVector =
  mStorage :: "byte list"
  mNumBits :: nat

definition bm_resize :: "nat \<Rightarrow> BitmaskInVector" where
  "bm_resize numBits = \<lparr>mStorage = replicate ((numBits + 7) div 8) 0, mNumBits = numBits\<rparr>"

text \<open>The result is an error out of bounds.\<close>

definition bm_set :: "nat \<Rightarrow> bool \<Rightarrow> BitmaskInVector \<Rightarrow> unit + BitmaskInVector" where
  "bm_set index val b =
     (let byteIndex = index div 8; bitIndex = index mod 8
      in if mNumBits b \<le> index then Inl ()
         else let byte = mStorage b ! byteIndex;
                  newValue = (if val then byte OR push_bit bitIndex 1 else byte AND NOT (push_bit bitIndex 1))
              in Inr (b\<lparr>mStorage := (mStorage b)[byteIndex := newValue]\<rparr>))"

definition bm_get :: "nat \<Rightarrow> BitmaskInVector \<Rightarrow> unit + bool" where
  "bm_get index b =
     (if mNumBits b \<le> index then Inl () else Inr (mStorage b ! (index div 8) AND push_bit (index mod 8) 1 \<noteq> 0))"

record Obd2SensorStore =
  mIntegerSensors :: "int32 list"
  mFloatSensors :: "f32 list"
  mSensorsBitmask :: BitmaskInVector

text \<open>The last enumerators of the sensor indices.\<close>

definition lastIntegerIndex :: nat where "lastIntegerIndex = 31"
definition lastFloatIndex :: nat where "lastFloatIndex = 70"

definition newObd2SensorStore :: "nat \<Rightarrow> nat \<Rightarrow> Obd2SensorStore" where
  "newObd2SensorStore numVendorIntegerSensors numVendorFloatSensors =
     (let ints = replicate (lastIntegerIndex + 1 + numVendorIntegerSensors) 0;
          floats = replicate (lastFloatIndex + 1 + numVendorFloatSensors) 0
      in \<lparr>mIntegerSensors = ints, mFloatSensors = floats, mSensorsBitmask = bm_resize (length ints + length floats)\<rparr>)"

definition setIntegerSensor :: "nat \<Rightarrow> int32 \<Rightarrow> Obd2SensorStore \<Rightarrow> StatusCode \<times> Obd2SensorStore" where
  "setIntegerSensor index val s =
     (if length (mIntegerSensors s) \<le> index then (INVALID_ARG, s)
      else let s' = s\<lparr>mIntegerSensors := (mIntegerSensors s)[index := val]\<rparr>
           in case bm_set index True (mSensorsBitmask s') of
                Inl _ \<Rightarrow> (INVALID_ARG, s')
              | Inr b \<Rightarrow> (OK, s'\<lparr>mSensorsBitmask := b\<rparr>))"

definition setFloatSensor :: "nat \<Rightarrow> f32 \<Rightarrow> Obd2SensorStore \<Rightarrow> StatusCode \<times> Obd2SensorStore" where
  "setFloatSensor index val s =
     (if length (mFloatSensors s) \<le> index then (INVALID_ARG, s)
      else let s' = s\<lparr>mFloatSensors := (mFloatSensors s)[index := val]\<rparr>
           in case bm_set (index + length (mIntegerSensors s')) True (mSensorsBitmask s') of
                Inl _ \<Rightarrow> (INVALID_ARG, s')
              | Inr b \<Rightarrow> (OK, s'\<lparr>mSensorsBitmask := b\<rparr>))"

definition getSensorProperty :: "int64 \<Rightarrow> string \<Rightarrow> Obd2SensorStore \<Rightarrow> VehiclePropValuePool \<Rightarrow> recyclable \<times> VehiclePropValuePool" where
  "getSensorProperty now dtc s pool =
     (let (r, pool') = obtain_type MIXED pool; v = r_value r
      in (r\<lparr>r_value := v\<lparr>pv_timestamp := now, pv_value := (pv_value v)\<lparr>int32Values := mIntegerSensors s, floatValues := mFloatSensors s,
            byteValues := mStorage (mSensorsBitmask s), stringValue := dtc\<rparr>\<rparr>\<rparr>, pool'))"

section \<open>FakeObd2Frame\<close>

definition OBD2_LIVE_FRAME :: int32 where "OBD2_LIVE_FRAME = 0x0D00 + 0x10000000 + 0x01000000 + 0x00e00000"
definition OBD2_FREEZE_FRAME :: int32 where "OBD2_FREEZE_FRAME = 0x0D01 + 0x10000000 + 0x01000000 + 0x00e00000"
definition OBD2_FREEZE_FRAME_INFO :: int32 where "OBD2_FREEZE_FRAME_INFO = 0x0D02 + 0x10000000 + 0x01000000 + 0x00e00000"
definition OBD2_FREEZE_FRAME_CLEAR :: int32 where "OBD2_FREEZE_FRAME_CLEAR = 0x0D03 + 0x10000000 + 0x01000000 + 0x00e00000"

text \<open>The sensors in the order in which they are set.\<close>

definition default_ints :: "(nat \<times> int32) list" where
  "default_ints = [(0, 2), (1, 0), (2, 0), (3, push_bit 0 1 OR push_bit 4 1 OR push_bit 12 1 OR push_bit 16 1), (4, 35), (5, 4), (6, 1),
     (7, 500), (8, 0), (9, 51), (10, 365), (11, 30), (12, 12), (13, 18), (16, 1), (21, 1)]"

definition default_floats :: "(nat \<times> f32) list" where
  "default_floats = [(0, 0x3e1cac08), (2, 0xbe23d70a), (3, 0xbe23d70a), (4, 0xbe23d70a), (5, 0xbe23d70a), (7, 0x40f00000), (8, 0x449c4000),
     (9, 0x42200000), (10, 0x40200000), (12, 0x419e0000), (13, 0x3e87ae14), (42, 0x3f52f1aa), (43, 0xbebef9db), (44, 0x433e0000),
     (50, 0x40400000), (51, 0x3e9cac08), (53, 0x3e408312), (54, 0x3dc08312), (56, 0x3cc49ba6)]"

definition fillDefaultObd2Frame :: "nat \<Rightarrow> nat \<Rightarrow> Obd2SensorStore" where
  "fillDefaultObd2Frame numVendorIntegerSensors numVendorFloatSensors =
     fold (\<lambda>(i, x) s. snd (setFloatSensor i x s)) default_floats
       (fold (\<lambda>(i, x) s. snd (setIntegerSensor i x s)) default_ints
         (newObd2SensorStore numVendorIntegerSensors numVendorFloatSensors))"

text \<open>Reading the configuration array out of range, or a negative number of vendor sensors, is undefined.\<close>

definition vendor_sensors :: "VehiclePropConfig \<Rightarrow> (nat \<times> nat) option" where
  "vendor_sensors config =
     (case configArray config of
        a # b # _ \<Rightarrow> if sint a < 0 \<or> sint b < 0 then None else Some (nat (sint a), nat (sint b))
      | _ \<Rightarrow> None)"

definition write_frame ::
  "int32 \<Rightarrow> string \<Rightarrow> int64 \<Rightarrow> Obd2SensorStore \<Rightarrow> VehiclePropertyStore \<Rightarrow> callback_call list \<times> VehiclePropertyStore" where
  "write_frame prop dtc now sensors s =
     (let (r, pool) = getSensorProperty now dtc sensors (mValuePool s);
          r' = r\<lparr>r_value := (r_value r)\<lparr>pv_prop := prop\<rparr>\<rparr>
      in snd (writeValue r' True ON_VALUE_CHANGE False now (s\<lparr>mValuePool := pool\<rparr>)))"

definition initObd2LiveFrame ::
  "int64 \<Rightarrow> VehiclePropConfig \<Rightarrow> VehiclePropertyStore \<Rightarrow> (callback_call list \<times> VehiclePropertyStore) option" where
  "initObd2LiveFrame now config s =
     map_option (\<lambda>(ni, nf). write_frame OBD2_LIVE_FRAME [] now (fillDefaultObd2Frame ni nf) s) (vendor_sensors config)"

text \<open>The clock is read for each of the three sample codes.\<close>

definition initObd2FreezeFrame ::
  "int64 \<Rightarrow> int64 \<Rightarrow> int64 \<Rightarrow> VehiclePropConfig \<Rightarrow> VehiclePropertyStore \<Rightarrow> (callback_call list \<times> VehiclePropertyStore) option" where
  "initObd2FreezeFrame now1 now2 now3 config s =
     map_option (\<lambda>(ni, nf).
       let sensors = fillDefaultObd2Frame ni nf;
           (c1, s1) = write_frame OBD2_FREEZE_FRAME ''P0070'' now1 sensors s;
           (c2, s2) = write_frame OBD2_FREEZE_FRAME ''P0102'' now2 sensors s1;
           (c3, s3) = write_frame OBD2_FREEZE_FRAME ''P0123'' now3 sensors s2
       in (c1 @ c2 @ c3, s3)) (vendor_sensors config)"

text \<open>The copies read only to see whether there are any are released at the end.\<close>

definition getObd2FreezeFrame :: "VehiclePropValue \<Rightarrow> VehiclePropertyStore \<Rightarrow> recyclable VhalResult \<times> VehiclePropertyStore" where
  "getObd2FreezeFrame request s =
     (if length (int64Values (pv_value request)) \<noteq> 1 then (Inl INVALID_ARG, s)
      else case readValuesForProperty OBD2_FREEZE_FRAME s of
             (Inl _, s1) \<Rightarrow> (Inl INTERNAL_ERROR, s1)
           | (Inr copies, s1) \<Rightarrow>
               if copies = [] then (Inl NOT_AVAILABLE, s1)
               else case readValue_token OBD2_FREEZE_FRAME 0 (int64Values (pv_value request) ! 0) s1 of
                      (Inl _, s2) \<Rightarrow> (Inl INVALID_ARG, drop_values copies s2)
                    | (Inr r, s2) \<Rightarrow> (Inr r, drop_values copies s2))"

definition getObd2DtcInfo :: "VehiclePropertyStore \<Rightarrow> recyclable VhalResult \<times> VehiclePropertyStore" where
  "getObd2DtcInfo s =
     (case readValuesForProperty OBD2_FREEZE_FRAME s of
        (Inl _, s1) \<Rightarrow> (Inl INTERNAL_ERROR, s1)
      | (Inr copies, s1) \<Rightarrow>
          let times = map (pv_timestamp \<circ> r_value) copies;
              (out, pool) = obtain_sized INT64_VEC (length times) (mValuePool s1);
              v = r_value out
          in (Inr (out\<lparr>r_value := v\<lparr>pv_prop := OBD2_FREEZE_FRAME_INFO, pv_value := (pv_value v)\<lparr>int64Values := times\<rparr>\<rparr>\<rparr>),
              drop_values copies (s1\<lparr>mValuePool := pool\<rparr>)))"

fun clear_frames :: "int64 list \<Rightarrow> VehiclePropertyStore \<Rightarrow> unit VhalResult \<times> VehiclePropertyStore" where
  "clear_frames [] s = (Inr (), s)"
| "clear_frames (t # ts) s =
     (case readValue_token OBD2_FREEZE_FRAME 0 t s of
        (Inl _, s1) \<Rightarrow> (Inl INVALID_ARG, s1)
      | (Inr r, s1) \<Rightarrow> clear_frames ts (drop_value r (removeValue (r_value r) s1)))"

definition clearObd2FreezeFrames :: "VehiclePropValue \<Rightarrow> VehiclePropertyStore \<Rightarrow> unit VhalResult \<times> VehiclePropertyStore" where
  "clearObd2FreezeFrames v s =
     (if int64Values (pv_value v) = [] then (Inr (), removeValuesForProperty OBD2_FREEZE_FRAME s)
      else clear_frames (int64Values (pv_value v)) s)"

definition isDiagnosticProperty :: "VehiclePropConfig \<Rightarrow> bool" where
  "isDiagnosticProperty config \<longleftrightarrow>
     pc_prop config \<in> {OBD2_LIVE_FRAME, OBD2_FREEZE_FRAME, OBD2_FREEZE_FRAME_CLEAR, OBD2_FREEZE_FRAME_INFO}"

section \<open>The bit mask\<close>

definition bm_ok :: "BitmaskInVector \<Rightarrow> bool" where
  "bm_ok b \<longleftrightarrow> length (mStorage b) = (mNumBits b + 7) div 8"

definition bm_bit :: "BitmaskInVector \<Rightarrow> nat \<Rightarrow> bool" where
  "bm_bit b i \<longleftrightarrow> bit (mStorage b ! (i div 8)) (i mod 8)"

lemma bm_ok_index: "bm_ok b \<Longrightarrow> i < mNumBits b \<Longrightarrow> i div 8 < length (mStorage b)"
  using div_le_mono [of "i + 8" "mNumBits b + 7" 8] by (simp add: bm_ok_def)

lemma bm_resize_ok: "bm_ok (bm_resize n)" "mNumBits (bm_resize n) = n"
  by (simp_all add: bm_ok_def bm_resize_def)

lemma bm_resize_bit: "i < n \<Longrightarrow> \<not> bm_bit (bm_resize n) i"
  using bm_ok_index [OF bm_resize_ok(1), of i n] by (simp add: bm_bit_def bm_resize_def)

lemma bm_get_bit: "i < mNumBits b \<Longrightarrow> bm_get i b = Inr (bm_bit b i)"
  by (simp add: bm_get_def bm_bit_def bit_iff_and_push_bit_not_eq_0)

lemma bm_set_bit:
  assumes "bm_ok b" and "i < mNumBits b"
  obtains b' where "bm_set i x b = Inr b'" and "bm_ok b'" and "mNumBits b' = mNumBits b"
    and "\<And>j. j < mNumBits b \<Longrightarrow> bm_bit b' j = (if j = i then x else bm_bit b j)"
proof -
  define b' where "b' = b\<lparr>mStorage := (mStorage b)[i div 8 := (if x then mStorage b ! (i div 8) OR push_bit (i mod 8) 1
      else mStorage b ! (i div 8) AND NOT (push_bit (i mod 8) 1))]\<rparr>"
  have "bm_bit b' j = (if j = i then x else bm_bit b j)" if j: "j < mNumBits b" for j
  proof (cases "j div 8 = i div 8")
    case True
    have "j mod 8 = i mod 8 \<longleftrightarrow> j = i" using True by (metis div_mult_mod_eq)
    then show ?thesis
      using True bm_ok_index [OF assms]
      by (auto simp: b'_def bm_bit_def bit_or_iff bit_and_iff bit_not_iff bit_exp_iff possible_bit_word)
  next
    case False
    then show ?thesis by (auto simp: b'_def bm_bit_def)
  qed
  moreover have "bm_set i x b = Inr b'" using assms(2) by (simp add: bm_set_def b'_def Let_def)
  moreover have "bm_ok b'" "mNumBits b' = mNumBits b" using assms(1) by (simp_all add: b'_def bm_ok_def)
  ultimately show ?thesis using that by blast
qed

section \<open>Sensor stores\<close>

datatype sensor_set = SetInt nat int32 | SetFloat nat f32

fun apply_set :: "sensor_set \<Rightarrow> Obd2SensorStore \<Rightarrow> Obd2SensorStore" where
  "apply_set (SetInt i x) s = snd (setIntegerSensor i x s)"
| "apply_set (SetFloat i x) s = snd (setFloatSensor i x s)"

text \<open>The last value given to each sensor, if any; what is out of range is ignored.\<close>

fun last_int :: "sensor_set list \<Rightarrow> nat \<Rightarrow> int32 option" where
  "last_int [] i = None"
| "last_int (SetInt j x # sets) i = (case last_int sets i of None \<Rightarrow> if j = i then Some x else None | Some y \<Rightarrow> Some y)"
| "last_int (_ # sets) i = last_int sets i"

fun last_float :: "sensor_set list \<Rightarrow> nat \<Rightarrow> f32 option" where
  "last_float [] i = None"
| "last_float (SetFloat j x # sets) i = (case last_float sets i of None \<Rightarrow> if j = i then Some x else None | Some y \<Rightarrow> Some y)"
| "last_float (_ # sets) i = last_float sets i"

definition sensors_ok :: "nat \<Rightarrow> nat \<Rightarrow> (nat \<Rightarrow> int32 option) \<Rightarrow> (nat \<Rightarrow> f32 option) \<Rightarrow> Obd2SensorStore \<Rightarrow> bool" where
  "sensors_ok ni nf li lf s \<longleftrightarrow>
     length (mIntegerSensors s) = ni \<and> length (mFloatSensors s) = nf \<and>
     bm_ok (mSensorsBitmask s) \<and> mNumBits (mSensorsBitmask s) = ni + nf \<and>
     (\<forall>i < ni. mIntegerSensors s ! i = (case li i of None \<Rightarrow> 0 | Some x \<Rightarrow> x) \<and> (bm_bit (mSensorsBitmask s) i \<longleftrightarrow> li i \<noteq> None)) \<and>
     (\<forall>i < nf. mFloatSensors s ! i = (case lf i of None \<Rightarrow> 0 | Some x \<Rightarrow> x) \<and> (bm_bit (mSensorsBitmask s) (ni + i) \<longleftrightarrow> lf i \<noteq> None))"

lemma new_sensors_ok:
  "sensors_ok (32 + ni) (71 + nf) (\<lambda>_. None) (\<lambda>_. None) (newObd2SensorStore ni nf)"
  by (simp add: sensors_ok_def newObd2SensorStore_def lastIntegerIndex_def lastFloatIndex_def bm_resize_ok bm_resize_bit Let_def
      nth_append replicate_append_same del: replicate_Suc)

lemma set_int_ok:
  assumes "sensors_ok ni nf li lf s"
  shows "sensors_ok ni nf (if i < ni then li(i \<mapsto> x) else li) lf (snd (setIntegerSensor i x s))"
proof (cases "i < ni")
  case True
  have ok: "bm_ok (mSensorsBitmask s)" "i < mNumBits (mSensorsBitmask s)" using assms True by (auto simp: sensors_ok_def)
  obtain b where b: "bm_set i True (mSensorsBitmask s) = Inr b" "bm_ok b" "mNumBits b = mNumBits (mSensorsBitmask s)"
    "\<And>j. j < mNumBits (mSensorsBitmask s) \<Longrightarrow> bm_bit b j = (if j = i then True else bm_bit (mSensorsBitmask s) j)"
    using bm_set_bit [OF ok, of True] by blast
  then show ?thesis
    using assms True by (auto simp: sensors_ok_def setIntegerSensor_def Let_def nth_list_update)
qed (use assms in \<open>simp add: sensors_ok_def setIntegerSensor_def\<close>)

lemma set_float_ok:
  assumes "sensors_ok ni nf li lf s"
  shows "sensors_ok ni nf li (if i < nf then lf(i \<mapsto> x) else lf) (snd (setFloatSensor i x s))"
proof (cases "i < nf")
  case True
  have ok: "bm_ok (mSensorsBitmask s)" "i + ni < mNumBits (mSensorsBitmask s)" using assms True by (auto simp: sensors_ok_def)
  obtain b where b: "bm_set (i + ni) True (mSensorsBitmask s) = Inr b" "bm_ok b" "mNumBits b = mNumBits (mSensorsBitmask s)"
    "\<And>j. j < mNumBits (mSensorsBitmask s) \<Longrightarrow> bm_bit b j = (if j = i + ni then True else bm_bit (mSensorsBitmask s) j)"
    using bm_set_bit [OF ok, of True] by blast
  then show ?thesis
    using assms True by (auto simp: sensors_ok_def setFloatSensor_def Let_def nth_list_update)
qed (use assms in \<open>simp add: sensors_ok_def setFloatSensor_def\<close>)

lemma sensors_ok_cong:
  assumes "sensors_ok ni nf li lf s" and "\<And>i. i < ni \<Longrightarrow> li i = li' i" and "\<And>i. i < nf \<Longrightarrow> lf i = lf' i"
  shows "sensors_ok ni nf li' lf' s"
  using assms by (simp add: sensors_ok_def)

lemma apply_sets_ok:
  "sensors_ok ni nf li lf s \<Longrightarrow> sensors_ok ni nf (li ++ last_int sets) (lf ++ last_float sets) (fold apply_set sets s)"
proof (induction sets arbitrary: li lf s)
  case (Cons a sets)
  show ?case
  proof (cases a)
    case (SetInt j x)
    have "sensors_ok ni nf (if j < ni then li(j \<mapsto> x) else li) lf (apply_set a s)" using set_int_ok [OF Cons.prems] by (simp add: SetInt)
    then have "sensors_ok ni nf ((if j < ni then li(j \<mapsto> x) else li) ++ last_int sets) (lf ++ last_float sets) (fold apply_set (a # sets) s)"
      using Cons.IH by simp
    then show ?thesis by (rule sensors_ok_cong) (auto simp: SetInt map_add_def split: option.split)
  next
    case (SetFloat j x)
    have "sensors_ok ni nf li (if j < nf then lf(j \<mapsto> x) else lf) (apply_set a s)" using set_float_ok [OF Cons.prems] by (simp add: SetFloat)
    then have "sensors_ok ni nf (li ++ last_int sets) ((if j < nf then lf(j \<mapsto> x) else lf) ++ last_float sets) (fold apply_set (a # sets) s)"
      using Cons.IH by simp
    then show ?thesis by (rule sensors_ok_cong) (auto simp: SetFloat map_add_def split: option.split)
  qed
qed (simp add: map_add_def sensors_ok_def)

section \<open>Freeze frames\<close>

lemma freeze_global [simp]: "isGlobalProp OBD2_FREEZE_FRAME"
  by (simp add: isGlobalProp_def getPropArea_def OBD2_FREEZE_FRAME_def VehicleArea_MASK_def AREA_GLOBAL_def)

text \<open>The record of freeze frames: each frame is found under its timestamp.\<close>

definition frames_ok :: "VehiclePropertyStore \<Rightarrow> bool" where
  "frames_ok s \<longleftrightarrow> (\<exists>rc. getRecordLocked s OBD2_FREEZE_FRAME = Some rc \<and> tokenFunction rc = Some pv_timestamp \<and>
     wf_alist (rec_values rc) \<and>
     (\<forall>rid r. map_of (rec_values rc) rid = Some r \<longrightarrow> rid = \<lparr>rid_area = 0, rid_token = pv_timestamp (r_value r)\<rparr> \<and>
        pv_prop (r_value r) = OBD2_FREEZE_FRAME))"

definition frame_times :: "VehiclePropertyStore \<Rightarrow> int64 set" where
  "frame_times s = {t. abs_store s (OBD2_FREEZE_FRAME, \<lparr>rid_area = 0, rid_token = t\<rparr>) \<noteq> None}"

lemma frames_ok_drop [simp]:
  "frames_ok (drop_value r s) = frames_ok s" "frames_ok (drop_values rs s) = frames_ok s" "frames_ok (s\<lparr>mValuePool := pool\<rparr>) = frames_ok s"
  by (simp_all add: frames_ok_def)

lemma frame_times_drop [simp]:
  "frame_times (drop_value r s) = frame_times s" "frame_times (drop_values rs s) = frame_times s"
  "frame_times (s\<lparr>mValuePool := pool\<rparr>) = frame_times s"
  by (simp_all add: frame_times_def)

lemma obtain_copies_append:
  "foldl (\<lambda>(rs, p) v. let (r, p') = obtain_copy v p in (rs @ [r], p')) (rs0, p) vs = (rs, p') \<Longrightarrow> map r_value rs = map r_value rs0 @ vs"
proof (induction vs arbitrary: rs0 p)
  case (Cons v vs)
  have "r_value (fst (obtain_copy v p)) = v" by (rule obtain_copy_same)
  with Cons show ?case by (cases "obtain_copy v p") fastforce
qed simp

lemma obtain_copies_same: "obtain_copies vs p = (rs, p') \<Longrightarrow> map r_value rs = vs"
  unfolding obtain_copies_def using obtain_copies_append by fastforce

lemma read_frames:
  assumes "frames_ok s"
  obtains copies pool where "readValuesForProperty OBD2_FREEZE_FRAME s = (Inr copies, s\<lparr>mValuePool := pool\<rparr>)"
    and "set (map (pv_timestamp \<circ> r_value) copies) = frame_times s"
proof -
  obtain rc where rec: "getRecordLocked s OBD2_FREEZE_FRAME = Some rc" "wf_alist (rec_values rc)"
    "\<And>rid r. map_of (rec_values rc) rid = Some r \<Longrightarrow> rid = \<lparr>rid_area = 0, rid_token = pv_timestamp (r_value r)\<rparr>"
    using assms unfolding frames_ok_def by blast
  obtain rs p where oc: "obtain_copies (map (r_value \<circ> snd) (rec_values rc)) (mValuePool s) = (rs, p)" by fastforce
  have "map (pv_timestamp \<circ> r_value) rs = map pv_timestamp (map r_value rs)" by simp
  also have "\<dots> = map pv_timestamp (map (r_value \<circ> snd) (rec_values rc))" by (simp only: obtain_copies_same [OF oc])
  finally have ts: "set (map (pv_timestamp \<circ> r_value) rs) = (pv_timestamp \<circ> r_value \<circ> snd) ` set (rec_values rc)" by auto
  have "t \<in> (pv_timestamp \<circ> r_value \<circ> snd) ` set (rec_values rc) \<longleftrightarrow> t \<in> frame_times s" for t
  proof
    assume "t \<in> (pv_timestamp \<circ> r_value \<circ> snd) ` set (rec_values rc)"
    then obtain rid r where e: "(rid, r) \<in> set (rec_values rc)" "t = pv_timestamp (r_value r)" by auto
    then have "map_of (rec_values rc) rid = Some r" using rec(2) by simp
    with rec(3) [OF this] e rec(1) show "t \<in> frame_times s" by (simp add: frame_times_def abs_store_def del: map_of_eq_Some_iff)
  next
    assume "t \<in> frame_times s"
    then obtain r where "map_of (rec_values rc) \<lparr>rid_area = 0, rid_token = t\<rparr> = Some r"
      using rec(1) by (auto simp: frame_times_def abs_store_def simp del: map_of_eq_Some_iff)
    with rec(3) [OF this] show "t \<in> (pv_timestamp \<circ> r_value \<circ> snd) ` set (rec_values rc)"
      by (force dest: map_of_SomeD simp del: map_of_eq_Some_iff)
  qed
  then have "set (map (pv_timestamp \<circ> r_value) rs) = frame_times s" unfolding ts by blast
  moreover have "readValuesForProperty OBD2_FREEZE_FRAME s = (Inr rs, s\<lparr>mValuePool := p\<rparr>)" by (simp add: readValuesForProperty_def rec(1) oc)
  ultimately show ?thesis using that by blast
qed

lemma read_frame:
  assumes "frames_ok s"
  shows "t \<in> frame_times s \<Longrightarrow> \<exists>r pool. readValue_token OBD2_FREEZE_FRAME 0 t s = (Inr r, s\<lparr>mValuePool := pool\<rparr>) \<and>
      pv_timestamp (r_value r) = t \<and> pv_prop (r_value r) = OBD2_FREEZE_FRAME"
    and "t \<notin> frame_times s \<Longrightarrow> readValue_token OBD2_FREEZE_FRAME 0 t s = (Inl NOT_AVAILABLE, s)"
proof -
  obtain rc where rec: "getRecordLocked s OBD2_FREEZE_FRAME = Some rc"
    "\<And>rid r. map_of (rec_values rc) rid = Some r \<Longrightarrow> rid = \<lparr>rid_area = 0, rid_token = pv_timestamp (r_value r)\<rparr> \<and>
      pv_prop (r_value r) = OBD2_FREEZE_FRAME"
    using assms unfolding frames_ok_def by blast
  have look: "t \<in> frame_times s \<longleftrightarrow> map_of (rec_values rc) \<lparr>rid_area = 0, rid_token = t\<rparr> \<noteq> None"
    by (simp add: frame_times_def abs_store_def rec(1))
  show "readValue_token OBD2_FREEZE_FRAME 0 t s = (Inl NOT_AVAILABLE, s)" if "t \<notin> frame_times s"
    using that look by (simp add: readValue_token_def readValueLocked_def rec(1))
  show "\<exists>r pool. readValue_token OBD2_FREEZE_FRAME 0 t s = (Inr r, s\<lparr>mValuePool := pool\<rparr>) \<and>
      pv_timestamp (r_value r) = t \<and> pv_prop (r_value r) = OBD2_FREEZE_FRAME" if "t \<in> frame_times s"
  proof -
    from that look obtain r where r: "map_of (rec_values rc) \<lparr>rid_area = 0, rid_token = t\<rparr> = Some r" by auto
    obtain c p where c: "obtain_copy (r_value r) (mValuePool s) = (c, p)" by fastforce
    then have "r_value c = r_value r" using obtain_copy_same [of "r_value r" "mValuePool s"] by simp
    moreover have "readValue_token OBD2_FREEZE_FRAME 0 t s = (Inr c, s\<lparr>mValuePool := p\<rparr>)"
      by (simp add: readValue_token_def readValueLocked_def rec(1) r c)
    ultimately show ?thesis using rec(2) [OF r] by (intro exI [of _ c] exI [of _ p]) simp
  qed
qed

lemma remove_frame:
  assumes "frames_ok s" and "pv_timestamp v = t" and "pv_prop v = OBD2_FREEZE_FRAME"
  shows "frames_ok (removeValue v s)" and "frame_times (removeValue v s) = frame_times s - {t}"
proof -
  obtain rc where rec: "getRecordLocked s OBD2_FREEZE_FRAME = Some rc" "tokenFunction rc = Some pv_timestamp"
    "wf_alist (rec_values rc)"
    "\<And>rid r. map_of (rec_values rc) rid = Some r \<Longrightarrow> rid = \<lparr>rid_area = 0, rid_token = pv_timestamp (r_value r)\<rparr> \<and>
      pv_prop (r_value r) = OBD2_FREEZE_FRAME"
    using assms(1) unfolding frames_ok_def by blast
  let ?rid = "\<lparr>rid_area = 0, rid_token = t\<rparr>"
  have rid: "getRecordIdLocked v rc = ?rid" using assms(2,3) by (simp add: getRecordIdLocked_def rec(2))
  have "frames_ok (removeValue v s) \<and> frame_times (removeValue v s) = frame_times s - {t}"
  proof (cases "map_of (rec_values rc) ?rid")
    case None
    then have "t \<notin> frame_times s" by (simp add: frame_times_def abs_store_def rec(1))
    with None assms(1) show ?thesis by (simp add: removeValue_def rec(1) rid assms(3))
  next
    case (Some r)
    let ?s = "put_record OBD2_FREEZE_FRAME (rc\<lparr>rec_values := AList.delete ?rid (rec_values rc)\<rparr>) s"
    have "removeValue v s = drop_value r ?s" by (simp add: removeValue_def rec(1) rid assms(3) Some)
    moreover have "frames_ok ?s"
      using rec(2-4) by (auto simp: frames_ok_def AList.delete_conv' restrict_map_def simp del: map_of_eq_Some_iff split: if_splits)
    moreover have "frame_times ?s = frame_times s - {t}" by (auto simp: frame_times_def abs_delete [OF rec(1)])
    ultimately show ?thesis by simp
  qed
  then show "frames_ok (removeValue v s)" "frame_times (removeValue v s) = frame_times s - {t}" by simp_all
qed

lemma clear_frames_spec:
  assumes "frames_ok s" and "clear_frames ts s = (res, s')"
  shows "frames_ok s' \<and> (res = Inr () \<longleftrightarrow> distinct ts \<and> set ts \<subseteq> frame_times s) \<and> (res = Inr () \<longrightarrow> frame_times s' = frame_times s - set ts)"
  using assms
proof (induction ts arbitrary: s)
  case (Cons t ts)
  show ?case
  proof (cases "t \<in> frame_times s")
    case True
    from read_frame(1) [OF Cons.prems(1) True] obtain r pool where r: "readValue_token OBD2_FREEZE_FRAME 0 t s = (Inr r, s\<lparr>mValuePool := pool\<rparr>)"
      "pv_timestamp (r_value r) = t" "pv_prop (r_value r) = OBD2_FREEZE_FRAME" by blast
    let ?s = "drop_value r (removeValue (r_value r) (s\<lparr>mValuePool := pool\<rparr>))"
    have ok: "frames_ok (s\<lparr>mValuePool := pool\<rparr>)" using Cons.prems(1) by simp
    have "frames_ok ?s" "frame_times ?s = frame_times s - {t}" using remove_frame [OF ok r(2,3)] by simp_all
    moreover have "clear_frames ts ?s = (res, s')" using Cons.prems(2) r(1) by simp
    ultimately show ?thesis using Cons.IH [of ?s] True by auto
  next
    case False
    then show ?thesis using Cons.prems read_frame(2) [OF Cons.prems(1) False] by auto
  qed
qed auto

lemma clear_all_frames:
  assumes "frames_ok s"
  shows "frames_ok (removeValuesForProperty OBD2_FREEZE_FRAME s)" and "frame_times (removeValuesForProperty OBD2_FREEZE_FRAME s) = {}"
  using assms by (auto simp: frames_ok_def removeValuesForProperty_def frame_times_def abs_store_def)

lemma register_frames:
  assumes "pc_prop config = OBD2_FREEZE_FRAME"
  shows "frames_ok (registerProperty config (Some pv_timestamp) s)" and "frame_times (registerProperty config (Some pv_timestamp) s) = {}"
  using assms by (auto simp: registerProperty_def frames_ok_def frame_times_def abs_store_def Let_def)

lemma frame_value:
  "\<exists>r pool'. getSensorProperty now dtc sensors pool = (r, pool') \<and> pv_timestamp (r_value r) = now"
  by (simp add: getSensorProperty_def Let_def split: prod.split)

lemma upto_drop_frames:
  "upto_drop s t \<Longrightarrow> frames_ok t = frames_ok s" "upto_drop s t \<Longrightarrow> frame_times t = frame_times s"
  unfolding upto_drop_def by (elim disjE exE; simp)+

lemma write_freeze_frame:
  assumes ok: "frames_ok s" and w: "write_frame OBD2_FREEZE_FRAME dtc now sensors s = (c, s')"
  shows "frames_ok s'" and "frame_times s' = insert now (frame_times s)"
proof -
  obtain r pool where r: "getSensorProperty now dtc sensors (mValuePool s) = (r, pool)" "pv_timestamp (r_value r) = now"
    using frame_value [of now dtc sensors "mValuePool s"] by blast
  define r' where "r' = r\<lparr>r_value := (r_value r)\<lparr>pv_prop := OBD2_FREEZE_FRAME\<rparr>\<rparr>"
  define s1 where "s1 = s\<lparr>mValuePool := pool\<rparr>"
  have ok1: "frames_ok s1" using ok by (simp add: s1_def)
  then obtain rc where rc: "getRecordLocked s1 OBD2_FREEZE_FRAME = Some rc" "tokenFunction rc = Some pv_timestamp" "wf_alist (rec_values rc)"
    "\<And>rid x. map_of (rec_values rc) rid = Some x \<Longrightarrow> rid = \<lparr>rid_area = 0, rid_token = pv_timestamp (r_value x)\<rparr> \<and>
      pv_prop (r_value x) = OBD2_FREEZE_FRAME"
    unfolding frames_ok_def by blast
  let ?v = "stamped r' False now"
  have v: "pv_prop ?v = OBD2_FREEZE_FRAME" "pv_timestamp ?v = now" using r(2) by (simp_all add: stamped_def r'_def)
  have rid: "getRecordIdLocked ?v rc = \<lparr>rid_area = 0, rid_token = now\<rparr>" using v by (simp add: getRecordIdLocked_def rc(2))
  have "write_allowed s1 ?v"
  proof (cases "map_of (rec_values rc) \<lparr>rid_area = 0, rid_token = now\<rparr>")
    case None
    then show ?thesis by (simp add: write_allowed_def v rc(1) rid abs_store_def)
  next
    case (Some x)
    from rc(4) [OF this] have "pv_timestamp (r_value x) = now" by simp
    with Some show ?thesis by (simp add: write_allowed_def v rc(1) rid abs_store_def)
  qed
  then obtain rc' x s2 where x: "getRecordLocked s1 (pv_prop ?v) = Some rc'"
    "r_value x = written_value s1 (pv_prop ?v, getRecordIdLocked ?v rc') True ?v"
    "writeValue r' True ON_VALUE_CHANGE False now s1 = (Inr (), change_events s1 ON_VALUE_CHANGE
       (value_changed (abs_store s1 (pv_prop ?v, getRecordIdLocked ?v rc')) (r_value x)) (r_value x), s2)"
    "upto_drop (put_record (pv_prop ?v) (rc'\<lparr>rec_values := AList.update (getRecordIdLocked ?v rc') x (rec_values rc')\<rparr>) s1) s2"
    by (rule writeValue_allowed)
  have rc': "rc' = rc" using x(1) rc(1) v(1) by simp
  have xv: "pv_prop (r_value x) = OBD2_FREEZE_FRAME" "pv_timestamp (r_value x) = now" using x(2) v by (simp_all add: written_value_def)
  let ?put = "put_record OBD2_FREEZE_FRAME (rc\<lparr>rec_values := AList.update \<lparr>rid_area = 0, rid_token = now\<rparr> x (rec_values rc)\<rparr>) s1"
  have up: "upto_drop ?put s2" using x(4) by (simp add: rc' v(1) rid)
  have "frames_ok ?put" using rc(2-4) xv by (auto simp: frames_ok_def update_conv' simp del: map_of_eq_Some_iff split: if_splits)
  moreover have "frame_times ?put = insert now (frame_times s1)" by (auto simp: frame_times_def abs_put [OF rc(1)])
  moreover have "s' = s2" using w [unfolded write_frame_def r(1) Let_def prod.case, folded r'_def s1_def, unfolded x(3)] by simp
  moreover have "frames_ok s2 = frames_ok ?put" "frame_times s2 = frame_times ?put"
    using upto_drop_frames [OF up] by blast+
  moreover have "frame_times s1 = frame_times s" by (simp add: s1_def)
  ultimately show "frames_ok s'" "frame_times s' = insert now (frame_times s)" by simp_all
qed

lemma init_freeze_frames:
  assumes "frames_ok s" and "initObd2FreezeFrame n1 n2 n3 config s = Some (c, s')"
  shows "frames_ok s' \<and> frame_times s' = {n1, n2, n3} \<union> frame_times s"
proof -
  from assms(2) obtain ni nf where v: "vendor_sensors config = Some (ni, nf)"
    by (cases "vendor_sensors config") (auto simp: initObd2FreezeFrame_def)
  let ?f = "fillDefaultObd2Frame ni nf"
  obtain c1 s1 where w1: "write_frame OBD2_FREEZE_FRAME ''P0070'' n1 ?f s = (c1, s1)" by fastforce
  obtain c2 s2 where w2: "write_frame OBD2_FREEZE_FRAME ''P0102'' n2 ?f s1 = (c2, s2)" by fastforce
  obtain c3 s3 where w3: "write_frame OBD2_FREEZE_FRAME ''P0123'' n3 ?f s2 = (c3, s3)" by fastforce
  have s3: "s3 = s'" using assms(2) by (simp add: initObd2FreezeFrame_def v w1 w2 w3)
  from write_freeze_frame [OF assms(1) w1] write_freeze_frame [OF _ w2] write_freeze_frame [OF _ w3] s3 show ?thesis by auto
qed

section \<open>Properties\<close>

text \<open>A frame says what was measured: after any sequence of settings, the frame holds for each sensor the last value it was given, or 0, and
  its bit is set exactly if it was given one; settings out of range change nothing and no access leaves the vectors.\<close>

theorem frame_faithful:
  assumes "s = fold apply_set sets (newObd2SensorStore ni nf)" and "fst (getSensorProperty now dtc s pool) = r"
  shows "(\<forall>i < 32 + ni. int32Values (pv_value (r_value r)) ! i = (case last_int sets i of None \<Rightarrow> 0 | Some x \<Rightarrow> x) \<and>
      (bit (byteValues (pv_value (r_value r)) ! (i div 8)) (i mod 8) \<longleftrightarrow> last_int sets i \<noteq> None)) \<and>
    (\<forall>i < 71 + nf. floatValues (pv_value (r_value r)) ! i = (case last_float sets i of None \<Rightarrow> 0 | Some x \<Rightarrow> x) \<and>
      (bit (byteValues (pv_value (r_value r)) ! ((32 + ni + i) div 8)) ((32 + ni + i) mod 8) \<longleftrightarrow> last_float sets i \<noteq> None)) \<and>
    length (int32Values (pv_value (r_value r))) = 32 + ni \<and> length (floatValues (pv_value (r_value r))) = 71 + nf \<and>
    length (byteValues (pv_value (r_value r))) = (32 + ni + (71 + nf) + 7) div 8"
proof -
  have "sensors_ok (32 + ni) (71 + nf) (last_int sets) (last_float sets) s"
    using apply_sets_ok [OF new_sensors_ok [of ni nf], of sets] assms(1) by (simp add: empty_map_add)
  moreover have "int32Values (pv_value (r_value r)) = mIntegerSensors s" "floatValues (pv_value (r_value r)) = mFloatSensors s"
    "byteValues (pv_value (r_value r)) = mStorage (mSensorsBitmask s)"
    using assms(2) by (auto simp: getSensorProperty_def Let_def split: prod.splits)
  ultimately show ?thesis unfolding sensors_ok_def bm_ok_def bm_bit_def by simp
qed

theorem frame_faithful_witness:
  "floatValues (pv_value (r_value (fst (getSensorProperty 5 [] (fold apply_set [SetFloat 9 0x42200000, SetInt 99 1] (newObd2SensorStore 0 0)) (mValuePool empty_store))))) ! 9 = 0x42200000 \<and>
   \<not> bit (byteValues (pv_value (r_value (fst (getSensorProperty 5 [] (fold apply_set [SetFloat 9 0x42200000, SetInt 99 1] (newObd2SensorStore 0 0)) (mValuePool empty_store))))) ! 0) 1"
  using conjunct1 [OF frame_faithful [OF refl refl, where sets = "[SetFloat 9 0x42200000, SetInt 99 1]" and ni = 0 and nf = 0 and now = 5
      and dtc = "[]" and pool = "mValuePool empty_store"], rule_format, of 1]
    conjunct1 [OF conjunct2 [OF frame_faithful [OF refl refl, where sets = "[SetFloat 9 0x42200000, SetInt 99 1]" and ni = 0 and nf = 0 and now = 5
      and dtc = "[]" and pool = "mValuePool empty_store"]], rule_format, of 9]
  by simp


definition freeze_config :: VehiclePropConfig where
  "freeze_config = odometer_config\<lparr>pc_prop := OBD2_FREEZE_FRAME, configArray := [0, 0]\<rparr>"


end
