(* ===== verification/FakeHardware.thy ===== *)
theory FakeHardware
  imports RecurrentTimer UserHal Obd2 DefaultVehicleHal "HOL-Library.Monad_Syntax"
begin

text \<open>
  \<^verbatim>\<open>FakeVehicleHardware.h\<close> and \<^verbatim>\<open>FakeVehicleHardware.cpp\<close>, state and subscriptions: the fake hardware keeps the values of all
  properties in a property store. A continuous property is refreshed by a callback of the recurrent timer, one callback for
  all properties with the same interval; changes of subscribed properties are passed to the registered callback.

  The clock \<^verbatim>\<open>elapsedRealtimeNano\<close> is a sequence of readings, of which the first \<open>ticks\<close> have been used; the calls of the
  property change callback are collected in \<open>emitted\<close>. \<open>None\<close> is undefined behaviour, as elsewhere.
\<close>

section \<open>State\<close>

record RefreshInfo =
  ri_eventMode :: EventMode
  ri_intervalInNanos :: int64

text \<open>A callback object and the interval it has captured. Every \<^verbatim>\<open>make_shared\<close> gives a new object.\<close>

type_synonym timer_action = "nat \<times> int64"

record ActionForInterval =
  propIdAreaIdsToRefresh :: "PropIdAreaId list"
  recurrentAction :: timer_action

record FakeVehicleHardware =
  mServerSidePropStore :: VehiclePropertyStore
  mFakeUserHal :: FakeUserHal
  mRecurrentTimer :: "timer_action timer_run"
  mOnPropertyChangeCallback :: bool
  mOnPropertySetErrorCallback :: bool
  mOnSupportedValueChangeCallback :: bool
  mRefreshInfoByPropIdAreaId :: "(PropIdAreaId \<times> RefreshInfo) list"
  mActionByIntervalInNanos :: "(int64 \<times> ActionForInterval) list"
  mSubOnChangePropIdAreaIds :: "PropIdAreaId list"
  mMinSupportedValueByPropIdAreaId :: "(PropIdAreaId \<times> RawPropValues) list"
  mMaxSupportedValueByPropIdAreaId :: "(PropIdAreaId \<times> RawPropValues) list"
  mSupportedValuesByPropIdAreaId :: "(PropIdAreaId \<times> RawPropValues list) list"
  hvacPowerDependentProps :: "int32 list"
  mPowerControllerServiceAddress :: string
  mAddExtraTestVendorConfigs :: bool
  next_action :: nat
  clock :: "nat \<Rightarrow> int64"
  ticks :: nat
  emitted :: "VehiclePropValue list list"

definition elapsedRealtimeNano :: "FakeVehicleHardware \<Rightarrow> int64 \<times> FakeVehicleHardware" where
  "elapsedRealtimeNano h = (clock h (ticks h), h\<lparr>ticks := Suc (ticks h)\<rparr>)"

section \<open>Registered callbacks\<close>

definition registerOnPropertyChangeEvent :: "FakeVehicleHardware \<Rightarrow> FakeVehicleHardware" where
  "registerOnPropertyChangeEvent h = h\<lparr>mOnPropertyChangeCallback := True\<rparr>"

definition registerOnPropertySetErrorEvent :: "FakeVehicleHardware \<Rightarrow> FakeVehicleHardware" where
  "registerOnPropertySetErrorEvent h = h\<lparr>mOnPropertySetErrorCallback := True\<rparr>"

definition fake_registerSupportedValueChangeCallback :: "FakeVehicleHardware \<Rightarrow> FakeVehicleHardware" where
  "fake_registerSupportedValueChangeCallback h = h\<lparr>mOnSupportedValueChangeCallback := True\<rparr>"

definition is_subscribed :: "FakeVehicleHardware \<Rightarrow> PropIdAreaId \<Rightarrow> bool" where
  "is_subscribed h k \<longleftrightarrow> map_of (mRefreshInfoByPropIdAreaId h) k \<noteq> None \<or> k \<in> set (mSubOnChangePropIdAreaIds h)"

definition onValuesChangeCallback :: "VehiclePropValue list \<Rightarrow> FakeVehicleHardware \<Rightarrow> FakeVehicleHardware" where
  "onValuesChangeCallback values h =
     (if \<not> mOnPropertyChangeCallback h then h
      else h\<lparr>emitted := emitted h @
        [filter (\<lambda>v. is_subscribed h \<lparr>pa_propId = pv_prop v, pa_areaId = pv_areaId v\<rparr>) values]\<rparr>)"

definition onValueChangeCallback :: "VehiclePropValue \<Rightarrow> FakeVehicleHardware \<Rightarrow> FakeVehicleHardware" where
  "onValueChangeCallback v h = onValuesChangeCallback [v] h"

text \<open>What the property store calls.\<close>

fun store_callback :: "callback_call \<Rightarrow> FakeVehicleHardware \<Rightarrow> FakeVehicleHardware" where
  "store_callback (OnValueChange v) h = onValueChangeCallback v h"
| "store_callback (OnValuesChange vs) h = onValuesChangeCallback vs h"

section \<open>The timer\<close>

text \<open>Calls to the timer act on its messages through the looper.\<close>

definition timer_register :: "int64 \<Rightarrow> timer_action \<Rightarrow> FakeVehicleHardware \<Rightarrow> FakeVehicleHardware option" where
  "timer_register interval action h =
     (let r = mRecurrentTimer h
      in map_option (\<lambda>(calls, t). h\<lparr>mRecurrentTimer := r\<lparr>tm := t, messages := fold queue_call calls (messages r)\<rparr>\<rparr>)
           (registerTimerCallback (uptime r) interval action (tm r)))"

definition timer_unregister :: "timer_action \<Rightarrow> FakeVehicleHardware \<Rightarrow> FakeVehicleHardware" where
  "timer_unregister action h =
     (let r = mRecurrentTimer h; (calls, t) = unregisterTimerCallback action (tm r)
      in h\<lparr>mRecurrentTimer := r\<lparr>tm := t, messages := fold queue_call calls (messages r)\<rparr>\<rparr>)"

text \<open>
  The integer part of \<open>1000000000. / rate\<close>, a quotient of doubles rounded to 53 bits; \<open>None\<close> where the conversion
  to \<^verbatim>\<open>int64_t\<close> is undefined.
\<close>

definition double_quotient :: "int \<Rightarrow> int \<Rightarrow> int" where
  "double_quotient n d =
     (let k = bit_len n - bit_len d;
          above = (if 0 \<le> k then d * 2 ^ nat k \<le> n else d \<le> n * 2 ^ nat (- k));
          e = (if above then k else k - 1) - 52
      in if 0 \<le> e then rne_div n (d * 2 ^ nat e) * 2 ^ nat e else rne_div (n * 2 ^ nat (- e)) d div 2 ^ nat (- e))"

definition rateToInterval :: "f32 \<Rightarrow> int64 option" where
  "rateToInterval rate =
     (if f32_is_nan rate \<or> f32_mag rate = 0 then None
      else if f32_is_inf rate then Some 0
      else let q = double_quotient (1000000000 * f32_den rate) (f32_num rate);
               i = (if f32_neg rate then - q else q)
           in if in_int64 i then Some (word_of_int i) else None)"

section \<open>Subscriptions\<close>

definition isVariableUpdateRateSupported :: "VehiclePropConfig \<Rightarrow> int32 \<Rightarrow> bool" where
  "isVariableUpdateRateSupported config areaId =
     (case find (\<lambda>ac. ac_areaId ac = areaId) (areaConfigs config) of
        None \<Rightarrow> False | Some ac \<Rightarrow> supportVariableUpdateRate ac)"

definition unregisterRefreshLocked :: "PropIdAreaId \<Rightarrow> FakeVehicleHardware \<Rightarrow> FakeVehicleHardware" where
  "unregisterRefreshLocked k h =
     (case map_of (mRefreshInfoByPropIdAreaId h) k of
        None \<Rightarrow> h
      | Some info \<Rightarrow>
          let interval = ri_intervalInNanos info;
              h' = (case map_of (mActionByIntervalInNanos h) interval of
                      None \<Rightarrow> h
                    | Some action \<Rightarrow>
                        let keys = removeAll k (propIdAreaIdsToRefresh action)
                        in if keys = []
                           then (timer_unregister (recurrentAction action) h)
                                  \<lparr>mActionByIntervalInNanos := AList.delete interval (mActionByIntervalInNanos h)\<rparr>
                           else h\<lparr>mActionByIntervalInNanos :=
                                  AList.update interval (action\<lparr>propIdAreaIdsToRefresh := keys\<rparr>) (mActionByIntervalInNanos h)\<rparr>)
          in h'\<lparr>mRefreshInfoByPropIdAreaId := AList.delete k (mRefreshInfoByPropIdAreaId h)\<rparr>)"

definition registerRefreshLocked ::
  "PropIdAreaId \<Rightarrow> EventMode \<Rightarrow> f32 \<Rightarrow> FakeVehicleHardware \<Rightarrow> FakeVehicleHardware option" where
  "registerRefreshLocked k eventMode rateHz h0 = do {
     let h1 = (if map_of (mRefreshInfoByPropIdAreaId h0) k \<noteq> None then unregisterRefreshLocked k h0 else h0);
     interval \<leftarrow> rateToInterval rateHz;
     let h = h1\<lparr>mRefreshInfoByPropIdAreaId := AList.update k \<lparr>ri_eventMode = eventMode, ri_intervalInNanos = interval\<rparr>
                  (mRefreshInfoByPropIdAreaId h1)\<rparr>;
     case map_of (mActionByIntervalInNanos h) interval of
       Some action \<Rightarrow>
         Some (h\<lparr>mActionByIntervalInNanos := AList.update interval
           (action\<lparr>propIdAreaIdsToRefresh := List.insert k (propIdAreaIdsToRefresh action)\<rparr>) (mActionByIntervalInNanos h)\<rparr>)
     | None \<Rightarrow>
         let action = (next_action h, interval)
         in timer_register interval action
              (h\<lparr>next_action := Suc (next_action h), mActionByIntervalInNanos := AList.update interval
                   \<lparr>propIdAreaIdsToRefresh = [k], recurrentAction = action\<rparr> (mActionByIntervalInNanos h)\<rparr>)
   }"

definition subscribePropIdAreaIdLocked ::
  "int32 \<Rightarrow> int32 \<Rightarrow> f32 \<Rightarrow> bool \<Rightarrow> VehiclePropConfig \<Rightarrow> FakeVehicleHardware \<Rightarrow> (StatusCode \<times> FakeVehicleHardware) option" where
  "subscribePropIdAreaIdLocked propId areaId rateHz vur config h =
     (let k = \<lparr>pa_propId = propId, pa_areaId = areaId\<rparr>
      in case changeMode config of
           STATIC \<Rightarrow> Some (OK, h)
         | ON_CHANGE \<Rightarrow> Some (OK, h\<lparr>mSubOnChangePropIdAreaIds := List.insert k (mSubOnChangePropIdAreaIds h)\<rparr>)
         | CONTINUOUS \<Rightarrow>
             if f32_eq rateHz 0 then Some (INVALID_ARG, h)
             else map_option (\<lambda>h'. (OK, h')) (registerRefreshLocked k
                    (if isVariableUpdateRateSupported config areaId \<and> vur then ON_VALUE_CHANGE else ALWAYS) rateHz h))"

fun subscribe_areas ::
  "SubscribeOptions \<Rightarrow> VehiclePropConfig \<Rightarrow> int32 list \<Rightarrow> FakeVehicleHardware \<Rightarrow> (StatusCode \<times> FakeVehicleHardware) option" where
  "subscribe_areas options config [] h = Some (OK, h)"
| "subscribe_areas options config (a # as) h = do {
     (status, h') \<leftarrow> subscribePropIdAreaIdLocked (so_propId options) a (so_sampleRate options) (so_enableVur options) config h;
     if status \<noteq> OK then Some (status, h') else subscribe_areas options config as h'
   }"

definition fake_subscribe :: "SubscribeOptions \<Rightarrow> FakeVehicleHardware \<Rightarrow> (StatusCode \<times> FakeVehicleHardware) option" where
  "fake_subscribe options h =
     (case getPropConfig (so_propId options) (mServerSidePropStore h) of
        Inl _ \<Rightarrow> Some (INVALID_ARG, h)
      | Inr config \<Rightarrow> subscribe_areas options config (so_areaIds options) h)"

definition fake_unsubscribe :: "int32 \<Rightarrow> int32 \<Rightarrow> FakeVehicleHardware \<Rightarrow> StatusCode \<times> FakeVehicleHardware" where
  "fake_unsubscribe propId areaId h =
     (let k = \<lparr>pa_propId = propId, pa_areaId = areaId\<rparr>;
          h' = (if map_of (mRefreshInfoByPropIdAreaId h) k \<noteq> None then unregisterRefreshLocked k h else h)
      in (OK, h'\<lparr>mSubOnChangePropIdAreaIds := removeAll k (mSubOnChangePropIdAreaIds h')\<rparr>))"

text \<open>
  \<^verbatim>\<open>mRefreshInfoByPropIdAreaId[propIdAreaId]\<close> makes an entry with zero for an event mode if there is none. The clock is read
  once for each value that is refreshed; readings left over are skipped.
\<close>

definition zero_refresh :: RefreshInfo where
  "zero_refresh = \<lparr>ri_eventMode = ON_VALUE_CHANGE, ri_intervalInNanos = 0\<rparr>"

definition refreshTimestampForInterval :: "int64 \<Rightarrow> FakeVehicleHardware \<Rightarrow> FakeVehicleHardware" where
  "refreshTimestampForInterval interval h =
     (case map_of (mActionByIntervalInNanos h) interval of
        None \<Rightarrow> h
      | Some action \<Rightarrow>
          let keys = propIdAreaIdsToRefresh action;
              infos = fold (touch zero_refresh) keys (mRefreshInfoByPropIdAreaId h);
              entries = map (\<lambda>k. (k, ri_eventMode (lookup_or zero_refresh k infos))) keys;
              (calls, s) = refreshTimestamps (\<lambda>i. clock h (ticks h + i)) entries (mServerSidePropStore h)
          in fold store_callback calls
               (h\<lparr>mRefreshInfoByPropIdAreaId := infos, mServerSidePropStore := s, ticks := ticks h + length keys\<rparr>))"


section \<open>Timers follow subscriptions\<close>

text \<open>
  Every refreshed key is in the action of its interval, every action serves exactly the keys with its interval, and the
  timer knows exactly the callbacks of the actions.
\<close>

abbreviation timer_callbacks :: "FakeVehicleHardware \<Rightarrow> timer_action \<Rightarrow> int32 option" where
  "timer_callbacks h \<equiv> map_of (mIdByCallback (tm (mRecurrentTimer h)))"

definition refresh_inv :: "FakeVehicleHardware \<Rightarrow> bool" where
  "refresh_inv h \<longleftrightarrow>
     wf_alist (mRefreshInfoByPropIdAreaId h) \<and> wf_alist (mActionByIntervalInNanos h) \<and>
     (\<forall>k info. map_of (mRefreshInfoByPropIdAreaId h) k = Some info \<longrightarrow>
        (\<exists>a. map_of (mActionByIntervalInNanos h) (ri_intervalInNanos info) = Some a \<and> k \<in> set (propIdAreaIdsToRefresh a))) \<and>
     (\<forall>i a. map_of (mActionByIntervalInNanos h) i = Some a \<longrightarrow>
        propIdAreaIdsToRefresh a \<noteq> [] \<and> distinct (propIdAreaIdsToRefresh a) \<and>
        (\<forall>k \<in> set (propIdAreaIdsToRefresh a). \<exists>info. map_of (mRefreshInfoByPropIdAreaId h) k = Some info \<and> ri_intervalInNanos info = i) \<and>
        snd (recurrentAction a) = i \<and> fst (recurrentAction a) < next_action h \<and> timer_callbacks h (recurrentAction a) \<noteq> None) \<and>
     (\<forall>cb. timer_callbacks h cb \<noteq> None \<longrightarrow> (\<exists>a. map_of (mActionByIntervalInNanos h) (snd cb) = Some a \<and> recurrentAction a = cb))"

lemma refresh_invD:
  assumes "refresh_inv h"
  shows "map_of (mRefreshInfoByPropIdAreaId h) k = Some info \<Longrightarrow>
      \<exists>a. map_of (mActionByIntervalInNanos h) (ri_intervalInNanos info) = Some a \<and> k \<in> set (propIdAreaIdsToRefresh a)"
    and "map_of (mActionByIntervalInNanos h) i = Some a \<Longrightarrow> k \<in> set (propIdAreaIdsToRefresh a) \<Longrightarrow>
      \<exists>info. map_of (mRefreshInfoByPropIdAreaId h) k = Some info \<and> ri_intervalInNanos info = i"
    and "map_of (mActionByIntervalInNanos h) i = Some a \<Longrightarrow> propIdAreaIdsToRefresh a \<noteq> [] \<and> distinct (propIdAreaIdsToRefresh a) \<and>
      snd (recurrentAction a) = i \<and> fst (recurrentAction a) < next_action h \<and> timer_callbacks h (recurrentAction a) \<noteq> None"
    and "timer_callbacks h cb \<noteq> None \<Longrightarrow> \<exists>a. map_of (mActionByIntervalInNanos h) (snd cb) = Some a \<and> recurrentAction a = cb"
  using assms unfolding refresh_inv_def by blast+

lemma refresh_invI:
  assumes "wf_alist (mRefreshInfoByPropIdAreaId h)" and "wf_alist (mActionByIntervalInNanos h)"
    and "\<And>k info. map_of (mRefreshInfoByPropIdAreaId h) k = Some info \<Longrightarrow>
      \<exists>a. map_of (mActionByIntervalInNanos h) (ri_intervalInNanos info) = Some a \<and> k \<in> set (propIdAreaIdsToRefresh a)"
    and "\<And>i a k. map_of (mActionByIntervalInNanos h) i = Some a \<Longrightarrow> k \<in> set (propIdAreaIdsToRefresh a) \<Longrightarrow>
      \<exists>info. map_of (mRefreshInfoByPropIdAreaId h) k = Some info \<and> ri_intervalInNanos info = i"
    and "\<And>i a. map_of (mActionByIntervalInNanos h) i = Some a \<Longrightarrow> propIdAreaIdsToRefresh a \<noteq> [] \<and> distinct (propIdAreaIdsToRefresh a) \<and>
      snd (recurrentAction a) = i \<and> fst (recurrentAction a) < next_action h \<and> timer_callbacks h (recurrentAction a) \<noteq> None"
    and "\<And>cb. timer_callbacks h cb \<noteq> None \<Longrightarrow> \<exists>a. map_of (mActionByIntervalInNanos h) (snd cb) = Some a \<and> recurrentAction a = cb"
  shows "refresh_inv h"
  using assms unfolding refresh_inv_def by blast

text \<open>The two calls to the timer.\<close>

lemma timer_register_effect:
  assumes "timer_register i cb h = Some h'" and "timer_inv (mRecurrentTimer h)" and "timer_callbacks h cb = None"
    and "0 < sint i" and "sint (mCallbackId (tm (mRecurrentTimer h))) < 2 ^ 31 - 1"
  obtains r where "h' = h\<lparr>mRecurrentTimer := r\<rparr>" and "timer_inv r" and "mCallbackId (tm r) = mCallbackId (tm (mRecurrentTimer h)) + 1"
    and "\<And>c. map_of (mIdByCallback (tm r)) c = None \<longleftrightarrow> c \<noteq> cb \<and> timer_callbacks h c = None"
proof -
  let ?r = "mRecurrentTimer h"
  obtain calls t where reg: "registerTimerCallback (uptime ?r) i cb (tm ?r) = Some (calls, t)"
    and h': "h' = h\<lparr>mRecurrentTimer := ?r\<lparr>tm := t, messages := fold queue_call calls (messages ?r)\<rparr>\<rparr>"
    using assms(1) by (auto simp: timer_register_def Let_def)
  have ok: "timer_maps_ok (tm ?r)" using assms(2) by (simp add: timer_inv_def)
  have inv: "timer_inv (?r\<lparr>tm := t, messages := fold queue_call calls (messages ?r)\<rparr>)"
    using timer_step_inv [OF timer_step.register [OF reg assms(4,5)] assms(2)] .
  from reg ok show thesis
  proof (cases rule: register_cases)
    case (fresh time)
    then show thesis by (intro that [OF h' inv]) (auto simp: update_conv')
  qed (use assms(3) in auto)
qed

lemma timer_unregister_effect:
  assumes "timer_inv (mRecurrentTimer h)"
  obtains r where "timer_unregister cb h = h\<lparr>mRecurrentTimer := r\<rparr>" and "timer_inv r"
    and "mCallbackId (tm r) = mCallbackId (tm (mRecurrentTimer h))"
    and "\<And>c. map_of (mIdByCallback (tm r)) c = None \<longleftrightarrow> c = cb \<or> timer_callbacks h c = None"
proof -
  let ?r = "mRecurrentTimer h"
  obtain calls t where un: "unregisterTimerCallback cb (tm ?r) = (calls, t)" by fastforce
  have ok: "timer_maps_ok (tm ?r)" using assms by (simp add: timer_inv_def)
  have inv: "timer_inv (?r\<lparr>tm := t, messages := fold queue_call calls (messages ?r)\<rparr>)"
    using timer_step_inv [OF timer_step.unregister [OF un] assms] .
  have h': "timer_unregister cb h = h\<lparr>mRecurrentTimer := ?r\<lparr>tm := t, messages := fold queue_call calls (messages ?r)\<rparr>\<rparr>"
    using un by (simp add: timer_unregister_def Let_def)
  from un ok show thesis
    by (cases rule: unregister_cases; intro that [OF h' inv]) (auto simp: AList.delete_conv')
qed

text \<open>What the subscription methods may change.\<close>

definition rest_of :: "FakeVehicleHardware \<Rightarrow> FakeVehicleHardware" where
  "rest_of h = h\<lparr>mRefreshInfoByPropIdAreaId := [], mActionByIntervalInNanos := [], next_action := 0,
     mRecurrentTimer := \<lparr>tm = newRecurrentTimer, messages = [], in_flight = None, uptime = 0\<rparr>\<rparr>"

lemma rest_of_simps [simp]:
  "rest_of (h\<lparr>mRefreshInfoByPropIdAreaId := infos\<rparr>) = rest_of h" "rest_of (h\<lparr>mActionByIntervalInNanos := acts\<rparr>) = rest_of h"
  "rest_of (h\<lparr>next_action := n\<rparr>) = rest_of h" "rest_of (h\<lparr>mRecurrentTimer := r\<rparr>) = rest_of h"
  by (simp_all add: rest_of_def)

lemma rest_of_fields:
  assumes "rest_of h' = rest_of h"
  shows "mServerSidePropStore h' = mServerSidePropStore h" and "mSubOnChangePropIdAreaIds h' = mSubOnChangePropIdAreaIds h"
    and "mOnPropertyChangeCallback h' = mOnPropertyChangeCallback h"
  using arg_cong [OF assms, of mServerSidePropStore] arg_cong [OF assms, of mSubOnChangePropIdAreaIds]
    arg_cong [OF assms, of mOnPropertyChangeCallback] by (simp_all add: rest_of_def)

text \<open>Two ways to remove a key from its action.\<close>

lemma remove_last_key:
  assumes inv: "refresh_inv h" and info: "map_of (mRefreshInfoByPropIdAreaId h) k = Some info"
    and a: "map_of (mActionByIntervalInNanos h) (ri_intervalInNanos info) = Some a" "set (propIdAreaIdsToRefresh a) = {k}"
    and r: "\<And>c. map_of (mIdByCallback (tm r)) c = None \<longleftrightarrow> c = recurrentAction a \<or> timer_callbacks h c = None"
    and h': "h' = h\<lparr>mRecurrentTimer := r, mActionByIntervalInNanos := AList.delete (ri_intervalInNanos info) (mActionByIntervalInNanos h),
      mRefreshInfoByPropIdAreaId := AList.delete k (mRefreshInfoByPropIdAreaId h)\<rparr>"
  shows "refresh_inv h'"
proof (rule refresh_invI)
  let ?i = "ri_intervalInNanos info"
  have infos: "map_of (mRefreshInfoByPropIdAreaId h') = (map_of (mRefreshInfoByPropIdAreaId h))(k := None)"
    and acts: "map_of (mActionByIntervalInNanos h') = (map_of (mActionByIntervalInNanos h))(?i := None)"
    by (simp_all add: h' AList.delete_conv)
  show "\<exists>a. map_of (mActionByIntervalInNanos h') (ri_intervalInNanos info') = Some a \<and> k' \<in> set (propIdAreaIdsToRefresh a)"
    if "map_of (mRefreshInfoByPropIdAreaId h') k' = Some info'" for k' info'
  proof -
    have k': "k' \<noteq> k" "map_of (mRefreshInfoByPropIdAreaId h) k' = Some info'" using that by (auto simp: infos split: if_splits)
    obtain b where b: "map_of (mActionByIntervalInNanos h) (ri_intervalInNanos info') = Some b" "k' \<in> set (propIdAreaIdsToRefresh b)"
      using refresh_invD(1) [OF inv k'(2)] by blast
    have "ri_intervalInNanos info' \<noteq> ?i" using a b k'(1) by (metis option.inject singletonD)
    with b show ?thesis by (simp add: acts)
  qed
  show "\<exists>info. map_of (mRefreshInfoByPropIdAreaId h') k' = Some info \<and> ri_intervalInNanos info = j"
    if "map_of (mActionByIntervalInNanos h') j = Some b" "k' \<in> set (propIdAreaIdsToRefresh b)" for j b k'
    using that refresh_invD(2) [OF inv, of j b k'] info unfolding infos acts by (auto split: if_splits)
  show "propIdAreaIdsToRefresh b \<noteq> [] \<and> distinct (propIdAreaIdsToRefresh b) \<and> snd (recurrentAction b) = j \<and>
      fst (recurrentAction b) < next_action h' \<and> timer_callbacks h' (recurrentAction b) \<noteq> None"
    if "map_of (mActionByIntervalInNanos h') j = Some b" for j b
    using that refresh_invD(3) [OF inv, of j b] refresh_invD(3) [OF inv a(1)] r [of "recurrentAction b"] unfolding acts
    by (auto simp: h' split: if_splits)
  show "\<exists>b. map_of (mActionByIntervalInNanos h') (snd cb) = Some b \<and> recurrentAction b = cb" if "timer_callbacks h' cb \<noteq> None" for cb
    using that refresh_invD(4) [OF inv, of cb] r [of cb] a(1) unfolding acts by (auto simp: h')
qed (use inv in \<open>simp_all add: h' refresh_inv_def\<close>)

lemma remove_one_key:
  assumes inv: "refresh_inv h" and info: "map_of (mRefreshInfoByPropIdAreaId h) k = Some info"
    and a: "map_of (mActionByIntervalInNanos h) (ri_intervalInNanos info) = Some a" "removeAll k (propIdAreaIdsToRefresh a) \<noteq> []"
    and h': "h' = h\<lparr>mActionByIntervalInNanos := AList.update (ri_intervalInNanos info)
        (a\<lparr>propIdAreaIdsToRefresh := removeAll k (propIdAreaIdsToRefresh a)\<rparr>) (mActionByIntervalInNanos h),
      mRefreshInfoByPropIdAreaId := AList.delete k (mRefreshInfoByPropIdAreaId h)\<rparr>"
  shows "refresh_inv h'"
proof (rule refresh_invI)
  let ?i = "ri_intervalInNanos info"
  have infos: "map_of (mRefreshInfoByPropIdAreaId h') = (map_of (mRefreshInfoByPropIdAreaId h))(k := None)"
    and acts: "map_of (mActionByIntervalInNanos h') = (map_of (mActionByIntervalInNanos h))
      (?i \<mapsto> a\<lparr>propIdAreaIdsToRefresh := removeAll k (propIdAreaIdsToRefresh a)\<rparr>)"
    and timer: "timer_callbacks h' = timer_callbacks h" "next_action h' = next_action h"
    by (simp_all add: h' AList.delete_conv update_conv)
  show "\<exists>a. map_of (mActionByIntervalInNanos h') (ri_intervalInNanos info') = Some a \<and> k' \<in> set (propIdAreaIdsToRefresh a)"
    if "map_of (mRefreshInfoByPropIdAreaId h') k' = Some info'" for k' info'
    using that refresh_invD(1) [OF inv, of k' info'] a unfolding infos acts by (auto split: if_splits)
  show "\<exists>info. map_of (mRefreshInfoByPropIdAreaId h') k' = Some info \<and> ri_intervalInNanos info = j"
    if "map_of (mActionByIntervalInNanos h') j = Some b" "k' \<in> set (propIdAreaIdsToRefresh b)" for j b k'
    using that refresh_invD(2) [OF inv, of j b k'] refresh_invD(2) [OF inv a(1), of k'] info unfolding infos acts
    by (auto split: if_splits)
  show "propIdAreaIdsToRefresh b \<noteq> [] \<and> distinct (propIdAreaIdsToRefresh b) \<and> snd (recurrentAction b) = j \<and>
      fst (recurrentAction b) < next_action h' \<and> timer_callbacks h' (recurrentAction b) \<noteq> None"
    if "map_of (mActionByIntervalInNanos h') j = Some b" for j b
    using that refresh_invD(3) [OF inv, of j b] refresh_invD(3) [OF inv a(1)] a(2) unfolding acts timer
    by (auto simp: distinct_removeAll split: if_splits)
  show "\<exists>b. map_of (mActionByIntervalInNanos h') (snd cb) = Some b \<and> recurrentAction b = cb" if "timer_callbacks h' cb \<noteq> None" for cb
    using that refresh_invD(4) [OF inv, of cb] a(1) unfolding acts timer by auto
qed (use inv in \<open>simp_all add: h' refresh_inv_def\<close>)

definition unregistered :: "PropIdAreaId \<Rightarrow> FakeVehicleHardware \<Rightarrow> FakeVehicleHardware \<Rightarrow> bool" where
  "unregistered k h h' \<longleftrightarrow> refresh_inv h' \<and> timer_inv (mRecurrentTimer h') \<and> rest_of h' = rest_of h \<and>
     map_of (mRefreshInfoByPropIdAreaId h') = (map_of (mRefreshInfoByPropIdAreaId h))(k := None) \<and>
     mCallbackId (tm (mRecurrentTimer h')) = mCallbackId (tm (mRecurrentTimer h))"

lemma unregisterRefresh_effect:
  assumes inv: "refresh_inv h" and t: "timer_inv (mRecurrentTimer h)"
  shows "unregistered k h (unregisterRefreshLocked k h)"
proof (cases "map_of (mRefreshInfoByPropIdAreaId h) k")
  case None
  then show ?thesis using inv t by (auto simp: unregistered_def unregisterRefreshLocked_def fun_eq_iff)
next
  case (Some info)
  obtain a where a: "map_of (mActionByIntervalInNanos h) (ri_intervalInNanos info) = Some a" "k \<in> set (propIdAreaIdsToRefresh a)"
    using refresh_invD(1) [OF inv Some] by blast
  show ?thesis
  proof (cases "removeAll k (propIdAreaIdsToRefresh a) = []")
    case True
    have sole: "set (propIdAreaIdsToRefresh a) = {k}" using arg_cong [OF True, of set] a(2) by auto
    obtain r where r: "timer_unregister (recurrentAction a) h = h\<lparr>mRecurrentTimer := r\<rparr>" "timer_inv r"
      "mCallbackId (tm r) = mCallbackId (tm (mRecurrentTimer h))"
      "\<And>c. map_of (mIdByCallback (tm r)) c = None \<longleftrightarrow> c = recurrentAction a \<or> timer_callbacks h c = None"
      by (rule timer_unregister_effect [OF t, where cb = "recurrentAction a"]) blast
    define h' where "h' = h\<lparr>mRecurrentTimer := r, mActionByIntervalInNanos := AList.delete (ri_intervalInNanos info) (mActionByIntervalInNanos h),
      mRefreshInfoByPropIdAreaId := AList.delete k (mRefreshInfoByPropIdAreaId h)\<rparr>"
    have eq: "unregisterRefreshLocked k h = h'"
      using Some a True r(1) by (simp add: unregisterRefreshLocked_def Let_def h'_def)
    have "rest_of h' = rest_of h" unfolding h'_def by simp
    moreover have "map_of (mRefreshInfoByPropIdAreaId h') = (map_of (mRefreshInfoByPropIdAreaId h))(k := None)"
      "mRecurrentTimer h' = r" by (simp_all add: h'_def AList.delete_conv)
    ultimately show ?thesis unfolding eq unregistered_def using remove_last_key [OF inv Some a(1) sole r(4) h'_def] r(2,3) by simp
  next
    case False
    define h' where "h' = h\<lparr>mActionByIntervalInNanos := AList.update (ri_intervalInNanos info)
        (a\<lparr>propIdAreaIdsToRefresh := removeAll k (propIdAreaIdsToRefresh a)\<rparr>) (mActionByIntervalInNanos h),
      mRefreshInfoByPropIdAreaId := AList.delete k (mRefreshInfoByPropIdAreaId h)\<rparr>"
    have eq: "unregisterRefreshLocked k h = h'"
      using Some a False by (simp add: unregisterRefreshLocked_def Let_def h'_def)
    have "rest_of h' = rest_of h" unfolding h'_def by simp
    moreover have "map_of (mRefreshInfoByPropIdAreaId h') = (map_of (mRefreshInfoByPropIdAreaId h))(k := None)"
      "mRecurrentTimer h' = mRecurrentTimer h" by (simp_all add: h'_def AList.delete_conv)
    ultimately show ?thesis unfolding eq unregistered_def using remove_one_key [OF inv Some a(1) False h'_def] t by simp
  qed
qed

text \<open>Adding a key to an action that is there, and to a new one.\<close>

lemma add_to_action:
  assumes inv: "refresh_inv h" and new: "map_of (mRefreshInfoByPropIdAreaId h) k = None"
    and a: "map_of (mActionByIntervalInNanos h) (ri_intervalInNanos info) = Some a"
    and h': "h' = h\<lparr>mRefreshInfoByPropIdAreaId := AList.update k info (mRefreshInfoByPropIdAreaId h),
      mActionByIntervalInNanos := AList.update (ri_intervalInNanos info)
        (a\<lparr>propIdAreaIdsToRefresh := List.insert k (propIdAreaIdsToRefresh a)\<rparr>) (mActionByIntervalInNanos h)\<rparr>"
  shows "refresh_inv h'"
proof (rule refresh_invI)
  let ?i = "ri_intervalInNanos info"
  have infos: "map_of (mRefreshInfoByPropIdAreaId h') = (map_of (mRefreshInfoByPropIdAreaId h))(k \<mapsto> info)"
    and acts: "map_of (mActionByIntervalInNanos h') = (map_of (mActionByIntervalInNanos h))
      (?i \<mapsto> a\<lparr>propIdAreaIdsToRefresh := List.insert k (propIdAreaIdsToRefresh a)\<rparr>)"
    and timer: "timer_callbacks h' = timer_callbacks h" "next_action h' = next_action h"
    by (simp_all add: h' update_conv)
  show "\<exists>a. map_of (mActionByIntervalInNanos h') (ri_intervalInNanos info') = Some a \<and> k' \<in> set (propIdAreaIdsToRefresh a)"
    if "map_of (mRefreshInfoByPropIdAreaId h') k' = Some info'" for k' info'
    using that refresh_invD(1) [OF inv, of k' info'] a unfolding infos acts by (auto split: if_splits)
  show "\<exists>info. map_of (mRefreshInfoByPropIdAreaId h') k' = Some info \<and> ri_intervalInNanos info = j"
    if "map_of (mActionByIntervalInNanos h') j = Some b" "k' \<in> set (propIdAreaIdsToRefresh b)" for j b k'
    using that refresh_invD(2) [OF inv, of j b k'] refresh_invD(2) [OF inv a, of k'] new unfolding infos acts
    by (auto split: if_splits)
  show "propIdAreaIdsToRefresh b \<noteq> [] \<and> distinct (propIdAreaIdsToRefresh b) \<and> snd (recurrentAction b) = j \<and>
      fst (recurrentAction b) < next_action h' \<and> timer_callbacks h' (recurrentAction b) \<noteq> None"
    if "map_of (mActionByIntervalInNanos h') j = Some b" for j b
    using that refresh_invD(3) [OF inv, of j b] refresh_invD(3) [OF inv a] unfolding acts timer
    by (auto split: if_splits simp: List.insert_def)
  show "\<exists>b. map_of (mActionByIntervalInNanos h') (snd cb) = Some b \<and> recurrentAction b = cb" if "timer_callbacks h' cb \<noteq> None" for cb
    using that refresh_invD(4) [OF inv, of cb] a unfolding acts timer by auto
qed (use inv in \<open>simp_all add: h' refresh_inv_def\<close>)

lemma add_new_action:
  assumes inv: "refresh_inv h" and new: "map_of (mRefreshInfoByPropIdAreaId h) k = None"
    and free: "map_of (mActionByIntervalInNanos h) (ri_intervalInNanos info) = None"
    and r: "\<And>c. map_of (mIdByCallback (tm r)) c = None \<longleftrightarrow> c \<noteq> (next_action h, ri_intervalInNanos info) \<and> timer_callbacks h c = None"
    and h': "h' = h\<lparr>mRefreshInfoByPropIdAreaId := AList.update k info (mRefreshInfoByPropIdAreaId h),
      next_action := Suc (next_action h), mActionByIntervalInNanos := AList.update (ri_intervalInNanos info)
        \<lparr>propIdAreaIdsToRefresh = [k], recurrentAction = (next_action h, ri_intervalInNanos info)\<rparr> (mActionByIntervalInNanos h),
      mRecurrentTimer := r\<rparr>"
  shows "refresh_inv h'"
proof (rule refresh_invI)
  let ?i = "ri_intervalInNanos info"
  have infos: "map_of (mRefreshInfoByPropIdAreaId h') = (map_of (mRefreshInfoByPropIdAreaId h))(k \<mapsto> info)"
    and acts: "map_of (mActionByIntervalInNanos h') = (map_of (mActionByIntervalInNanos h))
      (?i \<mapsto> \<lparr>propIdAreaIdsToRefresh = [k], recurrentAction = (next_action h, ?i)\<rparr>)"
    and timer: "mRecurrentTimer h' = r" "next_action h' = Suc (next_action h)"
    by (simp_all add: h' update_conv)
  show "\<exists>a. map_of (mActionByIntervalInNanos h') (ri_intervalInNanos info') = Some a \<and> k' \<in> set (propIdAreaIdsToRefresh a)"
    if "map_of (mRefreshInfoByPropIdAreaId h') k' = Some info'" for k' info'
    using that refresh_invD(1) [OF inv, of k' info'] free unfolding infos acts by (auto split: if_splits)
  show "\<exists>info. map_of (mRefreshInfoByPropIdAreaId h') k' = Some info \<and> ri_intervalInNanos info = j"
    if "map_of (mActionByIntervalInNanos h') j = Some b" "k' \<in> set (propIdAreaIdsToRefresh b)" for j b k'
    using that refresh_invD(2) [OF inv, of j b k'] new unfolding infos acts by (auto split: if_splits)
  show "propIdAreaIdsToRefresh b \<noteq> [] \<and> distinct (propIdAreaIdsToRefresh b) \<and> snd (recurrentAction b) = j \<and>
      fst (recurrentAction b) < next_action h' \<and> timer_callbacks h' (recurrentAction b) \<noteq> None"
    if "map_of (mActionByIntervalInNanos h') j = Some b" for j b
    using that refresh_invD(3) [OF inv, of j b] r [of "recurrentAction b"] unfolding acts timer by (auto split: if_splits)
  show "\<exists>b. map_of (mActionByIntervalInNanos h') (snd cb) = Some b \<and> recurrentAction b = cb" if "timer_callbacks h' cb \<noteq> None" for cb
    using that refresh_invD(4) [OF inv, of cb] r [of cb] free unfolding acts timer by (cases "cb = (next_action h, ?i)") auto
qed (use inv in \<open>simp_all add: h' refresh_inv_def\<close>)

definition rate_ok :: "f32 \<Rightarrow> bool" where
  "rate_ok rate \<longleftrightarrow> (case rateToInterval rate of None \<Rightarrow> True | Some i \<Rightarrow> 0 < sint i)"

abbreviation timer_ids_left :: "nat \<Rightarrow> FakeVehicleHardware \<Rightarrow> bool" where
  "timer_ids_left n h \<equiv> sint (mCallbackId (tm (mRecurrentTimer h))) + int n < 2 ^ 31"

lemma registerRefresh_effect:
  assumes reg: "registerRefreshLocked k mode rate h = Some h'" and inv: "refresh_inv h" and t: "timer_inv (mRecurrentTimer h)"
    and rate: "rate_ok rate" and left: "timer_ids_left (Suc n) h"
  obtains i where "rateToInterval rate = Some i" and "refresh_inv h'" and "timer_inv (mRecurrentTimer h')" and "rest_of h' = rest_of h"
    and "map_of (mRefreshInfoByPropIdAreaId h') = (map_of (mRefreshInfoByPropIdAreaId h))(k \<mapsto> \<lparr>ri_eventMode = mode, ri_intervalInNanos = i\<rparr>)"
    and "timer_ids_left n h'"
proof -
  define h1 where "h1 = (if map_of (mRefreshInfoByPropIdAreaId h) k \<noteq> None then unregisterRefreshLocked k h else h)"
  note reg1 = reg [unfolded registerRefreshLocked_def Let_def, folded h1_def]
  have "unregistered k h h1"
    using unregisterRefresh_effect [OF inv t, of k] inv t
    by (auto simp: h1_def unregistered_def fun_eq_iff)
  then have inv1: "refresh_inv h1" and t1: "timer_inv (mRecurrentTimer h1)" and only: "rest_of h1 = rest_of h"
    and infos: "map_of (mRefreshInfoByPropIdAreaId h1) = (map_of (mRefreshInfoByPropIdAreaId h))(k := None)"
    and id1: "mCallbackId (tm (mRecurrentTimer h1)) = mCallbackId (tm (mRecurrentTimer h))"
    by (simp_all add: unregistered_def)
  obtain i where i: "rateToInterval rate = Some i"
    using reg by (cases "rateToInterval rate") (auto simp: registerRefreshLocked_def Let_def)
  have pos: "0 < sint i" using rate i by (simp add: rate_ok_def)
  define info where "info = \<lparr>ri_eventMode = mode, ri_intervalInNanos = i\<rparr>"
  have new: "map_of (mRefreshInfoByPropIdAreaId h1) k = None" by (simp add: infos)
  show thesis
  proof (cases "map_of (mActionByIntervalInNanos h1) i")
    case (Some a)
    have h': "h' = h1\<lparr>mRefreshInfoByPropIdAreaId := AList.update k info (mRefreshInfoByPropIdAreaId h1),
        mActionByIntervalInNanos := AList.update (ri_intervalInNanos info)
          (a\<lparr>propIdAreaIdsToRefresh := List.insert k (propIdAreaIdsToRefresh a)\<rparr>) (mActionByIntervalInNanos h1)\<rparr>"
      using reg1 i Some by (simp add: info_def)
    have "refresh_inv h'" by (rule add_to_action [OF inv1 new _ h']) (simp add: info_def Some)
    moreover have "rest_of h' = rest_of h" unfolding h' by (simp add: only)
    moreover have "map_of (mRefreshInfoByPropIdAreaId h') = (map_of (mRefreshInfoByPropIdAreaId h))(k \<mapsto> info)"
      "mRecurrentTimer h' = mRecurrentTimer h1" by (simp_all add: h' update_conv infos)
    ultimately show thesis using that [OF i] t1 left id1 by (simp add: info_def)
  next
    case None
    define h2 where "h2 = h1\<lparr>mRefreshInfoByPropIdAreaId := AList.update k info (mRefreshInfoByPropIdAreaId h1),
      next_action := Suc (next_action h1), mActionByIntervalInNanos := AList.update (ri_intervalInNanos info)
        \<lparr>propIdAreaIdsToRefresh = [k], recurrentAction = (next_action h1, ri_intervalInNanos info)\<rparr> (mActionByIntervalInNanos h1)\<rparr>"
    have tr: "timer_register i (next_action h1, i) h2 = Some h'"
      using reg1 i None by (simp add: info_def h2_def)
    have "timer_callbacks h1 (next_action h1, i) = None"
      using refresh_invD(4) [OF inv1, of "(next_action h1, i)"] None by fastforce
    then obtain r where r: "h' = h2\<lparr>mRecurrentTimer := r\<rparr>" "timer_inv r" "mCallbackId (tm r) = mCallbackId (tm (mRecurrentTimer h1)) + 1"
      "\<And>c. map_of (mIdByCallback (tm r)) c = None \<longleftrightarrow> c \<noteq> (next_action h1, i) \<and> timer_callbacks h1 c = None"
      using timer_register_effect [OF tr] t1 pos left id1 by (auto simp: h2_def)
    have "refresh_inv h'"
      by (rule add_new_action [OF inv1 new, of info r]) (use None r in \<open>simp_all add: info_def h2_def\<close>)
    moreover have "rest_of h' = rest_of h" unfolding r(1) h2_def by (simp add: only)
    moreover have "map_of (mRefreshInfoByPropIdAreaId h') = (map_of (mRefreshInfoByPropIdAreaId h))(k \<mapsto> info)"
      "mRecurrentTimer h' = r" by (simp_all add: r(1) h2_def update_conv infos)
    moreover have "sint (mCallbackId (tm r)) = sint (mCallbackId (tm (mRecurrentTimer h))) + 1"
      using r(3) id1 left sint_add_1 by simp
    ultimately show thesis using that [OF i] r(2) left by (simp add: info_def)
  qed
qed

definition subs_ok :: "FakeVehicleHardware \<Rightarrow> bool" where
  "subs_ok h \<longleftrightarrow> refresh_inv h \<and> timer_inv (mRecurrentTimer h)"

lemma refresh_inv_cong:
  assumes "mRefreshInfoByPropIdAreaId h' = mRefreshInfoByPropIdAreaId h" and "mActionByIntervalInNanos h' = mActionByIntervalInNanos h"
    and "mIdByCallback (tm (mRecurrentTimer h')) = mIdByCallback (tm (mRecurrentTimer h))" and "next_action h' = next_action h"
  shows "refresh_inv h' = refresh_inv h"
  unfolding refresh_inv_def assms ..

lemma subscribe_one_ok:
  assumes "subscribePropIdAreaIdLocked p a rate vur config h = Some (st, h')" and "subs_ok h" and "rate_ok rate" and "timer_ids_left (Suc n) h"
  shows "subs_ok h'" and "timer_ids_left n h'"
proof -
  have "subs_ok h' \<and> timer_ids_left n h'"
  proof (cases "changeMode config")
    case ON_CHANGE
    then obtain xs where "h' = h\<lparr>mSubOnChangePropIdAreaIds := xs\<rparr>" using assms(1) by (auto simp: subscribePropIdAreaIdLocked_def)
    then show ?thesis using assms(2,4) refresh_inv_cong [of h' h] by (simp add: subs_ok_def)
  next
    case CONTINUOUS
    show ?thesis
    proof (cases "f32_eq rate 0")
      case False
      with CONTINUOUS assms(1) obtain m where "registerRefreshLocked \<lparr>pa_propId = p, pa_areaId = a\<rparr> m rate h = Some h'"
        by (auto simp: subscribePropIdAreaIdLocked_def Let_def)
      then show ?thesis using assms(2-4) by (auto simp: subs_ok_def elim: registerRefresh_effect)
    qed (use CONTINUOUS assms in \<open>auto simp: subscribePropIdAreaIdLocked_def Let_def\<close>)
  qed (use assms in \<open>auto simp: subscribePropIdAreaIdLocked_def Let_def\<close>)
  then show "subs_ok h'" and "timer_ids_left n h'" by simp_all
qed

lemma subscribe_areas_ok:
  "subscribe_areas options config as h = Some (st, h') \<Longrightarrow> subs_ok h \<Longrightarrow> rate_ok (so_sampleRate options) \<Longrightarrow>
     timer_ids_left (length as) h \<Longrightarrow> subs_ok h'"
proof (induction as arbitrary: h)
  case (Cons a as)
  from Cons.prems(1) obtain st1 h1 where one: "subscribePropIdAreaIdLocked (so_propId options) a (so_sampleRate options) (so_enableVur options) config h
      = Some (st1, h1)" and rest: "if st1 \<noteq> OK then (st1, h1) = (st, h') else subscribe_areas options config as h1 = Some (st, h')"
    by (auto simp: bind_eq_Some_conv split: if_splits)
  have "subs_ok h1" "timer_ids_left (length as) h1"
    using subscribe_one_ok [OF one Cons.prems(2,3), of "length as"] Cons.prems(4) by simp_all
  with Cons.IH [of h1] Cons.prems(3) rest show ?case by (auto split: if_splits)
qed simp

lemma unsubscribe_ok:
  assumes "subs_ok h"
  shows "subs_ok (snd (fake_unsubscribe p a h))"
proof -
  let ?k = "\<lparr>pa_propId = p, pa_areaId = a\<rparr>"
  define h1 where "h1 = (if map_of (mRefreshInfoByPropIdAreaId h) ?k \<noteq> None then unregisterRefreshLocked ?k h else h)"
  have ok: "subs_ok h1" using unregisterRefresh_effect [of h ?k] assms by (simp add: h1_def subs_ok_def unregistered_def)
  have "snd (fake_unsubscribe p a h) = h1\<lparr>mSubOnChangePropIdAreaIds := removeAll ?k (mSubOnChangePropIdAreaIds h1)\<rparr>"
    by (simp only: fake_unsubscribe_def Let_def h1_def snd_conv)
  then show ?thesis using ok refresh_inv_cong [of "snd (fake_unsubscribe p a h)" h1] by (simp add: subs_ok_def)
qed

text \<open>Callbacks change nothing but \<open>emitted\<close>.\<close>

lemma emitted_same: "\<exists>e. h = h\<lparr>emitted := e\<rparr>"
  by (rule exI [of _ "emitted h"]) simp

lemma store_callback_frame: "\<exists>e. store_callback c h = h\<lparr>emitted := e\<rparr>"
  using emitted_same [of h] by (cases c) (auto simp: onValueChangeCallback_def onValuesChangeCallback_def)

lemma store_callbacks_frame: "\<exists>e. fold store_callback cs h = h\<lparr>emitted := e\<rparr>"
proof (induction cs arbitrary: h)
  case (Cons c cs)
  obtain e where "store_callback c h = h\<lparr>emitted := e\<rparr>" using store_callback_frame by blast
  with Cons [of "h\<lparr>emitted := e\<rparr>"] show ?case by auto
qed (simp add: emitted_same)

lemma touch_all_present: "\<forall>k \<in> set ks. map_of m k \<noteq> None \<Longrightarrow> fold (touch d) ks m = m"
  by (induction ks) (auto simp: touch_def)

text \<open>The entries a callback of the timer refreshes.\<close>

definition refresh_entries :: "FakeVehicleHardware \<Rightarrow> int64 \<Rightarrow> (PropIdAreaId \<times> EventMode) list" where
  "refresh_entries h i =
     (case map_of (mActionByIntervalInNanos h) i of
        None \<Rightarrow> []
      | Some a \<Rightarrow> map (\<lambda>k. (k, ri_eventMode (the (map_of (mRefreshInfoByPropIdAreaId h) k)))) (propIdAreaIdsToRefresh a))"

lemma refresh_entries_exact:
  assumes "refresh_inv h"
  shows "set (refresh_entries h i) =
      {(k, m). map_of (mRefreshInfoByPropIdAreaId h) k = Some \<lparr>ri_eventMode = m, ri_intervalInNanos = i\<rparr>}"
    and "distinct (map fst (refresh_entries h i))"
proof -
  show "distinct (map fst (refresh_entries h i))"
    using refresh_invD(3) [OF assms, of i] by (auto simp: refresh_entries_def comp_def split: option.split)
  have "(k, m) \<in> set (refresh_entries h i) \<longleftrightarrow>
      map_of (mRefreshInfoByPropIdAreaId h) k = Some \<lparr>ri_eventMode = m, ri_intervalInNanos = i\<rparr>" for k m
  proof
    assume "(k, m) \<in> set (refresh_entries h i)"
    then obtain a where a: "map_of (mActionByIntervalInNanos h) i = Some a" "k \<in> set (propIdAreaIdsToRefresh a)"
      "m = ri_eventMode (the (map_of (mRefreshInfoByPropIdAreaId h) k))"
      by (cases "map_of (mActionByIntervalInNanos h) i") (auto simp: refresh_entries_def)
    from refresh_invD(2) [OF assms a(1,2)] a(3)
    show "map_of (mRefreshInfoByPropIdAreaId h) k = Some \<lparr>ri_eventMode = m, ri_intervalInNanos = i\<rparr>" by auto
  next
    assume k: "map_of (mRefreshInfoByPropIdAreaId h) k = Some \<lparr>ri_eventMode = m, ri_intervalInNanos = i\<rparr>"
    with refresh_invD(1) [OF assms k] show "(k, m) \<in> set (refresh_entries h i)"
      by (auto simp: refresh_entries_def image_iff intro!: bexI [of _ k])
  qed
  then show "set (refresh_entries h i) =
      {(k, m). map_of (mRefreshInfoByPropIdAreaId h) k = Some \<lparr>ri_eventMode = m, ri_intervalInNanos = i\<rparr>}" by auto
qed

lemma refresh_for_interval:
  assumes "refresh_inv h"
  obtains n e where "refreshTimestampForInterval i h =
    h\<lparr>mServerSidePropStore := snd (refreshTimestamps (\<lambda>j. clock h (ticks h + j)) (refresh_entries h i) (mServerSidePropStore h)), ticks := n, emitted := e\<rparr>"
proof (cases "map_of (mActionByIntervalInNanos h) i")
  case None
  then show thesis by (intro that [where n = "ticks h" and e = "emitted h"])
    (simp add: refreshTimestampForInterval_def refresh_entries_def refreshTimestamps_def)
next
  case (Some a)
  have "\<forall>k \<in> set (propIdAreaIdsToRefresh a). map_of (mRefreshInfoByPropIdAreaId h) k \<noteq> None"
    using refresh_invD(2) [OF assms Some] by fastforce
  then have same: "fold (touch zero_refresh) (propIdAreaIdsToRefresh a) (mRefreshInfoByPropIdAreaId h) = mRefreshInfoByPropIdAreaId h"
    and entries: "map (\<lambda>k. (k, ri_eventMode (lookup_or zero_refresh k (mRefreshInfoByPropIdAreaId h)))) (propIdAreaIdsToRefresh a) = refresh_entries h i"
    by (auto simp: touch_all_present refresh_entries_def Some lookup_or_def split: option.split)
  obtain calls s where c: "refreshTimestamps (\<lambda>j. clock h (ticks h + j)) (refresh_entries h i) (mServerSidePropStore h) = (calls, s)" by fastforce
  obtain e where "fold store_callback calls (h\<lparr>mServerSidePropStore := s, ticks := ticks h + length (propIdAreaIdsToRefresh a)\<rparr>) =
      h\<lparr>mServerSidePropStore := s, ticks := ticks h + length (propIdAreaIdsToRefresh a)\<rparr>\<lparr>emitted := e\<rparr>"
    using store_callbacks_frame by blast
  then show thesis using c same entries
    by (intro that [where n = "ticks h + length (propIdAreaIdsToRefresh a)" and e = e]) (simp add: refreshTimestampForInterval_def Some Let_def)
qed

end
