(* ===== verification/FakeValues.thy ===== *)
theory FakeValues
  imports FakeHardware
begin

text \<open>
  \<^verbatim>\<open>FakeVehicleHardware.cpp\<close>, getting and setting of values: most properties are read from and written to the property store; for some
  the fake hardware imitates what a vehicle would do (climate control, driver assistance, power management, users, diagnostics).

  An error is its integer, because one test property answers with a number that is not a \<^verbatim>\<open>StatusCode\<close>. The answers
  of the external power service are an argument. The user HAL builds its replies outside of the value pool; a reply that is
  written to the store is copied into the pool first.
\<close>

section \<open>Properties and constants\<close>

definition HVAC_POWER_ON :: int32 where "HVAC_POWER_ON = 0x0510 + 0x10000000 + 0x05000000 + 0x00200000"
definition HVAC_TEMPERATURE_SET :: int32 where "HVAC_TEMPERATURE_SET = 0x0503 + 0x10000000 + 0x05000000 + 0x00600000"
definition HVAC_TEMPERATURE_VALUE_SUGGESTION :: int32 where "HVAC_TEMPERATURE_VALUE_SUGGESTION = 0x0515 + 0x10000000 + 0x01000000 + 0x00610000"
definition HVAC_DUAL_ON :: int32 where "HVAC_DUAL_ON = 0x0509 + 0x10000000 + 0x05000000 + 0x00200000"
definition DISPLAY_BRIGHTNESS :: int32 where "DISPLAY_BRIGHTNESS = 0x0A03 + 0x10000000 + 0x01000000 + 0x00400000"
definition PER_DISPLAY_BRIGHTNESS :: int32 where "PER_DISPLAY_BRIGHTNESS = 0x0A04 + 0x10000000 + 0x01000000 + 0x00410000"
definition AP_POWER_STATE_REPORT :: int32 where "AP_POWER_STATE_REPORT = 0x0A01 + 0x10000000 + 0x01000000 + 0x00410000"
definition AP_POWER_STATE_REQ :: int32 where "AP_POWER_STATE_REQ = 0x0A00 + 0x10000000 + 0x01000000 + 0x00410000"
definition AP_POWER_BOOTUP_REASON :: int32 where "AP_POWER_BOOTUP_REASON = 0x0A02 + 0x10000000 + 0x01000000 + 0x00400000"
definition VEHICLE_IN_USE :: int32 where "VEHICLE_IN_USE = 0x0F4A + 0x10000000 + 0x01000000 + 0x00200000"
definition SHUTDOWN_REQUEST :: int32 where "SHUTDOWN_REQUEST = 0x0F49 + 0x10000000 + 0x01000000 + 0x00400000"
definition VEHICLE_MAP_SERVICE :: int32 where "VEHICLE_MAP_SERVICE = 0x0C00 + 0x10000000 + 0x01000000 + 0x00e00000"
definition LANE_CENTERING_ASSIST_COMMAND :: int32 where "LANE_CENTERING_ASSIST_COMMAND = 0x100B + 0x10000000 + 0x01000000 + 0x00400000"
definition CRUISE_CONTROL_COMMAND :: int32 where "CRUISE_CONTROL_COMMAND = 0x1012 + 0x10000000 + 0x01000000 + 0x00400000"
definition CRUISE_CONTROL_TARGET_SPEED :: int32 where "CRUISE_CONTROL_TARGET_SPEED = 0x1013 + 0x10000000 + 0x01000000 + 0x00600000"
definition ADAPTIVE_CRUISE_CONTROL_TARGET_TIME_GAP :: int32 where "ADAPTIVE_CRUISE_CONTROL_TARGET_TIME_GAP = 0x1014 + 0x10000000 + 0x01000000 + 0x00400000"
definition ADAPTIVE_CRUISE_CONTROL_LEAD_VEHICLE_MEASURED_DISTANCE :: int32 where "ADAPTIVE_CRUISE_CONTROL_LEAD_VEHICLE_MEASURED_DISTANCE = 0x1015 + 0x10000000 + 0x01000000 + 0x00400000"
definition AUTOMATIC_EMERGENCY_BRAKING_ENABLED :: int32 where "AUTOMATIC_EMERGENCY_BRAKING_ENABLED = 0x1000 + 0x10000000 + 0x01000000 + 0x00200000"
definition AUTOMATIC_EMERGENCY_BRAKING_STATE :: int32 where "AUTOMATIC_EMERGENCY_BRAKING_STATE = 0x1001 + 0x10000000 + 0x01000000 + 0x00400000"
definition FORWARD_COLLISION_WARNING_ENABLED :: int32 where "FORWARD_COLLISION_WARNING_ENABLED = 0x1002 + 0x10000000 + 0x01000000 + 0x00200000"
definition FORWARD_COLLISION_WARNING_STATE :: int32 where "FORWARD_COLLISION_WARNING_STATE = 0x1003 + 0x10000000 + 0x01000000 + 0x00400000"
definition BLIND_SPOT_WARNING_ENABLED :: int32 where "BLIND_SPOT_WARNING_ENABLED = 0x1004 + 0x10000000 + 0x01000000 + 0x00200000"
definition BLIND_SPOT_WARNING_STATE :: int32 where "BLIND_SPOT_WARNING_STATE = 0x1005 + 0x10000000 + 0x04000000 + 0x00400000"
definition LANE_DEPARTURE_WARNING_ENABLED :: int32 where "LANE_DEPARTURE_WARNING_ENABLED = 0x1006 + 0x10000000 + 0x01000000 + 0x00200000"
definition LANE_DEPARTURE_WARNING_STATE :: int32 where "LANE_DEPARTURE_WARNING_STATE = 0x1007 + 0x10000000 + 0x01000000 + 0x00400000"
definition LANE_KEEP_ASSIST_ENABLED :: int32 where "LANE_KEEP_ASSIST_ENABLED = 0x1008 + 0x10000000 + 0x01000000 + 0x00200000"
definition LANE_KEEP_ASSIST_STATE :: int32 where "LANE_KEEP_ASSIST_STATE = 0x1009 + 0x10000000 + 0x01000000 + 0x00400000"
definition LANE_CENTERING_ASSIST_ENABLED :: int32 where "LANE_CENTERING_ASSIST_ENABLED = 0x100A + 0x10000000 + 0x01000000 + 0x00200000"
definition LANE_CENTERING_ASSIST_STATE :: int32 where "LANE_CENTERING_ASSIST_STATE = 0x100C + 0x10000000 + 0x01000000 + 0x00400000"
definition EMERGENCY_LANE_KEEP_ASSIST_ENABLED :: int32 where "EMERGENCY_LANE_KEEP_ASSIST_ENABLED = 0x100D + 0x10000000 + 0x01000000 + 0x00200000"
definition EMERGENCY_LANE_KEEP_ASSIST_STATE :: int32 where "EMERGENCY_LANE_KEEP_ASSIST_STATE = 0x100E + 0x10000000 + 0x01000000 + 0x00400000"
definition CRUISE_CONTROL_ENABLED :: int32 where "CRUISE_CONTROL_ENABLED = 0x100F + 0x10000000 + 0x01000000 + 0x00200000"
definition CRUISE_CONTROL_TYPE :: int32 where "CRUISE_CONTROL_TYPE = 0x1010 + 0x10000000 + 0x01000000 + 0x00400000"
definition CRUISE_CONTROL_STATE :: int32 where "CRUISE_CONTROL_STATE = 0x1011 + 0x10000000 + 0x01000000 + 0x00400000"
definition HANDS_ON_DETECTION_ENABLED :: int32 where "HANDS_ON_DETECTION_ENABLED = 0x1016 + 0x10000000 + 0x01000000 + 0x00200000"
definition HANDS_ON_DETECTION_DRIVER_STATE :: int32 where "HANDS_ON_DETECTION_DRIVER_STATE = 0x1017 + 0x10000000 + 0x01000000 + 0x00400000"
definition HANDS_ON_DETECTION_WARNING :: int32 where "HANDS_ON_DETECTION_WARNING = 0x1018 + 0x10000000 + 0x01000000 + 0x00400000"
definition DRIVER_DROWSINESS_ATTENTION_SYSTEM_ENABLED :: int32 where "DRIVER_DROWSINESS_ATTENTION_SYSTEM_ENABLED = 0x1019 + 0x10000000 + 0x01000000 + 0x00200000"
definition DRIVER_DROWSINESS_ATTENTION_STATE :: int32 where "DRIVER_DROWSINESS_ATTENTION_STATE = 0x101A + 0x10000000 + 0x01000000 + 0x00400000"
definition DRIVER_DROWSINESS_ATTENTION_WARNING_ENABLED :: int32 where "DRIVER_DROWSINESS_ATTENTION_WARNING_ENABLED = 0x101B + 0x10000000 + 0x01000000 + 0x00200000"
definition DRIVER_DROWSINESS_ATTENTION_WARNING :: int32 where "DRIVER_DROWSINESS_ATTENTION_WARNING = 0x101C + 0x10000000 + 0x01000000 + 0x00400000"
definition DRIVER_DISTRACTION_SYSTEM_ENABLED :: int32 where "DRIVER_DISTRACTION_SYSTEM_ENABLED = 0x101D + 0x10000000 + 0x01000000 + 0x00200000"
definition DRIVER_DISTRACTION_STATE :: int32 where "DRIVER_DISTRACTION_STATE = 0x101E + 0x10000000 + 0x01000000 + 0x00400000"
definition DRIVER_DISTRACTION_WARNING :: int32 where "DRIVER_DISTRACTION_WARNING = 0x1020 + 0x10000000 + 0x01000000 + 0x00400000"
definition DRIVER_DISTRACTION_WARNING_ENABLED :: int32 where "DRIVER_DISTRACTION_WARNING_ENABLED = 0x101F + 0x10000000 + 0x01000000 + 0x00200000"
definition LOW_SPEED_COLLISION_WARNING_ENABLED :: int32 where "LOW_SPEED_COLLISION_WARNING_ENABLED = 0x1021 + 0x10000000 + 0x01000000 + 0x00200000"
definition LOW_SPEED_COLLISION_WARNING_STATE :: int32 where "LOW_SPEED_COLLISION_WARNING_STATE = 0x1022 + 0x10000000 + 0x01000000 + 0x00400000"
definition ELECTRONIC_STABILITY_CONTROL_ENABLED :: int32 where "ELECTRONIC_STABILITY_CONTROL_ENABLED = 0x040E + 0x10000000 + 0x01000000 + 0x00200000"
definition ELECTRONIC_STABILITY_CONTROL_STATE :: int32 where "ELECTRONIC_STABILITY_CONTROL_STATE = 0x040F + 0x10000000 + 0x01000000 + 0x00400000"
definition CROSS_TRAFFIC_MONITORING_ENABLED :: int32 where "CROSS_TRAFFIC_MONITORING_ENABLED = 0x1023 + 0x10000000 + 0x01000000 + 0x00200000"
definition CROSS_TRAFFIC_MONITORING_WARNING_STATE :: int32 where "CROSS_TRAFFIC_MONITORING_WARNING_STATE = 0x1024 + 0x10000000 + 0x01000000 + 0x00400000"
definition LOW_SPEED_AUTOMATIC_EMERGENCY_BRAKING_ENABLED :: int32 where "LOW_SPEED_AUTOMATIC_EMERGENCY_BRAKING_ENABLED = 0x1025 + 0x10000000 + 0x01000000 + 0x00200000"
definition LOW_SPEED_AUTOMATIC_EMERGENCY_BRAKING_STATE :: int32 where "LOW_SPEED_AUTOMATIC_EMERGENCY_BRAKING_STATE = 0x1026 + 0x10000000 + 0x01000000 + 0x00400000"

definition ECHO_REVERSE_BYTES :: int32 where "ECHO_REVERSE_BYTES = 0x21030001"
definition VENDOR_PROPERTY_FOR_ERROR_CODE_TESTING :: int32 where "VENDOR_PROPERTY_FOR_ERROR_CODE_TESTING = 0x21030002"
definition STARTING_VENDOR_CODE_PROPERTIES_FOR_TEST :: int32 where
  "STARTING_VENDOR_CODE_PROPERTIES_FOR_TEST = 0x3000 OR 0x20000000 OR 0x01000000 OR 0x00400000"
definition ENDING_VENDOR_CODE_PROPERTIES_FOR_TEST :: int32 where
  "ENDING_VENDOR_CODE_PROPERTIES_FOR_TEST = 0x5000 OR 0x20000000 OR 0x01000000 OR 0x00400000"
definition VENDOR_ERROR_CODE :: int32 where "VENDOR_ERROR_CODE = 0x00ab0005"

definition is_test_vendor_property :: "int32 \<Rightarrow> bool" where
  "is_test_vendor_property propId \<longleftrightarrow>
     sint STARTING_VENDOR_CODE_PROPERTIES_FOR_TEST \<le> sint propId \<and> sint propId < sint ENDING_VENDOR_CODE_PROPERTIES_FOR_TEST"

definition mAdasEnabledPropToAdasPropWithErrorState :: "(int32 \<times> int32 list) list" where
  "mAdasEnabledPropToAdasPropWithErrorState =
     [(AUTOMATIC_EMERGENCY_BRAKING_ENABLED, [AUTOMATIC_EMERGENCY_BRAKING_STATE]),
      (FORWARD_COLLISION_WARNING_ENABLED, [FORWARD_COLLISION_WARNING_STATE]),
      (BLIND_SPOT_WARNING_ENABLED, [BLIND_SPOT_WARNING_STATE]),
      (LANE_DEPARTURE_WARNING_ENABLED, [LANE_DEPARTURE_WARNING_STATE]),
      (LANE_KEEP_ASSIST_ENABLED, [LANE_KEEP_ASSIST_STATE]),
      (LANE_CENTERING_ASSIST_ENABLED, [LANE_CENTERING_ASSIST_STATE]),
      (EMERGENCY_LANE_KEEP_ASSIST_ENABLED, [EMERGENCY_LANE_KEEP_ASSIST_STATE]),
      (CRUISE_CONTROL_ENABLED, [CRUISE_CONTROL_TYPE, CRUISE_CONTROL_STATE]),
      (HANDS_ON_DETECTION_ENABLED, [HANDS_ON_DETECTION_DRIVER_STATE, HANDS_ON_DETECTION_WARNING]),
      (DRIVER_DROWSINESS_ATTENTION_SYSTEM_ENABLED, [DRIVER_DROWSINESS_ATTENTION_STATE]),
      (DRIVER_DROWSINESS_ATTENTION_WARNING_ENABLED, [DRIVER_DROWSINESS_ATTENTION_WARNING]),
      (DRIVER_DISTRACTION_SYSTEM_ENABLED, [DRIVER_DISTRACTION_STATE, DRIVER_DISTRACTION_WARNING]),
      (DRIVER_DISTRACTION_WARNING_ENABLED, [DRIVER_DISTRACTION_WARNING]),
      (LOW_SPEED_COLLISION_WARNING_ENABLED, [LOW_SPEED_COLLISION_WARNING_STATE]),
      (ELECTRONIC_STABILITY_CONTROL_ENABLED, [ELECTRONIC_STABILITY_CONTROL_STATE]),
      (CROSS_TRAFFIC_MONITORING_ENABLED, [CROSS_TRAFFIC_MONITORING_WARNING_STATE]),
      (LOW_SPEED_AUTOMATIC_EMERGENCY_BRAKING_ENABLED, [LOW_SPEED_AUTOMATIC_EMERGENCY_BRAKING_STATE])]"

datatype VehicleApPowerStateReport =
    WAIT_FOR_VHAL | DEEP_SLEEP_ENTRY | DEEP_SLEEP_EXIT | SHUTDOWN_POSTPONE | SHUTDOWN_START | REPORT_ON | REPORT_SHUTDOWN_PREPARE
  | SHUTDOWN_CANCELLED | HIBERNATION_ENTRY | HIBERNATION_EXIT

fun VehicleApPowerStateReport_toInt :: "VehicleApPowerStateReport \<Rightarrow> int32" where
  "VehicleApPowerStateReport_toInt WAIT_FOR_VHAL = 0x1"
| "VehicleApPowerStateReport_toInt DEEP_SLEEP_ENTRY = 0x2"
| "VehicleApPowerStateReport_toInt DEEP_SLEEP_EXIT = 0x3"
| "VehicleApPowerStateReport_toInt SHUTDOWN_POSTPONE = 0x4"
| "VehicleApPowerStateReport_toInt SHUTDOWN_START = 0x5"
| "VehicleApPowerStateReport_toInt REPORT_ON = 0x6"
| "VehicleApPowerStateReport_toInt REPORT_SHUTDOWN_PREPARE = 0x7"
| "VehicleApPowerStateReport_toInt SHUTDOWN_CANCELLED = 0x8"
| "VehicleApPowerStateReport_toInt HIBERNATION_ENTRY = 0x9"
| "VehicleApPowerStateReport_toInt HIBERNATION_EXIT = 0xA"

datatype VehicleApPowerStateReq = REQ_ON | SHUTDOWN_PREPARE | CANCEL_SHUTDOWN | FINISHED

fun VehicleApPowerStateReq_toInt :: "VehicleApPowerStateReq \<Rightarrow> int32" where
  "VehicleApPowerStateReq_toInt REQ_ON = 0"
| "VehicleApPowerStateReq_toInt SHUTDOWN_PREPARE = 1"
| "VehicleApPowerStateReq_toInt CANCEL_SHUTDOWN = 2"
| "VehicleApPowerStateReq_toInt FINISHED = 3"

text \<open>\<^verbatim>\<open>ErrorState\<close> numbers and the status they are reported as.\<close>

definition ErrorState_NOT_AVAILABLE_DISABLED :: int32 where "ErrorState_NOT_AVAILABLE_DISABLED = - 2"

definition error_state_status :: "int32 \<Rightarrow> StatusCode" where
  "error_state_status e =
     (if e = - 2 then NOT_AVAILABLE_DISABLED else if e = - 3 then NOT_AVAILABLE_SPEED_LOW else if e = - 4 then NOT_AVAILABLE_SPEED_HIGH
      else if e = - 5 then NOT_AVAILABLE_POOR_VISIBILITY else if e = - 6 then NOT_AVAILABLE_SAFETY else NOT_AVAILABLE)"

definition CruiseControlType_STANDARD :: int32 where "CruiseControlType_STANDARD = 1"
definition CruiseControlType_ADAPTIVE :: int32 where "CruiseControlType_ADAPTIVE = 2"
definition INCREASE_TARGET_TIME_GAP :: int32 where "INCREASE_TARGET_TIME_GAP = 5"
definition DECREASE_TARGET_TIME_GAP :: int32 where "DECREASE_TARGET_TIME_GAP = 6"
definition VehicleUnit_CELSIUS :: int where "VehicleUnit_CELSIUS = 0x30"
definition VehicleUnit_FAHRENHEIT :: int where "VehicleUnit_FAHRENHEIT = 0x31"

section \<open>Access to the store\<close>

type_synonym 'a hw_result = "int32 + 'a"

definition coded :: "'a VhalResult \<Rightarrow> 'a hw_result" where
  "coded r = map_sum StatusCode_toInt (\<lambda>x. x) r"

definition hw_store :: "(VehiclePropertyStore \<Rightarrow> 'a \<times> VehiclePropertyStore) \<Rightarrow> FakeVehicleHardware \<Rightarrow> 'a \<times> FakeVehicleHardware" where
  "hw_store f h = (let (x, s) = f (mServerSidePropStore h) in (x, h\<lparr>mServerSidePropStore := s\<rparr>))"

definition hw_pool :: "(VehiclePropValuePool \<Rightarrow> 'a \<times> VehiclePropValuePool) \<Rightarrow> FakeVehicleHardware \<Rightarrow> 'a \<times> FakeVehicleHardware" where
  "hw_pool f h = hw_store (\<lambda>s. let (x, p) = f (mValuePool s) in (x, s\<lparr>mValuePool := p\<rparr>)) h"

definition hw_drop :: "recyclable list \<Rightarrow> FakeVehicleHardware \<Rightarrow> FakeVehicleHardware" where
  "hw_drop rs h = h\<lparr>mServerSidePropStore := drop_values rs (mServerSidePropStore h)\<rparr>"

text \<open>A write, with the callbacks it triggers.\<close>

definition hw_write :: "recyclable \<Rightarrow> bool \<Rightarrow> EventMode \<Rightarrow> bool \<Rightarrow> FakeVehicleHardware \<Rightarrow> unit VhalResult \<times> FakeVehicleHardware" where
  "hw_write r updateStatus mode useCurrentTimestamp h =
     (let (now, h1) = (if useCurrentTimestamp then elapsedRealtimeNano h else (0, h));
          (result, calls, s) = writeValue r updateStatus mode useCurrentTimestamp now (mServerSidePropStore h1)
      in (result, fold store_callback calls (h1\<lparr>mServerSidePropStore := s\<rparr>)))"

text \<open>Setting fields of an object from the pool; out of range is undefined.\<close>

definition with_ints :: "int32 list \<Rightarrow> recyclable \<Rightarrow> recyclable option" where
  "with_ints xs r =
     (let v = r_value r; old = int32Values (pv_value v)
      in if length old < length xs then None
         else Some (r\<lparr>r_value := v\<lparr>pv_value := (pv_value v)\<lparr>int32Values := xs @ drop (length xs) old\<rparr>\<rparr>\<rparr>))"

definition with_timestamp :: "int64 \<Rightarrow> recyclable \<Rightarrow> recyclable" where
  "with_timestamp now r = r\<lparr>r_value := (r_value r)\<lparr>pv_timestamp := now\<rparr>\<rparr>"

definition int_at :: "nat \<Rightarrow> VehiclePropValue \<Rightarrow> int32 option" where
  "int_at i v = (if i < length (int32Values (pv_value v)) then Some (int32Values (pv_value v) ! i) else None)"

section \<open>Power management\<close>

definition createApPowerStateReq :: "VehicleApPowerStateReq \<Rightarrow> FakeVehicleHardware \<Rightarrow> (recyclable \<times> FakeVehicleHardware) option" where
  "createApPowerStateReq state h = do {
     let (req, h1) = hw_pool (obtain_sized INT32_VEC 2) h;
     let (now, h2) = elapsedRealtimeNano h1;
     let req' = req\<lparr>r_value := (r_value req)\<lparr>pv_prop := AP_POWER_STATE_REQ, pv_areaId := 0, pv_timestamp := now, pv_status := AVAILABLE\<rparr>\<rparr>;
     req'' \<leftarrow> with_ints [VehicleApPowerStateReq_toInt state, 0] req';
     Some (req'', h2)
   }"

definition setApPowerStateReqShutdown :: "VehiclePropValue \<Rightarrow> FakeVehicleHardware \<Rightarrow> (unit VhalResult \<times> FakeVehicleHardware) option" where
  "setApPowerStateReqShutdown v h =
     (case int32Values (pv_value v) of
        [param] \<Rightarrow> do {
          (prop, h1) \<leftarrow> createApPowerStateReq SHUTDOWN_PREPARE h;
          prop' \<leftarrow> with_ints [VehicleApPowerStateReq_toInt SHUTDOWN_PREPARE, param] prop;
          Some (hw_write prop' True ALWAYS False h1)
        }
      | _ \<Rightarrow> Some (Inl INVALID_ARG, h))"

definition is_report :: "int32 \<Rightarrow> VehicleApPowerStateReport list \<Rightarrow> bool" where
  "is_report state rs \<longleftrightarrow> state \<in> set (map VehicleApPowerStateReport_toInt rs)"

definition setApPowerStateReport :: "VehiclePropValue \<Rightarrow> FakeVehicleHardware \<Rightarrow> (unit VhalResult \<times> FakeVehicleHardware) option" where
  "setApPowerStateReport v h = do {
     let (updated, h1) = hw_pool (obtain_copy v) h;
     let (now, h2) = elapsedRealtimeNano h1;
     (case hw_write (with_timestamp now updated) False ON_VALUE_CHANGE False h2 of
        (Inl e, h3) \<Rightarrow> Some (Inl e, h3)
      | (Inr _, h3) \<Rightarrow> do {
          state \<leftarrow> int_at 0 v;
          if is_report state [DEEP_SLEEP_EXIT, HIBERNATION_EXIT, SHUTDOWN_CANCELLED, WAIT_FOR_VHAL] then do {
            (prop, h4) \<leftarrow> createApPowerStateReq REQ_ON h3;
            Some (hw_write prop True ALWAYS False h4)
          } else if is_report state [DEEP_SLEEP_ENTRY, HIBERNATION_ENTRY, SHUTDOWN_START] then do {
            (prop, h4) \<leftarrow> createApPowerStateReq FINISHED h3;
            Some (hw_write prop True ON_VALUE_CHANGE False h4)
          } else Some (Inr (), h3)
        })
   }"

text \<open>The external power service: \<open>None\<close> when the call fails.\<close>

record power_service =
  IsVehicleInUse :: "bool option"
  GetApPowerBootupReason :: "int32 option"

definition power_value :: "int32 \<Rightarrow> (recyclable \<times> VehiclePropValuePool) option \<Rightarrow> FakeVehicleHardware \<Rightarrow> (recyclable hw_result \<times> FakeVehicleHardware) option" where
  "power_value propId obtained h = do {
     (r, pool) \<leftarrow> obtained;
     let (now, h') = elapsedRealtimeNano (h\<lparr>mServerSidePropStore := (mServerSidePropStore h)\<lparr>mValuePool := pool\<rparr>\<rparr>);
     Some (Inr (r\<lparr>r_value := (r_value r)\<lparr>pv_prop := propId, pv_areaId := 0, pv_status := AVAILABLE, pv_timestamp := now\<rparr>\<rparr>), h')
   }"

definition getVehicleInUse :: "power_service \<Rightarrow> FakeVehicleHardware \<Rightarrow> (recyclable hw_result \<times> FakeVehicleHardware) option" where
  "getVehicleInUse service h =
     (case IsVehicleInUse service of
        None \<Rightarrow> Some (Inl (StatusCode_toInt TRY_AGAIN), h)
      | Some b \<Rightarrow> power_value VEHICLE_IN_USE (obtainBoolean b (mValuePool (mServerSidePropStore h))) h)"

definition getApPowerBootupReason :: "power_service \<Rightarrow> FakeVehicleHardware \<Rightarrow> (recyclable hw_result \<times> FakeVehicleHardware) option" where
  "getApPowerBootupReason service h =
     (case GetApPowerBootupReason service of
        None \<Rightarrow> Some (Inl (StatusCode_toInt TRY_AGAIN), h)
      | Some reason \<Rightarrow> power_value AP_POWER_BOOTUP_REASON (obtainInt32 reason (mValuePool (mServerSidePropStore h))) h)"

definition getPowerPropFromExternalService ::
  "power_service \<Rightarrow> int32 \<Rightarrow> FakeVehicleHardware \<Rightarrow> (recyclable hw_result \<times> FakeVehicleHardware) option" where
  "getPowerPropFromExternalService service propId h =
     (if propId = VEHICLE_IN_USE then getVehicleInUse service h
      else if propId = AP_POWER_BOOTUP_REASON then getApPowerBootupReason service h
      else Some (Inl (StatusCode_toInt INTERNAL_ERROR), h))"

section \<open>Climate control\<close>

definition in_int32 :: "int \<Rightarrow> bool" where
  "in_int32 n \<longleftrightarrow> - (2 ^ 31) \<le> n \<and> n < 2 ^ 31"

definition checked32 :: "int \<Rightarrow> int option" where
  "checked32 n = (if in_int32 n then Some n else None)"

definition getHvacTempNumIncrements :: "int \<Rightarrow> int \<Rightarrow> int \<Rightarrow> int \<Rightarrow> int option" where
  "getHvacTempNumIncrements requestedTemp minTemp maxTemp increment = do {
     let requested = min (max requestedTemp minTemp) maxTemp;
     d \<leftarrow> checked32 (requested - minTemp);
     n \<leftarrow> f32_trunc (f32_roundf (f32_div (f32_of_int d) (f32_of_int increment)));
     checked32 n
   }"

definition updateHvacTemperatureValueSuggestionInput :: "int32 list \<Rightarrow> f32 list \<Rightarrow> f32 list option" where
  "updateHvacTemperatureValueSuggestionInput config input =
     (case (map sint config, input) of
        (minC # maxC # incC # minF # maxF # incF # _, x0 # x1 # x2 # x3 # rest) \<Rightarrow> do {
          t \<leftarrow> f32_trunc (f32_mult x0 (f32_of_int 10));
          requestedTemp \<leftarrow> checked32 t;
          n \<leftarrow> (if f32_eq x1 (f32_of_int VehicleUnit_CELSIUS) then getHvacTempNumIncrements requestedTemp minC maxC incC
                else getHvacTempNumIncrements requestedTemp minF maxF incF);
          pc \<leftarrow> checked32 (incC * n);
          suggestedC \<leftarrow> checked32 (minC + pc);
          pf \<leftarrow> checked32 (incF * n);
          suggestedF \<leftarrow> checked32 (minF + pf);
          Some (x0 # x1 # f32_div (f32_of_int suggestedC) (f32_of_int 10) # f32_div (f32_of_int suggestedF) (f32_of_int 10) # rest)
        }
      | _ \<Rightarrow> None)"

definition setHvacTemperatureValueSuggestion :: "VehiclePropValue \<Rightarrow> FakeVehicleHardware \<Rightarrow> (unit VhalResult \<times> FakeVehicleHardware) option" where
  "setHvacTemperatureValueSuggestion v h =
     (case getPropConfig HVAC_TEMPERATURE_SET (mServerSidePropStore h) of
        Inl e \<Rightarrow> Some (Inl e, h)
      | Inr config \<Rightarrow>
          let input = floatValues (pv_value v)
          in if length input \<noteq> 4 then Some (Inl INVALID_ARG, h)
             else if \<not> f32_eq (input ! 1) (f32_of_int VehicleUnit_CELSIUS) \<and> \<not> f32_eq (input ! 1) (f32_of_int VehicleUnit_FAHRENHEIT)
             then Some (Inl INVALID_ARG, h)
             else do {
               let (updated, h1) = hw_pool (obtain_copy v) h;
               let u = r_value updated;
               output \<leftarrow> updateHvacTemperatureValueSuggestionInput (configArray config) (floatValues (pv_value u));
               let (now, h2) = elapsedRealtimeNano h1;
               Some (hw_write (updated\<lparr>r_value := u\<lparr>pv_timestamp := now, pv_value := (pv_value u)\<lparr>floatValues := output\<rparr>\<rparr>\<rparr>) True ALWAYS False h2)
             })"

definition power_off_at :: "int32 \<Rightarrow> VehiclePropValue list \<Rightarrow> bool" where
  "power_off_at areaId values =
     (case find (\<lambda>v. pv_areaId v AND areaId = areaId) values of
        None \<Rightarrow> False | Some v \<Rightarrow> int32Values (pv_value v) = [0])"

definition isHvacPropAndHvacNotAvailable :: "int32 \<Rightarrow> int32 \<Rightarrow> FakeVehicleHardware \<Rightarrow> bool \<times> FakeVehicleHardware" where
  "isHvacPropAndHvacNotAvailable propId areaId h =
     (if propId \<notin> set (hvacPowerDependentProps h) then (False, h)
      else case hw_store (readValuesForProperty HVAC_POWER_ON) h of
             (Inl _, h1) \<Rightarrow> (False, h1)
           | (Inr copies, h1) \<Rightarrow> (power_off_at areaId (map r_value copies), hw_drop copies h1))"

text \<open>The results of these writes are not looked at.\<close>

fun send_current :: "int32 \<Rightarrow> int32 \<Rightarrow> recyclable list \<Rightarrow> FakeVehicleHardware \<Rightarrow> FakeVehicleHardware" where
  "send_current areaId powerOn [] h = h"
| "send_current areaId powerOn (r # rs) h =
     (let v = r_value r
      in if pv_areaId v AND areaId = pv_areaId v
         then let (now, h1) = elapsedRealtimeNano h;
                  v' = v\<lparr>pv_status := (if powerOn \<noteq> 0 then AVAILABLE else UNAVAILABLE), pv_timestamp := now\<rparr>
              in send_current areaId powerOn rs (snd (hw_write (r\<lparr>r_value := v'\<rparr>) True ALWAYS False h1))
         else send_current areaId powerOn rs (hw_drop [r] h))"

fun send_props :: "int32 \<Rightarrow> int32 \<Rightarrow> int32 list \<Rightarrow> FakeVehicleHardware \<Rightarrow> FakeVehicleHardware" where
  "send_props areaId powerOn [] h = h"
| "send_props areaId powerOn (p # ps) h =
     (case hw_store (readValuesForProperty p) h of
        (Inl _, h1) \<Rightarrow> send_props areaId powerOn ps h1
      | (Inr copies, h1) \<Rightarrow> send_props areaId powerOn ps (send_current areaId powerOn copies h1))"

definition sendHvacPropertiesCurrentValues :: "int32 \<Rightarrow> int32 \<Rightarrow> FakeVehicleHardware \<Rightarrow> FakeVehicleHardware" where
  "sendHvacPropertiesCurrentValues areaId powerOn h = send_props areaId powerOn (hvacPowerDependentProps h) h"

text \<open>The values that are not written stay in the vector and are released when the function returns.\<close>

fun synchronize_loop ::
  "int32 \<Rightarrow> f32 option \<Rightarrow> recyclable list \<Rightarrow> recyclable list \<Rightarrow> FakeVehicleHardware \<Rightarrow> (unit VhalResult \<times> FakeVehicleHardware) option" where
  "synchronize_loop dualArea temp kept [] h = Some (Inr (), hw_drop kept h)"
| "synchronize_loop dualArea temp kept (r # rs) h =
     (let v = r_value r
      in if dualArea AND pv_areaId v \<noteq> pv_areaId v \<or> pv_status v \<noteq> AVAILABLE
         then synchronize_loop dualArea temp (kept @ [r]) rs h
         else case (temp, floatValues (pv_value v)) of
                (_, []) \<Rightarrow> None
              | (None, x # _) \<Rightarrow> synchronize_loop dualArea (Some x) (kept @ [r]) rs h
              | (Some t, _ # xs) \<Rightarrow>
                  let (now, h1) = elapsedRealtimeNano h;
                      v' = v\<lparr>pv_timestamp := now, pv_value := (pv_value v)\<lparr>floatValues := t # xs\<rparr>\<rparr>
                  in (case hw_write (r\<lparr>r_value := v'\<rparr>) True ALWAYS False h1 of
                        (Inl e, h2) \<Rightarrow> Some (Inl e, hw_drop (kept @ rs) h2)
                      | (Inr _, h2) \<Rightarrow> synchronize_loop dualArea temp kept rs h2))"

definition synchronizeHvacTemp :: "int32 \<Rightarrow> f32 option \<Rightarrow> FakeVehicleHardware \<Rightarrow> (unit VhalResult \<times> FakeVehicleHardware) option" where
  "synchronizeHvacTemp dualArea newTempC h =
     (case hw_store (readValuesForProperty HVAC_TEMPERATURE_SET) h of
        (Inl _, h1) \<Rightarrow> Some (Inl NOT_AVAILABLE, h1)
      | (Inr copies, h1) \<Rightarrow> synchronize_loop dualArea newTempC [] copies h1)"

definition getSyncedAreaIdIfHvacDualOn :: "int32 \<Rightarrow> FakeVehicleHardware \<Rightarrow> int32 option \<times> FakeVehicleHardware" where
  "getSyncedAreaIdIfHvacDualOn areaId h =
     (case hw_store (readValuesForProperty HVAC_DUAL_ON) h of
        (Inl _, h1) \<Rightarrow> (None, h1)
      | (Inr copies, h1) \<Rightarrow>
          (map_option pv_areaId (find (\<lambda>v. pv_areaId v AND areaId = areaId \<and> int32Values (pv_value v) = [1]) (map r_value copies)),
           hw_drop copies h1))"

section \<open>Driver assistance\<close>

definition isAdasPropertyAvailable :: "int32 \<Rightarrow> FakeVehicleHardware \<Rightarrow> unit VhalResult \<times> FakeVehicleHardware" where
  "isAdasPropertyAvailable propId h =
     (case hw_store (readValue_token propId 0 0) h of
        (Inl _, h1) \<Rightarrow> (Inr (), h1)
      | (Inr r, h1) \<Rightarrow>
          ((case int32Values (pv_value (r_value r)) of
              [e] \<Rightarrow> if sint e < 0 then Inl (error_state_status e) else Inr ()
            | _ \<Rightarrow> Inr ()), hw_drop [r] h1))"

text \<open>The value is used without looking whether it could be read.\<close>

definition isCruiseControlTypeStandard :: "FakeVehicleHardware \<Rightarrow> (bool VhalResult \<times> FakeVehicleHardware) option" where
  "isCruiseControlTypeStandard h =
     (case isAdasPropertyAvailable CRUISE_CONTROL_TYPE h of
        (Inl e, h1) \<Rightarrow> Some (Inl e, h1)
      | (Inr _, h1) \<Rightarrow>
          (case hw_store (readValue_token CRUISE_CONTROL_TYPE 0 0) h1 of
             (Inl _, _) \<Rightarrow> None
           | (Inr r, h2) \<Rightarrow> map_option (\<lambda>t. (Inr (t = CruiseControlType_STANDARD), hw_drop [r] h2)) (int_at 0 (r_value r))))"

definition createAdasStateReq :: "int32 \<Rightarrow> int32 \<Rightarrow> int32 \<Rightarrow> FakeVehicleHardware \<Rightarrow> (recyclable \<times> FakeVehicleHardware) option" where
  "createAdasStateReq propId areaId state h = do {
     let (req, h1) = hw_pool (obtain_type INT32) h;
     let (now, h2) = elapsedRealtimeNano h1;
     let req' = req\<lparr>r_value := (r_value req)\<lparr>pv_prop := propId, pv_areaId := areaId, pv_timestamp := now, pv_status := AVAILABLE\<rparr>\<rparr>;
     req'' \<leftarrow> with_ints [state] req';
     Some (req'', h2)
   }"

fun send_adas_areas :: "int32 \<Rightarrow> int32 \<Rightarrow> int32 list \<Rightarrow> FakeVehicleHardware \<Rightarrow> FakeVehicleHardware option" where
  "send_adas_areas propId state [] h = Some h"
| "send_adas_areas propId state (a # as) h = do {
     (r, h1) \<leftarrow> createAdasStateReq propId a (if state = 1 \<and> propId = CRUISE_CONTROL_TYPE then CruiseControlType_ADAPTIVE else state) h;
     send_adas_areas propId state as (snd (hw_write r True ALWAYS False h1))
   }"

fun send_adas :: "int32 \<Rightarrow> int32 list \<Rightarrow> FakeVehicleHardware \<Rightarrow> FakeVehicleHardware option" where
  "send_adas state [] h = Some h"
| "send_adas state (p # ps) h =
     (case getPropConfig p (mServerSidePropStore h) of
        Inl _ \<Rightarrow> send_adas state ps h
      | Inr config \<Rightarrow> do {
          h' \<leftarrow> send_adas_areas p state (map ac_areaId (areaConfigs config)) h;
          send_adas state ps h'
        })"

definition sendAdasPropertiesState :: "int32 \<Rightarrow> int32 \<Rightarrow> FakeVehicleHardware \<Rightarrow> FakeVehicleHardware option" where
  "sendAdasPropertiesState propId state h =
     Option.bind (map_of mAdasEnabledPropToAdasPropWithErrorState propId) (\<lambda>ps. send_adas state ps h)"

section \<open>Users, diagnostics and bytes\<close>

definition setUserHalProp :: "VehiclePropValue \<Rightarrow> FakeVehicleHardware \<Rightarrow> (unit VhalResult \<times> FakeVehicleHardware) option" where
  "setUserHalProp v h = do {
     let (now, h1) = elapsedRealtimeNano h;
     (result, u) \<leftarrow> onSetProperty now v (mFakeUserHal h1);
     let h2 = h1\<lparr>mFakeUserHal := u\<rparr>;
     (case result of
        Inl e \<Rightarrow> Some (Inl e, h2)
      | Inr None \<Rightarrow> Some (Inr (), h2)
      | Inr (Some reply) \<Rightarrow>
          let (r, h3) = hw_pool (obtain_copy reply) h2; (later, h4) = elapsedRealtimeNano h3
          in Some (hw_write (with_timestamp later r) True ALWAYS False h4))
   }"

definition getUserHalProp :: "VehiclePropValue \<Rightarrow> FakeVehicleHardware \<Rightarrow> (recyclable hw_result \<times> FakeVehicleHardware) option" where
  "getUserHalProp v h = do {
     result \<leftarrow> onGetProperty v (mFakeUserHal h);
     (case result of
        Inl e \<Rightarrow> Some (Inl (StatusCode_toInt e), h)
      | Inr None \<Rightarrow> Some (Inl (StatusCode_toInt INTERNAL_ERROR), h)
      | Inr (Some reply) \<Rightarrow>
          let (r, h1) = hw_pool (obtain_copy reply) h; (now, h2) = elapsedRealtimeNano h1
          in Some (Inr (with_timestamp now r), h2))
   }"

text \<open>The copy is written from both ends of the bytes that were read.\<close>

definition getEchoReverseBytes :: "VehiclePropValue \<Rightarrow> FakeVehicleHardware \<Rightarrow> recyclable hw_result \<times> FakeVehicleHardware" where
  "getEchoReverseBytes v h =
     (case hw_store (readValue v) h of
        (Inl e, h1) \<Rightarrow> (Inl (StatusCode_toInt e), h1)
      | (Inr r, h1) \<Rightarrow>
          let (now, h2) = elapsedRealtimeNano h1; got = r_value r; bytes = byteValues (pv_value got); n = length bytes
          in (Inr (r\<lparr>r_value := got\<lparr>pv_timestamp := now,
                pv_value := (pv_value got)\<lparr>byteValues := fold (\<lambda>i out. out[i := bytes ! (n - 1 - i)]) [0..<n] bytes\<rparr>\<rparr>\<rparr>), h2))"

definition stamp_if_ok :: "recyclable VhalResult \<times> FakeVehicleHardware \<Rightarrow> recyclable hw_result \<times> FakeVehicleHardware" where
  "stamp_if_ok res =
     (case res of
        (Inl e, h) \<Rightarrow> (Inl (StatusCode_toInt e), h)
      | (Inr r, h) \<Rightarrow> let (now, h') = elapsedRealtimeNano h in (Inr (with_timestamp now r), h'))"

section \<open>Getting values\<close>

text \<open>The first component is \<open>None\<close> when \<^verbatim>\<open>*isSpecialValue\<close> is false.\<close>

type_synonym 'a special = "('a hw_result option \<times> FakeVehicleHardware) option"

definition special_error :: "StatusCode \<Rightarrow> FakeVehicleHardware \<Rightarrow> 'a special" where
  "special_error e h = Some (Some (Inl (StatusCode_toInt e)), h)"

definition not_special :: "FakeVehicleHardware \<Rightarrow> 'a special" where
  "not_special h = Some (None, h)"

text \<open>The guards of cruise control, with what is done when they pass.\<close>

definition if_adas_available :: "int32 \<Rightarrow> (FakeVehicleHardware \<Rightarrow> 'a special) \<Rightarrow> FakeVehicleHardware \<Rightarrow> 'a special" where
  "if_adas_available propId continue h =
     (case isAdasPropertyAvailable propId h of (Inl e, h1) \<Rightarrow> special_error e h1 | (Inr _, h1) \<Rightarrow> continue h1)"

definition unless_standard :: "bool \<Rightarrow> FakeVehicleHardware \<Rightarrow> 'a special" where
  "unless_standard refused h = do {
     (standard, h1) \<leftarrow> isCruiseControlTypeStandard h;
     (case standard of
        Inl e \<Rightarrow> special_error e h1
      | Inr b \<Rightarrow> if b \<and> refused then special_error NOT_AVAILABLE_DISABLED h1 else not_special h1)
   }"

definition maybeGetSpecialValue :: "power_service \<Rightarrow> VehiclePropValue \<Rightarrow> FakeVehicleHardware \<Rightarrow> recyclable special" where
  "maybeGetSpecialValue service v h =
     (let propId = pv_prop v
      in if mPowerControllerServiceAddress h \<noteq> [] \<and> propId \<in> {VEHICLE_IN_USE, AP_POWER_BOOTUP_REASON}
         then map_option (\<lambda>(r, h'). (Some r, h')) (getPowerPropFromExternalService service propId h)
         else if is_test_vendor_property propId
         then do {
           (r, pool) \<leftarrow> obtainInt32 5 (mValuePool (mServerSidePropStore h));
           let (now, h') = elapsedRealtimeNano (h\<lparr>mServerSidePropStore := (mServerSidePropStore h)\<lparr>mValuePool := pool\<rparr>\<rparr>);
           Some (Some (Inr (r\<lparr>r_value := (r_value r)\<lparr>pv_prop := propId, pv_areaId := 0, pv_timestamp := now\<rparr>\<rparr>)), h')
         }
         else if isSupported propId then map_option (\<lambda>(r, h'). (Some r, h')) (getUserHalProp v h)
         else
           let (off, h1) = isHvacPropAndHvacNotAvailable propId (pv_areaId v) h
           in if off then special_error NOT_AVAILABLE_DISABLED h1
              else if propId = OBD2_FREEZE_FRAME
              then let (r, h2) = stamp_if_ok (hw_store (getObd2FreezeFrame v) h1) in Some (Some r, h2)
              else if propId = OBD2_FREEZE_FRAME_INFO
              then let (r, h2) = stamp_if_ok (hw_store getObd2DtcInfo h1) in Some (Some r, h2)
              else if propId = ECHO_REVERSE_BYTES then let (r, h2) = getEchoReverseBytes v h1 in Some (Some r, h2)
              else if propId = VENDOR_PROPERTY_FOR_ERROR_CODE_TESTING then Some (Some (Inl VENDOR_ERROR_CODE), h1)
              else if propId = CRUISE_CONTROL_TARGET_SPEED then if_adas_available CRUISE_CONTROL_STATE not_special h1
              else if propId \<in> {ADAPTIVE_CRUISE_CONTROL_TARGET_TIME_GAP, ADAPTIVE_CRUISE_CONTROL_LEAD_VEHICLE_MEASURED_DISTANCE}
              then if_adas_available CRUISE_CONTROL_STATE (unless_standard True) h1
              else not_special h1)"

definition fake_getValue :: "power_service \<Rightarrow> VehiclePropValue \<Rightarrow> FakeVehicleHardware \<Rightarrow> (recyclable hw_result \<times> FakeVehicleHardware) option" where
  "fake_getValue service v h = do {
     (special, h1) \<leftarrow> maybeGetSpecialValue service v h;
     (case special of
        Some r \<Rightarrow> Some (r, h1)
      | None \<Rightarrow> let (r, h2) = hw_store (readValue v) h1 in Some (coded r, h2))
   }"

section \<open>Setting values\<close>

definition special_result :: "unit VhalResult \<times> FakeVehicleHardware \<Rightarrow> unit special" where
  "special_result res = (case res of (r, h) \<Rightarrow> Some (Some (coded r), h))"

definition adas_enabled_written :: "VehiclePropValue \<Rightarrow> FakeVehicleHardware \<Rightarrow> FakeVehicleHardware option" where
  "adas_enabled_written v h =
     (case (map_of mAdasEnabledPropToAdasPropWithErrorState (pv_prop v), int32Values (pv_value v)) of
        (Some _, [x]) \<Rightarrow> sendAdasPropertiesState (pv_prop v) (if x = 1 then 1 else ErrorState_NOT_AVAILABLE_DISABLED) h
      | _ \<Rightarrow> Some h)"

definition set_hvac_power :: "VehiclePropValue \<Rightarrow> FakeVehicleHardware \<Rightarrow> unit special" where
  "set_hvac_power v h =
     (case int32Values (pv_value v) of
        [x] \<Rightarrow> not_special (sendHvacPropertiesCurrentValues (pv_areaId v) x h)
      | _ \<Rightarrow> special_error INVALID_ARG h)"

definition set_hvac_temperature :: "VehiclePropValue \<Rightarrow> FakeVehicleHardware \<Rightarrow> unit special" where
  "set_hvac_temperature v h =
     (case floatValues (pv_value v) of
        [t] \<Rightarrow>
          (case getSyncedAreaIdIfHvacDualOn (pv_areaId v) h of
             (Some dualArea, h1) \<Rightarrow> Option.bind (synchronizeHvacTemp dualArea (Some t) h1) special_result
           | (None, h1) \<Rightarrow> not_special h1)
      | _ \<Rightarrow> special_error INVALID_ARG h)"

definition set_hvac_dual :: "VehiclePropValue \<Rightarrow> FakeVehicleHardware \<Rightarrow> unit special" where
  "set_hvac_dual v h =
     (case int32Values (pv_value v) of
        [x] \<Rightarrow> if x = 1 then Option.bind (synchronizeHvacTemp (pv_areaId v) None h) (\<lambda>(_, h'). not_special h') else not_special h
      | _ \<Rightarrow> special_error INVALID_ARG h)"

definition set_cruise_command :: "VehiclePropValue \<Rightarrow> FakeVehicleHardware \<Rightarrow> unit special" where
  "set_cruise_command v h = do {
     (standard, h1) \<leftarrow> isCruiseControlTypeStandard h;
     (case standard of
        Inl e \<Rightarrow> special_error e h1
      | Inr b \<Rightarrow>
          if \<not> b then not_special h1
          else do {
            command \<leftarrow> int_at 0 v;
            if command \<in> {INCREASE_TARGET_TIME_GAP, DECREASE_TARGET_TIME_GAP} then special_error NOT_AVAILABLE_DISABLED h1
            else not_special h1
          })
   }"

definition maybeSetSpecialValue :: "VehiclePropValue \<Rightarrow> FakeVehicleHardware \<Rightarrow> unit special" where
  "maybeSetSpecialValue v h =
     (let propId = pv_prop v
      in if is_test_vendor_property propId then Some (Some (Inr ()), h)
         else if isSupported propId then Option.bind (setUserHalProp v h) special_result
         else
           let (off, h0) = isHvacPropAndHvacNotAvailable propId (pv_areaId v) h
           in if off then special_error NOT_AVAILABLE_DISABLED h0
              else do {
                h1 \<leftarrow> adas_enabled_written v h0;
                if propId = DISPLAY_BRIGHTNESS \<or> propId = PER_DISPLAY_BRIGHTNESS then not_special h1
                else if propId = AP_POWER_STATE_REPORT then Option.bind (setApPowerStateReport v h1) special_result
                else if propId = SHUTDOWN_REQUEST then Option.bind (setApPowerStateReqShutdown v h1) special_result
                else if propId = VEHICLE_MAP_SERVICE then Some (Some (Inr ()), h1)
                else if propId = OBD2_FREEZE_FRAME_CLEAR then special_result (hw_store (clearObd2FreezeFrames v) h1)
                else if propId = VENDOR_PROPERTY_FOR_ERROR_CODE_TESTING then Some (Some (Inl VENDOR_ERROR_CODE), h1)
                else if propId = HVAC_POWER_ON then set_hvac_power v h1
                else if propId = HVAC_TEMPERATURE_VALUE_SUGGESTION
                then Option.bind (setHvacTemperatureValueSuggestion v h1) special_result
                else if propId = HVAC_TEMPERATURE_SET then set_hvac_temperature v h1
                else if propId = HVAC_DUAL_ON then set_hvac_dual v h1
                else if propId = LANE_CENTERING_ASSIST_COMMAND then if_adas_available LANE_CENTERING_ASSIST_STATE not_special h1
                else if propId = CRUISE_CONTROL_COMMAND then if_adas_available CRUISE_CONTROL_STATE (set_cruise_command v) h1
                else if propId = ADAPTIVE_CRUISE_CONTROL_TARGET_TIME_GAP
                then if_adas_available CRUISE_CONTROL_STATE (unless_standard True) h1
                else not_special h1
              })"

definition fake_setValue :: "VehiclePropValue \<Rightarrow> FakeVehicleHardware \<Rightarrow> (unit hw_result \<times> FakeVehicleHardware) option" where
  "fake_setValue v h = do {
     (special, h1) \<leftarrow> maybeSetSpecialValue v h;
     (case special of
        Some r \<Rightarrow> Some (r, h1)
      | None \<Rightarrow>
          let (updated, h2) = hw_pool (obtain_copy v) h1; (r, h3) = hw_write updated False ON_VALUE_CHANGE True h2
          in Some (coded r, h3))
   }"

section \<open>Requests\<close>

text \<open>A result is the id of the request, its status and, for a read, the value. The object read is released after it was copied.\<close>

definition handleSetValueRequest :: "SetValueRequest \<Rightarrow> FakeVehicleHardware \<Rightarrow> ((int64 \<times> int32) \<times> FakeVehicleHardware) option" where
  "handleSetValueRequest request h = do {
     (result, h') \<leftarrow> fake_setValue (sr_value request) h;
     Some ((sr_requestId request, (case result of Inl e \<Rightarrow> e | Inr _ \<Rightarrow> StatusCode_toInt OK)), h')
   }"

definition handleGetValueRequest ::
  "power_service \<Rightarrow> GetValueRequest \<Rightarrow> FakeVehicleHardware \<Rightarrow> ((int64 \<times> int32 \<times> VehiclePropValue option) \<times> FakeVehicleHardware) option" where
  "handleGetValueRequest service request h = do {
     (result, h') \<leftarrow> fake_getValue service (gr_prop request) h;
     (case result of
        Inl e \<Rightarrow> Some ((gr_requestId request, e, None), h')
      | Inr r \<Rightarrow> Some ((gr_requestId request, StatusCode_toInt OK, Some (r_value r)), hw_drop [r] h'))
   }"

text \<open>
  A handler keeps the requests with their callbacks; its thread takes all that are waiting, handles them and then calls every
  callback once with its results.
\<close>

type_synonym ('c, 'q) PendingRequestHandler = "('q \<times> 'c) ConcurrentQueue"

definition addRequest :: "'c \<Rightarrow> 'q \<Rightarrow> ('c, 'q) PendingRequestHandler \<Rightarrow> ('c, 'q) PendingRequestHandler" where
  "addRequest callback request q = queue_push (request, callback) q"

definition fake_addRequests :: "'c \<Rightarrow> 'q list \<Rightarrow> ('c, 'q) PendingRequestHandler \<Rightarrow> StatusCode \<times> ('c, 'q) PendingRequestHandler" where
  "fake_addRequests callback requests q = (OK, fold (addRequest callback) requests q)"

fun handle_all ::
  "('q \<Rightarrow> 'h \<Rightarrow> ('r \<times> 'h) option) \<Rightarrow> ('q \<times> 'c) list \<Rightarrow> ('c \<times> 'r list) list \<Rightarrow> 'h \<Rightarrow> (('c \<times> 'r list) list \<times> 'h) option" where
  "handle_all f [] results h = Some (results, h)"
| "handle_all f ((request, callback) # rest) results h = do {
     (r, h') \<leftarrow> f request h;
     handle_all f rest (AList.update callback (lookup_or [] callback results @ [r]) results) h'
   }"

definition handleRequestsOnce ::
  "('q \<Rightarrow> 'h \<Rightarrow> ('r \<times> 'h) option) \<Rightarrow> ('c, 'q) PendingRequestHandler \<Rightarrow> 'h \<Rightarrow> ((('c \<times> 'r list) list \<times> ('c, 'q) PendingRequestHandler) \<times> 'h) option" where
  "handleRequestsOnce f q h = do {
     let (items, q') = flush q;
     (results, h') \<leftarrow> handle_all f items [] h;
     Some ((results, q'), h')
   }"

end
