(* ===== verification/FakeInvariants.thy ===== *)
theory FakeInvariants
  imports FakeValues
begin

section \<open>What reading and writing keeps\<close>

text \<open>A property of the new state, where there is one.\<close>

definition kept :: "(FakeVehicleHardware \<Rightarrow> bool) \<Rightarrow> ('a \<times> FakeVehicleHardware) option \<Rightarrow> bool" where
  "kept P res \<longleftrightarrow> (case res of None \<Rightarrow> True | Some (_, h') \<Rightarrow> P h')"

text \<open>A property of the state that the store, the pool, the user HAL and the clock keep is kept by every read and write.\<close>

locale hw_kept =
  fixes P :: "FakeVehicleHardware \<Rightarrow> bool"
  assumes keep_tick [simp]: "P h \<Longrightarrow> P (snd (elapsedRealtimeNano h))"
    and keep_user [simp]: "P h \<Longrightarrow> P (h\<lparr>mFakeUserHal := u\<rparr>)"
    and keep_obtain: "proper_type t \<Longrightarrow> P h \<Longrightarrow> P (snd (hw_pool (obtain_sized t n) h))"
    and keep_copy [simp]: "P h \<Longrightarrow> P (snd (hw_pool (obtain_copy v) h))"
    and keep_drop [simp]: "P h \<Longrightarrow> P (hw_drop rs h)"
    and keep_read [simp]: "P h \<Longrightarrow> P (snd (hw_store (readValue v) h))"
    and keep_read_token [simp]: "P h \<Longrightarrow> P (snd (hw_store (readValue_token p a i) h))"
    and keep_read_all [simp]: "P h \<Longrightarrow> P (snd (hw_store (readValuesForProperty p) h))"
    and keep_frame [simp]: "P h \<Longrightarrow> P (snd (hw_store (getObd2FreezeFrame v) h))"
    and keep_frame_info [simp]: "P h \<Longrightarrow> P (snd (hw_store getObd2DtcInfo h))"
    and keep_frame_clear [simp]: "P h \<Longrightarrow> P (snd (hw_store (clearObd2FreezeFrames v) h))"
    and keep_write [simp]: "P h \<Longrightarrow> P (snd (hw_write r us m uct h))"
begin

lemma keep_obtain_int:
  assumes "obtainInt32 i (mValuePool (mServerSidePropStore h)) = Some (r, pool)" and "P h"
  shows "P (h\<lparr>mServerSidePropStore := (mServerSidePropStore h)\<lparr>mValuePool := pool\<rparr>\<rparr>)"
proof -
  have "pool = snd (obtain_sized INT32 1 (mValuePool (mServerSidePropStore h)))"
    using assms(1) by (auto simp: obtainInt32_def obtain_type_def isComplexType_def Let_def case_prod_beta)
  then show ?thesis using keep_obtain [of INT32 h 1] assms(2)
    by (simp add: hw_pool_def hw_store_def Let_def case_prod_beta)
qed

lemma keep_createAp: "createApPowerStateReq st h = Some x \<Longrightarrow> P h \<Longrightarrow> P (snd x)"
  by (auto simp: createApPowerStateReq_def Let_def keep_obtain bind_eq_Some_conv case_prod_beta)

lemma keep_shutdown: "setApPowerStateReqShutdown v h = Some x \<Longrightarrow> P h \<Longrightarrow> P (snd x)"
  by (auto simp: setApPowerStateReqShutdown_def bind_eq_Some_conv case_prod_beta dest!: keep_createAp split: list.splits)

lemma keep_report: "setApPowerStateReport v h = Some x \<Longrightarrow> P h \<Longrightarrow> P (snd x)"
  by (auto simp: setApPowerStateReport_def Let_def bind_eq_Some_conv case_prod_beta dest!: keep_createAp split: sum.splits if_splits)

lemma keep_suggestion: "setHvacTemperatureValueSuggestion v h = Some x \<Longrightarrow> P h \<Longrightarrow> P (snd x)"
  by (auto simp: setHvacTemperatureValueSuggestion_def Let_def bind_eq_Some_conv case_prod_beta split: sum.splits if_splits)

lemma keep_off [simp]: "P h \<Longrightarrow> P (snd (isHvacPropAndHvacNotAvailable p a h))"
  by (auto simp: isHvacPropAndHvacNotAvailable_def case_prod_beta split: sum.split)

lemma keep_send_current [simp]: "P h \<Longrightarrow> P (send_current a p rs h)"
  by (induction rs arbitrary: h) (simp_all add: Let_def case_prod_beta)

lemma keep_send_props [simp]: "P h \<Longrightarrow> P (send_props a p ps h)"
  by (induction ps arbitrary: h) (simp_all add: case_prod_beta split: sum.split)

lemma keep_sync_loop: "synchronize_loop a t ks rs h = Some x \<Longrightarrow> P h \<Longrightarrow> P (snd x)"
proof (induction rs arbitrary: t ks h)
  case (Cons r rs)
  from Cons.prems show ?case
    by (auto simp: Let_def case_prod_beta dest!: Cons.IH split: sum.splits if_splits option.splits list.splits)
qed auto

lemma keep_sync: "synchronizeHvacTemp a t h = Some x \<Longrightarrow> P h \<Longrightarrow> P (snd x)"
  by (auto simp: synchronizeHvacTemp_def case_prod_beta dest!: keep_sync_loop split: sum.splits)

lemma keep_synced [simp]: "P h \<Longrightarrow> P (snd (getSyncedAreaIdIfHvacDualOn a h))"
  by (auto simp: getSyncedAreaIdIfHvacDualOn_def case_prod_beta split: sum.split)

lemma keep_available [simp]: "P h \<Longrightarrow> P (snd (isAdasPropertyAvailable p h))"
  by (auto simp: isAdasPropertyAvailable_def case_prod_beta split: sum.split)

lemma keep_standard: "isCruiseControlTypeStandard h = Some x \<Longrightarrow> P h \<Longrightarrow> P (snd x)"
  by (auto simp: isCruiseControlTypeStandard_def case_prod_beta split: sum.splits)

lemma obtain_int_type: "obtain_type INT32 = obtain_sized INT32 1"
  by (simp add: fun_eq_iff obtain_type_def isComplexType_def)

lemma keep_createAdas: "createAdasStateReq p a st h = Some x \<Longrightarrow> P h \<Longrightarrow> P (snd x)"
  by (auto simp: createAdasStateReq_def obtain_int_type Let_def keep_obtain bind_eq_Some_conv case_prod_beta)

lemma keep_adas_areas: "send_adas_areas p st as h = Some h' \<Longrightarrow> P h \<Longrightarrow> P h'"
proof (induction as arbitrary: h)
  case (Cons a as)
  from Cons.prems show ?case by (auto simp: bind_eq_Some_conv case_prod_beta dest!: Cons.IH keep_createAdas)
qed simp

lemma keep_send_adas: "send_adas st ps h = Some h' \<Longrightarrow> P h \<Longrightarrow> P h'"
proof (induction ps arbitrary: h)
  case (Cons p ps)
  from Cons.prems show ?case by (auto simp: bind_eq_Some_conv dest!: keep_adas_areas Cons.IH split: sum.splits)
qed simp

lemma keep_enabled: "adas_enabled_written v h = Some h' \<Longrightarrow> P h \<Longrightarrow> P h'"
  by (auto simp: adas_enabled_written_def sendAdasPropertiesState_def bind_eq_Some_conv dest!: keep_send_adas split: option.splits list.splits)

lemma keep_user_set:
  assumes "setUserHalProp v h = Some x"
  shows "P h \<Longrightarrow> P (snd x)"
proof -
  obtain now h1 where t: "elapsedRealtimeNano h = (now, h1)" by fastforce
  with assms obtain result u where u: "onSetProperty now v (mFakeUserHal h1) = Some (result, u)"
    by (auto simp: setUserHalProp_def bind_eq_Some_conv)
  assume "P h"
  then have "P h1" using keep_tick [of h] t by simp
  with assms t u show "P (snd x)" by (auto simp: setUserHalProp_def Let_def case_prod_beta split: sum.splits option.splits)
qed

lemma keep_user_get:
  assumes "getUserHalProp v h = Some x"
    and "P h"
  shows "P (snd x)"
proof -
  from assms obtain result where "onGetProperty v (mFakeUserHal h) = Some result"
    by (auto simp: getUserHalProp_def bind_eq_Some_conv)
  with assms show ?thesis by (auto simp: getUserHalProp_def Let_def case_prod_beta split: sum.splits option.splits)
qed

lemma keep_echo [simp]: "P h \<Longrightarrow> P (snd (getEchoReverseBytes v h))" "P (snd x) \<Longrightarrow> P (snd (stamp_if_ok x))"
  by (auto simp: getEchoReverseBytes_def stamp_if_ok_def Let_def case_prod_beta split: sum.split)

lemma keep_power: "getPowerPropFromExternalService sv p h = Some x \<Longrightarrow> P h \<Longrightarrow> P (snd x)"
  by (auto simp: getPowerPropFromExternalService_def getVehicleInUse_def getApPowerBootupReason_def power_value_def Let_def bind_eq_Some_conv
      case_prod_beta obtainBoolean_def dest!: keep_obtain_int split: if_splits option.splits)


lemma keptI: "(\<And>x. res = Some x \<Longrightarrow> P (snd x)) \<Longrightarrow> kept P res"
  by (auto simp: kept_def split: option.split)

lemma keptD: "kept P (Some (y, h')) \<Longrightarrow> P h'"
  by (simp add: kept_def)

lemma kept_simps [simp]:
  "kept P None" "kept P (Some x) \<longleftrightarrow> P (snd x)"
  "kept P (map_option (\<lambda>(r, h'). (g r, h')) res) = kept P res"
  "kept P (map_option (\<lambda>x. (g (fst x), snd x)) res) = kept P res"
  "kept P (special_error e h1) \<longleftrightarrow> P h1" "kept P (not_special h1) \<longleftrightarrow> P h1" "kept P (special_result y) \<longleftrightarrow> P (snd y)"
  by (auto simp: kept_def special_error_def not_special_def special_result_def split: option.split prod.split)

lemma kept_if: "(b \<Longrightarrow> kept P x) \<Longrightarrow> (\<not> b \<Longrightarrow> kept P y) \<Longrightarrow> kept P (if b then x else y)"
  by simp

lemma kept_bind: "kept P m \<Longrightarrow> (\<And>x h1. P h1 \<Longrightarrow> kept P (f (x, h1))) \<Longrightarrow> kept P (Option.bind m f)"
  by (cases m) (auto simp: kept_def)

lemma kept_bind_state: "(\<And>h1. m = Some h1 \<Longrightarrow> kept P (f h1)) \<Longrightarrow> kept P (Option.bind m f)"
  by (cases m) auto

lemma kept_ops:
  assumes "P h"
  shows "kept P (getPowerPropFromExternalService sv p h)" "kept P (getUserHalProp v h)" "kept P (setUserHalProp v h)"
    "kept P (isCruiseControlTypeStandard h)" "kept P (synchronizeHvacTemp a t h)" "kept P (setApPowerStateReport v h)"
    "kept P (setApPowerStateReqShutdown v h)" "kept P (setHvacTemperatureValueSuggestion v h)"
  using assms
  by (blast intro: keptI keep_power keep_user_get keep_user_set keep_standard keep_sync keep_report keep_shutdown keep_suggestion)+

lemma kept_available: "P h \<Longrightarrow> (\<And>h1. P h1 \<Longrightarrow> kept P (c h1)) \<Longrightarrow> kept P (if_adas_available p c h)"
  using keep_available [of h p] by (auto simp: if_adas_available_def case_prod_beta split: sum.split)

lemma kept_standard: "P h \<Longrightarrow> kept P (unless_standard b h)"
  unfolding unless_standard_def by (rule kept_bind [OF kept_ops(4)]) (auto split: sum.split)

lemma kept_hvac: "P h \<Longrightarrow> kept P (set_hvac_power v h)" "P h \<Longrightarrow> kept P (set_hvac_temperature v h)" "P h \<Longrightarrow> kept P (set_hvac_dual v h)"
  using keep_synced [of h "pv_areaId v"]
  by (auto simp: set_hvac_power_def sendHvacPropertiesCurrentValues_def set_hvac_temperature_def set_hvac_dual_def case_prod_beta
      split: list.split option.split intro!: kept_bind kept_ops)

lemma kept_cruise: "P h \<Longrightarrow> kept P (set_cruise_command v h)"
  unfolding set_cruise_command_def
  by (rule kept_bind [OF kept_ops(4)]) (auto simp: int_at_def split: sum.split)

lemma kept_maybe_get:
  assumes "P h"
  shows "kept P (maybeGetSpecialValue service v h)"
proof -
  have off: "P (snd (isHvacPropAndHvacNotAvailable (pv_prop v) (pv_areaId v) h))" using assms by simp
  have vendor: "P (h\<lparr>mServerSidePropStore := (mServerSidePropStore h)\<lparr>mValuePool := snd x\<rparr>\<rparr>)"
    if "obtainInt32 5 (mValuePool (mServerSidePropStore h)) = Some x" for x
    using keep_obtain_int [of 5 h "fst x" "snd x"] that assms by simp
  show ?thesis unfolding maybeGetSpecialValue_def Let_def case_prod_beta
    by (intro kept_if kept_bind_state kept_available kept_standard) (simp_all add: kept_ops assms off vendor)
qed

lemma kept_maybe_set:
  assumes "P h"
  shows "kept P (maybeSetSpecialValue v h)"
proof -
  have "P (snd (isHvacPropAndHvacNotAvailable (pv_prop v) (pv_areaId v) h))" using assms by simp
  then have "P h1" if "adas_enabled_written v (snd (isHvacPropAndHvacNotAvailable (pv_prop v) (pv_areaId v) h)) = Some h1" for h1
    using keep_enabled [OF that] by blast
  then show ?thesis using assms unfolding maybeSetSpecialValue_def Let_def case_prod_beta
    by (intro kept_if kept_bind_state kept_available kept_standard kept_hvac kept_cruise)
      (simp_all add: keep_user_set keep_report keep_shutdown keep_suggestion)
qed

lemma kept_getValue:
  assumes "P h" and "fake_getValue service v h = Some (r, h')"
  shows "P h'"
proof (rule keptD)
  have "kept P (fake_getValue service v h)" unfolding fake_getValue_def
    by (rule kept_bind [OF kept_maybe_get [OF assms(1)]]) (auto simp: Let_def case_prod_beta split: option.split)
  then show "kept P (Some (r, h'))" by (simp add: assms(2))
qed

lemma kept_setValue:
  assumes "P h" and "fake_setValue v h = Some (r, h')"
  shows "P h'"
proof (rule keptD)
  have "kept P (fake_setValue v h)" unfolding fake_setValue_def
    by (rule kept_bind [OF kept_maybe_set [OF assms(1)]]) (auto simp: Let_def case_prod_beta split: option.split)
  then show "kept P (Some (r, h'))" by (simp add: assms(2))
qed

end

section \<open>What is kept\<close>

text \<open>The subscriptions and the timer.\<close>

definition subs_part where
  "subs_part h = (mRefreshInfoByPropIdAreaId h, mActionByIntervalInNanos h, mSubOnChangePropIdAreaIds h, mRecurrentTimer h, next_action h,
     mOnPropertyChangeCallback h, clock h, hvacPowerDependentProps h)"

lemma subs_part_simps [simp]:
  "subs_part (h\<lparr>mServerSidePropStore := s\<rparr>) = subs_part h" "subs_part (h\<lparr>mFakeUserHal := u\<rparr>) = subs_part h"
  "subs_part (h\<lparr>emitted := e\<rparr>) = subs_part h" "subs_part (h\<lparr>ticks := n\<rparr>) = subs_part h" "subs_part (hw_drop rs h) = subs_part h"
  by (simp_all add: subs_part_def hw_drop_def)

lemma callbacks_keep:
  "subs_part (fold store_callback cs h) = subs_part h" "mServerSidePropStore (fold store_callback cs h) = mServerSidePropStore h"
  using store_callbacks_frame [of cs h] by (auto simp: subs_part_def)

interpretation kept_subs: hw_kept "\<lambda>h. subs_part h = c" for c
  by unfold_locales
    (simp_all add: elapsedRealtimeNano_def hw_pool_def hw_store_def hw_write_def Let_def case_prod_beta callbacks_keep)

text \<open>The invariant of the store.\<close>

lemma obd2_inv [wf_intros]:
  assumes "store_inv s"
  shows "store_inv (snd (getObd2FreezeFrame v s))" "store_inv (snd (getObd2DtcInfo s))" "store_inv (snd (clearObd2FreezeFrames v s))"
proof -
  have all: "store_inv (snd (readValuesForProperty p s))" for p using assms by (rule wf_intros)
  show "store_inv (snd (getObd2FreezeFrame v s))"
    unfolding getObd2FreezeFrame_def case_prod_beta
    by (auto simp: assms all intro!: wf_intros split: sum.split)
  have "vp_inv (mValuePool (snd (readValuesForProperty OBD2_FREEZE_FRAME s)))" using all by (simp add: store_inv_def)
  then show "store_inv (snd (getObd2DtcInfo s))"
    unfolding getObd2DtcInfo_def case_prod_beta Let_def
    by (auto simp: all assms intro!: wf_intros split: sum.split)
  have "store_inv (snd (clear_frames ts s'))" if "store_inv s'" for ts s'
    using that
  proof (induction ts arbitrary: s')
    case (Cons t ts)
    have "store_inv (snd (readValue_token OBD2_FREEZE_FRAME 0 t s'))" using Cons.prems by (rule wf_intros)
    then show ?case by (auto simp: case_prod_beta intro!: Cons.IH wf_intros split: sum.split)
  qed simp
  with assms show "store_inv (snd (clearObd2FreezeFrames v s))"
    by (auto simp: clearObd2FreezeFrames_def intro: wf_intros)
qed

lemma drop_store [simp]: "mServerSidePropStore (hw_drop rs h) = drop_values rs (mServerSidePropStore h)"
  by (simp add: hw_drop_def)

interpretation kept_store: hw_kept "\<lambda>h. store_inv (mServerSidePropStore h)"
  by unfold_locales
    (auto simp: elapsedRealtimeNano_def hw_pool_def hw_store_def hw_write_def Let_def case_prod_beta callbacks_keep store_inv_def [of "mServerSidePropStore h" for h]
      intro!: wf_intros)

end
