(* ===== verification/FakeAccess.thy ===== *)
theory FakeAccess
  imports FakeInvariants
begin

text \<open>
  Reading and writing of the fake hardware (\<^verbatim>\<open>FakeVehicleHardware.cpp\<close>) in terms of the contents of its store: what one write
  does and whom it tells, and the effect of the requests for properties that the hardware has no special rule for.
\<close>

section \<open>Reading and writing through the hardware\<close>

text \<open>The contents of the store.\<close>

abbreviation values_of :: "FakeVehicleHardware \<Rightarrow> int32 \<times> RecordId \<Rightarrow> VehiclePropValue option" where
  "values_of h \<equiv> abs_store (mServerSidePropStore h)"

abbreviation key_of :: "FakeVehicleHardware \<Rightarrow> VehiclePropValue \<Rightarrow> (int32 \<times> RecordId) option" where
  "key_of h v \<equiv> store_key (mServerSidePropStore h) v"

definition event_of :: "FakeVehicleHardware \<Rightarrow> callback_call \<Rightarrow> VehiclePropValue list list" where
  "event_of h c =
     (if \<not> mOnPropertyChangeCallback h then []
      else [filter (\<lambda>v. is_subscribed h \<lparr>pa_propId = pv_prop v, pa_areaId = pv_areaId v\<rparr>)
              (case c of OnValueChange v \<Rightarrow> [v] | OnValuesChange vs \<Rightarrow> vs)])"

lemma event_of_cong: "subs_part h' = subs_part h \<Longrightarrow> event_of h' = event_of h"
  by (auto simp: event_of_def subs_part_def is_subscribed_def fun_eq_iff)

lemma callbacks_emitted: "emitted (fold store_callback cs h) = emitted h @ concat (map (event_of h) cs)"
proof (induction cs arbitrary: h)
  case (Cons c cs)
  have one: "emitted (store_callback c h) = emitted h @ event_of h c" "subs_part (store_callback c h) = subs_part h"
    by (cases c; simp add: onValueChangeCallback_def onValuesChangeCallback_def event_of_def subs_part_def)+
  show ?case using Cons [of "store_callback c h"] event_of_cong [OF one(2)] one(1) by simp
qed simp

lemma hw_write_spec:
  assumes "hw_write r us m uct h = (res, h')"
  obtains calls where "spec_write (mServerSidePropStore h) (stamped r uct (clock h (ticks h))) us m = (res, calls, values_of h')"
    and "emitted h' = emitted h @ concat (map (event_of h) calls)" and "\<And>v. key_of h' v = key_of h v"
    and "ticks h' = (if uct then Suc (ticks h) else ticks h)" and "mFakeUserHal h' = mFakeUserHal h"
proof -
  define h1 where "h1 = (if uct then h\<lparr>ticks := Suc (ticks h)\<rparr> else h)"
  define now where "now = (if uct then clock h (ticks h) else 0)"
  have "(if uct then elapsedRealtimeNano h else (0, h)) = (now, h1)" by (simp add: h1_def now_def elapsedRealtimeNano_def)
  moreover obtain calls s where w: "writeValue r us m uct now (mServerSidePropStore h) = (res, calls, s)"
    and h': "h' = fold store_callback calls (h1\<lparr>mServerSidePropStore := s\<rparr>)"
    using assms calculation by (auto simp: hw_write_def h1_def split: prod.splits if_splits)
  have st: "stamped r uct now = stamped r uct (clock h (ticks h))" by (simp add: stamped_def now_def)
  have part: "subs_part (h1\<lparr>mServerSidePropStore := s\<rparr>) = subs_part h" by (simp add: h1_def)
  obtain e where frame: "h' = h1\<lparr>mServerSidePropStore := s, emitted := e\<rparr>"
    using store_callbacks_frame [of calls "h1\<lparr>mServerSidePropStore := s\<rparr>"] h' by auto
  show thesis
  proof (rule that)
    show "spec_write (mServerSidePropStore h) (stamped r uct (clock h (ticks h))) us m = (res, calls, values_of h')"
      using writeValue_spec [of r us m uct now "mServerSidePropStore h"] unfolding st w by (simp add: frame)
    show "emitted h' = emitted h @ concat (map (event_of h) calls)"
      unfolding h' callbacks_emitted event_of_cong [OF part] by (simp add: h1_def)
    show "key_of h' v = key_of h v" for v using store_key_writeValue [OF w] by (simp add: frame)
  qed (simp_all add: frame h1_def)
qed

lemma hw_copy:
  assumes "hw_pool (obtain_copy v) h = (r, h')"
  obtains p where "r_value r = v" and "h' = h\<lparr>mServerSidePropStore := (mServerSidePropStore h)\<lparr>mValuePool := p\<rparr>\<rparr>"
  using assms obtain_copy_same [of v "mValuePool (mServerSidePropStore h)"]
  by (auto simp: hw_pool_def hw_store_def Let_def split: prod.splits)

lemma store_key_pool [simp]: "store_key (s\<lparr>mValuePool := p\<rparr>) v = store_key s v" "store_key (drop_values rs s) v = store_key s v"
  by (simp_all add: store_key_def)

lemma write_allowed_pool [simp]: "write_allowed (s\<lparr>mValuePool := p\<rparr>) v = write_allowed s v" "write_allowed (drop_values rs s) v = write_allowed s v"
  unfolding write_allowed_def abs_drop getRecord_drop by (rule refl)+

lemma hw_read:
  assumes "hw_store (readValue v) h = (res, h')"
  shows "map_sum id r_value res = (case key_of h v of None \<Rightarrow> Inl INVALID_ARG
      | Some k \<Rightarrow> (case values_of h k of None \<Rightarrow> Inl NOT_AVAILABLE | Some w \<Rightarrow> Inr w))"
    and "values_of h' = values_of h"
  using assms readValue_abs [of v "mServerSidePropStore h"] by (auto simp: hw_store_def split: prod.splits)

section \<open>Ordinary properties\<close>

definition special_props :: "int32 list" where
  "special_props = [OBD2_FREEZE_FRAME, OBD2_FREEZE_FRAME_INFO, OBD2_FREEZE_FRAME_CLEAR, ECHO_REVERSE_BYTES, VENDOR_PROPERTY_FOR_ERROR_CODE_TESTING,
     AP_POWER_STATE_REPORT, SHUTDOWN_REQUEST, VEHICLE_MAP_SERVICE, HVAC_POWER_ON, HVAC_TEMPERATURE_VALUE_SUGGESTION, HVAC_TEMPERATURE_SET,
     HVAC_DUAL_ON, LANE_CENTERING_ASSIST_COMMAND, CRUISE_CONTROL_COMMAND, CRUISE_CONTROL_TARGET_SPEED, ADAPTIVE_CRUISE_CONTROL_TARGET_TIME_GAP,
     ADAPTIVE_CRUISE_CONTROL_LEAD_VEHICLE_MEASURED_DISTANCE]"

definition ordinary_prop :: "FakeVehicleHardware \<Rightarrow> int32 \<Rightarrow> bool" where
  "ordinary_prop h p \<longleftrightarrow> \<not> is_test_vendor_property p \<and> \<not> isSupported p \<and> p \<notin> set (hvacPowerDependentProps h) \<and>
     map_of mAdasEnabledPropToAdasPropWithErrorState p = None \<and> p \<notin> set special_props \<and>
     (mPowerControllerServiceAddress h = [] \<or> p \<notin> {VEHICLE_IN_USE, AP_POWER_BOOTUP_REASON})"

lemma ordinary_not_special:
  assumes "ordinary_prop h (pv_prop v)"
  shows "maybeSetSpecialValue v h = Some (None, h)" and "maybeGetSpecialValue service v h = Some (None, h)"
  using assms
  by (auto simp: ordinary_prop_def special_props_def maybeSetSpecialValue_def maybeGetSpecialValue_def isHvacPropAndHvacNotAvailable_def
      adas_enabled_written_def not_special_def Let_def)

lemma ordinary_cong: "subs_part h' = subs_part h \<Longrightarrow> mPowerControllerServiceAddress h' = mPowerControllerServiceAddress h \<Longrightarrow>
    ordinary_prop h' p = ordinary_prop h p"
  by (simp add: ordinary_prop_def subs_part_def)

interpretation kept_address: hw_kept "\<lambda>h. mPowerControllerServiceAddress h = c" for c
proof unfold_locales
  have "mPowerControllerServiceAddress (fold store_callback cs h) = mPowerControllerServiceAddress h" for cs h
    using store_callbacks_frame [of cs h] by auto
  then show "mPowerControllerServiceAddress (snd (hw_write r us m uct h)) = c" if "mPowerControllerServiceAddress h = c" for r us m uct h
    using that by (simp add: hw_write_def elapsedRealtimeNano_def Let_def case_prod_beta)
qed (simp_all add: elapsedRealtimeNano_def hw_pool_def hw_store_def hw_drop_def Let_def case_prod_beta)

text \<open>The last step of setting a value that is not special.\<close>

lemma store_set:
  assumes "maybeSetSpecialValue v h0 = Some (None, h)"
  obtains r h1 res h' where "fake_setValue v h0 = Some (coded res, h')" and "r_value r = v" and "hw_write r False ON_VALUE_CHANGE True h1 = (res, h')"
    and "values_of h1 = values_of h" and "key_of h1 = key_of h" and "write_allowed (mServerSidePropStore h1) = write_allowed (mServerSidePropStore h)"
    and "subs_part h1 = subs_part h" and "ticks h1 = ticks h" and "emitted h1 = emitted h"
    and "mOnValuesChangeCallback (mServerSidePropStore h1) = mOnValuesChangeCallback (mServerSidePropStore h)"
proof -
  obtain r h1 where c: "hw_pool (obtain_copy v) h = (r, h1)" by fastforce
  obtain res h' where w: "hw_write r False ON_VALUE_CHANGE True h1 = (res, h')" by fastforce
  from c obtain p where r: "r_value r = v" and h1: "h1 = h\<lparr>mServerSidePropStore := (mServerSidePropStore h)\<lparr>mValuePool := p\<rparr>\<rparr>"
    by (rule hw_copy)
  have "fake_setValue v h0 = Some (coded res, h')" using c w by (simp add: fake_setValue_def assms)
  then show thesis
    by (rule that [OF _ r w]) (simp_all add: h1 fun_eq_iff)
qed

lemma ordinary_get:
  assumes "ordinary_prop h (pv_prop (gr_prop g))" and "key_of h (gr_prop g) = Some k" and "values_of h k = Some w"
  shows "\<exists>h'. handleGetValueRequest service g h = Some ((gr_requestId g, StatusCode_toInt OK, Some w), h') \<and> values_of h' = values_of h"
proof -
  obtain res h1 where rd: "hw_store (readValue (gr_prop g)) h = (res, h1)" by fastforce
  from hw_read [OF rd] assms obtain r where "res = Inr r" "r_value r = w" "values_of h1 = values_of h" by (cases res) auto
  with rd show ?thesis
    by (simp add: handleGetValueRequest_def fake_getValue_def ordinary_not_special(2) [OF assms(1)] coded_def)
qed

lemma store_set_effect:
  fixes h v
  defines "new \<equiv> v\<lparr>pv_timestamp := clock h (ticks h)\<rparr>"
  assumes ms: "maybeSetSpecialValue v h0 = Some (None, h)" and key: "key_of h new = Some k" and cb: "mOnValuesChangeCallback (mServerSidePropStore h)"
  obtains res h' where "fake_setValue v h0 = Some (coded res, h')" and "\<And>q. key_of h' q = key_of h q"
    and "if write_allowed (mServerSidePropStore h) new
      then let w = new\<lparr>pv_status := (case values_of h k of None \<Rightarrow> AVAILABLE | Some old \<Rightarrow> pv_status old)\<rparr>
        in res = Inr () \<and> values_of h' = (values_of h)(k \<mapsto> w) \<and>
          emitted h' = emitted h @ (if value_changed (values_of h k) w then event_of h (OnValuesChange [w]) else [])
      else res = Inl INVALID_ARG \<and> values_of h' = values_of h \<and> emitted h' = emitted h"
proof -
  obtain r h1 res h' where set: "fake_setValue v h0 = Some (coded res, h')" and r: "r_value r = v" and w: "hw_write r False ON_VALUE_CHANGE True h1 = (res, h')"
    and same: "values_of h1 = values_of h" "key_of h1 = key_of h" "write_allowed (mServerSidePropStore h1) = write_allowed (mServerSidePropStore h)"
      "subs_part h1 = subs_part h" "ticks h1 = ticks h" "emitted h1 = emitted h"
      "mOnValuesChangeCallback (mServerSidePropStore h1) = mOnValuesChangeCallback (mServerSidePropStore h)"
    by (rule store_set [OF ms]) blast
  obtain calls where spec: "spec_write (mServerSidePropStore h1) (stamped r True (clock h1 (ticks h1))) False ON_VALUE_CHANGE = (res, calls, values_of h')"
    and em: "emitted h' = emitted h1 @ concat (map (event_of h1) calls)" and keys: "\<And>v. key_of h' v = key_of h1 v"
    by (rule hw_write_spec [OF w]) blast
  have st: "stamped r True (clock h1 (ticks h1)) = new"
    using same(4,5) by (simp add: stamped_def r new_def subs_part_def)
  have k: "key_of h1 new = Some k" using key same(2) by simp
  have ev: "event_of h1 = event_of h" by (rule event_of_cong [OF same(4)])
  show thesis
  proof (rule that [OF set])
    show "key_of h' q = key_of h q" for q using keys same(2) by simp
    let ?w = "new\<lparr>pv_status := (case values_of h k of None \<Rightarrow> AVAILABLE | Some old \<Rightarrow> pv_status old)\<rparr>"
    have "written_value (mServerSidePropStore h1) k False new = ?w" by (simp add: written_value_def same)
    then have "spec_write (mServerSidePropStore h1) new False ON_VALUE_CHANGE =
        (if write_allowed (mServerSidePropStore h) new
         then (Inr (), if value_changed (values_of h k) ?w then [OnValuesChange [?w]] else [], (values_of h)(k \<mapsto> ?w))
         else (Inl INVALID_ARG, [], values_of h))"
      using k cb by (simp add: spec_write_def Let_def change_events_def same)
    with spec show "if write_allowed (mServerSidePropStore h) new
      then let w = ?w
        in res = Inr () \<and> values_of h' = (values_of h)(k \<mapsto> w) \<and>
          emitted h' = emitted h @ (if value_changed (values_of h k) w then event_of h (OnValuesChange [w]) else [])
      else res = Inl INVALID_ARG \<and> values_of h' = values_of h \<and> emitted h' = emitted h"
      unfolding st by (cases "value_changed (values_of h k) ?w") (auto simp: em same ev Let_def split: if_splits)
  qed
qed

end
