(* ===== verification/FakeWrites.thy ===== *)
theory FakeWrites
  imports FakeAccess
begin

text \<open>
  Operations of the fake hardware that write several values: a run of writes, each stamped with a reading of the clock, and
  the update of all areas of a property.
\<close>

section \<open>Sequences of stamped writes\<close>

text \<open>What a write does not change of a property: its configuration and how record ids are made.\<close>

definition config_of :: "FakeVehicleHardware \<Rightarrow> int32 \<Rightarrow> (VehiclePropConfig \<times> (VehiclePropValue \<Rightarrow> int64) option) option" where
  "config_of h p = map_option (\<lambda>record. (propConfig record, tokenFunction record)) (getRecordLocked (mServerSidePropStore h) p)"

definition store_part :: "FakeVehicleHardware \<Rightarrow> (int32 \<Rightarrow> (VehiclePropConfig \<times> (VehiclePropValue \<Rightarrow> int64) option) option) \<times> bool" where
  "store_part h = (config_of h, mOnValuesChangeCallback (mServerSidePropStore h))"

lemma store_part_simps [simp]:
  "store_part (h\<lparr>mServerSidePropStore := (mServerSidePropStore h)\<lparr>mValuePool := pool\<rparr>\<rparr>) = store_part h" "store_part (hw_drop rs h) = store_part h"
  "store_part (h\<lparr>ticks := n\<rparr>) = store_part h" "store_part (h\<lparr>emitted := e\<rparr>) = store_part h" "store_part (h\<lparr>mFakeUserHal := u\<rparr>) = store_part h"
  by (simp_all add: store_part_def config_of_def hw_drop_def drop_values_def fun_eq_iff getRecordLocked_def)

lemma writeValue_config:
  assumes "writeValue r us m uct now s = (res, calls, s')"
  shows "map_option (\<lambda>record. (propConfig record, tokenFunction record)) (getRecordLocked s' p) =
      map_option (\<lambda>record. (propConfig record, tokenFunction record)) (getRecordLocked s p)"
    and "mOnValuesChangeCallback s' = mOnValuesChangeCallback s"
proof -
  have "map_option (\<lambda>record. (propConfig record, tokenFunction record)) (getRecordLocked s' p) =
      map_option (\<lambda>record. (propConfig record, tokenFunction record)) (getRecordLocked s p) \<and> mOnValuesChangeCallback s' = mOnValuesChangeCallback s"
  proof (cases "write_allowed s (stamped r uct now)")
    case False
    from writeValue_denied [OF this, of us m] assms show ?thesis by (auto simp: drop_value_def getRecordLocked_def)
  next
    case True
    show ?thesis by (rule writeValue_allowed [OF True, of us m]) (use assms in \<open>auto simp: upto_drop_def drop_value_def put_record_def getRecordLocked_def\<close>)
  qed
  then show "map_option (\<lambda>record. (propConfig record, tokenFunction record)) (getRecordLocked s' p) =
      map_option (\<lambda>record. (propConfig record, tokenFunction record)) (getRecordLocked s p)"
    and "mOnValuesChangeCallback s' = mOnValuesChangeCallback s" by blast+
qed

lemma store_part_write: "store_part (snd (hw_write r us m uct h)) = store_part h"
proof -
  define now h1 where "now = (if uct then clock h (ticks h) else 0)" and "h1 = (if uct then h\<lparr>ticks := Suc (ticks h)\<rparr> else h)"
  obtain res calls s where w: "writeValue r us m uct now (mServerSidePropStore h) = (res, calls, s)" by (metis prod_cases3)
  have "(if uct then elapsedRealtimeNano h else (0, h)) = (now, h1)" by (simp add: h1_def now_def elapsedRealtimeNano_def)
  with w have h': "snd (hw_write r us m uct h) = fold store_callback calls (h1\<lparr>mServerSidePropStore := s\<rparr>)"
    by (cases uct) (simp_all add: hw_write_def h1_def)
  show ?thesis unfolding h' using writeValue_config [OF w] store_callbacks_frame [of calls "h1\<lparr>mServerSidePropStore := s\<rparr>"]
    by (auto simp: store_part_def config_of_def fun_eq_iff)
qed

definition slot :: "FakeVehicleHardware \<Rightarrow> VehiclePropValue \<Rightarrow> (int32 \<times> RecordId) option" where
  "slot h v =
     (case config_of h (pv_prop v) of
        Some (config, None) \<Rightarrow>
          if isGlobalProp (pv_prop v) \<or> getAreaConfig_value v config \<noteq> None
          then Some (pv_prop v, \<lparr>rid_area = (if isGlobalProp (pv_prop v) then 0 else pv_areaId v), rid_token = 0\<rparr>)
          else None
      | _ \<Rightarrow> None)"

lemma slot_cong [simp]: "slot h (v\<lparr>pv_timestamp := t\<rparr>) = slot h v" "slot h (v\<lparr>pv_status := st\<rparr>) = slot h v" "slot h (v\<lparr>pv_value := x\<rparr>) = slot h v"
  by (auto simp: slot_def getAreaConfig_value_def split: option.split)

lemma slot_same: "store_part h' = store_part h \<Longrightarrow> slot h' = slot h"
  by (simp add: slot_def store_part_def fun_eq_iff)

lemma slot_key:
  assumes "slot h v = Some k"
  shows "key_of h v = Some k"
    and "write_allowed (mServerSidePropStore h) v \<longleftrightarrow> (\<forall>old. values_of h k = Some old \<longrightarrow> sint (pv_timestamp old) \<le> sint (pv_timestamp v))"
  using assms
  by (auto simp: slot_def config_of_def store_key_def getRecordIdLocked_def write_allowed_def split: option.splits if_splits)

lemma slot_token:
  assumes "slot h v = Some k"
  shows "rid_token (snd k) = 0" and "fst k = pv_prop v"
proof -
  obtain c where "config_of h (pv_prop v) = Some (c, None)"
    using assms by (cases "config_of h (pv_prop v)") (auto simp: slot_def split: option.splits)
  with assms show "rid_token (snd k) = 0" and "fst k = pv_prop v" by (auto simp: slot_def split: if_splits)
qed

definition clock_ok :: "FakeVehicleHardware \<Rightarrow> bool" where
  "clock_ok h \<longleftrightarrow> (\<forall>i j. i \<le> j \<longrightarrow> sint (clock h i) \<le> sint (clock h j)) \<and>
     (\<forall>k v. values_of h k = Some v \<longrightarrow> sint (pv_timestamp v) \<le> sint (clock h (ticks h)))"

text \<open>A state is reached by writing values one after the other, each stamped with a reading of the clock.\<close>

definition put_all :: "FakeVehicleHardware \<Rightarrow> (VehiclePropValue \<times> int64) list \<Rightarrow> (int32 \<times> RecordId \<Rightarrow> VehiclePropValue option) \<Rightarrow>
    int32 \<times> RecordId \<Rightarrow> VehiclePropValue option" where
  "put_all h = fold (\<lambda>(v, t) m. m(the (slot h v) \<mapsto> v\<lparr>pv_timestamp := t\<rparr>))"

definition writes :: "FakeVehicleHardware \<Rightarrow> VehiclePropValue list \<Rightarrow> FakeVehicleHardware \<Rightarrow> bool" where
  "writes h vs h' \<longleftrightarrow> clock_ok h' \<and> store_part h' = store_part h \<and> subs_part h' = subs_part h \<and>
     (\<exists>ts. length ts = length vs \<and> set ts \<subseteq> range (clock h) \<and> values_of h' = put_all h (zip vs ts) (values_of h) \<and>
        (mOnValuesChangeCallback (mServerSidePropStore h) \<longrightarrow>
           emitted h' = emitted h @ concat (map (\<lambda>(v, t). event_of h (OnValuesChange [v\<lparr>pv_timestamp := t\<rparr>])) (zip vs ts))))"

lemma writes_trans:
  assumes "writes h vs h1" and "writes h1 ws h2"
  shows "writes h (vs @ ws) h2"
proof -
  from assms(1) obtain ts where ts: "length ts = length vs" "set ts \<subseteq> range (clock h)" "values_of h1 = put_all h (zip vs ts) (values_of h)"
    "mOnValuesChangeCallback (mServerSidePropStore h) \<longrightarrow> emitted h1 = emitted h @ concat (map (\<lambda>(v, t). event_of h (OnValuesChange [v\<lparr>pv_timestamp := t\<rparr>])) (zip vs ts))"
    unfolding writes_def by blast
  from assms(2) obtain us where us: "length us = length ws" "set us \<subseteq> range (clock h1)" "values_of h2 = put_all h1 (zip ws us) (values_of h1)"
    "mOnValuesChangeCallback (mServerSidePropStore h1) \<longrightarrow> emitted h2 = emitted h1 @ concat (map (\<lambda>(v, t). event_of h1 (OnValuesChange [v\<lparr>pv_timestamp := t\<rparr>])) (zip ws us))"
    unfolding writes_def by blast
  have same: "store_part h1 = store_part h" "subs_part h1 = subs_part h" "clock h1 = clock h"
    "mOnValuesChangeCallback (mServerSidePropStore h1) = mOnValuesChangeCallback (mServerSidePropStore h)"
    using assms(1) by (simp_all add: writes_def subs_part_def store_part_def)
  have "put_all h1 = put_all h" by (simp add: put_all_def slot_same [OF same(1)])
  with ts us same event_of_cong [OF same(2)] have
    "length (ts @ us) = length (vs @ ws) \<and> set (ts @ us) \<subseteq> range (clock h) \<and> values_of h2 = put_all h (zip (vs @ ws) (ts @ us)) (values_of h) \<and>
       (mOnValuesChangeCallback (mServerSidePropStore h) \<longrightarrow> emitted h2 = emitted h @ concat (map (\<lambda>(v, t). event_of h (OnValuesChange [v\<lparr>pv_timestamp := t\<rparr>])) (zip (vs @ ws) (ts @ us))))"
    by (simp add: put_all_def)
  then show ?thesis using assms same unfolding writes_def by (intro conjI exI [of _ "ts @ us"]) simp_all
qed

lemma writes_same:
  assumes "clock_ok h" and "values_of h' = values_of h" and "store_part h' = store_part h" and "subs_part h' = subs_part h"
    and "emitted h' = emitted h" and "ticks h \<le> ticks h'"
  shows "writes h [] h'"
proof -
  have "clock h' = clock h" using assms(4) by (simp add: subs_part_def)
  moreover have "sint (pv_timestamp v) \<le> sint (clock h (ticks h'))" if "values_of h k = Some v" for k v
    using assms(1,6) that unfolding clock_ok_def by (meson order_trans)
  ultimately have "clock_ok h'" using assms(1,2) by (simp add: clock_ok_def)
  then show ?thesis using assms by (simp add: writes_def put_all_def)
qed

lemma writes_refl: "clock_ok h \<Longrightarrow> writes h [] h"
  by (rule writes_same) simp_all

lemma writes_drop: "clock_ok h \<Longrightarrow> writes h [] (hw_drop rs h)"
  by (rule writes_same) (simp_all, simp_all add: hw_drop_def)

lemma writes_read:
  assumes "clock_ok h" and "hw_store (readValuesForProperty p) h = (res, h')"
  shows "writes h [] h'"
  using assms(2)
  by (intro writes_same assms(1)) (auto simp: hw_store_def readValuesForProperty_def subs_part_def fun_eq_iff split: option.splits prod.splits)

lemma writes_one:
  assumes ok: "clock_ok h" and slot: "slot h v = Some k" and tick: "elapsedRealtimeNano h = (now, h1)"
    and w: "hw_write r True ALWAYS False h1 = (res, h2)" and r: "r_value r = v\<lparr>pv_timestamp := now\<rparr>"
  shows "res = Inr ()" and "writes h [v] h2"
proof -
  have h1: "h1 = h\<lparr>ticks := Suc (ticks h)\<rparr>" and now: "now = clock h (ticks h)" using tick by (auto simp: elapsedRealtimeNano_def)
  let ?w = "v\<lparr>pv_timestamp := now\<rparr>"
  obtain calls where spec: "spec_write (mServerSidePropStore h1) (stamped r False (clock h1 (ticks h1))) True ALWAYS = (res, calls, values_of h2)"
    and em: "emitted h2 = emitted h1 @ concat (map (event_of h1) calls)" and tk: "ticks h2 = ticks h1"
    by (rule hw_write_spec [OF w]) simp
  have key: "slot h ?w = Some k" using slot by simp
  have "sint (pv_timestamp old) \<le> sint now" if "values_of h k = Some old" for old
    using ok that unfolding clock_ok_def now by blast
  then have "write_allowed (mServerSidePropStore h) ?w" using slot_key(2) [OF key] by simp
  with slot_key(1) [OF key] have eff: "spec_write (mServerSidePropStore h) ?w True ALWAYS =
      (Inr (), change_events (mServerSidePropStore h) ALWAYS (value_changed (values_of h k) ?w) ?w, (values_of h)(k \<mapsto> ?w))"
    by (simp add: spec_write_def Let_def written_value_def)
  with spec show "res = Inr ()" by (simp add: stamped_def r h1)
  from spec eff have vals: "values_of h2 = (values_of h)(k \<mapsto> ?w)"
    and calls: "calls = change_events (mServerSidePropStore h) ALWAYS (value_changed (values_of h k) ?w) ?w"
    by (simp_all add: stamped_def r h1)
  have "subs_part (snd (hw_write r True ALWAYS False h1)) = subs_part h1" by (rule kept_subs.keep_write) simp
  from this [unfolded w] have sub: "subs_part h2 = subs_part h" by (simp add: h1)
  have meta: "store_part h2 = store_part h" using store_part_write [of r True ALWAYS False h1] w by (simp add: h1)
  have later: "sint (clock h (ticks h)) \<le> sint (clock h (Suc (ticks h)))" using ok by (simp add: clock_ok_def)
  then have "sint (pv_timestamp v) \<le> sint (clock h (Suc (ticks h)))" if "values_of h k = Some v" for k v
    using ok that unfolding clock_ok_def by (meson order_trans)
  moreover have "clock h2 = clock h" using sub by (simp add: subs_part_def)
  ultimately have "clock_ok h2" using ok vals later unfolding clock_ok_def tk by (auto simp: h1 now)
  moreover have "event_of h1 = event_of h" by (rule event_of_cong) (simp add: h1)
  ultimately show "writes h [v] h2" unfolding writes_def
    using sub meta vals em calls slot by (intro conjI exI [of _ "[now]"]) (auto simp: put_all_def now h1 change_events_def)
qed

lemma put_all_simps: "put_all h [] m = m" "put_all h ((v, t) # vts) m = put_all h vts (m(the (slot h v) \<mapsto> v\<lparr>pv_timestamp := t\<rparr>))"
  by (simp_all add: put_all_def)

lemma put_all_other: "(\<forall>v t. (v, t) \<in> set vts \<longrightarrow> the (slot h v) \<noteq> k) \<Longrightarrow> put_all h vts m k = m k"
proof (induction vts arbitrary: m)
  case (Cons vt vts)
  obtain v t where vt: "vt = (v, t)" by fastforce
  with Cons.prems have k: "k \<noteq> the (slot h v)" and rest: "\<forall>v t. (v, t) \<in> set vts \<longrightarrow> the (slot h v) \<noteq> k" by auto
  from k show ?case unfolding vt put_all_simps Cons.IH [OF rest] by simp
qed (simp add: put_all_simps)

lemma put_all_lookup:
  "(v, t) \<in> set vts \<Longrightarrow> distinct (map (\<lambda>(v, t). the (slot h v)) vts) \<Longrightarrow> the (slot h v) = k \<Longrightarrow> put_all h vts m k = Some (v\<lparr>pv_timestamp := t\<rparr>)"
proof (induction vts arbitrary: m)
  case (Cons vt vts)
  obtain v' t' where vt: "vt = (v', t')" by fastforce
  show ?case
  proof (cases "vt = (v, t)")
    case True
    with Cons.prems have "\<forall>v' t'. (v', t') \<in> set vts \<longrightarrow> the (slot h v') \<noteq> k" by (auto simp: image_iff)
    from put_all_other [OF this] True Cons.prems(3) show ?thesis by (simp add: put_all_simps)
  next
    case False
    with Cons show ?thesis unfolding vt put_all_simps by auto
  qed
qed simp

lemma writes_lookup:
  assumes w: "writes h vs h'" and d: "distinct (map (slot h) vs)" and s: "\<forall>v \<in> set vs. slot h v \<noteq> None"
  shows "v \<in> set vs \<Longrightarrow> slot h v = Some k \<Longrightarrow> \<exists>j. values_of h' k = Some (v\<lparr>pv_timestamp := clock h j\<rparr>)"
    and "\<forall>v \<in> set vs. slot h v \<noteq> Some k \<Longrightarrow> values_of h' k = values_of h k"
proof -
  obtain ts where ts: "length ts = length vs" "set ts \<subseteq> range (clock h)" "values_of h' = put_all h (zip vs ts) (values_of h)"
    using w unfolding writes_def by blast
  have "map (\<lambda>(v, t). the (slot h v)) (zip vs ts) = map (\<lambda>v. the (slot h v)) vs"
    using ts(1) by (induction ts vs rule: list_induct2) simp_all
  moreover have "distinct (map (\<lambda>v. the (slot h v)) vs)"
    using d s unfolding distinct_map inj_on_def by (metis option.expand)
  ultimately have dz: "distinct (map (\<lambda>(v, t). the (slot h v)) (zip vs ts))" by simp
  show "\<exists>j. values_of h' k = Some (v\<lparr>pv_timestamp := clock h j\<rparr>)" if v: "v \<in> set vs" and k: "slot h v = Some k"
  proof -
    obtain i where "i < length vs" "vs ! i = v" using v by (auto simp: in_set_conv_nth)
    then have t: "(v, ts ! i) \<in> set (zip vs ts)" "ts ! i \<in> set ts" using ts(1) by (auto simp: set_zip)
    then show ?thesis using put_all_lookup [OF t(1) dz] k ts(2) unfolding ts(3) by fastforce
  qed
  show "values_of h' k = values_of h k" if "\<forall>v \<in> set vs. slot h v \<noteq> Some k"
    unfolding ts(3) by (rule put_all_other) (use that s in \<open>auto dest!: set_zip_leftD\<close>)
qed

section \<open>Updates of all areas of a property\<close>

text \<open>A property whose values are told apart by the area alone.\<close>

definition plain_prop :: "FakeVehicleHardware \<Rightarrow> int32 \<Rightarrow> bool" where
  "plain_prop h p \<longleftrightarrow> (\<forall>c f. config_of h p = Some (c, f) \<longrightarrow> f = None) \<and> (\<forall>rid. values_of h (p, rid) \<noteq> None \<longrightarrow> rid_token rid = 0)"

text \<open>The values of a property, with their places.\<close>

definition snapshot :: "FakeVehicleHardware \<Rightarrow> int32 \<Rightarrow> VehiclePropValue list \<Rightarrow> bool" where
  "snapshot h p vs \<longleftrightarrow> distinct (map (slot h) vs) \<and> (\<forall>v \<in> set vs. \<exists>rid. slot h v = Some (p, rid) \<and> values_of h (p, rid) = Some v) \<and>
     (\<forall>rid v. values_of h (p, rid) = Some v \<longrightarrow> v \<in> set vs \<and> slot h v = Some (p, rid))"

lemma store_same_cong:
  assumes "store_part h' = store_part h" and "values_of h' = values_of h"
  shows "snapshot h' = snapshot h" and "plain_prop h' = plain_prop h"
  using assms(1) unfolding snapshot_def plain_prop_def slot_same [OF assms(1)] assms(2) by (simp_all add: store_part_def)

lemma stored_slot:
  assumes "store_inv (mServerSidePropStore h)" and "plain_prop h p" and "values_of h (p, rid) = Some v"
  shows "slot h v = Some (p, rid)"
proof -
  obtain rc r where rc: "getRecordLocked (mServerSidePropStore h) p = Some rc" "map_of (rec_values rc) rid = Some r" "r_value r = v"
    using assms(3) by (auto simp: abs_store_def bind_eq_Some_conv)
  have ok: "entry_ok p (propConfig rc) rid v" using store_invD [OF assms(1) rc(1)] rc(2,3) by (auto simp: record_ok_def)
  have "tokenFunction rc = None" "rid_token rid = 0" using assms(2,3) rc(1) by (auto simp: plain_prop_def config_of_def)
  then show ?thesis using ok rc(1) by (cases rid) (auto simp: slot_def config_of_def entry_ok_def)
qed

lemma read_snapshot:
  assumes "store_inv (mServerSidePropStore h)" and "plain_prop h p" and "hw_store (readValuesForProperty p) h = (res, h1)"
  shows "case res of Inl _ \<Rightarrow> \<forall>rid. values_of h (p, rid) = None | Inr copies \<Rightarrow> snapshot h p (map r_value copies)"
proof (cases "getRecordLocked (mServerSidePropStore h) p")
  case None
  then show ?thesis using assms(3) by (auto simp: hw_store_def readValuesForProperty_def abs_store_def)
next
  case (Some rc)
  obtain rs pool where oc: "obtain_copies (map (r_value \<circ> snd) (rec_values rc)) (mValuePool (mServerSidePropStore h)) = (rs, pool)" by fastforce
  have vs: "map r_value rs = map (r_value \<circ> snd) (rec_values rc)" by (rule obtain_copies_same [OF oc])
  have res: "res = Inr rs" using assms(3) Some oc by (auto simp: hw_store_def readValuesForProperty_def)
  have wf: "wf_alist (rec_values rc)" using store_invD [OF assms(1) Some] by (simp add: record_ok_def)
  have val: "values_of h (p, rid) = Some (r_value r)" if "(rid, r) \<in> set (rec_values rc)" for rid r
    using that wf Some by (simp add: abs_lookup)
  note sl = stored_slot [OF assms(1,2) val]
  have slots: "map (slot h) (map r_value rs) = map (\<lambda>rid. Some (p, rid)) (map fst (rec_values rc))"
    unfolding vs using sl by auto
  have "distinct (map (slot h) (map r_value rs))"
    unfolding slots using wf by (simp add: distinct_map inj_on_def)
  moreover have "\<exists>rid. slot h v = Some (p, rid) \<and> values_of h (p, rid) = Some v" if "v \<in> set (map r_value rs)" for v
    using that val sl unfolding vs by auto
  moreover have "v \<in> set (map r_value rs) \<and> slot h v = Some (p, rid)" if "values_of h (p, rid) = Some v" for rid v
    using that Some stored_slot [OF assms(1,2) that] unfolding vs by (force simp: abs_lookup dest!: map_of_SomeD)
  ultimately show ?thesis by (simp add: res snapshot_def)
qed

text \<open>All values of a property that satisfy a condition are changed in the same way, apart from the time.\<close>

definition updated_prop ::
  "(VehiclePropValue \<Rightarrow> bool) \<Rightarrow> (VehiclePropValue \<Rightarrow> VehiclePropValue) \<Rightarrow> int32 \<Rightarrow> FakeVehicleHardware \<Rightarrow> FakeVehicleHardware \<Rightarrow> int32 \<times> RecordId \<Rightarrow> bool" where
  "updated_prop c upd p h h' k \<longleftrightarrow>
     (if fst k = p
      then (case values_of h k of
              None \<Rightarrow> values_of h' k = None
            | Some v \<Rightarrow> if c v then \<exists>j. values_of h' k = Some ((upd v)\<lparr>pv_timestamp := clock h j\<rparr>) else values_of h' k = Some v)
      else values_of h' k = values_of h k)"

lemma snapshot_writes:
  assumes snap: "snapshot h p vs" and w: "writes h (map upd (filter c vs)) h'" and upd: "\<And>v. slot h (upd v) = slot h v"
  shows "updated_prop c upd p h h' k"
proof -
  let ?ws = "map upd (filter c vs)"
  have d: "distinct (map (slot h) ?ws)" using snap by (simp add: snapshot_def upd comp_def distinct_map_filter)
  have s: "\<forall>v \<in> set ?ws. slot h v \<noteq> None" using snap by (auto simp: snapshot_def upd)
  note look = writes_lookup [OF w d s]
  show ?thesis
  proof (cases "fst k = p \<and> (\<exists>v. values_of h k = Some v \<and> c v)")
    case True
    then obtain v rid where k: "k = (p, rid)" and v: "values_of h (p, rid) = Some v" "c v" by (cases k) auto
    then have "v \<in> set vs" "slot h v = Some (p, rid)" using snap by (simp_all add: snapshot_def)
    then have "\<exists>j. values_of h' (p, rid) = Some ((upd v)\<lparr>pv_timestamp := clock h j\<rparr>)" using v(2) by (intro look(1)) (simp_all add: upd)
    then show ?thesis by (simp add: updated_prop_def k v)
  next
    case False
    have "\<forall>v \<in> set ?ws. slot h v \<noteq> Some k"
      using False snap by (cases k) (fastforce simp: snapshot_def upd)
    then have "values_of h' k = values_of h k" by (rule look(2))
    then show ?thesis using False by (auto simp: updated_prop_def split: option.split)
  qed
qed

lemma writes_keep:
  assumes "writes h vs h'" and "\<forall>v \<in> set vs. slot h v \<noteq> None"
  shows "slot h' = slot h" and "clock h' = clock h" and "clock_ok h'" and "plain_prop h p \<Longrightarrow> plain_prop h' p"
proof -
  show sl: "slot h' = slot h" and "clock h' = clock h" and "clock_ok h'"
    using assms(1) by (auto simp: writes_def subs_part_def intro: slot_same)
  assume plain: "plain_prop h p"
  obtain ts where ts: "length ts = length vs" "values_of h' = put_all h (zip vs ts) (values_of h)" using assms(1) unfolding writes_def by blast
  have "rid_token rid = 0" if "values_of h' (p, rid) \<noteq> None" for rid
  proof (cases "\<exists>v \<in> set vs. slot h v = Some (p, rid)")
    case True
    then show ?thesis using slot_token(1) by fastforce
  next
    case False
    then have "values_of h' (p, rid) = values_of h (p, rid)"
      unfolding ts(2) using assms(2) by (intro put_all_other) (fastforce dest!: set_zip_leftD)
    with that plain show ?thesis by (simp add: plain_prop_def)
  qed
  moreover have "config_of h' = config_of h" using assms(1) by (simp add: writes_def store_part_def)
  ultimately show "plain_prop h' p" using plain by (simp add: plain_prop_def)
qed


end
