(* ===== verification/FakeRuns.thy ===== *)
theory FakeRuns
  imports FakeInvariants
begin

section \<open>Runs\<close>

text \<open>
  The handler threads, the callers of \<^verbatim>\<open>subscribe\<close> and \<^verbatim>\<open>unsubscribe\<close> and the thread of the timer interleave. The second
  component is the callback this thread is about to call, after it has released the lock of the timer. Subscriptions are assumed to have a positive interval
  and timer ids left.
\<close>

inductive fake_step :: "FakeVehicleHardware \<times> timer_action option \<Rightarrow> FakeVehicleHardware \<times> timer_action option \<Rightarrow> bool" where
  run_set: "handleSetValueRequest q h = Some (res, h') \<Longrightarrow> fake_step (h, cb) (h', cb)"
| run_get: "handleGetValueRequest service g h = Some (got, h') \<Longrightarrow> fake_step (h, cb) (h', cb)"
| run_subscribe:
    "fake_subscribe options h = Some (status, h') \<Longrightarrow> rate_ok (so_sampleRate options) \<Longrightarrow> timer_ids_left (length (so_areaIds options)) h \<Longrightarrow>
     fake_step (h, cb) (h', cb)"
| run_unsubscribe: "fake_unsubscribe p a h = (status, h') \<Longrightarrow> fake_step (h, cb) (h', cb)"
| run_register: "fake_step (h, cb) (registerOnPropertyChangeEvent h, cb)"
| run_clock:
    "sint (uptime (mRecurrentTimer h)) \<le> sint now \<Longrightarrow> fake_step (h, cb) (h\<lparr>mRecurrentTimer := (mRecurrentTimer h)\<lparr>uptime := now\<rparr>\<rparr>, cb)"
| run_take:
    "(time, what) \<in> set (messages (mRecurrentTimer h)) \<Longrightarrow> sint time \<le> sint (uptime (mRecurrentTimer h)) \<Longrightarrow>
     in_flight (mRecurrentTimer h) = None \<Longrightarrow>
     fake_step (h, None) (h\<lparr>mRecurrentTimer := (mRecurrentTimer h)
       \<lparr>messages := remove1 (time, what) (messages (mRecurrentTimer h)), in_flight := Some what\<rparr>\<rparr>, None)"
| run_handle:
    "in_flight (mRecurrentTimer h) = Some what \<Longrightarrow>
     handleMessage (uptime (mRecurrentTimer h)) what (tm (mRecurrentTimer h)) = Some ((calls, called), t) \<Longrightarrow>
     fake_step (h, None) (h\<lparr>mRecurrentTimer := (mRecurrentTimer h)
       \<lparr>tm := t, messages := fold queue_call calls (messages (mRecurrentTimer h)), in_flight := None\<rparr>\<rparr>, called)"
| run_call: "fake_step (h, Some cb) (refreshTimestampForInterval (snd cb) h, None)"

definition fake_start :: "FakeVehicleHardware \<times> timer_action option \<Rightarrow> bool" where
  "fake_start r \<longleftrightarrow> snd r = None \<and> store_inv (mServerSidePropStore (fst r)) \<and> mRefreshInfoByPropIdAreaId (fst r) = [] \<and>
     mActionByIntervalInNanos (fst r) = [] \<and> timer_start (mRecurrentTimer (fst r))"

definition hw_inv :: "FakeVehicleHardware \<times> timer_action option \<Rightarrow> bool" where
  "hw_inv r \<longleftrightarrow> store_inv (mServerSidePropStore (fst r)) \<and> subs_ok (fst r)"

lemma subs_ok_timer:
  assumes "subs_ok h" and "timer_step (mRecurrentTimer h) r" and "mIdByCallback (tm r) = mIdByCallback (tm (mRecurrentTimer h))"
  shows "subs_ok (h\<lparr>mRecurrentTimer := r\<rparr>)"
  using assms refresh_inv_cong [of "h\<lparr>mRecurrentTimer := r\<rparr>" h] timer_step_inv [OF assms(2)] by (simp add: subs_ok_def)

lemma subs_ok_part: "subs_part h' = subs_part h \<Longrightarrow> subs_ok h' = subs_ok h"
  using refresh_inv_cong [of h' h] by (simp add: subs_ok_def subs_part_def)

lemma subs_ok_requests:
  "handleSetValueRequest q h = Some (res, h') \<Longrightarrow> subs_part h' = subs_part h \<and> (store_inv (mServerSidePropStore h) \<longrightarrow> store_inv (mServerSidePropStore h'))"
  "handleGetValueRequest service g h = Some (got, h') \<Longrightarrow>
     subs_part h' = subs_part h \<and> (store_inv (mServerSidePropStore h) \<longrightarrow> store_inv (mServerSidePropStore h'))"
proof -
  assume "handleSetValueRequest q h = Some (res, h')"
  then obtain r where "fake_setValue (sr_value q) h = Some (r, h')" by (auto simp: handleSetValueRequest_def bind_eq_Some_conv)
  then show "subs_part h' = subs_part h \<and> (store_inv (mServerSidePropStore h) \<longrightarrow> store_inv (mServerSidePropStore h'))"
    using kept_subs.kept_setValue [OF refl] kept_store.kept_setValue by blast
next
  assume "handleGetValueRequest service g h = Some (got, h')"
  then obtain r h1 where got: "fake_getValue service (gr_prop g) h = Some (r, h1)" and h': "h' = h1 \<or> (\<exists>rs. h' = hw_drop rs h1)"
  proof (cases "fake_getValue service (gr_prop g) h")
    case (Some x)
    then show thesis using that \<open>handleGetValueRequest service g h = Some (got, h')\<close>
      by (cases x; cases "fst x") (auto simp: handleGetValueRequest_def)
  qed (simp add: handleGetValueRequest_def)
  from got have "subs_part h1 = subs_part h \<and> (store_inv (mServerSidePropStore h) \<longrightarrow> store_inv (mServerSidePropStore h1))"
    using kept_subs.kept_getValue [OF refl] kept_store.kept_getValue by blast
  with h' show "subs_part h' = subs_part h \<and> (store_inv (mServerSidePropStore h) \<longrightarrow> store_inv (mServerSidePropStore h'))"
    by (auto intro: wf_intros)
qed

text \<open>Subscribing leaves the store alone.\<close>

lemma refresh_store:
  "mServerSidePropStore (unregisterRefreshLocked k h) = mServerSidePropStore h"
  "registerRefreshLocked k m rate h = Some h' \<Longrightarrow> mServerSidePropStore h' = mServerSidePropStore h"
proof -
  show un: "mServerSidePropStore (unregisterRefreshLocked k h) = mServerSidePropStore h" for k h
    by (auto simp: unregisterRefreshLocked_def timer_unregister_def Let_def case_prod_beta split: option.split)
  show "registerRefreshLocked k m rate h = Some h' \<Longrightarrow> mServerSidePropStore h' = mServerSidePropStore h"
    by (auto simp: registerRefreshLocked_def timer_register_def Let_def bind_eq_Some_conv un split: option.splits if_splits)
qed

lemma subscribe_areas_store:
  "subscribe_areas options config as h = Some (status, h') \<Longrightarrow> mServerSidePropStore h' = mServerSidePropStore h"
proof (induction as arbitrary: h)
  case (Cons a as)
  have "mServerSidePropStore h1 = mServerSidePropStore h" if "subscribePropIdAreaIdLocked p a rate vur config h = Some (st, h1)" for p rate vur st h1
    using that refresh_store(2) by (auto simp: subscribePropIdAreaIdLocked_def Let_def split: VehiclePropertyChangeMode.splits if_splits)
  moreover from Cons.prems obtain st1 h1 where "subscribePropIdAreaIdLocked (so_propId options) a (so_sampleRate options) (so_enableVur options) config h
      = Some (st1, h1)" and "if st1 \<noteq> OK then h' = h1 else subscribe_areas options config as h1 = Some (status, h')"
    by (auto simp: bind_eq_Some_conv split: if_splits)
  ultimately show ?case using Cons.IH [of h1] by (simp split: if_splits)
qed simp

lemma subscribe_store: "fake_subscribe options h = Some (status, h') \<Longrightarrow> mServerSidePropStore h' = mServerSidePropStore h"
  by (auto simp: fake_subscribe_def dest: subscribe_areas_store split: sum.splits)

lemma hw_inv_step: "fake_step r r' \<Longrightarrow> hw_inv r \<Longrightarrow> hw_inv r'"
proof (induction rule: fake_step.induct)
  case (run_set q h res h' cb)
  then show ?case using subs_ok_requests(1) [OF run_set(1)] subs_ok_part [of h' h] by (simp add: hw_inv_def)
next
  case (run_get service g h got h' cb)
  then show ?case using subs_ok_requests(2) [OF run_get(1)] subs_ok_part [of h' h] by (simp add: hw_inv_def)
next
  case (run_subscribe options h status h' cb)
  then have "subs_ok h'" 
    using subscribe_areas_ok [of options _ _ h status h'] by (simp add: hw_inv_def fake_subscribe_def split: sum.splits)
  then show ?case using run_subscribe subscribe_store [OF run_subscribe(1)] by (simp add: hw_inv_def)
next
  case (run_unsubscribe p a h status h' cb)
  then have "subs_ok h'" using unsubscribe_ok [of h p a] by (simp add: hw_inv_def)
  moreover have "mServerSidePropStore h' = mServerSidePropStore h"
    using run_unsubscribe(1) by (auto simp: fake_unsubscribe_def Let_def refresh_store(1))
  ultimately show ?case using run_unsubscribe by (simp add: hw_inv_def)
next
  case (run_register h cb)
  then show ?case using refresh_inv_cong [of "registerOnPropertyChangeEvent h" h]
    by (simp add: hw_inv_def registerOnPropertyChangeEvent_def subs_ok_def)
next
  case (run_clock h now cb)
  then show ?case using subs_ok_timer [OF _ timer_step.tick] by (simp add: hw_inv_def)
next
  case (run_take time what h)
  then show ?case using subs_ok_timer [OF _ timer_step.take_message] by (simp add: hw_inv_def)
next
  case (run_handle h what calls called t)
  have "mIdByCallback t = mIdByCallback (tm (mRecurrentTimer h))"
    using run_handle(2) by (auto simp: handleMessage_def split: option.splits)
  then show ?case using run_handle subs_ok_timer [OF _ timer_step.handle] by (simp add: hw_inv_def)
next
  case (run_call h cb)
  then have inv: "refresh_inv h" by (simp add: hw_inv_def subs_ok_def)
  obtain n e where "refreshTimestampForInterval (snd cb) h = h\<lparr>mServerSidePropStore := snd (refreshTimestamps (\<lambda>j. clock h (ticks h + j))
      (refresh_entries h (snd cb)) (mServerSidePropStore h)), ticks := n, emitted := e\<rparr>"
    by (rule refresh_for_interval [OF inv])
  then show ?case using run_call subs_ok_part [of "refreshTimestampForInterval (snd cb) h" h]
    by (simp add: hw_inv_def refreshTimestamps_inv)
qed

interpretation fake_runs: step_invariant fake_start fake_step hw_inv
proof
  show "hw_inv r" if "fake_start r" for r
    using that timer_runs.start_inv [of "mRecurrentTimer (fst r)"] 
    by (auto simp: fake_start_def hw_inv_def subs_ok_def refresh_inv_def timer_start_def newRecurrentTimer_def)
qed (blast intro: hw_inv_step)

section \<open>Served subscriptions\<close>

text \<open>Where the values of the keys with an interval are stored.\<close>

definition interval_keys :: "FakeVehicleHardware \<Rightarrow> int64 \<Rightarrow> (int32 \<times> RecordId) set" where
  "interval_keys h i = {x. \<exists>k info. map_of (mRefreshInfoByPropIdAreaId h) k = Some info \<and> ri_intervalInNanos info = i \<and>
     store_key (mServerSidePropStore h) (empty_prop_value\<lparr>pv_areaId := pa_areaId k, pv_prop := pa_propId k\<rparr>) = Some x}"

lemma interval_keys_entries:
  assumes "refresh_inv h"
  shows "Option.these (refresh_key (mServerSidePropStore h) ` set (refresh_entries h i)) = interval_keys h i"
proof -
  have "(\<exists>k m. map_of (mRefreshInfoByPropIdAreaId h) k = Some \<lparr>ri_eventMode = m, ri_intervalInNanos = i\<rparr> \<and> P k) \<longleftrightarrow>
      (\<exists>k info. map_of (mRefreshInfoByPropIdAreaId h) k = Some info \<and> ri_intervalInNanos info = i \<and> P k)" for P
    by (metis RefreshInfo.cases RefreshInfo.select_convs(2))
  then show ?thesis
    unfolding refresh_entries_exact(1) [OF assms] by (auto simp: in_these_eq refresh_key_def interval_keys_def image_iff) metis+
qed

lemma call_refreshes:
  assumes "refresh_inv h" and "h' = refreshTimestampForInterval i h"
  shows "if x \<in> interval_keys h i then refreshed (\<lambda>j. clock h (ticks h + j)) (abs_store (mServerSidePropStore h) x) (abs_store (mServerSidePropStore h') x)
    else abs_store (mServerSidePropStore h') x = abs_store (mServerSidePropStore h) x"
proof -
  obtain n e where "h' = h\<lparr>mServerSidePropStore := snd (refreshTimestamps (\<lambda>j. clock h (ticks h + j)) (refresh_entries h i) (mServerSidePropStore h)),
      ticks := n, emitted := e\<rparr>"
    unfolding assms(2) by (rule refresh_for_interval [OF assms(1)])
  then show ?thesis
    using refreshTimestamps_exact [of x "mServerSidePropStore h" "refresh_entries h i" "\<lambda>j. clock h (ticks h + j)"]
    unfolding interval_keys_entries [OF assms(1)] by simp
qed


text \<open>A vehicle with an odometer, subscribed at 1 Hz.\<close>

definition small_hardware :: "VehiclePropertyStore \<Rightarrow> FakeVehicleHardware" where
  "small_hardware s = \<lparr>mServerSidePropStore = s, mFakeUserHal = newFakeUserHal,
     mRecurrentTimer = \<lparr>tm = newRecurrentTimer, messages = [], in_flight = None, uptime = 25\<rparr>,
     mOnPropertyChangeCallback = True, mOnPropertySetErrorCallback = False, mOnSupportedValueChangeCallback = False,
     mRefreshInfoByPropIdAreaId = [], mActionByIntervalInNanos = [], mSubOnChangePropIdAreaIds = [],
     mMinSupportedValueByPropIdAreaId = [], mMaxSupportedValueByPropIdAreaId = [], mSupportedValuesByPropIdAreaId = [],
     hvacPowerDependentProps = [], mPowerControllerServiceAddress = [], mAddExtraTestVendorConfigs = False,
     next_action = 0, clock = (\<lambda>n. of_nat n + 100), ticks = 0, emitted = []\<rparr>"

definition odometer_hardware :: FakeVehicleHardware where
  "odometer_hardware = small_hardware (snd (snd (writeValue (odometer_value 5 0x42C80000) True ON_VALUE_CHANGE False 0 odometer_store)))"

definition odometer_options :: SubscribeOptions where
  "odometer_options = \<lparr>so_propId = odometer, so_areaIds = [0], so_sampleRate = 0x3F800000, so_resolution = 0, so_enableVur = False\<rparr>"

definition subscribed_hardware :: FakeVehicleHardware where
  "subscribed_hardware = odometer_hardware\<lparr>
     mRefreshInfoByPropIdAreaId := [(\<lparr>pa_propId = odometer, pa_areaId = 0\<rparr>, \<lparr>ri_eventMode = ALWAYS, ri_intervalInNanos = 1000000000\<rparr>)],
     next_action := 1, mActionByIntervalInNanos := [(1000000000, \<lparr>propIdAreaIdsToRefresh = [\<lparr>pa_propId = odometer, pa_areaId = 0\<rparr>],
       recurrentAction = (0, 1000000000)\<rparr>)],
     mRecurrentTimer := \<lparr>tm = \<lparr>mCallbackId = 1, mIdByCallback = [((0, 1000000000), 0)], mCallbackInfoById = [(0,
       \<lparr>ci_callback = (0, 1000000000), ci_intervalInNanos = 1000000000, ci_nextTimeInNanos = 0\<rparr>)]\<rparr>,
       messages = [(0, 0)], in_flight = None, uptime = 25\<rparr>\<rparr>"

lemma odometer_subscribed: "fake_subscribe odometer_options odometer_hardware = Some (OK, subscribed_hardware)"
proof -
  have "rateToInterval 0x3F800000 = Some 1000000000" by code_simp
  moreover have "alignedNextTime 25 1000000000 = Some 0" using alignedNextTime_past [of 25 1000000000] by simp
  moreover have "\<not> f32_eq 0x3F800000 0" by code_simp
  ultimately show ?thesis
    by (simp add: fake_subscribe_def odometer_options_def odometer_hardware_def small_hardware_def odometer_written getPropConfig_def odometer_config_def
        subscribePropIdAreaIdLocked_def registerRefreshLocked_def timer_register_def registerTimerCallback_def getCallbackIdLocked_def
        newRecurrentTimer_def insert_if_absent_def isVariableUpdateRateSupported_def subscribed_hardware_def Let_def)
qed

lemma odometer_start: "fake_start (odometer_hardware, None)"
proof -
  have "store_inv odometer_store" 
    using store_runs.reachable_inv [OF _ odometer_reachable]
    by (simp add: fresh_store_def empty_store_def fresh_pool_def mkValuePool_def)
  from writeValue_inv [OF this] show ?thesis
    by (simp add: fake_start_def odometer_hardware_def small_hardware_def timer_start_def)
qed

lemma odometer_run: "fake_step\<^sup>*\<^sup>* (odometer_hardware, None) (subscribed_hardware, None)"
proof -
  have "rate_ok 0x3F800000" by code_simp
  then show ?thesis
    by (intro r_into_rtranclp run_subscribe [OF odometer_subscribed])
      (simp_all add: odometer_options_def odometer_hardware_def small_hardware_def newRecurrentTimer_def)
qed


end
