(* ===== verification/FakeCar.thy ===== *)
theory FakeCar
  imports FakeWrites FakeRuns
begin

text \<open>
  Small vehicles for the fake hardware: a table of properties with their areas and values, each value stored at time 1, a clock that stands at 100,
  and the properties that depend on the power of the climate control.
\<close>

definition car_area :: "int32 \<Rightarrow> VehicleAreaConfig" where
  "car_area a = \<lparr>ac_areaId = a, minInt32Value = 0, maxInt32Value = 0, minInt64Value = 0, maxInt64Value = 0, minFloatValue = 0, maxFloatValue = 0,
     supportedEnumValues = None, ac_access = READ_WRITE, supportVariableUpdateRate = False, ac_hasSupportedValueInfo = None\<rparr>"

definition car_config :: "int32 \<Rightarrow> int32 list \<Rightarrow> VehiclePropConfig" where
  "car_config p as = \<lparr>pc_prop = p, pc_access = READ_WRITE, changeMode = ON_CHANGE, areaConfigs = map car_area as, configArray = [], configString = [],
     minSampleRate = 0, maxSampleRate = 0\<rparr>"

definition car_value :: "int32 \<Rightarrow> int32 \<Rightarrow> RawPropValues \<Rightarrow> VehiclePropValue" where
  "car_value p a x = \<lparr>pv_timestamp = 1, pv_areaId = a, pv_prop = p, pv_status = AVAILABLE, pv_value = x\<rparr>"

abbreviation int32_raw :: "int32 \<Rightarrow> RawPropValues" where
  "int32_raw x \<equiv> empty_raw\<lparr>int32Values := [x]\<rparr>"

abbreviation float_raw :: "f32 \<Rightarrow> RawPropValues" where
  "float_raw x \<equiv> empty_raw\<lparr>floatValues := [x]\<rparr>"

type_synonym car_table = "(int32 \<times> (int32 \<times> RawPropValues) list) list"

definition car_record :: "int32 \<Rightarrow> (int32 \<times> RawPropValues) list \<Rightarrow> Record" where
  "car_record p items = \<lparr>propConfig = car_config p (map fst items), tokenFunction = None,
     rec_values = map (\<lambda>(a, x). (\<lparr>rid_area = a, rid_token = 0\<rparr>, \<lparr>r_value = car_value p a x, r_deleter = Disposable\<rparr>)) items\<rparr>"

definition car :: "int32 list \<Rightarrow> car_table \<Rightarrow> FakeVehicleHardware" where
  "car ps cs = (small_hardware (empty_store\<lparr>mRecordsByPropId := map (\<lambda>(p, items). (p, car_record p items)) cs\<rparr>))
     \<lparr>clock := (\<lambda>_. 100), hvacPowerDependentProps := ps\<rparr>"

definition car_ok :: "car_table \<Rightarrow> bool" where
  "car_ok cs \<longleftrightarrow> distinct (map fst cs) \<and>
     (\<forall>(p, items) \<in> set cs. distinct (map fst items) \<and> (isGlobalProp p \<longrightarrow> list_all (\<lambda>x. fst x = 0) items))"

lemma map_of_table: "map_of (map (\<lambda>(k, x). (k, f k x)) xs) k = map_option (f k) (map_of xs k)"
  by (induction xs) auto

lemma car_get: "getRecordLocked (mServerSidePropStore (car ps cs)) p = map_option (car_record p) (map_of cs p)"
  by (simp add: car_def small_hardware_def getRecordLocked_def map_of_table)

lemma record_lookup:
  "map_of (rec_values (car_record p items)) rid =
     (if rid_token rid = 0 then map_option (\<lambda>x. \<lparr>r_value = car_value p (rid_area rid) x, r_deleter = Disposable\<rparr>) (map_of items (rid_area rid)) else None)"
  by (induction items) (auto simp: car_record_def)

lemma car_values:
  "values_of (car ps cs) (p, rid) =
     (if rid_token rid = 0 then Option.bind (map_of cs p) (\<lambda>items. map_option (car_value p (rid_area rid)) (map_of items (rid_area rid))) else None)"
  by (cases "map_of cs p") (auto simp: abs_store_def car_get record_lookup option.map_comp comp_def)

lemma car_config: "config_of (car ps cs) p = map_option (\<lambda>items. (car_config p (map fst items), None)) (map_of cs p)"
  by (cases "map_of cs p") (simp_all add: config_of_def car_get car_record_def)

lemma car_simps [simp]:
  "clock (car ps cs) n = 100" "hvacPowerDependentProps (car ps cs) = ps" "mOnValuesChangeCallback (mServerSidePropStore (car ps cs))"
  "mOnPropertyChangeCallback (car ps cs)" "mPowerControllerServiceAddress (car ps cs) = []" "emitted (car ps cs) = []"
  by (simp_all add: car_def small_hardware_def empty_store_def)

lemma car_value_simps [simp]:
  "pv_prop (car_value p a x) = p" "pv_areaId (car_value p a x) = a" "pv_value (car_value p a x) = x" "pv_status (car_value p a x) = AVAILABLE"
  "pv_timestamp (car_value p a x) = 1"
  by (simp_all add: car_value_def)

lemma car_configured: "a \<in> fst ` set items \<Longrightarrow> getAreaConfig p a (car_config p (map fst items)) \<noteq> None"
  by (cases items) (auto simp: getAreaConfig_def car_config_def find_None_iff car_area_def simp del: not_None_eq)

lemma car_inv: "car_ok cs \<Longrightarrow> store_inv (mServerSidePropStore (car ps cs))"
proof -
  assume ok: "car_ok cs"
  have "record_ok p (car_record p items)" if "map_of cs p = Some items" for p items
  proof -
    have "(p, items) \<in> set cs" by (rule map_of_SomeD [OF that])
    then have it: "distinct (map fst items)" "isGlobalProp p \<longrightarrow> list_all (\<lambda>x. fst x = 0) items" using ok by (auto simp: car_ok_def)
    have "wf_alist (rec_values (car_record p items))"
      using it(1) by (auto simp: car_record_def comp_def case_prod_beta distinct_map inj_on_def)
    moreover have "entry_ok p (car_config p (map fst items)) rid (car_value p (rid_area rid) x)" if "map_of items (rid_area rid) = Some x" for rid x
    proof -
      have "(rid_area rid, x) \<in> set items" by (rule map_of_SomeD [OF that])
      then show ?thesis using it(2) car_configured [of "rid_area rid" items p] by (force simp: entry_ok_def getAreaConfig_value_def list_all_iff)
    qed
    ultimately show ?thesis unfolding record_ok_def record_lookup by (auto simp: car_record_def car_config_def)
  qed
  moreover have "vp_inv (mValuePool (mServerSidePropStore (car ps cs)))"
    using store_runs.start_inv [of empty_store]
    by (simp add: car_def small_hardware_def store_inv_def fresh_store_def empty_store_def fresh_pool_def mkValuePool_def)
  moreover have "wf_alist (mRecordsByPropId (mServerSidePropStore (car ps cs)))"
    using ok by (simp add: car_def small_hardware_def car_ok_def comp_def case_prod_beta)
  ultimately show ?thesis by (auto simp: store_inv_def car_get)
qed

lemma car_clock: "clock_ok (car ps cs)"
  by (auto simp: clock_ok_def car_values split: if_splits Option.bind_splits)

lemma car_plain: "plain_prop (car ps cs) p"
  by (auto simp: plain_prop_def car_config car_values split: if_splits)

lemma car_slot:
  assumes "map_of cs (pv_prop v) = Some items" and "pv_areaId v \<in> fst ` set items" and "isGlobalProp (pv_prop v) \<longrightarrow> pv_areaId v = 0"
  shows "slot (car ps cs) v = Some (pv_prop v, \<lparr>rid_area = pv_areaId v, rid_token = 0\<rparr>)"
  using assms car_configured [OF assms(2)] by (auto simp: slot_def car_config getAreaConfig_value_def)

end
