(* ===== verification/FakeRequests.thy ===== *)
theory FakeRequests
  imports FakeCar
begin

text \<open>
  The request handlers of the fake hardware (\<^verbatim>\<open>PendingRequestHandler\<close> in \<^verbatim>\<open>FakeVehicleHardware.cpp\<close>): callers queue requests with a
  callback, a thread takes all that wait, handles them and calls back. The interface of a handler is a function whose answers carry the id of
  the request.
\<close>

section \<open>Setting and getting\<close>

text \<open>C9. Setting an ordinary property and getting it again: the request is answered with \<open>OK\<close>, the store has exactly the new value under the
  key of the request, stamped with the time and with the status it had, listeners are told exactly if it has changed and they are
  subscribed, and every later request for the key is answered with this value. When the store refuses the value (an area that is not configured, a clock that went
  back) the answer is \<open>INVALID_ARG\<close>, nothing is stored and nobody is told.\<close>

theorem ordinary_set_get:
  fixes h v
  defines "new \<equiv> v\<lparr>pv_timestamp := clock h (ticks h)\<rparr>"
  assumes ord: "ordinary_prop h (pv_prop v)" and key: "key_of h new = Some k" and cb: "mOnValuesChangeCallback (mServerSidePropStore h)"
  shows "\<exists>h'. if write_allowed (mServerSidePropStore h) new
    then let w = new\<lparr>pv_status := (case values_of h k of None \<Rightarrow> AVAILABLE | Some old \<Rightarrow> pv_status old)\<rparr>
      in handleSetValueRequest \<lparr>sr_requestId = i, sr_value = v\<rparr> h = Some ((i, StatusCode_toInt OK), h') \<and> values_of h' = (values_of h)(k \<mapsto> w) \<and>
        emitted h' = emitted h @ (if value_changed (values_of h k) w then event_of h (OnValuesChange [w]) else []) \<and>
        (\<forall>g. pv_prop (gr_prop g) = pv_prop v \<and> key_of h (gr_prop g) = Some k \<longrightarrow>
           (\<exists>h''. handleGetValueRequest service g h' = Some ((gr_requestId g, StatusCode_toInt OK, Some w), h'')))
    else handleSetValueRequest \<lparr>sr_requestId = i, sr_value = v\<rparr> h = Some ((i, StatusCode_toInt INVALID_ARG), h') \<and>
      values_of h' = values_of h \<and> emitted h' = emitted h"
proof -
  obtain res h' where set: "fake_setValue v h = Some (coded res, h')" and keys: "\<And>q. key_of h' q = key_of h q"
    and eff: "if write_allowed (mServerSidePropStore h) new
      then let w = new\<lparr>pv_status := (case values_of h k of None \<Rightarrow> AVAILABLE | Some old \<Rightarrow> pv_status old)\<rparr>
        in res = Inr () \<and> values_of h' = (values_of h)(k \<mapsto> w) \<and>
          emitted h' = emitted h @ (if value_changed (values_of h k) w then event_of h (OnValuesChange [w]) else [])
      else res = Inl INVALID_ARG \<and> values_of h' = values_of h \<and> emitted h' = emitted h"
    using store_set_effect [OF ordinary_not_special(1) [OF ord] key [unfolded new_def] cb] unfolding new_def by blast
  have kept: "subs_part h' = subs_part h" "mPowerControllerServiceAddress h' = mPowerControllerServiceAddress h"
    using kept_subs.kept_setValue [OF refl set] kept_address.kept_setValue [OF refl set] by simp_all
  have get: "\<exists>h''. handleGetValueRequest service g h' = Some ((gr_requestId g, StatusCode_toInt OK, Some w), h'')"
    if "pv_prop (gr_prop g) = pv_prop v" "key_of h (gr_prop g) = Some k" "values_of h' k = Some w" for g w
    using ordinary_get [of h' g k w service] that ord ordinary_cong [OF kept] keys by auto
  show ?thesis using eff set get
    by (intro exI [of _ h']) (auto simp: handleSetValueRequest_def coded_def Let_def split: if_splits)
qed

text \<open>A vehicle with an odometer.\<close>

definition no_service :: power_service where
  "no_service = \<lparr>IsVehicleInUse = None, GetApPowerBootupReason = None\<rparr>"

definition odometer_car :: FakeVehicleHardware where
  "odometer_car = car [] [(odometer, [(0, float_raw 5)])]"

lemma odometer_facts:
  "ordinary_prop odometer_car odometer"
  "pv_prop u = odometer \<Longrightarrow> pv_areaId u = 0 \<Longrightarrow> slot odometer_car u = Some (odometer, \<lparr>rid_area = 0, rid_token = 0\<rparr>)"
  "values_of odometer_car (odometer, \<lparr>rid_area = 0, rid_token = 0\<rparr>) = Some (car_value odometer 0 (float_raw 5))"
proof -
  have "odometer \<notin> set special_props \<and> \<not> is_test_vendor_property odometer \<and> \<not> isSupported odometer \<and>
      map_of mAdasEnabledPropToAdasPropWithErrorState odometer = None" by code_simp
  then show "ordinary_prop odometer_car odometer" by (simp add: ordinary_prop_def odometer_car_def)
  show "slot odometer_car u = Some (odometer, \<lparr>rid_area = 0, rid_token = 0\<rparr>)" if "pv_prop u = odometer" "pv_areaId u = 0"
    using car_slot [of _ u "[(0, float_raw 5)]"] that by (simp add: odometer_car_def)
  show "values_of odometer_car (odometer, \<lparr>rid_area = 0, rid_token = 0\<rparr>) = Some (car_value odometer 0 (float_raw 5))"
    by (simp add: odometer_car_def car_values)
qed

theorem ordinary_set_get_witness:
  "\<exists>h' w h''. handleSetValueRequest \<lparr>sr_requestId = 1, sr_value = car_value odometer 0 (float_raw 7)\<rparr> odometer_car = Some ((1, StatusCode_toInt OK), h') \<and>
     handleGetValueRequest no_service \<lparr>gr_requestId = 2, gr_prop = car_value odometer 0 empty_raw\<rparr> h' = Some ((2, StatusCode_toInt OK, Some w), h'') \<and>
     w = (car_value odometer 0 (float_raw 7))\<lparr>pv_timestamp := 100\<rparr>"
proof -
  let ?h = odometer_car and ?k = "(odometer, \<lparr>rid_area = 0, rid_token = 0\<rparr>)" and ?v = "car_value odometer 0 (float_raw 7)"
  let ?new = "?v\<lparr>pv_timestamp := clock ?h (ticks ?h)\<rparr>"
  let ?g = "\<lparr>gr_requestId = 2, gr_prop = car_value odometer 0 empty_raw\<rparr>"
  have ord: "ordinary_prop ?h (pv_prop ?v)" by (simp add: odometer_facts)
  have key: "key_of ?h u = Some ?k" if "pv_prop u = odometer" "pv_areaId u = 0" for u by (rule slot_key(1) [OF odometer_facts(2) [OF that]])
  have cb: "mOnValuesChangeCallback (mServerSidePropStore ?h)" "clock ?h n = 100" for n by (simp_all add: odometer_car_def)
  have "write_allowed (mServerSidePropStore ?h) ?new" using slot_key(2) [OF odometer_facts(2) [of ?new]] by (simp add: odometer_facts cb)
  with ordinary_set_get [OF ord key cb(1), of 1 no_service] show ?thesis
    using key [of "gr_prop ?g"] by (auto simp: Let_def odometer_facts cb dest!: spec [of _ ?g])
qed

section \<open>Answering requests\<close>

text \<open>A handler whose answers carry the id of the request.\<close>

record ('c, 'q, 'r, 'h) handler_run =
  hr_queue :: "('c, 'q) PendingRequestHandler"
  hr_state :: 'h
  hr_asked :: "('q \<times> 'c) list"
  hr_called :: "('c \<times> 'r list) list"

text \<open>Callers add requests and stop the handler, its thread takes all that wait while the queue is active, other threads change the state.\<close>

inductive handler_step ::
  "('q \<Rightarrow> 'h \<Rightarrow> ('r \<times> 'h) option) \<Rightarrow> ('c, 'q, 'r, 'h) handler_run \<Rightarrow> ('c, 'q, 'r, 'h) handler_run \<Rightarrow> bool" for f where
  hs_add: "handler_step f s (s\<lparr>hr_queue := snd (fake_addRequests c rs (hr_queue s)),
     hr_asked := hr_asked s @ (if mIsActive (hr_queue s) then map (\<lambda>r. (r, c)) rs else [])\<rparr>)"
| hs_handle: "mIsActive (hr_queue s) \<Longrightarrow> handleRequestsOnce f (hr_queue s) (hr_state s) = Some ((results, q), h) \<Longrightarrow>
     handler_step f s (s\<lparr>hr_queue := q, hr_state := h, hr_called := hr_called s @ results\<rparr>)"
| hs_stop: "handler_step f s (s\<lparr>hr_queue := deactivate (hr_queue s)\<rparr>)"
| hs_other: "handler_step f s (s\<lparr>hr_state := h\<rparr>)"

definition handler_start :: "('c, 'q, 'r, 'h) handler_run \<Rightarrow> bool" where
  "handler_start s \<longleftrightarrow> hr_queue s = newConcurrentQueue \<and> hr_asked s = [] \<and> hr_called s = []"

definition of_callback :: "'c \<Rightarrow> ('q \<times> 'c) list \<Rightarrow> 'q list" where
  "of_callback c items = map fst (filter (\<lambda>x. snd x = c) items)"

definition answers_to :: "'c \<Rightarrow> ('c \<times> 'r list) list \<Rightarrow> 'r list" where
  "answers_to c calls = concat (map snd (filter (\<lambda>x. fst x = c) calls))"

lemma of_callback_simps [simp]:
  "of_callback c [] = []" "of_callback c (xs @ ys) = of_callback c xs @ of_callback c ys"
  "of_callback c (map (\<lambda>r. (r, c')) rs) = (if c' = c then rs else [])"
  by (auto simp: of_callback_def comp_def)

lemma answers_to_simps [simp]: "answers_to c [] = []" "answers_to c (xs @ ys) = answers_to c xs @ answers_to c ys"
  by (simp_all add: answers_to_def)

lemma answers_lookup:
  assumes "wf_alist calls"
  shows "answers_to c calls = lookup_or [] c calls"
  using assms
proof (induction calls)
  case (Cons x calls)
  have "answers_to c calls = []" if "c \<notin> fst ` set calls" using that by (force simp: answers_to_def filter_empty_conv)
  with Cons show ?case by (cases x) (auto simp: answers_to_def lookup_or_def)
qed (simp add: answers_to_def lookup_or_def)

lemma add_requests: "fold (addRequest c) rs q = queue_push_all (map (\<lambda>r. (r, c)) rs) q"
  by (induction rs arbitrary: q) (auto simp: addRequest_def queue_push_def push_all_eq)

definition conserved :: "('q \<Rightarrow> 'i) \<Rightarrow> ('r \<Rightarrow> 'i) \<Rightarrow> ('c, 'q, 'r, 'h) handler_run \<Rightarrow> bool" where
  "conserved qid rid s \<longleftrightarrow>
     (\<forall>c. map rid (answers_to c (hr_called s)) @ map qid (of_callback c (mQueue (hr_queue s))) = map qid (of_callback c (hr_asked s)))"

locale request_handler =
  fixes f :: "'q \<Rightarrow> 'h \<Rightarrow> ('r \<times> 'h) option" and qid :: "'q \<Rightarrow> 'i" and rid :: "'r \<Rightarrow> 'i"
  assumes answer_id: "f q h = Some (r, h') \<Longrightarrow> rid r = qid q"
begin

lemma handle_all_ids:
  "handle_all f items results h = Some (results', h') \<Longrightarrow> wf_alist results \<Longrightarrow>
     wf_alist results' \<and> map rid (lookup_or [] c results') = map rid (lookup_or [] c results) @ map qid (of_callback c items)"
proof (induction items arbitrary: results h)
  case (Cons item items)
  obtain q cb where item: "item = (q, cb)" by fastforce
  from Cons.prems(1) obtain r h1 where fr: "f q h = Some (r, h1)"
    and rest: "handle_all f items (AList.update cb (lookup_or [] cb results @ [r]) results) h1 = Some (results', h')"
    by (auto simp: item bind_eq_Some_conv)
  have "lookup_or [] c (AList.update cb (lookup_or [] cb results @ [r]) results) = lookup_or [] c results @ (if c = cb then [r] else [])"
    by (auto simp: lookup_or_def update_conv')
  with Cons.IH [OF rest] Cons.prems(2) answer_id [OF fr] show ?case by (auto simp: item of_callback_def)
qed simp

lemma conserved_step:
  assumes "handler_step f s t" and "conserved qid rid s"
  shows "conserved qid rid t"
  using assms
proof (induction rule: handler_step.induct)
  case (hs_add s c rs)
  then show ?case by (auto simp: conserved_def fake_addRequests_def add_requests push_all_eq)
next
  case (hs_handle s results q h)
  obtain items where fl: "flush (hr_queue s) = (items, q)" and all: "handle_all f items [] (hr_state s) = Some (results, h)"
    using hs_handle(2) by (auto simp: handleRequestsOnce_def bind_eq_Some_conv split: prod.splits)
  have items: "items = mQueue (hr_queue s)" "mQueue q = []" using fl cqueue.drain_items [of "hr_queue s"] cqueue.drain_content [of "hr_queue s"] by auto
  from handle_all_ids [OF all] have "wf_alist results" "map rid (answers_to c results) = map qid (of_callback c items)" for c
    by (simp_all add: answers_lookup lookup_or_def)
  then show ?case using hs_handle(3) items by (auto simp: conserved_def of_callback_def)
qed (auto simp: conserved_def deactivate_def)

sublocale step_invariant handler_start "handler_step f" "conserved qid rid"
proof
  show "conserved qid rid s" if "handler_start s" for s :: "('c, 'q, 'r, 'h) handler_run"
    using that by (simp add: handler_start_def conserved_def newConcurrentQueue_def)
qed (blast intro: conserved_step)

end

interpretation get_handler: request_handler "handleGetValueRequest service" gr_requestId fst for service
proof
  show "fst r = gr_requestId q" if f: "handleGetValueRequest service q h = Some (r, h')" for q h r h'
  proof (cases "fake_getValue service (gr_prop q) h")
    case (Some x)
    then show ?thesis using f by (cases x; cases "fst x") (auto simp: handleGetValueRequest_def)
  qed (use f in \<open>simp add: handleGetValueRequest_def\<close>)
qed

interpretation set_handler: request_handler handleSetValueRequest sr_requestId fst
  by unfold_locales (auto simp: handleSetValueRequest_def bind_eq_Some_conv)

text \<open>C8. Every request is answered once and in order: in every run of a request handler, whatever other threads do to the hardware meanwhile,
  the answers a callback got so far, followed by the requests still queued for it, are those it asked for, by id and in the order they were
  added while the handler was not stopped.\<close>

theorem requests_answered_in_order:
  "(handler_start s0 \<and> (handler_step (handleGetValueRequest service))\<^sup>*\<^sup>* s0 s \<longrightarrow>
      map fst (answers_to c (hr_called s)) @ map gr_requestId (of_callback c (mQueue (hr_queue s))) = map gr_requestId (of_callback c (hr_asked s))) \<and>
   (handler_start t0 \<and> (handler_step handleSetValueRequest)\<^sup>*\<^sup>* t0 t \<longrightarrow>
      map fst (answers_to c' (hr_called t)) @ map sr_requestId (of_callback c' (mQueue (hr_queue t))) = map sr_requestId (of_callback c' (hr_asked t)))"
  using get_handler.reachable_inv [of s0 service s] set_handler.reachable_inv [of t0 t] unfolding conserved_def by blast

text \<open>A caller asks for the odometer and is answered.\<close>

lemma handler_once:
  assumes "handler_start s0" and "f q (hr_state s0) = Some (r, h)"
  obtains s where "(handler_step f)\<^sup>*\<^sup>* s0 s" and "hr_asked s = [(q, c)]" and "mQueue (hr_queue s) = []" and "hr_called s = [(c, [r])]" and "hr_state s = h"
proof -
  define s1 where "s1 = s0\<lparr>hr_queue := snd (fake_addRequests c [q] (hr_queue s0)),
     hr_asked := hr_asked s0 @ (if mIsActive (hr_queue s0) then map (\<lambda>r. (r, c)) [q] else [])\<rparr>"
  have q: "hr_queue s1 = \<lparr>mIsActive = True, mQueue = [(q, c)]\<rparr>" "hr_asked s1 = [(q, c)]" "hr_called s1 = []" "hr_state s1 = hr_state s0"
    using assms(1) by (simp_all add: s1_def handler_start_def newConcurrentQueue_def fake_addRequests_def addRequest_def queue_push_def)
  have "handleRequestsOnce f (hr_queue s1) (hr_state s1) = Some (([(c, [r])], \<lparr>mIsActive = True, mQueue = []\<rparr>), h)"
    using assms(2) by (simp add: handleRequestsOnce_def q flush_def lookup_or_def)
  then have "handler_step f s1 (s1\<lparr>hr_queue := \<lparr>mIsActive = True, mQueue = []\<rparr>, hr_state := h, hr_called := hr_called s1 @ [(c, [r])]\<rparr>)"
    by (intro hs_handle) (simp_all add: q)
  moreover have "handler_step f s0 s1" unfolding s1_def by (rule hs_add)
  ultimately have "(handler_step f)\<^sup>*\<^sup>* s0 (s1\<lparr>hr_queue := \<lparr>mIsActive = True, mQueue = []\<rparr>, hr_state := h, hr_called := hr_called s1 @ [(c, [r])]\<rparr>)"
    by (meson converse_rtranclp_into_rtranclp r_into_rtranclp)
  then show thesis by (rule that) (simp_all add: q)
qed

theorem requests_answered_in_order_witness:
  "\<exists>s. (handler_step (handleGetValueRequest no_service))\<^sup>*\<^sup>*
       \<lparr>hr_queue = newConcurrentQueue, hr_state = odometer_car, hr_asked = [], hr_called = []\<rparr> s \<and>
     hr_asked s = [(\<lparr>gr_requestId = 2, gr_prop = car_value odometer 0 empty_raw\<rparr>, 9 :: nat)] \<and> map fst (answers_to 9 (hr_called s)) = [2]"
proof -
  let ?g = "\<lparr>gr_requestId = 2, gr_prop = car_value odometer 0 empty_raw\<rparr>"
  define s0 :: "(nat, GetValueRequest, int64 \<times> int32 \<times> VehiclePropValue option, FakeVehicleHardware) handler_run" where
    "s0 = \<lparr>hr_queue = newConcurrentQueue, hr_state = odometer_car, hr_asked = [], hr_called = []\<rparr>"
  have start: "handler_start s0" by (simp add: handler_start_def s0_def)
  have "ordinary_prop odometer_car (pv_prop (gr_prop ?g))" by (simp add: odometer_facts)
  moreover have "key_of odometer_car (gr_prop ?g) = Some (odometer, \<lparr>rid_area = 0, rid_token = 0\<rparr>)" by (rule slot_key(1)) (simp add: odometer_facts)
  ultimately obtain r h where "handleGetValueRequest no_service ?g odometer_car = Some (r, h)"
    using ordinary_get [OF _ _ odometer_facts(3)] by blast
  then have "handleGetValueRequest no_service ?g (hr_state s0) = Some (r, h)" by (simp add: s0_def)
  then obtain s where s: "(handler_step (handleGetValueRequest no_service))\<^sup>*\<^sup>* s0 s" "hr_asked s = [(?g, 9)]" "mQueue (hr_queue s) = []"
    by (rule handler_once [OF start])
  note answered = conjunct1 [OF requests_answered_in_order [of s0 no_service s 9]]
  have "of_callback 9 (mQueue (hr_queue s)) = []" "of_callback 9 (hr_asked s) = [?g]" by (simp_all add: s(2,3) of_callback_def)
  then have "map fst (answers_to 9 (hr_called s)) = [2]" using answered [rule_format, OF conjI [OF start s(1)]] by simp
  with s(1,2) show ?thesis unfolding s0_def [symmetric] by (intro exI conjI)
qed
end
