(* ===== verification/FakeClimate.thy ===== *)
theory FakeClimate
  imports FakeCar
begin

text \<open>
  Climate control in the fake hardware: the power switches of \<^verbatim>\<open>HVAC_POWER_ON\<close> with the properties that depend on them, and the
  synchronisation of temperatures by \<^verbatim>\<open>HVAC_DUAL_ON\<close>.
\<close>

section \<open>Climate control\<close>

definition covered :: "int32 \<Rightarrow> VehiclePropValue \<Rightarrow> bool" where
  "covered a v \<longleftrightarrow> pv_areaId v AND a = pv_areaId v"

definition with_power :: "int32 \<Rightarrow> VehiclePropValue \<Rightarrow> VehiclePropValue" where
  "with_power x v = v\<lparr>pv_status := (if x \<noteq> 0 then AVAILABLE else UNAVAILABLE)\<rparr>"

lemma send_current_writes:
  "clock_ok h \<Longrightarrow> \<forall>r \<in> set rs. slot h (r_value r) \<noteq> None \<Longrightarrow>
     writes h (map (with_power x) (filter (covered a) (map r_value rs))) (send_current a x rs h)"
proof (induction rs arbitrary: h)
  case Nil
  then show ?case by (simp add: writes_refl)
next
  case (Cons r rs)
  let ?v = "r_value r"
  show ?case
  proof (cases "covered a ?v")
    case False
    let ?h = "hw_drop [r] h"
    have w: "writes h [] ?h" by (rule writes_drop [OF Cons.prems(1)])
    then have "writes ?h (map (with_power x) (filter (covered a) (map r_value rs))) (send_current a x rs ?h)"
      using Cons.prems(2) writes_keep [OF w] by (intro Cons.IH) simp_all
    moreover have "pv_areaId ?v AND a \<noteq> pv_areaId ?v" using False by (simp add: covered_def)
    ultimately show ?thesis using writes_trans [OF w] False by simp
  next
    case True
    obtain now h1 where t: "elapsedRealtimeNano h = (now, h1)" by fastforce
    let ?r = "r\<lparr>r_value := ?v\<lparr>pv_status := (if x \<noteq> 0 then AVAILABLE else UNAVAILABLE), pv_timestamp := now\<rparr>\<rparr>"
    obtain res h2 where w: "hw_write ?r True ALWAYS False h1 = (res, h2)" by fastforce
    obtain k where k: "slot h (with_power x ?v) = Some k" using Cons.prems(2) by (auto simp: with_power_def)
    have one: "writes h [with_power x ?v] h2"
      by (rule writes_one(2) [OF Cons.prems(1) k t w]) (simp add: with_power_def)
    then have "writes h2 (map (with_power x) (filter (covered a) (map r_value rs))) (send_current a x rs h2)"
      using Cons.prems(2) writes_keep [OF one] k by (intro Cons.IH) simp_all
    moreover have "pv_areaId ?v AND a = pv_areaId ?v" using True by (simp add: covered_def)
    ultimately show ?thesis using writes_trans [OF one] True t w by (simp add: Let_def)
  qed
qed

text \<open>The same for a list of properties.\<close>

definition updated_props ::
  "(VehiclePropValue \<Rightarrow> bool) \<Rightarrow> (VehiclePropValue \<Rightarrow> VehiclePropValue) \<Rightarrow> int32 list \<Rightarrow> FakeVehicleHardware \<Rightarrow> FakeVehicleHardware \<Rightarrow> int32 \<times> RecordId \<Rightarrow> bool" where
  "updated_props c upd ps h h' k \<longleftrightarrow>
     (if fst k \<in> set ps
      then (case values_of h k of
              None \<Rightarrow> values_of h' k = None
            | Some v \<Rightarrow> if c v then \<exists>j. values_of h' k = Some ((upd v)\<lparr>pv_timestamp := clock h j\<rparr>) else values_of h' k = Some v)
      else values_of h' k = values_of h k)"

lemma send_props_effect:
  assumes "clock_ok h" and "store_inv (mServerSidePropStore h)" and "\<forall>p \<in> set ps. plain_prop h p" and "distinct ps"
  shows "updated_props (covered a) (with_power x) ps h (send_props a x ps h) k \<and> clock_ok (send_props a x ps h) \<and>
    store_part (send_props a x ps h) = store_part h \<and> (\<forall>p. plain_prop h p \<longrightarrow> plain_prop (send_props a x ps h) p)"
  using assms
proof (induction ps arbitrary: h)
  case Nil
  then show ?case by (simp add: updated_props_def)
next
  case (Cons p ps)
  obtain res h1 where rd: "hw_store (readValuesForProperty p) h = (res, h1)" by fastforce
  define h2 where "h2 = (case res of Inl _ \<Rightarrow> h1 | Inr copies \<Rightarrow> send_current a x copies h1)"
  have run: "send_props a x (p # ps) h = send_props a x ps h2" using rd by (simp add: h2_def split: sum.split)
  have w0: "writes h [] h1" by (rule writes_read [OF Cons.prems(1) rd])
  note same = writes_keep(1-3) [OF w0, simplified]
  have snap: "case res of Inl _ \<Rightarrow> \<forall>rid. values_of h (p, rid) = None | Inr copies \<Rightarrow> snapshot h p (map r_value copies)"
    using Cons.prems by (intro read_snapshot [OF _ _ rd]) simp_all
  define vs where "vs = (case res of Inl _ \<Rightarrow> [] | Inr copies \<Rightarrow> map r_value copies)"
  have vs: "snapshot h p vs" using snap by (cases res) (auto simp: vs_def snapshot_def)
  then have slots: "\<forall>v \<in> set vs. slot h v \<noteq> None" by (auto simp: snapshot_def)
  have "writes h1 (map (with_power x) (filter (covered a) vs)) h2"
  proof (cases res)
    case (Inr copies)
    then show ?thesis using slots same send_current_writes [of h1 copies x a] by (simp add: vs_def h2_def)
  qed (simp add: vs_def h2_def writes_refl same)
  from writes_trans [OF w0 this] have w: "writes h (map (with_power x) (filter (covered a) vs)) h2" by simp
  have sl: "slot h (with_power x v) = slot h v" for v by (simp add: with_power_def)
  have one: "updated_prop (covered a) (with_power x) p h h2 k" by (rule snapshot_writes [OF vs w sl])
  have "\<forall>v \<in> set (map (with_power x) (filter (covered a) vs)). slot h v \<noteq> None" using slots by (auto simp: sl)
  note keep = writes_keep [OF w this]
  have inv: "store_inv (mServerSidePropStore h2)"
    using kept_store.keep_send_props [OF Cons.prems(2), of a x "[p]"] rd by (simp add: h2_def split: sum.splits)
  have IH: "updated_props (covered a) (with_power x) ps h2 (send_props a x ps h2) k \<and> clock_ok (send_props a x ps h2) \<and>
      store_part (send_props a x ps h2) = store_part h2 \<and> (\<forall>p. plain_prop h2 p \<longrightarrow> plain_prop (send_props a x ps h2) p)"
    using Cons.prems keep inv by (intro Cons.IH) auto
  have "updated_props (covered a) (with_power x) (p # ps) h (send_props a x ps h2) k"
    using IH one Cons.prems(4) keep(2) by (auto simp: updated_props_def updated_prop_def split: if_splits option.splits)
  moreover have "store_part h2 = store_part h" using w by (simp add: writes_def)
  ultimately show ?case unfolding run using IH keep(4) by auto
qed

lemmas hvac_ids = HVAC_POWER_ON_def HVAC_TEMPERATURE_SET_def HVAC_DUAL_ON_def HVAC_TEMPERATURE_VALUE_SUGGESTION_def

lemmas other_ids = DISPLAY_BRIGHTNESS_def PER_DISPLAY_BRIGHTNESS_def AP_POWER_STATE_REPORT_def SHUTDOWN_REQUEST_def VEHICLE_MAP_SERVICE_def
  OBD2_FREEZE_FRAME_CLEAR_def VENDOR_PROPERTY_FOR_ERROR_CODE_TESTING_def

lemma hvac_not_other:
  assumes "p \<in> {HVAC_POWER_ON, HVAC_TEMPERATURE_SET, HVAC_DUAL_ON}"
  shows "\<not> is_test_vendor_property p" "\<not> isSupported p" "map_of mAdasEnabledPropToAdasPropWithErrorState p = None"
    "p \<notin> {DISPLAY_BRIGHTNESS, PER_DISPLAY_BRIGHTNESS, AP_POWER_STATE_REPORT, SHUTDOWN_REQUEST, VEHICLE_MAP_SERVICE,
       OBD2_FREEZE_FRAME_CLEAR, VENDOR_PROPERTY_FOR_ERROR_CODE_TESTING, HVAC_TEMPERATURE_VALUE_SUGGESTION}"
  using assms by (auto) code_simp+

lemma hvac_special:
  assumes "pv_prop v \<in> {HVAC_POWER_ON, HVAC_TEMPERATURE_SET, HVAC_DUAL_ON}"
  shows "maybeSetSpecialValue v h =
    (let (off, h0) = isHvacPropAndHvacNotAvailable (pv_prop v) (pv_areaId v) h
     in if off then special_error NOT_AVAILABLE_DISABLED h0
        else if pv_prop v = HVAC_POWER_ON then set_hvac_power v h0
        else if pv_prop v = HVAC_TEMPERATURE_SET then set_hvac_temperature v h0
        else set_hvac_dual v h0)"
  using hvac_not_other [OF assms] assms
  by (auto simp: maybeSetSpecialValue_def adas_enabled_written_def Let_def case_prod_beta)

lemma power_off_unique:
  assumes inv: "store_inv (mServerSidePropStore h)" and plain: "plain_prop h HVAC_POWER_ON" and w: "values_of h (HVAC_POWER_ON, rid) = Some w"
    and a: "pv_areaId w AND a = a"
    and only: "\<And>rid' w'. values_of h (HVAC_POWER_ON, rid') = Some w' \<Longrightarrow> pv_areaId w' AND a = a \<Longrightarrow> rid' = rid"
    and p: "p \<in> set (hvacPowerDependentProps h)"
  obtains h' where "isHvacPropAndHvacNotAvailable p a h = (int32Values (pv_value w) = [0], h')" and "values_of h' = values_of h" and "emitted h' = emitted h"
proof -
  obtain res h1 where rd: "hw_store (readValuesForProperty HVAC_POWER_ON) h = (res, h1)" by fastforce
  have h1: "values_of h1 = values_of h" "emitted h1 = emitted h"
    using rd by (auto simp: hw_store_def readValuesForProperty_def split: option.splits prod.splits)
  from read_snapshot [OF inv plain rd] w obtain copies where res: "res = Inr copies" and snap: "snapshot h HVAC_POWER_ON (map r_value copies)"
    by (cases res) auto
  have "find (\<lambda>v. pv_areaId v AND a = a) (map r_value copies) = Some w"
  proof -
    have "w \<in> set (map r_value copies)" using snap w by (simp add: snapshot_def)
    then obtain v where v: "find (\<lambda>v. pv_areaId v AND a = a) (map r_value copies) = Some v" using a
      by (cases "find (\<lambda>v. pv_areaId v AND a = a) (map r_value copies)") (auto simp: find_None_iff)
    then have v': "v \<in> set (map r_value copies)" "pv_areaId v AND a = a" by (auto simp: find_Some_iff)
    then obtain rid' where "values_of h (HVAC_POWER_ON, rid') = Some v" using snap unfolding snapshot_def by blast
    with only [OF this v'(2)] w v show ?thesis by simp
  qed
  then have "isHvacPropAndHvacNotAvailable p a h = (int32Values (pv_value w) = [0], hw_drop copies h1)"
    using p rd res by (simp add: isHvacPropAndHvacNotAvailable_def power_off_at_def)
  then show thesis by (rule that) (simp_all add: h1 hw_drop_def)
qed

text \<open>Properties that only climate control gates.\<close>

definition hvac_gated :: "FakeVehicleHardware \<Rightarrow> int32 \<Rightarrow> bool" where
  "hvac_gated h p \<longleftrightarrow> p \<in> set (hvacPowerDependentProps h) \<and> \<not> is_test_vendor_property p \<and> \<not> isSupported p \<and>
     p \<notin> {VEHICLE_IN_USE, AP_POWER_BOOTUP_REASON}"

lemma gated_refused:
  assumes "isHvacPropAndHvacNotAvailable (pv_prop v) (pv_areaId v) h = (True, h')" and "hvac_gated h (pv_prop v)"
  shows "fake_getValue service v h = Some (Inl (StatusCode_toInt NOT_AVAILABLE_DISABLED), h')"
    and "fake_setValue v h = Some (Inl (StatusCode_toInt NOT_AVAILABLE_DISABLED), h')"
  using assms
  by (auto simp: hvac_gated_def fake_getValue_def fake_setValue_def maybeGetSpecialValue_def maybeSetSpecialValue_def special_error_def)

lemma gate_decides:
  assumes "isHvacPropAndHvacNotAvailable (pv_prop q) (pv_areaId q) h = (off, h')" and "values_of h' = values_of h" and "emitted h' = emitted h"
    and "hvac_gated h (pv_prop q)"
  shows "(\<exists>h'. isHvacPropAndHvacNotAvailable (pv_prop q) (pv_areaId q) h = (off, h')) \<and>
    (off \<longrightarrow> (\<exists>h'. handleGetValueRequest service \<lparr>gr_requestId = j, gr_prop = q\<rparr> h = Some ((j, StatusCode_toInt NOT_AVAILABLE_DISABLED, None), h') \<and>
       handleSetValueRequest \<lparr>sr_requestId = j, sr_value = q\<rparr> h = Some ((j, StatusCode_toInt NOT_AVAILABLE_DISABLED), h') \<and>
       values_of h' = values_of h \<and> emitted h' = emitted h))"
  using assms gated_refused [of q h h'] by (cases off) (simp_all add: handleGetValueRequest_def handleSetValueRequest_def)

definition hvac_store_ok :: "FakeVehicleHardware \<Rightarrow> bool" where
  "hvac_store_ok h \<longleftrightarrow> clock_ok h \<and> store_inv (mServerSidePropStore h) \<and> mOnValuesChangeCallback (mServerSidePropStore h) \<and>
     distinct (hvacPowerDependentProps h) \<and> HVAC_POWER_ON \<notin> set (hvacPowerDependentProps h) \<and>
     (\<forall>p \<in> set (HVAC_POWER_ON # hvacPowerDependentProps h). plain_prop h p)"

lemma write_at_slot:
  assumes ok: "clock_ok h" and slot: "slot h v = Some k" and new: "new = v\<lparr>pv_timestamp := clock h (ticks h)\<rparr>"
  shows "key_of h new = Some k" and "write_allowed (mServerSidePropStore h) new"
proof -
  have s: "slot h new = Some k" using slot new by simp
  show "key_of h new = Some k" by (rule slot_key(1) [OF s])
  have "sint (pv_timestamp old) \<le> sint (pv_timestamp new)" if "values_of h k = Some old" for old
    using ok that unfolding clock_ok_def new by (cases k) simp
  then show "write_allowed (mServerSidePropStore h) new" using slot_key(2) [OF s] by blast
qed

lemma store_set_ok:
  assumes ms: "maybeSetSpecialValue v h0 = Some (None, h)" and ok: "clock_ok h" and slot: "slot h v = Some k"
    and cb: "mOnValuesChangeCallback (mServerSidePropStore h)"
    and w: "w = v\<lparr>pv_timestamp := clock h (ticks h), pv_status := (case values_of h k of None \<Rightarrow> AVAILABLE | Some old \<Rightarrow> pv_status old)\<rparr>"
  obtains h' where "fake_setValue v h0 = Some (Inr (), h')" and "values_of h' = (values_of h)(k \<mapsto> w)"
    and "emitted h' = emitted h @ (if value_changed (values_of h k) w then event_of h (OnValuesChange [w]) else [])"
proof -
  note allowed = write_at_slot [OF ok slot refl]
  show thesis
    by (rule store_set_effect [OF ms allowed(1) cb]) (use allowed(2) in \<open>auto intro!: that simp: w coded_def Let_def\<close>)
qed

text \<open>No operation changes the configurations.\<close>

definition store_meta :: "VehiclePropertyStore \<Rightarrow> (int32 \<Rightarrow> (VehiclePropConfig \<times> (VehiclePropValue \<Rightarrow> int64) option) option) \<times> bool" where
  "store_meta s = (\<lambda>p. map_option (\<lambda>record. (propConfig record, tokenFunction record)) (getRecordLocked s p), mOnValuesChangeCallback s)"

lemma store_part_meta: "store_part h = store_meta (mServerSidePropStore h)"
  by (simp add: store_part_def store_meta_def config_of_def fun_eq_iff)

lemma store_meta_simps [simp]:
  "store_meta (s\<lparr>mValuePool := pool\<rparr>) = store_meta s" "store_meta (drop_value r s) = store_meta s" "store_meta (drop_values rs s) = store_meta s"
  "store_meta (removeValue v s) = store_meta s" "store_meta (removeValuesForProperty p s) = store_meta s"
  by (auto simp: store_meta_def drop_value_def drop_values_def removeValue_def removeValuesForProperty_def getRecordLocked_def put_record_def Let_def
      fun_eq_iff split: option.split)

lemma store_meta_reads [simp]:
  "store_meta (snd (readValue v s)) = store_meta s" "store_meta (snd (readValue_token p a t s)) = store_meta s"
  "store_meta (snd (readValuesForProperty p s)) = store_meta s"
  by (simp_all add: readValue_def readValue_token_def readValuesForProperty_def readValueLocked_def Let_def case_prod_beta split: option.split)

lemma store_meta_obd2 [simp]:
  "store_meta (snd (getObd2FreezeFrame v s)) = store_meta s" "store_meta (snd (getObd2DtcInfo s)) = store_meta s"
  "store_meta (snd (clearObd2FreezeFrames v s)) = store_meta s"
proof -
  show "store_meta (snd (getObd2FreezeFrame v s)) = store_meta s" "store_meta (snd (getObd2DtcInfo s)) = store_meta s"
    by (auto simp: getObd2FreezeFrame_def getObd2DtcInfo_def Let_def case_prod_beta split: sum.split)
  have "store_meta (snd (clear_frames ts s)) = store_meta s" for ts
    by (induction ts arbitrary: s) (auto simp: case_prod_beta split: sum.split)
  then show "store_meta (snd (clearObd2FreezeFrames v s)) = store_meta s" by (simp add: clearObd2FreezeFrames_def)
qed

interpretation kept_config: hw_kept "\<lambda>h. store_part h = c" for c
  by unfold_locales
    (auto simp: store_part_write, auto simp: store_part_meta elapsedRealtimeNano_def hw_pool_def hw_store_def Let_def case_prod_beta)

lemma set_power_effect:
  assumes ok: "hvac_store_ok h" and v: "pv_prop v = HVAC_POWER_ON" "int32Values (pv_value v) = [x]" and slot: "slot h v = Some k"
  obtains h' w where "fake_setValue v h = Some (Inr (), h')" and "values_of h' k = Some w" and "int32Values (pv_value w) = [x]" and "pv_areaId w = pv_areaId v"
    and "\<And>k'. k' \<noteq> k \<Longrightarrow> updated_props (covered (pv_areaId v)) (with_power x) (hvacPowerDependentProps h) h h' k'"
    and "store_inv (mServerSidePropStore h')" and "plain_prop h' HVAC_POWER_ON" and "hvacPowerDependentProps h' = hvacPowerDependentProps h"
proof -
  let ?ps = "hvacPowerDependentProps h"
  define h1 where "h1 = send_props (pv_areaId v) x ?ps h"
  note eff = send_props_effect [of h ?ps "pv_areaId v" x, folded h1_def]
  have h1: "updated_props (covered (pv_areaId v)) (with_power x) ?ps h h1 k'" "clock_ok h1" "store_part h1 = store_part h"
    "plain_prop h1 HVAC_POWER_ON" for k'
    using eff [of k'] ok by (auto simp: hvac_store_ok_def)
  have ms: "maybeSetSpecialValue v h = Some (None, h1)"
    using hvac_special [of v h] v ok
    by (simp add: hvac_store_ok_def isHvacPropAndHvacNotAvailable_def set_hvac_power_def not_special_def sendHvacPropertiesCurrentValues_def h1_def)
  have s1: "slot h1 v = Some k" using slot slot_same [OF h1(3)] by simp
  have cb: "mOnValuesChangeCallback (mServerSidePropStore h1)" using h1(3) ok by (simp add: store_part_def hvac_store_ok_def)
  define w where "w = v\<lparr>pv_timestamp := clock h1 (ticks h1), pv_status := (case values_of h1 k of None \<Rightarrow> AVAILABLE | Some old \<Rightarrow> pv_status old)\<rparr>"
  obtain h' where set: "fake_setValue v h = Some (Inr (), h')" and vals: "values_of h' = (values_of h1)(k \<mapsto> w)"
    by (rule store_set_ok [OF ms h1(2) s1 cb w_def]) blast
  have sp: "store_part h' = store_part h" "subs_part h' = subs_part h" and inv: "store_inv (mServerSidePropStore h')"
    using kept_config.kept_setValue [OF refl set] kept_subs.kept_setValue [OF refl set] kept_store.kept_setValue [OF _ set] ok
    by (simp_all add: hvac_store_ok_def)
  have "config_of h' = config_of h1" using sp(1) h1(3) by (simp add: store_part_def)
  then have "plain_prop h' HVAC_POWER_ON"
    using h1(4) slot_token [OF s1] v(1) unfolding plain_prop_def vals by (cases k) auto
  moreover have "updated_props (covered (pv_areaId v)) (with_power x) ?ps h h' k'" if "k' \<noteq> k" for k'
    using h1(1) [of k'] that by (simp add: updated_props_def vals split: option.splits)
  moreover have "hvacPowerDependentProps h' = ?ps" using sp(2) by (simp add: subs_part_def)
  ultimately show thesis using vals v inv by (intro that [OF set, of w]) (simp_all add: w_def)
qed


text \<open>A cabin with one power switch, two seats with a temperature, dual mode on for both.\<close>

definition cabin_table :: car_table where
  "cabin_table = [(HVAC_POWER_ON, [(5, int32_raw 1)]), (HVAC_DUAL_ON, [(5, int32_raw 1)]),
     (HVAC_TEMPERATURE_SET, [(1, float_raw 0x41A00000), (4, float_raw 0x41A80000)])]"

definition cabin :: FakeVehicleHardware where
  "cabin = car [HVAC_TEMPERATURE_SET] cabin_table"

lemma hvac_ids_distinct [simp]:
  "HVAC_DUAL_ON \<noteq> HVAC_POWER_ON" "HVAC_POWER_ON \<noteq> HVAC_DUAL_ON" "HVAC_TEMPERATURE_SET \<noteq> HVAC_POWER_ON" "HVAC_TEMPERATURE_SET \<noteq> HVAC_DUAL_ON"
  "HVAC_POWER_ON \<noteq> HVAC_TEMPERATURE_SET" "HVAC_DUAL_ON \<noteq> HVAC_TEMPERATURE_SET"
  "\<not> isGlobalProp HVAC_POWER_ON" "\<not> isGlobalProp HVAC_DUAL_ON" "\<not> isGlobalProp HVAC_TEMPERATURE_SET"
  by code_simp+

lemma cabin_ok: "car_ok cabin_table"
  by (simp add: car_ok_def cabin_table_def)

lemma cabin_values:
  "values_of cabin (HVAC_POWER_ON, rid) = (if rid = \<lparr>rid_area = 5, rid_token = 0\<rparr> then Some (car_value HVAC_POWER_ON 5 (int32_raw 1)) else None)"
  "values_of cabin (HVAC_DUAL_ON, rid) = (if rid = \<lparr>rid_area = 5, rid_token = 0\<rparr> then Some (car_value HVAC_DUAL_ON 5 (int32_raw 1)) else None)"
  "values_of cabin (HVAC_TEMPERATURE_SET, rid) =
     (if rid = \<lparr>rid_area = 1, rid_token = 0\<rparr> then Some (car_value HVAC_TEMPERATURE_SET 1 (float_raw 0x41A00000))
      else if rid = \<lparr>rid_area = 4, rid_token = 0\<rparr> then Some (car_value HVAC_TEMPERATURE_SET 4 (float_raw 0x41A80000)) else None)"
  by (cases rid; auto simp: cabin_def car_values cabin_table_def)+


section \<open>Synchronised temperatures\<close>

definition with_temp :: "f32 \<Rightarrow> VehiclePropValue \<Rightarrow> VehiclePropValue" where
  "with_temp t v = v\<lparr>pv_value := (pv_value v)\<lparr>floatValues := t # tl (floatValues (pv_value v))\<rparr>\<rparr>"

definition synced :: "int32 \<Rightarrow> VehiclePropValue \<Rightarrow> bool" where
  "synced dualArea v \<longleftrightarrow> covered dualArea v \<and> pv_status v = AVAILABLE"

lemma slot_temp [simp]: "slot h (with_temp t v) = slot h v"
  by (simp add: with_temp_def)

lemma sync_skip: "\<not> synced D (r_value r) \<Longrightarrow> synchronize_loop D temp ks (r # rs) h = synchronize_loop D temp (ks @ [r]) rs h"
  by (auto simp: synced_def covered_def Let_def and.commute)

lemma sync_loop_writes:
  "clock_ok h \<Longrightarrow> \<forall>r \<in> set rs. slot h (r_value r) \<noteq> None \<and> floatValues (pv_value (r_value r)) \<noteq> [] \<Longrightarrow>
     \<exists>h'. synchronize_loop D (Some t) ks rs h = Some (Inr (), h') \<and> writes h (map (with_temp t) (filter (synced D) (map r_value rs))) h'"
proof (induction rs arbitrary: h ks)
  case Nil
  then show ?case by (simp add: writes_drop)
next
  case (Cons r rs)
  let ?v = "r_value r"
  show ?case
  proof (cases "synced D ?v")
    case False
    from Cons.IH [OF Cons.prems(1), of "ks @ [r]"] Cons.prems(2) False show ?thesis by (simp add: sync_skip [OF False] del: synchronize_loop.simps)
  next
    case True
    then have c: "\<not> (D AND pv_areaId ?v \<noteq> pv_areaId ?v \<or> pv_status ?v \<noteq> AVAILABLE)" by (simp add: synced_def covered_def and.commute)
    obtain y ys where fl: "floatValues (pv_value ?v) = y # ys" using Cons.prems(2) by (cases "floatValues (pv_value ?v)") auto
    obtain now h1 where tick: "elapsedRealtimeNano h = (now, h1)" by fastforce
    let ?r = "r\<lparr>r_value := ?v\<lparr>pv_timestamp := now, pv_value := (pv_value ?v)\<lparr>floatValues := t # ys\<rparr>\<rparr>\<rparr>"
    obtain res h2 where w: "hw_write ?r True ALWAYS False h1 = (res, h2)" by fastforce
    obtain k where k: "slot h (with_temp t ?v) = Some k" using Cons.prems(2) by auto
    have r: "r_value ?r = (with_temp t ?v)\<lparr>pv_timestamp := now\<rparr>" by (simp add: with_temp_def fl)
    note one = writes_one [OF Cons.prems(1) k tick w r]
    have keep: "clock_ok h2" "slot h2 = slot h" using writes_keep [OF one(2)] k by simp_all
    then obtain h' where "synchronize_loop D (Some t) ks rs h2 = Some (Inr (), h')"
      and "writes h2 (map (with_temp t) (filter (synced D) (map r_value rs))) h'"
      using Cons.IH [of h2 ks] Cons.prems(2) by auto
    then show ?thesis using writes_trans [OF one(2)] True c fl tick w one(1) by (auto simp: Let_def)
  qed
qed

lemma synced_area:
  assumes inv: "store_inv (mServerSidePropStore h)" and plain: "plain_prop h HVAC_DUAL_ON" and d: "values_of h (HVAC_DUAL_ON, rid) = Some d"
    and on: "pv_areaId d AND a = a" "int32Values (pv_value d) = [1]"
    and only: "\<And>rid' d'. values_of h (HVAC_DUAL_ON, rid') = Some d' \<Longrightarrow> pv_areaId d' AND a = a \<Longrightarrow> rid' = rid" and ok: "clock_ok h"
  obtains h' where "getSyncedAreaIdIfHvacDualOn a h = (Some (pv_areaId d), h')" and "writes h [] h'"
proof -
  obtain res h1 where rd: "hw_store (readValuesForProperty HVAC_DUAL_ON) h = (res, h1)" by fastforce
  let ?c = "\<lambda>v. pv_areaId v AND a = a \<and> int32Values (pv_value v) = [1]"
  from read_snapshot [OF inv plain rd] d obtain copies where res: "res = Inr copies" and snap: "snapshot h HVAC_DUAL_ON (map r_value copies)"
    by (cases res) auto
  have "d \<in> set (map r_value copies)" using snap d by (simp add: snapshot_def)
  then obtain v where v: "find ?c (map r_value copies) = Some v" using on
    by (cases "find ?c (map r_value copies)") (auto simp: find_None_iff)
  then have v': "v \<in> set (map r_value copies)" "pv_areaId v AND a = a" by (auto simp: find_Some_iff)
  then obtain rid' where "values_of h (HVAC_DUAL_ON, rid') = Some v" using snap unfolding snapshot_def by blast
  with only [OF this v'(2)] d v have "getSyncedAreaIdIfHvacDualOn a h = (Some (pv_areaId d), hw_drop copies h1)"
    using rd res by (simp add: getSyncedAreaIdIfHvacDualOn_def)
  moreover have w: "writes h [] h1" by (rule writes_read [OF ok rd])
  then have "writes h [] (hw_drop copies h1)" using writes_trans [OF w writes_drop] writes_keep(3) [OF w] by simp
  ultimately show thesis by (rule that)
qed

text \<open>Reading the power switch changes nothing.\<close>

lemma off_writes: "clock_ok h \<Longrightarrow> writes h [] (snd (isHvacPropAndHvacNotAvailable p a h))"
proof -
  assume ok: "clock_ok h"
  obtain res h1 where rd: "hw_store (readValuesForProperty HVAC_POWER_ON) h = (res, h1)" by fastforce
  have w: "writes h [] h1" by (rule writes_read [OF ok rd])
  then have "writes h [] (hw_drop rs h1)" for rs using writes_trans [OF w writes_drop] writes_keep(3) [OF w] by simp
  then show ?thesis using w writes_refl [OF ok] rd by (simp add: isHvacPropAndHvacNotAvailable_def split: sum.split)
qed

lemma writes_nil_same: "writes h [] h' \<Longrightarrow> values_of h' = values_of h \<and> store_part h' = store_part h \<and> clock_ok h' \<and> clock h' = clock h"
  by (auto simp: writes_def put_all_simps subs_part_def)

text \<open>One temperature for a zone: while \<open>HVAC_DUAL_ON\<close> is set for an area, setting the temperature of any seat in it
  sets every available temperature of the area, and nothing else, and the request is answered with \<open>OK\<close>.\<close>

theorem hvac_dual_synchronised:
  assumes ok: "clock_ok h" "store_inv (mServerSidePropStore h)" "plain_prop h HVAC_TEMPERATURE_SET" "plain_prop h HVAC_DUAL_ON"
    and v: "pv_prop v = HVAC_TEMPERATURE_SET" "floatValues (pv_value v) = [t]" and power: "\<not> fst (isHvacPropAndHvacNotAvailable HVAC_TEMPERATURE_SET (pv_areaId v) h)"
    and dual: "values_of h (HVAC_DUAL_ON, rid) = Some d" "pv_areaId d AND pv_areaId v = pv_areaId v" "int32Values (pv_value d) = [1]"
    and only: "\<And>rid' d'. values_of h (HVAC_DUAL_ON, rid') = Some d' \<Longrightarrow> pv_areaId d' AND pv_areaId v = pv_areaId v \<Longrightarrow> rid' = rid"
    and temps: "\<And>rid w. values_of h (HVAC_TEMPERATURE_SET, rid) = Some w \<Longrightarrow> floatValues (pv_value w) \<noteq> []"
    and some: "values_of h (HVAC_TEMPERATURE_SET, rid0) \<noteq> None"
  shows "\<exists>h'. handleSetValueRequest \<lparr>sr_requestId = i, sr_value = v\<rparr> h = Some ((i, StatusCode_toInt OK), h') \<and>
    (\<forall>k. updated_prop (synced (pv_areaId d)) (with_temp t) HVAC_TEMPERATURE_SET h h' k)"
proof -
  define h0 where "h0 = snd (isHvacPropAndHvacNotAvailable HVAC_TEMPERATURE_SET (pv_areaId v) h)"
  have w0: "writes h [] h0" unfolding h0_def by (rule off_writes [OF ok(1)])
  note same0 = writes_nil_same [OF w0]
  have inv0: "store_inv (mServerSidePropStore h0)" unfolding h0_def by (rule kept_store.keep_off [OF ok(2)])
  have plain0: "plain_prop h0 HVAC_DUAL_ON" using ok(4) same0 store_same_cong(2) [of h0 h] by simp
  obtain h1 where area: "getSyncedAreaIdIfHvacDualOn (pv_areaId v) h0 = (Some (pv_areaId d), h1)" and w1: "writes h0 [] h1"
    using synced_area [OF inv0 plain0 _ dual(2,3)] dual(1) only same0 by metis
  note same1 = writes_nil_same [OF w1]
  have inv1: "store_inv (mServerSidePropStore h1)" using kept_store.keep_synced [OF inv0, of "pv_areaId v"] area by simp
  have plain1: "plain_prop h1 HVAC_TEMPERATURE_SET" using ok(3) same0 same1 store_same_cong(2) [of h1 h] by simp
  obtain res h2 where rd: "hw_store (readValuesForProperty HVAC_TEMPERATURE_SET) h1 = (res, h2)" by fastforce
  have w2: "writes h1 [] h2" using same1 by (intro writes_read [OF _ rd]) simp
  note same2 = writes_nil_same [OF w2]
  from read_snapshot [OF inv1 plain1 rd] some same0 same1 obtain copies where res: "res = Inr copies"
    and snap: "snapshot h1 HVAC_TEMPERATURE_SET (map r_value copies)" by (cases res) auto
  have snap': "snapshot h HVAC_TEMPERATURE_SET (map r_value copies)" using snap same0 same1 store_same_cong(1) [of h1 h] by simp
  have "\<forall>r \<in> set copies. slot h2 (r_value r) \<noteq> None \<and> floatValues (pv_value (r_value r)) \<noteq> []"
  proof
    fix r assume "r \<in> set copies"
    then obtain rid where "slot h (r_value r) = Some (HVAC_TEMPERATURE_SET, rid)" "values_of h (HVAC_TEMPERATURE_SET, rid) = Some (r_value r)"
      using snap' unfolding snapshot_def by (metis in_set_conv_nth length_map nth_map)
    then show "slot h2 (r_value r) \<noteq> None \<and> floatValues (pv_value (r_value r)) \<noteq> []"
      using temps slot_same [of h2 h] same0 same1 same2 by simp
  qed
  then obtain h' where loop: "synchronize_loop (pv_areaId d) (Some t) [] copies h2 = Some (Inr (), h')"
    and w3: "writes h2 (map (with_temp t) (filter (synced (pv_areaId d)) (map r_value copies))) h'"
    using sync_loop_writes [of h2 copies "pv_areaId d" t "[]"] same2 by blast
  have w: "writes h (map (with_temp t) (filter (synced (pv_areaId d)) (map r_value copies))) h'"
    using writes_trans [OF writes_trans [OF writes_trans [OF w0 w1] w2] w3] by simp
  have off: "isHvacPropAndHvacNotAvailable HVAC_TEMPERATURE_SET (pv_areaId v) h = (False, h0)" using power by (simp add: h0_def prod_eq_iff)
  have ne: "HVAC_TEMPERATURE_SET \<noteq> HVAC_POWER_ON" by code_simp
  have "synchronizeHvacTemp (pv_areaId d) (Some t) h1 = Some (Inr (), h')" using rd res loop by (simp add: synchronizeHvacTemp_def)
  then have "maybeSetSpecialValue v h = Some (Some (Inr ()), h')"
    using ne by (simp add: hvac_special v off set_hvac_temperature_def area special_result_def coded_def)
  then have "fake_setValue v h = Some (Inr (), h')" by (simp add: fake_setValue_def)
  then show ?thesis using snapshot_writes [OF snap' w slot_temp] by (auto simp: handleSetValueRequest_def)
qed

theorem hvac_dual_synchronised_witness:
  "\<exists>h' j. handleSetValueRequest \<lparr>sr_requestId = 1, sr_value = car_value HVAC_TEMPERATURE_SET 1 (float_raw 0x41B00000)\<rparr> cabin = Some ((1, StatusCode_toInt OK), h') \<and>
     values_of h' (HVAC_TEMPERATURE_SET, \<lparr>rid_area = 4, rid_token = 0\<rparr>) =
       Some ((car_value HVAC_TEMPERATURE_SET 4 (float_raw 0x41B00000))\<lparr>pv_timestamp := j\<rparr>)"
proof -
  let ?v = "car_value HVAC_TEMPERATURE_SET 1 (float_raw 0x41B00000)" and ?k = "(HVAC_TEMPERATURE_SET, \<lparr>rid_area = 4, rid_token = 0\<rparr>)"
  have inv: "store_inv (mServerSidePropStore cabin)" "plain_prop cabin HVAC_POWER_ON" "plain_prop cabin HVAC_TEMPERATURE_SET" "plain_prop cabin HVAC_DUAL_ON"
    "clock_ok cabin"
    using car_inv [OF cabin_ok] by (simp_all add: cabin_def car_plain car_clock)
  have "\<not> fst (isHvacPropAndHvacNotAvailable HVAC_TEMPERATURE_SET 1 cabin)"
    by (rule power_off_unique [where a = 1 and rid = "\<lparr>rid_area = 5, rid_token = 0\<rparr>" and p = HVAC_TEMPERATURE_SET, OF inv(1,2)]) (auto simp: cabin_values split: if_splits, auto simp: cabin_def)
  then have power: "\<not> fst (isHvacPropAndHvacNotAvailable HVAC_TEMPERATURE_SET (pv_areaId ?v) cabin)" by simp
  let ?rid = "\<lparr>rid_area = 5, rid_token = 0\<rparr>" and ?d = "car_value HVAC_DUAL_ON 5 (int32_raw 1)"
  have dual: "values_of cabin (HVAC_DUAL_ON, ?rid) = Some ?d" "pv_areaId ?d AND pv_areaId ?v = pv_areaId ?v" "int32Values (pv_value ?d) = [1]"
    by (simp_all add: cabin_values)
  have only: "rid' = ?rid" if "values_of cabin (HVAC_DUAL_ON, rid') = Some d'" "pv_areaId d' AND pv_areaId ?v = pv_areaId ?v" for rid' d'
    using that(1) by (simp add: cabin_values split: if_splits)
  have temps: "floatValues (pv_value w) \<noteq> []" if "values_of cabin (HVAC_TEMPERATURE_SET, rid) = Some w" for rid w
    using that by (auto simp: cabin_values split: if_splits)
  have some: "values_of cabin (HVAC_TEMPERATURE_SET, \<lparr>rid_area = 1, rid_token = 0\<rparr>) \<noteq> None" by (simp add: cabin_values)
  have v: "pv_prop ?v = HVAC_TEMPERATURE_SET" "floatValues (pv_value ?v) = [0x41B00000]" by simp_all
  obtain h' where h': "handleSetValueRequest \<lparr>sr_requestId = 1, sr_value = ?v\<rparr> cabin = Some ((1, StatusCode_toInt OK), h')"
    and upd: "\<forall>k. updated_prop (synced (pv_areaId ?d)) (with_temp 0x41B00000) HVAC_TEMPERATURE_SET cabin h' k"
  proof -
    have "\<exists>h'. handleSetValueRequest \<lparr>sr_requestId = 1, sr_value = ?v\<rparr> cabin = Some ((1, StatusCode_toInt OK), h') \<and>
        (\<forall>k. updated_prop (synced (pv_areaId ?d)) (with_temp 0x41B00000) HVAC_TEMPERATURE_SET cabin h' k)"
      by (rule hvac_dual_synchronised [OF inv(5,1,3,4) v power dual]) (erule only temps | rule some | assumption)+
    then show thesis using that by blast
  qed
  have "updated_prop (synced 5) (with_temp 0x41B00000) HVAC_TEMPERATURE_SET cabin h' ?k" using upd by simp
  then have "\<exists>j. values_of h' ?k = Some ((car_value HVAC_TEMPERATURE_SET 4 (float_raw 0x41B00000))\<lparr>pv_timestamp := j\<rparr>)"
    by (auto simp: updated_prop_def cabin_values synced_def covered_def with_temp_def) (auto simp: car_value_def)
  with h' show ?thesis by blast
qed

end
