(* ===== verification/FakeAdas.thy ===== *)
theory FakeAdas
  imports FakeClimate
begin

text \<open>
  Driver assistance in the fake hardware: switching a feature on or off and the state properties that follow.
\<close>

section \<open>Driver assistance\<close>

lemma int_object:
  assumes "vp_inv p"
  shows "length (int32Values (pv_value (r_value (fst (obtain_type INT32 p))))) = 1"
proof (cases "isDisposable p INT32 1")
  case True
  then show ?thesis
    by (simp add: obtain_type_def obtain_sized_def isComplexType_def isSingleValueType_def obtainDisposable_def createVehiclePropValueVec_def Let_def empty_raw_def)
next
  case False
  then have "1 \<le> mMaxRecyclableVectorSize p" by (simp add: isDisposable_def isSingleValueType_def)
  with obtain_scalar_defined [OF assms] obtain r p' where "obtainInt32 0 p = Some (r, p')" "int32Values (pv_value (r_value r)) = [0]" by blast
  then show ?thesis by (auto simp: obtainInt32_def set_first_def Let_def case_prod_beta split: list.splits)
qed

definition state_value :: "int32 \<Rightarrow> int32 \<Rightarrow> int32 \<Rightarrow> VehiclePropValue \<Rightarrow> bool" where
  "state_value p a st v \<longleftrightarrow> pv_prop v = p \<and> pv_areaId v = a \<and> int32Values (pv_value v) = [st] \<and> pv_status v = AVAILABLE"

definition slot_at :: "FakeVehicleHardware \<Rightarrow> int32 \<Rightarrow> int32 \<Rightarrow> (int32 \<times> RecordId) option" where
  "slot_at h p a = slot h (empty_prop_value\<lparr>pv_prop := p, pv_areaId := a\<rparr>)"

lemma slot_at_value: "slot h v = slot_at h (pv_prop v) (pv_areaId v)"
  by (auto simp: slot_at_def slot_def getAreaConfig_value_def split: option.split)

lemma adas_write:
  assumes ok: "clock_ok h" and inv: "store_inv (mServerSidePropStore h)" and s: "slot_at h p a = Some k"
  obtains r h1 v where "createAdasStateReq p a st h = Some (r, h1)" and "state_value p a st v" and "writes h [v] (snd (hw_write r True ALWAYS False h1))"
proof -
  obtain req h0 where rq: "hw_pool (obtain_type INT32) h = (req, h0)" by fastforce
  obtain now h1 where tick: "elapsedRealtimeNano h0 = (now, h1)" by fastforce
  have "vp_inv (mValuePool (mServerSidePropStore h))" using inv by (simp add: store_inv_def)
  moreover have "req = fst (obtain_type INT32 (mValuePool (mServerSidePropStore h)))"
    and h0: "h0 = h\<lparr>mServerSidePropStore := (mServerSidePropStore h)\<lparr>mValuePool := snd (obtain_type INT32 (mValuePool (mServerSidePropStore h)))\<rparr>\<rparr>"
    using rq by (auto simp: hw_pool_def hw_store_def Let_def case_prod_beta)
  ultimately obtain y where y: "int32Values (pv_value (r_value req)) = [y]" using int_object by (auto simp: length_Suc_conv)
  have w0: "writes h [] h0" unfolding h0 by (rule writes_same [OF ok]) simp_all
  define v where "v = (r_value req)\<lparr>pv_prop := p, pv_areaId := a, pv_status := AVAILABLE,
    pv_value := (pv_value (r_value req))\<lparr>int32Values := [st]\<rparr>\<rparr>"
  define r where "r = req\<lparr>r_value := v\<lparr>pv_timestamp := now\<rparr>\<rparr>"
  have cr: "createAdasStateReq p a st h = Some (r, h1)"
    using rq tick y by (simp add: createAdasStateReq_def with_ints_def r_def v_def)
  have sv: "slot h0 v = Some k" using s writes_keep(1) [OF w0] slot_at_value [of h v] by (simp add: v_def)
  obtain res h2 where w: "hw_write r True ALWAYS False h1 = (res, h2)" by fastforce
  have "writes h0 [v] h2" by (rule writes_one(2) [OF _ sv tick w]) (use writes_keep(3) [OF w0] in \<open>simp_all add: r_def\<close>)
  from writes_trans [OF w0 this] w have "writes h [v] (snd (hw_write r True ALWAYS False h1))" by simp
  then show thesis using cr by (intro that [of r h1 v]) (simp_all add: state_value_def v_def)
qed

definition adas_state :: "int32 \<Rightarrow> int32 \<Rightarrow> int32" where
  "adas_state st p = (if st = 1 \<and> p = CRUISE_CONTROL_TYPE then CruiseControlType_ADAPTIVE else st)"

lemma adas_areas_writes:
  "clock_ok h \<Longrightarrow> store_inv (mServerSidePropStore h) \<Longrightarrow> \<forall>a \<in> set as. slot_at h p a \<noteq> None \<Longrightarrow>
     \<exists>h' vs. send_adas_areas p st as h = Some h' \<and> writes h vs h' \<and> list_all2 (\<lambda>a. state_value p a (adas_state st p)) as vs"
proof (induction as arbitrary: h)
  case Nil
  then show ?case by (auto simp: writes_refl)
next
  case (Cons a as)
  obtain k where k: "slot_at h p a = Some k" using Cons.prems(3) by auto
  obtain r h1 v where cr: "createAdasStateReq p a (adas_state st p) h = Some (r, h1)" and v: "state_value p a (adas_state st p) v"
    and w: "writes h [v] (snd (hw_write r True ALWAYS False h1))" by (rule adas_write [OF Cons.prems(1,2) k])
  let ?h = "snd (hw_write r True ALWAYS False h1)"
  have sv: "slot h v = Some k" using k v slot_at_value [of h v] by (simp add: state_value_def)
  have keep: "clock_ok ?h" "slot ?h = slot h" using writes_keep [OF w] sv by simp_all
  have "store_inv (mServerSidePropStore ?h)"
    using kept_store.keep_createAdas [OF cr Cons.prems(2)] by simp
  then obtain h' vs where "send_adas_areas p st as ?h = Some h'" "writes ?h vs h'" "list_all2 (\<lambda>a. state_value p a (adas_state st p)) as vs"
    using Cons.IH [of ?h] Cons.prems(3) keep by (auto simp: slot_at_def)
  then show ?case using cr v writes_trans [OF w] unfolding adas_state_def by fastforce
qed

lemma configured_slot:
  assumes "config_of h d = Some (config, None)" and "a \<in> ac_areaId ` set (areaConfigs config)"
  shows "slot_at h d a = Some (d, \<lparr>rid_area = (if isGlobalProp d then 0 else a), rid_token = 0\<rparr>)"
proof -
  from assms(2) have "find (\<lambda>c. ac_areaId c = a) (areaConfigs config) \<noteq> None" by (auto simp: find_None_iff simp del: not_None_eq)
  then have "getAreaConfig d a config \<noteq> None" using assms(2) by (cases "areaConfigs config") (auto simp: getAreaConfig_def)
  then show ?thesis using assms(1) by (simp add: slot_at_def slot_def getAreaConfig_value_def)
qed

definition adas_targets :: "FakeVehicleHardware \<Rightarrow> int32 list \<Rightarrow> (int32 \<times> int32) list" where
  "adas_targets h ds = concat (map (\<lambda>d. case config_of h d of None \<Rightarrow> [] | Some (config, _) \<Rightarrow> map (\<lambda>c. (d, ac_areaId c)) (areaConfigs config)) ds)"

lemma config_of_get: "getPropConfig d (mServerSidePropStore h) = (case config_of h d of None \<Rightarrow> Inl INVALID_ARG | Some (config, _) \<Rightarrow> Inr config)"
  by (simp add: getPropConfig_def config_of_def split: option.split)

lemma send_adas_writes:
  "clock_ok h \<Longrightarrow> store_inv (mServerSidePropStore h) \<Longrightarrow> \<forall>d \<in> set ds. \<forall>c f. config_of h d = Some (c, f) \<longrightarrow> f = None \<Longrightarrow>
     \<exists>h' vs. send_adas st ds h = Some h' \<and> writes h vs h' \<and>
       list_all2 (\<lambda>(d, a). state_value d a (adas_state st d)) (adas_targets h ds) vs"
proof (induction ds arbitrary: h)
  case Nil
  then show ?case by (auto simp: writes_refl adas_targets_def)
next
  case (Cons d ds)
  show ?case
  proof (cases "config_of h d")
    case None
    then show ?thesis using Cons.IH [OF Cons.prems(1,2)] Cons.prems(3) by (simp add: config_of_get adas_targets_def)
  next
    case (Some cf)
    then obtain config where c: "config_of h d = Some (config, None)" using Cons.prems(3) by (cases cf) auto
    let ?as = "map ac_areaId (areaConfigs config)"
    have "\<forall>a \<in> set ?as. slot_at h d a \<noteq> None" using configured_slot [OF c] by auto
    then obtain h1 vs where a: "send_adas_areas d st ?as h = Some h1" and w: "writes h vs h1"
      and l: "list_all2 (\<lambda>a. state_value d a (adas_state st d)) ?as vs"
      using adas_areas_writes [OF Cons.prems(1,2)] by blast
    have sp: "store_part h1 = store_part h" and ok: "clock_ok h1" using w by (simp_all add: writes_def)
    then have cfg: "config_of h1 = config_of h" by (simp add: store_part_def)
    have inv: "store_inv (mServerSidePropStore h1)" by (rule kept_store.keep_adas_areas [OF a Cons.prems(2)])
    obtain h' ws where "send_adas st ds h1 = Some h'" "writes h1 ws h'"
      and l2: "list_all2 (\<lambda>(d, a). state_value d a (adas_state st d)) (adas_targets h1 ds) ws"
      using Cons.IH [OF ok inv] Cons.prems(3) cfg by auto
    moreover have "list_all2 (\<lambda>(d, a). state_value d a (adas_state st d)) (adas_targets h (d # ds)) (vs @ ws)"
    proof -
      have t: "adas_targets h (d # ds) = map (Pair d) ?as @ adas_targets h1 ds" by (simp add: adas_targets_def c cfg)
      show ?thesis unfolding t by (rule list_all2_appendI) (use l l2 in \<open>simp_all add: list_all2_map1\<close>)
    qed
    ultimately show ?thesis using a c writes_trans [OF w] by (auto simp: config_of_get)
  qed
qed

text \<open>The last of several writes to a place counts.\<close>

lemma put_all_some:
  "\<exists>(v, t) \<in> set vts. the (slot h v) = k \<Longrightarrow> \<exists>(v, t) \<in> set vts. the (slot h v) = k \<and> put_all h vts m k = Some (v\<lparr>pv_timestamp := t\<rparr>)"
proof (induction vts arbitrary: m)
  case (Cons vt vts)
  obtain v t where vt: "vt = (v, t)" by fastforce
  show ?case
  proof (cases "\<exists>(v, t) \<in> set vts. the (slot h v) = k")
    case True
    define m' where "m' = m(the (slot h v) \<mapsto> v\<lparr>pv_timestamp := t\<rparr>)"
    from Cons.IH [OF True, of m'] show ?thesis unfolding vt put_all_simps m'_def [symmetric] by auto
  next
    case False
    then have "put_all h vts m' k = m' k" for m' by (intro put_all_other) auto
    with False Cons.prems show ?thesis unfolding vt put_all_simps by auto
  qed
qed simp

lemma writes_some:
  assumes w: "writes h vs h'" and s: "\<forall>v \<in> set vs. slot h v \<noteq> None" and v: "v \<in> set vs" "slot h v = Some k"
  obtains v' j where "v' \<in> set vs" and "slot h v' = Some k" and "values_of h' k = Some (v'\<lparr>pv_timestamp := clock h j\<rparr>)"
proof -
  obtain ts where ts: "length ts = length vs" "set ts \<subseteq> range (clock h)" "values_of h' = put_all h (zip vs ts) (values_of h)"
    using w unfolding writes_def by blast
  obtain i where "i < length vs" "vs ! i = v" using v(1) by (auto simp: in_set_conv_nth)
  then have "(v, ts ! i) \<in> set (zip vs ts)" using ts(1) by (auto simp: set_zip)
  then have "\<exists>(v, t) \<in> set (zip vs ts). the (slot h v) = k" using v(2) by force
  from put_all_some [OF this, of "values_of h"] obtain v' t where vt: "(v', t) \<in> set (zip vs ts)" "the (slot h v') = k"
    "values_of h' k = Some (v'\<lparr>pv_timestamp := t\<rparr>)" unfolding ts(3) by blast
  moreover have "v' \<in> set vs" "t \<in> set ts" using vt(1) by (auto dest: set_zip_leftD set_zip_rightD)
  moreover have "slot h v' = Some k" using s \<open>v' \<in> set vs\<close> vt(2) by auto
  ultimately show thesis using that ts(2) by blast
qed

text \<open>What the table says.\<close>

lemma adas_table_entries:
  "list_all (\<lambda>(p, ds). \<not> is_test_vendor_property p \<and> \<not> isSupported p \<and> p \<notin> set ds \<and>
     p \<notin> set [AP_POWER_STATE_REPORT, SHUTDOWN_REQUEST, VEHICLE_MAP_SERVICE, OBD2_FREEZE_FRAME_CLEAR, VENDOR_PROPERTY_FOR_ERROR_CODE_TESTING,
       HVAC_POWER_ON, HVAC_TEMPERATURE_VALUE_SUGGESTION, HVAC_TEMPERATURE_SET, HVAC_DUAL_ON, LANE_CENTERING_ASSIST_COMMAND, CRUISE_CONTROL_COMMAND,
       ADAPTIVE_CRUISE_CONTROL_TARGET_TIME_GAP]) mAdasEnabledPropToAdasPropWithErrorState"
  by code_simp

lemma adas_special:
  assumes p: "map_of mAdasEnabledPropToAdasPropWithErrorState (pv_prop v) = Some ds" and x: "int32Values (pv_value v) = [x]"
    and nd: "pv_prop v \<notin> set (hvacPowerDependentProps h)"
    and sent: "send_adas (if x = 1 then 1 else ErrorState_NOT_AVAILABLE_DISABLED) ds h = Some h1"
  shows "maybeSetSpecialValue v h = Some (None, h1)" and "pv_prop v \<notin> set ds"
proof -
  note entry = adas_table_entries [unfolded list_all_iff, rule_format, OF map_of_SomeD [OF p], simplified]
  then show "pv_prop v \<notin> set ds" by blast
  have "adas_enabled_written v h = Some h1" using p x sent by (simp add: adas_enabled_written_def sendAdasPropertiesState_def)
  then show "maybeSetSpecialValue v h = Some (None, h1)"
    using entry nd by (simp add: maybeSetSpecialValue_def isHvacPropAndHvacNotAvailable_def not_special_def Let_def)
qed

lemma available_iff:
  assumes "values_of h (p, \<lparr>rid_area = 0, rid_token = 0\<rparr>) = Some w" and "isGlobalProp p" and "int32Values (pv_value w) = [st]"
  shows "fst (isAdasPropertyAvailable p h) = (if sint st < 0 then Inl (error_state_status st) else Inr ())"
proof -
  obtain rc r where rc: "getRecordLocked (mServerSidePropStore h) p = Some rc" "map_of (rec_values rc) \<lparr>rid_area = 0, rid_token = 0\<rparr> = Some r" "r_value r = w"
    using assms(1) by (auto simp: abs_store_def bind_eq_Some_conv)
  obtain c pool where oc: "obtain_copy w (mValuePool (mServerSidePropStore h)) = (c, pool)" by fastforce
  then have "r_value c = w" using obtain_copy_same [of w "mValuePool (mServerSidePropStore h)"] by simp
  then show ?thesis using rc oc assms(2,3)
    by (simp add: isAdasPropertyAvailable_def hw_store_def readValue_token_def readValueLocked_def)
qed

text \<open>The writes and their targets.\<close>

lemma sent_state:
  assumes "list_all2 (\<lambda>(d, a). state_value d a (adas_state st d)) ts vs" and "u \<in> set vs"
  shows "state_value (pv_prop u) (pv_areaId u) (adas_state st (pv_prop u)) u" and "(pv_prop u, pv_areaId u) \<in> set ts"
proof -
  obtain d a where "(d, a) \<in> set ts" "state_value d a (adas_state st d) u"
    using assms by (induction rule: list_all2_induct) auto
  then show "state_value (pv_prop u) (pv_areaId u) (adas_state st (pv_prop u)) u" and "(pv_prop u, pv_areaId u) \<in> set ts"
    by (auto simp: state_value_def)
qed

lemma sent_all:
  assumes "list_all2 (\<lambda>(d, a). state_value d a (adas_state st d)) (adas_targets h ds) vs"
    and "d \<in> set ds" and "config_of h d = Some (c, None)" and "a \<in> ac_areaId ` set (areaConfigs c)"
  shows "\<exists>u \<in> set vs. state_value d a (adas_state st d) u"
proof -
  have "(d, a) \<in> set (adas_targets h ds)" using assms(2-4) by (force simp: adas_targets_def)
  with assms(1) show ?thesis by (induction rule: list_all2_induct) auto
qed

lemma sent_slots:
  assumes "list_all2 (\<lambda>(d, a). state_value d a (adas_state st d)) (adas_targets h ds) vs"
    and "\<forall>d \<in> set ds. \<forall>c f. config_of h d = Some (c, f) \<longrightarrow> f = None"
  shows "\<forall>u \<in> set vs. slot h u \<noteq> None"
proof
  fix u assume "u \<in> set vs"
  then have "(pv_prop u, pv_areaId u) \<in> set (adas_targets h ds)" by (rule sent_state(2) [OF assms(1)])
  then obtain c f where cf: "pv_prop u \<in> set ds" "config_of h (pv_prop u) = Some (c, f)" "pv_areaId u \<in> ac_areaId ` set (areaConfigs c)"
    by (auto simp: adas_targets_def split: option.splits) (metis imageI)
  with assms(2) have "config_of h (pv_prop u) = Some (c, None)" by blast
  then show "slot h u \<noteq> None" using configured_slot [OF _ cf(3)] slot_at_value [of h u] by simp
qed

lemma cruise_command:
  assumes "pv_prop q = CRUISE_CONTROL_COMMAND" and "CRUISE_CONTROL_COMMAND \<notin> set (hvacPowerDependentProps h)"
  shows "maybeSetSpecialValue q h = if_adas_available CRUISE_CONTROL_STATE (set_cruise_command q) h"
proof -
  have "\<not> is_test_vendor_property CRUISE_CONTROL_COMMAND" "\<not> isSupported CRUISE_CONTROL_COMMAND"
    "map_of mAdasEnabledPropToAdasPropWithErrorState CRUISE_CONTROL_COMMAND = None"
    "CRUISE_CONTROL_COMMAND \<notin> set [DISPLAY_BRIGHTNESS, PER_DISPLAY_BRIGHTNESS, AP_POWER_STATE_REPORT, SHUTDOWN_REQUEST, VEHICLE_MAP_SERVICE,
       OBD2_FREEZE_FRAME_CLEAR, VENDOR_PROPERTY_FOR_ERROR_CODE_TESTING, HVAC_POWER_ON, HVAC_TEMPERATURE_VALUE_SUGGESTION, HVAC_TEMPERATURE_SET,
       HVAC_DUAL_ON, LANE_CENTERING_ASSIST_COMMAND]"
    by code_simp+
  then show ?thesis using assms
    by (simp add: maybeSetSpecialValue_def isHvacPropAndHvacNotAvailable_def adas_enabled_written_def Let_def)
qed

lemma state_made:
  assumes w: "writes h vs h1" and vs: "list_all2 (\<lambda>(d, a). state_value d a (adas_state st d)) (adas_targets h ds) vs"
    and plain: "\<forall>d \<in> set ds. \<forall>c f. config_of h d = Some (c, f) \<longrightarrow> f = None"
    and d: "d \<in> set ds" "config_of h d = Some (c, None)" "a \<in> ac_areaId ` set (areaConfigs c)"
  shows "\<exists>u. values_of h1 (d, \<lparr>rid_area = (if isGlobalProp d then 0 else a), rid_token = 0\<rparr>) = Some u \<and>
    int32Values (pv_value u) = [adas_state st d] \<and> pv_status u = AVAILABLE"
proof -
  let ?k = "(d, \<lparr>rid_area = (if isGlobalProp d then 0 else a), rid_token = 0\<rparr>)"
  obtain u where u: "u \<in> set vs" "state_value d a (adas_state st d) u" using sent_all [OF vs d] by blast
  then have "slot h u = Some ?k" using configured_slot [OF d(2,3)] slot_at_value [of h u] by (simp add: state_value_def)
  then obtain u' n where u': "u' \<in> set vs" "slot h u' = Some ?k" "values_of h1 ?k = Some (u'\<lparr>pv_timestamp := clock h n\<rparr>)"
    by (rule writes_some [OF w sent_slots [OF vs plain] u(1)])
  have "pv_prop u' = d" using slot_token(2) [OF u'(2)] by simp
  then have "int32Values (pv_value u') = [adas_state st d]" "pv_status u' = AVAILABLE"
    using sent_state [OF vs u'(1)] by (auto simp: state_value_def)
  then show ?thesis using u'(3) by simp
qed

lemma cruise_refused:
  assumes "fst (isAdasPropertyAvailable CRUISE_CONTROL_STATE h) = Inl NOT_AVAILABLE_DISABLED" and "pv_prop q = CRUISE_CONTROL_COMMAND"
    and "CRUISE_CONTROL_COMMAND \<notin> set (hvacPowerDependentProps h)"
  shows "\<exists>h'. handleSetValueRequest \<lparr>sr_requestId = j, sr_value = q\<rparr> h = Some ((j, StatusCode_toInt NOT_AVAILABLE_DISABLED), h')"
  using assms cruise_command [of q h]
  by (simp add: handleSetValueRequest_def fake_setValue_def special_error_def if_adas_available_def case_prod_beta)

lemma cruise_state_follows:
  "map_of mAdasEnabledPropToAdasPropWithErrorState CRUISE_CONTROL_ENABLED = Some [CRUISE_CONTROL_TYPE, CRUISE_CONTROL_STATE]"
  "isGlobalProp CRUISE_CONTROL_STATE"
  by code_simp+


text \<open>A vehicle with cruise control.\<close>

definition cruise_car :: FakeVehicleHardware where
  "cruise_car = car [] [(CRUISE_CONTROL_ENABLED, [(0, int32_raw 1)]), (CRUISE_CONTROL_TYPE, [(0, int32_raw 2)]), (CRUISE_CONTROL_STATE, [(0, int32_raw 1)])]"

lemma cruise_ids [simp]: "CRUISE_CONTROL_ENABLED \<noteq> CRUISE_CONTROL_TYPE" "CRUISE_CONTROL_ENABLED \<noteq> CRUISE_CONTROL_STATE" "CRUISE_CONTROL_TYPE \<noteq> CRUISE_CONTROL_STATE"
  "CRUISE_CONTROL_TYPE \<noteq> CRUISE_CONTROL_ENABLED" "CRUISE_CONTROL_STATE \<noteq> CRUISE_CONTROL_ENABLED" "CRUISE_CONTROL_STATE \<noteq> CRUISE_CONTROL_TYPE"
  by code_simp+


end
