(* ===== verification/Generators.thy ===== *)
theory Generators
  imports Obd2 RecurrentTimer "HOL-Library.Monad_Syntax"
begin

text \<open>
  The fake value generators (\<^verbatim>\<open>GeneratorHub\<close>): the linear generator, the generator that replays events of a JSON file, and the hub that
  delivers the events of all generators at their time. \<open>None\<close> is a conversion of a float or a sum of times out of range; the assertions against it
  are not part of a release build.
\<close>

section \<open>Linear values\<close>

definition f32_add :: "f32 \<Rightarrow> f32 \<Rightarrow> f32" where
  "f32_add x y = f32_sub x (y XOR 0x80000000)"

definition f32_to_int32 :: "f32 \<Rightarrow> int32 option" where
  "f32_to_int32 x = do {n \<leftarrow> f32_trunc x; if - (2 ^ 31) \<le> n \<and> n < 2 ^ 31 then Some (word_of_int n) else None}"

definition checked64 :: "int \<Rightarrow> int64 option" where
  "checked64 n = (if in_int64 n then Some (word_of_int n) else None)"

definition f32_to_int64 :: "f32 \<Rightarrow> int64 option" where
  "f32_to_int64 x = Option.bind (f32_trunc x) checked64"

record GeneratorCfg =
  gc_propId :: int32
  gc_middleValue :: f32
  gc_currentValue :: f32
  gc_dispersion :: f32
  gc_increment :: f32
  gc_interval :: int64
  gc_lastEventTimestamp :: int64

definition initGenCfg :: "int32 \<Rightarrow> f32 \<Rightarrow> f32 \<Rightarrow> f32 \<Rightarrow> f32 \<Rightarrow> int64 \<Rightarrow> GeneratorCfg" where
  "initGenCfg propId middleValue initValue dispersion increment interval =
     (let outside = (f32_lt initValue (f32_sub middleValue dispersion) \<or> f32_le (f32_add middleValue dispersion) initValue)
      in \<lparr>gc_propId = propId, gc_middleValue = middleValue, gc_currentValue = (if outside then middleValue else initValue),
          gc_dispersion = dispersion, gc_increment = increment, gc_interval = interval, gc_lastEventTimestamp = 0\<rparr>)"

definition linear_of_request :: "VehiclePropValue \<Rightarrow> GeneratorCfg option" where
  "linear_of_request request =
     (case (int32Values (pv_value request), floatValues (pv_value request), int64Values (pv_value request)) of
        (_ # p # _, m # d # i # _, t # _) \<Rightarrow> Some (initGenCfg p m m d i t)
      | _ \<Rightarrow> None)"

definition linear_value :: "int32 \<Rightarrow> f32 \<Rightarrow> RawPropValues option" where
  "linear_value propId x =
     (case getPropType propId of
        INT32 \<Rightarrow> map_option (\<lambda>n. empty_raw\<lparr>int32Values := [n]\<rparr>) (f32_to_int32 x)
      | INT64 \<Rightarrow> map_option (\<lambda>n. empty_raw\<lparr>int64Values := [n]\<rparr>) (f32_to_int64 x)
      | FLOAT \<Rightarrow> Some (empty_raw\<lparr>floatValues := [x]\<rparr>)
      | _ \<Rightarrow> Some empty_raw)"

definition linear_step :: "GeneratorCfg \<Rightarrow> f32" where
  "linear_step g =
     (let x = f32_add (gc_currentValue g) (gc_increment g)
      in if f32_le (f32_add (gc_middleValue g) (gc_dispersion g)) x then f32_sub x (f32_mult (f32_of_int 2) (gc_dispersion g)) else x)"

definition linear_nextEvent :: "int64 \<Rightarrow> GeneratorCfg \<Rightarrow> (VehiclePropValue option \<times> GeneratorCfg) option" where
  "linear_nextEvent now g = do {
     raw \<leftarrow> linear_value (gc_propId g) (gc_currentValue g);
     t \<leftarrow> (if gc_lastEventTimestamp g = 0 then Some now else checked64 (sint (gc_lastEventTimestamp g) + sint (gc_interval g)));
     Some (Some (empty_prop_value\<lparr>pv_prop := gc_propId g, pv_value := raw, pv_timestamp := t\<rparr>),
           g\<lparr>gc_lastEventTimestamp := t, gc_currentValue := linear_step g\<rparr>)
   }"

section \<open>Replayed events\<close>

record JsonFakeValueGenerator =
  mEventIndex :: nat
  mEvents :: "VehiclePropValue list"
  mLastEventTimestamp :: int64
  mNumOfIterations :: int32

definition newJsonGenerator :: "VehiclePropValue list \<Rightarrow> int32 \<Rightarrow> JsonFakeValueGenerator" where
  "newJsonGenerator events iteration = \<lparr>mEventIndex = 0, mEvents = events, mLastEventTimestamp = 0, mNumOfIterations = iteration\<rparr>"

definition json_event_time :: "int64 \<Rightarrow> JsonFakeValueGenerator \<Rightarrow> int64 option" where
  "json_event_time now g =
     (let i = mEventIndex g
      in if mLastEventTimestamp g = 0 then Some now
         else if 0 < i
         then do {
           d \<leftarrow> checked64 (sint (pv_timestamp (mEvents g ! i)) - sint (pv_timestamp (mEvents g ! (i - 1))));
           checked64 (sint (mLastEventTimestamp g) + sint d)
         }
         else checked64 (sint (mLastEventTimestamp g) + 1000000))"

definition json_nextEvent :: "int64 \<Rightarrow> JsonFakeValueGenerator \<Rightarrow> (VehiclePropValue option \<times> JsonFakeValueGenerator) option" where
  "json_nextEvent now g =
     (if mNumOfIterations g = 0 \<or> mEvents g = [] then Some (None, g)
      else if length (mEvents g) \<le> mEventIndex g then None
      else do {
        t \<leftarrow> json_event_time now g;
        let i = Suc (mEventIndex g);
        let g' = (if i = length (mEvents g)
                  then g\<lparr>mLastEventTimestamp := t, mEventIndex := 0,
                         mNumOfIterations := (if 0 < sint (mNumOfIterations g) then mNumOfIterations g - 1 else mNumOfIterations g)\<rparr>
                  else g\<lparr>mLastEventTimestamp := t, mEventIndex := i\<rparr>);
        Some (Some ((mEvents g ! mEventIndex g)\<lparr>pv_timestamp := t\<rparr>), g')
      })"

definition hasNext :: "JsonFakeValueGenerator \<Rightarrow> bool" where
  "hasNext g \<longleftrightarrow> mNumOfIterations g \<noteq> 0 \<and> 0 < length (mEvents g)"

section \<open>All generators\<close>

datatype FakeValueGenerator = LinearFakeValueGenerator GeneratorCfg | JsonFakeValueGenerator JsonFakeValueGenerator

fun nextEvent :: "int64 \<Rightarrow> FakeValueGenerator \<Rightarrow> (VehiclePropValue option \<times> FakeValueGenerator) option" where
  "nextEvent now (LinearFakeValueGenerator g) = map_option (map_prod id LinearFakeValueGenerator) (linear_nextEvent now g)"
| "nextEvent now (JsonFakeValueGenerator g) = map_option (map_prod id JsonFakeValueGenerator) (json_nextEvent now g)"

section \<open>The hub\<close>

type_synonym VhalEvent = "int32 \<times> VehiclePropValue"

record GeneratorHub =
  mEventQueue :: "VhalEvent list"
  mGenerators :: "(int32 \<times> FakeValueGenerator) list"

definition newGeneratorHub :: GeneratorHub where
  "newGeneratorHub = \<lparr>mEventQueue = [], mGenerators = []\<rparr>"

definition registerGenerator :: "int64 \<Rightarrow> int32 \<Rightarrow> FakeValueGenerator \<Rightarrow> GeneratorHub \<Rightarrow> GeneratorHub option" where
  "registerGenerator now i generator hub = do {
     (maybeNextEvent, generator') \<leftarrow> nextEvent now generator;
     Some (case maybeNextEvent of
             None \<Rightarrow> hub
           | Some e \<Rightarrow>
               hub\<lparr>mEventQueue := (if map_of (mGenerators hub) i = None then mEventQueue hub @ [(i, e)] else mEventQueue hub),
                   mGenerators := AList.update i generator' (mGenerators hub)\<rparr>)
   }"

definition unregisterGenerator :: "int32 \<Rightarrow> GeneratorHub \<Rightarrow> bool \<times> GeneratorHub" where
  "unregisterGenerator i hub = (map_of (mGenerators hub) i \<noteq> None, hub\<lparr>mGenerators := AList.delete i (mGenerators hub)\<rparr>)"

text \<open>The top of the priority queue is an event with the least time; which one of several is not specified.\<close>

definition is_top :: "VhalEvent \<Rightarrow> VhalEvent list \<Rightarrow> bool" where
  "is_top e q \<longleftrightarrow> e \<in> set q \<and> (\<forall>e' \<in> set q. sint (pv_timestamp (snd e)) \<le> sint (pv_timestamp (snd e')))"

text \<open>What the thread does with the event at the top at a given time: an event without a generator is removed, an event of the future awaited; any
  other is delivered and followed by the next one of its generator, which is dropped when there is none.\<close>

definition run_top :: "int64 \<Rightarrow> VhalEvent \<Rightarrow> GeneratorHub \<Rightarrow> (VehiclePropValue option \<times> GeneratorHub) option" where
  "run_top now curEvent hub =
     (let i = fst curEvent; popped = hub\<lparr>mEventQueue := remove1 curEvent (mEventQueue hub)\<rparr>
      in case map_of (mGenerators hub) i of
           None \<Rightarrow> Some (None, popped)
         | Some generator \<Rightarrow>
             if sint now < sint (pv_timestamp (snd curEvent)) then Some (None, hub)
             else do {
               (maybeNextEvent, generator') \<leftarrow> nextEvent now generator;
               Some (Some (snd curEvent),
                 (case maybeNextEvent of
                    Some e \<Rightarrow> popped\<lparr>mEventQueue := mEventQueue popped @ [(i, e)], mGenerators := AList.update i generator' (mGenerators hub)\<rparr>
                  | None \<Rightarrow> popped\<lparr>mGenerators := AList.delete i (mGenerators hub)\<rparr>))
             })"

end
