(* ===== verification/GeneratorRuns.thy ===== *)
theory GeneratorRuns
  imports Generators
begin

text \<open>
  The interface that both generators implement, what the replaying generator yields, and runs of the hub: generators are registered and unregistered
  while its thread delivers events. The invariant is that a registered generator has exactly one event in the queue, its last one.
\<close>

section \<open>The interface of a generator\<close>

text \<open>A generator has the time of its last event, 0 before the first; an event carries the new time, the first one the time of the call.\<close>

locale event_source =
  fixes produce :: "int64 \<Rightarrow> 'g \<Rightarrow> (VehiclePropValue option \<times> 'g) option" and stamp :: "'g \<Rightarrow> int64"
  assumes stamped: "produce now g = Some (Some e, g') \<Longrightarrow> pv_timestamp e = stamp g'"
    and first: "produce now g = Some (Some e, g') \<Longrightarrow> stamp g = 0 \<Longrightarrow> stamp g' = now"
begin

lemma first_event: "produce now g = Some (Some e, g') \<Longrightarrow> stamp g = 0 \<Longrightarrow> pv_timestamp e = now"
  using stamped first by blast

end

interpretation linear: event_source linear_nextEvent gc_lastEventTimestamp
  by unfold_locales (auto simp: linear_nextEvent_def bind_eq_Some_conv)

interpretation json: event_source json_nextEvent mLastEventTimestamp
  by unfold_locales (auto simp: json_nextEvent_def json_event_time_def bind_eq_Some_conv Let_def split: if_splits)

fun last_stamp :: "FakeValueGenerator \<Rightarrow> int64" where
  "last_stamp (LinearFakeValueGenerator g) = gc_lastEventTimestamp g"
| "last_stamp (JsonFakeValueGenerator g) = mLastEventTimestamp g"

interpretation generator: event_source nextEvent last_stamp
proof
  show "pv_timestamp e = last_stamp g'" if "nextEvent now g = Some (Some e, g')" for now g e g'
    using that linear.stamped json.stamped by (cases g) auto
  show "last_stamp g' = now" if "nextEvent now g = Some (Some e, g')" "last_stamp g = 0" for now g e g'
    using that linear.first json.first by (cases g) auto
qed

section \<open>Replaying\<close>

definition replay_time :: "VehiclePropValue list \<Rightarrow> int \<Rightarrow> nat \<Rightarrow> int" where
  "replay_time es now i =
     (let t = (\<lambda>j. sint (pv_timestamp (es ! j))); m = length es
      in now + int (i div m) * (t (m - 1) - t 0 + 1000000) + (t (i mod m) - t 0))"

fun calls :: "(int64 \<Rightarrow> 'g \<Rightarrow> ('e option \<times> 'g) option) \<Rightarrow> int64 list \<Rightarrow> 'g \<Rightarrow> ('e option list \<times> 'g) option" where
  "calls produce [] g = Some ([], g)"
| "calls produce (now # nows) g = do {(e, g') \<leftarrow> produce now g; (es, g'') \<leftarrow> calls produce nows g'; Some (e # es, g'')}"

lemma replay_time_0: "replay_time es now 0 = now"
  by (simp add: replay_time_def Let_def)

lemma replay_time_Suc:
  assumes "es \<noteq> []"
  shows "replay_time es now (Suc i) = replay_time es now i +
    (if Suc i mod length es = 0 then 1000000
     else sint (pv_timestamp (es ! (Suc i mod length es))) - sint (pv_timestamp (es ! (Suc i mod length es - 1))))"
proof (cases "Suc (i mod length es) = length es")
  case True
  then have "Suc i div length es = Suc (i div length es)" "Suc i mod length es = 0" "i mod length es = length es - 1"
    by (simp_all add: div_Suc mod_Suc)
  then show ?thesis by (simp add: replay_time_def Let_def algebra_simps)
next
  case False
  then have "Suc i div length es = i div length es" "Suc i mod length es = Suc (i mod length es)"
    by (simp_all add: div_Suc mod_Suc)
  then show ?thesis by (simp add: replay_time_def Let_def)
qed

definition ascending :: "VehiclePropValue list \<Rightarrow> bool" where
  "ascending es \<longleftrightarrow> sorted (map (\<lambda>v. sint (pv_timestamp v)) es)"

lemma replay_time_mono:
  assumes "ascending es" and "es \<noteq> []" and "i \<le> j"
  shows "replay_time es now i \<le> replay_time es now j"
  using assms(3)
proof (induction rule: inc_induct)
  case (step n)
  let ?t = "\<lambda>v. sint (pv_timestamp v)" and ?j = "Suc n mod length es"
  have "?j < length es" using assms(2) by simp
  then have "?t (es ! (?j - 1)) \<le> ?t (es ! ?j)"
    using assms(1) sorted_nth_mono [of "map ?t es" "?j - 1" ?j] by (simp add: ascending_def)
  then have "replay_time es now n \<le> replay_time es now (Suc n)" by (simp add: replay_time_Suc [OF assms(2)])
  with step show ?case by simp
qed simp

text \<open>The state after \<open>i\<close> events.\<close>

definition replay_state :: "VehiclePropValue list \<Rightarrow> int32 \<Rightarrow> int \<Rightarrow> nat \<Rightarrow> JsonFakeValueGenerator" where
  "replay_state es k now i = \<lparr>mEventIndex = i mod length es, mEvents = es,
     mLastEventTimestamp = (if i = 0 then 0 else word_of_int (replay_time es now (i - 1))),
     mNumOfIterations = (if sint k < 0 then k else word_of_int (sint k - int (i div length es)))\<rparr>"

lemma replay_event_time:
  assumes es: "ascending es" "es \<noteq> []" and now: "0 < now" and bound: "replay_time es now i < 2 ^ 63" and t: "i = 0 \<Longrightarrow> sint t = now"
  shows "json_event_time t (replay_state es k now i) = Some (word_of_int (replay_time es now i))"
proof (cases i)
  case 0
  then show ?thesis using t by (simp add: json_event_time_def replay_state_def Let_def replay_time_0 flip: t)
next
  case (Suc j)
  let ?d = "replay_time es now i - replay_time es now j" and ?t = "replay_time es now j"
  have low: "now \<le> ?t" using replay_time_mono [OF es, of 0 j] by (simp add: replay_time_0)
  have up: "0 \<le> ?d" using replay_time_mono [OF es, of j i] Suc by simp
  have int64: "in_int64 ?t" "in_int64 ?d" "in_int64 (?t + ?d)" using low up now bound by (simp_all add: in_int64_def)
  have t': "sint (word_of_int ?t :: int64) = ?t" by (rule sint_of_int64 [OF int64(1)])
  then have nz: "(word_of_int ?t :: int64) \<noteq> 0" using low now by (metis not_less sint_0)
  have prev: "Suc j mod length es - 1 = j mod length es" if "Suc j mod length es \<noteq> 0" using that by (simp add: mod_Suc split: if_splits)
  note d = replay_time_Suc [OF es(2), of now j, folded Suc]
  show ?thesis
  proof (cases "i mod length es = 0")
    case True
    then have e: "replay_time es now i = ?t + 1000000" using d by simp
    with int64(3) t' nz True show ?thesis unfolding e by (simp add: json_event_time_def replay_state_def Suc Let_def checked64_def)
  next
    case False
    define d0 where "d0 = sint (pv_timestamp (es ! (i mod length es))) - sint (pv_timestamp (es ! (i mod length es - 1)))"
    have e: "?t + d0 = replay_time es now i" using d False by (simp add: d0_def)
    then have "in_int64 d0" using int64(2) by (simp flip: e)
    then obtain w where "checked64 d0 = Some w" "sint w = d0" using sint_of_int64 [of d0] by (auto simp: checked64_def)
    moreover have "checked64 (?t + d0) = Some (word_of_int (replay_time es now i))" unfolding e using int64(3) by (simp add: checked64_def)
    ultimately show ?thesis using t' nz False by (simp add: json_event_time_def replay_state_def Suc Let_def d0_def)
  qed
qed

lemma sint_of_int32: "- (2 ^ 31) \<le> n \<Longrightarrow> n < 2 ^ 31 \<Longrightarrow> sint (word_of_int n :: int32) = n"
  by (simp add: sint_sbintrunc' signed_take_bit_int_eq_self)

lemma replay_step:
  assumes es: "ascending es" "es \<noteq> []" and now: "0 < now" and bound: "replay_time es now i < 2 ^ 63" and t: "i = 0 \<Longrightarrow> sint t = now"
    and left: "sint k < 0 \<or> i < nat (sint k) * length es"
  shows "json_nextEvent t (replay_state es k now i) =
    Some (Some ((es ! (i mod length es))\<lparr>pv_timestamp := word_of_int (replay_time es now i)\<rparr>), replay_state es k now (Suc i))"
proof -
  let ?m = "length es" and ?g = "replay_state es k now i"
  have m: "0 < ?m" using es(2) by simp
  have it: "sint (mNumOfIterations ?g) = (if sint k < 0 then sint k else sint k - int (i div ?m))"
    and pos: "\<not> sint k < 0 \<Longrightarrow> int (i div ?m) < sint k"
  proof -
    have "int (i div ?m) < sint k" if "\<not> sint k < 0"
      using left that m by (simp add: less_mult_imp_div_less zless_nat_eq_int_zless flip: zless_nat_eq_int_zless)
    then show "\<not> sint k < 0 \<Longrightarrow> int (i div ?m) < sint k" by simp
    then show "sint (mNumOfIterations ?g) = (if sint k < 0 then sint k else sint k - int (i div ?m))"
      using sint_of_int32 [of "sint k - int (i div ?m)"] sint_lt [of k] by (auto simp: replay_state_def)
  qed
  then have nz: "mNumOfIterations ?g \<noteq> 0" by (auto split: if_splits)
  have next_k: "(if Suc (i mod ?m) = ?m \<and> 0 < sint (mNumOfIterations ?g) then mNumOfIterations ?g - 1 else mNumOfIterations ?g) =
      mNumOfIterations (replay_state es k now (Suc i))"
    using it pos m by (auto simp: replay_state_def div_Suc mod_Suc) 
  have fields: "mEventIndex ?g = i mod ?m" "mEvents ?g = es" by (simp_all add: replay_state_def)
  have "replay_state es k now (Suc i) = ?g\<lparr>mLastEventTimestamp := word_of_int (replay_time es now i),
      mEventIndex := (if Suc (i mod ?m) = ?m then 0 else Suc (i mod ?m)),
      mNumOfIterations := (if Suc (i mod ?m) = ?m \<and> 0 < sint (mNumOfIterations ?g) then mNumOfIterations ?g - 1 else mNumOfIterations ?g)\<rparr>"
    unfolding next_k by (simp add: replay_state_def mod_Suc)
  moreover have "\<not> ?m \<le> i mod ?m" using mod_less_divisor [OF m, of i] by linarith
  ultimately show ?thesis using fields nz es(2)
    by (simp add: json_nextEvent_def replay_event_time [OF es now bound t] Let_def)
qed

lemma replay_over:
  assumes "es \<noteq> []" and "0 \<le> sint k" and "i = nat (sint k) * length es"
  shows "json_nextEvent t (replay_state es k now i) = Some (None, replay_state es k now i)"
  using assms by (simp add: json_nextEvent_def replay_state_def)

definition replayed :: "VehiclePropValue list \<Rightarrow> int32 \<Rightarrow> int \<Rightarrow> nat \<Rightarrow> VehiclePropValue option" where
  "replayed es k now i =
     (if sint k < 0 \<or> i < nat (sint k) * length es
      then Some ((es ! (i mod length es))\<lparr>pv_timestamp := word_of_int (replay_time es now i)\<rparr>) else None)"

lemma replay_calls:
  assumes es: "ascending es" "es \<noteq> []" and now: "0 < now"
  shows "(\<forall>j \<in> {i..<i + length ts}. replay_time es now j < 2 ^ 63) \<Longrightarrow> (i = 0 \<and> ts \<noteq> [] \<Longrightarrow> sint (hd ts) = now) \<Longrightarrow>
    (sint k < 0 \<or> i \<le> nat (sint k) * length es) \<Longrightarrow>
    \<exists>g. calls json_nextEvent ts (replay_state es k now i) = Some (map (replayed es k now) [i..<i + length ts], g)"
proof (induction ts arbitrary: i)
  case (Cons t ts)
  show ?case
  proof (cases "sint k < 0 \<or> i < nat (sint k) * length es")
    case True
    have "json_nextEvent t (replay_state es k now i) = Some (replayed es k now i, replay_state es k now (Suc i))"
      using True Cons.prems(1,2) by (subst replay_step [OF es now]) (auto simp: replayed_def)
    moreover have "\<exists>g. calls json_nextEvent ts (replay_state es k now (Suc i)) = Some (map (replayed es k now) [Suc i..<Suc i + length ts], g)"
      using Cons.prems(1) True by (intro Cons.IH) auto
    moreover have "[i..<i + length (t # ts)] = i # [Suc i..<Suc i + length ts]" by (simp add: upt_conv_Cons del: upt_Suc)
    ultimately show ?thesis by (auto simp del: upt_Suc)
  next
    case False
    then have k: "0 \<le> sint k" "i = nat (sint k) * length es" using Cons.prems(3) by auto
    have none: "json_nextEvent t (replay_state es k now i) = Some (None, replay_state es k now i)" for t
      by (rule replay_over [OF es(2) k])
    then have "calls json_nextEvent ts (replay_state es k now i) = Some (replicate (length ts) None, replay_state es k now i)" for ts
      by (induction ts) simp_all
    moreover have "map (replayed es k now) [i..<i + length (t # ts)] = replicate (length (t # ts)) None"
      using k by (intro nth_equalityI) (simp_all add: replayed_def del: upt_Suc replicate_Suc flip: replicate_Suc)
    ultimately show ?thesis by (simp add: none)
  qed
qed simp

text \<open>C19. Replaying a file: a generator made from events in ascending order answers its calls with the events one after the other, as many times over as it
  was told (forever if negative), and then with nothing; the first event happens at the time of the first call, each later one as long
  after the one before as in the file, and a new iteration one millisecond after the last.\<close>

theorem json_replays:
  assumes "ascending es" and "es \<noteq> []" and "0 < sint t" and "\<forall>j \<le> length ts. replay_time es (sint t) j < 2 ^ 63"
  shows "\<exists>g. calls json_nextEvent (t # ts) (newJsonGenerator es k) = Some (map (replayed es k (sint t)) [0..<Suc (length ts)], g)"
proof -
  have "newJsonGenerator es k = replay_state es k (sint t) 0" by (simp add: newJsonGenerator_def replay_state_def)
  then show ?thesis
    using replay_calls [OF assms(1-3), of 0 "t # ts" k] assms(4) by (auto simp del: calls.simps upt_Suc)
qed

theorem json_replays_witness:
  "\<exists>g. calls json_nextEvent [100, 0, 0] (newJsonGenerator [empty_prop_value\<lparr>pv_timestamp := 5\<rparr>, empty_prop_value\<lparr>pv_timestamp := 8\<rparr>] 1) =
     Some ([Some (empty_prop_value\<lparr>pv_timestamp := 100\<rparr>), Some (empty_prop_value\<lparr>pv_timestamp := 103\<rparr>), None], g)"
proof -
  let ?es = "[empty_prop_value\<lparr>pv_timestamp := 5\<rparr>, empty_prop_value\<lparr>pv_timestamp := 8\<rparr>]"
  have "\<forall>j \<le> length [0, 0 :: int64]. replay_time ?es (sint (100 :: int64)) j < 2 ^ 63"
    by (auto simp: replay_time_def Let_def le_Suc_eq numeral_2_eq_2)
  moreover have "ascending ?es" "?es \<noteq> []" "0 < sint (100 :: int64)" by (simp_all add: ascending_def)
  ultimately obtain g where "calls json_nextEvent (100 # [0, 0]) (newJsonGenerator ?es 1) =
      Some (map (replayed ?es 1 (sint (100 :: int64))) [0..<Suc (length [0, 0 :: int64])], g)"
    using json_replays [of ?es 100 "[0, 0]" 1] by blast
  moreover have "map (replayed ?es 1 (sint (100 :: int64))) [0..<Suc (length [0, 0 :: int64])] =
      [Some (empty_prop_value\<lparr>pv_timestamp := 100\<rparr>), Some (empty_prop_value\<lparr>pv_timestamp := 103\<rparr>), None]"
    by (simp add: replayed_def replay_time_def Let_def upt_rec)
  ultimately show ?thesis by (intro exI [of _ g]) simp
qed

section \<open>Runs of the hub\<close>

record hub_run =
  hub_of :: GeneratorHub
  hub_time :: int64
  delivered :: "VehiclePropValue list"

text \<open>Generators are registered when they are new, under an id that is not in use; the thread handles the top event. A generator moves on in time,
  as its assertion demands.\<close>

inductive hub_step :: "hub_run \<Rightarrow> hub_run \<Rightarrow> bool" where
  hub_register:
    "last_stamp g = 0 \<Longrightarrow> map_of (mGenerators (hub_of s)) i = None \<Longrightarrow> i \<notin> fst ` set (mEventQueue (hub_of s)) \<Longrightarrow>
     registerGenerator (hub_time s) i g (hub_of s) = Some h \<Longrightarrow> hub_step s (s\<lparr>hub_of := h\<rparr>)"
| hub_unregister: "hub_step s (s\<lparr>hub_of := snd (unregisterGenerator i (hub_of s))\<rparr>)"
| hub_tick: "sint (hub_time s) \<le> sint now \<Longrightarrow> hub_step s (s\<lparr>hub_time := now\<rparr>)"
| hub_handle:
    "is_top e (mEventQueue (hub_of s)) \<Longrightarrow> run_top (hub_time s) e (hub_of s) = Some (out, h) \<Longrightarrow>
     (\<And>g v g'. map_of (mGenerators (hub_of s)) (fst e) = Some g \<Longrightarrow> nextEvent (hub_time s) g = Some (Some v, g') \<Longrightarrow>
        sint (last_stamp g) < sint (pv_timestamp v)) \<Longrightarrow>
     hub_step s (s\<lparr>hub_of := h, delivered := delivered s @ (case out of None \<Rightarrow> [] | Some v \<Rightarrow> [v])\<rparr>)"

definition hub_start :: "hub_run \<Rightarrow> bool" where
  "hub_start s \<longleftrightarrow> hub_of s = newGeneratorHub \<and> delivered s = []"

abbreviation event_time :: "VehiclePropValue \<Rightarrow> int" where
  "event_time v \<equiv> sint (pv_timestamp v)"

text \<open>Each generator has one queued event, its last one.\<close>

definition one_each :: "GeneratorHub \<Rightarrow> bool" where
  "one_each h \<longleftrightarrow> wf_alist (mGenerators h) \<and>
     (\<forall>i g. map_of (mGenerators h) i = Some g \<longrightarrow> (\<exists>v. filter (\<lambda>e. fst e = i) (mEventQueue h) = [(i, v)] \<and> pv_timestamp v = last_stamp g))"

definition in_order :: "hub_run \<Rightarrow> bool" where
  "in_order s \<longleftrightarrow> sorted (map event_time (delivered s)) \<and> (\<forall>v \<in> set (delivered s). event_time v \<le> sint (hub_time s)) \<and>
     (\<forall>v \<in> set (delivered s). \<forall>e \<in> set (mEventQueue (hub_of s)). event_time v \<le> event_time (snd e))"

definition hub_inv :: "hub_run \<Rightarrow> bool" where
  "hub_inv s \<longleftrightarrow> one_each (hub_of s) \<and> in_order s"

lemma one_each_register:
  assumes "one_each h" and "map_of (mGenerators h) i = None" and "i \<notin> fst ` set (mEventQueue h)"
    and "nextEvent now g = Some (Some v, g')"
  shows "one_each (h\<lparr>mEventQueue := mEventQueue h @ [(i, v)], mGenerators := AList.update i g' (mGenerators h)\<rparr>)"
proof -
  have "filter (\<lambda>e. fst e = i) (mEventQueue h) = []" using assms(3) by (auto simp: filter_empty_conv)
  then show ?thesis using assms(1) generator.stamped [OF assms(4)] by (auto simp: one_each_def update_conv')
qed

lemma one_each_unregister: "one_each h \<Longrightarrow> one_each (h\<lparr>mGenerators := AList.delete i (mGenerators h)\<rparr>)"
  by (auto simp: one_each_def delete_conv')

lemma filter_remove_other: "i \<noteq> fst e \<Longrightarrow> filter (\<lambda>x. fst x = i) (remove1 e q) = filter (\<lambda>x. fst x = i) q"
  by (simp add: filter_remove1 remove1_idem)

lemma one_each_pop:
  assumes "one_each h" and "map_of (mGenerators h) (fst e) = None"
  shows "one_each (h\<lparr>mEventQueue := remove1 e (mEventQueue h)\<rparr>)"
proof -
  have "filter (\<lambda>x. fst x = i) (remove1 e (mEventQueue h)) = filter (\<lambda>x. fst x = i) (mEventQueue h)" if "map_of (mGenerators h) i = Some g" for i g
    using that assms(2) by (intro filter_remove_other) auto
  with assms(1) show ?thesis by (simp add: one_each_def)
qed

lemma one_each_follow:
  assumes "one_each h" and "e \<in> set (mEventQueue h)" and "map_of (mGenerators h) (fst e) = Some g"
  shows "pv_timestamp (snd e) = last_stamp g"
    and "nextEvent now g = Some (Some v, g') \<Longrightarrow>
      one_each (h\<lparr>mEventQueue := remove1 e (mEventQueue h) @ [(fst e, v)], mGenerators := AList.update (fst e) g' (mGenerators h)\<rparr>)"
    and "one_each (h\<lparr>mEventQueue := remove1 e (mEventQueue h), mGenerators := AList.delete (fst e) (mGenerators h)\<rparr>)"
proof -
  obtain w where w: "filter (\<lambda>x. fst x = fst e) (mEventQueue h) = [(fst e, w)]" "pv_timestamp w = last_stamp g"
    using assms(1,3) unfolding one_each_def by blast
  have "e \<in> set (filter (\<lambda>x. fst x = fst e) (mEventQueue h))" using assms(2) by simp
  then have e: "e = (fst e, w)" using w(1) by simp
  then show "pv_timestamp (snd e) = last_stamp g" using w(2) by (metis snd_conv)
  have own: "filter (\<lambda>x. fst x = fst e) (remove1 e (mEventQueue h)) = []" using w(1) e by (simp add: filter_remove1)
  note other = filter_remove_other [of _ e "mEventQueue h"]
  show "one_each (h\<lparr>mEventQueue := remove1 e (mEventQueue h) @ [(fst e, v)], mGenerators := AList.update (fst e) g' (mGenerators h)\<rparr>)"
    if "nextEvent now g = Some (Some v, g')"
    using assms(1) own other generator.stamped [OF that] by (auto simp: one_each_def update_conv')
  show "one_each (h\<lparr>mEventQueue := remove1 e (mEventQueue h), mGenerators := AList.delete (fst e) (mGenerators h)\<rparr>)"
    using assms(1) other by (auto simp: one_each_def delete_conv')
qed

lemma hub_inv_handle:
  assumes inv: "hub_inv s" and top: "is_top e (mEventQueue (hub_of s))" and run: "run_top (hub_time s) e (hub_of s) = Some (out, h)"
    and moves: "\<And>g v g'. map_of (mGenerators (hub_of s)) (fst e) = Some g \<Longrightarrow> nextEvent (hub_time s) g = Some (Some v, g') \<Longrightarrow>
        sint (last_stamp g) < sint (pv_timestamp v)"
  shows "hub_inv (s\<lparr>hub_of := h, delivered := delivered s @ (case out of None \<Rightarrow> [] | Some v \<Rightarrow> [v])\<rparr>)"
proof (cases "map_of (mGenerators (hub_of s)) (fst e)")
  case None
  then have h: "out = None" "h = (hub_of s)\<lparr>mEventQueue := remove1 e (mEventQueue (hub_of s))\<rparr>" using run by (simp_all add: run_top_def)
  then show ?thesis using inv one_each_pop [OF _ None] by (auto simp: hub_inv_def in_order_def dest: notin_set_remove1)
next
  case (Some g)
  have e: "e \<in> set (mEventQueue (hub_of s))" and least: "\<And>e'. e' \<in> set (mEventQueue (hub_of s)) \<Longrightarrow> event_time (snd e) \<le> event_time (snd e')"
    using top by (auto simp: is_top_def)
  have one: "one_each (hub_of s)" and ord: "in_order s" using inv by (simp_all add: hub_inv_def)
  note follow = one_each_follow [OF one e Some]
  show ?thesis
  proof (cases "sint (hub_time s) < event_time (snd e)")
    case True
    then show ?thesis using run inv Some by (simp add: run_top_def hub_inv_def in_order_def)
  next
    case False
    then obtain nxt g' where nxt: "nextEvent (hub_time s) g = Some (nxt, g')" using run Some by (cases "nextEvent (hub_time s) g") (auto simp: run_top_def Let_def)
    then have out: "out = Some (snd e)" and h: "h = (case nxt of
        Some v \<Rightarrow> (hub_of s)\<lparr>mEventQueue := remove1 e (mEventQueue (hub_of s)) @ [(fst e, v)], mGenerators := AList.update (fst e) g' (mGenerators (hub_of s))\<rparr>
      | None \<Rightarrow> (hub_of s)\<lparr>mEventQueue := remove1 e (mEventQueue (hub_of s)), mGenerators := AList.delete (fst e) (mGenerators (hub_of s))\<rparr>)"
      using run Some False by (auto simp: run_top_def Let_def split: option.splits)
    have "one_each h" using follow nxt unfolding h by (auto split: option.split)
    moreover have "sorted (map event_time (delivered s @ [snd e]))" using ord e by (auto simp: in_order_def sorted_append)
    moreover have "\<forall>v \<in> set (delivered s @ [snd e]). event_time v \<le> sint (hub_time s)" using ord False by (auto simp: in_order_def)
    moreover have "event_time v \<le> event_time (snd x)" if v: "v \<in> set (delivered s @ [snd e])" and x: "x \<in> set (mEventQueue h)" for v x
    proof -
      have "event_time v \<le> event_time (snd e)" using v ord e by (auto simp: in_order_def)
      moreover have "event_time (snd e) \<le> event_time (snd x)"
      proof -
        have "x \<in> set (mEventQueue (hub_of s)) \<or> (\<exists>v. nxt = Some v \<and> snd x = v)"
          using x set_remove1_subset [of e "mEventQueue (hub_of s)"] unfolding h by (auto split: option.splits)
        then show ?thesis
        proof (elim disjE exE conjE)
          show "event_time (snd e) \<le> event_time (snd x)" if "nxt = Some v" "snd x = v" for v
            using that moves [OF Some, of v g'] nxt follow(1) by simp
        qed (rule least)
      qed
      ultimately show ?thesis by linarith
    qed
    ultimately show ?thesis unfolding out by (simp add: hub_inv_def in_order_def)
  qed
qed

lemma hub_inv_step: "hub_step s s' \<Longrightarrow> hub_inv s \<Longrightarrow> hub_inv s'"
proof (induction rule: hub_step.induct)
  case (hub_register g s i h)
  obtain nxt g' where nxt: "nextEvent (hub_time s) g = Some (nxt, g')" using hub_register(4) by (auto simp: registerGenerator_def bind_eq_Some_conv)
  show ?case
  proof (cases nxt)
    case None
    then have "h = hub_of s" using hub_register(4) nxt by (simp add: registerGenerator_def)
    then show ?thesis using hub_register(5) by simp
  next
    case (Some v)
    with nxt have v: "pv_timestamp v = hub_time s" using generator.first_event hub_register(1) by blast
    have "h = (hub_of s)\<lparr>mEventQueue := mEventQueue (hub_of s) @ [(i, v)], mGenerators := AList.update i g' (mGenerators (hub_of s))\<rparr>"
      using hub_register(2,4) nxt Some by (simp add: registerGenerator_def)
    with hub_register nxt Some v one_each_register [of "hub_of s" i "hub_time s" g v g'] show ?thesis
      by (auto simp: hub_inv_def in_order_def)
  qed
next
  case (hub_unregister s i)
  then show ?case using one_each_unregister by (auto simp: hub_inv_def in_order_def unregisterGenerator_def)
next
  case (hub_tick s now)
  then show ?case by (fastforce simp: hub_inv_def in_order_def)
next
  case (hub_handle e s out h)
  then show ?case using hub_inv_handle by blast
qed

interpretation hub_runs: step_invariant hub_start hub_step hub_inv
proof
  show "hub_inv s" if "hub_start s" for s
    using that by (auto simp: hub_start_def hub_inv_def one_each_def in_order_def newGeneratorHub_def)
qed (blast intro: hub_inv_step)


text \<open>A generator that replays one event twice, registered at time 7.\<close>

definition twice :: "int64 \<Rightarrow> int32 \<Rightarrow> FakeValueGenerator" where
  "twice t k = JsonFakeValueGenerator \<lparr>mEventIndex = 0, mEvents = [empty_prop_value], mLastEventTimestamp = t, mNumOfIterations = k\<rparr>"

abbreviation event_at :: "int64 \<Rightarrow> VhalEvent" where
  "event_at t \<equiv> (1, empty_prop_value\<lparr>pv_timestamp := t\<rparr>)"

abbreviation hub_with :: "int64 \<Rightarrow> int32 \<Rightarrow> GeneratorHub" where
  "hub_with t k \<equiv> \<lparr>mEventQueue = [event_at t], mGenerators = [(1, twice t k)]\<rparr>"

lemma twice_next:
  "nextEvent now (twice 0 2) = Some (Some (empty_prop_value\<lparr>pv_timestamp := now\<rparr>), twice now 1)"
  "nextEvent now (twice 7 1) = Some (Some (empty_prop_value\<lparr>pv_timestamp := 1000007\<rparr>), twice 1000007 0)"
  "nextEvent now (twice t 0) = Some (None, twice t 0)"
  by (simp_all add: twice_def json_nextEvent_def json_event_time_def checked64_def in_int64_def)


section \<open>Replacing a generator\<close>

text \<open>Replacing a generator goes wrong in two ways. A generator that takes the place of a registered one loses its first event, while the event of the
  old one is still delivered; and when the old one is unregistered first but its event is still in the queue, this event is delivered nevertheless and
  from then on the id has two events in the queue, so that the new generator runs at twice its rate.\<close>

theorem replacing_generators:
  assumes "map_of (mGenerators h) i = Some old" and "filter (\<lambda>e. fst e = i) (mEventQueue h) = [e]" and "nextEvent now g = Some (Some v, g')"
  shows "registerGenerator now i g h = Some (h\<lparr>mGenerators := AList.update i g' (mGenerators h)\<rparr>) \<and>
    (\<exists>h2. registerGenerator now i g (snd (unregisterGenerator i h)) = Some h2 \<and> filter (\<lambda>e. fst e = i) (mEventQueue h2) = [e, (i, v)] \<and>
      (\<forall>t w g''. event_time (snd e) \<le> sint t \<and> nextEvent t g' = Some (Some w, g'') \<longrightarrow>
        (\<exists>h3. run_top t e h2 = Some (Some (snd e), h3) \<and> filter (\<lambda>e. fst e = i) (mEventQueue h3) = [(i, v), (i, w)])))"
proof -
  define h2 where "h2 = (snd (unregisterGenerator i h))\<lparr>mEventQueue := mEventQueue h @ [(i, v)],
     mGenerators := AList.update i g' (mGenerators (snd (unregisterGenerator i h)))\<rparr>"
  have fe: "fst e = i" using assms(2) by (metis (mono_tags, lifting) filter_eq_ConsD)
  have "registerGenerator now i g h = Some (h\<lparr>mGenerators := AList.update i g' (mGenerators h)\<rparr>)"
    using assms(1,3) by (simp add: registerGenerator_def)
  moreover have "registerGenerator now i g (snd (unregisterGenerator i h)) = Some h2"
    using assms(3) by (simp add: registerGenerator_def h2_def unregisterGenerator_def delete_conv')
  moreover have "filter (\<lambda>e. fst e = i) (mEventQueue h2) = [e, (i, v)]" using assms(2) by (simp add: h2_def)
  moreover have "\<exists>h3. run_top t e h2 = Some (Some (snd e), h3) \<and> filter (\<lambda>e. fst e = i) (mEventQueue h3) = [(i, v), (i, w)]"
    if "event_time (snd e) \<le> sint t" "nextEvent t g' = Some (Some w, g'')" for t w g''
    using that assms(2) fe by (simp add: run_top_def Let_def h2_def update_conv' filter_remove1)
  ultimately show ?thesis by blast
qed

theorem replacing_generators_witness:
  "\<exists>h2 h3. registerGenerator 20 1 (twice 0 2) (snd (unregisterGenerator 1 (hub_with 7 0))) = Some h2 \<and>
     run_top 1000020 (event_at 7) h2 = Some (Some (snd (event_at 7)), h3) \<and> length (filter (\<lambda>e. fst e = 1) (mEventQueue h3)) = 2"
proof -
  have n: "nextEvent 1000020 (twice 20 1) = Some (Some (empty_prop_value\<lparr>pv_timestamp := 1000020\<rparr>), twice 1000020 0)"
    by (simp add: twice_def json_nextEvent_def json_event_time_def checked64_def in_int64_def)
  have f: "filter (\<lambda>e. fst e = 1) (mEventQueue (hub_with 7 0)) = [event_at 7]" "map_of (mGenerators (hub_with 7 0)) 1 = Some (twice 7 0)" by simp_all
  have t: "event_time (snd (event_at 7)) \<le> sint (1000020 :: int64)" by simp
  from replacing_generators [OF f(2,1) twice_next(1) [of 20]] n t show ?thesis by fastforce
qed

end
