(* ===== verification/JsonLibrary.thy ===== *)
theory JsonLibrary
  imports VehicleUtils
begin

text \<open>
  The JSON library (jsoncpp) as an argument: the member functions of \<^verbatim>\<open>Json::Value\<close> that the loader of the configuration and the event
  generator call, with \<open>None\<close> where the library throws. The locale \<open>json_library\<close> has the documented behaviour this code relies on: a conversion
  does not throw after the check of the type, nor does the access to a member of an object or to the elements of an array. \<open>jv_items\<close> is the access by index from 0
  to the size (which throws for the members of an object), \<open>jv_elements\<close> the iteration over an array or an object. A type of JSON values
  with these functions is an instance; the members of an object are in the order of their names, and the text of numbers is left out.
\<close>

record 'j json_values =
  jv_isObject :: "'j \<Rightarrow> bool"
  jv_isArray :: "'j \<Rightarrow> bool"
  jv_isString :: "'j \<Rightarrow> bool"
  jv_isBool :: "'j \<Rightarrow> bool"
  jv_isInt :: "'j \<Rightarrow> bool"
  jv_isInt64 :: "'j \<Rightarrow> bool"
  jv_isDouble :: "'j \<Rightarrow> bool"
  jv_asString :: "'j \<Rightarrow> string option"
  jv_asBool :: "'j \<Rightarrow> bool option"
  jv_asInt :: "'j \<Rightarrow> int32 option"
  jv_asInt64 :: "'j \<Rightarrow> int64 option"
  jv_asFloat :: "'j \<Rightarrow> f32 option"
  jv_isMember :: "'j \<Rightarrow> string \<Rightarrow> bool option"
  jv_get :: "'j \<Rightarrow> string \<Rightarrow> 'j option"
  jv_items :: "'j \<Rightarrow> 'j list option"
  jv_elements :: "'j \<Rightarrow> 'j list"
  jv_empty :: "'j \<Rightarrow> bool"

locale json_library =
  fixes J :: "'j json_values"
  assumes as_string: "jv_isString J x \<Longrightarrow> jv_asString J x \<noteq> None"
    and as_bool: "jv_isBool J x \<Longrightarrow> jv_asBool J x \<noteq> None"
    and as_int: "jv_isInt J x \<Longrightarrow> jv_asInt J x \<noteq> None"
    and as_int64: "jv_isInt64 J x \<Longrightarrow> jv_asInt64 J x \<noteq> None"
    and as_float: "jv_isDouble J x \<Longrightarrow> jv_asFloat J x \<noteq> None"
    and is_member: "jv_isObject J x \<Longrightarrow> jv_isMember J x k \<noteq> None"
    and get_member: "jv_isObject J x \<Longrightarrow> jv_get J x k \<noteq> None"
    and get_items: "jv_isArray J x \<Longrightarrow> jv_items J x = Some (jv_elements J x)"
    and empty_array: "jv_isArray J x \<Longrightarrow> jv_empty J x \<longleftrightarrow> jv_elements J x = []"

datatype json = JNull | JBool bool | JInt int | JReal f32 | JString string | JArray "json list" | JObject "(string \<times> json) list"

fun json_asInt :: "json \<Rightarrow> int option" where
  "json_asInt JNull = Some 0"
| "json_asInt (JBool b) = Some (if b then 1 else 0)"
| "json_asInt (JInt n) = Some n"
| "json_asInt (JReal x) = f32_trunc x"
| "json_asInt _ = None"

fun json_isIntegral :: "json \<Rightarrow> int \<Rightarrow> bool" where
  "json_isIntegral (JInt n) m \<longleftrightarrow> - m \<le> n \<and> n < m"
| "json_isIntegral (JReal x) m \<longleftrightarrow> f32_num x mod f32_den x = 0 \<and> (case f32_trunc x of None \<Rightarrow> False | Some n \<Rightarrow> - m \<le> n \<and> n < m)"
| "json_isIntegral _ m \<longleftrightarrow> False"

definition in_range :: "int \<Rightarrow> int \<Rightarrow> int option" where
  "in_range m n = (if - m \<le> n \<and> n < m then Some n else None)"

definition json_functions :: "json json_values" where
  "json_functions = \<lparr>
     jv_isObject = (\<lambda>x. case x of JObject _ \<Rightarrow> True | _ \<Rightarrow> False),
     jv_isArray = (\<lambda>x. case x of JArray _ \<Rightarrow> True | _ \<Rightarrow> False),
     jv_isString = (\<lambda>x. case x of JString _ \<Rightarrow> True | _ \<Rightarrow> False),
     jv_isBool = (\<lambda>x. case x of JBool _ \<Rightarrow> True | _ \<Rightarrow> False),
     jv_isInt = (\<lambda>x. json_isIntegral x (2 ^ 31)),
     jv_isInt64 = (\<lambda>x. json_isIntegral x (2 ^ 63)),
     jv_isDouble = (\<lambda>x. case x of JInt _ \<Rightarrow> True | JReal _ \<Rightarrow> True | _ \<Rightarrow> False),
     jv_asString = (\<lambda>x. case x of JNull \<Rightarrow> Some [] | JString s \<Rightarrow> Some s | JBool b \<Rightarrow> Some (if b then ''true'' else ''false'') | _ \<Rightarrow> None),
     jv_asBool = (\<lambda>x. case x of JBool b \<Rightarrow> Some b | JNull \<Rightarrow> Some False | JInt n \<Rightarrow> Some (n \<noteq> 0) | JReal f \<Rightarrow> Some (\<not> f32_is_nan f \<and> \<not> f32_eq f 0) | _ \<Rightarrow> None),
     jv_asInt = (\<lambda>x. map_option word_of_int (Option.bind (json_asInt x) (in_range (2 ^ 31)))),
     jv_asInt64 = (\<lambda>x. map_option word_of_int (Option.bind (json_asInt x) (in_range (2 ^ 63)))),
     jv_asFloat = (\<lambda>x. case x of JReal f \<Rightarrow> Some f | _ \<Rightarrow> map_option f32_of_int (json_asInt x)),
     jv_isMember = (\<lambda>x k. case x of JObject ms \<Rightarrow> Some (map_of ms k \<noteq> None) | JNull \<Rightarrow> Some False | _ \<Rightarrow> None),
     jv_get = (\<lambda>x k. case x of JObject ms \<Rightarrow> Some (case map_of ms k of None \<Rightarrow> JNull | Some y \<Rightarrow> y) | JNull \<Rightarrow> Some JNull | _ \<Rightarrow> None),
     jv_items = (\<lambda>x. case x of JArray xs \<Rightarrow> Some xs | JObject (_ # _) \<Rightarrow> None | _ \<Rightarrow> Some []),
     jv_elements = (\<lambda>x. case x of JArray xs \<Rightarrow> xs | JObject ms \<Rightarrow> map snd ms | _ \<Rightarrow> []),
     jv_empty = (\<lambda>x. case x of JNull \<Rightarrow> True | JArray xs \<Rightarrow> xs = [] | JObject ms \<Rightarrow> ms = [] | _ \<Rightarrow> False)\<rparr>"

lemma integral_converts: "json_isIntegral x m \<Longrightarrow> \<exists>n. Option.bind (json_asInt x) (in_range m) = Some n"
  by (cases "(x, m)" rule: json_isIntegral.cases) (auto simp: in_range_def split: option.splits)

interpretation jsoncpp: json_library json_functions
  by unfold_locales
    (auto simp: json_functions_def split: json.splits list.splits dest: integral_converts)

end
