(* ===== verification/JsonConfigLoader.thy ===== *)
theory JsonConfigLoader
  imports JsonLibrary "HOL-Library.AList" "HOL-Library.Monad_Syntax"
begin

text \<open>
  The loader of property configurations (\<^verbatim>\<open>default_config/JsonConfigLoader\<close>): it turns a JSON file into one declaration per property,
  collecting the errors of all properties. The JSON library, the enumerations with their names and the default access and change modes (all of
  them generated or external) are arguments. An error stands for its message. \<open>None\<close> is an exception of the library, or a
  number taken for an access or change mode that is none, which the code accepts and the types here do not have.
\<close>

record 'j loader =
  ld_json :: "'j json_values"
  ld_enums :: "string \<Rightarrow> (string \<times> int32) list"
  ld_defaultAccess :: "int32 \<Rightarrow> VehiclePropertyAccess option"
  ld_changeMode :: "int32 \<Rightarrow> VehiclePropertyChangeMode option"

datatype config_error =
    NotAnObject | MissingField string | WrongType string string | InvalidConstant string | UnrecognizedType string
  | Undefined string string | NoModeSpecified string | NotAnArray string

type_synonym errors = "config_error list"

section \<open>Constants\<close>

definition CONSTANTS_BY_NAME :: "(string \<times> int32) list" where
  "CONSTANTS_BY_NAME = [
     (''DOOR_1_RIGHT'', 0x4),
     (''DOOR_1_LEFT'', 0x1),
     (''DOOR_2_RIGHT'', 0x40),
     (''DOOR_2_LEFT'', 0x10),
     (''DOOR_REAR'', 0x20000000),
     (''HVAC_ALL'', 0x75),
     (''HVAC_LEFT'', 0x31),
     (''HVAC_RIGHT'', 0x44),
     (''HVAC_FRONT_ROW'', 0x5),
     (''HVAC_REAR_ROW'', 0x70),
     (''WINDOW_1_LEFT'', 0x10),
     (''WINDOW_1_RIGHT'', 0x40),
     (''WINDOW_2_LEFT'', 0x100),
     (''WINDOW_2_RIGHT'', 0x400),
     (''WINDOW_ROOF_TOP_1'', 0x10000),
     (''WINDOW_1_RIGHT_2_LEFT_2_RIGHT'', 0x540),
     (''SEAT_1_LEFT'', 0x1),
     (''SEAT_1_RIGHT'', 0x4),
     (''SEAT_2_LEFT'', 0x10),
     (''SEAT_2_RIGHT'', 0x40),
     (''SEAT_2_CENTER'', 0x20),
     (''SEAT_2_LEFT_2_RIGHT_2_CENTER'', 0x70),
     (''WHEEL_REAR_RIGHT'', 0x8),
     (''WHEEL_REAR_LEFT'', 0x4),
     (''WHEEL_FRONT_RIGHT'', 0x2),
     (''WHEEL_FRONT_LEFT'', 0x1),
     (''CHARGE_PORT_FRONT_LEFT'', 0x1),
     (''CHARGE_PORT_REAR_LEFT'', 0x4),
     (''FAN_DIRECTION_UNKNOWN'', 0x0),
     (''FAN_DIRECTION_FLOOR'', 0x2),
     (''FAN_DIRECTION_FACE'', 0x1),
     (''FAN_DIRECTION_DEFROST'', 0x4),
     (''FAN_DIRECTION_FACE_FLOOR'', 0x3),
     (''FAN_DIRECTION_FACE_DEFROST'', 0x5),
     (''FAN_DIRECTION_FLOOR_DEFROST'', 0x6),
     (''FAN_DIRECTION_FLOOR_DEFROST_FACE'', 0x7),
     (''FUEL_DOOR_REAR_LEFT'', 0x4),
     (''LIGHT_STATE_ON'', 0x1),
     (''LIGHT_STATE_OFF'', 0x0),
     (''LIGHT_SWITCH_OFF'', 0x0),
     (''LIGHT_SWITCH_ON'', 0x1),
     (''LIGHT_SWITCH_AUTO'', 0x100),
     (''EV_STOPPING_MODE_CREEP'', 0x1),
     (''EV_STOPPING_MODE_ROLL'', 0x2),
     (''EV_STOPPING_MODE_HOLD'', 0x3),
     (''MIRROR_DRIVER_LEFT_RIGHT'', 0x3)]"

definition enum_types :: "string list" where
  "enum_types = [
     ''VehiclePropertyAccess'', ''VehiclePropertyChangeMode'', ''LocationCharacterization'', ''VehicleGear'', ''VehicleAreaWindow'',
     ''VehicleAreaMirror'', ''VehicleOilLevel'', ''VehicleUnit'', ''VehicleSeatOccupancyState'', ''VehicleHvacFanDirection'',
     ''VehicleApPowerStateReport'', ''VehicleTurnSignal'', ''VehicleVendorPermission'', ''EvsServiceType'', ''EvsServiceState'',
     ''EvConnectorType'', ''VehicleProperty'', ''GsrComplianceRequirementType'', ''VehicleIgnitionState'', ''FuelType'',
     ''WindshieldWipersState'', ''WindshieldWipersSwitch'', ''VehicleAutonomousState'', ''VehicleAirbagLocation'',
     ''ImpactSensorLocation'', ''VehicleSizeClass'', ''EmergencyLaneKeepAssistState'', ''CameraServiceState'', ''CruiseControlType'',
     ''CruiseControlState'', ''CruiseControlCommand'', ''HandsOnDetectionDriverState'', ''HandsOnDetectionWarning'',
     ''DriverDrowsinessAttentionState'', ''DriverDrowsinessAttentionWarning'', ''DriverDistractionState'',
     ''DriverDistractionWarning'', ''ErrorState'', ''AutomaticEmergencyBrakingState'', ''ForwardCollisionWarningState'',
     ''BlindSpotWarningState'', ''LaneDepartureWarningState'', ''LaneKeepAssistState'', ''LaneCenteringAssistCommand'',
     ''LaneCenteringAssistState'', ''LowSpeedCollisionWarningState'', ''ElectronicStabilityControlState'',
     ''CrossTrafficMonitoringWarningState'', ''LowSpeedAutomaticEmergencyBrakingState'', ''VehicleApPowerBootupReason'']"

text \<open>The tables of the parsers of constants.\<close>

definition ConstantParser :: "(string \<times> int32) list \<Rightarrow> (string \<times> int32) list" where
  "ConstantParser values =
     fold (\<lambda>(name, v) m. AList.update name v (if name = ''GALLON'' then AList.update ''US_GALLON'' v m else m)) values []"

definition ConstantParser_VehicleProperty :: "(string \<times> int32) list \<Rightarrow> (string \<times> int32) list" where
  "ConstantParser_VehicleProperty values =
     AList.update ''RANGE_REMAINING'' (0x0308 + 0x10000000 + 0x01000000 + 0x00600000)
       (AList.update ''FUEL_DOOR_OPEN'' (0x0308 + 0x10000000 + 0x01000000 + 0x00200000)
         (fold (\<lambda>(name, v). AList.update name v) values []))"

definition mConstantParsersByType :: "'j loader \<Rightarrow> string \<Rightarrow> (string \<times> int32) list option" where
  "mConstantParsersByType L type =
     (if type = ''Constants'' then Some CONSTANTS_BY_NAME
      else if type = ''VehicleProperty'' then Some (ConstantParser_VehicleProperty (ld_enums L type))
      else if type \<in> set enum_types then Some (ConstantParser (ld_enums L type))
      else None)"

text \<open>The parts before and after the first \<^verbatim>\<open>::\<close>.\<close>

fun split_type :: "string \<Rightarrow> (string \<times> string) option" where
  "split_type [] = None"
| "split_type (c # cs) = (if take 2 (c # cs) = ''::'' then Some ([], tl cs) else map_option (apfst (Cons c)) (split_type cs))"

definition maybeGetTypeAndValueName :: "'j loader \<Rightarrow> string \<Rightarrow> (string \<times> string) option" where
  "maybeGetTypeAndValueName L s =
     (case split_type s of
        None \<Rightarrow> None
      | Some (type, valueName) \<Rightarrow> if type \<noteq> ''Constants'' \<and> mConstantParsersByType L type = None then None else Some (type, valueName))"

definition parseConstantValue :: "'j loader \<Rightarrow> string \<times> string \<Rightarrow> config_error + int32" where
  "parseConstantValue L typeValueName =
     (case typeValueName of (type, valueName) \<Rightarrow>
        (case mConstantParsersByType L type of
           None \<Rightarrow> Inl (UnrecognizedType type)
         | Some parser \<Rightarrow> (case map_of parser valueName of None \<Rightarrow> Inl (Undefined type valueName) | Some n \<Rightarrow> Inr n)))"

section \<open>Values\<close>

type_synonym ('j, 'a) value_parser = "string \<Rightarrow> 'j \<Rightarrow> (config_error + 'a) option"

definition convertValueToType :: "('j \<Rightarrow> bool) \<Rightarrow> ('j \<Rightarrow> 'a option) \<Rightarrow> string \<Rightarrow> ('j, 'a) value_parser" where
  "convertValueToType isT asT expected fieldName value =
     (if \<not> isT value then Some (Inl (WrongType fieldName expected)) else map_option Inr (asT value))"

definition parseValue :: "'j loader \<Rightarrow> ('j, 'a) value_parser \<Rightarrow> (int32 \<Rightarrow> 'a) \<Rightarrow> ('j, 'a) value_parser" where
  "parseValue L convert cast fieldName value =
     (if \<not> jv_isString (ld_json L) value then convert fieldName value
      else do {
        s \<leftarrow> jv_asString (ld_json L) value;
        Some (case maybeGetTypeAndValueName L s of
                None \<Rightarrow> Inl (InvalidConstant fieldName)
              | Some typeAndValue \<Rightarrow> map_sum id cast (parseConstantValue L typeAndValue))
      })"

definition parse_bool :: "'j loader \<Rightarrow> ('j, bool) value_parser" where
  "parse_bool L = parseValue L (convertValueToType (jv_isBool (ld_json L)) (jv_asBool (ld_json L)) ''bool'') (\<lambda>n. n \<noteq> 0)"

definition parse_int32 :: "'j loader \<Rightarrow> ('j, int32) value_parser" where
  "parse_int32 L = parseValue L (convertValueToType (jv_isInt (ld_json L)) (jv_asInt (ld_json L)) ''int'') id"

definition parse_int64 :: "'j loader \<Rightarrow> ('j, int64) value_parser" where
  "parse_int64 L = parseValue L (convertValueToType (jv_isInt64 (ld_json L)) (jv_asInt64 (ld_json L)) ''int64'') (\<lambda>n. word_of_int (sint n))"

definition parse_float :: "'j loader \<Rightarrow> ('j, f32) value_parser" where
  "parse_float L = parseValue L (convertValueToType (jv_isDouble (ld_json L)) (jv_asFloat (ld_json L)) ''float'') (\<lambda>n. f32_of_int (sint n))"

definition parseStringValue :: "'j loader \<Rightarrow> ('j, string) value_parser" where
  "parseStringValue L = convertValueToType (jv_isString (ld_json L)) (jv_asString (ld_json L)) ''string''"

fun parse_elements :: "('j \<Rightarrow> (config_error + 'a) option) \<Rightarrow> 'j list \<Rightarrow> (config_error + 'a list) option" where
  "parse_elements parse [] = Some (Inr [])"
| "parse_elements parse (x # xs) = do {
     r \<leftarrow> parse x;
     (case r of Inl e \<Rightarrow> Some (Inl e) | Inr v \<Rightarrow> map_option (map_sum id (Cons v)) (parse_elements parse xs))
   }"

definition parseArray :: "'j loader \<Rightarrow> ('j, 'a) value_parser \<Rightarrow> ('j, 'a list) value_parser" where
  "parseArray L parse fieldName value =
     (if \<not> jv_isArray (ld_json L) value then Some (Inl (WrongType fieldName ''array''))
      else Option.bind (jv_items (ld_json L) value) (parse_elements (parse fieldName)))"

section \<open>Fields\<close>

text \<open>The result, whether the field was found, the variable and the errors. The versions for values and arrays differ in the parser only.\<close>

definition tryParseJsonValueToVariable ::
  "'j loader \<Rightarrow> ('j, 'a) value_parser \<Rightarrow> 'j \<Rightarrow> string \<Rightarrow> bool \<Rightarrow> 'a \<Rightarrow> errors \<Rightarrow> ((bool \<times> bool \<times> 'a) \<times> errors) option" where
  "tryParseJsonValueToVariable L parse parent fieldName fieldIsOptional out errors =
     (if \<not> jv_isObject (ld_json L) parent then Some ((False, False, out), errors @ [NotAnObject])
      else do {
        member \<leftarrow> jv_isMember (ld_json L) parent fieldName;
        if \<not> member
        then Some (if fieldIsOptional then ((True, False, out), errors) else ((False, False, out), errors @ [MissingField fieldName]))
        else do {
          value \<leftarrow> jv_get (ld_json L) parent fieldName;
          result \<leftarrow> parse fieldName value;
          Some (case result of Inl e \<Rightarrow> ((False, False, out), errors @ [e]) | Inr v \<Rightarrow> ((True, True, v), errors))
        }
      })"

fun tryParse_nodes ::
  "'j loader \<Rightarrow> ('j, 'a) value_parser \<Rightarrow> 'j list \<Rightarrow> string \<Rightarrow> bool \<Rightarrow> 'a \<Rightarrow> errors \<Rightarrow> ((bool \<times> bool \<times> 'a) \<times> errors) option" where
  "tryParse_nodes L parse [] fieldName fieldIsOptional out errors =
     Some (if fieldIsOptional then ((True, False, out), errors) else ((False, False, out), errors @ [MissingField fieldName]))"
| "tryParse_nodes L parse (node # nodes) fieldName fieldIsOptional out errors = do {
     ((ok, found, out'), errors') \<leftarrow> tryParseJsonValueToVariable L parse node fieldName True out errors;
     if \<not> ok then Some ((False, found, out'), errors')
     else if found then Some ((True, True, out'), errors')
     else tryParse_nodes L parse nodes fieldName fieldIsOptional out' errors'
   }"

text \<open>An optional field whose result is not looked at.\<close>

definition optional_field :: "'j loader \<Rightarrow> ('j, 'a) value_parser \<Rightarrow> 'j list \<Rightarrow> string \<Rightarrow> 'a \<Rightarrow> errors \<Rightarrow> ('a \<times> errors) option" where
  "optional_field L parse nodes fieldName out errors =
     map_option (\<lambda>((ok, found, v), es). (v, es)) (tryParse_nodes L parse nodes fieldName True out errors)"

definition parseAccessChangeMode ::
  "'j loader \<Rightarrow> (int32 \<Rightarrow> 'm option) \<Rightarrow> 'j \<Rightarrow> string \<Rightarrow> 'm option \<Rightarrow> 'm \<Rightarrow> errors \<Rightarrow> ('m \<times> errors) option" where
  "parseAccessChangeMode L cast parent fieldName defaultMode out errors =
     (if \<not> jv_isObject (ld_json L) parent then Some (out, errors @ [NotAnObject])
      else do {
        member \<leftarrow> jv_isMember (ld_json L) parent fieldName;
        if member
        then do {
          value \<leftarrow> jv_get (ld_json L) parent fieldName;
          result \<leftarrow> parse_int32 L fieldName value;
          (case result of Inl e \<Rightarrow> Some (out, errors @ [e]) | Inr n \<Rightarrow> map_option (\<lambda>m. (m, errors)) (cast n))
        }
        else Some (case defaultMode of None \<Rightarrow> (out, errors @ [NoModeSpecified fieldName]) | Some m \<Rightarrow> (m, errors))
      })"

definition access_cast :: "int32 \<Rightarrow> VehiclePropertyAccess option" where
  "access_cast n = find (\<lambda>m. VehiclePropertyAccess_toInt m = n) [ACCESS_NONE, READ, WRITE, READ_WRITE]"

definition change_mode_cast :: "int32 \<Rightarrow> VehiclePropertyChangeMode option" where
  "change_mode_cast n = find (\<lambda>m. VehiclePropertyChangeMode_toInt m = n) [STATIC, ON_CHANGE, CONTINUOUS]"

definition parsePropValues :: "'j loader \<Rightarrow> 'j \<Rightarrow> string \<Rightarrow> RawPropValues \<Rightarrow> errors \<Rightarrow> ((bool \<times> RawPropValues) \<times> errors) option" where
  "parsePropValues L parent fieldName out errors =
     (if \<not> jv_isObject (ld_json L) parent then Some ((False, out), errors @ [NotAnObject])
      else do {
        member \<leftarrow> jv_isMember (ld_json L) parent fieldName;
        if \<not> member then Some ((False, out), errors)
        else do {
          value \<leftarrow> jv_get (ld_json L) parent fieldName;
          ((ok1, f1, ints), e1) \<leftarrow> tryParseJsonValueToVariable L (parseArray L (parse_int32 L)) value ''int32Values'' True (int32Values out) errors;
          ((ok2, f2, floats), e2) \<leftarrow> tryParseJsonValueToVariable L (parseArray L (parse_float L)) value ''floatValues'' True (floatValues out) e1;
          ((ok3, f3, longs), e3) \<leftarrow> tryParseJsonValueToVariable L (parseArray L (parse_int64 L)) value ''int64Values'' True (int64Values out) e2;
          ((ok4, f4, str), e4) \<leftarrow> tryParseJsonValueToVariable L (parseStringValue L) value ''stringValue'' True (stringValue out) e3;
          Some ((ok1 \<and> ok2 \<and> ok3 \<and> ok4, out\<lparr>int32Values := ints, floatValues := floats, int64Values := longs, stringValue := str\<rparr>), e4)
        }
      })"

section \<open>Areas and properties\<close>

record ConfigDeclaration =
  cd_config :: VehiclePropConfig
  cd_initialValue :: RawPropValues
  cd_initialAreaValues :: "(int32 \<times> RawPropValues) list"
  cd_supportedValuesForAreaId :: "(int32 \<times> f32 list) list"

definition parse_supported_info :: "'j loader \<Rightarrow> 'j \<Rightarrow> 'j \<Rightarrow> errors \<Rightarrow> (HasSupportedValueInfo option \<times> errors) option" where
  "parse_supported_info L area parent errors = do {
     inArea \<leftarrow> jv_isMember (ld_json L) area ''hasSupportedValueInfo'';
     inParent \<leftarrow> (if inArea then Some False else jv_isMember (ld_json L) parent ''hasSupportedValueInfo'');
     if inArea \<or> inParent
     then do {
       info \<leftarrow> jv_get (ld_json L) (if inArea then area else parent) ''hasSupportedValueInfo'';
       (mn, e1) \<leftarrow> optional_field L (parse_bool L) [info] ''hasMinSupportedValue'' False errors;
       (mx, e2) \<leftarrow> optional_field L (parse_bool L) [info] ''hasMaxSupportedValue'' False e1;
       (sl, e3) \<leftarrow> optional_field L (parse_bool L) [info] ''hasSupportedValuesList'' False e2;
       Some (Some \<lparr>hasMinSupportedValue = mn, hasMaxSupportedValue = mx, hasSupportedValuesList = sl\<rparr>, e3)
     }
     else Some (None, errors)
   }"

text \<open>One area: its configuration and the supported values.\<close>

definition parse_area_config ::
  "'j loader \<Rightarrow> VehiclePropertyAccess \<Rightarrow> 'j \<Rightarrow> 'j \<Rightarrow> int32 \<Rightarrow> errors \<Rightarrow> ((VehicleAreaConfig \<times> f32 list) \<times> errors) option" where
  "parse_area_config L access parent area areaId errors = do {
     (acc, e0) \<leftarrow> parseAccessChangeMode L access_cast area ''access'' (Some access) ACCESS_NONE errors;
     (minI, e1) \<leftarrow> optional_field L (parse_int32 L) [area, parent] ''minInt32Value'' 0 e0;
     (maxI, e2) \<leftarrow> optional_field L (parse_int32 L) [area, parent] ''maxInt32Value'' 0 e1;
     (minL, e3) \<leftarrow> optional_field L (parse_int64 L) [area, parent] ''minInt64Value'' 0 e2;
     (maxL, e4) \<leftarrow> optional_field L (parse_int64 L) [area, parent] ''maxInt64Value'' 0 e3;
     (minF, e5) \<leftarrow> optional_field L (parse_float L) [area, parent] ''minFloatValue'' 0 e4;
     (maxF, e6) \<leftarrow> optional_field L (parse_float L) [area, parent] ''maxFloatValue'' 0 e5;
     (vur, e7) \<leftarrow> optional_field L (parse_bool L) [area, parent] ''supportVariableUpdateRate'' True e6;
     (enumValues, e8) \<leftarrow> optional_field L (parseArray L (parse_int64 L)) [area, parent] ''supportedEnumValues'' [] e7;
     (supported, e9) \<leftarrow> optional_field L (parseArray L (parse_float L)) [area, parent] ''supportedValues'' [] e8;
     (info, e10) \<leftarrow> parse_supported_info L area parent e9;
     Some ((\<lparr>ac_areaId = areaId, minInt32Value = minI, maxInt32Value = maxI, minInt64Value = minL, maxInt64Value = maxL, minFloatValue = minF,
        maxFloatValue = maxF, supportedEnumValues = (if enumValues = [] then None else Some enumValues), ac_access = acc,
        supportVariableUpdateRate = vur, ac_hasSupportedValueInfo = info\<rparr>, supported), e10)
   }"

definition parse_area :: "'j loader \<Rightarrow> 'j \<Rightarrow> 'j \<Rightarrow> ConfigDeclaration \<Rightarrow> errors \<Rightarrow> (ConfigDeclaration \<times> errors) option" where
  "parse_area L parent area decl errors = do {
     ((ok, found, areaId), e0) \<leftarrow> tryParseJsonValueToVariable L (parse_int32 L) area ''areaId'' False 0 errors;
     if \<not> ok then Some (decl, e0)
     else do {
       ((areaConfig, supported), e1) \<leftarrow> parse_area_config L (pc_access (cd_config decl)) parent area areaId e0;
       let decl1 = decl\<lparr>cd_config := (cd_config decl)\<lparr>areaConfigs := areaConfigs (cd_config decl) @ [areaConfig]\<rparr>,
             cd_supportedValuesForAreaId :=
               (if supported = [] then cd_supportedValuesForAreaId decl else AList.update areaId supported (cd_supportedValuesForAreaId decl))\<rparr>;
       ((given, areaValue), e2) \<leftarrow> parsePropValues L area ''defaultValue'' empty_raw e1;
       Some (if given then decl1\<lparr>cd_initialAreaValues := AList.update areaId areaValue (cd_initialAreaValues decl)\<rparr>
             else if \<not> raw_eq (cd_initialValue decl) empty_raw
             then decl1\<lparr>cd_initialAreaValues := AList.update areaId (cd_initialValue decl) (cd_initialAreaValues decl)\<rparr>
             else decl1, e2)
     }
   }"

fun parse_area_list :: "'j loader \<Rightarrow> 'j \<Rightarrow> 'j list \<Rightarrow> ConfigDeclaration \<Rightarrow> errors \<Rightarrow> (ConfigDeclaration \<times> errors) option" where
  "parse_area_list L parent [] decl errors = Some (decl, errors)"
| "parse_area_list L parent (area # areas) decl errors = do {
     (decl', errors') \<leftarrow> parse_area L parent area decl errors;
     parse_area_list L parent areas decl' errors'
   }"

definition parseAreas :: "'j loader \<Rightarrow> 'j \<Rightarrow> string \<Rightarrow> ConfigDeclaration \<Rightarrow> errors \<Rightarrow> (ConfigDeclaration \<times> errors) option" where
  "parseAreas L parent fieldName decl errors =
     (if \<not> jv_isObject (ld_json L) parent then Some (decl, errors @ [NotAnObject])
      else do {
        member \<leftarrow> jv_isMember (ld_json L) parent fieldName;
        if \<not> member then Some (decl, errors)
        else do {
          value \<leftarrow> jv_get (ld_json L) parent fieldName;
          if \<not> jv_isArray (ld_json L) value then Some (decl, errors @ [NotAnArray fieldName])
          else do {
            areas \<leftarrow> jv_items (ld_json L) value;
            parse_area_list L parent areas decl errors
          }
        }
      })"

definition global_area :: "VehiclePropertyAccess \<Rightarrow> VehicleAreaConfig" where
  "global_area access = \<lparr>ac_areaId = 0, minInt32Value = 0, maxInt32Value = 0, minInt64Value = 0, maxInt64Value = 0, minFloatValue = 0,
     maxFloatValue = 0, supportedEnumValues = None, ac_access = access, supportVariableUpdateRate = True, ac_hasSupportedValueInfo = None\<rparr>"

text \<open>The declaration of a property whose id is known, then the whole entry.\<close>

definition parse_declaration :: "'j loader \<Rightarrow> 'j \<Rightarrow> int32 \<Rightarrow> errors \<Rightarrow> (ConfigDeclaration \<times> errors) option" where
  "parse_declaration L x propId e0 = do {
     (access, e1) \<leftarrow> parseAccessChangeMode L access_cast x ''access'' (ld_defaultAccess L propId) ACCESS_NONE e0;
     (mode, e2) \<leftarrow> parseAccessChangeMode L change_mode_cast x ''changeMode'' (ld_changeMode L propId) STATIC e1;
     (str, e3) \<leftarrow> optional_field L (parseStringValue L) [x] ''configString'' [] e2;
     (arr, e4) \<leftarrow> optional_field L (parseArray L (parse_int32 L)) [x] ''configArray'' [] e3;
     ((given, initial), e5) \<leftarrow> parsePropValues L x ''defaultValue'' empty_raw e4;
     (minRate, e6) \<leftarrow> optional_field L (parse_float L) [x] ''minSampleRate'' 0 e5;
     (maxRate, e7) \<leftarrow> optional_field L (parse_float L) [x] ''maxSampleRate'' 0 e6;
     (decl, e8) \<leftarrow> parseAreas L x ''areas''
       \<lparr>cd_config = \<lparr>pc_prop = propId, pc_access = access, changeMode = mode, areaConfigs = [], configArray = arr, configString = str,
          minSampleRate = minRate, maxSampleRate = maxRate\<rparr>, cd_initialValue = initial, cd_initialAreaValues = [], cd_supportedValuesForAreaId = []\<rparr> e7;
     Some (if areaConfigs (cd_config decl) = []
           then decl\<lparr>cd_config := (cd_config decl)\<lparr>areaConfigs := [global_area (pc_access (cd_config decl))]\<rparr>\<rparr> else decl, e8)
   }"

definition parseEachProperty :: "'j loader \<Rightarrow> 'j \<Rightarrow> errors \<Rightarrow> (ConfigDeclaration option \<times> errors) option" where
  "parseEachProperty L x errors = do {
     ((ok, found, propId), e0) \<leftarrow> tryParseJsonValueToVariable L (parse_int32 L) x ''property'' False 0 errors;
     if \<not> ok then Some (None, e0)
     else do {
       (decl, e1) \<leftarrow> parse_declaration L x propId e0;
       Some (if length e1 \<noteq> length errors then None else Some decl, e1)
     }
   }"

section \<open>Files\<close>

datatype load_error = CannotOpen | NotJson string | RootNotObject | NotCompatible | NoProperties | PropertyErrors errors

fun parse_properties :: "'j loader \<Rightarrow> 'j list \<Rightarrow> (int32 \<times> ConfigDeclaration) list \<Rightarrow> errors \<Rightarrow> ((int32 \<times> ConfigDeclaration) list \<times> errors) option" where
  "parse_properties L [] configs errors = Some (configs, errors)"
| "parse_properties L (x # xs) configs errors = do {
     (maybeConfig, errors') \<leftarrow> parseEachProperty L x errors;
     parse_properties L xs (case maybeConfig of None \<Rightarrow> configs | Some c \<Rightarrow> AList.update (pc_prop (cd_config c)) c configs) errors'
   }"

definition COMPATIBLE_API_VERSIONS :: "int32 list" where
  "COMPATIBLE_API_VERSIONS = [1, 2]"

definition parseJsonConfig :: "'j loader \<Rightarrow> string + 'j \<Rightarrow> (load_error + (int32 \<times> ConfigDeclaration) list) option" where
  "parseJsonConfig L input =
     (case input of
        Inl errs \<Rightarrow> Some (Inl (NotJson errs))
      | Inr root \<Rightarrow>
          if \<not> jv_isObject (ld_json L) root then Some (Inl RootNotObject)
          else do {
            hasVersion \<leftarrow> jv_isMember (ld_json L) root ''apiVersion'';
            version \<leftarrow> (if hasVersion then Option.bind (jv_get (ld_json L) root ''apiVersion'') (jv_asInt (ld_json L)) else Some 1);
            if version \<notin> set COMPATIBLE_API_VERSIONS then Some (Inl NotCompatible)
            else do {
              hasProperties \<leftarrow> jv_isMember (ld_json L) root ''properties'';
              if \<not> hasProperties then Some (Inl NoProperties)
              else do {
                properties \<leftarrow> jv_get (ld_json L) root ''properties'';
                if \<not> jv_isArray (ld_json L) properties then Some (Inl NoProperties)
                else do {
                  xs \<leftarrow> jv_items (ld_json L) properties;
                  (configs, errors) \<leftarrow> parse_properties L xs [] [];
                  Some (if errors \<noteq> [] then Inl (PropertyErrors errors) else Inr configs)
                }
              }
            }
          })"

text \<open>The file: \<open>None\<close> when it cannot be opened, else what the JSON parser makes of it.\<close>

definition loadPropConfig :: "'j loader \<Rightarrow> (string + 'j) option \<Rightarrow> (load_error + (int32 \<times> ConfigDeclaration) list) option" where
  "loadPropConfig L file = (case file of None \<Rightarrow> Some (Inl CannotOpen) | Some input \<Rightarrow> parseJsonConfig L input)"

end
