(* ===== verification/JsonConfigErrors.thy ===== *)
theory JsonConfigErrors
  imports JsonConfigLoader VhalPrelude
begin

text \<open>
  How the loader reports errors: every step only adds to the list of errors and does not look at it (\<open>collects\<close>), so a file gives either the errors of all
  its entries or one declaration per property.
\<close>

section \<open>Errors are collected\<close>

text \<open>A parser only adds errors, and what it does is independent of those found before.\<close>

definition collects :: "(errors \<Rightarrow> ('a \<times> errors) option) \<Rightarrow> bool" where
  "collects f \<longleftrightarrow> (\<forall>es. f es = map_option (\<lambda>(v, new). (v, es @ new)) (f []))"

named_theorems collects_rules

lemma collects_bind [collects_rules]:
  fixes g :: "'b \<Rightarrow> errors \<Rightarrow> ('c \<times> errors) option"
  assumes "collects f" and "\<And>v. collects (g v)"
  shows "collects (\<lambda>es. Option.bind (f es) (\<lambda>(v, es'). g v es'))"
  unfolding collects_def
proof
  fix es
  show "Option.bind (f es) (\<lambda>(v, es'). g v es') = map_option (\<lambda>(v, new). (v, es @ new)) (Option.bind (f []) (\<lambda>(v, es'). g v es'))"
  proof (cases "f []")
    case None
    with assms(1) have "f es = None" unfolding collects_def by (metis option.simps(8))
    with None show ?thesis by simp
  next
    case (Some a)
    obtain v new where a: "a = (v, new)" by fastforce
    have g: "g v ys = map_option (\<lambda>(w, n). (w, ys @ n)) (g v [])" for ys using assms(2) [of v] unfolding collects_def by (rule spec)
    have "f es = map_option (\<lambda>(v, new). (v, es @ new)) (f [])" using assms(1) unfolding collects_def by (rule spec)
    then have f: "f es = Some (v, es @ new)" using Some a by simp
    have mm: "map_option (\<lambda>(v, new). (v, es @ new)) (map_option (\<lambda>(w, n). (w, new @ n)) r) = map_option (\<lambda>(w, n). (w, (es @ new) @ n)) r" for r :: "('c \<times> errors) option"
      by (cases r) auto
    have "g v (es @ new) = map_option (\<lambda>(w, n). (w, (es @ new) @ n)) (g v [])" by (rule g)
    also have "\<dots> = map_option (\<lambda>(v, new). (v, es @ new)) (map_option (\<lambda>(w, n). (w, new @ n)) (g v []))" by (rule mm [symmetric])
    also have "map_option (\<lambda>(w, n). (w, new @ n)) (g v []) = g v new" by (rule g [symmetric])
    finally show ?thesis by (simp add: f Some a)
  qed
qed

lemma collects_none: "collects (\<lambda>es. None)"
  by (simp add: collects_def)

lemma collects_pure [collects_rules]: "(\<And>v. collects (g v)) \<Longrightarrow> collects (\<lambda>es. Option.bind x (\<lambda>v. g v es))"
  by (cases x) (simp_all add: collects_none)

lemma collects_return [collects_rules]: "collects (\<lambda>es. Some (v, es))" "collects (\<lambda>es. Some (v, es @ [e]))"
  by (simp_all add: collects_def)

lemma collects_if [collects_rules]: "collects f \<Longrightarrow> collects g \<Longrightarrow> collects (\<lambda>es. if b then f es else g es)"
  by (cases b) simp_all

lemma collects_if_some [collects_rules]:
  "collects (\<lambda>es. Some (f es)) \<Longrightarrow> collects (\<lambda>es. Some (g es)) \<Longrightarrow> collects (\<lambda>es. Some (if b then f es else g es))"
  by (cases b) simp_all

lemma collects_split [collects_rules]: "(\<And>a b. collects (h a b)) \<Longrightarrow> collects (case_prod h p)"
  by (cases p) simp

lemma collects_map [collects_rules]: "collects f \<Longrightarrow> collects (\<lambda>es. map_option (\<lambda>(v, es'). (h v, es')) (f es))"
proof -
  assume "collects f"
  then have "collects (\<lambda>es. Option.bind (f es) (\<lambda>(v, es'). Some (h v, es')))" by (intro collects_rules)
  moreover have "map_option (\<lambda>(v, es'). (h v, es')) r = Option.bind r (\<lambda>(v, es'). Some (h v, es'))" for r :: "('a \<times> errors) option"
    by (cases r) auto
  ultimately show ?thesis by simp
qed

lemma collects_try [collects_rules]: "collects (tryParseJsonValueToVariable L parse parent f opt out)"
  unfolding tryParseJsonValueToVariable_def
  by (intro collects_rules) (auto simp: collects_def split: sum.splits)

lemma collects_nodes [collects_rules]: "collects (tryParse_nodes L parse nodes f opt out)"
proof (induction nodes arbitrary: out)
  case Nil
  then show ?case by (simp add: collects_def)
next
  case (Cons node nodes)
  have "tryParse_nodes L parse (node # nodes) f opt out = (\<lambda>es. Option.bind (tryParseJsonValueToVariable L parse node f True out es)
      (\<lambda>(r, es'). (case r of (ok, found, out') \<Rightarrow> \<lambda>es'. if \<not> ok then Some ((False, found, out'), es')
         else if found then Some ((True, True, out'), es') else tryParse_nodes L parse nodes f opt out' es') es'))"
    by (rule ext) (simp add: case_prod_beta')
  then show ?case by (auto intro!: collects_rules Cons.IH)
qed

lemma collects_optional [collects_rules]: "collects (optional_field L parse nodes f out)"
proof -
  have "optional_field L parse nodes f out = (\<lambda>es. map_option (\<lambda>(v, es'). (snd (snd v), es')) (tryParse_nodes L parse nodes f True out es))"
    by (auto simp: optional_field_def fun_eq_iff intro!: option.map_cong)
  then show ?thesis by (simp add: collects_rules)
qed

lemma collects_mode [collects_rules]: "collects (parseAccessChangeMode L cast parent f d out)"
  unfolding parseAccessChangeMode_def
  by (intro collects_rules) (auto simp: collects_def option.map_comp comp_def split: sum.splits option.splits)

lemma collects_values [collects_rules]: "collects (parsePropValues L parent f out)"
  unfolding parsePropValues_def by (intro collects_rules)

lemma collects_info [collects_rules]: "collects (parse_supported_info L area parent)"
  unfolding parse_supported_info_def by (intro collects_rules)

lemma collects_area_config [collects_rules]: "collects (parse_area_config L access parent area i)"
  unfolding parse_area_config_def by (intro collects_rules)

lemma collects_area [collects_rules]: "collects (parse_area L parent area d)"
  unfolding parse_area_def Let_def by (intro collects_rules)

lemma collects_area_list [collects_rules]: "collects (parse_area_list L parent areas d)"
proof (induction areas arbitrary: d)
  case Nil
  then show ?case by (simp add: collects_def)
next
  case (Cons area areas)
  have "parse_area_list L parent (area # areas) d = (\<lambda>es. Option.bind (parse_area L parent area d es) (\<lambda>(d', es'). parse_area_list L parent areas d' es'))"
    by (simp add: fun_eq_iff)
  then show ?case using collects_bind [OF collects_area Cons.IH] by simp
qed

lemma collects_areas [collects_rules]: "collects (parseAreas L parent f d)"
  unfolding parseAreas_def by (intro collects_rules)

lemma collects_declaration [collects_rules]: "collects (parse_declaration L x p)"
  unfolding parse_declaration_def by (intro collects_rules)

section \<open>All or nothing\<close>

lemma collectsD: "collects f \<Longrightarrow> f es = map_option (\<lambda>(v, new). (v, es @ new)) (f [])"
  unfolding collects_def by (rule spec)

lemma try_required:
  "tryParseJsonValueToVariable L parse x f False out es = Some ((ok, found, v), es') \<Longrightarrow> if ok then es' = es \<and> found else length es < length es'"
  by (cases "jv_isMember (ld_json L) x f"; cases "jv_get (ld_json L) x f"; cases "parse f (the (jv_get (ld_json L) x f))")
    (auto simp: tryParseJsonValueToVariable_def split: if_split_asm sum.split_asm)

text \<open>An entry gives a declaration exactly if it has no errors.\<close>

lemma each_property:
  shows "parseEachProperty L x es = map_option (\<lambda>(c, new). (c, es @ new)) (parseEachProperty L x [])"
    and "parseEachProperty L x [] = Some (c, new) \<Longrightarrow> c = None \<longleftrightarrow> new \<noteq> []"
proof -
  let ?t = "tryParseJsonValueToVariable L (parse_int32 L) x ''property'' False 0"
  note t = collectsD [OF collects_try [of L "parse_int32 L" x "''property''" False 0], of es]
  show "parseEachProperty L x es = map_option (\<lambda>(c, new). (c, es @ new)) (parseEachProperty L x [])"
  proof (cases "?t []")
    case None
    then show ?thesis using t by (simp add: parseEachProperty_def)
  next
    case (Some r)
    obtain ok found p e0 where r: "r = ((ok, found, p), e0)" by (metis prod_cases3 surj_pair)
    show ?thesis
    proof (cases ok)
      case False
      then show ?thesis using t Some r by (simp add: parseEachProperty_def)
    next
      case True
      then have "e0 = []" using try_required [of L "parse_int32 L" x "''property''" 0 "[]"] Some r by auto
      then show ?thesis using t Some r True collectsD [OF collects_declaration [of L x p], of es]
        by (cases "parse_declaration L x p []") (auto simp: parseEachProperty_def)
    qed
  qed
  assume "parseEachProperty L x [] = Some (c, new)"
  then show "c = None \<longleftrightarrow> new \<noteq> []"
    using try_required [of L "parse_int32 L" x "''property''" 0 "[]"]
    by (auto simp: parseEachProperty_def bind_eq_Some_conv split: if_splits) fastforce+
qed

definition add_config :: "ConfigDeclaration option \<Rightarrow> (int32 \<times> ConfigDeclaration) list \<Rightarrow> (int32 \<times> ConfigDeclaration) list" where
  "add_config c configs = (case c of None \<Rightarrow> configs | Some c \<Rightarrow> AList.update (pc_prop (cd_config c)) c configs)"

lemma parse_properties_spec:
  "parse_properties L xs configs es = Some (configs', es') \<Longrightarrow>
     \<exists>ds. map (\<lambda>x. parseEachProperty L x []) xs = map Some ds \<and> configs' = fold (add_config \<circ> fst) ds configs \<and> es' = es @ concat (map snd ds)"
proof (induction xs arbitrary: configs es)
  case (Cons x xs)
  then obtain c es1 where x: "parseEachProperty L x es = Some (c, es1)" and xs: "parse_properties L xs (add_config c configs) es1 = Some (configs', es')"
    by (auto simp: bind_eq_Some_conv add_config_def)
  obtain new where new: "parseEachProperty L x [] = Some (c, new)" "es1 = es @ new"
    using x each_property(1) [of L x es] by (cases "parseEachProperty L x []") auto
  from Cons.IH [OF xs] obtain ds where "map (\<lambda>x. parseEachProperty L x []) xs = map Some ds"
    "configs' = fold (add_config \<circ> fst) ds (add_config c configs)" "es' = es1 @ concat (map snd ds)" by blast
  with new show ?case by (intro exI [of _ "(c, new) # ds"]) (simp add: comp_def)
qed simp

definition last_entries :: "ConfigDeclaration list \<Rightarrow> int32 \<Rightarrow> ConfigDeclaration option" where
  "last_entries cs = map_of (rev (map (\<lambda>c. (pc_prop (cd_config c), c)) cs))"

lemma add_configs_last:
  "map_of (fold (add_config \<circ> Some) cs configs) p = (case last_entries cs p of None \<Rightarrow> map_of configs p | Some c \<Rightarrow> Some c)"
proof (induction cs arbitrary: configs)
  case (Cons c cs)
  then show ?case by (auto simp: last_entries_def add_config_def update_conv' map_add_def split: option.split)
qed (simp add: last_entries_def)

lemma parse_json_cases:
  "parseJsonConfig L (Inr root) = Some r \<Longrightarrow> r \<in> {Inl RootNotObject, Inl NotCompatible, Inl NoProperties} \<or>
     (\<exists>ps xs configs es. jv_get (ld_json L) root ''properties'' = Some ps \<and> jv_items (ld_json L) ps = Some xs \<and>
        parse_properties L xs [] [] = Some (configs, es) \<and> r = (if es \<noteq> [] then Inl (PropertyErrors es) else Inr configs))"
  by (auto simp: parseJsonConfig_def bind_eq_Some_conv split: if_split_asm)

text \<open>C15. A file is loaded as a whole: if any of its properties has an error the result is the list of the errors of all properties in the order of the
  file; otherwise there is one declaration per property id, that of its last entry.\<close>

theorem load_all_or_nothing:
  assumes "parseJsonConfig L (Inr root) = Some r" and "r \<noteq> Inl RootNotObject" and "r \<noteq> Inl NotCompatible" and "r \<noteq> Inl NoProperties"
  shows "\<exists>ps xs ds. jv_get (ld_json L) root ''properties'' = Some ps \<and> jv_items (ld_json L) ps = Some xs \<and>
    map (\<lambda>x. parseEachProperty L x []) xs = map Some ds \<and>
    (if \<exists>d \<in> set ds. snd d \<noteq> [] then r = Inl (PropertyErrors (concat (map snd ds)))
     else \<exists>configs cs. r = Inr configs \<and> map fst ds = map Some cs \<and> map_of configs = last_entries cs)"
proof -
  obtain ps xs configs es where ps: "jv_get (ld_json L) root ''properties'' = Some ps" "jv_items (ld_json L) ps = Some xs"
    and xs: "parse_properties L xs [] [] = Some (configs, es)" and r: "r = (if es \<noteq> [] then Inl (PropertyErrors es) else Inr configs)"
    using parse_json_cases [OF assms(1)] assms(2-4) by blast
  from parse_properties_spec [OF xs] obtain ds where ds: "map (\<lambda>x. parseEachProperty L x []) xs = map Some ds"
    "configs = fold (add_config \<circ> fst) ds []" "es = concat (map snd ds)" by auto
  have "if \<exists>d \<in> set ds. snd d \<noteq> [] then r = Inl (PropertyErrors (concat (map snd ds)))
     else \<exists>configs cs. r = Inr configs \<and> map fst ds = map Some cs \<and> map_of configs = last_entries cs"
  proof (cases "\<exists>d \<in> set ds. snd d \<noteq> []")
    case True
    then show ?thesis using r ds(3) by auto
  next
    case False
    have "\<exists>x. parseEachProperty L x [] = Some d" if "d \<in> set ds" for d
    proof -
      have "Some d \<in> set (map Some ds)" using that by simp
      then show ?thesis unfolding ds(1) [symmetric] by auto
    qed
    then have "fst d \<noteq> None" if "d \<in> set ds" for d using that False each_property(2) by (metis prod.collapse)
    then have cs: "map fst ds = map Some (map (the \<circ> fst) ds)" by auto
    then have "configs = fold (add_config \<circ> Some) (map (the \<circ> fst) ds) []"
      unfolding ds(2) by (metis comp_assoc fold_map)
    then have "map_of configs = last_entries (map (the \<circ> fst) ds)" by (auto simp: fun_eq_iff add_configs_last split: option.split)
    moreover have "r = Inr configs" using False r ds(3) by auto
    ultimately show ?thesis unfolding if_not_P [OF False] using cs by blast
  qed
  with ps ds(1) show ?thesis by blast
qed

section \<open>An example\<close>

definition example_loader :: "json loader" where
  "example_loader = \<lparr>ld_json = json_functions, ld_enums = (\<lambda>type. if type = ''VehicleProperty'' then [(''HVAC_FAN_SPEED'', 0x15400500)] else []),
     ld_defaultAccess = (\<lambda>p. Some READ_WRITE), ld_changeMode = (\<lambda>p. if p = 0x15400500 then Some ON_CHANGE else None)\<rparr>"

definition example_entry :: json where
  "example_entry = JObject [
     (''property'', JString ''VehicleProperty::HVAC_FAN_SPEED''), (''maxInt32Value'', JInt 7),
     (''defaultValue'', JObject [(''int32Values'', JArray [JInt 3])]),
     (''areas'', JArray [
        JObject [(''areaId'', JString ''Constants::HVAC_LEFT''), (''minInt32Value'', JInt 1)],
        JObject [(''areaId'', JInt 68), (''maxInt32Value'', JInt 5), (''access'', JInt 1)]])]"

definition example_file :: "json list \<Rightarrow> json" where
  "example_file entries = JObject [(''apiVersion'', JInt 2), (''properties'', JArray entries)]"

definition example_area :: "int32 \<Rightarrow> int32 \<Rightarrow> int32 \<Rightarrow> VehiclePropertyAccess \<Rightarrow> VehicleAreaConfig" where
  "example_area i mn mx access = (global_area access)\<lparr>ac_areaId := i, minInt32Value := mn, maxInt32Value := mx\<rparr>"

definition example_decl :: ConfigDeclaration where
  "example_decl = \<lparr>
     cd_config = \<lparr>pc_prop = 0x15400500, pc_access = READ_WRITE, changeMode = ON_CHANGE,
       areaConfigs = [example_area 49 1 7 READ_WRITE, example_area 68 0 5 READ], configArray = [], configString = [], minSampleRate = 0, maxSampleRate = 0\<rparr>,
     cd_initialValue = empty_raw\<lparr>int32Values := [3]\<rparr>,
     cd_initialAreaValues = [(49, empty_raw\<lparr>int32Values := [3]\<rparr>), (68, empty_raw\<lparr>int32Values := [3]\<rparr>)],
     cd_supportedValuesForAreaId = []\<rparr>"

lemma example_entry_parsed: "parseEachProperty example_loader example_entry [] = Some (Some example_decl, [])"
  by code_simp

lemma example_loaded: "parseJsonConfig example_loader (Inr (example_file [example_entry])) = Some (Inr [(0x15400500, example_decl)])"
  by code_simp

definition example_bad :: json where
  "example_bad = JObject [(''property'', JInt 5), (''access'', JString ''x'')]"

theorem load_all_or_nothing_witness:
  "\<exists>ps xs ds. jv_get json_functions (example_file [JInt 3, example_entry, example_bad]) ''properties'' = Some ps \<and> jv_items json_functions ps = Some xs \<and>
     map (\<lambda>x. parseEachProperty example_loader x []) xs = map Some ds \<and>
     concat (map snd ds) = [NotAnObject, InvalidConstant ''access'', NoModeSpecified ''changeMode'']"
proof -
  let ?r = "Inl (PropertyErrors [NotAnObject, InvalidConstant ''access'', NoModeSpecified ''changeMode'']) :: load_error + (int32 \<times> ConfigDeclaration) list"
  have "parseJsonConfig example_loader (Inr (example_file [JInt 3, example_entry, example_bad])) = Some ?r" by code_simp
  from load_all_or_nothing [OF this] show ?thesis by (force simp: example_loader_def split: if_splits)
qed

end
