(* ===== verification/JsonConfigProofs.thy ===== *)
theory JsonConfigProofs
  imports JsonConfigErrors
begin

text \<open>
  What the loader makes of a file: the shape of every declaration and where its fields come from.
\<close>

section \<open>Well-formed declarations\<close>

definition area_ids :: "ConfigDeclaration \<Rightarrow> int32 set" where
  "area_ids d = ac_areaId ` set (areaConfigs (cd_config d))"

definition decl_ok :: "ConfigDeclaration \<Rightarrow> bool" where
  "decl_ok d \<longleftrightarrow> wf_alist (cd_initialAreaValues d) \<and> wf_alist (cd_supportedValuesForAreaId d) \<and>
     fst ` set (cd_initialAreaValues d) \<subseteq> area_ids d \<and> fst ` set (cd_supportedValuesForAreaId d) \<subseteq> area_ids d \<and>
     [] \<notin> snd ` set (cd_supportedValuesForAreaId d) \<and>
     (\<not> raw_eq (cd_initialValue d) empty_raw \<longrightarrow> area_ids d \<subseteq> fst ` set (cd_initialAreaValues d))"

lemma values_update: "wf_alist m \<Longrightarrow> snd ` set (AList.update k v m) \<subseteq> insert v (snd ` set m)"
  by (induction m) auto

definition with_area :: "ConfigDeclaration \<Rightarrow> VehicleAreaConfig \<Rightarrow> f32 list \<Rightarrow> RawPropValues option \<Rightarrow> ConfigDeclaration" where
  "with_area d ac supported given = d\<lparr>cd_config := (cd_config d)\<lparr>areaConfigs := areaConfigs (cd_config d) @ [ac]\<rparr>,
     cd_supportedValuesForAreaId :=
       (if supported = [] then cd_supportedValuesForAreaId d else AList.update (ac_areaId ac) supported (cd_supportedValuesForAreaId d)),
     cd_initialAreaValues :=
       (case given of
          Some v \<Rightarrow> AList.update (ac_areaId ac) v (cd_initialAreaValues d)
        | None \<Rightarrow> if \<not> raw_eq (cd_initialValue d) empty_raw then AList.update (ac_areaId ac) (cd_initialValue d) (cd_initialAreaValues d)
                  else cd_initialAreaValues d)\<rparr>"

lemma area_config_id: "parse_area_config L access parent area i es = Some ((ac, sv), es') \<Longrightarrow> ac_areaId ac = i"
  by (auto simp: parse_area_config_def bind_eq_Some_conv)

lemma parse_area_cases:
  assumes "parse_area L parent area d es = Some (d', es')"
  obtains (skipped) "d' = d" and "length es < length es'"
  | (added) i found ac sv e1 given v where "tryParseJsonValueToVariable L (parse_int32 L) area ''areaId'' False 0 es = Some ((True, found, i), es)"
    and "parse_area_config L (pc_access (cd_config d)) parent area i es = Some ((ac, sv), e1)"
    and "parsePropValues L area ''defaultValue'' empty_raw e1 = Some ((given, v), es')" and "d' = with_area d ac sv (if given then Some v else None)"
proof -
  obtain ok found i e0 where t: "tryParseJsonValueToVariable L (parse_int32 L) area ''areaId'' False 0 es = Some ((ok, found, i), e0)"
    using assms by (cases "tryParseJsonValueToVariable L (parse_int32 L) area ''areaId'' False 0 es") (auto simp: parse_area_def)
  show thesis
  proof (cases ok)
    case False
    then show thesis using assms t try_required [OF t] by (intro skipped) (simp_all add: parse_area_def)
  next
    case True
    then have e0: "e0 = es" using try_required [OF t] by simp
    obtain ac sv e1 given v e2 where ac: "parse_area_config L (pc_access (cd_config d)) parent area i es = Some ((ac, sv), e1)"
      and v: "parsePropValues L area ''defaultValue'' empty_raw e1 = Some ((given, v), e2)"
      using assms t True e0 by (auto simp: parse_area_def bind_eq_Some_conv Let_def)
    moreover have "d' = with_area d ac sv (if given then Some v else None)" "es' = e2"
      using assms t True ac v area_config_id [OF ac] unfolding e0 by (auto simp: parse_area_def with_area_def Let_def)
    ultimately show thesis using t True added unfolding e0 by simp
  qed
qed

lemma decl_ok_area:
  assumes "parse_area L parent area d es = Some (d', es')" and "decl_ok d"
  shows "decl_ok d' \<and> pc_prop (cd_config d') = pc_prop (cd_config d) \<and> cd_initialValue d' = cd_initialValue d"
  using assms(1)
proof (cases rule: parse_area_cases)
  case (added i found ac sv e1 given v)
  then show ?thesis using assms(2) values_update [of "cd_supportedValuesForAreaId d" "ac_areaId ac" sv]
    by (auto simp: with_area_def decl_ok_def area_ids_def keys_update wf_intros split: option.splits if_splits)
qed (use assms(2) in simp)

lemma decl_ok_area_list:
  "parse_area_list L parent areas d es = Some (d', es') \<Longrightarrow> decl_ok d \<Longrightarrow> decl_ok d' \<and> pc_prop (cd_config d') = pc_prop (cd_config d)"
proof (induction areas arbitrary: d es)
  case (Cons area areas)
  then obtain d1 es1 where a: "parse_area L parent area d es = Some (d1, es1)" and r: "parse_area_list L parent areas d1 es1 = Some (d', es')"
    by (auto simp: bind_eq_Some_conv)
  from decl_ok_area [OF a Cons.prems(2)] Cons.IH [OF r] show ?case by simp
qed simp

lemma decl_ok_areas: "parseAreas L parent f d es = Some (d', es') \<Longrightarrow> decl_ok d \<Longrightarrow> decl_ok d' \<and> pc_prop (cd_config d') = pc_prop (cd_config d)"
  by (auto simp: parseAreas_def bind_eq_Some_conv split: if_split_asm dest: decl_ok_area_list)

definition loaded_ok :: "ConfigDeclaration \<Rightarrow> bool" where
  "loaded_ok d \<longleftrightarrow> areaConfigs (cd_config d) \<noteq> [] \<and> wf_alist (cd_initialAreaValues d) \<and> wf_alist (cd_supportedValuesForAreaId d) \<and>
     fst ` set (cd_initialAreaValues d) \<subseteq> area_ids d \<and> fst ` set (cd_supportedValuesForAreaId d) \<subseteq> area_ids d \<and>
     [] \<notin> snd ` set (cd_supportedValuesForAreaId d) \<and>
     (\<not> raw_eq (cd_initialValue d) empty_raw \<and> areaConfigs (cd_config d) \<noteq> [global_area (pc_access (cd_config d))] \<longrightarrow>
        area_ids d \<subseteq> fst ` set (cd_initialAreaValues d))"

lemma loaded_ok_property:
  assumes "parseEachProperty L x es = Some (Some d, es')"
  shows "loaded_ok d"
proof -
  obtain p e0 where "parse_declaration L x p e0 = Some (d, es')" using assms by (auto simp: parseEachProperty_def bind_eq_Some_conv split: if_splits)
  then obtain d0 d1 e7 where areas: "parseAreas L x ''areas'' d0 e7 = Some (d1, es')"
    and d0: "cd_initialAreaValues d0 = []" "cd_supportedValuesForAreaId d0 = []" "areaConfigs (cd_config d0) = []"
    and d: "d = (if areaConfigs (cd_config d1) = [] then d1\<lparr>cd_config := (cd_config d1)\<lparr>areaConfigs := [global_area (pc_access (cd_config d1))]\<rparr>\<rparr> else d1)"
    by (auto simp: parse_declaration_def bind_eq_Some_conv)
  have "decl_ok d0" using d0 by (simp add: decl_ok_def area_ids_def)
  then have "decl_ok d1" using decl_ok_areas [OF areas] by blast
  then show ?thesis by (auto simp: d loaded_ok_def decl_ok_def area_ids_def)
qed

lemma added_configs:
  "map_of (fold (add_config \<circ> fst) ds m) p = Some d \<Longrightarrow> map_of m p = Some d \<or> pc_prop (cd_config d) = p \<and> Some d \<in> fst ` set ds"
proof (induction ds arbitrary: m)
  case (Cons x ds)
  then have "map_of (add_config (fst x) m) p = Some d \<or> pc_prop (cd_config d) = p \<and> Some d \<in> fst ` set ds" by simp
  then show ?case by (auto simp: add_config_def update_conv' image_iff split: option.splits if_splits)
qed simp

lemma from_entries:
  assumes "parseJsonConfig L (Inr root) = Some (Inr configs)" and "map_of configs p = Some d"
  shows "pc_prop (cd_config d) = p" and "\<exists>x. parseEachProperty L x [] = Some (Some d, [])"
proof -
  obtain xs es where xs: "parse_properties L xs [] [] = Some (configs, es)" and es: "es = []"
    using parse_json_cases [OF assms(1)] by (auto split: if_splits)
  from parse_properties_spec [OF xs] obtain ds where ds: "map (\<lambda>x. parseEachProperty L x []) xs = map Some ds"
    "configs = fold (add_config \<circ> fst) ds []" "concat (map snd ds) = []" using es by auto
  have d: "pc_prop (cd_config d) = p" "Some d \<in> fst ` set ds" using added_configs [of ds "[]" p d] assms(2) ds(2) by auto
  then show "pc_prop (cd_config d) = p" by simp
  from d(2) ds(3) have "(Some d, []) \<in> set ds" by fastforce
  then have "Some (Some d, []) \<in> set (map (\<lambda>x. parseEachProperty L x []) xs)" unfolding ds(1) by force
  then show "\<exists>x. parseEachProperty L x [] = Some (Some d, [])" by auto
qed

text \<open>C17. Every declaration that is loaded is well formed: it is filed under its own property id and has an area; initial and supported values are given
  once per area and only for areas of the property, supported values never empty; and if the property has an initial value, every area has
  one, apart from the area that is added when none is given.\<close>

theorem loaded_well_formed:
  assumes "parseJsonConfig L (Inr root) = Some (Inr configs)" and "map_of configs p = Some d"
  shows "pc_prop (cd_config d) = p \<and> loaded_ok d"
  using from_entries [OF assms] by (auto intro: loaded_ok_property)

theorem loaded_well_formed_witness: "pc_prop (cd_config example_decl) = 0x15400500 \<and> loaded_ok example_decl"
  using loaded_well_formed [OF example_loaded, of "0x15400500" example_decl] by simp

section \<open>Inherited fields\<close>

text \<open>The value of a field is taken from the first node that has it.\<close>

definition field_of :: "'j loader \<Rightarrow> ('j, 'a) value_parser \<Rightarrow> 'j list \<Rightarrow> string \<Rightarrow> 'a \<Rightarrow> 'a \<Rightarrow> bool" where
  "field_of L parse nodes f d v \<longleftrightarrow>
     (case find (\<lambda>n. jv_isMember (ld_json L) n f = Some True) nodes of
        None \<Rightarrow> v = d
      | Some n \<Rightarrow> \<exists>y. jv_get (ld_json L) n f = Some y \<and> parse f y = Some (Inr v))"

lemma only_more: "collects f \<Longrightarrow> f es = Some (v, es') \<Longrightarrow> \<exists>new. es' = es @ new"
  using collectsD [of f es] by (cases "f []") auto

lemma nodes_value: "tryParse_nodes L parse nodes f True d es = Some ((ok, found, v), es) \<Longrightarrow> field_of L parse nodes f d v"
proof (induction nodes)
  case (Cons n nodes)
  then obtain ok1 found1 v1 e1 where t: "tryParseJsonValueToVariable L parse n f True d es = Some ((ok1, found1, v1), e1)"
    and r: "if \<not> ok1 then e1 = es else if found1 then e1 = es \<and> v = v1 else tryParse_nodes L parse nodes f True v1 e1 = Some ((ok, found, v), es)"
    by (auto simp: bind_eq_Some_conv split: if_splits)
  obtain e2 where e2: "e1 = es @ e2" using only_more [OF collects_try t] by blast
  have "e1 = es"
  proof (cases "\<not> ok1 \<or> found1")
    case False
    then obtain e3 where "es = e1 @ e3" using r only_more [OF collects_nodes, of L parse nodes f True v1 e1] by auto
    with e2 show ?thesis by simp
  qed (use r in \<open>auto split: if_splits\<close>)
  then show ?case using t r Cons.IH
    by (cases "jv_get (ld_json L) n f"; cases "parse f (the (jv_get (ld_json L) n f))"; cases "jv_isMember (ld_json L) n f")
      (auto simp: tryParseJsonValueToVariable_def field_of_def split: if_splits sum.splits)
qed (simp add: field_of_def)

lemma field_value: "optional_field L parse nodes f d es = Some (v, es) \<Longrightarrow> field_of L parse nodes f d v"
  using nodes_value by (auto simp: optional_field_def)

definition mode_of :: "'j loader \<Rightarrow> (int32 \<Rightarrow> 'm option) \<Rightarrow> 'j \<Rightarrow> string \<Rightarrow> 'm option \<Rightarrow> 'm \<Rightarrow> bool" where
  "mode_of L cast node f d m \<longleftrightarrow>
     (if jv_isMember (ld_json L) node f = Some True
      then \<exists>y n. jv_get (ld_json L) node f = Some y \<and> parse_int32 L f y = Some (Inr n) \<and> cast n = Some m
      else d = Some m)"

lemma mode_value: "parseAccessChangeMode L cast node f d out es = Some (m, es) \<Longrightarrow> mode_of L cast node f d m"
  by (cases "jv_get (ld_json L) node f"; cases "parse_int32 L f (the (jv_get (ld_json L) node f))"; cases "jv_isMember (ld_json L) node f")
    (auto simp: parseAccessChangeMode_def mode_of_def split: if_splits sum.splits option.splits)

text \<open>The configuration of an area, field by field.\<close>

definition area_parsed :: "'j loader \<Rightarrow> VehiclePropertyAccess \<Rightarrow> 'j \<Rightarrow> 'j \<Rightarrow> VehicleAreaConfig \<Rightarrow> bool" where
  "area_parsed L access parent area ac \<longleftrightarrow>
     field_of L (parse_int32 L) [area] ''areaId'' 0 (ac_areaId ac) \<and>
     mode_of L access_cast area ''access'' (Some access) (ac_access ac) \<and>
     field_of L (parse_int32 L) [area, parent] ''minInt32Value'' 0 (minInt32Value ac) \<and>
     field_of L (parse_int32 L) [area, parent] ''maxInt32Value'' 0 (maxInt32Value ac) \<and>
     field_of L (parse_int64 L) [area, parent] ''minInt64Value'' 0 (minInt64Value ac) \<and>
     field_of L (parse_int64 L) [area, parent] ''maxInt64Value'' 0 (maxInt64Value ac) \<and>
     field_of L (parse_float L) [area, parent] ''minFloatValue'' 0 (minFloatValue ac) \<and>
     field_of L (parse_float L) [area, parent] ''maxFloatValue'' 0 (maxFloatValue ac) \<and>
     field_of L (parse_bool L) [area, parent] ''supportVariableUpdateRate'' True (supportVariableUpdateRate ac) \<and>
     field_of L (parseArray L (parse_int64 L)) [area, parent] ''supportedEnumValues'' []
       (case supportedEnumValues ac of None \<Rightarrow> [] | Some vs \<Rightarrow> vs)"

lemma bind_no_more:
  assumes "Option.bind (f es) (\<lambda>(v, es'). g v es') = Some (w, es)" and "collects f" and "\<And>v. collects (g v)"
  obtains v where "f es = Some (v, es)" and "g v es = Some (w, es)"
proof -
  obtain v e1 where v: "f es = Some (v, e1)" "g v e1 = Some (w, es)" using assms(1) by (auto simp: bind_eq_Some_conv)
  obtain n1 n2 where "e1 = es @ n1" "es = e1 @ n2" using only_more [OF assms(2) v(1)] only_more [OF assms(3) v(2)] by blast
  then have "e1 = es" by simp
  with v that show thesis by simp
qed

lemma required_value:
  "tryParseJsonValueToVariable L parse x f False out es = Some ((True, found, v), es') \<Longrightarrow> field_of L parse [x] f d v"
  by (cases "jv_get (ld_json L) x f"; cases "parse f (the (jv_get (ld_json L) x f))")
    (auto simp: tryParseJsonValueToVariable_def field_of_def bind_eq_Some_conv split: if_splits sum.splits)

lemma area_config_fields:
  assumes "parse_area_config L access parent area i es = Some ((ac, sv), es)" and "field_of L (parse_int32 L) [area] ''areaId'' 0 i"
  shows "area_parsed L access parent area ac"
  using assms(1) unfolding parse_area_config_def
  apply -
  apply (erule bind_no_more, (intro collects_rules)+)+
  using assms(2) by (auto simp: area_parsed_def dest!: field_value mode_value)

lemma area_fields:
  assumes "parse_area L parent area d es = Some (d', es)"
  shows "\<exists>ac. cd_config d' = (cd_config d)\<lparr>areaConfigs := areaConfigs (cd_config d) @ [ac]\<rparr> \<and> area_parsed L (pc_access (cd_config d)) parent area ac"
  using assms
proof (cases rule: parse_area_cases)
  case (added i found ac sv e1 given v)
  obtain n1 n2 where "e1 = es @ n1" "es = e1 @ n2" using only_more [OF collects_area_config added(2)] only_more [OF collects_values added(3)] by blast
  then have e1: "e1 = es" by simp
  from area_config_fields [OF added(2) [unfolded e1] required_value [OF added(1)]] show ?thesis using added(4) by (auto simp: with_area_def)
qed simp

lemma area_list_fields:
  "parse_area_list L parent areas d es = Some (d', es) \<Longrightarrow>
     \<exists>acs. cd_config d' = (cd_config d)\<lparr>areaConfigs := areaConfigs (cd_config d) @ acs\<rparr> \<and> list_all2 (area_parsed L (pc_access (cd_config d)) parent) areas acs"
proof (induction areas arbitrary: d)
  case Nil
  then show ?case by (intro exI [of _ "[]"]) simp
next
  case (Cons area areas)
  then obtain d1 e1 where a: "parse_area L parent area d es = Some (d1, e1)" and r: "parse_area_list L parent areas d1 e1 = Some (d', es)"
    by (auto simp: bind_eq_Some_conv)
  obtain n1 n2 where "e1 = es @ n1" "es = e1 @ n2" using only_more [OF collects_area a] only_more [OF collects_area_list r] by blast
  then have e1: "e1 = es" by simp
  obtain ac where ac: "cd_config d1 = (cd_config d)\<lparr>areaConfigs := areaConfigs (cd_config d) @ [ac]\<rparr>" "area_parsed L (pc_access (cd_config d)) parent area ac"
    using area_fields [OF a [unfolded e1]] by blast
  from Cons.IH [OF r [unfolded e1]] ac obtain acs where "cd_config d' = (cd_config d)\<lparr>areaConfigs := areaConfigs (cd_config d) @ ac # acs\<rparr>"
    "list_all2 (area_parsed L (pc_access (cd_config d)) parent) areas acs" by auto
  with ac(2) show ?case by (intro exI [of _ "ac # acs"]) simp
qed

definition property_parsed :: "'j loader \<Rightarrow> 'j \<Rightarrow> VehiclePropConfig \<Rightarrow> bool" where
  "property_parsed L x c \<longleftrightarrow>
     field_of L (parse_int32 L) [x] ''property'' 0 (pc_prop c) \<and>
     mode_of L access_cast x ''access'' (ld_defaultAccess L (pc_prop c)) (pc_access c) \<and>
     mode_of L change_mode_cast x ''changeMode'' (ld_changeMode L (pc_prop c)) (changeMode c) \<and>
     field_of L (parseStringValue L) [x] ''configString'' [] (configString c) \<and>
     field_of L (parseArray L (parse_int32 L)) [x] ''configArray'' [] (configArray c) \<and>
     field_of L (parse_float L) [x] ''minSampleRate'' 0 (minSampleRate c) \<and>
     field_of L (parse_float L) [x] ''maxSampleRate'' 0 (maxSampleRate c)"

lemma declaration_fields:
  assumes "parse_declaration L x p es = Some (d, es)" and "field_of L (parse_int32 L) [x] ''property'' 0 p"
  shows "\<exists>d0 d1. parseAreas L x ''areas'' d0 es = Some (d1, es) \<and> property_parsed L x (cd_config d0) \<and> areaConfigs (cd_config d0) = [] \<and>
    (areaConfigs (cd_config d1) \<noteq> [] \<longrightarrow> d = d1)"
  using assms(1) unfolding parse_declaration_def
  apply -
  apply (erule bind_no_more, (intro collects_rules)+)+
  apply (simp only: split_paired_all prod.case)
  apply (erule bind_no_more, (intro collects_rules)+)+
  apply (rule exI, rule exI, rule conjI, assumption)
  using assms(2) by (auto simp: property_parsed_def dest!: field_value mode_value split: if_splits)

definition areas_of :: "'j loader \<Rightarrow> 'j \<Rightarrow> 'j list \<Rightarrow> bool" where
  "areas_of L x areas \<longleftrightarrow> jv_isMember (ld_json L) x ''areas'' = Some True \<and>
     Option.bind (jv_get (ld_json L) x ''areas'') (jv_items (ld_json L)) = Some areas"



end
