(* ===== verification/JsonConfigExceptions.thy ===== *)
theory JsonConfigExceptions
  imports JsonConfigProofs
begin

text \<open>
  Which inputs make the loader throw, given the documented behaviour of the JSON library (locale \<open>json_library\<close>).
\<close>

section \<open>Exceptions\<close>

text \<open>A parser that never throws, whatever errors there are already.\<close>

definition returns :: "(errors \<Rightarrow> ('a \<times> errors) option) \<Rightarrow> bool" where
  "returns f \<longleftrightarrow> (\<forall>es. f es \<noteq> None)"

definition total_parser :: "('j, 'a) value_parser \<Rightarrow> bool" where
  "total_parser parse \<longleftrightarrow> (\<forall>f y. parse f y \<noteq> None)"

named_theorems returns_rules

lemma returnsE:
  assumes "returns f"
  obtains a b c es' where "f es = Some ((a, b, c), es')"
proof -
  obtain r where "f es = Some r" using assms unfolding returns_def by blast
  then show thesis using that by (cases r) auto
qed

lemma returns_bind [returns_rules]:
  "returns f \<Longrightarrow> (\<And>v. returns (g v)) \<Longrightarrow> returns (\<lambda>es. Option.bind (f es) (\<lambda>(v, es'). g v es'))"
  unfolding returns_def by (metis bind_eq_None_conv case_prod_beta' option.collapse)

lemma returns_some [returns_rules]: "returns (\<lambda>es. Some (h es))"
  by (simp add: returns_def)

lemma returns_if [returns_rules]: "(b \<Longrightarrow> returns f) \<Longrightarrow> (\<not> b \<Longrightarrow> returns g) \<Longrightarrow> returns (\<lambda>es. if b then f es else g es)"
  by (cases b) simp_all

lemma returns_pure [returns_rules]: "y \<noteq> None \<Longrightarrow> (\<And>v. y = Some v \<Longrightarrow> returns (g v)) \<Longrightarrow> returns (\<lambda>es. Option.bind y (\<lambda>v. g v es))"
  by (cases y) simp_all

lemma returns_split [returns_rules]: "(\<And>a b. returns (h a b)) \<Longrightarrow> returns (case_prod h p)"
  by (cases p) simp

text \<open>A node has a bad mode if its field is a number that is none of the enumerators.\<close>

definition bad_mode :: "'j loader \<Rightarrow> (int32 \<Rightarrow> 'm option) \<Rightarrow> string \<Rightarrow> 'j \<Rightarrow> bool" where
  "bad_mode L cast f node \<longleftrightarrow> (\<exists>y n. jv_get (ld_json L) node f = Some y \<and> parse_int32 L f y = Some (Inr n) \<and> cast n = None)"

lemma parse_value_total:
  assumes "json_library (ld_json L)" and "total_parser convert"
  shows "total_parser (parseValue L convert cast)"
  using assms(2) json_library.as_string [OF assms(1)] by (auto simp: total_parser_def parseValue_def bind_eq_None_conv simp del: not_None_eq)

lemma convert_total: "(\<And>y. isT y \<Longrightarrow> asT y \<noteq> None) \<Longrightarrow> total_parser (convertValueToType isT asT expected)"
  by (simp add: total_parser_def convertValueToType_def)

lemma parsers_total [returns_rules]:
  assumes "json_library (ld_json L)"
  shows "total_parser (parse_bool L)" and "total_parser (parse_int32 L)" and "total_parser (parse_int64 L)" and "total_parser (parse_float L)"
    and "total_parser (parseStringValue L)"
  unfolding parse_bool_def parse_int32_def parse_int64_def parse_float_def parseStringValue_def
  using assms by (simp_all add: parse_value_total convert_total json_library.as_bool json_library.as_int json_library.as_int64
    json_library.as_float json_library.as_string)

lemma elements_total: "(\<And>y. parse y \<noteq> None) \<Longrightarrow> parse_elements parse ys \<noteq> None"
  by (induction ys) (auto simp: bind_eq_None_conv simp del: not_None_eq split: sum.split)

lemma array_total [returns_rules]: "json_library (ld_json L) \<Longrightarrow> total_parser parse \<Longrightarrow> total_parser (parseArray L parse)"
  using elements_total [of "parse f" for f] json_library.get_items [of "ld_json L"]
  by (auto simp: total_parser_def parseArray_def bind_eq_None_conv simp del: not_None_eq)

lemma returns_try [returns_rules]:
  assumes "json_library (ld_json L)" and "total_parser parse"
  shows "returns (tryParseJsonValueToVariable L parse parent f opt out)"
  using assms(2) json_library.is_member [OF assms(1)] json_library.get_member [OF assms(1)]
  by (auto simp: returns_def total_parser_def tryParseJsonValueToVariable_def bind_eq_None_conv simp del: not_None_eq)

lemma returns_nodes:
  assumes "json_library (ld_json L)" and "total_parser parse"
  shows "tryParse_nodes L parse nodes f opt out es \<noteq> None"
proof (induction nodes arbitrary: out es)
  case (Cons node nodes)
  obtain r where "tryParseJsonValueToVariable L parse node f True out es = Some r" using returns_try [OF assms] by (metis not_None_eq returns_def)
  then show ?case using Cons.IH by (cases r) auto
qed simp

lemma returns_optional [returns_rules]:
  "json_library (ld_json L) \<Longrightarrow> total_parser parse \<Longrightarrow> returns (optional_field L parse nodes f out)"
  using returns_nodes [of L parse nodes f True out] by (simp add: returns_def optional_field_def)

lemma returns_mode [returns_rules]:
  assumes "json_library (ld_json L)" and "\<not> bad_mode L cast f parent"
  shows "returns (parseAccessChangeMode L cast parent f d out)"
proof (cases "jv_isObject (ld_json L) parent")
  case True
  obtain m y r where "jv_isMember (ld_json L) parent f = Some m" "jv_get (ld_json L) parent f = Some y" "parse_int32 L f y = Some r"
    using True json_library.is_member [OF assms(1)] json_library.get_member [OF assms(1)] parsers_total(2) [OF assms(1)]
    by (metis not_None_eq total_parser_def)
  then show ?thesis using assms(2) by (auto simp: returns_def parseAccessChangeMode_def bad_mode_def split: sum.split)
qed (simp add: returns_def parseAccessChangeMode_def)

lemma returns_values [returns_rules]:
  assumes "json_library (ld_json L)"
  shows "returns (parsePropValues L parent f out)"
  unfolding parsePropValues_def
  using json_library.is_member [OF assms] json_library.get_member [OF assms]
  by (intro returns_rules assms) auto

lemma returns_info [returns_rules]:
  assumes "json_library (ld_json L)" and "jv_isObject (ld_json L) area" and "jv_isObject (ld_json L) parent"
  shows "returns (parse_supported_info L area parent)"
  unfolding parse_supported_info_def
  using json_library.is_member [OF assms(1)] json_library.get_member [OF assms(1)] assms(2,3)
  by (intro returns_rules assms) auto

lemma returns_area_config [returns_rules]:
  assumes "json_library (ld_json L)" and "jv_isObject (ld_json L) area" and "jv_isObject (ld_json L) parent" and "\<not> bad_mode L access_cast ''access'' area"
  shows "returns (parse_area_config L access parent area i)"
  unfolding parse_area_config_def by (intro returns_rules assms)

lemma required_object: "tryParseJsonValueToVariable L parse x f opt out es = Some ((True, found, v), es') \<Longrightarrow> jv_isObject (ld_json L) x"
  by (auto simp: tryParseJsonValueToVariable_def split: if_splits)

lemma returns_area:
  assumes "json_library (ld_json L)" and "jv_isObject (ld_json L) parent" and "\<not> bad_mode L access_cast ''access'' area"
  shows "parse_area L parent area d es \<noteq> None"
proof -
  obtain ok found i e0 where t: "tryParseJsonValueToVariable L (parse_int32 L) area ''areaId'' False 0 es = Some ((ok, found, i), e0)"
    by (rule returnsE [OF returns_try [OF assms(1) parsers_total(2) [OF assms(1)]]])
  show ?thesis
  proof (cases ok)
    case True
    then have "jv_isObject (ld_json L) area" using required_object t by auto
    then have "returns (parse_area_config L (pc_access (cd_config d)) parent area i)" using assms by (intro returns_rules)
    then obtain c e1 where c: "parse_area_config L (pc_access (cd_config d)) parent area i e0 = Some (c, e1)" unfolding returns_def by fast
    obtain v e2 where "parsePropValues L area ''defaultValue'' empty_raw e1 = Some (v, e2)"
      using returns_values [OF assms(1)] unfolding returns_def by fast
    then show ?thesis using t True c by (cases c; cases v) (simp add: parse_area_def Let_def)
  qed (use t in \<open>simp add: parse_area_def\<close>)
qed

lemma returns_area_list:
  assumes "json_library (ld_json L)" and "jv_isObject (ld_json L) parent"
  shows "(\<And>area. area \<in> set areas \<Longrightarrow> \<not> bad_mode L access_cast ''access'' area) \<Longrightarrow> parse_area_list L parent areas d es \<noteq> None"
proof (induction areas arbitrary: d es)
  case (Cons area areas)
  then show ?case using returns_area [OF assms, of area d es] by auto
qed simp

definition bad_property :: "'j loader \<Rightarrow> 'j \<Rightarrow> bool" where
  "bad_property L x \<longleftrightarrow> bad_mode L access_cast ''access'' x \<or> bad_mode L change_mode_cast ''changeMode'' x \<or>
     (\<exists>areas. areas_of L x areas \<and> (\<exists>area \<in> set areas. bad_mode L access_cast ''access'' area))"

lemma returns_areas [returns_rules]:
  assumes "json_library (ld_json L)" and "\<not> bad_property L x"
  shows "returns (parseAreas L x ''areas'' d)"
proof (cases "jv_isObject (ld_json L) x")
  case True
  obtain m y where m: "jv_isMember (ld_json L) x ''areas'' = Some m" "jv_get (ld_json L) x ''areas'' = Some y"
    using True json_library.is_member [OF assms(1)] json_library.get_member [OF assms(1)] by (metis not_None_eq)
  have "parse_area_list L x areas d es \<noteq> None" if "m" and "jv_items (ld_json L) y = Some areas" for areas es
    using assms(2) m that by (intro returns_area_list [OF assms(1) True]) (auto simp: bad_property_def areas_of_def)
  then show ?thesis using m json_library.get_items [OF assms(1), of y] by (auto simp: returns_def parseAreas_def)
qed (simp add: returns_def parseAreas_def)

lemma returns_declaration [returns_rules]:
  assumes "json_library (ld_json L)" and "\<not> bad_property L x"
  shows "returns (parse_declaration L x p)"
proof -
  have "\<not> bad_mode L access_cast ''access'' x" "\<not> bad_mode L change_mode_cast ''changeMode'' x" using assms(2) by (simp_all add: bad_property_def)
  then show ?thesis unfolding parse_declaration_def using assms by (intro returns_rules)
qed

lemma returns_property:
  assumes "json_library (ld_json L)" and "\<not> bad_property L x"
  shows "parseEachProperty L x es \<noteq> None"
proof -
  obtain ok found p e0 where "tryParseJsonValueToVariable L (parse_int32 L) x ''property'' False 0 es = Some ((ok, found, p), e0)"
    by (rule returnsE [OF returns_try [OF assms(1) parsers_total(2) [OF assms(1)]]])
  moreover obtain r where "parse_declaration L x p e0 = Some r" using returns_declaration [OF assms] unfolding returns_def by blast
  ultimately show ?thesis by (cases r) (simp add: parseEachProperty_def)
qed

lemma returns_properties:
  assumes "json_library (ld_json L)"
  shows "(\<And>x. x \<in> set xs \<Longrightarrow> \<not> bad_property L x) \<Longrightarrow> parse_properties L xs configs es \<noteq> None"
proof (induction xs arbitrary: configs es)
  case (Cons x xs)
  then show ?case using returns_property [OF assms, of x es] by auto
qed simp



end
