(* ===== verification/FakeStart.thy ===== *)
theory FakeStart
  imports FakeWrites DefaultVehicleHal Generators JsonConfigLoader
begin

text \<open>
  The start of the fake hardware (constructor, \<^verbatim>\<open>init\<close> and \<^verbatim>\<open>loadConfigDeclarations\<close> in \<^verbatim>\<open>FakeVehicleHardware.cpp\<close>) and the queries that are answered
  from what it stored: the configuration files are loaded, every property is registered in the store and gets its initial values, the supported
  values are noted and the OBD2 frames made. The file system and the JSON library are arguments. \<open>None\<close> means that the program ends, throws, or that
  a conversion or an access is undefined.
\<close>

section \<open>Configuration files\<close>

definition lower :: "char \<Rightarrow> char" where
  "lower c = (if 65 \<le> (of_char c :: nat) \<and> (of_char c :: nat) \<le> 90 then char_of (of_char c + 32 :: nat) else c)"

text \<open>The expression \<^verbatim>\<open>.*[.]json\<close> on the whole name, without regard to case; a dot does not match the end of a line.\<close>

definition is_json_name :: "string \<Rightarrow> bool" where
  "is_json_name name \<longleftrightarrow>
     5 \<le> length name \<and> map lower (drop (length name - 5) name) = ''.json'' \<and>
     list_all (\<lambda>c. (of_char c :: nat) \<noteq> 10 \<and> (of_char c :: nat) \<noteq> 13) (take (length name - 5) name)"

type_synonym 'j directory = "(string \<times> (string + 'j) option) list option"

fun load_files :: "'j loader \<Rightarrow> (string \<times> (string + 'j) option) list \<Rightarrow> (int32 \<times> ConfigDeclaration) list \<Rightarrow> (int32 \<times> ConfigDeclaration) list option" where
  "load_files L [] configs = Some configs"
| "load_files L ((name, file) # files) configs =
     (if \<not> is_json_name name then load_files L files configs
      else do {
        result \<leftarrow> loadPropConfig L file;
        load_files L files (case result of Inl _ \<Rightarrow> configs | Inr loaded \<Rightarrow> AList.updates (map fst loaded) (map snd loaded) configs)
      })"

text \<open>Whether the directory could be opened, and the declarations after it.\<close>

definition loadPropConfigsFromDir ::
  "'j loader \<Rightarrow> 'j directory \<Rightarrow> (int32 \<times> ConfigDeclaration) list \<Rightarrow> (bool \<times> (int32 \<times> ConfigDeclaration) list) option" where
  "loadPropConfigsFromDir L dir configs =
     (case dir of None \<Rightarrow> Some (False, configs) | Some files \<Rightarrow> map_option (Pair True) (load_files L files configs))"

definition loadConfigDeclarations :: "'j loader \<Rightarrow> 'j directory \<Rightarrow> 'j directory \<Rightarrow> bool \<Rightarrow> (int32 \<times> ConfigDeclaration) list option" where
  "loadConfigDeclarations L defaultConfigDir overrideConfigDir UseOverrideConfigDir = do {
     (defaultConfigLoaded, configs) \<leftarrow> loadPropConfigsFromDir L defaultConfigDir [];
     if \<not> defaultConfigLoaded then None
     else if UseOverrideConfigDir then map_option snd (loadPropConfigsFromDir L overrideConfigDir configs)
     else Some configs
   }"

section \<open>Initial values\<close>

definition initial_value_for :: "ConfigDeclaration \<Rightarrow> int32 \<Rightarrow> RawPropValues option" where
  "initial_value_for config curArea =
     (if cd_initialAreaValues config = []
      then (if raw_eq (cd_initialValue config) empty_raw then None else Some (cd_initialValue config))
      else map_of (cd_initialAreaValues config) curArea)"

fun store_areas :: "ConfigDeclaration \<Rightarrow> int32 list \<Rightarrow> FakeVehicleHardware \<Rightarrow> FakeVehicleHardware" where
  "store_areas config [] h = h"
| "store_areas config (curArea # areas) h =
     (let (now, h1) = elapsedRealtimeNano h
      in store_areas config areas
           (case initial_value_for config curArea of
              None \<Rightarrow> h1
            | Some value \<Rightarrow>
                let prop = empty_prop_value\<lparr>pv_timestamp := now, pv_areaId := curArea, pv_prop := pc_prop (cd_config config), pv_value := value\<rparr>;
                    (r, h2) = hw_pool (obtain_copy prop) h1
                in snd (hw_write r True ON_VALUE_CHANGE False h2)))"

definition storePropInitialValue :: "ConfigDeclaration \<Rightarrow> FakeVehicleHardware \<Rightarrow> FakeVehicleHardware" where
  "storePropInitialValue config h =
     (let propId = pc_prop (cd_config config);
          areas = (if isGlobalProp propId then [0] else map ac_areaId (areaConfigs (cd_config config)));
          h1 = (if propId = HVAC_POWER_ON
                then h\<lparr>hvacPowerDependentProps := fold List.insert (configArray (cd_config config)) (hvacPowerDependentProps h)\<rparr> else h)
      in store_areas config areas h1)"

section \<open>Supported values\<close>

definition setMinSupportedValueLocked :: "int32 \<Rightarrow> int32 \<Rightarrow> RawPropValues \<Rightarrow> FakeVehicleHardware \<Rightarrow> FakeVehicleHardware" where
  "setMinSupportedValueLocked propId areaId minValue h =
     h\<lparr>mMinSupportedValueByPropIdAreaId := AList.update \<lparr>pa_propId = propId, pa_areaId = areaId\<rparr> minValue (mMinSupportedValueByPropIdAreaId h)\<rparr>"

definition setMaxSupportedValueLocked :: "int32 \<Rightarrow> int32 \<Rightarrow> RawPropValues \<Rightarrow> FakeVehicleHardware \<Rightarrow> FakeVehicleHardware" where
  "setMaxSupportedValueLocked propId areaId maxValue h =
     h\<lparr>mMaxSupportedValueByPropIdAreaId := AList.update \<lparr>pa_propId = propId, pa_areaId = areaId\<rparr> maxValue (mMaxSupportedValueByPropIdAreaId h)\<rparr>"

text \<open>The value of the member for the type of the property.\<close>

definition createRawPropValues :: "VehiclePropertyType \<Rightarrow> int32 \<Rightarrow> int64 \<Rightarrow> f32 \<Rightarrow> RawPropValues option" where
  "createRawPropValues type i l f =
     (case type of
        INT32 \<Rightarrow> Some (empty_raw\<lparr>int32Values := [i]\<rparr>)
      | INT64 \<Rightarrow> Some (empty_raw\<lparr>int64Values := [l]\<rparr>)
      | FLOAT \<Rightarrow> Some (empty_raw\<lparr>floatValues := [f]\<rparr>)
      | _ \<Rightarrow> None)"

fun list_values :: "VehiclePropertyType \<Rightarrow> f32 list \<Rightarrow> RawPropValues list option" where
  "list_values type [] = Some []"
| "list_values type (x # xs) = do {
     v \<leftarrow> (case type of
             INT32 \<Rightarrow> map_option (\<lambda>n. [empty_raw\<lparr>int32Values := [n]\<rparr>]) (f32_to_int32 x)
           | INT64 \<Rightarrow> map_option (\<lambda>n. [empty_raw\<lparr>int64Values := [n]\<rparr>]) (f32_to_int64 x)
           | FLOAT \<Rightarrow> Some [empty_raw\<lparr>floatValues := [x]\<rparr>]
           | _ \<Rightarrow> Some []);
     vs \<leftarrow> list_values type xs;
     Some (v @ vs)
   }"

definition enum_values :: "VehiclePropertyType \<Rightarrow> int64 list option \<Rightarrow> RawPropValues list" where
  "enum_values type enumValues =
     (case (type, enumValues) of
        (INT32, Some ns) \<Rightarrow> map (\<lambda>n. empty_raw\<lparr>int32Values := [ucast n]\<rparr>) ns
      | (INT64, Some ns) \<Rightarrow> map (\<lambda>n. empty_raw\<lparr>int64Values := [n]\<rparr>) ns
      | _ \<Rightarrow> [])"

definition supported_list :: "ConfigDeclaration \<Rightarrow> VehicleAreaConfig \<Rightarrow> RawPropValues list option" where
  "supported_list config areaConfig =
     (let type = getPropType (pc_prop (cd_config config))
      in case map_of (cd_supportedValuesForAreaId config) (ac_areaId areaConfig) of
           Some xs \<Rightarrow> list_values type xs
         | None \<Rightarrow> Some (enum_values type (supportedEnumValues areaConfig)))"

definition init_supported :: "ConfigDeclaration \<Rightarrow> VehicleAreaConfig \<Rightarrow> FakeVehicleHardware \<Rightarrow> FakeVehicleHardware option" where
  "init_supported config areaConfig h =
     (let p = pc_prop (cd_config config); a = ac_areaId areaConfig;
          mn = createRawPropValues (getPropType p) (minInt32Value areaConfig) (minInt64Value areaConfig) (minFloatValue areaConfig);
          mx = createRawPropValues (getPropType p) (maxInt32Value areaConfig) (maxInt64Value areaConfig) (maxFloatValue areaConfig)
      in case ac_hasSupportedValueInfo areaConfig of
           None \<Rightarrow> Some h
         | Some info \<Rightarrow>
             if hasMinSupportedValue info \<and> mn = None then Some h
             else
               let h1 = (if hasMinSupportedValue info then setMinSupportedValueLocked p a (the mn) h else h)
               in if hasMaxSupportedValue info \<and> mx = None then Some h1
                  else
                    let h2 = (if hasMaxSupportedValue info then setMaxSupportedValueLocked p a (the mx) h1 else h1)
                    in if \<not> hasSupportedValuesList info then Some h2
                       else map_option (\<lambda>vs.
                              if vs = [] then h2
                              else h2\<lparr>mSupportedValuesByPropIdAreaId :=
                                     AList.update \<lparr>pa_propId = p, pa_areaId = a\<rparr> vs (mSupportedValuesByPropIdAreaId h2)\<rparr>)
                            (supported_list config areaConfig))"

fun init_areas :: "ConfigDeclaration \<Rightarrow> VehicleAreaConfig list \<Rightarrow> FakeVehicleHardware \<Rightarrow> FakeVehicleHardware option" where
  "init_areas config [] h = Some h"
| "init_areas config (areaConfig # areas) h = Option.bind (init_supported config areaConfig h) (init_areas config areas)"

definition fake_getMinMaxSupportedValues :: "PropIdAreaId list \<Rightarrow> FakeVehicleHardware \<Rightarrow> MinMaxSupportedValueResult list" where
  "fake_getMinMaxSupportedValues propIdAreaIds h =
     map (\<lambda>k. let mn = map_of (mMinSupportedValueByPropIdAreaId h) k; mx = map_of (mMaxSupportedValueByPropIdAreaId h) k
              in if mn = None \<and> mx = None then \<lparr>mm_status = INVALID_ARG, minSupportedValue = None, maxSupportedValue = None\<rparr>
                 else \<lparr>mm_status = OK, minSupportedValue = mn, maxSupportedValue = mx\<rparr>) propIdAreaIds"

definition fake_getSupportedValuesLists :: "PropIdAreaId list \<Rightarrow> FakeVehicleHardware \<Rightarrow> SupportedValuesListResult list" where
  "fake_getSupportedValuesLists propIdAreaIds h =
     map (\<lambda>k. case map_of (mSupportedValuesByPropIdAreaId h) k of
                None \<Rightarrow> \<lparr>sl_status = INVALID_ARG, supportedValuesList = None\<rparr>
              | Some vs \<Rightarrow> \<lparr>sl_status = OK, supportedValuesList = Some (map Some vs)\<rparr>) propIdAreaIds"

section \<open>The start\<close>

definition start_config :: "int32 \<Rightarrow> VehiclePropConfig \<Rightarrow> VehiclePropConfig option" where
  "start_config s2rS2dConfig cfg =
     (if pc_prop cfg = AP_POWER_STATE_REQ
      then (if configArray cfg = [] then None else Some (cfg\<lparr>configArray := (configArray cfg)[0 := s2rS2dConfig]\<rparr>))
      else Some cfg)"

definition token_function :: "int32 \<Rightarrow> (VehiclePropValue \<Rightarrow> int64) option" where
  "token_function p = (if p = OBD2_FREEZE_FRAME then Some pv_timestamp else None)"

definition init_property :: "int32 \<Rightarrow> ConfigDeclaration \<Rightarrow> FakeVehicleHardware \<Rightarrow> FakeVehicleHardware option" where
  "init_property s2rS2dConfig config h = do {
     cfg \<leftarrow> start_config s2rS2dConfig (cd_config config);
     let h1 = h\<lparr>mServerSidePropStore := registerProperty cfg (token_function (pc_prop cfg)) (mServerSidePropStore h)\<rparr>;
     if isDiagnosticProperty cfg then Some h1
     else init_areas config (areaConfigs cfg) (storePropInitialValue config h1)
   }"

fun init_properties :: "int32 \<Rightarrow> ConfigDeclaration list \<Rightarrow> FakeVehicleHardware \<Rightarrow> FakeVehicleHardware option" where
  "init_properties s2rS2dConfig [] h = Some h"
| "init_properties s2rS2dConfig (config # configs) h = Option.bind (init_property s2rS2dConfig config h) (init_properties s2rS2dConfig configs)"

text \<open>The frames are written before the callback of the store is set.\<close>

definition init_frame ::
  "int32 \<Rightarrow> (VehiclePropConfig \<Rightarrow> VehiclePropertyStore \<Rightarrow> (callback_call list \<times> VehiclePropertyStore) option) \<Rightarrow> nat \<Rightarrow>
     FakeVehicleHardware \<Rightarrow> FakeVehicleHardware option" where
  "init_frame p initFrame n h =
     (case getPropConfig p (mServerSidePropStore h) of
        Inl _ \<Rightarrow> Some h
      | Inr config \<Rightarrow> do {
          (calls, s) \<leftarrow> initFrame config (mServerSidePropStore h);
          Some (fold store_callback calls (h\<lparr>mServerSidePropStore := s, ticks := ticks h + n\<rparr>))
        })"

definition fake_init :: "int32 \<Rightarrow> (int32 \<times> ConfigDeclaration) list \<Rightarrow> FakeVehicleHardware \<Rightarrow> FakeVehicleHardware option" where
  "fake_init s2rS2dConfig configs h = do {
     h1 \<leftarrow> init_properties s2rS2dConfig (map snd configs) h;
     h2 \<leftarrow> init_frame OBD2_LIVE_FRAME (initObd2LiveFrame (clock h1 (ticks h1))) 1 h1;
     h3 \<leftarrow> init_frame OBD2_FREEZE_FRAME
       (initObd2FreezeFrame (clock h2 (ticks h2)) (clock h2 (ticks h2 + 1)) (clock h2 (ticks h2 + 2))) 3 h2;
     Some (h3\<lparr>mServerSidePropStore := setOnValuesChangeCallback True (mServerSidePropStore h3)\<rparr>)
   }"

text \<open>The members before \<^verbatim>\<open>init\<close> runs: a store over a new pool (whose counter is not initialised), the address read from a file, and nothing
  registered.\<close>

definition newFakeVehicleHardware :: "size_t \<Rightarrow> string \<Rightarrow> int64 \<Rightarrow> (nat \<Rightarrow> int64) \<Rightarrow> FakeVehicleHardware" where
  "newFakeVehicleHardware garbage address up c = \<lparr>
     mServerSidePropStore = \<lparr>mValuePool = mkValuePool 4 10240 garbage, mRecordsByPropId = [], mOnValueChangeCallback = False, mOnValuesChangeCallback = False\<rparr>,
     mFakeUserHal = newFakeUserHal, mRecurrentTimer = \<lparr>tm = newRecurrentTimer, messages = [], in_flight = None, uptime = up\<rparr>,
     mOnPropertyChangeCallback = False, mOnPropertySetErrorCallback = False, mOnSupportedValueChangeCallback = False,
     mRefreshInfoByPropIdAreaId = [], mActionByIntervalInNanos = [], mSubOnChangePropIdAreaIds = [],
     mMinSupportedValueByPropIdAreaId = [], mMaxSupportedValueByPropIdAreaId = [], mSupportedValuesByPropIdAreaId = [],
     hvacPowerDependentProps = [], mPowerControllerServiceAddress = address, mAddExtraTestVendorConfigs = False,
     next_action = 0, clock = c, ticks = 0, emitted = []\<rparr>"

definition startFakeVehicleHardware ::
  "'j loader \<Rightarrow> 'j directory \<Rightarrow> 'j directory \<Rightarrow> bool \<Rightarrow> int32 \<Rightarrow> FakeVehicleHardware \<Rightarrow> FakeVehicleHardware option" where
  "startFakeVehicleHardware L defaultConfigDir overrideConfigDir UseOverrideConfigDir s2rS2dConfig h =
     Option.bind (loadConfigDeclarations L defaultConfigDir overrideConfigDir UseOverrideConfigDir) (\<lambda>configs. fake_init s2rS2dConfig configs h)"

text \<open>An event of the generators.\<close>

definition eventFromVehicleBus :: "VehiclePropValue \<Rightarrow> FakeVehicleHardware \<Rightarrow> FakeVehicleHardware" where
  "eventFromVehicleBus value h = (let (r, h1) = hw_pool (obtain_copy value) h in snd (hw_write r False ON_VALUE_CHANGE False h1))"

end
