(* ===== verification/FakeDump.thy ===== *)
theory FakeDump
  imports FakeStart
begin

text \<open>
  The text commands of the fake hardware (\<^verbatim>\<open>dump\<close> in \<^verbatim>\<open>FakeVehicleHardware.cpp\<close>) that read or change its state: the parser of their options and
  the commands to set, get, save and restore properties, to inject events and to set supported values. The answer of a command is whether it succeeded and
  the value it shows; the texts are not modelled. The generated enumerations and the conversion of a text to \<^verbatim>\<open>float\<close> are arguments.
\<close>

section \<open>Words of a command\<close>

definition EqualsIgnoreCase :: "string \<Rightarrow> string \<Rightarrow> bool" where
  "EqualsIgnoreCase a b \<longleftrightarrow> map lower a = map lower b"

definition is_space :: "char \<Rightarrow> bool" where
  "is_space c \<longleftrightarrow> (of_char c :: nat) = 32 \<or> 9 \<le> (of_char c :: nat) \<and> (of_char c :: nat) \<le> 13"

definition is_digit :: "char \<Rightarrow> bool" where
  "is_digit c \<longleftrightarrow> 48 \<le> (of_char c :: nat) \<and> (of_char c :: nat) \<le> 57"

definition digits_value :: "string \<Rightarrow> int" where
  "digits_value ds = foldl (\<lambda>n c. n * 10 + (of_char c - 48)) 0 ds"

text \<open>A number in base ten as \<^verbatim>\<open>strtoll\<close> reads it, up to the end of the text, and within the bounds of the type.\<close>

definition ParseInt :: "int \<Rightarrow> int \<Rightarrow> string \<Rightarrow> int option" where
  "ParseInt mn mx s =
     (let t = dropWhile is_space (takeWhile (\<lambda>c. (of_char c :: nat) \<noteq> 0) s);
          neg = (t \<noteq> [] \<and> hd t = CHR ''-'');
          ds = (if t \<noteq> [] \<and> (hd t = CHR ''-'' \<or> hd t = CHR ''+'') then tl t else t);
          val = (if neg then - digits_value ds else digits_value ds)
      in if ds = [] \<or> \<not> list_all is_digit ds then None
         else if val < - (2 ^ 63) \<or> 2 ^ 63 \<le> val then None
         else if val < mn \<or> mx < val then None
         else Some val)"

definition safelyParseInt32 :: "string \<Rightarrow> int32 option" where
  "safelyParseInt32 s = map_option word_of_int (ParseInt (- (2 ^ 31)) (2 ^ 31 - 1) s)"

definition safelyParseInt64 :: "string \<Rightarrow> int64 option" where
  "safelyParseInt64 s = map_option word_of_int (ParseInt (- (2 ^ 63)) (2 ^ 63 - 1) s)"

definition hex_digit :: "char \<Rightarrow> byte option" where
  "hex_digit c =
     (let n = (of_char c :: nat)
      in if 48 \<le> n \<and> n \<le> 57 then Some (of_nat (n - 48)) else if 97 \<le> n \<and> n \<le> 102 then Some (of_nat (n - 97 + 10)) else None)"

text \<open>The loop over the digits, two for each byte.\<close>

fun hex_bytes :: "string \<Rightarrow> bool \<Rightarrow> byte list \<Rightarrow> byte list option" where
  "hex_bytes [] highDigit bytes = Some bytes"
| "hex_bytes (c # cs) highDigit bytes =
     (case hex_digit c of
        None \<Rightarrow> None
      | Some v \<Rightarrow> hex_bytes cs (\<not> highDigit) (if highDigit then bytes @ [v * 16] else bytes[length bytes - 1 := last bytes + v]))"

definition parseHexString :: "string \<Rightarrow> byte list option" where
  "parseHexString s =
     (if length s mod 2 \<noteq> 0 then None
      else if take 2 s \<noteq> ''0x'' then None
      else hex_bytes (map lower (drop 2 s)) True [])"

section \<open>Names\<close>

record dump_env =
  de_enums :: "string \<Rightarrow> (string \<times> int32) list"
  de_ParseFloat :: "string \<Rightarrow> f32 option"

definition stringToPropId :: "dump_env \<Rightarrow> string \<Rightarrow> int32 option" where
  "stringToPropId env propName = map_of (de_enums env ''VehicleProperty'') propName"

definition area_enum :: "int32 \<Rightarrow> string option" where
  "area_enum areaType =
     (if areaType = 0x03000000 then Some ''VehicleAreaWindow''
      else if areaType = 0x04000000 then Some ''VehicleAreaMirror''
      else if areaType = 0x05000000 then Some ''VehicleAreaSeat''
      else if areaType = 0x06000000 then Some ''VehicleAreaDoor''
      else if areaType = 0x07000000 then Some ''VehicleAreaWheel''
      else None)"

definition stringToArea :: "dump_env \<Rightarrow> string \<Rightarrow> int32 \<Rightarrow> int32 option" where
  "stringToArea env areaName propId =
     (case area_enum (getPropArea propId) of None \<Rightarrow> None | Some enum \<Rightarrow> map_of (de_enums env enum) areaName)"

definition parsePropId :: "dump_env \<Rightarrow> string \<Rightarrow> int32 option" where
  "parsePropId env propIdStr =
     (case stringToPropId env propIdStr of Some p \<Rightarrow> Some p | None \<Rightarrow> safelyParseInt32 propIdStr)"

definition is_word_char :: "char \<Rightarrow> bool" where
  "is_word_char c \<longleftrightarrow> is_digit c \<or> c = CHR ''_'' \<or> 65 \<le> (of_char c :: nat) \<and> (of_char c :: nat) \<le> 90 \<or> 97 \<le> (of_char c :: nat) \<and> (of_char c :: nat) \<le> 122"

text \<open>Words separated by a bar with at most one blank on each side, or \<open>None\<close> if the text has another form. The number of separators is bounded by the
  length of the text.\<close>

definition skip_blank :: "string \<Rightarrow> string" where
  "skip_blank s = (if s \<noteq> [] \<and> hd s = CHR '' '' then tl s else s)"

fun area_words :: "nat \<Rightarrow> string \<Rightarrow> string list option" where
  "area_words 0 s = None"
| "area_words (Suc n) s =
     (let w = takeWhile is_word_char s; rest = dropWhile is_word_char s
      in if w = [] then None
         else if rest = [] then Some [w]
         else let bar = skip_blank rest
              in if bar \<noteq> [] \<and> hd bar = CHR ''|'' then map_option (Cons w) (area_words n (skip_blank (tl bar))) else None)"

definition parseAreaId :: "dump_env \<Rightarrow> string \<Rightarrow> int32 \<Rightarrow> int32 option" where
  "parseAreaId env areaIdStr propId =
     (case safelyParseInt32 areaIdStr of
        Some a \<Rightarrow> Some a
      | None \<Rightarrow>
          (case area_words (Suc (length areaIdStr)) areaIdStr of
             None \<Rightarrow> None
           | Some names \<Rightarrow> map_option (\<lambda>areas. fold (\<lambda>a areaId. areaId OR a) areas 0) (those (map (\<lambda>w. stringToArea env w propId) names))))"

section \<open>Options of a property\<close>

definition SET_PROP_OPTIONS :: "string list" where
  "SET_PROP_OPTIONS = [''-i'', ''-i64'', ''-f'', ''-s'', ''-b'', ''-a'', ''-t'']"

datatype dump_error =
    TooFewArguments | InvalidPropId | DuplicateOption string | NoValues string | ExpectOneValue string | InvalidValue string | UnknownOption string
  | InvalidAreaId | NotSupported | MinAboveMax | OnlyNumbers | Failed int32 | NothingSaved | WrongCount | NoEvents | NotFound | NoPointer | UnknownCommand string

text \<open>The effect of one option on the value; the text of an area is only noted, as it depends on the property.\<close>

definition apply_option ::
  "dump_env \<Rightarrow> string \<Rightarrow> string list \<Rightarrow> VehiclePropValue \<times> string option \<Rightarrow> dump_error + (VehiclePropValue \<times> string option)" where
  "apply_option env argType argValues st =
     (case st of (prop, area) \<Rightarrow>
        let raw = pv_value prop;
            set_raw = (\<lambda>r. case r of None \<Rightarrow> Inl (InvalidValue argType) | Some raw' \<Rightarrow> Inr (prop\<lparr>pv_value := raw'\<rparr>, area))
        in if EqualsIgnoreCase argType ''-i''
           then (if argValues = [] then Inl (NoValues argType)
                 else set_raw (map_option (\<lambda>xs. raw\<lparr>int32Values := xs\<rparr>) (those (map safelyParseInt32 argValues))))
           else if EqualsIgnoreCase argType ''-i64''
           then (if argValues = [] then Inl (NoValues argType)
                 else set_raw (map_option (\<lambda>xs. raw\<lparr>int64Values := xs\<rparr>) (those (map safelyParseInt64 argValues))))
           else if EqualsIgnoreCase argType ''-f''
           then (if argValues = [] then Inl (NoValues argType)
                 else set_raw (map_option (\<lambda>xs. raw\<lparr>floatValues := xs\<rparr>) (those (map (de_ParseFloat env) argValues))))
           else if EqualsIgnoreCase argType ''-s''
           then (if length argValues \<noteq> 1 then Inl (ExpectOneValue argType) else set_raw (Some (raw\<lparr>stringValue := hd argValues\<rparr>)))
           else if EqualsIgnoreCase argType ''-b''
           then (if length argValues \<noteq> 1 then Inl (ExpectOneValue argType)
                 else set_raw (map_option (\<lambda>bs. raw\<lparr>byteValues := bs\<rparr>) (parseHexString (hd argValues))))
           else if EqualsIgnoreCase argType ''-a''
           then (if length argValues \<noteq> 1 then Inl (ExpectOneValue argType) else Inr (prop, Some (hd argValues)))
           else if EqualsIgnoreCase argType ''-t''
           then (if length argValues \<noteq> 1 then Inl (ExpectOneValue argType)
                 else case safelyParseInt64 (hd argValues) of
                        None \<Rightarrow> Inl (InvalidValue argType)
                      | Some t \<Rightarrow> Inr (prop\<lparr>pv_timestamp := t\<rparr>, area))
           else Inl (UnknownOption argType))"

definition getOptionValues :: "string list \<Rightarrow> string list \<times> string list" where
  "getOptionValues options = (takeWhile (\<lambda>s. s \<notin> set SET_PROP_OPTIONS) options, dropWhile (\<lambda>s. s \<notin> set SET_PROP_OPTIONS) options)"

function parse_option_list ::
  "dump_env \<Rightarrow> string list \<Rightarrow> string list \<Rightarrow> VehiclePropValue \<times> string option \<Rightarrow> dump_error + (VehiclePropValue \<times> string option)" where
  "parse_option_list env [] parsedOptions st = Inr st"
| "parse_option_list env (argType # options) parsedOptions st =
     (case getOptionValues options of (argValues, rest) \<Rightarrow>
        if argType \<in> set parsedOptions then Inl (DuplicateOption argType)
        else case apply_option env argType argValues st of
               Inl e \<Rightarrow> Inl e
             | Inr st' \<Rightarrow> parse_option_list env rest (argType # parsedOptions) st')"
  by pat_completeness auto
termination
  by (relation "measure (\<lambda>(_, options, _). length options)") (auto simp: getOptionValues_def le_imp_less_Suc length_dropWhile_le)

text \<open>The options of a command after its name; the property comes first.\<close>

definition parsePropOptions :: "dump_env \<Rightarrow> string list \<Rightarrow> dump_error + VehiclePropValue" where
  "parsePropOptions env options =
     (case parsePropId env (options ! 1) of
        None \<Rightarrow> Inl InvalidPropId
      | Some p \<Rightarrow>
          (case parse_option_list env (drop 2 options) [] (empty_prop_value\<lparr>pv_prop := p, pv_status := AVAILABLE\<rparr>, None) of
             Inl e \<Rightarrow> Inl e
           | Inr (prop, None) \<Rightarrow> Inr prop
           | Inr (prop, Some areaStr) \<Rightarrow>
               (case parseAreaId env areaStr (pv_prop prop) of None \<Rightarrow> Inl InvalidAreaId | Some a \<Rightarrow> Inr (prop\<lparr>pv_areaId := a\<rparr>))))"

section \<open>Commands on properties\<close>

text \<open>The saved values are a part of the hardware of their own. \<open>None\<close> is a command whose access to a value is undefined.\<close>

type_synonym saved_props = "(PropIdAreaId \<times> recyclable) list"

definition checkArgumentsSize :: "string list \<Rightarrow> nat \<Rightarrow> bool" where
  "checkArgumentsSize options minSize \<longleftrightarrow> minSize \<le> length options"

definition dumpSetProperties :: "dump_env \<Rightarrow> string list \<Rightarrow> FakeVehicleHardware \<Rightarrow> ((dump_error + unit) \<times> FakeVehicleHardware) option" where
  "dumpSetProperties env options h =
     (if \<not> checkArgumentsSize options 3 then Some (Inl TooFewArguments, h)
      else case parsePropOptions env options of
             Inl e \<Rightarrow> Some (Inl e, h)
           | Inr prop \<Rightarrow> do {
               (special, h1) \<leftarrow> maybeSetSpecialValue prop h;
               (case special of
                  Some r \<Rightarrow> Some (map_sum Failed id r, h1)
                | None \<Rightarrow>
                    let (r, h2) = hw_pool (obtain_copy prop) h1; (now, h3) = elapsedRealtimeNano h2;
                        (res, h4) = hw_write (r\<lparr>r_value := (r_value r)\<lparr>pv_timestamp := now\<rparr>\<rparr>) False ON_VALUE_CHANGE False h3
                    in Some (map_sum Failed id (coded res), h4))
             })"

text \<open>A value as a special one or from the store; what is shown of it.\<close>

definition read_shown :: "power_service \<Rightarrow> VehiclePropValue \<Rightarrow> FakeVehicleHardware \<Rightarrow> ((int32 + VehiclePropValue) \<times> FakeVehicleHardware) option" where
  "read_shown service v h = do {
     (special, h1) \<leftarrow> maybeGetSpecialValue service v h;
     let (result, h2) = (case special of Some r \<Rightarrow> (r, h1) | None \<Rightarrow> (let (r, h') = hw_store (readValue v) h1 in (coded r, h')));
     Some (case result of Inl code \<Rightarrow> (Inl code, h2) | Inr r \<Rightarrow> (Inr (r_value r), hw_drop [r] h2))
   }"

definition dumpGetPropertyWithArg ::
  "power_service \<Rightarrow> dump_env \<Rightarrow> string list \<Rightarrow> FakeVehicleHardware \<Rightarrow> ((dump_error + VehiclePropValue) \<times> FakeVehicleHardware) option" where
  "dumpGetPropertyWithArg service env options h =
     (if \<not> checkArgumentsSize options 3 then Some (Inl TooFewArguments, h)
      else case parsePropOptions env options of
             Inl e \<Rightarrow> Some (Inl e, h)
           | Inr prop \<Rightarrow> map_option (\<lambda>(result, h'). (map_sum Failed id result, h')) (read_shown service prop h))"

definition dumpSaveProperty ::
  "dump_env \<Rightarrow> string list \<Rightarrow> saved_props \<Rightarrow> FakeVehicleHardware \<Rightarrow> (dump_error + unit) \<times> saved_props \<times> FakeVehicleHardware" where
  "dumpSaveProperty env options saved h =
     (if \<not> checkArgumentsSize options 2 then (Inl TooFewArguments, saved, h)
      else case parsePropOptions env options of
             Inl e \<Rightarrow> (Inl e, saved, h)
           | Inr value \<Rightarrow>
               let k = \<lparr>pa_propId = pv_prop value, pa_areaId = pv_areaId value\<rparr>; (readResult, h1) = hw_store (readValue value) h
               in case readResult of
                    Inl e \<Rightarrow> (Inl (Failed (StatusCode_toInt e)), saved, h1)
                  | Inr r \<Rightarrow> (Inr (), AList.update k r saved, hw_drop (case map_of saved k of None \<Rightarrow> [] | Some old \<Rightarrow> [old]) h1))"

definition dumpRestoreProperty ::
  "dump_env \<Rightarrow> string list \<Rightarrow> saved_props \<Rightarrow> FakeVehicleHardware \<Rightarrow> (dump_error + unit) \<times> saved_props \<times> FakeVehicleHardware" where
  "dumpRestoreProperty env options saved h =
     (if \<not> checkArgumentsSize options 2 then (Inl TooFewArguments, saved, h)
      else case parsePropOptions env options of
             Inl e \<Rightarrow> (Inl e, saved, h)
           | Inr value \<Rightarrow>
               let k = \<lparr>pa_propId = pv_prop value, pa_areaId = pv_areaId value\<rparr>
               in case map_of saved k of
                    None \<Rightarrow> (Inl NothingSaved, saved, h)
                  | Some r \<Rightarrow>
                      let (now, h1) = elapsedRealtimeNano h;
                          (res, h2) = hw_write (r\<lparr>r_value := (r_value r)\<lparr>pv_timestamp := now\<rparr>\<rparr>) False ON_VALUE_CHANGE False h1
                      in (map_sum (Failed \<circ> StatusCode_toInt) id res, AList.delete k saved, h2))"

definition dumpInjectEvent :: "dump_env \<Rightarrow> string list \<Rightarrow> FakeVehicleHardware \<Rightarrow> (dump_error + unit) \<times> FakeVehicleHardware" where
  "dumpInjectEvent env options h =
     (if \<not> checkArgumentsSize options 3 then (Inl TooFewArguments, h)
      else case parsePropOptions env options of Inl e \<Rightarrow> (Inl e, h) | Inr prop \<Rightarrow> (Inr (), eventFromVehicleBus prop h))"

section \<open>Commands on supported values\<close>

text \<open>The property and area of a command and the position after them.\<close>

definition parseDumpOptionPropIdAreaId :: "dump_env \<Rightarrow> string list \<Rightarrow> FakeVehicleHardware \<Rightarrow> dump_error + (int32 \<times> int32 \<times> nat)" where
  "parseDumpOptionPropIdAreaId env options h =
     (case parsePropId env (options ! 1) of
        None \<Rightarrow> Inl InvalidPropId
      | Some propId \<Rightarrow>
          (case getPropConfig propId (mServerSidePropStore h) of
             Inl _ \<Rightarrow> Inl NotSupported
           | Inr _ \<Rightarrow>
               if EqualsIgnoreCase (options ! 2) ''-a''
               then (if length options \<le> 3 then Inl TooFewArguments
                     else case parseAreaId env (options ! 3) propId of
                            None \<Rightarrow> Inl InvalidAreaId
                          | Some areaId \<Rightarrow> Inr (propId, areaId, 4))
               else Inr (propId, 0, 2)))"

definition parseOptionValues :: "(string \<Rightarrow> 'a option) \<Rightarrow> string list \<Rightarrow> nat \<Rightarrow> nat \<Rightarrow> dump_error + 'a list" where
  "parseOptionValues parse options index n =
     (if length options < index + n then Inl TooFewArguments
      else case those (map parse (take n (drop index options))) of None \<Rightarrow> Inl (InvalidValue []) | Some vs \<Rightarrow> Inr vs)"

definition parseAndSetMinMaxValue ::
  "(string \<Rightarrow> 'a option) \<Rightarrow> ('a \<Rightarrow> 'a \<Rightarrow> bool) \<Rightarrow> ('a \<Rightarrow> RawPropValues) \<Rightarrow> int32 \<Rightarrow> int32 \<Rightarrow> string list \<Rightarrow> nat \<Rightarrow>
     FakeVehicleHardware \<Rightarrow> (dump_error + unit) \<times> FakeVehicleHardware" where
  "parseAndSetMinMaxValue parse exceeds create propId areaId options index h =
     (case parseOptionValues parse options index 2 of
        Inl e \<Rightarrow> (Inl e, h)
      | Inr vs \<Rightarrow>
          if exceeds (vs ! 0) (vs ! 1) then (Inl MinAboveMax, h)
          else (Inr (), setMaxSupportedValueLocked propId areaId (create (vs ! 1)) (setMinSupportedValueLocked propId areaId (create (vs ! 0)) h)))"

definition triggerSupportedValueChange :: "int32 \<Rightarrow> int32 \<Rightarrow> FakeVehicleHardware \<Rightarrow> PropIdAreaId list" where
  "triggerSupportedValueChange propId areaId h =
     (if mOnSupportedValueChangeCallback h then [\<lparr>pa_propId = propId, pa_areaId = areaId\<rparr>] else [])"

text \<open>The answer, the areas whose change is announced, and the new state.\<close>

definition dumpSetMinMaxValue ::
  "dump_env \<Rightarrow> string list \<Rightarrow> FakeVehicleHardware \<Rightarrow> (dump_error + unit) \<times> PropIdAreaId list \<times> FakeVehicleHardware" where
  "dumpSetMinMaxValue env options h =
     (if \<not> checkArgumentsSize options 4 then (Inl TooFewArguments, [], h)
      else case parseDumpOptionPropIdAreaId env options h of
             Inl e \<Rightarrow> (Inl e, [], h)
           | Inr (propId, areaId, index) \<Rightarrow>
               let (result, h') =
                     (case getPropType propId of
                        INT32 \<Rightarrow> parseAndSetMinMaxValue safelyParseInt32 (\<lambda>x y. sint y < sint x) (\<lambda>x. empty_raw\<lparr>int32Values := [x]\<rparr>) propId areaId options index h
                      | INT64 \<Rightarrow> parseAndSetMinMaxValue safelyParseInt64 (\<lambda>x y. sint y < sint x) (\<lambda>x. empty_raw\<lparr>int64Values := [x]\<rparr>) propId areaId options index h
                      | FLOAT \<Rightarrow> parseAndSetMinMaxValue (de_ParseFloat env) (\<lambda>x y. f32_lt y x) (\<lambda>x. empty_raw\<lparr>floatValues := [x]\<rparr>) propId areaId options index h
                      | _ \<Rightarrow> (Inl OnlyNumbers, h))
               in case result of Inl e \<Rightarrow> (Inl e, [], h') | Inr _ \<Rightarrow> (Inr (), triggerSupportedValueChange propId areaId h', h'))"

definition parseOptionsToSupportedValuesList :: "(string \<Rightarrow> 'a option) \<Rightarrow> ('a \<Rightarrow> RawPropValues) \<Rightarrow> string list \<Rightarrow> nat \<Rightarrow> dump_error + RawPropValues list" where
  "parseOptionsToSupportedValuesList parse create options index =
     (case parseOptionValues parse options index (length options - index) of
        Inl e \<Rightarrow> Inl e
      | Inr vs \<Rightarrow> if vs = [] then Inl TooFewArguments else Inr (map create vs))"

definition dumpSetSupportedValues ::
  "dump_env \<Rightarrow> string list \<Rightarrow> FakeVehicleHardware \<Rightarrow> (dump_error + unit) \<times> PropIdAreaId list \<times> FakeVehicleHardware" where
  "dumpSetSupportedValues env options h =
     (if \<not> checkArgumentsSize options 3 then (Inl TooFewArguments, [], h)
      else case parseDumpOptionPropIdAreaId env options h of
             Inl e \<Rightarrow> (Inl e, [], h)
           | Inr (propId, areaId, index) \<Rightarrow>
               let maybeSupportedValues =
                     (case getPropType propId of
                        INT32 \<Rightarrow> parseOptionsToSupportedValuesList safelyParseInt32 (\<lambda>x. empty_raw\<lparr>int32Values := [x]\<rparr>) options index
                      | INT64 \<Rightarrow> parseOptionsToSupportedValuesList safelyParseInt64 (\<lambda>x. empty_raw\<lparr>int64Values := [x]\<rparr>) options index
                      | FLOAT \<Rightarrow> parseOptionsToSupportedValuesList (de_ParseFloat env) (\<lambda>x. empty_raw\<lparr>floatValues := [x]\<rparr>) options index
                      | _ \<Rightarrow> Inl OnlyNumbers)
               in case maybeSupportedValues of
                    Inl e \<Rightarrow> (Inl e, [], h)
                  | Inr vs \<Rightarrow>
                      let h' = h\<lparr>mSupportedValuesByPropIdAreaId := AList.update \<lparr>pa_propId = propId, pa_areaId = areaId\<rparr> vs (mSupportedValuesByPropIdAreaId h)\<rparr>
                      in (Inr (), triggerSupportedValueChange propId areaId h', h'))"

end
