(* ===== verification/FakeStartProofs.thy ===== *)
theory FakeStartProofs
  imports FakeStart JsonConfigProofs
begin

text \<open>
  After the start the fake hardware serves its configuration files: what writing the initial values, registering the properties and making the
  frames does to the store, and the declarations that are loaded.
\<close>

section \<open>Writing at the start\<close>

lemma hw_write_slot:
  assumes "slot h (r_value r) = Some k"
  shows "fst (hw_write r us m False h) =
      (if \<forall>old. values_of h k = Some old \<longrightarrow> sint (pv_timestamp old) \<le> sint (pv_timestamp (r_value r)) then Inr () else Inl INVALID_ARG)"
    and "values_of (snd (hw_write r us m False h)) =
      (if \<forall>old. values_of h k = Some old \<longrightarrow> sint (pv_timestamp old) \<le> sint (pv_timestamp (r_value r))
       then (values_of h)(k \<mapsto> written_value (mServerSidePropStore h) k us (r_value r)) else values_of h)"
proof -
  obtain res calls s where w: "writeValue r us m False 0 (mServerSidePropStore h) = (res, calls, s)" by (metis prod_cases3)
  have st: "stamped r False 0 = r_value r" by (simp add: stamped_def)
  have spec: "(res, calls, abs_store s) = spec_write (mServerSidePropStore h) (r_value r) us m"
    using writeValue_spec [of r us m False 0 "mServerSidePropStore h"] w st by simp
  have "values_of (snd (hw_write r us m False h)) = abs_store s" "fst (hw_write r us m False h) = res"
    using w store_callbacks_frame [of calls "h\<lparr>mServerSidePropStore := s\<rparr>"] by (auto simp: hw_write_def)
  then show "fst (hw_write r us m False h) =
      (if \<forall>old. values_of h k = Some old \<longrightarrow> sint (pv_timestamp old) \<le> sint (pv_timestamp (r_value r)) then Inr () else Inl INVALID_ARG)"
    and "values_of (snd (hw_write r us m False h)) =
      (if \<forall>old. values_of h k = Some old \<longrightarrow> sint (pv_timestamp old) \<le> sint (pv_timestamp (r_value r))
       then (values_of h)(k \<mapsto> written_value (mServerSidePropStore h) k us (r_value r)) else values_of h)"
    using spec slot_key [OF assms] by (auto simp: spec_write_def Let_def split: if_splits)
qed

definition area_config :: "ConfigDeclaration \<Rightarrow> int32 \<Rightarrow> bool" where
  "area_config d a \<longleftrightarrow> (if isGlobalProp (pc_prop (cd_config d)) then a = 0 else a \<in> ac_areaId ` set (areaConfigs (cd_config d)))"

abbreviation area_key :: "int32 \<Rightarrow> int32 \<Rightarrow> int32 \<times> RecordId" where
  "area_key p a \<equiv> (p, \<lparr>rid_area = a, rid_token = 0\<rparr>)"

text \<open>What is stored of a property is its initial value, and every one of the areas is served.\<close>

definition initial_only :: "ConfigDeclaration \<Rightarrow> FakeVehicleHardware \<Rightarrow> bool" where
  "initial_only d h \<longleftrightarrow> (\<forall>rid v. values_of h (pc_prop (cd_config d), rid) = Some v \<longrightarrow>
     rid_token rid = 0 \<and> pv_prop v = pc_prop (cd_config d) \<and> pv_areaId v = rid_area rid \<and> pv_status v = AVAILABLE \<and>
     initial_value_for d (rid_area rid) = Some (pv_value v))"

definition served :: "ConfigDeclaration \<Rightarrow> int32 \<Rightarrow> FakeVehicleHardware \<Rightarrow> bool" where
  "served d a h \<longleftrightarrow> initial_value_for d a = None \<or> values_of h (area_key (pc_prop (cd_config d)) a) \<noteq> None"

definition registered :: "ConfigDeclaration \<Rightarrow> FakeVehicleHardware \<Rightarrow> bool" where
  "registered d h \<longleftrightarrow> (\<exists>cfg. config_of h (pc_prop (cd_config d)) = Some (cfg, None) \<and> areaConfigs cfg = areaConfigs (cd_config d))"

lemma area_slot:
  assumes "registered d h" and "area_config d (pv_areaId v)" and "pv_prop v = pc_prop (cd_config d)"
  shows "slot h v = Some (area_key (pc_prop (cd_config d)) (pv_areaId v))"
proof (cases "isGlobalProp (pc_prop (cd_config d))")
  case False
  have "getAreaConfig_value v cfg \<noteq> None" if c: "areaConfigs cfg = areaConfigs (cd_config d)" for cfg
  proof -
    have "pv_areaId v \<in> ac_areaId ` set (areaConfigs cfg)" using assms(2) False c by (simp add: area_config_def)
    then have "find (\<lambda>c. ac_areaId c = pv_areaId v) (areaConfigs cfg) \<noteq> None" "areaConfigs cfg \<noteq> []" by (auto simp: find_None_iff)
    then show ?thesis using assms(3) False by (cases "areaConfigs cfg") (auto simp: getAreaConfig_value_def getAreaConfig_def split: if_splits)
  qed
  then show ?thesis using assms(1,3) False by (auto simp: registered_def slot_def)
qed (use assms in \<open>auto simp: registered_def area_config_def slot_def\<close>)

lemma hw_pool_copy:
  "hw_pool (obtain_copy v) h = (r, h') \<Longrightarrow> r_value r = v \<and> values_of h' = values_of h \<and> store_part h' = store_part h"
  using obtain_copy_same [of v "mValuePool (mServerSidePropStore h)"] by (auto simp: hw_pool_def hw_store_def Let_def split: prod.splits)

text \<open>Storing the values of some areas.\<close>

definition stores :: "ConfigDeclaration \<Rightarrow> int32 list \<Rightarrow> FakeVehicleHardware \<Rightarrow> FakeVehicleHardware \<Rightarrow> bool" where
  "stores d as h h' \<longleftrightarrow> store_part h' = store_part h \<and> (initial_only d h \<longrightarrow> initial_only d h') \<and> (\<forall>a \<in> set as. served d a h') \<and>
     (\<forall>k. (values_of h k \<noteq> None \<longrightarrow> values_of h' k \<noteq> None) \<and> (fst k \<noteq> pc_prop (cd_config d) \<longrightarrow> values_of h' k = values_of h k))"

lemma store_area:
  assumes "registered d h" and "area_config d a" and "store_areas d [a] h = h'"
  shows "stores d [a] h h'"
proof -
  let ?p = "pc_prop (cd_config d)"
  obtain now h1 where e: "elapsedRealtimeNano h = (now, h1)" "values_of h1 = values_of h" "store_part h1 = store_part h"
    by (simp add: elapsedRealtimeNano_def)
  show ?thesis
  proof (cases "initial_value_for d a")
    case None
    then have "h' = h1" using assms(3) e(1) by simp
    with None e(2,3) show ?thesis by (simp add: stores_def initial_only_def served_def)
  next
    case (Some x)
    define v where "v = empty_prop_value\<lparr>pv_timestamp := now, pv_areaId := a, pv_prop := ?p, pv_value := x\<rparr>"
    obtain r h2 where r: "hw_pool (obtain_copy v) h1 = (r, h2)" by fastforce
    note c = hw_pool_copy [OF r]
    have h': "h' = snd (hw_write r True ON_VALUE_CHANGE False h2)" using assms(3) e(1) Some r by (simp add: v_def Let_def)
    have v: "pv_areaId v = a" "pv_prop v = ?p" "pv_status v = AVAILABLE" "pv_value v = x" by (simp_all add: v_def empty_prop_value_def)
    have sp: "store_part h2 = store_part h" using c e(3) by simp
    have "slot h v = Some (area_key ?p a)" using area_slot [of d h v] assms(1,2) v by simp
    then have "slot h2 (r_value r) = Some (area_key ?p a)" using slot_same [OF sp] c by simp
    from hw_write_slot(2) [OF this, of True ON_VALUE_CHANGE]
    consider (new) "values_of h' = (values_of h)(area_key ?p a \<mapsto> v)" | (old) "values_of h' = values_of h" "values_of h (area_key ?p a) \<noteq> None"
      using c e(2) by (auto simp: h' written_value_def split: if_splits)
    moreover have "store_part h' = store_part h" using store_part_write sp by (simp add: h')
    ultimately show ?thesis
    proof cases
      case new
      have "initial_only d h'" if i: "initial_only d h"
        unfolding initial_only_def
      proof (intro allI impI)
        fix rid w assume w: "values_of h' (?p, rid) = Some w"
        show "rid_token rid = 0 \<and> pv_prop w = ?p \<and> pv_areaId w = rid_area rid \<and> pv_status w = AVAILABLE \<and> initial_value_for d (rid_area rid) = Some (pv_value w)"
          using w i Some v by (cases "rid = \<lparr>rid_area = a, rid_token = 0\<rparr>") (auto simp: new initial_only_def)
      qed
      then show ?thesis using \<open>store_part h' = store_part h\<close> new by (auto simp: stores_def served_def)
    qed (use \<open>store_part h' = store_part h\<close> in \<open>auto simp: stores_def initial_only_def served_def\<close>)
  qed
qed

lemma stores_part: "stores d as h h' \<Longrightarrow> store_part h' = store_part h"
  unfolding stores_def by blast

lemma stores_trans: "stores d as h h1 \<Longrightarrow> stores d bs h1 h2 \<Longrightarrow> stores d (as @ bs) h h2"
proof -
  assume a: "stores d as h h1" and b: "stores d bs h1 h2"
  have a1: "store_part h1 = store_part h" "initial_only d h \<longrightarrow> initial_only d h1" "\<forall>x \<in> set as. served d x h1"
    and a2: "\<And>k. values_of h k \<noteq> None \<Longrightarrow> values_of h1 k \<noteq> None" "\<And>k. fst k \<noteq> pc_prop (cd_config d) \<Longrightarrow> values_of h1 k = values_of h k"
    using a unfolding stores_def by blast+
  have b1: "store_part h2 = store_part h1" "initial_only d h1 \<longrightarrow> initial_only d h2" "\<forall>x \<in> set bs. served d x h2"
    and b2: "\<And>k. values_of h1 k \<noteq> None \<Longrightarrow> values_of h2 k \<noteq> None" "\<And>k. fst k \<noteq> pc_prop (cd_config d) \<Longrightarrow> values_of h2 k = values_of h1 k"
    using b unfolding stores_def by blast+
  have "served d x h2" if "x \<in> set as \<union> set bs" for x
    using that a1(3) b1(3) b2(1) unfolding served_def by blast
  with a1 b1 a2 b2 show ?thesis by (simp add: stores_def del: not_None_eq)
qed

lemma registered_same: "store_part h' = store_part h \<Longrightarrow> registered d h' = registered d h"
  by (simp add: registered_def store_part_def)

lemma store_areas_spec:
  "registered d h \<Longrightarrow> \<forall>a \<in> set as. area_config d a \<Longrightarrow> stores d as h (store_areas d as h)"
proof (induction as arbitrary: h)
  case (Cons a as)
  define h1 where "h1 = store_areas d [a] h"
  have one: "stores d [a] h h1" using store_area [OF Cons.prems(1)] Cons.prems(2) by (simp add: h1_def)
  have "store_areas d (a # as) h = store_areas d as h1" by (simp add: h1_def split: prod.split)
  moreover have "registered d h1" using registered_same [OF stores_part [OF one]] Cons.prems(1) by blast
  ultimately show ?case using stores_trans [OF one] Cons.IH [of h1] Cons.prems(2) by simp
qed (simp add: stores_def)

section \<open>Registering\<close>

lemma register_effect:
  assumes "h' = h\<lparr>mServerSidePropStore := registerProperty cfg f (mServerSidePropStore h)\<rparr>"
  shows "config_of h' = (config_of h)(pc_prop cfg \<mapsto> (cfg, f))" and "values_of h' (pc_prop cfg, rid) = None"
    and "fst k \<noteq> pc_prop cfg \<Longrightarrow> values_of h' k = values_of h k"
  using assms by (auto simp: config_of_def registerProperty_def abs_store_def Let_def fun_eq_iff)

lemma init_supported_store: "init_supported d ac h = Some h' \<Longrightarrow> mServerSidePropStore h' = mServerSidePropStore h"
  by (auto simp: init_supported_def setMinSupportedValueLocked_def setMaxSupportedValueLocked_def Let_def split: option.splits if_splits)

lemma init_areas_store: "init_areas d acs h = Some h' \<Longrightarrow> mServerSidePropStore h' = mServerSidePropStore h"
proof (induction acs arbitrary: h)
  case (Cons ac acs)
  then obtain h1 where "init_supported d ac h = Some h1" "init_areas d acs h1 = Some h'" by (auto simp: bind_eq_Some_conv)
  with Cons.IH init_supported_store show ?case by metis
qed simp

text \<open>A property is set up if its configuration is stored and its initial values are what can be read.\<close>

definition set_up :: "int32 \<Rightarrow> ConfigDeclaration \<Rightarrow> FakeVehicleHardware \<Rightarrow> bool" where
  "set_up s2r d h \<longleftrightarrow>
     (\<exists>cfg. start_config s2r (cd_config d) = Some cfg \<and> config_of h (pc_prop (cd_config d)) = Some (cfg, token_function (pc_prop (cd_config d)))) \<and>
     (\<not> isDiagnosticProperty (cd_config d) \<longrightarrow> initial_only d h \<and> (\<forall>a. area_config d a \<longrightarrow> served d a h))"

definition same_at :: "int32 \<Rightarrow> FakeVehicleHardware \<Rightarrow> FakeVehicleHardware \<Rightarrow> bool" where
  "same_at p h h' \<longleftrightarrow> config_of h' p = config_of h p \<and> (\<forall>rid. values_of h' (p, rid) = values_of h (p, rid))"

lemma same_at_trans: "same_at p h h1 \<Longrightarrow> same_at p h1 h2 \<Longrightarrow> same_at p h h2"
  by (simp add: same_at_def)

lemma set_up_same: "same_at (pc_prop (cd_config d)) h h' \<Longrightarrow> set_up s2r d h \<Longrightarrow> set_up s2r d h'"
  by (simp add: set_up_def same_at_def initial_only_def served_def)

lemma start_config_fields:
  "start_config s2r cfg = Some cfg' \<Longrightarrow> pc_prop cfg' = pc_prop cfg \<and> areaConfigs cfg' = areaConfigs cfg \<and> isDiagnosticProperty cfg' = isDiagnosticProperty cfg"
  by (auto simp: start_config_def isDiagnosticProperty_def split: if_splits)

lemma init_property_spec:
  assumes "init_property s2r d h = Some h'"
  shows "set_up s2r d h'" and "p \<noteq> pc_prop (cd_config d) \<Longrightarrow> same_at p h h'"
proof -
  let ?p = "pc_prop (cd_config d)"
  obtain cfg where cfg: "start_config s2r (cd_config d) = Some cfg" using assms by (auto simp: init_property_def bind_eq_Some_conv)
  note f = start_config_fields [OF cfg]
  define h1 where "h1 = h\<lparr>mServerSidePropStore := registerProperty cfg (token_function ?p) (mServerSidePropStore h)\<rparr>"
  note r = register_effect [OF h1_def]
  have c1: "config_of h1 ?p = Some (cfg, token_function ?p)" using r(1) f by simp
  have s1: "same_at q h h1" if "q \<noteq> ?p" for q using r(1,3) f that by (simp add: same_at_def)
  have "set_up s2r d h' \<and> (p \<noteq> ?p \<longrightarrow> same_at p h h')"
  proof (cases "isDiagnosticProperty (cd_config d)")
    case True
    then have "h' = h1" using assms cfg f by (simp add: init_property_def h1_def Let_def)
    then show ?thesis using True cfg c1 s1 by (simp add: set_up_def)
  next
    case False
    define h2 where "h2 = h1\<lparr>hvacPowerDependentProps := (if ?p = HVAC_POWER_ON
      then fold List.insert (configArray (cd_config d)) (hvacPowerDependentProps h1) else hvacPowerDependentProps h1)\<rparr>"
    define as where "as = (if isGlobalProp ?p then [0] else map ac_areaId (areaConfigs (cd_config d)))"
    have st: "storePropInitialValue d h1 = store_areas d as h2" by (simp add: storePropInitialValue_def h2_def as_def Let_def)
    have same2: "values_of h2 = values_of h1" "store_part h2 = store_part h1" by (simp_all add: h2_def store_part_def config_of_def fun_eq_iff)
    have tok: "token_function ?p = None" using False by (auto simp: token_function_def isDiagnosticProperty_def)
    have "registered d h2" using c1 f tok same2(2) by (auto simp: registered_def store_part_def)
    moreover have as: "set as = {a. area_config d a}" by (auto simp: as_def area_config_def)
    ultimately have sp: "stores d as h2 (store_areas d as h2)" by (intro store_areas_spec) auto
    let ?h3 = "store_areas d as h2"
    have "init_areas d (areaConfigs cfg) ?h3 = Some h'" using assms cfg f False by (simp add: init_property_def h1_def [symmetric] st [symmetric] Let_def)
    from init_areas_store [OF this] have h': "values_of h' = values_of ?h3" "config_of h' = config_of ?h3" by (simp_all add: config_of_def fun_eq_iff)
    have c3: "config_of ?h3 = config_of h1" using stores_part [OF sp] same2(2) by (simp add: store_part_def)
    have "initial_only d h2" using r(2) f same2(1) by (simp add: initial_only_def)
    then have i3: "initial_only d ?h3" and s3: "\<forall>a. area_config d a \<longrightarrow> served d a ?h3"
      and v3: "\<And>k. fst k \<noteq> ?p \<Longrightarrow> values_of ?h3 k = values_of h1 k" using sp as same2(1) unfolding stores_def by auto
    have "set_up s2r d h'" using cfg c1 c3 h' i3 s3 by (simp add: set_up_def initial_only_def served_def)
    moreover have "same_at p h h'" if "p \<noteq> ?p" using s1 [OF that] v3 that h' c3 by (simp add: same_at_def)
    ultimately show ?thesis by blast
  qed
  then show "set_up s2r d h'" "p \<noteq> ?p \<Longrightarrow> same_at p h h'" by blast+
qed

abbreviation declared :: "ConfigDeclaration \<Rightarrow> int32" where
  "declared d \<equiv> pc_prop (cd_config d)"

lemma init_properties_spec:
  assumes "init_properties s2r ds h = Some h'" and "distinct (map declared ds)"
  shows "d \<in> set ds \<Longrightarrow> set_up s2r d h'" and "p \<notin> declared ` set ds \<Longrightarrow> same_at p h h'"
proof -
  have "(\<forall>d \<in> set ds. set_up s2r d h') \<and> (\<forall>p. p \<notin> declared ` set ds \<longrightarrow> same_at p h h')"
    using assms
  proof (induction ds arbitrary: h)
    case (Cons d ds)
    then obtain h1 where one: "init_property s2r d h = Some h1" and rest: "init_properties s2r ds h1 = Some h'" by (auto simp: bind_eq_Some_conv)
    note IH = Cons.IH [OF rest] and i = init_property_spec [OF one]
    have d: "declared d \<notin> declared ` set ds" "distinct (map declared ds)" using Cons.prems(2) by auto
    have "set_up s2r d h'" using i(1) IH [OF d(2)] d(1) set_up_same by blast
    moreover have "same_at p h h'" if "p \<notin> declared ` set (d # ds)" for p
      using that i(2) [of p] IH [OF d(2)] same_at_trans [of p h h1 h'] by simp
    ultimately show ?case using IH [OF d(2)] by simp
  qed (simp add: same_at_def)
  then show "d \<in> set ds \<Longrightarrow> set_up s2r d h'" and "p \<notin> declared ` set ds \<Longrightarrow> same_at p h h'" by blast+
qed

section \<open>The frames\<close>

definition only_at :: "int32 set \<Rightarrow> FakeVehicleHardware \<Rightarrow> FakeVehicleHardware \<Rightarrow> bool" where
  "only_at Q h h' \<longleftrightarrow> config_of h' = config_of h \<and> (\<forall>p rid. p \<notin> Q \<longrightarrow> values_of h' (p, rid) = values_of h (p, rid))"

lemma only_at_trans: "only_at Q h h1 \<Longrightarrow> only_at R h1 h2 \<Longrightarrow> only_at (Q \<union> R) h h2"
  by (simp add: only_at_def)

lemma only_at_store: "only_at Q h h1 \<Longrightarrow> mServerSidePropStore h2 = mServerSidePropStore h1 \<Longrightarrow> only_at Q h h2"
  by (simp add: only_at_def config_of_def fun_eq_iff)

lemma write_frame_only:
  assumes "write_frame q dtc now sensors s = (calls, s')"
  shows "only_at {q} (h\<lparr>mServerSidePropStore := s\<rparr>) (h\<lparr>mServerSidePropStore := s'\<rparr>)"
proof -
  obtain r pool where g: "getSensorProperty now dtc sensors (mValuePool s) = (r, pool)" by fastforce
  define r' where "r' = r\<lparr>r_value := (r_value r)\<lparr>pv_prop := q\<rparr>\<rparr>"
  obtain res where w: "writeValue r' True ON_VALUE_CHANGE False now (s\<lparr>mValuePool := pool\<rparr>) = (res, calls, s')"
    using assms by (cases "writeValue r' True ON_VALUE_CHANGE False now (s\<lparr>mValuePool := pool\<rparr>)") (simp add: write_frame_def g r'_def Let_def)
  have "(res, calls, abs_store s') = spec_write (s\<lparr>mValuePool := pool\<rparr>) (stamped r' False now) True ON_VALUE_CHANGE"
    using writeValue_spec [of r' True ON_VALUE_CHANGE False now "s\<lparr>mValuePool := pool\<rparr>"] w by simp
  then have "abs_store s' (p, rid) = abs_store s (p, rid)" if "p \<noteq> q" for p rid
    using that by (auto simp: spec_write_def store_key_def stamped_def r'_def Let_def split: option.splits bool.splits)
  then show ?thesis using writeValue_config(1) [OF w] by (simp add: only_at_def config_of_def fun_eq_iff)
qed

lemma live_frame_only:
  assumes "initObd2LiveFrame now config (mServerSidePropStore h) = Some (calls, s')"
  shows "only_at {OBD2_LIVE_FRAME} h (h\<lparr>mServerSidePropStore := s'\<rparr>)"
proof -
  obtain ni nf where "write_frame OBD2_LIVE_FRAME [] now (fillDefaultObd2Frame ni nf) (mServerSidePropStore h) = (calls, s')"
    using assms by (auto simp: initObd2LiveFrame_def)
  from write_frame_only [OF this, of h] show ?thesis by simp
qed

lemma freeze_frame_only:
  assumes "initObd2FreezeFrame n1 n2 n3 config (mServerSidePropStore h) = Some (calls, s')"
  shows "only_at {OBD2_FREEZE_FRAME} h (h\<lparr>mServerSidePropStore := s'\<rparr>)"
proof -
  obtain ni nf where v: "vendor_sensors config = Some (ni, nf)"
    using assms by (cases "vendor_sensors config") (auto simp: initObd2FreezeFrame_def)
  let ?f = "fillDefaultObd2Frame ni nf"
  obtain c1 s1 where w1: "write_frame OBD2_FREEZE_FRAME ''P0070'' n1 ?f (mServerSidePropStore h) = (c1, s1)" by fastforce
  obtain c2 s2 where w2: "write_frame OBD2_FREEZE_FRAME ''P0102'' n2 ?f s1 = (c2, s2)" by fastforce
  obtain c3 s3 where w3: "write_frame OBD2_FREEZE_FRAME ''P0123'' n3 ?f s2 = (c3, s3)" by fastforce
  have "s3 = s'" using assms by (simp add: initObd2FreezeFrame_def v w1 w2 w3)
  then show ?thesis
    using only_at_trans [OF only_at_trans [OF write_frame_only [OF w1, of h] write_frame_only [OF w2, of h]] write_frame_only [OF w3, of h]] by simp
qed

lemma init_frame_only:
  assumes "init_frame q initFrame n h = Some h'"
    and "\<And>config calls s'. initFrame config (mServerSidePropStore h) = Some (calls, s') \<Longrightarrow> only_at {q} h (h\<lparr>mServerSidePropStore := s'\<rparr>)"
  shows "only_at {q} h h'"
proof (cases "getPropConfig q (mServerSidePropStore h)")
  case (Inl e)
  then show ?thesis using assms(1) by (simp add: init_frame_def only_at_def)
next
  case (Inr config)
  then obtain calls s' where c: "initFrame config (mServerSidePropStore h) = Some (calls, s')"
    and h': "h' = fold store_callback calls (h\<lparr>mServerSidePropStore := s', ticks := ticks h + n\<rparr>)"
    using assms(1) by (auto simp: init_frame_def bind_eq_Some_conv)
  obtain e where "h' = h\<lparr>mServerSidePropStore := s', ticks := ticks h + n\<rparr>\<lparr>emitted := e\<rparr>"
    using h' store_callbacks_frame [of calls "h\<lparr>mServerSidePropStore := s', ticks := ticks h + n\<rparr>"] by blast
  then have s: "mServerSidePropStore h' = s'" by simp
  show ?thesis by (rule only_at_store [OF assms(2) [OF c]]) (simp add: s)
qed

text \<open>After the registration only the frames change.\<close>

lemma fake_init_spec:
  assumes "fake_init s2r configs h = Some h'"
  obtains h1 where "init_properties s2r (map snd configs) h = Some h1" and "only_at {OBD2_LIVE_FRAME, OBD2_FREEZE_FRAME} h1 h'"
proof -
  obtain h1 h2 h3 where h1: "init_properties s2r (map snd configs) h = Some h1"
    and h2: "init_frame OBD2_LIVE_FRAME (initObd2LiveFrame (clock h1 (ticks h1))) 1 h1 = Some h2"
    and h3: "init_frame OBD2_FREEZE_FRAME (initObd2FreezeFrame (clock h2 (ticks h2)) (clock h2 (ticks h2 + 1)) (clock h2 (ticks h2 + 2))) 3 h2 = Some h3"
    and h': "h' = h3\<lparr>mServerSidePropStore := setOnValuesChangeCallback True (mServerSidePropStore h3)\<rparr>"
    using assms by (auto simp: fake_init_def bind_eq_Some_conv)
  have "only_at {OBD2_LIVE_FRAME} h1 h2" by (rule init_frame_only [OF h2]) (rule live_frame_only)
  moreover have "only_at {OBD2_FREEZE_FRAME} h2 h3" by (rule init_frame_only [OF h3]) (rule freeze_frame_only)
  moreover have "only_at {} h3 h'"
    by (simp add: h' only_at_def config_of_def setOnValuesChangeCallback_def getRecordLocked_def abs_store_def fun_eq_iff)
  ultimately have "only_at {OBD2_LIVE_FRAME, OBD2_FREEZE_FRAME} h1 h'" using only_at_trans [OF only_at_trans] by fastforce
  with h1 show thesis by (rule that)
qed

section \<open>The loaded declarations\<close>

text \<open>Each declaration is filed once, under its own property.\<close>

definition keyed :: "(int32 \<times> ConfigDeclaration) list \<Rightarrow> bool" where
  "keyed configs \<longleftrightarrow> wf_alist configs \<and> (\<forall>(p, d) \<in> set configs. declared d = p)"

lemma keyed_update: "keyed configs \<Longrightarrow> declared d = p \<Longrightarrow> keyed (AList.update p d configs)"
  by (auto simp: keyed_def set_update_distinct)

lemma keyed_add: "keyed configs \<Longrightarrow> keyed (add_config c configs)"
  by (auto simp: add_config_def keyed_update split: option.split)

lemma keyed_fold_add: "keyed configs \<Longrightarrow> keyed (fold (add_config \<circ> fst) ds configs)"
  by (induction ds arbitrary: configs) (simp_all add: keyed_add)

lemma keyed_updates: "keyed configs \<Longrightarrow> keyed loaded \<Longrightarrow> keyed (AList.updates (map fst loaded) (map snd loaded) configs)"
proof -
  assume l: "keyed loaded"
  have "(\<forall>(p, d) \<in> set xs. declared d = p) \<Longrightarrow> keyed configs \<Longrightarrow> keyed (AList.updates (map fst xs) (map snd xs) configs)" for xs configs
    by (induction xs arbitrary: configs) (auto simp: keyed_update)
  from this [of loaded configs] l show "keyed configs \<Longrightarrow> ?thesis" unfolding keyed_def by blast
qed

lemma keyed_parse:
  assumes "parseJsonConfig L input = Some (Inr configs)"
  shows "keyed configs"
proof -
  obtain root where r: "input = Inr root" using assms by (cases input) (auto simp: parseJsonConfig_def)
  obtain xs es where "parse_properties L xs [] [] = Some (configs, es)"
    using parse_json_cases [OF assms [unfolded r]] by (auto split: if_splits)
  from parse_properties_spec [OF this] show ?thesis using keyed_fold_add [of "[]"] by (auto simp: keyed_def)
qed

lemma keyed_files: "load_files L files configs = Some configs' \<Longrightarrow> keyed configs \<Longrightarrow> keyed configs'"
proof (induction files arbitrary: configs)
  case (Cons f files)
  obtain name content where f: "f = (name, content)" by fastforce
  show ?case
  proof (cases "is_json_name name")
    case True
    then obtain r where r: "loadPropConfig L content = Some r"
      "load_files L files (case r of Inl _ \<Rightarrow> configs | Inr loaded \<Rightarrow> AList.updates (map fst loaded) (map snd loaded) configs) = Some configs'"
      using Cons.prems(1) by (auto simp: f bind_eq_Some_conv)
    have "keyed loaded" if "r = Inr loaded" for loaded
      using r(1) that keyed_parse by (auto simp: loadPropConfig_def split: option.splits)
    then have "keyed (case r of Inl _ \<Rightarrow> configs | Inr loaded \<Rightarrow> AList.updates (map fst loaded) (map snd loaded) configs)"
      using Cons.prems(2) keyed_updates by (auto split: sum.split)
    with Cons.IH [OF r(2)] show ?thesis .
  qed (use Cons f in simp)
qed simp

lemma keyed_declarations:
  assumes "loadConfigDeclarations L dir overrides use = Some configs"
  shows "keyed configs"
proof -
  have "keyed (snd r)" if "loadPropConfigsFromDir L d cs = Some r" "keyed cs" for d cs r
    using that keyed_files by (auto simp: loadPropConfigsFromDir_def split: option.splits)
  moreover have "keyed []" by (simp add: keyed_def)
  ultimately show ?thesis using assms by (fastforce simp: loadConfigDeclarations_def bind_eq_Some_conv split: if_splits)
qed

section \<open>After the start\<close>

text \<open>What a client reads of an area of a property.\<close>

definition read_area :: "VehiclePropValue \<Rightarrow> int32" where
  "read_area v = (if isGlobalProp (pv_prop v) then 0 else pv_areaId v)"

definition reads_initial :: "ConfigDeclaration \<Rightarrow> VehiclePropValue \<Rightarrow> FakeVehicleHardware \<Rightarrow> bool" where
  "reads_initial d v h \<longleftrightarrow>
     (case initial_value_for d (read_area v) of
        None \<Rightarrow> fst (readValue v (mServerSidePropStore h)) = Inl NOT_AVAILABLE
      | Some x \<Rightarrow> \<exists>r. fst (readValue v (mServerSidePropStore h)) = Inr r \<and> pv_prop (r_value r) = pv_prop v \<and> pv_areaId (r_value r) = read_area v \<and>
                   pv_status (r_value r) = AVAILABLE \<and> pv_value (r_value r) = x)"

lemma set_up_reads:
  assumes "set_up s2r d h" and "\<not> isDiagnosticProperty (cd_config d)" and "pv_prop v = declared d" and "area_config d (read_area v)"
  shows "reads_initial d v h"
proof -
  let ?k = "area_key (declared d) (read_area v)"
  obtain cfg where cfg: "config_of h (declared d) = Some (cfg, None)"
    using assms(1,2) by (auto simp: set_up_def token_function_def isDiagnosticProperty_def)
  then have "store_key (mServerSidePropStore h) v = Some ?k"
    using assms(3) by (auto simp: config_of_def store_key_def getRecordIdLocked_def read_area_def)
  then have rd: "fst (map_prod (map_sum id r_value) abs_store (readValue v (mServerSidePropStore h))) =
      (case values_of h ?k of None \<Rightarrow> Inl NOT_AVAILABLE | Some w \<Rightarrow> Inr w)"
    using readValue_abs(1) [of v "mServerSidePropStore h"] by simp
  have io: "initial_only d h" and sv: "served d (read_area v) h" using assms(1,2,4) by (auto simp: set_up_def)
  show ?thesis
  proof (cases "initial_value_for d (read_area v)")
    case None
    have "values_of h ?k = None"
    proof (rule ccontr)
      assume "values_of h ?k \<noteq> None"
      then obtain w where "values_of h ?k = Some w" by blast
      with io None show False unfolding initial_only_def by fastforce
    qed
    then show ?thesis using rd None by (cases "fst (readValue v (mServerSidePropStore h))") (auto simp: reads_initial_def map_prod_def split: prod.splits)
  next
    case (Some x)
    then obtain w where w: "values_of h ?k = Some w" using sv by (auto simp: served_def)
    then have "pv_prop w = declared d \<and> pv_areaId w = read_area v \<and> pv_status w = AVAILABLE \<and> pv_value w = x"
      using io Some unfolding initial_only_def by fastforce
    then show ?thesis using rd w Some assms(3)
      by (cases "fst (readValue v (mServerSidePropStore h))") (auto simp: reads_initial_def map_prod_def split: prod.splits)
  qed
qed

text \<open>C11. After the start the fake hardware serves its configuration files: exactly the properties of the loaded declarations are registered, with their
  configuration (of which only the first number of the power state request is replaced); and every area of a property that is not a diagnostic
  frame reads as its initial value, available, or as not available if it has none.\<close>

theorem start_serves_configuration:
  assumes "startFakeVehicleHardware L dir overrides use s2r (newFakeVehicleHardware g address up c) = Some h"
  shows "\<exists>configs. loadConfigDeclarations L dir overrides use = Some configs \<and>
    (\<forall>p. case map_of configs p of
       None \<Rightarrow> getPropConfig p (mServerSidePropStore h) = Inl INVALID_ARG
     | Some d \<Rightarrow>
         (\<exists>cfg. start_config s2r (cd_config d) = Some cfg \<and> getPropConfig p (mServerSidePropStore h) = Inr cfg) \<and>
         (\<forall>v. \<not> isDiagnosticProperty (cd_config d) \<and> pv_prop v = p \<and> area_config d (read_area v) \<longrightarrow> reads_initial d v h))"
proof -
  let ?h0 = "newFakeVehicleHardware g address up c"
  obtain configs where l: "loadConfigDeclarations L dir overrides use = Some configs" and i: "fake_init s2r configs ?h0 = Some h"
    using assms by (auto simp: startFakeVehicleHardware_def bind_eq_Some_conv)
  have keyed: "keyed configs" by (rule keyed_declarations [OF l])
  obtain h1 where h1: "init_properties s2r (map snd configs) ?h0 = Some h1" and only: "only_at {OBD2_LIVE_FRAME, OBD2_FREEZE_FRAME} h1 h"
    by (rule fake_init_spec [OF i])
  have keys: "map declared (map snd configs) = map fst configs" using keyed by (auto simp: keyed_def)
  have dist: "distinct (map declared (map snd configs))" unfolding keys using keyed by (simp add: keyed_def)
  note spec = init_properties_spec [OF h1 dist]
  have cfg: "config_of h = config_of h1" using only by (simp add: only_at_def)
  have conf: "getPropConfig p (mServerSidePropStore h) = (case config_of h1 p of None \<Rightarrow> Inl INVALID_ARG | Some (c, f) \<Rightarrow> Inr c)" for p
    unfolding cfg [symmetric] by (simp add: getPropConfig_def config_of_def split: option.split)
  have "case map_of configs p of
       None \<Rightarrow> getPropConfig p (mServerSidePropStore h) = Inl INVALID_ARG
     | Some d \<Rightarrow>
         (\<exists>cfg. start_config s2r (cd_config d) = Some cfg \<and> getPropConfig p (mServerSidePropStore h) = Inr cfg) \<and>
         (\<forall>v. \<not> isDiagnosticProperty (cd_config d) \<and> pv_prop v = p \<and> area_config d (read_area v) \<longrightarrow> reads_initial d v h)" for p
  proof (cases "map_of configs p")
    case None
    then have "p \<notin> declared ` set (map snd configs)" using keys by (metis image_set map_of_eq_None_iff)
    then have "config_of h1 p = None" using spec(2) [of p] by (simp add: same_at_def config_of_def newFakeVehicleHardware_def getRecordLocked_def)
    with None conf show ?thesis by simp
  next
    case (Some d)
    then have "(p, d) \<in> set configs" by (rule map_of_SomeD)
    then have d: "d \<in> set (map snd configs)" "declared d = p" using keyed by (force simp: keyed_def)+
    have su: "set_up s2r d h1" by (rule spec(1) [OF d(1)])
    have "set_up s2r d h" if "\<not> isDiagnosticProperty (cd_config d)"
      using only that by (intro set_up_same [OF _ su]) (auto simp: same_at_def only_at_def isDiagnosticProperty_def)
    then have "\<forall>v. \<not> isDiagnosticProperty (cd_config d) \<and> pv_prop v = p \<and> area_config d (read_area v) \<longrightarrow> reads_initial d v h"
      using set_up_reads d(2) by auto
    moreover have "\<exists>cfg. start_config s2r (cd_config d) = Some cfg \<and> getPropConfig p (mServerSidePropStore h) = Inr cfg"
      using su conf d(2) by (auto simp: set_up_def)
    ultimately show ?thesis using Some by simp
  qed
  with l show ?thesis by blast
qed

text \<open>A directory with one configuration file.\<close>

definition example_dir :: "json directory" where
  "example_dir = Some [(''README'', None), (''Fan.JSON'', Some (Inr (example_file [example_entry])))]"

definition example_car :: FakeVehicleHardware where
  "example_car = newFakeVehicleHardware 0 [] 25 (\<lambda>n. of_nat n + 100)"

lemma example_configs: "loadConfigDeclarations example_loader example_dir None False = Some [(0x15400500, example_decl)]"
  by code_simp

theorem start_serves_configuration_witness:
  "\<exists>h r. startFakeVehicleHardware example_loader example_dir None False 0 example_car = Some h \<and>
     fst (readValue (empty_prop_value\<lparr>pv_prop := 0x15400500, pv_areaId := 68\<rparr>) (mServerSidePropStore h)) = Inr r \<and> int32Values (pv_value (r_value r)) = [3]"
proof -
  let ?v = "empty_prop_value\<lparr>pv_prop := 0x15400500, pv_areaId := 68\<rparr>"
  have "fake_init 0 [(0x15400500, example_decl)] example_car \<noteq> None" by code_simp
  then obtain h where h: "startFakeVehicleHardware example_loader example_dir None False 0 example_car = Some h"
    by (auto simp: startFakeVehicleHardware_def example_configs)
  have "\<not> isDiagnosticProperty (cd_config example_decl) \<and> pv_prop ?v = 0x15400500 \<and> area_config example_decl (read_area ?v)" by code_simp
  then have "reads_initial example_decl ?v h"
    using start_serves_configuration [OF h [unfolded example_car_def]] by (auto simp: example_configs split: if_splits)
  moreover have "initial_value_for example_decl (read_area ?v) = Some (empty_raw\<lparr>int32Values := [3]\<rparr>)" by code_simp
  ultimately show ?thesis using h by (auto simp: reads_initial_def)
qed

end
