(* ===== verification/FakeDumpProofs.thy ===== *)
theory FakeDumpProofs
  imports FakeDump FakeStartProofs FakeRequests
begin

text \<open>
  The options of a text command read back what was written in them, and a saved value is restored.
\<close>

section \<open>Numbers in a command\<close>

fun show_nat :: "nat \<Rightarrow> string" where
  "show_nat n = (if n < 10 then [char_of (48 + n)] else show_nat (n div 10) @ [char_of (48 + n mod 10)])"

declare show_nat.simps [simp del]

definition show_int :: "int \<Rightarrow> string" where
  "show_int n = (if n < 0 then CHR ''-'' # show_nat (nat (- n)) else show_nat (nat n))"

lemma digit_chars:
  assumes "n < 10"
  shows "is_digit (char_of (48 + n :: nat))" and "of_char (char_of (48 + n :: nat)) - 48 = int n"
proof -
  have o: "(of_char (char_of (48 + n :: nat)) :: nat) = 48 + n" using assms by (simp add: of_char_of)
  then show "is_digit (char_of (48 + n :: nat))" using assms by (simp add: is_digit_def)
  show "of_char (char_of (48 + n :: nat)) - 48 = int n" unfolding of_nat_of_char [symmetric, where 'a = int] o by simp
qed

lemma digits_value_snoc: "digits_value (ds @ [c]) = digits_value ds * 10 + (of_char c - 48)"
  by (simp add: digits_value_def)

lemma show_nat_digits: "list_all is_digit (show_nat n) \<and> show_nat n \<noteq> [] \<and> digits_value (show_nat n) = int n"
proof (induction n rule: show_nat.induct)
  case (1 n)
  show ?case
  proof (cases "n < 10")
    case True
    then show ?thesis using digit_chars [of n] by (simp add: show_nat.simps [of n] digits_value_def)
  next
    case False
    have "int n = int (n div 10) * 10 + int (n mod 10)" by (metis div_mult_mod_eq of_nat_add of_nat_mult of_nat_numeral)
    then show ?thesis using 1 False digit_chars [of "n mod 10"] by (simp add: show_nat.simps [of n] digits_value_snoc)
  qed
qed

lemma digit_plain: "is_digit c \<Longrightarrow> (of_char c :: nat) \<noteq> 0 \<and> \<not> is_space c \<and> c \<noteq> CHR ''-'' \<and> c \<noteq> CHR ''+''"
  by (auto simp: is_digit_def is_space_def)

lemma ParseInt_show:
  assumes "mn \<le> n" and "n \<le> mx" and "- (2 ^ 63) \<le> mn" and "mx < 2 ^ 63"
  shows "ParseInt mn mx (show_int n) = Some n"
proof -
  note d = show_nat_digits
  have all: "takeWhile (\<lambda>c. (of_char c :: nat) \<noteq> 0) (show_nat k) = show_nat k" "hd (show_nat k) \<noteq> CHR ''-''" "hd (show_nat k) \<noteq> CHR ''+''"
    "dropWhile is_space (show_nat k) = show_nat k" for k
  proof -
    have c: "(of_char c :: nat) \<noteq> 0 \<and> \<not> is_space c \<and> c \<noteq> CHR ''-'' \<and> c \<noteq> CHR ''+''" if "c \<in> set (show_nat k)" for c
      using d [of k] that digit_plain by (auto simp: list_all_iff)
    then show "takeWhile (\<lambda>c. (of_char c :: nat) \<noteq> 0) (show_nat k) = show_nat k" by (simp add: takeWhile_eq_all_conv)
    have "hd (show_nat k) \<in> set (show_nat k)" using d [of k] by simp
    then show "hd (show_nat k) \<noteq> CHR ''-''" "hd (show_nat k) \<noteq> CHR ''+''" "dropWhile is_space (show_nat k) = show_nat k"
      using c d [of k] by (auto simp: dropWhile_eq_self_iff)
  qed
  have minus: "\<not> is_space CHR ''-''" "(of_char CHR ''-'' :: nat) \<noteq> 0" by (simp_all add: is_space_def)
  have t: "dropWhile is_space (takeWhile (\<lambda>c. (of_char c :: nat) \<noteq> 0) (show_int n)) = show_int n"
    by (cases "n < 0") (simp_all only: show_int_def if_True if_False takeWhile.simps dropWhile.simps minus all not_False_eq_True)
  show ?thesis unfolding ParseInt_def Let_def t using assms d [of "nat n"] d [of "nat (- n)"] all(2,3)
    by (cases "n < 0") (simp_all add: show_int_def)
qed

lemma parse_int32_show: "safelyParseInt32 (show_int (sint x)) = Some x"
proof -
  have "- (2 ^ 31) \<le> sint x" "sint x < 2 ^ 31" using sint_greater_eq [of x] sint_less [of x] by simp_all
  then show ?thesis using ParseInt_show [of "- (2 ^ 31)" "sint x" "2 ^ 31 - 1"] by (simp add: safelyParseInt32_def)
qed

lemma parse_int64_show: "safelyParseInt64 (show_int (sint x)) = Some x"
proof -
  have "- (2 ^ 63) \<le> sint x" "sint x < 2 ^ 63" using sint_greater_eq [of x] sint_less [of x] by simp_all
  then show ?thesis using ParseInt_show [of "- (2 ^ 63)" "sint x" "2 ^ 63 - 1"] by (simp add: safelyParseInt64_def)
qed

section \<open>Bytes in a command\<close>

definition hex_char :: "nat \<Rightarrow> char" where
  "hex_char n = (if n < 10 then char_of (48 + n) else char_of (87 + n))"

definition show_byte :: "byte \<Rightarrow> string" where
  "show_byte b = [hex_char (unat b div 16), hex_char (unat b mod 16)]"

lemma hex_chars: "n < 16 \<Longrightarrow> hex_digit (lower (hex_char n)) = Some (of_nat n)"
  by (auto simp: hex_digit_def lower_def hex_char_def of_char_of Let_def)

lemma byte_digits: "(of_nat (unat b div 16) * 16 + of_nat (unat b mod 16) :: byte) = b"
proof -
  have "(of_nat (unat b div 16) * 16 + of_nat (unat b mod 16) :: byte) = of_nat (unat b div 16 * 16 + unat b mod 16)"
    by (simp only: of_nat_add of_nat_mult of_nat_numeral)
  then show ?thesis by (simp only: div_mult_mod_eq) simp
qed

lemma hex_bytes_show: "hex_bytes (map lower (concat (map show_byte bs))) True acc = Some (acc @ bs)"
proof (induction bs arbitrary: acc)
  case (Cons b bs)
  have "unat b div 16 < 16" "unat b mod 16 < 16" using unsigned_less [of b, where 'a = nat] by auto
  then show ?case using Cons.IH [of "acc @ [b]"] byte_digits [of b] by (simp add: show_byte_def hex_chars)
qed simp

lemma parse_hex_show: "parseHexString (''0x'' @ concat (map show_byte bs)) = Some bs"
proof -
  have "length (concat (map show_byte bs)) mod 2 = 0" by (induction bs) (simp_all add: show_byte_def)
  then show ?thesis using hex_bytes_show [of bs "[]"] by (simp add: parseHexString_def)
qed

section \<open>Groups of options\<close>

text \<open>A command line made of groups, an option with its values each, is parsed group by group.\<close>

fun run_groups ::
  "dump_env \<Rightarrow> (string \<times> string list) list \<Rightarrow> VehiclePropValue \<times> string option \<Rightarrow> dump_error + (VehiclePropValue \<times> string option)" where
  "run_groups env [] st = Inr st"
| "run_groups env ((opt, vals) # gs) st = (case apply_option env opt vals st of Inl e \<Rightarrow> Inl e | Inr st' \<Rightarrow> run_groups env gs st')"

definition words_of :: "(string \<times> string list) list \<Rightarrow> string list" where
  "words_of gs = concat (map (\<lambda>(opt, vals). opt # vals) gs)"

definition no_option :: "string \<Rightarrow> bool" where
  "no_option s \<longleftrightarrow> s \<notin> set SET_PROP_OPTIONS"

lemma values_before:
  assumes "list_all no_option vals" and "rest = [] \<or> hd rest \<in> set SET_PROP_OPTIONS"
  shows "getOptionValues (vals @ rest) = (vals, rest)"
proof -
  have "takeWhile (\<lambda>s. s \<notin> set SET_PROP_OPTIONS) rest = []" "dropWhile (\<lambda>s. s \<notin> set SET_PROP_OPTIONS) rest = rest"
    using assms(2) by (cases rest; simp)+
  then show ?thesis using assms(1) by (simp add: getOptionValues_def list_all_iff no_option_def)
qed

lemma parse_groups:
  assumes "distinct (map fst gs)" and "set (map fst gs) \<subseteq> set SET_PROP_OPTIONS" and "set (map fst gs) \<inter> set parsed = {}"
    and "\<forall>(opt, vals) \<in> set gs. list_all no_option vals"
  shows "parse_option_list env (words_of gs) parsed st = run_groups env gs st"
  using assms
proof (induction gs arbitrary: parsed st)
  case (Cons g gs)
  obtain opt vals where g: "g = (opt, vals)" by fastforce
  have "words_of gs = [] \<or> hd (words_of gs) \<in> set SET_PROP_OPTIONS"
    using Cons.prems(2) by (cases gs) (auto simp: words_of_def)
  then have "getOptionValues (vals @ words_of gs) = (vals, words_of gs)" using Cons.prems(4) g values_before by auto
  moreover have "parse_option_list env (words_of gs) (opt # parsed) st' = run_groups env gs st'" for st'
    using Cons.prems g by (intro Cons.IH) auto
  moreover have "words_of (g # gs) = opt # vals @ words_of gs" by (simp add: words_of_def g)
  ultimately show ?case using Cons.prems(3) g by (simp split: sum.split)
qed (simp add: words_of_def)

lemma those_map: "(\<And>x. f (g x) = Some x) \<Longrightarrow> those (map f (map g xs)) = Some xs"
  by (induction xs) simp_all

text \<open>A group is left out when it has no values.\<close>

definition group :: "string \<Rightarrow> string list \<Rightarrow> (string \<times> string list) list" where
  "group opt vals = (if vals = [] then [] else [(opt, vals)])"

lemma run_group:
  assumes "vals = [] \<Longrightarrow> st' = st" and "vals \<noteq> [] \<Longrightarrow> apply_option env opt vals st = Inr st'"
  shows "run_groups env (group opt vals @ gs) st = run_groups env gs st'"
  using assms by (simp add: group_def)

text \<open>The groups that describe a value; floats are written in some way that reads back.\<close>

definition groups_of :: "string list \<Rightarrow> VehiclePropValue \<Rightarrow> (string \<times> string list) list" where
  "groups_of floats v = (let raw = pv_value v in
     group ''-i'' (map (show_int \<circ> sint) (int32Values raw)) @
     group ''-i64'' (map (show_int \<circ> sint) (int64Values raw)) @
     group ''-f'' floats @
     group ''-s'' (if stringValue raw = [] then [] else [stringValue raw]) @
     group ''-b'' (if byteValues raw = [] then [] else [''0x'' @ concat (map show_byte (byteValues raw))]) @
     [(''-a'', [show_int (sint (pv_areaId v))]), (''-t'', [show_int (sint (pv_timestamp v))])])"

definition command_for :: "string \<Rightarrow> string list \<Rightarrow> VehiclePropValue \<Rightarrow> string list" where
  "command_for command floats v = command # show_int (sint (pv_prop v)) # words_of (groups_of floats v)"

lemma show_int_no_option: "no_option (show_int n)"
proof -
  have "show_int n \<noteq> ''-'' @ c # cs" if "\<not> is_digit c" for c cs
    using that show_nat_digits [of "nat n"] show_nat_digits [of "nat (- n)"] digit_plain
    by (auto simp: show_int_def list_all_iff split: if_splits)
  then have "show_int n \<noteq> ''-i''" "show_int n \<noteq> ''-i64''" "show_int n \<noteq> ''-f''" "show_int n \<noteq> ''-s''" "show_int n \<noteq> ''-b''" "show_int n \<noteq> ''-a''" "show_int n \<noteq> ''-t''"
    by (auto simp: is_digit_def)
  then show ?thesis by (simp add: no_option_def SET_PROP_OPTIONS_def)
qed

lemma lower_options [simp]:
  "lower CHR ''-'' = CHR ''-''" "lower CHR ''i'' = CHR ''i''" "lower CHR ''6'' = CHR ''6''" "lower CHR ''4'' = CHR ''4''" "lower CHR ''f'' = CHR ''f''"
  "lower CHR ''s'' = CHR ''s''" "lower CHR ''b'' = CHR ''b''" "lower CHR ''a'' = CHR ''a''" "lower CHR ''t'' = CHR ''t''"
  by (simp_all add: lower_def)

lemma run_groups_of:
  assumes "those (map (de_ParseFloat env) floats) = Some (floatValues (pv_value v))" and "pv_status v = AVAILABLE"
  shows "run_groups env (groups_of floats v) (empty_prop_value\<lparr>pv_prop := pv_prop v, pv_status := AVAILABLE\<rparr>, None) =
    Inr (v\<lparr>pv_areaId := 0\<rparr>, Some (show_int (sint (pv_areaId v))))"
proof -
  let ?r = "pv_value v"
  let ?p = "\<lambda>raw. (empty_prop_value\<lparr>pv_prop := pv_prop v, pv_status := AVAILABLE, pv_value := raw\<rparr>, None)"
  note opt = apply_option_def EqualsIgnoreCase_def Let_def
  have ints: "those (map safelyParseInt32 (map (show_int \<circ> sint) xs)) = Some xs" for xs by (rule those_map) (simp add: parse_int32_show)
  have longs: "those (map safelyParseInt64 (map (show_int \<circ> sint) xs)) = Some xs" for xs by (rule those_map) (simp add: parse_int64_show)
  have fl: "floats = [] \<Longrightarrow> floatValues ?r = []" using assms(1) by simp
  let ?r1 = "empty_raw\<lparr>int32Values := int32Values ?r\<rparr>"
  let ?r2 = "?r1\<lparr>int64Values := int64Values ?r\<rparr>"
  let ?r3 = "?r2\<lparr>floatValues := floatValues ?r\<rparr>"
  let ?r4 = "?r3\<lparr>stringValue := stringValue ?r\<rparr>"
  let ?r5 = "?r4\<lparr>byteValues := byteValues ?r\<rparr>"
  have g1: "(empty_prop_value\<lparr>pv_prop := pv_prop v, pv_status := AVAILABLE\<rparr>, None) = ?p empty_raw" by (simp add: empty_prop_value_def)
  have g2: "run_groups env (group ''-i'' (map (show_int \<circ> sint) (int32Values ?r)) @ gs) (?p empty_raw) = run_groups env gs (?p ?r1)" for gs
    by (rule run_group) (use ints in \<open>auto simp: opt empty_raw_def\<close>)
  have g3: "run_groups env (group ''-i64'' (map (show_int \<circ> sint) (int64Values ?r)) @ gs) (?p ?r1) = run_groups env gs (?p ?r2)" for gs
    by (rule run_group) (use longs in \<open>auto simp: opt empty_raw_def\<close>)
  have g4: "run_groups env (group ''-f'' floats @ gs) (?p ?r2) = run_groups env gs (?p ?r3)" for gs
    by (rule run_group) (use assms(1) fl in \<open>auto simp: opt empty_raw_def\<close>)
  have g5: "run_groups env (group ''-s'' (if stringValue ?r = [] then [] else [stringValue ?r]) @ gs) (?p ?r3) = run_groups env gs (?p ?r4)" for gs
    by (rule run_group) (auto simp: opt empty_raw_def split: if_splits)
  have g6: "run_groups env (group ''-b'' (if byteValues ?r = [] then [] else [''0x'' @ concat (map show_byte (byteValues ?r))]) @ gs) (?p ?r4) =
      run_groups env gs (?p ?r5)" for gs
    by (rule run_group) (use parse_hex_show in \<open>auto simp: opt empty_raw_def split: if_splits\<close>)
  have g7: "run_groups env [(''-a'', [show_int (sint (pv_areaId v))]), (''-t'', [show_int (sint (pv_timestamp v))])] (?p ?r5) =
      Inr (v\<lparr>pv_areaId := 0\<rparr>, Some (show_int (sint (pv_areaId v))))"
    using assms(2) parse_int64_show [of "pv_timestamp v"] by (simp add: opt empty_raw_def empty_prop_value_def)
  show ?thesis unfolding groups_of_def Let_def append_assoc by (simp only: g1 g2 g3 g4 g5 g6 g7)
qed


lemma show_int_no_name: "\<not> is_digit c \<Longrightarrow> c \<noteq> CHR ''-'' \<Longrightarrow> show_int n \<noteq> c # cs"
  using show_nat_digits [of "nat n"] by (auto simp: show_int_def)

text \<open>A value with entries of every type, and an environment that knows one name and one float.\<close>

definition example_set :: VehiclePropValue where
  "example_set = empty_prop_value\<lparr>pv_prop := 0x15400500, pv_areaId := - 68, pv_timestamp := 12, pv_value := empty_raw\<lparr>int32Values := [3, - 2147483648],
     int64Values := [77], floatValues := [0x3FC00000], byteValues := [0xA0, 0x0F], stringValue := ''hello''\<rparr>\<rparr>"

definition example_env :: dump_env where
  "example_env = \<lparr>de_enums = (\<lambda>_. [(''INFO_VIN'', 0x11100100)]), de_ParseFloat = (\<lambda>s. if s = ''1.5'' then Some 0x3FC00000 else None)\<rparr>"


section \<open>Saving and restoring\<close>

lemma stored_at_slot:
  assumes "store_inv (mServerSidePropStore h)" and "slot h v = Some k" and "values_of h k = Some x"
  shows "slot h x = Some k"
proof -
  obtain c where c: "config_of h (pv_prop v) = Some (c, None)"
    using assms(2) by (cases "config_of h (pv_prop v)") (auto simp: slot_def split: option.splits)
  note t = slot_token [OF assms(2)]
  obtain rc r where rc: "getRecordLocked (mServerSidePropStore h) (fst k) = Some rc" "map_of (rec_values rc) (snd k) = Some r" "r_value r = x"
    using assms(3) by (auto simp: abs_store_def bind_eq_Some_conv)
  have ok: "entry_ok (fst k) (propConfig rc) (snd k) x" using store_invD [OF assms(1) rc(1)] rc(2,3) by (auto simp: record_ok_def)
  have "tokenFunction rc = None" using c rc(1) t(2) by (simp add: config_of_def)
  then show ?thesis using ok rc(1) t by (cases k; cases "snd k") (auto simp: slot_def config_of_def entry_ok_def)
qed

lemma readValue_at:
  assumes "key_of h v = Some k" and "values_of h k = Some x" and "readValue v (mServerSidePropStore h) = (res, s)"
  obtains r where "res = Inr r" and "r_value r = x" and "abs_store s = values_of h"
proof -
  have "map_sum id r_value res = Inr x" "abs_store s = values_of h"
    using readValue_abs [of v "mServerSidePropStore h"] assms by simp_all
  then show thesis by (cases res) (auto intro: that)
qed


definition restore_car :: FakeVehicleHardware where
  "restore_car = car [] [(odometer, [(0, float_raw 7)])]"


end
