(* ===== verification/JsonEvents.thy ===== *)
theory JsonEvents
  imports Generators JsonLibrary
begin

text \<open>
  Reading the events of a generator from a JSON file (\<^verbatim>\<open>parseFakeValueJson\<close> in \<^verbatim>\<open>JsonFakeValueGenerator.cpp\<close>). \<open>None\<close> is an exception of the JSON library, or a write
  past the bit mask of a diagnostic frame.
\<close>

definition json_isDiagnosticProperty :: "int32 \<Rightarrow> bool" where
  "json_isDiagnosticProperty prop \<longleftrightarrow> prop = OBD2_LIVE_FRAME \<or> prop = OBD2_FREEZE_FRAME"

definition setBit :: "nat \<Rightarrow> byte list \<Rightarrow> byte list option" where
  "setBit idx bytes =
     (if idx div 8 < length bytes then Some (bytes[idx div 8 := bytes ! (idx div 8) OR push_bit (idx mod 8) 1]) else None)"

text \<open>Setting the bits of the values that are not zero, from a position on.\<close>

fun set_bits :: "('a \<Rightarrow> bool) \<Rightarrow> nat \<Rightarrow> 'a list \<Rightarrow> byte list \<Rightarrow> byte list option" where
  "set_bits nonzero pos [] bytes = Some bytes"
| "set_bits nonzero pos (x # xs) bytes =
     Option.bind (if nonzero x then setBit pos bytes else Some bytes) (set_bits nonzero (Suc pos) xs)"

definition generateDiagnosticBytes :: "RawPropValues \<Rightarrow> byte list option" where
  "generateDiagnosticBytes diagnosticValue =
     (let byteSize = lastIntegerIndex + lastFloatIndex + 2; bytes = replicate ((byteSize + 7) div 8) 0
      in Option.bind (set_bits (\<lambda>x. x \<noteq> 0) 0 (int32Values diagnosticValue) bytes)
           (set_bits (\<lambda>x. \<not> f32_eq x 0) (lastIntegerIndex + 1) (floatValues diagnosticValue)))"

definition copyJsonArray :: "'j json_values \<Rightarrow> ('j \<Rightarrow> 'a option) \<Rightarrow> 'j \<Rightarrow> 'a list option" where
  "copyJsonArray J asT jsonArray = do {xs \<leftarrow> jv_items J jsonArray; those (map asT xs)}"

definition copyMixedValueJson :: "'j json_values \<Rightarrow> 'j \<Rightarrow> RawPropValues option" where
  "copyMixedValueJson J jsonValue = do {
     ints \<leftarrow> Option.bind (jv_get J jsonValue ''int32Values'') (copyJsonArray J (jv_asInt J));
     longs \<leftarrow> Option.bind (jv_get J jsonValue ''int64Values'') (copyJsonArray J (jv_asInt64 J));
     floats \<leftarrow> Option.bind (jv_get J jsonValue ''floatValues'') (copyJsonArray J (jv_asFloat J));
     str \<leftarrow> Option.bind (jv_get J jsonValue ''stringValue'') (jv_asString J);
     Some (empty_raw\<lparr>int32Values := ints, int64Values := longs, floatValues := floats, stringValue := str\<rparr>)
   }"

text \<open>The value of an event; the inner \<open>None\<close> is an unsupported type.\<close>

definition parse_event_value :: "'j json_values \<Rightarrow> int32 \<Rightarrow> 'j \<Rightarrow> RawPropValues option option" where
  "parse_event_value J prop rawEventValue =
     (case getPropType prop of
        BOOLEAN \<Rightarrow> map_option (\<lambda>n. Some (empty_raw\<lparr>int32Values := [n]\<rparr>)) (jv_asInt J rawEventValue)
      | INT32 \<Rightarrow> map_option (\<lambda>n. Some (empty_raw\<lparr>int32Values := [n]\<rparr>)) (jv_asInt J rawEventValue)
      | INT64 \<Rightarrow> map_option (\<lambda>n. Some (empty_raw\<lparr>int64Values := [n]\<rparr>)) (jv_asInt64 J rawEventValue)
      | FLOAT \<Rightarrow> map_option (\<lambda>x. Some (empty_raw\<lparr>floatValues := [x]\<rparr>)) (jv_asFloat J rawEventValue)
      | STRING \<Rightarrow> map_option (\<lambda>s. Some (empty_raw\<lparr>stringValue := s\<rparr>)) (jv_asString J rawEventValue)
      | INT32_VEC \<Rightarrow> map_option (\<lambda>ns. Some (empty_raw\<lparr>int32Values := ns\<rparr>)) (those (map (jv_asInt J) (jv_elements J rawEventValue)))
      | MIXED \<Rightarrow> do {
          raw \<leftarrow> copyMixedValueJson J rawEventValue;
          if json_isDiagnosticProperty prop
          then map_option (\<lambda>bytes. Some (raw\<lparr>byteValues := bytes\<rparr>)) (generateDiagnosticBytes raw)
          else Some (Some raw)
        }
      | _ \<Rightarrow> Some None)"

text \<open>One entry of the file, skipped if it is not an object, has an empty field or an unsupported type.\<close>

definition parse_event :: "'j json_values \<Rightarrow> 'j \<Rightarrow> VehiclePropValue option option" where
  "parse_event J rawEvent =
     (if \<not> jv_isObject J rawEvent then Some None
      else do {
        prop \<leftarrow> jv_get J rawEvent ''prop'';
        areaId \<leftarrow> jv_get J rawEvent ''areaId'';
        value \<leftarrow> jv_get J rawEvent ''value'';
        timestamp \<leftarrow> jv_get J rawEvent ''timestamp'';
        if jv_empty J prop \<or> jv_empty J areaId \<or> jv_empty J value \<or> jv_empty J timestamp then Some None
        else do {
          t \<leftarrow> jv_asInt64 J timestamp;
          a \<leftarrow> jv_asInt J areaId;
          p \<leftarrow> jv_asInt J prop;
          raw \<leftarrow> parse_event_value J p value;
          Some (map_option (\<lambda>r. empty_prop_value\<lparr>pv_timestamp := t, pv_areaId := a, pv_prop := p, pv_value := r\<rparr>) raw)
        }
      })"

fun parse_events :: "'j json_values \<Rightarrow> 'j list \<Rightarrow> VehiclePropValue list option" where
  "parse_events J [] = Some []"
| "parse_events J (x # xs) = do {
     e \<leftarrow> parse_event J x;
     es \<leftarrow> parse_events J xs;
     Some (case e of None \<Rightarrow> es | Some v \<Rightarrow> v # es)
   }"

definition parseFakeValueJson :: "'j json_values \<Rightarrow> string + 'j \<Rightarrow> VehiclePropValue list option" where
  "parseFakeValueJson J input = (case input of Inl _ \<Rightarrow> Some [] | Inr rawEvents \<Rightarrow> Option.bind (jv_items J rawEvents) (parse_events J))"

text \<open>The file system gives what the JSON parser makes of the file, if it can be opened.\<close>

definition initWithPath :: "'j json_values \<Rightarrow> (string \<Rightarrow> (string + 'j) option) \<Rightarrow> string \<Rightarrow> int32 \<Rightarrow> JsonFakeValueGenerator option" where
  "initWithPath J files path iteration =
     (case files path of
        None \<Rightarrow> Some (newJsonGenerator [] 0)
      | Some input \<Rightarrow> map_option (\<lambda>es. newJsonGenerator es iteration) (parseFakeValueJson J input))"

definition json_of_request :: "'j json_values \<Rightarrow> (string \<Rightarrow> (string + 'j) option) \<Rightarrow> VehiclePropValue \<Rightarrow> JsonFakeValueGenerator option" where
  "json_of_request J files request =
     initWithPath J files (stringValue (pv_value request))
       (if length (int32Values (pv_value request)) < 2 then -1 else int32Values (pv_value request) ! 1)"

section \<open>Diagnostic frames\<close>

text \<open>The settings of the sensors whose value is not zero.\<close>

fun int_sets :: "nat \<Rightarrow> int32 list \<Rightarrow> sensor_set list" where
  "int_sets i [] = []"
| "int_sets i (x # xs) = (if x \<noteq> 0 then SetInt i x # int_sets (Suc i) xs else int_sets (Suc i) xs)"

fun float_sets :: "nat \<Rightarrow> f32 list \<Rightarrow> sensor_set list" where
  "float_sets i [] = []"
| "float_sets i (x # xs) = (if \<not> f32_eq x 0 then SetFloat i x # float_sets (Suc i) xs else float_sets (Suc i) xs)"

abbreviation sensor_bytes :: "Obd2SensorStore \<Rightarrow> byte list" where
  "sensor_bytes s \<equiv> mStorage (mSensorsBitmask s)"

lemma setBit_mask: "bm_ok b \<Longrightarrow> i < mNumBits b \<Longrightarrow> bm_set i True b = Inr b' \<Longrightarrow> setBit i (mStorage b) = Some (mStorage b')"
  using bm_ok_index by (auto simp: setBit_def bm_set_def Let_def)

lemma setBit_int:
  assumes "sensors_ok ni nf li lf s" and "i < ni"
  shows "setBit i (sensor_bytes s) = Some (sensor_bytes (snd (setIntegerSensor i x s)))"
proof -
  have "bm_ok (mSensorsBitmask s)" "i < mNumBits (mSensorsBitmask s)" using assms by (auto simp: sensors_ok_def)
  moreover from bm_set_bit [OF this, of True] obtain b where "bm_set i True (mSensorsBitmask s) = Inr b" by metis
  ultimately show ?thesis using assms setBit_mask by (auto simp: setIntegerSensor_def sensors_ok_def Let_def)
qed

lemma setBit_float:
  assumes "sensors_ok ni nf li lf s" and "i < nf"
  shows "setBit (ni + i) (sensor_bytes s) = Some (sensor_bytes (snd (setFloatSensor i x s)))"
proof -
  have "bm_ok (mSensorsBitmask s)" "ni + i < mNumBits (mSensorsBitmask s)" using assms by (auto simp: sensors_ok_def)
  moreover from bm_set_bit [OF this, of True] obtain b where "bm_set (ni + i) True (mSensorsBitmask s) = Inr b" by metis
  ultimately show ?thesis using assms setBit_mask by (auto simp: setFloatSensor_def sensors_ok_def Let_def add.commute)
qed

lemma set_bits_ints:
  assumes "sensors_ok ni nf li lf s" and "i + length xs \<le> ni"
  shows "set_bits (\<lambda>x. x \<noteq> 0) i xs (sensor_bytes s) = Some (sensor_bytes (fold apply_set (int_sets i xs) s))"
  using assms
proof (induction xs arbitrary: i li s)
  case (Cons x xs)
  have "i < ni" using Cons.prems(2) by simp
  from Cons.IH [OF set_int_ok [OF Cons.prems(1)]] Cons.IH [OF Cons.prems(1)] setBit_int [OF Cons.prems(1) this, of x] Cons.prems(2)
  show ?case by simp
qed simp

lemma set_bits_floats:
  assumes "sensors_ok ni nf li lf s" and "i + length xs \<le> nf"
  shows "set_bits (\<lambda>x. \<not> f32_eq x 0) (ni + i) xs (sensor_bytes s) = Some (sensor_bytes (fold apply_set (float_sets i xs) s))"
  using assms
proof (induction xs arbitrary: i lf s)
  case (Cons x xs)
  have "i < nf" using Cons.prems(2) by simp
  from Cons.IH [OF set_float_ok [OF Cons.prems(1)], of "Suc i"] Cons.IH [OF Cons.prems(1), of "Suc i"] setBit_float [OF Cons.prems(1) this, of x] Cons.prems(2)
  show ?case by simp
qed simp

text \<open>A diagnostic event of a file has the bytes of the frame that the sensor store makes when exactly the values other than zero are set.\<close>

theorem diagnostic_frame_exact:
  assumes "length (int32Values raw) \<le> 32" and "length (floatValues raw) \<le> 71"
  shows "generateDiagnosticBytes raw = Some (byteValues (pv_value (r_value (fst (getSensorProperty now dtc
    (fold apply_set (int_sets 0 (int32Values raw) @ float_sets 0 (floatValues raw)) (newObd2SensorStore 0 0)) pool)))))"
proof -
  let ?s0 = "newObd2SensorStore 0 0"
  let ?s1 = "fold apply_set (int_sets 0 (int32Values raw)) ?s0"
  have ok: "sensors_ok 32 71 (\<lambda>_. None) (\<lambda>_. None) ?s0" using new_sensors_ok [of 0 0] by simp
  note ok1 = apply_sets_ok [OF this, of "int_sets 0 (int32Values raw)"]
  have "sensor_bytes ?s0 = replicate 13 0"
    by (simp add: newObd2SensorStore_def bm_resize_def lastIntegerIndex_def lastFloatIndex_def Let_def)
  then have "set_bits (\<lambda>x. x \<noteq> 0) 0 (int32Values raw) (replicate 13 0) = Some (sensor_bytes ?s1)"
    using set_bits_ints [OF ok, of 0 "int32Values raw"] assms(1) by simp
  moreover have "set_bits (\<lambda>x. \<not> f32_eq x 0) 32 (floatValues raw) (sensor_bytes ?s1) = Some (sensor_bytes (fold apply_set (float_sets 0 (floatValues raw)) ?s1))"
    using set_bits_floats [OF ok1, of 0 "floatValues raw"] assms(2) by simp
  moreover have "byteValues (pv_value (r_value (fst (getSensorProperty now dtc s pool)))) = sensor_bytes s" for s
    by (auto simp: getSensorProperty_def Let_def split: prod.splits)
  ultimately show ?thesis by (simp add: generateDiagnosticBytes_def lastIntegerIndex_def lastFloatIndex_def Let_def)
qed

text \<open>Vendor sensors do not fit: the integer after the last sensor sets the bit of the first float sensor, and more of them run over the end of the bytes.\<close>

theorem vendor_sensors_misplaced:
  "generateDiagnosticBytes (empty_raw\<lparr>int32Values := replicate 32 0 @ [7]\<rparr>) = generateDiagnosticBytes (empty_raw\<lparr>floatValues := [0x3f800000]\<rparr>)"
  "generateDiagnosticBytes (empty_raw\<lparr>int32Values := replicate 104 1\<rparr>) \<noteq> None"
  "generateDiagnosticBytes (empty_raw\<lparr>int32Values := replicate 105 1\<rparr>) = None"
  by code_simp+

lemma those_length: "those (map f zs) = Some vs \<Longrightarrow> length vs = length zs"
  by (induction zs arbitrary: vs) (auto split: option.splits)

text \<open>An event of a file passes the check that the service makes of values, except that a value of a vector type has to be an array in the file, and
  that mixed vendor properties depend on their configuration.\<close>

theorem parsed_event_valid:
  assumes "json_library J" and "parse_event J x = Some (Some e)"
    and "getPropType (pv_prop e) = INT32_VEC \<Longrightarrow> \<exists>y. jv_get J x ''value'' = Some y \<and> jv_isArray J y"
    and "getPropType (pv_prop e) = MIXED \<Longrightarrow> getPropGroup (pv_prop e) \<noteq> GROUP_VENDOR"
  shows "checkPropValue e config = Some (Inr ())"
proof -
  obtain y r where y: "jv_get J x ''value'' = Some y" "\<not> jv_empty J y" and r: "parse_event_value J (pv_prop e) y = Some (Some r)" "pv_value e = r"
    using assms(2) by (auto simp: parse_event_def bind_eq_Some_conv split: if_splits)
  have vec: "jv_elements J y \<noteq> []" if "getPropType (pv_prop e) = INT32_VEC"
    using assms(3) [OF that] y json_library.empty_array [OF assms(1), of y] by auto
  show ?thesis
  proof (cases "getPropType (pv_prop e) = INT32_VEC")
    case True
    then obtain vs where "those (map (jv_asInt J) (jv_elements J y)) = Some vs" "int32Values r = vs"
      using r(1) by (auto simp: parse_event_value_def)
    then have "int32Values r \<noteq> []" using vec [OF True] those_length by fastforce
    then show ?thesis using True r(2) by (simp add: checkPropValue_def Suc_le_eq)
  next
    case False
    then show ?thesis unfolding checkPropValue_def Let_def r(2) using r(1) assms(4)
      by (cases "getPropType (pv_prop e)") (auto simp: parse_event_value_def)
  qed
qed

end
