(* ===== verification/FakeGenerate.thy ===== *)
theory FakeGenerate
  imports FakeDump JsonEvents
begin

text \<open>
  The command \<^verbatim>\<open>--genfakedata\<close> of the fake hardware (\<^verbatim>\<open>genFakeDataCommand\<close> in \<^verbatim>\<open>FakeVehicleHardware.cpp\<close>): it starts and stops the event generators and makes
  events of keys and touches. The hub of the generators is a part of the hardware of its own. The JSON library with what it makes of a file or a text, and the
  hash function, are arguments. \<open>None\<close> is an exception of the library or the use of a generator that does not exist.
\<close>

section \<open>Input events\<close>

definition HW_KEY_INPUT :: int32 where "HW_KEY_INPUT = 0x0A10 + 0x10000000 + 0x01000000 + 0x00410000"
definition HW_KEY_INPUT_V2 :: int32 where "HW_KEY_INPUT_V2 = 0x0A11 + 0x10000000 + 0x05000000 + 0x00e00000"
definition HW_MOTION_INPUT :: int32 where "HW_MOTION_INPUT = 0x0A12 + 0x10000000 + 0x05000000 + 0x00e00000"

definition ACTION_DOWN :: int32 where "ACTION_DOWN = 0"
definition ACTION_UP :: int32 where "ACTION_UP = 1"

definition createHwInputKeyProp :: "int32 \<Rightarrow> int32 \<Rightarrow> int32 \<Rightarrow> FakeVehicleHardware \<Rightarrow> VehiclePropValue \<times> FakeVehicleHardware" where
  "createHwInputKeyProp action keyCode targetDisplay h =
     (let (now, h') = elapsedRealtimeNano h
      in (empty_prop_value\<lparr>pv_timestamp := now, pv_areaId := 0, pv_prop := HW_KEY_INPUT, pv_status := AVAILABLE,
            pv_value := empty_raw\<lparr>int32Values := [action, keyCode, targetDisplay]\<rparr>\<rparr>, h'))"

definition createHwKeyInputV2Prop ::
  "int32 \<Rightarrow> int32 \<Rightarrow> int32 \<Rightarrow> int32 \<Rightarrow> int32 \<Rightarrow> FakeVehicleHardware \<Rightarrow> VehiclePropValue \<times> FakeVehicleHardware" where
  "createHwKeyInputV2Prop area targetDisplay keyCode action repeatCount h =
     (let (now, h1) = elapsedRealtimeNano h; (now2, h2) = elapsedRealtimeNano h1
      in (empty_prop_value\<lparr>pv_timestamp := now, pv_areaId := area, pv_prop := HW_KEY_INPUT_V2, pv_status := AVAILABLE,
            pv_value := empty_raw\<lparr>int32Values := [targetDisplay, keyCode, action, repeatCount], int64Values := [now2]\<rparr>\<rparr>, h2))"

text \<open>A pointer: its id and tool, and its position, pressure and size.\<close>

type_synonym pointer = "int32 \<times> int32 \<times> f32 \<times> f32 \<times> f32 \<times> f32"

definition createHwMotionInputProp ::
  "int32 \<Rightarrow> int32 \<Rightarrow> int32 \<Rightarrow> int32 \<Rightarrow> int32 \<Rightarrow> pointer list \<Rightarrow> FakeVehicleHardware \<Rightarrow> VehiclePropValue \<times> FakeVehicleHardware" where
  "createHwMotionInputProp area display inputType action buttonState pointers h =
     (let (now, h1) = elapsedRealtimeNano h; (now2, h2) = elapsedRealtimeNano h1;
          ints = [display, inputType, action, buttonState, of_nat (length pointers)] @ map fst pointers @ map (fst \<circ> snd) pointers;
          floats = map (\<lambda>(_, _, x, _, _, _). x) pointers @ map (\<lambda>(_, _, _, y, _, _). y) pointers @
            map (\<lambda>(_, _, _, _, p, _). p) pointers @ map (\<lambda>(_, _, _, _, _, s). s) pointers
      in (empty_prop_value\<lparr>pv_timestamp := now, pv_areaId := area, pv_prop := HW_MOTION_INPUT, pv_status := AVAILABLE,
            pv_value := empty_raw\<lparr>int32Values := ints, floatValues := floats, int64Values := [now2]\<rparr>\<rparr>, h2))"

definition send_event :: "VehiclePropValue \<times> FakeVehicleHardware \<Rightarrow> FakeVehicleHardware" where
  "send_event = (\<lambda>(v, h). onValueChangeCallback v h)"

section \<open>Arguments\<close>

record 'j gen_env =
  ge_dump :: dump_env
  ge_json :: "'j json_values"
  ge_files :: "string \<Rightarrow> (string + 'j) option"
  ge_parse :: "string \<Rightarrow> string + 'j"
  ge_hash :: "string \<Rightarrow> int32"

definition parse_pointer :: "dump_env \<Rightarrow> string list \<Rightarrow> dump_error + pointer" where
  "parse_pointer env args =
     (case args of
        [marker, i, t, x, y, p, s] \<Rightarrow>
          if marker \<noteq> ''--pointer'' then Inl NoPointer
          else (case (safelyParseInt32 i, safelyParseInt32 t, de_ParseFloat env x, de_ParseFloat env y, de_ParseFloat env p, de_ParseFloat env s) of
                  (Some i', Some t', Some x', Some y', Some p', Some s') \<Rightarrow> Inr (i', t', x', y', p', s')
                | _ \<Rightarrow> Inl (InvalidValue marker))
      | _ \<Rightarrow> Inl NoPointer)"

fun parse_pointers :: "dump_env \<Rightarrow> nat \<Rightarrow> string list \<Rightarrow> dump_error + pointer list" where
  "parse_pointers env 0 args = Inr []"
| "parse_pointers env (Suc n) args =
     (case parse_pointer env (take 7 args) of
        Inl e \<Rightarrow> Inl e
      | Inr p \<Rightarrow> (case parse_pointers env n (drop 7 args) of Inl e \<Rightarrow> Inl e | Inr ps \<Rightarrow> Inr (p # ps)))"

section \<open>The command\<close>

type_synonym gen_state = "GeneratorHub \<times> FakeVehicleHardware"

definition register_at :: "int32 \<Rightarrow> FakeValueGenerator \<Rightarrow> gen_state \<Rightarrow> gen_state option" where
  "register_at i generator st =
     (case st of (hub, h) \<Rightarrow>
        let (now, h') = elapsedRealtimeNano h in map_option (\<lambda>hub'. (hub', h')) (registerGenerator now i generator hub))"

definition start_linear :: "dump_env \<Rightarrow> string list \<Rightarrow> gen_state \<Rightarrow> ((dump_error + unit) \<times> gen_state) option" where
  "start_linear env options st =
     (if length options \<noteq> 8 then Some (Inl WrongCount, st)
      else case (safelyParseInt32 (options ! 2), de_ParseFloat env (options ! 3), de_ParseFloat env (options ! 4), de_ParseFloat env (options ! 5),
                 de_ParseFloat env (options ! 6), safelyParseInt64 (options ! 7)) of
             (Some propId, Some middleValue, Some currentValue, Some dispersion, Some increment, Some interval) \<Rightarrow>
               map_option (Pair (Inr ()))
                 (register_at propId (LinearFakeValueGenerator (initGenCfg propId middleValue currentValue dispersion increment interval)) st)
           | _ \<Rightarrow> Some (Inl (InvalidValue (options ! 1)), st))"

definition stop_generator :: "string list \<Rightarrow> gen_state \<Rightarrow> (dump_error + unit) \<times> gen_state" where
  "stop_generator options st =
     (if length options \<noteq> 3 then (Inl WrongCount, st)
      else case safelyParseInt32 (options ! 2) of
             None \<Rightarrow> (Inl (InvalidValue (options ! 1)), st)
           | Some i \<Rightarrow>
               (case unregisterGenerator i (fst st) of (removed, hub) \<Rightarrow> (if removed then Inr () else Inl NotFound, (hub, snd st))))"

text \<open>The generator of the command to replay a file or a text; the inner \<open>None\<close> is the pointer that is still null.\<close>

definition json_generator :: "'j gen_env \<Rightarrow> string list \<Rightarrow> int32 \<Rightarrow> JsonFakeValueGenerator option option" where
  "json_generator ge options repetition =
     (if options ! 2 = ''--path'' then map_option Some (initWithPath (ge_json ge) (ge_files ge) (options ! 3) repetition)
      else if options ! 2 = ''--content''
      then map_option (\<lambda>es. Some (newJsonGenerator es repetition)) (parseFakeValueJson (ge_json ge) (ge_parse ge (options ! 3)))
      else Some None)"

definition start_json :: "'j gen_env \<Rightarrow> string list \<Rightarrow> gen_state \<Rightarrow> ((dump_error + unit) \<times> gen_state) option" where
  "start_json ge options st =
     (if length options \<noteq> 4 \<and> length options \<noteq> 5 then Some (Inl WrongCount, st)
      else case (if length options = 5 then safelyParseInt32 (options ! 4) else Some (-1)) of
             None \<Rightarrow> Some (Inl (InvalidValue (options ! 1)), st)
           | Some repetition \<Rightarrow> do {
               maybeGenerator \<leftarrow> json_generator ge options repetition;
               generator \<leftarrow> maybeGenerator;
               if \<not> hasNext generator then Some (Inl NoEvents, st)
               else map_option (Pair (Inr ())) (register_at (ge_hash ge (options ! 3)) (JsonFakeValueGenerator generator) st)
             })"

definition key_press :: "string list \<Rightarrow> gen_state \<Rightarrow> (dump_error + unit) \<times> gen_state" where
  "key_press options st =
     (if length options \<noteq> 4 then (Inl WrongCount, st)
      else case (safelyParseInt32 (options ! 2), safelyParseInt32 (options ! 3)) of
             (Some keyCode, Some display) \<Rightarrow>
               (Inr (), (fst st, send_event (createHwInputKeyProp ACTION_UP keyCode display
                 (send_event (createHwInputKeyProp ACTION_DOWN keyCode display (snd st))))))
           | _ \<Rightarrow> (Inl (InvalidValue (options ! 1)), st))"

definition key_input_v2 :: "string list \<Rightarrow> gen_state \<Rightarrow> (dump_error + unit) \<times> gen_state" where
  "key_input_v2 options st =
     (if length options \<noteq> 7 then (Inl WrongCount, st)
      else case those (map safelyParseInt32 (drop 2 options)) of
             Some [area, display, keyCode, action, repeatCount] \<Rightarrow>
               (Inr (), (fst st, send_event (createHwKeyInputV2Prop area display keyCode action repeatCount (snd st))))
           | _ \<Rightarrow> (Inl (InvalidValue (options ! 1)), st))"

definition motion_input :: "dump_env \<Rightarrow> string list \<Rightarrow> gen_state \<Rightarrow> (dump_error + unit) \<times> gen_state" where
  "motion_input env options st =
     (let optionsSize = length options
      in if optionsSize div 7 < 2 then (Inl WrongCount, st)
         else if optionsSize mod 7 \<noteq> 0 then (Inl WrongCount, st)
         else case those (map safelyParseInt32 (take 5 (drop 2 options))) of
                Some [area, display, inputType, action, buttonState] \<Rightarrow>
                  (case parse_pointers env (optionsSize div 7 - 1) (drop 7 options) of
                     Inl e \<Rightarrow> (Inl e, st)
                   | Inr pointers \<Rightarrow>
                       (Inr (), (fst st, send_event (createHwMotionInputProp area display inputType action buttonState pointers (snd st)))))
              | _ \<Rightarrow> (Inl (InvalidValue (options ! 1)), st))"

definition genFakeDataCommand :: "'j gen_env \<Rightarrow> string list \<Rightarrow> gen_state \<Rightarrow> ((dump_error + unit) \<times> gen_state) option" where
  "genFakeDataCommand ge options st =
     (if length options < 2 then Some (Inl TooFewArguments, st)
      else let command = options ! 1
           in if command = ''--startlinear'' then start_linear (ge_dump ge) options st
              else if command = ''--stoplinear'' then Some (stop_generator options st)
              else if command = ''--startjson'' then start_json ge options st
              else if command = ''--stopjson'' then Some (stop_generator options st)
              else if command = ''--keypress'' then Some (key_press options st)
              else if command = ''--keyinputv2'' then Some (key_input_v2 options st)
              else if command = ''--motioninput'' then Some (motion_input (ge_dump ge) options st)
              else Some (Inl (UnknownCommand command), st))"

section \<open>Refused commands\<close>

text \<open>A command that is refused leaves the generators and the hardware as they were.\<close>

theorem refused_generation:
  assumes "genFakeDataCommand ge options st = Some (Inl e, st')"
  shows "st' = st"
proof -
  have stop: "stop_generator options st = (Inl e, st') \<Longrightarrow> st' = st"
    by (cases st) (auto simp: stop_generator_def unregisterGenerator_def delete_idem map_of_eq_None_iff split: if_splits option.splits)
  show ?thesis using assms stop
    by (auto simp: genFakeDataCommand_def start_linear_def start_json_def key_press_def key_input_v2_def motion_input_def Let_def
        bind_eq_Some_conv split: if_splits option.splits list.splits sum.splits)
qed

text \<open>\<^verbatim>\<open>--startjson\<close> with a third word other than \<^verbatim>\<open>--path\<close> and \<^verbatim>\<open>--content\<close> registers a generator that was never made.\<close>

theorem startjson_without_source:
  assumes "options ! 1 = ''--startjson''" and "length options = 4" and "options ! 2 \<noteq> ''--path''" and "options ! 2 \<noteq> ''--content''"
  shows "genFakeDataCommand ge options st = None"
  using assms by (simp add: genFakeDataCommand_def start_json_def json_generator_def Let_def)

end
