(* ===== verification/FakeCommands.thy ===== *)
theory FakeCommands
  imports FakeGenerate FakeRuns
begin

text \<open>
  The dispatcher of the text commands (\<^verbatim>\<open>dump\<close> in \<^verbatim>\<open>FakeVehicleHardware.cpp\<close>) and the commands that show properties and subscriptions. The answer of a command is
  what its text tells, not the text. Every command keeps the invariants of the hardware.
\<close>

section \<open>Commands that show\<close>

definition dumpOnePropertyById :: "power_service \<Rightarrow> int32 \<Rightarrow> int32 \<Rightarrow> FakeVehicleHardware \<Rightarrow> ((int32 + VehiclePropValue) \<times> FakeVehicleHardware) option" where
  "dumpOnePropertyById service propId areaId h = read_shown service (empty_prop_value\<lparr>pv_areaId := areaId, pv_prop := propId\<rparr>) h"

fun dump_areas :: "power_service \<Rightarrow> int32 \<Rightarrow> int32 list \<Rightarrow> FakeVehicleHardware \<Rightarrow> ((int32 + VehiclePropValue) list \<times> FakeVehicleHardware) option" where
  "dump_areas service propId [] h = Some ([], h)"
| "dump_areas service propId (a # as) h = do {
     (shown, h1) \<leftarrow> dumpOnePropertyById service propId a h;
     (rest, h2) \<leftarrow> dump_areas service propId as h1;
     Some (shown # rest, h2)
   }"

definition dumpOnePropertyByConfig ::
  "power_service \<Rightarrow> VehiclePropConfig \<Rightarrow> FakeVehicleHardware \<Rightarrow> ((int32 + VehiclePropValue) list \<times> FakeVehicleHardware) option" where
  "dumpOnePropertyByConfig service config h =
     dump_areas service (pc_prop config) (if areaConfigs config = [] then [0] else map ac_areaId (areaConfigs config)) h"

text \<open>What is shown of each property: an error, or the values of its areas.\<close>

type_synonym shown_props = "(dump_error + (int32 + VehiclePropValue) list) list"

fun dump_configs :: "power_service \<Rightarrow> VehiclePropConfig list \<Rightarrow> FakeVehicleHardware \<Rightarrow> (shown_props \<times> FakeVehicleHardware) option" where
  "dump_configs service [] h = Some ([], h)"
| "dump_configs service (c # cs) h = do {
     (shown, h1) \<leftarrow> dumpOnePropertyByConfig service c h;
     (rest, h2) \<leftarrow> dump_configs service cs h1;
     Some (Inr shown # rest, h2)
   }"

definition dumpAllProperties :: "power_service \<Rightarrow> FakeVehicleHardware \<Rightarrow> (shown_props \<times> FakeVehicleHardware) option" where
  "dumpAllProperties service h = dump_configs service (getAllConfigs (mServerSidePropStore h)) h"

definition dumpListProperties :: "FakeVehicleHardware \<Rightarrow> (int32 \<times> int32 list) list" where
  "dumpListProperties h = map (\<lambda>c. (pc_prop c, map ac_areaId (areaConfigs c))) (getAllConfigs (mServerSidePropStore h))"

fun dump_specific :: "power_service \<Rightarrow> dump_env \<Rightarrow> string list \<Rightarrow> FakeVehicleHardware \<Rightarrow> (shown_props \<times> FakeVehicleHardware) option" where
  "dump_specific service env [] h = Some ([], h)"
| "dump_specific service env (s # ss) h = do {
     (shown, h1) \<leftarrow>
       (case parsePropId env s of
          None \<Rightarrow> Some (Inl InvalidPropId, h)
        | Some prop \<Rightarrow>
            (case getPropConfig prop (mServerSidePropStore h) of
               Inl _ \<Rightarrow> Some (Inl NotSupported, h)
             | Inr config \<Rightarrow> map_option (\<lambda>(vs, h'). (Inr vs, h')) (dumpOnePropertyByConfig service config h)));
     (rest, h2) \<leftarrow> dump_specific service env ss h1;
     Some (shown # rest, h2)
   }"

definition dumpSpecificProperty ::
  "power_service \<Rightarrow> dump_env \<Rightarrow> string list \<Rightarrow> FakeVehicleHardware \<Rightarrow> ((dump_error + shown_props) \<times> FakeVehicleHardware) option" where
  "dumpSpecificProperty service env options h =
     (if \<not> checkArgumentsSize options 2 then Some (Inl TooFewArguments, h)
      else map_option (\<lambda>(shown, h'). (Inr shown, h')) (dump_specific service env (tl options) h))"

text \<open>The subscriptions: the area, the interval its rate is computed from, and whether only changes are sent. An area without an entry would get an
  empty one.\<close>

fun dump_refreshed :: "PropIdAreaId list \<Rightarrow> FakeVehicleHardware \<Rightarrow> (PropIdAreaId \<times> int64 \<times> bool) list \<times> FakeVehicleHardware" where
  "dump_refreshed [] h = ([], h)"
| "dump_refreshed (k # ks) h =
     (let info = (case map_of (mRefreshInfoByPropIdAreaId h) k of Some i \<Rightarrow> i | None \<Rightarrow> \<lparr>ri_eventMode = ON_VALUE_CHANGE, ri_intervalInNanos = 0\<rparr>);
          h1 = (if map_of (mRefreshInfoByPropIdAreaId h) k = None
                then h\<lparr>mRefreshInfoByPropIdAreaId := AList.update k info (mRefreshInfoByPropIdAreaId h)\<rparr> else h);
          (rest, h2) = dump_refreshed ks h1
      in ((k, ri_intervalInNanos info, ri_eventMode info = ON_VALUE_CHANGE) # rest, h2))"

definition dumpSubscriptions :: "FakeVehicleHardware \<Rightarrow> ((PropIdAreaId \<times> int64 \<times> bool) list \<times> PropIdAreaId list) \<times> FakeVehicleHardware" where
  "dumpSubscriptions h =
     (let (continuous, h') = dump_refreshed (concat (map (propIdAreaIdsToRefresh \<circ> snd) (mActionByIntervalInNanos h))) h
      in ((continuous, mSubOnChangePropIdAreaIds h'), h'))"

section \<open>The dispatcher\<close>

datatype dump_answer =
    AllProperties shown_props | HelpText | PropertyList "(int32 \<times> int32 list) list" | SomeProperties "dump_error + shown_props"
  | ShownValue "dump_error + VehiclePropValue" | Answered "dump_error + unit" | UserHalState FakeUserHal | VendorConfigs
  | ShownSubscriptions "(PropIdAreaId \<times> int64 \<times> bool) list" "PropIdAreaId list" | InvalidOption string

record dump_result =
  dr_callerShouldDumpState :: bool
  dr_refreshPropertyConfigs :: bool
  dr_answer :: dump_answer
  dr_supportedValueChanges :: "PropIdAreaId list"

record dump_state =
  ds_hub :: GeneratorHub
  ds_saved :: saved_props
  ds_hw :: FakeVehicleHardware

definition answers :: "dump_answer \<Rightarrow> dump_result" where
  "answers a = \<lparr>dr_callerShouldDumpState = False, dr_refreshPropertyConfigs = False, dr_answer = a, dr_supportedValueChanges = []\<rparr>"

definition fake_dump :: "power_service \<Rightarrow> 'j gen_env \<Rightarrow> string list \<Rightarrow> dump_state \<Rightarrow> (dump_result \<times> dump_state) option" where
  "fake_dump service ge options st =
     (let h = ds_hw st; env = ge_dump ge
      in if options = []
         then map_option (\<lambda>(x, h'). ((answers (AllProperties x))\<lparr>dr_callerShouldDumpState := True\<rparr>, st\<lparr>ds_hw := h'\<rparr>)) (dumpAllProperties service h)
         else let option = hd options
         in if EqualsIgnoreCase option ''--help'' then Some (answers HelpText, st)
         else if EqualsIgnoreCase option ''--list'' then Some (answers (PropertyList (dumpListProperties h)), st)
         else if EqualsIgnoreCase option ''--get''
         then map_option (\<lambda>(x, h'). (answers (SomeProperties x), st\<lparr>ds_hw := h'\<rparr>)) (dumpSpecificProperty service env options h)
         else if EqualsIgnoreCase option ''--getWithArg''
         then map_option (\<lambda>(x, h'). (answers (ShownValue x), st\<lparr>ds_hw := h'\<rparr>)) (dumpGetPropertyWithArg service env options h)
         else if EqualsIgnoreCase option ''--set''
         then map_option (\<lambda>(x, h'). (answers (Answered x), st\<lparr>ds_hw := h'\<rparr>)) (dumpSetProperties env options h)
         else if EqualsIgnoreCase option ''--save-prop''
         then (let (x, saved, h') = dumpSaveProperty env options (ds_saved st) h in Some (answers (Answered x), st\<lparr>ds_saved := saved, ds_hw := h'\<rparr>))
         else if EqualsIgnoreCase option ''--restore-prop''
         then (let (x, saved, h') = dumpRestoreProperty env options (ds_saved st) h in Some (answers (Answered x), st\<lparr>ds_saved := saved, ds_hw := h'\<rparr>))
         else if EqualsIgnoreCase option ''--inject-event''
         then (let (x, h') = dumpInjectEvent env options h in Some (answers (Answered x), st\<lparr>ds_hw := h'\<rparr>))
         else if EqualsIgnoreCase option ''--user-hal'' then Some (answers (UserHalState (mFakeUserHal h)), st)
         else if EqualsIgnoreCase option ''--genfakedata''
         then map_option (\<lambda>(x, hub, h'). (answers (Answered x), st\<lparr>ds_hub := hub, ds_hw := h'\<rparr>)) (genFakeDataCommand ge options (ds_hub st, h))
         else if EqualsIgnoreCase option ''--genTestVendorConfigs''
         then Some ((answers VendorConfigs)\<lparr>dr_refreshPropertyConfigs := True\<rparr>, st\<lparr>ds_hw := h\<lparr>mAddExtraTestVendorConfigs := True\<rparr>\<rparr>)
         else if EqualsIgnoreCase option ''--restoreVendorConfigs''
         then Some ((answers VendorConfigs)\<lparr>dr_refreshPropertyConfigs := True\<rparr>, st\<lparr>ds_hw := h\<lparr>mAddExtraTestVendorConfigs := False\<rparr>\<rparr>)
         else if EqualsIgnoreCase option ''--dumpSub''
         then (let ((continuous, onChange), h') = dumpSubscriptions h in Some (answers (ShownSubscriptions continuous onChange), st\<lparr>ds_hw := h'\<rparr>))
         else if EqualsIgnoreCase option ''--set-minmaxvalue''
         then (let (x, changed, h') = dumpSetMinMaxValue env options h in Some ((answers (Answered x))\<lparr>dr_supportedValueChanges := changed\<rparr>, st\<lparr>ds_hw := h'\<rparr>))
         else if EqualsIgnoreCase option ''--set-supportedvalues''
         then (let (x, changed, h') = dumpSetSupportedValues env options h in Some ((answers (Answered x))\<lparr>dr_supportedValueChanges := changed\<rparr>, st\<lparr>ds_hw := h'\<rparr>))
         else Some (answers (InvalidOption option), st))"

end
