(* ===== verification/FakeCommandsProofs.thy ===== *)
theory FakeCommandsProofs
  imports FakeCommands FakeRequests
begin

text \<open>
  Every text command keeps the invariants of the fake hardware, and the list of subscriptions is exact.
\<close>

section \<open>What commands keep\<close>

text \<open>A property of the new state, where there is one.\<close>

definition keeps :: "(dump_state \<Rightarrow> bool) \<Rightarrow> ('a \<times> dump_state) option \<Rightarrow> bool" where
  "keeps Q m \<longleftrightarrow> (\<forall>x. m = Some x \<longrightarrow> Q (snd x))"

lemma keeps_if: "(b \<Longrightarrow> keeps Q x) \<Longrightarrow> (\<not> b \<Longrightarrow> keeps Q y) \<Longrightarrow> keeps Q (if b then x else y)"
  by simp

text \<open>A property of the hardware that neither the store, the clock, the supported values nor the delivery of events touch.\<close>

locale dump_kept = hw_kept +
  assumes keep_min [simp]: "P h \<Longrightarrow> P (h\<lparr>mMinSupportedValueByPropIdAreaId := m\<rparr>)"
    and keep_max [simp]: "P h \<Longrightarrow> P (h\<lparr>mMaxSupportedValueByPropIdAreaId := m\<rparr>)"
    and keep_supported [simp]: "P h \<Longrightarrow> P (h\<lparr>mSupportedValuesByPropIdAreaId := l\<rparr>)"
    and keep_vendor [simp]: "P h \<Longrightarrow> P (h\<lparr>mAddExtraTestVendorConfigs := b\<rparr>)"
    and keep_event [simp]: "P h \<Longrightarrow> P (onValueChangeCallback v h)"
begin

lemma kept_shown: "P h \<Longrightarrow> kept P (read_shown service v h)"
  unfolding read_shown_def
  by (rule kept_bind [OF kept_maybe_get]) (auto simp: Let_def case_prod_beta split: option.split sum.split)

lemma kept_areas: "P h \<Longrightarrow> kept P (dump_areas service p as h)"
proof (induction as arbitrary: h)
  case (Cons a as)
  have "kept P (dumpOnePropertyById service p a h)" unfolding dumpOnePropertyById_def by (rule kept_shown [OF Cons.prems])
  then show ?case by (auto intro!: kept_bind Cons.IH)
qed simp

lemma kept_config: "P h \<Longrightarrow> kept P (dumpOnePropertyByConfig service c h)"
  by (simp add: dumpOnePropertyByConfig_def kept_areas)

lemma kept_configs: "P h \<Longrightarrow> kept P (dump_configs service cs h)"
  by (induction cs arbitrary: h) (auto intro!: kept_bind kept_config)

lemma kept_specific: "P h \<Longrightarrow> kept P (dump_specific service env ss h)"
proof (induction ss arbitrary: h)
  case (Cons s ss)
  show ?case unfolding dump_specific.simps
    by (rule kept_bind) (auto simp: kept_config Cons.prems split: option.split sum.split intro!: kept_bind Cons.IH)
qed simp

lemma kept_show:
  assumes "P h"
  shows "kept P (dumpAllProperties service h)" "kept P (dumpSpecificProperty service env options h)" "kept P (dumpGetPropertyWithArg service env options h)"
  using assms by (auto simp: dumpAllProperties_def dumpSpecificProperty_def dumpGetPropertyWithArg_def kept_configs kept_specific kept_shown split: sum.split)

lemma kept_dump_set: "P h \<Longrightarrow> kept P (dumpSetProperties env options h)"
  unfolding dumpSetProperties_def
  by (auto simp: Let_def case_prod_beta split: sum.split option.split intro!: kept_bind kept_maybe_set)

lemma keep_saving:
  assumes "P h"
  shows "P (snd (snd (dumpSaveProperty env options saved h)))" and "P (snd (snd (dumpRestoreProperty env options saved h)))"
  using assms by (auto simp: dumpSaveProperty_def dumpRestoreProperty_def Let_def case_prod_beta split: sum.split option.split)

lemma keep_bus: "P h \<Longrightarrow> P (eventFromVehicleBus v h)"
  by (simp add: eventFromVehicleBus_def case_prod_beta)

lemma keep_inject: "P h \<Longrightarrow> P (snd (dumpInjectEvent env options h))"
  by (auto simp: dumpInjectEvent_def keep_bus split: sum.split)

lemma keep_minmax: "P h \<Longrightarrow> P (snd (parseAndSetMinMaxValue parse exceeds create p a options i h))"
  by (auto simp: parseAndSetMinMaxValue_def setMinSupportedValueLocked_def setMaxSupportedValueLocked_def split: sum.split)

lemma keep_values:
  assumes "P h"
  shows "P (snd (snd (dumpSetMinMaxValue env options h)))" and "P (snd (snd (dumpSetSupportedValues env options h)))"
  using assms
  by (auto simp: keep_minmax dumpSetMinMaxValue_def dumpSetSupportedValues_def Let_def case_prod_beta split: sum.split VehiclePropertyType.split)

text \<open>The generators change the hub and read the clock; the events of keys and touches are delivered.\<close>

lemma keep_sent: "P h \<Longrightarrow> P (send_event (createHwInputKeyProp a k d h))" "P h \<Longrightarrow> P (send_event (createHwKeyInputV2Prop a d k ac rc h))"
  "P h \<Longrightarrow> P (send_event (createHwMotionInputProp a d i ac b ps h))"
  by (simp_all add: send_event_def createHwInputKeyProp_def createHwKeyInputV2Prop_def createHwMotionInputProp_def Let_def case_prod_beta)

lemma kept_register: "register_at i g st = Some st' \<Longrightarrow> P (snd st) \<Longrightarrow> P (snd st')"
  by (auto simp: register_at_def case_prod_beta Let_def)

lemma kept_generate: "genFakeDataCommand ge options st = Some (r, st') \<Longrightarrow> P (snd st) \<Longrightarrow> P (snd st')"
  by (auto simp: genFakeDataCommand_def start_linear_def stop_generator_def start_json_def key_press_def key_input_v2_def motion_input_def Let_def
      bind_eq_Some_conv keep_sent dest: kept_register split: if_splits option.splits list.splits sum.splits prod.splits)

text \<open>All commands but the one that shows the subscriptions.\<close>

lemma keeps_map: "kept P m \<Longrightarrow> keeps (\<lambda>st. P (ds_hw st)) (map_option (\<lambda>(x, h'). (f x, st\<lparr>ds_hw := h'\<rparr>)) m)"
  by (auto simp: keeps_def kept_def)

lemma keeps_generate:
  "P (ds_hw st) \<Longrightarrow>
     keeps (\<lambda>st. P (ds_hw st)) (map_option (\<lambda>(x, hub, h'). (f x, st\<lparr>ds_hub := hub, ds_hw := h'\<rparr>)) (genFakeDataCommand ge options (ds_hub st, ds_hw st)))"
  using kept_generate [of ge options "(ds_hub st, ds_hw st)"] by (auto simp: keeps_def)

lemma keeps_dump:
  assumes "P (ds_hw st)" and "options \<noteq> [] \<Longrightarrow> \<not> EqualsIgnoreCase (hd options) ''--dumpSub''"
  shows "keeps (\<lambda>st. P (ds_hw st)) (fake_dump service ge options st)"
  unfolding fake_dump_def Let_def
  by (intro keeps_if keeps_map keeps_generate kept_show kept_dump_set)
    (use assms keep_saving [OF assms(1)] keep_inject [OF assms(1)] keep_values [OF assms(1)] in \<open>auto simp: keeps_def case_prod_beta\<close>)

end

section \<open>The invariants\<close>

lemma event_frame: "\<exists>e. onValueChangeCallback v h = h\<lparr>emitted := e\<rparr>"
proof (cases "mOnPropertyChangeCallback h")
  case False
  then show ?thesis by (intro exI [of _ "emitted h"]) (simp add: onValueChangeCallback_def onValuesChangeCallback_def)
qed (auto simp: onValueChangeCallback_def onValuesChangeCallback_def)

lemma event_keeps: "subs_part (onValueChangeCallback v h) = subs_part h" "mServerSidePropStore (onValueChangeCallback v h) = mServerSidePropStore h"
  using event_frame [of v h] by auto

interpretation dump_subs: dump_kept "\<lambda>h. subs_part h = c" for c
  by unfold_locales (simp_all add: event_keeps, simp_all add: subs_part_def)

interpretation dump_store: dump_kept "\<lambda>h. store_inv (mServerSidePropStore h)"
  by unfold_locales (simp_all add: event_keeps)

text \<open>Showing the subscriptions finds an entry for every area that is refreshed, and so changes nothing.\<close>

lemma dump_refreshed_entries:
  assumes "\<forall>k \<in> set ks. map_of (mRefreshInfoByPropIdAreaId h) k \<noteq> None"
  shows "dump_refreshed ks h = (map (\<lambda>k. let info = the (map_of (mRefreshInfoByPropIdAreaId h) k) in
    (k, ri_intervalInNanos info, ri_eventMode info = ON_VALUE_CHANGE)) ks, h)"
  using assms by (induction ks) (auto simp: Let_def)

definition refreshed_areas :: "FakeVehicleHardware \<Rightarrow> PropIdAreaId list" where
  "refreshed_areas h = concat (map (propIdAreaIdsToRefresh \<circ> snd) (mActionByIntervalInNanos h))"

lemma refreshed_entry:
  assumes "refresh_inv h"
  shows "k \<in> set (refreshed_areas h) \<longleftrightarrow> map_of (mRefreshInfoByPropIdAreaId h) k \<noteq> None"
proof -
  have wf: "wf_alist (mActionByIntervalInNanos h)" using assms by (simp add: refresh_inv_def)
  have a: "(i, a) \<in> set (mActionByIntervalInNanos h) \<longleftrightarrow> map_of (mActionByIntervalInNanos h) i = Some a" for i a using wf by simp
  show ?thesis
  proof
    assume "k \<in> set (refreshed_areas h)"
    then obtain i a where "map_of (mActionByIntervalInNanos h) i = Some a" "k \<in> set (propIdAreaIdsToRefresh a)"
      using a by (auto simp: refreshed_areas_def)
    then show "map_of (mRefreshInfoByPropIdAreaId h) k \<noteq> None" using assms unfolding refresh_inv_def by fastforce
  next
    assume "map_of (mRefreshInfoByPropIdAreaId h) k \<noteq> None"
    then obtain info where "map_of (mRefreshInfoByPropIdAreaId h) k = Some info" by blast
    then obtain x where "map_of (mActionByIntervalInNanos h) (ri_intervalInNanos info) = Some x" "k \<in> set (propIdAreaIdsToRefresh x)"
      using refresh_invD(1) [OF assms] by blast
    then show "k \<in> set (refreshed_areas h)" using a by (force simp: refreshed_areas_def)
  qed
qed

lemma shown_subscriptions:
  assumes "refresh_inv h"
  shows "dumpSubscriptions h = ((map (\<lambda>k. let info = the (map_of (mRefreshInfoByPropIdAreaId h) k) in
    (k, ri_intervalInNanos info, ri_eventMode info = ON_VALUE_CHANGE)) (refreshed_areas h), mSubOnChangePropIdAreaIds h), h)"
proof -
  have "\<forall>k \<in> set (refreshed_areas h). map_of (mRefreshInfoByPropIdAreaId h) k \<noteq> None" using refreshed_entry [OF assms] by blast
  from dump_refreshed_entries [OF this] show ?thesis unfolding dumpSubscriptions_def refreshed_areas_def by simp
qed

lemma fake_dump_subs:
  assumes "EqualsIgnoreCase option ''--dumpSub''"
  shows "fake_dump service ge (option # args) st =
    (let ((continuous, onChange), h') = dumpSubscriptions (ds_hw st) in Some (answers (ShownSubscriptions continuous onChange), st\<lparr>ds_hw := h'\<rparr>))"
proof -
  have o: "map lower option = map lower ''--dumpSub''" using assms unfolding EqualsIgnoreCase_def .
  have n: "\<not> EqualsIgnoreCase option ''--help''" "\<not> EqualsIgnoreCase option ''--list''" "\<not> EqualsIgnoreCase option ''--get''"
    "\<not> EqualsIgnoreCase option ''--getWithArg''" "\<not> EqualsIgnoreCase option ''--set''" "\<not> EqualsIgnoreCase option ''--save-prop''"
    "\<not> EqualsIgnoreCase option ''--restore-prop''" "\<not> EqualsIgnoreCase option ''--inject-event''" "\<not> EqualsIgnoreCase option ''--user-hal''"
    "\<not> EqualsIgnoreCase option ''--genfakedata''" "\<not> EqualsIgnoreCase option ''--genTestVendorConfigs''"
    "\<not> EqualsIgnoreCase option ''--restoreVendorConfigs''"
    unfolding EqualsIgnoreCase_def o by (simp_all add: lower_def)
  show ?thesis unfolding fake_dump_def Let_def list.sel by (simp only: n assms if_True if_False list.distinct)
qed

text \<open>C14. Whatever text command is given to a hardware whose invariants hold, they hold afterwards: the store stays well formed, and the subscriptions with
  their timers, and the callback of the change events, are exactly what they were.\<close>

theorem commands_keep_invariants:
  assumes "hw_inv (ds_hw st, cb)" and "fake_dump service ge options st = Some (r, st')"
  shows "hw_inv (ds_hw st', cb) \<and> subs_part (ds_hw st') = subs_part (ds_hw st)"
proof -
  let ?h = "ds_hw st" and ?h' = "ds_hw st'"
  have inv: "store_inv (mServerSidePropStore ?h)" "subs_ok ?h" using assms(1) by (simp_all add: hw_inv_def)
  have "store_inv (mServerSidePropStore ?h') \<and> subs_part ?h' = subs_part ?h"
  proof (cases "options \<noteq> [] \<and> EqualsIgnoreCase (hd options) ''--dumpSub''")
    case True
    then obtain option args where "options = option # args" "EqualsIgnoreCase option ''--dumpSub''" by (cases options) auto
    then have "?h' = ?h" using assms(2) shown_subscriptions [of ?h] inv(2) by (auto simp: fake_dump_subs subs_ok_def)
    with inv(1) show ?thesis by simp
  next
    case False
    have "keeps (\<lambda>st. store_inv (mServerSidePropStore (ds_hw st))) (fake_dump service ge options st)"
      "keeps (\<lambda>s. subs_part (ds_hw s) = subs_part ?h) (fake_dump service ge options st)"
      by (rule dump_store.keeps_dump [OF inv(1)], use False in blast) (rule dump_subs.keeps_dump [OF refl], use False in blast)
    with assms(2) show ?thesis by (simp add: keeps_def)
  qed
  then show ?thesis using inv(2) subs_ok_part [of ?h' ?h] by (simp add: hw_inv_def)
qed

text \<open>The command that lists subscriptions tells the truth and changes nothing: it lists, with interval and update mode, exactly the areas that are refreshed
  by a timer, and the areas that are subscribed on change.\<close>

theorem subscriptions_shown:
  assumes "hw_inv (ds_hw st, cb)"
  shows "\<exists>continuous. fake_dump service ge (''--dumpsub'' # args) st = Some (answers (ShownSubscriptions continuous (mSubOnChangePropIdAreaIds (ds_hw st))), st) \<and>
    (\<forall>k i vur. (k, i, vur) \<in> set continuous \<longleftrightarrow>
       (\<exists>info. map_of (mRefreshInfoByPropIdAreaId (ds_hw st)) k = Some info \<and> i = ri_intervalInNanos info \<and> vur = (ri_eventMode info = ON_VALUE_CHANGE)))"
proof -
  let ?h = "ds_hw st"
  have inv: "refresh_inv ?h" using assms by (simp add: hw_inv_def subs_ok_def)
  let ?c = "map (\<lambda>k. let info = the (map_of (mRefreshInfoByPropIdAreaId ?h) k) in (k, ri_intervalInNanos info, ri_eventMode info = ON_VALUE_CHANGE)) (refreshed_areas ?h)"
  have "EqualsIgnoreCase ''--dumpsub'' ''--dumpSub''" by code_simp
  then have "fake_dump service ge (''--dumpsub'' # args) st = Some (answers (ShownSubscriptions ?c (mSubOnChangePropIdAreaIds ?h)), st)"
    using shown_subscriptions [OF inv] by (simp add: fake_dump_subs)
  moreover have "(k, i, vur) \<in> set ?c \<longleftrightarrow>
      (\<exists>info. map_of (mRefreshInfoByPropIdAreaId ?h) k = Some info \<and> i = ri_intervalInNanos info \<and> vur = (ri_eventMode info = ON_VALUE_CHANGE))" for k i vur
    using refreshed_entry [OF inv, of k] by (auto simp: Let_def)
  ultimately show ?thesis by blast
qed

section \<open>Examples\<close>

definition example_gen :: "json gen_env" where
  "example_gen = \<lparr>ge_dump = \<lparr>de_enums = (\<lambda>_. []), de_ParseFloat = (\<lambda>_. None)\<rparr>, ge_json = json_functions,
     ge_files = (\<lambda>_. None), ge_parse = (\<lambda>_. Inl []), ge_hash = (\<lambda>_. 0)\<rparr>"

definition example_state :: dump_state where
  "example_state = \<lparr>ds_hub = newGeneratorHub, ds_saved = [], ds_hw = subscribed_hardware\<rparr>"

lemma example_inv: "hw_inv (ds_hw example_state, None)"
  using fake_runs.reachable_inv [OF odometer_start odometer_run] by (simp add: example_state_def)

theorem commands_keep_invariants_witness:
  "\<exists>st'. fake_dump no_service example_gen [''--inject-event'', ''291504644'', ''-i64'', ''7''] example_state = Some (answers (Answered (Inr ())), st') \<and>
     hw_inv (ds_hw st', None) \<and> subs_part (ds_hw st') = subs_part subscribed_hardware"
proof -
  let ?o = "[''--inject-event'', ''291504644'', ''-i64'', ''7'']"
  have "\<exists>v. parsePropOptions (ge_dump example_gen) ?o = Inr v"
    by (rule exI [of _ "empty_prop_value\<lparr>pv_prop := odometer, pv_value := empty_raw\<lparr>int64Values := [7]\<rparr>\<rparr>"]) code_simp
  then obtain v where "dumpInjectEvent (ge_dump example_gen) ?o (ds_hw example_state) = (Inr (), eventFromVehicleBus v (ds_hw example_state))"
    by (auto simp: dumpInjectEvent_def checkArgumentsSize_def)
  then have "fake_dump no_service example_gen ?o example_state =
      Some (answers (Answered (Inr ())), example_state\<lparr>ds_hw := eventFromVehicleBus v (ds_hw example_state)\<rparr>)"
    by (simp add: fake_dump_def Let_def EqualsIgnoreCase_def lower_def)
  then obtain st' where st: "fake_dump no_service example_gen ?o example_state = Some (answers (Answered (Inr ())), st')" by blast
  from commands_keep_invariants [OF example_inv st] st show ?thesis by (simp add: example_state_def)
qed

theorem subscriptions_shown_witness:
  "\<exists>continuous. fake_dump no_service example_gen [''--dumpsub''] example_state = Some (answers (ShownSubscriptions continuous []), example_state) \<and>
     (\<lparr>pa_propId = odometer, pa_areaId = 0\<rparr>, 1000000000, False) \<in> set continuous"
proof -
  have s: "mSubOnChangePropIdAreaIds (ds_hw example_state) = []"
    "map_of (mRefreshInfoByPropIdAreaId (ds_hw example_state)) \<lparr>pa_propId = odometer, pa_areaId = 0\<rparr> =
       Some \<lparr>ri_eventMode = ALWAYS, ri_intervalInNanos = 1000000000\<rparr>"
    by (simp_all add: example_state_def subscribed_hardware_def odometer_hardware_def small_hardware_def)
  from subscriptions_shown [OF example_inv, of no_service example_gen "[]"] show ?thesis
    unfolding s(1) by (elim exE conjE) (intro exI conjI, assumption, simp add: s(2))
qed

end
