(* ===== verification/FakeSupported.thy ===== *)
theory FakeSupported
  imports FakeStartProofs
begin

text \<open>
  The supported values of the fake hardware after its start: what its queries answer is what the configuration files declare.
\<close>

section \<open>Supported values\<close>

text \<open>What is noted of an area, and what a declaration asks for: the limits of its type, and the list unless one of the limits asked for does not exist.\<close>

definition supported_of :: "FakeVehicleHardware \<Rightarrow> PropIdAreaId \<Rightarrow> RawPropValues option \<times> RawPropValues option \<times> RawPropValues list option" where
  "supported_of h k = (map_of (mMinSupportedValueByPropIdAreaId h) k, map_of (mMaxSupportedValueByPropIdAreaId h) k, map_of (mSupportedValuesByPropIdAreaId h) k)"

definition declared_limits :: "ConfigDeclaration \<Rightarrow> VehicleAreaConfig \<Rightarrow> RawPropValues option \<times> RawPropValues option" where
  "declared_limits d ac =
     (let t = getPropType (pc_prop (cd_config d))
      in case ac_hasSupportedValueInfo ac of
           None \<Rightarrow> (None, None)
         | Some info \<Rightarrow>
             (if hasMinSupportedValue info then createRawPropValues t (minInt32Value ac) (minInt64Value ac) (minFloatValue ac) else None,
              if hasMaxSupportedValue info then createRawPropValues t (maxInt32Value ac) (maxInt64Value ac) (maxFloatValue ac) else None))"

definition declared_list :: "ConfigDeclaration \<Rightarrow> VehicleAreaConfig \<Rightarrow> RawPropValues list option" where
  "declared_list d ac =
     (case ac_hasSupportedValueInfo ac of
        None \<Rightarrow> None
      | Some info \<Rightarrow>
          if hasSupportedValuesList info \<and> (hasMinSupportedValue info \<longrightarrow> fst (declared_limits d ac) \<noteq> None) \<and>
             (hasMaxSupportedValue info \<longrightarrow> snd (declared_limits d ac) \<noteq> None)
          then (case supported_list d ac of Some (v # vs) \<Rightarrow> Some (v # vs) | _ \<Rightarrow> None)
          else None)"

abbreviation area_id :: "ConfigDeclaration \<Rightarrow> VehicleAreaConfig \<Rightarrow> PropIdAreaId" where
  "area_id d ac \<equiv> \<lparr>pa_propId = pc_prop (cd_config d), pa_areaId = ac_areaId ac\<rparr>"

lemma limits_together:
  "createRawPropValues t a b c = None \<longleftrightarrow> createRawPropValues t a' b' c' = None"
  by (simp add: createRawPropValues_def split: VehiclePropertyType.split)

lemma init_supported_at:
  assumes "init_supported d ac h = Some h'"
  shows "k \<noteq> area_id d ac \<Longrightarrow> supported_of h' k = supported_of h k"
    and "supported_of h (area_id d ac) = (None, None, None) \<Longrightarrow>
      supported_of h' (area_id d ac) = (fst (declared_limits d ac), snd (declared_limits d ac), declared_list d ac)"
proof -
  let ?t = "getPropType (pc_prop (cd_config d))"
  define mn mx where "mn = createRawPropValues ?t (minInt32Value ac) (minInt64Value ac) (minFloatValue ac)"
    and "mx = createRawPropValues ?t (maxInt32Value ac) (maxInt64Value ac) (maxFloatValue ac)"
  have tog: "mn = None \<longleftrightarrow> mx = None" unfolding mn_def mx_def by (rule limits_together)
  note defs = init_supported_def setMinSupportedValueLocked_def setMaxSupportedValueLocked_def supported_of_def update_conv' Let_def
  show "supported_of h' k = supported_of h k" if "k \<noteq> area_id d ac"
    using assms that by (auto simp: defs split: option.splits if_splits)
  show "supported_of h' (area_id d ac) = (fst (declared_limits d ac), snd (declared_limits d ac), declared_list d ac)"
    if "supported_of h (area_id d ac) = (None, None, None)"
  proof (cases "ac_hasSupportedValueInfo ac")
    case None
    then show ?thesis using assms that by (simp add: defs declared_limits_def declared_list_def)
  next
    case (Some info)
    have lim: "declared_limits d ac = (if hasMinSupportedValue info then mn else None, if hasMaxSupportedValue info then mx else None)"
      by (simp add: declared_limits_def Some mn_def mx_def Let_def)
    have list: "declared_list d ac = (if hasSupportedValuesList info \<and> (hasMinSupportedValue info \<longrightarrow> mn \<noteq> None) \<and> (hasMaxSupportedValue info \<longrightarrow> mx \<noteq> None)
        then (case supported_list d ac of Some (v # vs) \<Rightarrow> Some (v # vs) | _ \<Rightarrow> None) else None)"
      unfolding declared_list_def lim Some by simp
    note i = assms [unfolded init_supported_def Let_def Some option.case mn_def [symmetric] mx_def [symmetric]]
    note sets = setMinSupportedValueLocked_def setMaxSupportedValueLocked_def supported_of_def update_conv'
    let ?goal = "supported_of h' (area_id d ac) = (if hasMinSupportedValue info then mn else None, if hasMaxSupportedValue info then mx else None,
      if hasSupportedValuesList info \<and> (hasMinSupportedValue info \<longrightarrow> mn \<noteq> None) \<and> (hasMaxSupportedValue info \<longrightarrow> mx \<noteq> None)
      then (case supported_list d ac of Some (v # vs) \<Rightarrow> Some (v # vs) | _ \<Rightarrow> None) else None)"
    have ?goal
    proof (cases mn)
      case None
      then show ?thesis
        using i tog that
        by (cases "supported_list d ac"; cases "hasMinSupportedValue info"; cases "hasMaxSupportedValue info"; cases "hasSupportedValuesList info")
          (auto simp: sets split: list.split)
    next
      case (Some a)
      moreover from this obtain b where "mx = Some b" using tog by auto
      ultimately show ?thesis using i that
        by (cases "supported_list d ac"; cases "hasMinSupportedValue info"; cases "hasMaxSupportedValue info"; cases "hasSupportedValuesList info")
          (auto simp: sets split: list.split)
    qed
    then show ?thesis unfolding lim list by simp
  qed
qed

lemma init_areas_other: "init_areas d acs h = Some h' \<Longrightarrow> k \<notin> area_id d ` set acs \<Longrightarrow> supported_of h' k = supported_of h k"
proof (induction acs arbitrary: h)
  case (Cons a acs)
  then obtain h1 where one: "init_supported d a h = Some h1" and rest: "init_areas d acs h1 = Some h'" by (auto simp: bind_eq_Some_conv)
  then show ?case using Cons.IH [OF rest] init_supported_at(1) [OF one, of k] Cons.prems(2) by simp
qed simp

lemma init_areas_at:
  "init_areas d acs h = Some h' \<Longrightarrow> distinct (map ac_areaId acs) \<Longrightarrow> \<forall>ac \<in> set acs. supported_of h (area_id d ac) = (None, None, None) \<Longrightarrow>
   ac \<in> set acs \<Longrightarrow> supported_of h' (area_id d ac) = (fst (declared_limits d ac), snd (declared_limits d ac), declared_list d ac)"
proof (induction acs arbitrary: h)
  case (Cons a acs)
  then obtain h1 where one: "init_supported d a h = Some h1" and rest: "init_areas d acs h1 = Some h'" by (auto simp: bind_eq_Some_conv)
  have other: "area_id d c \<noteq> area_id d a" if "c \<in> set acs" for c using that Cons.prems(2) by (auto simp: image_iff)
  show ?case
  proof (cases "ac = a")
    case True
    have "area_id d a \<notin> area_id d ` set acs"
    proof
      assume "area_id d a \<in> area_id d ` set acs"
      then obtain c where c: "area_id d a = area_id d c" "c \<in> set acs" by (rule imageE)
      show False using other [OF c(2)] c(1) by simp
    qed
    then have "supported_of h' (area_id d a) = supported_of h1 (area_id d a)" by (rule init_areas_other [OF rest])
    then show ?thesis using init_supported_at(2) [OF one] Cons.prems(3) True by simp
  next
    case False
    have "\<forall>c \<in> set acs. supported_of h1 (area_id d c) = (None, None, None)"
    proof
      fix c assume c: "c \<in> set acs"
      show "supported_of h1 (area_id d c) = (None, None, None)" using init_supported_at(1) [OF one other [OF c]] Cons.prems(3) c by simp
    qed
    then show ?thesis using Cons.IH [OF rest] Cons.prems(2,4) False by simp
  qed
qed simp

text \<open>Reads and writes leave the supported values alone.\<close>

lemma supported_simps [simp]:
  "supported_of (h\<lparr>mServerSidePropStore := s\<rparr>) = supported_of h" "supported_of (h\<lparr>mFakeUserHal := u\<rparr>) = supported_of h"
  "supported_of (h\<lparr>emitted := e\<rparr>) = supported_of h" "supported_of (h\<lparr>ticks := n\<rparr>) = supported_of h" "supported_of (hw_drop rs h) = supported_of h"
  "supported_of (h\<lparr>hvacPowerDependentProps := ps\<rparr>) = supported_of h"
  by (simp_all add: supported_of_def fun_eq_iff hw_drop_def)

lemma supported_callbacks: "supported_of (fold store_callback cs h) = supported_of h"
  using store_callbacks_frame [of cs h] by auto

interpretation kept_supported: hw_kept "\<lambda>h. supported_of h = c" for c
  by unfold_locales (simp_all add: elapsedRealtimeNano_def hw_pool_def hw_store_def hw_write_def Let_def case_prod_beta supported_callbacks)

lemma store_areas_supported: "supported_of (store_areas d as h) = supported_of h"
proof (induction as arbitrary: h)
  case (Cons a as)
  let ?h1 = "snd (elapsedRealtimeNano h)"
  have "supported_of ?h1 = supported_of h" by (rule kept_supported.keep_tick) simp
  then show ?case
    by (cases "initial_value_for d a") (simp_all add: Cons.IH case_prod_beta Let_def kept_supported.keep_write kept_supported.keep_copy)
qed simp

lemma init_property_supported:
  assumes "init_property s2r d h = Some h'"
  shows "distinct (map ac_areaId (areaConfigs (cd_config d))) \<Longrightarrow> \<forall>a. supported_of h \<lparr>pa_propId = declared d, pa_areaId = a\<rparr> = (None, None, None) \<Longrightarrow>
      \<not> isDiagnosticProperty (cd_config d) \<Longrightarrow> ac \<in> set (areaConfigs (cd_config d)) \<Longrightarrow>
      supported_of h' (area_id d ac) = (fst (declared_limits d ac), snd (declared_limits d ac), declared_list d ac)"
    and "pa_propId k \<noteq> declared d \<Longrightarrow> supported_of h' k = supported_of h k"
proof -
  obtain cfg where cfg: "start_config s2r (cd_config d) = Some cfg" using assms(1) by (auto simp: init_property_def bind_eq_Some_conv)
  note f = start_config_fields [OF cfg]
  define h1 where "h1 = h\<lparr>mServerSidePropStore := registerProperty cfg (token_function (pc_prop cfg)) (mServerSidePropStore h)\<rparr>"
  have s: "supported_of (storePropInitialValue d h1) = supported_of h"
    by (simp add: storePropInitialValue_def h1_def store_areas_supported Let_def)
  have areas: "init_areas d (areaConfigs (cd_config d)) (storePropInitialValue d h1) = Some h'" if "\<not> isDiagnosticProperty (cd_config d)"
    using assms(1) cfg f that by (simp add: init_property_def h1_def Let_def)
  show "supported_of h' (area_id d ac) = (fst (declared_limits d ac), snd (declared_limits d ac), declared_list d ac)"
    if "distinct (map ac_areaId (areaConfigs (cd_config d)))" "\<forall>a. supported_of h \<lparr>pa_propId = declared d, pa_areaId = a\<rparr> = (None, None, None)"
      "\<not> isDiagnosticProperty (cd_config d)" "ac \<in> set (areaConfigs (cd_config d))"
    using init_areas_at [OF areas [OF that(3)] that(1) _ that(4)] that(2) s by simp
  show "supported_of h' k = supported_of h k" if k: "pa_propId k \<noteq> declared d"
  proof (cases "isDiagnosticProperty (cd_config d)")
    case True
    then have "h' = h1" using assms(1) cfg f by (simp add: init_property_def h1_def Let_def)
    then show ?thesis by (simp add: h1_def)
  next
    case False
    have "k \<notin> area_id d ` set (areaConfigs (cd_config d))" using k by auto
    from init_areas_other [OF areas [OF False] this] show ?thesis by (simp add: s)
  qed
qed

lemma init_properties_other: "init_properties s2r ds h = Some h' \<Longrightarrow> pa_propId k \<notin> declared ` set ds \<Longrightarrow> supported_of h' k = supported_of h k"
proof (induction ds arbitrary: h)
  case (Cons d ds)
  then obtain h1 where one: "init_property s2r d h = Some h1" and rest: "init_properties s2r ds h1 = Some h'" by (auto simp: bind_eq_Some_conv)
  then show ?case using Cons.IH [OF rest] init_property_supported(2) [OF one, of k] Cons.prems(2) by simp
qed simp

lemma init_properties_supported:
  "init_properties s2r ds h = Some h' \<Longrightarrow> distinct (map declared ds) \<Longrightarrow> \<forall>k. supported_of h k = (None, None, None) \<or> pa_propId k \<notin> declared ` set ds \<Longrightarrow>
   d \<in> set ds \<Longrightarrow> \<not> isDiagnosticProperty (cd_config d) \<Longrightarrow> distinct (map ac_areaId (areaConfigs (cd_config d))) \<Longrightarrow> ac \<in> set (areaConfigs (cd_config d)) \<Longrightarrow>
   supported_of h' (area_id d ac) = (fst (declared_limits d ac), snd (declared_limits d ac), declared_list d ac)"
proof (induction ds arbitrary: h)
  case (Cons c ds)
  then obtain h1 where one: "init_property s2r c h = Some h1" and rest: "init_properties s2r ds h1 = Some h'" by (auto simp: bind_eq_Some_conv)
  have c: "declared c \<notin> declared ` set ds" "distinct (map declared ds)" using Cons.prems(2) by auto
  show ?case
  proof (cases "d = c")
    case True
    have "\<forall>a. supported_of h \<lparr>pa_propId = declared c, pa_areaId = a\<rparr> = (None, None, None)" using Cons.prems(3) by force
    moreover have "supported_of h' (area_id c ac) = supported_of h1 (area_id c ac)" by (rule init_properties_other [OF rest]) (use c in simp)
    ultimately show ?thesis using init_property_supported(1) [OF one] Cons.prems(5-7) True by simp
  next
    case False
    have "\<forall>k. supported_of h1 k = (None, None, None) \<or> pa_propId k \<notin> declared ` set ds"
    proof
      fix k
      show "supported_of h1 k = (None, None, None) \<or> pa_propId k \<notin> declared ` set ds"
        using init_property_supported(2) [OF one, of k] spec [OF Cons.prems(3), of k] c(1) by (cases "pa_propId k = declared c") auto
    qed
    then show ?thesis using Cons.IH [OF rest c(2)] Cons.prems(4-7) False by simp
  qed
qed simp

lemma init_frame_supported: "init_frame q f n h = Some h' \<Longrightarrow> supported_of h' = supported_of h"
  by (auto simp: init_frame_def bind_eq_Some_conv supported_callbacks split: sum.splits)

lemma fake_init_supported:
  assumes "fake_init s2r configs h = Some h'"
  obtains h1 where "init_properties s2r (map snd configs) h = Some h1" and "supported_of h' = supported_of h1"
proof -
  obtain h1 h2 h3 where "init_properties s2r (map snd configs) h = Some h1"
    "init_frame OBD2_LIVE_FRAME (initObd2LiveFrame (clock h1 (ticks h1))) 1 h1 = Some h2"
    "init_frame OBD2_FREEZE_FRAME (initObd2FreezeFrame (clock h2 (ticks h2)) (clock h2 (ticks h2 + 1)) (clock h2 (ticks h2 + 2))) 3 h2 = Some h3"
    "h' = h3\<lparr>mServerSidePropStore := setOnValuesChangeCallback True (mServerSidePropStore h3)\<rparr>"
    using assms by (auto simp: fake_init_def bind_eq_Some_conv)
  then show thesis using init_frame_supported that by (metis supported_simps(1))
qed

text \<open>C13. After the start the fake hardware answers for the supported values of its configuration files: for an area of a loaded property that is not
  a diagnostic frame, and whose areas are listed once each, the query for the limits gives the limits the file declares, in the type of the property, or
  is refused if it declares none; the query for the list gives the declared list, or is refused if there is none.\<close>

theorem start_serves_supported_values:
  assumes "startFakeVehicleHardware L dir overrides use s2r (newFakeVehicleHardware g address up c) = Some h"
    and "loadConfigDeclarations L dir overrides use = Some configs" and "map_of configs p = Some d" and "\<not> isDiagnosticProperty (cd_config d)"
    and "distinct (map ac_areaId (areaConfigs (cd_config d)))" and "ac \<in> set (areaConfigs (cd_config d))"
  shows "fake_getMinMaxSupportedValues [\<lparr>pa_propId = p, pa_areaId = ac_areaId ac\<rparr>] h =
      [\<lparr>mm_status = (if declared_limits d ac = (None, None) then INVALID_ARG else OK),
        minSupportedValue = fst (declared_limits d ac), maxSupportedValue = snd (declared_limits d ac)\<rparr>] \<and>
    fake_getSupportedValuesLists [\<lparr>pa_propId = p, pa_areaId = ac_areaId ac\<rparr>] h =
      [\<lparr>sl_status = (if declared_list d ac = None then INVALID_ARG else OK), supportedValuesList = map_option (map Some) (declared_list d ac)\<rparr>]"
proof -
  let ?h0 = "newFakeVehicleHardware g address up c" and ?k = "\<lparr>pa_propId = p, pa_areaId = ac_areaId ac\<rparr>"
  have i: "fake_init s2r configs ?h0 = Some h" using assms(1,2) by (simp add: startFakeVehicleHardware_def)
  obtain h1 where h1: "init_properties s2r (map snd configs) ?h0 = Some h1" and h: "supported_of h = supported_of h1" by (rule fake_init_supported [OF i])
  have keyed: "keyed configs" by (rule keyed_declarations [OF assms(2)])
  have keys: "map declared (map snd configs) = map fst configs" using keyed by (auto simp: keyed_def)
  have dist: "distinct (map declared (map snd configs))" unfolding keys using keyed by (simp add: keyed_def)
  have "(p, d) \<in> set configs" by (rule map_of_SomeD [OF assms(3)])
  then have d: "d \<in> set (map snd configs)" "declared d = p" using keyed by (force simp: keyed_def)+
  have "\<forall>k. supported_of ?h0 k = (None, None, None) \<or> pa_propId k \<notin> declared ` set (map snd configs)"
    by (simp add: supported_of_def newFakeVehicleHardware_def)
  from init_properties_supported [OF h1 dist this d(1) assms(4-6)]
  have "supported_of h ?k = (fst (declared_limits d ac), snd (declared_limits d ac), declared_list d ac)" using h d(2) by simp
  then have "map_of (mMinSupportedValueByPropIdAreaId h) ?k = fst (declared_limits d ac)" "map_of (mMaxSupportedValueByPropIdAreaId h) ?k = snd (declared_limits d ac)"
    "map_of (mSupportedValuesByPropIdAreaId h) ?k = declared_list d ac" by (simp_all add: supported_of_def)
  then show ?thesis
    by (cases "declared_list d ac") (auto simp: fake_getMinMaxSupportedValues_def fake_getSupportedValuesLists_def Let_def prod_eq_iff)
qed

text \<open>A directory whose file declares limits.\<close>

definition limited_entry :: json where
  "limited_entry = JObject [
     (''property'', JString ''VehicleProperty::HVAC_FAN_SPEED''), (''maxInt32Value'', JInt 7),
     (''hasSupportedValueInfo'', JObject [(''hasMinSupportedValue'', JBool True), (''hasMaxSupportedValue'', JBool True)]),
     (''areas'', JArray [JObject [(''areaId'', JInt 49), (''minInt32Value'', JInt 1)], JObject [(''areaId'', JInt 68), (''maxInt32Value'', JInt 5)]])]"

definition limited_area :: "int32 \<Rightarrow> int32 \<Rightarrow> int32 \<Rightarrow> VehicleAreaConfig" where
  "limited_area i mn mx = (global_area READ_WRITE)\<lparr>ac_areaId := i, minInt32Value := mn, maxInt32Value := mx,
     ac_hasSupportedValueInfo := Some \<lparr>hasMinSupportedValue = True, hasMaxSupportedValue = True, hasSupportedValuesList = False\<rparr>\<rparr>"

definition limited_decl :: ConfigDeclaration where
  "limited_decl = \<lparr>
     cd_config = \<lparr>pc_prop = 0x15400500, pc_access = READ_WRITE, changeMode = ON_CHANGE, areaConfigs = [limited_area 49 1 7, limited_area 68 0 5],
       configArray = [], configString = [], minSampleRate = 0, maxSampleRate = 0\<rparr>,
     cd_initialValue = empty_raw, cd_initialAreaValues = [], cd_supportedValuesForAreaId = []\<rparr>"

definition limited_dir :: "json directory" where
  "limited_dir = Some [(''Fan.json'', Some (Inr (example_file [limited_entry])))]"

lemma limited_configs: "loadConfigDeclarations example_loader limited_dir None False = Some [(0x15400500, limited_decl)]"
  by code_simp

theorem start_serves_supported_values_witness:
  "\<exists>h. startFakeVehicleHardware example_loader limited_dir None False 0 example_car = Some h \<and>
     fake_getMinMaxSupportedValues [\<lparr>pa_propId = 0x15400500, pa_areaId = 68\<rparr>] h =
       [\<lparr>mm_status = OK, minSupportedValue = Some (empty_raw\<lparr>int32Values := [0]\<rparr>), maxSupportedValue = Some (empty_raw\<lparr>int32Values := [5]\<rparr>)\<rparr>] \<and>
     fake_getSupportedValuesLists [\<lparr>pa_propId = 0x15400500, pa_areaId = 68\<rparr>] h = [\<lparr>sl_status = INVALID_ARG, supportedValuesList = None\<rparr>]"
proof -
  have "fake_init 0 [(0x15400500, limited_decl)] example_car \<noteq> None" by code_simp
  then obtain h where h: "startFakeVehicleHardware example_loader limited_dir None False 0 example_car = Some h"
    by (auto simp: startFakeVehicleHardware_def limited_configs)
  have d: "map_of [(0x15400500 :: int32, limited_decl)] 0x15400500 = Some limited_decl" "\<not> isDiagnosticProperty (cd_config limited_decl)"
    "distinct (map ac_areaId (areaConfigs (cd_config limited_decl)))" by code_simp+
  have ac: "limited_area 68 0 5 \<in> set (areaConfigs (cd_config limited_decl))" by (simp add: limited_decl_def)
  have "declared_limits limited_decl (limited_area 68 0 5) = (Some (empty_raw\<lparr>int32Values := [0]\<rparr>), Some (empty_raw\<lparr>int32Values := [5]\<rparr>))"
    "declared_list limited_decl (limited_area 68 0 5) = None" "ac_areaId (limited_area 68 0 5) = 68" by code_simp+
  with start_serves_supported_values [OF h [unfolded example_car_def] limited_configs d ac] h show ?thesis by simp
qed

end
