(* ===== verification/FakeService.thy ===== *)
theory FakeService
  imports FakeSupported ProtoConverter VehicleHalProofs FakeRuns
begin

text \<open>
  The service on top of the started fake hardware: what \<^verbatim>\<open>getAllPropertyConfigs\<close> of \<^verbatim>\<open>FakeVehicleHardware.cpp\<close> gives, and what a client of \<^verbatim>\<open>DefaultVehicleHal\<close> is told about
  the properties of the configuration files.
\<close>

section \<open>The configurations of the hardware\<close>

definition generateVendorConfigs :: "VehiclePropConfig list \<Rightarrow> VehiclePropConfig list" where
  "generateVendorConfigs outAllConfigs = outAllConfigs @
     map (\<lambda>i. new_config\<lparr>pc_prop := word_of_int i, pc_access := READ_WRITE\<rparr>)
       [sint STARTING_VENDOR_CODE_PROPERTIES_FOR_TEST .. sint ENDING_VENDOR_CODE_PROPERTIES_FOR_TEST - 1]"

definition fake_getAllPropertyConfigs :: "FakeVehicleHardware \<Rightarrow> VehiclePropConfig list" where
  "fake_getAllPropertyConfigs h =
     (let allConfigs = getAllConfigs (mServerSidePropStore h) in if mAddExtraTestVendorConfigs h then generateVendorConfigs allConfigs else allConfigs)"

definition fake_getPropertyConfig :: "int32 \<Rightarrow> FakeVehicleHardware \<Rightarrow> VehiclePropConfig option" where
  "fake_getPropertyConfig propId h = getPropertyConfig_default (fake_getAllPropertyConfigs h) propId"

section \<open>The service\<close>

text \<open>An implementation of the hardware interface whose queries are those of the fake hardware.\<close>

definition queries_fake :: "FakeVehicleHardware IVehicleHardware \<Rightarrow> bool" where
  "queries_fake hw \<longleftrightarrow> hw_getAllPropertyConfigs hw = fake_getAllPropertyConfigs \<and> hw_getPropertyConfig hw = fake_getPropertyConfig \<and>
     hw_getMinMaxSupportedValues hw = fake_getMinMaxSupportedValues \<and> hw_getSupportedValuesLists hw = fake_getSupportedValuesLists"

text \<open>The configurations of a store, in order.\<close>

definition config_list :: "VehiclePropertyStore \<Rightarrow> (int32 \<times> VehiclePropConfig) list" where
  "config_list s = map (\<lambda>(p, record). (p, propConfig record)) (mRecordsByPropId s)"

lemma config_list_simps [simp]:
  "config_list (s\<lparr>mValuePool := pool\<rparr>) = config_list s" "config_list (drop_value r s) = config_list s" "config_list (drop_values rs s) = config_list s"
  "config_list (setOnValuesChangeCallback b s) = config_list s"
  by (simp_all add: config_list_def drop_value_def drop_values_def setOnValuesChangeCallback_def)

lemma config_list_put: "config_list (put_record p record s) = AList.update p (propConfig record) (config_list s)"
proof -
  have "map (\<lambda>(p, record). (p, propConfig record)) (AList.update p record rs) = AList.update p (propConfig record) (map (\<lambda>(p, record). (p, propConfig record)) rs)" for rs
    by (induction rs) auto
  then show ?thesis by (simp add: config_list_def put_record_def)
qed

lemma config_list_lookup: "map_of (config_list s) p = map_option propConfig (getRecordLocked s p)"
  by (simp add: config_list_def getRecordLocked_def map_of_map)

lemma getAllConfigs_list: "getAllConfigs s = map snd (config_list s)"
  by (simp add: getAllConfigs_def config_list_def comp_def case_prod_beta)

lemma config_list_register: "config_list (registerProperty cfg f s) = AList.update (pc_prop cfg) cfg (config_list s)"
  by (simp add: registerProperty_def config_list_put Let_def)

lemma config_list_write:
  assumes "writeValue r us m uct now s = (res, calls, s')"
  shows "config_list s' = config_list s"
proof (cases "write_allowed s (stamped r uct now)")
  case False
  from writeValue_denied [OF this, of us m] assms show ?thesis by auto
next
  case True
  show ?thesis
    by (rule writeValue_allowed [OF True, of us m])
      (use assms in \<open>auto simp: upto_drop_def config_list_put config_list_lookup update_same\<close>)
qed

lemma config_list_hw_write: "config_list (mServerSidePropStore (snd (hw_write r us m uct h))) = config_list (mServerSidePropStore h)"
proof -
  define now h1 where "now = (if uct then clock h (ticks h) else 0)" and "h1 = (if uct then h\<lparr>ticks := Suc (ticks h)\<rparr> else h)"
  obtain res calls s where w: "writeValue r us m uct now (mServerSidePropStore h) = (res, calls, s)" by (metis prod_cases3)
  have "(if uct then elapsedRealtimeNano h else (0, h)) = (now, h1)" by (simp add: h1_def now_def elapsedRealtimeNano_def)
  with w have "snd (hw_write r us m uct h) = fold store_callback calls (h1\<lparr>mServerSidePropStore := s\<rparr>)"
    by (cases uct) (simp_all add: hw_write_def h1_def)
  then show ?thesis using config_list_write [OF w] by (simp add: callbacks_keep)
qed

lemma config_list_areas: "config_list (mServerSidePropStore (store_areas d as h)) = config_list (mServerSidePropStore h)"
proof (induction as arbitrary: h)
  case (Cons a as)
  have pool: "config_list (mServerSidePropStore (snd (hw_pool (obtain_copy v) h))) = config_list (mServerSidePropStore h)" for v h
    by (simp add: hw_pool_def hw_store_def Let_def case_prod_beta)
  have tick: "mServerSidePropStore (snd (elapsedRealtimeNano h)) = mServerSidePropStore h" by (simp add: elapsedRealtimeNano_def)
  show ?case
    by (cases "initial_value_for d a") (simp_all add: Cons.IH case_prod_beta Let_def config_list_hw_write pool tick)
qed simp

lemma config_list_property:
  assumes "init_property s2r d h = Some h'"
  shows "\<exists>cfg. start_config s2r (cd_config d) = Some cfg \<and>
    config_list (mServerSidePropStore h') = AList.update (pc_prop cfg) cfg (config_list (mServerSidePropStore h))"
proof -
  obtain cfg where cfg: "start_config s2r (cd_config d) = Some cfg" using assms(1) by (auto simp: init_property_def bind_eq_Some_conv)
  define h1 where "h1 = h\<lparr>mServerSidePropStore := registerProperty cfg (token_function (pc_prop cfg)) (mServerSidePropStore h)\<rparr>"
  have h1: "config_list (mServerSidePropStore h1) = AList.update (pc_prop cfg) cfg (config_list (mServerSidePropStore h))" by (simp add: h1_def config_list_register)
  have "config_list (mServerSidePropStore (storePropInitialValue d h1)) = config_list (mServerSidePropStore h1)"
    by (simp add: storePropInitialValue_def config_list_areas Let_def)
  moreover have "h' = h1 \<or> init_areas d (areaConfigs cfg) (storePropInitialValue d h1) = Some h'"
    using assms cfg by (auto simp: init_property_def h1_def Let_def split: if_splits)
  ultimately show ?thesis using cfg h1 by (auto dest: init_areas_store)
qed

text \<open>The configurations after the start, from the declarations.\<close>

definition started_configs :: "int32 \<Rightarrow> (int32 \<times> ConfigDeclaration) list \<Rightarrow> (int32 \<times> VehiclePropConfig) list" where
  "started_configs s2r configs = map (\<lambda>(p, d). (p, the (start_config s2r (cd_config d)))) configs"

lemma config_list_properties:
  "init_properties s2r (map snd configs) h = Some h' \<Longrightarrow> keyed configs \<Longrightarrow> fst ` set (config_list (mServerSidePropStore h)) \<inter> fst ` set configs = {} \<Longrightarrow>
   config_list (mServerSidePropStore h') = config_list (mServerSidePropStore h) @ started_configs s2r configs"
proof (induction configs arbitrary: h)
  case (Cons c configs)
  obtain p d where c: "c = (p, d)" by fastforce
  obtain h1 where one: "init_property s2r d h = Some h1" and rest: "init_properties s2r (map snd configs) h1 = Some h'"
    using Cons.prems(1) by (auto simp: c bind_eq_Some_conv)
  obtain cfg where cfg: "start_config s2r (cd_config d) = Some cfg"
    "config_list (mServerSidePropStore h1) = AList.update (pc_prop cfg) cfg (config_list (mServerSidePropStore h))"
    using config_list_property [OF one] by blast
  have p: "pc_prop cfg = p" using start_config_fields [OF cfg(1)] Cons.prems(2) by (simp add: keyed_def c)
  have "p \<notin> fst ` set (config_list (mServerSidePropStore h))" using Cons.prems(3) by (auto simp: c)
  then have h1: "config_list (mServerSidePropStore h1) = config_list (mServerSidePropStore h) @ [(p, cfg)]" using cfg(2) p update_new by simp
  have k: "keyed configs" "p \<notin> fst ` set configs" using Cons.prems(2) by (auto simp: keyed_def c)
  have "fst ` set (config_list (mServerSidePropStore h1)) \<inter> fst ` set configs = {}" using Cons.prems(3) k(2) by (auto simp: h1)
  from Cons.IH [OF rest k(1) this] show ?case by (simp add: h1 started_configs_def c cfg(1))
qed (simp add: started_configs_def)

lemma config_list_frame:
  assumes "write_frame q dtc now sensors s = (calls, s')"
  shows "config_list s' = config_list s"
proof -
  obtain r pool where g: "getSensorProperty now dtc sensors (mValuePool s) = (r, pool)" by fastforce
  define w where "w = writeValue (r\<lparr>r_value := (r_value r)\<lparr>pv_prop := q\<rparr>\<rparr>) True ON_VALUE_CHANGE False now (s\<lparr>mValuePool := pool\<rparr>)"
  have "snd w = (calls, s')" using assms by (simp only: write_frame_def Let_def g prod.case w_def)
  then have "w = (fst w, calls, s')" by (simp add: prod_eq_iff)
  from config_list_write [OF this [unfolded w_def]] show ?thesis by simp
qed

lemma config_list_frames:
  "initObd2LiveFrame n config s = Some (calls, s') \<Longrightarrow> config_list s' = config_list s"
  "initObd2FreezeFrame n1 n2 n3 config s = Some (calls, s') \<Longrightarrow> config_list s' = config_list s"
proof -
  have frame: "config_list (snd (write_frame q dtc now sensors s)) = config_list s" for q dtc now sensors s
    by (rule config_list_frame [OF prod.collapse [symmetric]])
  show "initObd2LiveFrame n config s = Some (calls, s') \<Longrightarrow> config_list s' = config_list s"
    "initObd2FreezeFrame n1 n2 n3 config s = Some (calls, s') \<Longrightarrow> config_list s' = config_list s"
    by (auto simp: initObd2LiveFrame_def initObd2FreezeFrame_def Let_def case_prod_beta prod_eq_iff frame)
qed

text \<open>The start adds no vendor properties.\<close>

lemma vendor_callbacks: "mAddExtraTestVendorConfigs (fold store_callback cs h) = mAddExtraTestVendorConfigs h"
  using store_callbacks_frame [of cs h] by auto

lemma init_frame_configs:
  assumes "init_frame q f n h = Some h'" and "\<And>config calls s'. f config (mServerSidePropStore h) = Some (calls, s') \<Longrightarrow> config_list s' = config_list (mServerSidePropStore h)"
  shows "config_list (mServerSidePropStore h') = config_list (mServerSidePropStore h) \<and> mAddExtraTestVendorConfigs h' = mAddExtraTestVendorConfigs h"
proof (cases "getPropConfig q (mServerSidePropStore h)")
  case (Inr config)
  then obtain calls s' where c: "f config (mServerSidePropStore h) = Some (calls, s')"
    and h': "h' = fold store_callback calls (h\<lparr>mServerSidePropStore := s', ticks := ticks h + n\<rparr>)"
    using assms(1) by (auto simp: init_frame_def bind_eq_Some_conv)
  show ?thesis unfolding h' by (simp add: callbacks_keep vendor_callbacks assms(2) [OF c])
qed (use assms(1) in \<open>simp add: init_frame_def\<close>)

interpretation kept_vendor: hw_kept "\<lambda>h. mAddExtraTestVendorConfigs h = c" for c
  by unfold_locales (simp_all add: elapsedRealtimeNano_def hw_pool_def hw_store_def hw_write_def hw_drop_def Let_def case_prod_beta vendor_callbacks)

lemma vendor_areas: "mAddExtraTestVendorConfigs (store_areas d as h) = mAddExtraTestVendorConfigs h"
proof (induction as arbitrary: h)
  case (Cons a as)
  have "mAddExtraTestVendorConfigs (snd (elapsedRealtimeNano h)) = mAddExtraTestVendorConfigs h" by (rule kept_vendor.keep_tick) simp
  then show ?case
    by (cases "initial_value_for d a") (simp_all add: Cons.IH case_prod_beta Let_def kept_vendor.keep_write kept_vendor.keep_copy)
qed simp

lemma vendor_supported: "init_areas d acs h = Some h' \<Longrightarrow> mAddExtraTestVendorConfigs h' = mAddExtraTestVendorConfigs h"
proof (induction acs arbitrary: h)
  case (Cons ac acs)
  have "mAddExtraTestVendorConfigs h1 = mAddExtraTestVendorConfigs h" if "init_supported d ac h = Some h1" for h1
    using that by (auto simp: init_supported_def setMinSupportedValueLocked_def setMaxSupportedValueLocked_def Let_def split: option.splits if_splits)
  then show ?case using Cons by (auto simp: bind_eq_Some_conv)
qed simp

lemma vendor_properties: "init_properties s2r ds h = Some h' \<Longrightarrow> mAddExtraTestVendorConfigs h' = mAddExtraTestVendorConfigs h"
proof (induction ds arbitrary: h)
  case (Cons d ds)
  have "mAddExtraTestVendorConfigs h1 = mAddExtraTestVendorConfigs h" if "init_property s2r d h = Some h1" for h1
    using that by (auto simp: init_property_def bind_eq_Some_conv Let_def storePropInitialValue_def vendor_areas simp del: store_areas.simps dest!: vendor_supported split: if_splits)
  then show ?case using Cons by (auto simp: bind_eq_Some_conv)
qed simp

lemma start_configs:
  assumes "fake_init s2r configs (newFakeVehicleHardware g address up c) = Some h" and "keyed configs"
  shows "fake_getAllPropertyConfigs h = map snd (started_configs s2r configs)"
proof -
  let ?h0 = "newFakeVehicleHardware g address up c"
  obtain h1 h2 h3 where h: "init_properties s2r (map snd configs) ?h0 = Some h1"
    "init_frame OBD2_LIVE_FRAME (initObd2LiveFrame (clock h1 (ticks h1))) 1 h1 = Some h2"
    "init_frame OBD2_FREEZE_FRAME (initObd2FreezeFrame (clock h2 (ticks h2)) (clock h2 (ticks h2 + 1)) (clock h2 (ticks h2 + 2))) 3 h2 = Some h3"
    "h = h3\<lparr>mServerSidePropStore := setOnValuesChangeCallback True (mServerSidePropStore h3)\<rparr>"
    using assms(1) by (auto simp: fake_init_def bind_eq_Some_conv)
  have h0: "config_list (mServerSidePropStore ?h0) = []" "\<not> mAddExtraTestVendorConfigs ?h0" by (simp_all add: newFakeVehicleHardware_def config_list_def)
  have "config_list (mServerSidePropStore h1) = started_configs s2r configs" using config_list_properties [OF h(1) assms(2)] h0 by simp
  moreover have "config_list (mServerSidePropStore h2) = config_list (mServerSidePropStore h1) \<and> mAddExtraTestVendorConfigs h2 = mAddExtraTestVendorConfigs h1"
    by (rule init_frame_configs [OF h(2)]) (rule config_list_frames)
  moreover have "config_list (mServerSidePropStore h3) = config_list (mServerSidePropStore h2) \<and> mAddExtraTestVendorConfigs h3 = mAddExtraTestVendorConfigs h2"
    by (rule init_frame_configs [OF h(3)]) (rule config_list_frames)
  moreover have "\<not> mAddExtraTestVendorConfigs h1" using vendor_properties [OF h(1)] h0 by simp
  ultimately show ?thesis by (simp add: fake_getAllPropertyConfigs_def getAllConfigs_list h(4))
qed

section \<open>What clients are told\<close>

lemma find_started: "\<forall>(q, c) \<in> set cl. pc_prop c = q \<Longrightarrow> find (\<lambda>c. pc_prop c = p) (map snd cl) = map_of cl p"
  by (induction cl) auto

lemma fold_update_configs:
  "distinct (map pc_prop (map snd old @ cs)) \<Longrightarrow> \<forall>(q, c) \<in> set old. pc_prop c = q \<Longrightarrow>
   fold (\<lambda>c. AList.update (pc_prop c) c) cs old = old @ map (\<lambda>c. (pc_prop c, c)) cs"
proof (induction cs arbitrary: old)
  case (Cons c cs)
  have "pc_prop c \<notin> fst ` set old" using Cons.prems by force
  then have "AList.update (pc_prop c) c old = old @ [(pc_prop c, c)]" by (rule update_new)
  then show ?case using Cons.IH [of "old @ [(pc_prop c, c)]"] Cons.prems by simp
qed simp

lemma started_keys:
  assumes "keyed configs" and "fake_init s2r configs h = Some h'"
  shows "\<forall>(q, c) \<in> set (started_configs s2r configs). pc_prop c = q" and "distinct (map pc_prop (map snd (started_configs s2r configs)))"
    and "map_of (started_configs s2r configs) p = map_option (\<lambda>d. the (start_config s2r (cd_config d))) (map_of configs p)"
    and "wf_alist (started_configs s2r configs)"
proof -
  obtain h1 where h1: "init_properties s2r (map snd configs) h = Some h1" by (rule fake_init_supported [OF assms(2)])
  have some: "\<exists>cfg. start_config s2r (cd_config d) = Some cfg" if "(p, d) \<in> set configs" for p d
  proof -
    have "init_properties s2r ds h = Some h1 \<Longrightarrow> d \<in> set ds \<Longrightarrow> \<exists>cfg. start_config s2r (cd_config d) = Some cfg" for ds h h1
      by (induction ds arbitrary: h) (auto simp: bind_eq_Some_conv init_property_def)
    with h1 that show ?thesis by force
  qed
  show keys: "\<forall>(q, c) \<in> set (started_configs s2r configs). pc_prop c = q"
    using some start_config_fields assms(1) by (fastforce simp: started_configs_def keyed_def)
  have "map pc_prop (map snd (started_configs s2r configs)) = map fst (started_configs s2r configs)" using keys by auto
  moreover have fst: "map fst (started_configs s2r configs) = map fst configs" by (simp add: started_configs_def case_prod_beta)
  ultimately show "distinct (map pc_prop (map snd (started_configs s2r configs)))" using assms(1) by (simp add: keyed_def)
  show "wf_alist (started_configs s2r configs)" using fst assms(1) by (simp add: keyed_def)
  show "map_of (started_configs s2r configs) p = map_option (\<lambda>d. the (start_config s2r (cd_config d))) (map_of configs p)"
    by (simp add: started_configs_def map_of_map)
qed

text \<open>What a client should be told of a property: the configuration of the files, if the service supports the property.\<close>

definition told_config :: "vhal_env \<Rightarrow> DefaultVehicleHal \<Rightarrow> int32 \<Rightarrow> (int32 \<times> ConfigDeclaration) list \<Rightarrow> int32 \<Rightarrow> VehiclePropConfig option" where
  "told_config env v s2r configs p =
     (case map_of configs p of
        None \<Rightarrow> None
      | Some d \<Rightarrow> let cfg = the (start_config s2r (cd_config d)) in if isConfigSupportedForCurrentVhalVersion env cfg v then Some cfg else None)"

definition told :: "VehiclePropConfig option \<Rightarrow> ScopedAStatus \<times> VehiclePropConfig list" where
  "told answer = (case answer of None \<Rightarrow> (ServiceSpecific INVALID_ARG, []) | Some cfg \<Rightarrow> (ST_OK, [cfg]))"

lemma getPropConfigs_one: "getPropConfigs env hw h [p] v = told (hal_getConfig env hw h p v)"
  by (simp add: getPropConfigs_def told_def vectorToStableLargeParcelable_def split: option.split)

lemma map_of_filtered:
  "distinct (map fst cl) \<Longrightarrow> \<forall>(q, c) \<in> set cl. pc_prop c = q \<Longrightarrow>
   map_of (map (\<lambda>c. (pc_prop c, c)) (filter P (map snd cl))) p = (case map_of cl p of None \<Rightarrow> None | Some c \<Rightarrow> if P c then Some c else None)"
proof (induction cl)
  case (Cons x cl)
  obtain q c where x: "x = (q, c)" by fastforce
  have "map_of cl q = None" using Cons.prems(1) by (simp add: x map_of_eq_None_iff)
  then show ?case using Cons by (auto simp: x split: option.split)
qed simp

text \<open>C10. A client of the service on top of the started fake hardware is told what the configuration files say: asked for a property, the service answers
  with the loaded configuration if the property is of a supported version and refuses otherwise; asked for all properties, it gives exactly the supported
  ones; and asking for all, after which the service answers from its own copy, changes none of these answers.\<close>

theorem service_knows_configuration:
  assumes "startFakeVehicleHardware L dir overrides use s2r (newFakeVehicleHardware g address up c) = Some h"
    and "loadConfigDeclarations L dir overrides use = Some configs" and "queries_fake hw"
  shows "getPropConfigs env hw h [p] (newDefaultVehicleHal version) = told (told_config env (newDefaultVehicleHal version) s2r configs p) \<and>
    (case getAllPropConfigs env hw h (newDefaultVehicleHal version) of (all_configs, v') \<Rightarrow>
       set all_configs = {cfg. \<exists>q. told_config env (newDefaultVehicleHal version) s2r configs q = Some cfg} \<and>
       getPropConfigs env hw h [p] v' = told (told_config env (newDefaultVehicleHal version) s2r configs p))"
proof -
  let ?v = "newDefaultVehicleHal version" and ?cl = "started_configs s2r configs"
  let ?ok = "\<lambda>c. isConfigSupportedForCurrentVhalVersion env c ?v"
  have i: "fake_init s2r configs (newFakeVehicleHardware g address up c) = Some h" using assms(1,2) by (simp add: startFakeVehicleHardware_def)
  have keyed: "keyed configs" by (rule keyed_declarations [OF assms(2)])
  note all = start_configs [OF i keyed] and keys = started_keys [OF keyed i]
  have q: "hw_getAllPropertyConfigs hw h = map snd ?cl" "hw_getPropertyConfig hw p h = map_of ?cl p" for p
    using assms(3) all find_started [OF keys(1)] by (simp_all add: queries_fake_def fake_getPropertyConfig_def getPropertyConfig_default_def)
  have told: "told_config env ?v s2r configs p = (case map_of ?cl p of None \<Rightarrow> None | Some c \<Rightarrow> if ?ok c then Some c else None)" for p
    by (simp add: told_config_def keys(3) Let_def split: option.split)
  have v: "\<not> mConfigInit ?v" "mConfigsByPropId ?v = []" by (simp_all add: newDefaultVehicleHal_def)
  have one: "hal_getConfig env hw h p ?v = told_config env ?v s2r configs p"
    unfolding told by (simp add: hal_getConfig_def v q split: option.split)
  have dist: "distinct (map pc_prop (filter ?ok (map snd ?cl)))" using keys(2) by (rule distinct_map_filter)
  define v' where "v' = getAllPropConfigsFromHardwareLocked env hw h ?v"
  have v': "mConfigInit v'" "mConfigsByPropId v' = map (\<lambda>c. (pc_prop c, c)) (filter ?ok (map snd ?cl))"
    using fold_update_configs [of "[]" "filter ?ok (map snd ?cl)"] dist by (simp_all add: v'_def getAllPropConfigsFromHardwareLocked_def q v Let_def)
  note wf = keys(4)
  have after: "hal_getConfig env hw h p v' = told_config env ?v s2r configs p"
    unfolding told by (simp add: hal_getConfig_def v' map_of_filtered [OF wf keys(1)])
  have "set (filter ?ok (map snd ?cl)) = {cfg. \<exists>q. told_config env ?v s2r configs q = Some cfg}"
  proof -
    have "(\<exists>q. told_config env ?v s2r configs q = Some cfg) \<longleftrightarrow> ?ok cfg \<and> (\<exists>q. map_of ?cl q = Some cfg)" for cfg
      unfolding told by (auto split: option.splits if_splits)
    then show ?thesis using wf by (force simp: map_of_Some_iff)
  qed
  moreover have "getAllPropConfigs env hw h ?v = (filter ?ok (map snd ?cl), v')"
    by (simp add: getAllPropConfigs_def getConfigsByPropId_def v v'(2) v'_def [symmetric] comp_def)
  ultimately show ?thesis using one after by (simp add: getPropConfigs_one)
qed

section \<open>The start state of runs\<close>

lemma write_frame_inv: "store_inv s \<Longrightarrow> store_inv (snd (write_frame q dtc now sensors s))"
proof -
  assume inv: "store_inv s"
  obtain r pool where g: "getSensorProperty now dtc sensors (mValuePool s) = (r, pool)" by fastforce
  have "pool = snd (obtain_sized MIXED 0 (mValuePool s))"
    using g by (auto simp: getSensorProperty_def obtain_type_def isComplexType_def Let_def split: prod.splits)
  moreover have "vp_inv (snd (obtain_sized MIXED 0 (mValuePool s)))" by (rule obtain_sized_inv) (use inv in \<open>simp_all add: store_inv_def\<close>)
  ultimately have "store_inv (s\<lparr>mValuePool := pool\<rparr>)" using inv by (auto intro: wf_intros)
  then show ?thesis by (simp add: write_frame_def g writeValue_inv)
qed

lemma frames_inv:
  "store_inv s \<Longrightarrow> initObd2LiveFrame n config s = Some (calls, s') \<Longrightarrow> store_inv s'"
  "store_inv s \<Longrightarrow> initObd2FreezeFrame n1 n2 n3 config s = Some (calls, s') \<Longrightarrow> store_inv s'"
  by (auto simp: initObd2LiveFrame_def initObd2FreezeFrame_def Let_def case_prod_beta prod_eq_iff write_frame_inv)

abbreviation ready :: "FakeVehicleHardware \<Rightarrow> bool" where
  "ready h \<equiv> fake_start (h, None)"

lemma ready_cong: "ready h \<Longrightarrow> store_inv (mServerSidePropStore h') \<Longrightarrow> subs_part h' = subs_part h \<Longrightarrow> ready h'"
  by (simp add: fake_start_def subs_part_def)

lemma ready_store: "ready h \<Longrightarrow> store_inv s \<Longrightarrow> ready (h\<lparr>mServerSidePropStore := s\<rparr>)"
  by (simp add: fake_start_def)

lemma ready_inv: "ready h \<Longrightarrow> store_inv (mServerSidePropStore h)"
  by (simp add: fake_start_def)

lemma ready_ops:
  assumes "ready h"
  shows "ready (snd (elapsedRealtimeNano h))" "ready (snd (hw_pool (obtain_copy v) h))" "ready (snd (hw_write r us m uct h))"
proof -
  note i = ready_inv [OF assms]
  show "ready (snd (elapsedRealtimeNano h))" by (rule ready_cong [OF assms kept_store.keep_tick [OF i] kept_subs.keep_tick [OF refl]])
  show "ready (snd (hw_pool (obtain_copy v) h))" by (rule ready_cong [OF assms kept_store.keep_copy [OF i] kept_subs.keep_copy [OF refl]])
  show "ready (snd (hw_write r us m uct h))" by (rule ready_cong [OF assms kept_store.keep_write [OF i] kept_subs.keep_write [OF refl]])
qed

lemma ready_areas: "ready h \<Longrightarrow> ready (store_areas d as h)"
proof (induction as arbitrary: h)
  case (Cons a as)
  show ?case using ready_ops [OF Cons.prems]
    by (cases "initial_value_for d a") (auto simp: case_prod_beta Let_def intro!: Cons.IH ready_ops)
qed simp

lemma ready_supported: "init_areas d acs h = Some h' \<Longrightarrow> ready h \<Longrightarrow> ready h'"
proof (induction acs arbitrary: h)
  case (Cons ac acs)
  have "ready h1" if "init_supported d ac h = Some h1" for h1
    using that Cons.prems(2)
    by (auto simp: init_supported_def setMinSupportedValueLocked_def setMaxSupportedValueLocked_def fake_start_def Let_def split: option.splits if_splits)
  then show ?case using Cons by (auto simp: bind_eq_Some_conv)
qed simp

lemma ready_property:
  assumes "init_property s2r d h = Some h'" and "ready h"
  shows "ready h'"
proof -
  obtain cfg where cfg: "start_config s2r (cd_config d) = Some cfg" using assms(1) by (auto simp: init_property_def bind_eq_Some_conv)
  define h1 where "h1 = h\<lparr>mServerSidePropStore := registerProperty cfg (token_function (pc_prop cfg)) (mServerSidePropStore h)\<rparr>"
  have h1: "ready h1" unfolding h1_def by (rule ready_store [OF assms(2) registerProperty_inv [OF ready_inv [OF assms(2)]]])
  then have "ready (h1\<lparr>hvacPowerDependentProps := ps\<rparr>)" for ps by (simp add: fake_start_def)
  with h1 have "ready (storePropInitialValue d h1)" by (simp add: storePropInitialValue_def Let_def ready_areas)
  moreover have "h' = h1 \<or> init_areas d (areaConfigs cfg) (storePropInitialValue d h1) = Some h'"
    using assms(1) cfg by (auto simp: init_property_def h1_def Let_def split: if_splits)
  ultimately show ?thesis using h1 ready_supported by blast
qed

lemma ready_properties: "init_properties s2r ds h = Some h' \<Longrightarrow> ready h \<Longrightarrow> ready h'"
  by (induction ds arbitrary: h) (auto simp: bind_eq_Some_conv dest: ready_property)

lemma ready_frame:
  assumes "init_frame q f n h = Some h'" and "ready h"
    and "\<And>config calls s'. f config (mServerSidePropStore h) = Some (calls, s') \<Longrightarrow> store_inv s'"
  shows "ready h'"
proof (cases "getPropConfig q (mServerSidePropStore h)")
  case (Inr config)
  then obtain calls s' where c: "f config (mServerSidePropStore h) = Some (calls, s')"
    and h': "h' = fold store_callback calls (h\<lparr>mServerSidePropStore := s', ticks := ticks h + n\<rparr>)"
    using assms(1) by (auto simp: init_frame_def bind_eq_Some_conv)
  show ?thesis unfolding h' by (rule ready_cong [OF assms(2)]) (simp_all add: callbacks_keep assms(3) [OF c])
qed (use assms in \<open>simp add: init_frame_def\<close>)


section \<open>Examples\<close>

text \<open>An implementation of the interface that answers the queries of the fake hardware and accepts all calls.\<close>

definition fake_interface :: "FakeVehicleHardware IVehicleHardware" where
  "fake_interface =
     \<lparr>hw_subscription = (\<lambda>_ h. (OK, h)), hw_getAllPropertyConfigs = fake_getAllPropertyConfigs, hw_getPropertyConfig = fake_getPropertyConfig,
      hw_getValues = (\<lambda>_ h. (OK, h)), hw_setValues = (\<lambda>_ h. (OK, h)), hw_checkHealth = (\<lambda>_. OK),
      hw_dump = (\<lambda>_ h. (\<lparr>callerShouldDumpState = True, dump_buffer = [], refreshPropertyConfigs = False\<rparr>, h)),
      hw_getMinMaxSupportedValues = fake_getMinMaxSupportedValues, hw_getSupportedValuesLists = fake_getSupportedValuesLists\<rparr>"

lemma example_started: "\<exists>h. startFakeVehicleHardware example_loader example_dir None False 0 example_car = Some h"
proof -
  have "fake_init 0 [(0x15400500, example_decl)] example_car \<noteq> None" by code_simp
  then show ?thesis by (auto simp: startFakeVehicleHardware_def example_configs)
qed


theorem service_knows_configuration_witness:
  "\<exists>h. startFakeVehicleHardware example_loader example_dir None False 0 example_car = Some h \<and>
     getPropConfigs sample_env fake_interface h [0x15400500] (newDefaultVehicleHal 0) = (ST_OK, [cd_config example_decl])"
proof -
  obtain h where h: "startFakeVehicleHardware example_loader example_dir None False 0 example_car = Some h" using example_started by blast
  have q: "queries_fake fake_interface" by (simp add: queries_fake_def fake_interface_def)
  have "told (told_config sample_env (newDefaultVehicleHal 0) 0 [(0x15400500, example_decl)] 0x15400500) = (ST_OK, [cd_config example_decl])" by code_simp
  with service_knows_configuration [OF h [unfolded example_car_def] example_configs q, of sample_env "0x15400500" 0] h show ?thesis by simp
qed

end
