(* ===== verification/Spec2Isabelle.thy ===== *)
theory Spec2Isabelle
  imports VehicleHalProofs ConnectedClient PropertyStore Gateway GrpcStreams RecurrentTimer UserHal Obd2 FakeRequests FakeAdas GeneratorRuns
    JsonConfigExceptions FakeDumpProofs FakeCommandsProofs FakeService
begin

text \<open>
  A model of the vehicle hardware abstraction layer (VHAL) of this repository and theorems about it.

  \<^bold>\<open>The program.\<close> Applications talk to one service, \<^verbatim>\<open>DefaultVehicleHal\<close>, through a binder interface: they read
  and write vehicle properties, subscribe to their changes and ask which values are supported. The service checks
  every request against the configuration of the property and hands the valid ones to an implementation of
  \<^verbatim>\<open>IVehicleHardware\<close>, which answers later through a callback. Between the two stand the pending request pool
  (requests without an answer time out), the connected clients (they route results back to the application that
  asked), the subscription manager (it combines what the clients subscribed to into one subscription of the
  hardware per property and area, and finds the clients for each event) and the event queue with its batching
  consumer. Implementations of the hardware keep their values in the property store, which takes its values
  from an object pool; the fake hardware adds OBD2 frames, which it keeps in that store, and the answers of a user HAL, and
  a recurrent timer drives its continuous properties. The hardware may be in another process: a GRPC server in front of it
  and a client that implements \<^verbatim>\<open>IVehicleHardware\<close> translate calls and events to protobuf messages and back. The gateway
  is a client of such a server: it polls properties and forwards those that changed to other nodes.

  \<^bold>\<open>Theories and sources\<close> (paths under \<^verbatim>\<open>src/packages\<close>; the utilities are in
  \<^verbatim>\<open>vhal-types/aidl/impl/4/utils/common\<close>, the service is in \<^verbatim>\<open>vhal-server/aidl/impl/4/vhal\<close>):

  \<^item> \<open>VhalPrelude\<close>: integer types, association lists as finite maps, lemma collections and the locale
    \<open>step_invariant\<close> (an invariant of a step relation holds in every reachable state) that every state machine below
    interprets.
  \<^item> \<open>Float32\<close>: IEEE binary32 numbers as 32-bit words with the comparisons and operations the code uses,
    rounding to nearest even; \<open>log10f\<close> is not defined here, it is an argument where the code calls it.
  \<^item> \<open>VehicleTypes\<close>: the AIDL enumerations and parcelables, with the equality and order the header generator
    \<^verbatim>\<open>vhal-types/scripts/generate_aidl_headers.py\<close> emits.
  \<^item> \<open>VehicleUtils\<close>: \<^verbatim>\<open>VehicleUtils.h\<close> and \<^verbatim>\<open>VehicleUtils.cpp\<close>. Shown: the fields of a property id, that created
    values pass the checks, and what the checks of mixed values and of ranges accept.
  \<^item> \<open>ObjectPool\<close>: \<^verbatim>\<open>VehicleObjectPool.h\<close> and \<^verbatim>\<open>.cpp\<close>. Shown: a copy from the pool equals its source whatever was
    recycled before, the memory of each internal pool stays within its bound, and what an
    uninitialised counter does.
  \<^item> \<open>PropertyStore\<close>: \<^verbatim>\<open>VehiclePropertyStore.h\<close> and \<^verbatim>\<open>.cpp\<close>. Shown: writing refines an abstract store, timestamps
    never go back, reading gives what was written, and an invariant of all reachable stores.
  \<^item> \<open>RequestPool\<close>: \<^verbatim>\<open>PendingRequestPool.h\<close> and \<^verbatim>\<open>.cpp\<close>. Shown: when a request is accepted, that each accepted
    request is finished or timed out exactly once or still pending, and which requests a check of timeouts expires.
    The locale \<open>request_tracker\<close> is the contract clients of the pool rely on.
  \<^item> \<open>ConnectedClient\<close>: \<^verbatim>\<open>ConnectedClient.h\<close> and \<^verbatim>\<open>.cpp\<close>. Shown: only results of pending requests are delivered.
  \<^item> \<open>EventQueue\<close>: \<^verbatim>\<open>ConcurrentQueue.h\<close>. The queue is an instance of the locale \<open>closable_fifo\<close>; the worker thread of
    the batching consumer is a step relation. Shown: events arrive in order, none lost or doubled, and
    the worker ends once it is asked to and the queue is deactivated.
  \<^item> \<open>SubscriptionManager\<close>, \<open>SubscriptionRuns\<close>: \<^verbatim>\<open>SubscriptionManager.h\<close> and \<^verbatim>\<open>.cpp\<close>. Shown: after any sequence of calls
    the hardware is subscribed to exactly what the clients want, with the combined rate and resolution; the maps
    of the manager agree with each other also when the hardware refuses calls; events reach exactly
    the subscribed clients; and four defects, each as a theorem about a concrete run.
  \<^item> \<open>DefaultVehicleHal\<close>, \<open>VehicleHalProofs\<close>: \<^verbatim>\<open>DefaultVehicleHal.h\<close> and \<^verbatim>\<open>.cpp\<close>. Shown: which requests of a batch are
    answered at once, which are forwarded and become pending; that checked subscriptions are valid; and
    that a client whose death was handled hears nothing more.
  \<^item> \<open>ProtoConverter\<close>: \<^verbatim>\<open>ProtoMessageConverter.cpp\<close> in \<^verbatim>\<open>vhal-ipc-grpc/aidl/impl/4/grpc\<close>. Shown: what is converted to a
    message and back is unchanged, up to the differences that the conversion itself makes, which are stated.
  \<^item> \<open>GrpcProxy\<close>, \<open>GrpcStreams\<close>: \<^verbatim>\<open>GRPCVehicleHardware.cpp\<close> and \<^verbatim>\<open>GRPCVehicleProxyServer.cpp\<close> with their headers. Shown: a client
    of the proxy gets what the hardware behind it answers; events reach each connection in order and none is lost while
    the connection lasts; timestamps of accepted values are consistent; and two defects: the limit on retries has no
    effect, and the destructor of the client may wait forever, with the exact condition.
  \<^item> \<open>Gateway\<close>: \<^verbatim>\<open>GatewayConfig\<close>, \<^verbatim>\<open>NodeForwarder\<close> and \<^verbatim>\<open>VhalGateway\<close> in \<^verbatim>\<open>vhal-gateway/src\<close>. Shown: each node is sent exactly the
    batches the detected changes give rise to, in order; after a poll the values recorded as sent are those of the vehicle;
    and a forwarder that is destroyed first sends what it has queued.
  \<^item> \<open>RecurrentTimer\<close>: \<^verbatim>\<open>RecurrentTimer.h\<close>, \<^verbatim>\<open>.cpp\<close> and the stub \<^verbatim>\<open>vhal-types/stubs/utils/Looper.h\<close>. Shown: a registered callback always has
    a message waiting, the next time is in the future and within one interval, and three defects.
  \<^item> \<open>UserHal\<close>: \<^verbatim>\<open>UserHalHelper.cpp\<close> and \<^verbatim>\<open>FakeUserHal.cpp\<close> in \<^verbatim>\<open>vhal-server/aidl/impl/4/fake_impl/userhal\<close>. Shown: the parsers accept exactly
    the requests written in the documented layout and give them back; answers carry the request they answer; and which
    requests make the parsers throw.
  \<^item> \<open>Obd2\<close>: \<^verbatim>\<open>Obd2SensorStore\<close> and \<^verbatim>\<open>FakeObd2Frame\<close> in \<^verbatim>\<open>vhal-server/aidl/impl/4/fake_impl/obd2frame\<close>. Shown: a frame holds the last value
    of each sensor with its bit set, and which freeze frames are there after they were written and cleared.
  \<^item> \<open>FakeHardware\<close>, \<open>FakeValues\<close>: \<^verbatim>\<open>FakeVehicleHardware.h\<close> and \<^verbatim>\<open>.cpp\<close> in \<^verbatim>\<open>vhal-server/aidl/impl/4/fake_impl/hardware\<close>: subscriptions and the
    timer; get and set with the special properties, and the request handlers. \<open>FakeInvariants\<close> has the locale \<open>hw_kept\<close>: what every access to the
    store keeps, all operations keep. \<open>FakeRuns\<close>: the interleavings of requests, subscriptions and the timer thread. Shown: subscribed values are refreshed at
    their interval and nothing else is.
  \<^item> \<open>FakeAccess\<close>, \<open>FakeWrites\<close>, \<open>FakeCar\<close>: the operations in terms of the contents of the store, runs of stamped writes, and small vehicles for the
    witnesses.
  \<^item> \<open>FakeClimate\<close>, \<open>FakeAdas\<close>, \<open>FakeRequests\<close>: shown are the gating by the power of the climate control, the synchronisation of temperatures, the
    switching of driver assistance with the refusal of commands while it is off, setting and getting of all other properties, and that every
    request is answered once and in order.
  \<^item> \<open>Generators\<close>, \<open>GeneratorRuns\<close>, \<open>JsonEvents\<close>: \<^verbatim>\<open>GeneratorHub\<close>, \<^verbatim>\<open>LinearFakeValueGenerator\<close> and \<^verbatim>\<open>JsonFakeValueGenerator\<close> in
    \<^verbatim>\<open>vhal-server/aidl/impl/4/fake_impl/GeneratorHub\<close>. The locale \<open>event_source\<close> is the interface of a generator. Shown: events of a file are replayed at the
    distances of the file as often as asked for; the hub delivers events in the order of their times and none too early; diagnostic events have the bits the
    sensor store would set; and two defects: replacing a generator, and vendor sensors in diagnostic events.
  \<^item> \<open>JsonLibrary\<close>: the functions of the JSON library that the code calls, as a record of functions, and the locale \<open>json_library\<close> with the documented
    behaviour the code relies on.
  \<^item> \<open>JsonConfigLoader\<close>, \<open>JsonConfigErrors\<close>, \<open>JsonConfigProofs\<close>, \<open>JsonConfigExceptions\<close>: \<^verbatim>\<open>JsonConfigLoader.cpp\<close> in
    \<^verbatim>\<open>vhal-server/aidl/impl/4/default_config/JsonConfigLoader\<close>. Shown: a file is loaded as a whole or gives the errors of all its properties; the declarations are well
    formed; where each field comes from (area, property, default); and the inputs on which the loader throws.
  \<^item> \<open>FakeStart\<close>, \<open>FakeStartProofs\<close>: the constructor, \<^verbatim>\<open>init\<close>, \<^verbatim>\<open>loadConfigDeclarations\<close> and the supported-value queries of the fake hardware. Shown: after the start exactly the
    properties of the loaded files are registered, and every area reads as its initial value. \<open>FakeSupported\<close>: the queries for limits and lists of values
    answer what the files declare.
  \<^item> \<open>FakeService\<close>: the components together. Shown: a client of the service on top of the started fake hardware is told the configurations of the files, and
    the start leads to a state from which the runs of \<open>FakeRuns\<close> begin.
  \<^item> \<open>FakeDump\<close>, \<open>FakeGenerate\<close>, \<open>FakeCommands\<close>, \<open>FakeDumpProofs\<close>, \<open>FakeCommandsProofs\<close>: the text commands of \<^verbatim>\<open>dump\<close>, from the words of the command line to their effect. Shown:
    the options that describe a value are parsed back to it; a saved value is restored; a refused \<^verbatim>\<open>--genfakedata\<close> changes nothing, and one of its forms
    uses a null generator; the list of subscriptions is exact; and, by the locale \<open>dump_kept\<close> that extends \<open>hw_kept\<close>, every command keeps the invariants.

  \<^bold>\<open>Conventions.\<close> \<open>int32_t\<close> and \<open>int64_t\<close> are words read by \<open>sint\<close>; vectors are lists; hash maps and sets are
  association lists and lists without duplicates, in an order nothing depends on. An error result is the left side of a
  sum; \<open>None\<close> marks behaviour the language leaves undefined (an index out of range, a conversion of a float out of range),
  so a theorem about \<open>Some\<close> also says that it does not happen. A method is a function on the state of its object;
  calls under a lock are single steps, threads are step relations whose steps interleave. Time is an argument.
  The hardware is an argument too: a function from its state and a call to a status and a new state. Messages to clients
  are returned as values.

  \<^bold>\<open>Loops.\<close> Loops over containers are structural recursion. The retries of the GRPC client may go on forever and are a
  partial function whose \<open>None\<close> is not returning. Threads are runs of a step function; where a theorem gives a number of
  steps it says that so many are enough.

  \<^bold>\<open>Not modelled.\<close> Logging, messages of errors and the texts of the commands; the delivery of binder calls; the threads the
  service starts and its destructor; the GRPC transport, the wire format of protobuf, the file system
  and the JSON parser, which are libraries (what the parser returns is an argument of the loaders); the tables and enumerations that the build
  generates, which are arguments. Of the fake hardware the test properties the build leaves out and the destructor; the programs that only start
  processes.
\<close>

end
